(* ===== verification/Mnemo_Prelude.thy ===== *)
theory Mnemo_Prelude
  imports Complex_Main "HOL-Library.Word" "HOL-Library.Char_ord" "HOL-Library.List_Lexorder"
begin

text \<open>
  The types and generic lemmas the component theories share.

  Conventions of the whole development:
  \<^item> a Rust \<^verbatim>\<open>String\<close> is its UTF-8 byte sequence, a HOL \<open>string\<close>; \<open>length\<close> is the
    byte length \<^verbatim>\<open>len()\<close> and the lexicographic order on bytes is Rust's \<^verbatim>\<open>Ord\<close>;
  \<^item> \<^verbatim>\<open>u64\<close>, \<^verbatim>\<open>u32\<close> and \<^verbatim>\<open>Uuid\<close> are words of their width, \<open>+\<close> wraps around as in the
    release profile of the workspace (which does not set \<^verbatim>\<open>overflow-checks\<close>);
  \<^item> \<^verbatim>\<open>usize\<close> values that are lengths of collections are \<open>nat\<close>;
  \<^item> \<^verbatim>\<open>DateTime<Utc>\<close> is the number of nanoseconds since the Unix epoch, an \<open>int\<close>;
    \<^verbatim>\<open>Utc::now()\<close> and \<^verbatim>\<open>Uuid::now_v7()\<close> are arguments of the functions that call them,
    one argument per call;
  \<^item> \<^verbatim>\<open>Result<A, E>\<close> is the sum \<open>E + A\<close>, \<open>Inl\<close> for the error.
\<close>

section \<open>Machine integers, identifiers and time\<close>

type_synonym u8 = "8 word"
type_synonym u32 = "32 word"
type_synonym u64 = "64 word"
type_synonym uuid = "128 word"
type_synonym timestamp = int

abbreviation ns_per_hour :: int where "ns_per_hour \<equiv> 3600000000000"
abbreviation ns_per_day :: int where "ns_per_day \<equiv> 86400000000000"

text \<open>\<^verbatim>\<open>DateTime::timestamp_millis\<close> rounds towards minus infinity.\<close>

definition timestamp_millis :: "timestamp \<Rightarrow> int" where
  "timestamp_millis t = t div 1000000"

text \<open>\<^verbatim>\<open>TimeDelta::num_seconds\<close> rounds towards zero.\<close>

definition num_seconds :: "int \<Rightarrow> int" where
  "num_seconds d = sgn d * (\<bar>d\<bar> div 1000000000)"

lemma num_seconds_nonneg: "0 \<le> d \<Longrightarrow> num_seconds d = d div 1000000000"
  by (cases "d = 0") (auto simp: num_seconds_def)

text \<open>The increments of the model, away from the point where they wrap around.\<close>

lemma unat_inc: "unat (x :: 'a::len word) + 1 < 2 ^ LENGTH('a) \<Longrightarrow> unat (x + 1) = unat x + 1"
  by (simp add: unat_word_ariths)

lemma word_less_inc: "unat (x :: 'a::len word) + 1 < 2 ^ LENGTH('a) \<Longrightarrow> x < x + 1"
  by (simp add: word_less_nat_alt unat_inc)

lemma unat_not_max: "x \<noteq> -1 \<Longrightarrow> unat (x :: 'a::len word) + 1 < 2 ^ LENGTH('a)"
proof -
  assume "x \<noteq> -1"
  then have "x < -1" by (simp add: word_order.not_eq_extremum)
  then have "unat x < unat (-1 :: 'a word)" by (simp add: word_less_nat_alt)
  then show ?thesis by (simp add: unsigned_minus_1_eq_mask mask_eq_exp_minus_1)
qed

lemma unat_max: "unat (max a (b :: 'a::len word)) = max (unat a) (unat b)"
  by (simp add: max_def word_le_nat_alt)

lemma unat_max_inc:
  "unat (a :: 'a::len word) + 1 < 2 ^ LENGTH('a) \<Longrightarrow> unat b + 1 < 2 ^ LENGTH('a) \<Longrightarrow>
   unat (max a b + 1) = max (unat a) (unat b) + 1"
  using unat_inc [of "max a b"] by (simp add: unat_max max_def [of "unat a"] split: if_splits)

section \<open>Orderings\<close>

text \<open>\<^verbatim>\<open>std::cmp::Ordering\<close>, \<^verbatim>\<open>Ord::cmp\<close> and \<^verbatim>\<open>Ordering::then_with\<close>.\<close>

datatype ordering = Less | Equal | Greater

definition compare :: "'a::linorder \<Rightarrow> 'a \<Rightarrow> ordering" where
  "compare a b = (if a < b then Less else if a = b then Equal else Greater)"

fun then_with :: "ordering \<Rightarrow> ordering \<Rightarrow> ordering" where
  "then_with Equal r = r"
| "then_with r _ = r"

lemma compare_simps [simp]:
  "compare a b = Less \<longleftrightarrow> a < b" "compare a b = Equal \<longleftrightarrow> a = b" "compare a b = Greater \<longleftrightarrow> b < a"
  by (auto simp: compare_def)

lemma then_with_simps [simp]:
  "then_with r s = Less \<longleftrightarrow> r = Less \<or> r = Equal \<and> s = Less"
  "then_with r s = Equal \<longleftrightarrow> r = Equal \<and> s = Equal"
  by (cases r; simp)+

section \<open>Single-precision floats, as compared\<close>

text \<open>
  An \<^verbatim>\<open>f32\<close> is a finite value (a rational), an infinity or NaN. The components modelled here
  only compare, copy and clamp floats, which is exact on this representation; no
  operation rounds. The two zeros are equal under every comparison and are identified.
\<close>

datatype f32 = Fin rat | Inf | NegInf | NaN

fun f32_lt :: "f32 \<Rightarrow> f32 \<Rightarrow> bool" where
  "f32_lt NaN _ = False"
| "f32_lt _ NaN = False"
| "f32_lt (Fin x) (Fin y) = (x < y)"
| "f32_lt _ NegInf = False"
| "f32_lt NegInf _ = True"
| "f32_lt Inf _ = False"
| "f32_lt _ Inf = True"

text \<open>\<^verbatim>\<open>f32::clamp\<close>: NaN stays NaN.\<close>

definition f32_clamp :: "f32 \<Rightarrow> f32 \<Rightarrow> f32 \<Rightarrow> f32" where
  "f32_clamp lo hi x = (if f32_lt x lo then lo else if f32_lt hi x then hi else x)"

definition f32_in :: "rat \<Rightarrow> rat \<Rightarrow> f32 \<Rightarrow> bool" where
  "f32_in lo hi x \<longleftrightarrow> (case x of Fin r \<Rightarrow> lo \<le> r \<and> r \<le> hi | _ \<Rightarrow> False)"

lemma f32_clamp_in:
  "lo \<le> hi \<Longrightarrow> x \<noteq> NaN \<Longrightarrow> f32_in lo hi (f32_clamp (Fin lo) (Fin hi) x)"
  by (cases x) (auto simp: f32_clamp_def f32_in_def)

lemma f32_clamp_idem:
  "lo \<le> hi \<Longrightarrow> f32_clamp (Fin lo) (Fin hi) (f32_clamp (Fin lo) (Fin hi) x) = f32_clamp (Fin lo) (Fin hi) x"
  by (cases x) (auto simp: f32_clamp_def)

lemma f32_lt_irrefl [simp]: "\<not> f32_lt x x"
  by (cases x) auto

lemma f32_lt_trans: "f32_lt x y \<Longrightarrow> f32_lt y z \<Longrightarrow> f32_lt x z"
  by (cases x; cases y; cases z) auto

section \<open>Strings\<close>

definition is_ascii_alphanumeric :: "char \<Rightarrow> bool" where
  "is_ascii_alphanumeric c \<longleftrightarrow>
     CHR ''0'' \<le> c \<and> c \<le> CHR ''9'' \<or> CHR ''A'' \<le> c \<and> c \<le> CHR ''Z'' \<or> CHR ''a'' \<le> c \<and> c \<le> CHR ''z''"

text \<open>
  \<^verbatim>\<open>to_ascii_lowercase\<close>, and \<^verbatim>\<open>to_lowercase\<close> on ASCII text; the bytes of a non-ASCII
  character are left as they are (Unicode case mapping is not modelled).
\<close>

definition lower_char :: "char \<Rightarrow> char" where
  "lower_char c = (if CHR ''A'' \<le> c \<and> c \<le> CHR ''Z'' then char_of (of_char c + 32 :: nat) else c)"

definition lowercase :: "string \<Rightarrow> string" where
  "lowercase s = map lower_char s"

definition eq_ignore_ascii_case :: "string \<Rightarrow> string \<Rightarrow> bool" where
  "eq_ignore_ascii_case a b \<longleftrightarrow> lowercase a = lowercase b"

text \<open>The substring test \<^verbatim>\<open>str::contains\<close>.\<close>

fun is_prefix_of :: "string \<Rightarrow> string \<Rightarrow> bool" where
  "is_prefix_of [] _ = True"
| "is_prefix_of (_ # _) [] = False"
| "is_prefix_of (x # xs) (y # ys) = (x = y \<and> is_prefix_of xs ys)"

fun str_contains :: "string \<Rightarrow> string \<Rightarrow> bool" where
  "str_contains [] pat = (pat = [])"
| "str_contains (c # s) pat = (is_prefix_of pat (c # s) \<or> str_contains s pat)"

lemma is_prefix_of_iff: "is_prefix_of p s \<longleftrightarrow> (\<exists>z. s = p @ z)"
  by (induction p s rule: is_prefix_of.induct) auto

lemma str_contains_iff: "str_contains s p \<longleftrightarrow> (\<exists>u v. s = u @ p @ v)"
proof (induction s)
  case (Cons c s)
  show ?case
  proof
    assume "str_contains (c # s) p"
    then consider z where "c # s = p @ z" | u v where "s = u @ p @ v"
      using Cons.IH by (auto simp: is_prefix_of_iff)
    then show "\<exists>u v. c # s = u @ p @ v"
    proof cases
      case 1
      then have "c # s = [] @ p @ z" by simp
      then show ?thesis by blast
    next
      case 2
      then have "c # s = (c # u) @ p @ v" by simp
      then show ?thesis by blast
    qed
  next
    assume "\<exists>u v. c # s = u @ p @ v"
    then obtain u v where "c # s = u @ p @ v" by blast
    then show "str_contains (c # s) p"
    proof (cases u)
      case Nil
      with \<open>c # s = u @ p @ v\<close> have "is_prefix_of p (c # s)"
        by (simp only: is_prefix_of_iff) auto
      then show ?thesis by simp
    next
      case (Cons d u')
      with \<open>c # s = u @ p @ v\<close> have "s = u' @ p @ v" by simp
      with Cons.IH show ?thesis by auto
    qed
  qed
qed simp

text \<open>\<^verbatim>\<open>str::trim\<close> on ASCII white space.\<close>

definition is_space :: "char \<Rightarrow> bool" where
  "is_space c \<longleftrightarrow> c = CHR '' '' \<or> (CHR 0x09 \<le> c \<and> c \<le> CHR 0x0D)"

definition trim :: "string \<Rightarrow> string" where
  "trim s = rev (dropWhile is_space (rev (dropWhile is_space s)))"

lemma rev_dropWhile_length: "length (trim s) \<le> length s"
proof -
  have "length (dropWhile is_space (rev (dropWhile is_space s))) \<le> length (rev (dropWhile is_space s))"
    by (rule length_dropWhile_le)
  also have "\<dots> \<le> length s" by (simp add: length_dropWhile_le)
  finally show ?thesis by (simp add: trim_def)
qed

lemma set_trim: "set (trim s) \<subseteq> set s"
  by (auto simp: trim_def dest!: set_dropWhileD)

lemma trim_idem [simp]: "trim (trim s) = trim s"
proof -
  let ?a = "dropWhile is_space s"
  let ?b = "dropWhile is_space (rev ?a)"
  have dw: "dropWhile is_space (rev ?b) = rev ?b"
  proof (cases "rev ?b")
    case (Cons x xs)
    have "\<exists>ys. rev ?a = ys @ ?b"
      by (metis takeWhile_dropWhile_id)
    then obtain ys where "rev ?a = ys @ ?b" by blast
    then have "?a = rev ?b @ rev ys" by (metis rev_append rev_rev_ident)
    then have "hd ?a = x" "?a \<noteq> []" using Cons by simp_all
    then have "\<not> is_space x" using hd_dropWhile [of is_space s] by simp
    then show ?thesis using Cons by simp
  next
    case Nil
    then show ?thesis by (simp only: dropWhile.simps)
  qed
  have "dropWhile is_space ?b = ?b" by (simp add: dropWhile_idem)
  with dw show ?thesis by (simp add: trim_def)
qed

text \<open>Decimal rendering, as \<^verbatim>\<open>to_string\<close> prints an unsigned or a signed integer.\<close>

definition digit :: "nat \<Rightarrow> char" where
  "digit d = char_of (48 + d)"

fun nat_to_string :: "nat \<Rightarrow> string" where
  "nat_to_string n = (if n < 10 then [digit n] else nat_to_string (n div 10) @ [digit (n mod 10)])"

declare nat_to_string.simps [simp del]

definition int_to_string :: "int \<Rightarrow> string" where
  "int_to_string i = (if i < 0 then CHR ''-'' # nat_to_string (nat (- i)) else nat_to_string (nat i))"

lemma of_char_digit: "d < 10 \<Longrightarrow> (of_char (digit d) :: nat) = 48 + d"
proof -
  assume "d < 10"
  then have "(48 + d) mod 256 = 48 + d" by (intro mod_less) linarith
  then show ?thesis by (simp only: digit_def of_char_of)
qed

lemma digit_inj: "a < 10 \<Longrightarrow> b < 10 \<Longrightarrow> digit a = digit b \<Longrightarrow> a = b"
  by (metis add_left_cancel of_char_digit)

definition is_digit :: "char \<Rightarrow> bool" where
  "is_digit c \<longleftrightarrow> (\<exists>d<10. c = digit d)"

lemma nat_to_string_digits: "c \<in> set (nat_to_string n) \<Longrightarrow> is_digit c"
proof (induction n rule: nat_to_string.induct)
  case (1 n)
  have small: "is_digit (digit d)" if "d < 10" for d
    using that by (auto simp: is_digit_def)
  show ?case
    using "1.prems" "1.IH" small [of n] small [of "n mod 10"]
    by (subst (asm) nat_to_string.simps) (auto split: if_splits)
qed

lemma nat_to_string_Nil [simp]: "nat_to_string n \<noteq> []"
  by (subst nat_to_string.simps) simp

lemma nat_to_string_inj: "nat_to_string m = nat_to_string n \<Longrightarrow> m = n"
proof (induction m arbitrary: n rule: nat_to_string.induct)
  case (1 m)
  note eq = "1.prems"
  have big: "nat_to_string (k div 10) @ [digit (k mod 10)] \<noteq> [digit j]" for k j
    by (metis append_self_conv2 butlast_snoc butlast.simps(2) nat_to_string_Nil)
  show ?case
  proof (cases "m < 10")
    case True
    then have "n < 10"
      using eq big [of n m] by (simp add: nat_to_string.simps [of m] nat_to_string.simps [of n] split: if_splits)
    with True eq show ?thesis
      by (simp add: nat_to_string.simps [of m] nat_to_string.simps [of n] digit_inj)
  next
    case False
    then have n: "\<not> n < 10"
      using eq big [of m n] by (auto simp: nat_to_string.simps [of m] nat_to_string.simps [of n])
    with False eq have "nat_to_string (m div 10) = nat_to_string (n div 10)" "digit (m mod 10) = digit (n mod 10)"
      by (simp_all add: nat_to_string.simps [of m] nat_to_string.simps [of n])
    with "1.IH" False have "m div 10 = n div 10" "m mod 10 = n mod 10"
      by (simp_all add: digit_inj)
    then show ?thesis by (metis div_mult_mod_eq)
  qed
qed

lemma digit_neq_pipe: "d < 10 \<Longrightarrow> digit d \<noteq> CHR ''|''" "d < 10 \<Longrightarrow> digit d \<noteq> CHR ''-''"
  using of_char_digit [of d] by auto

lemma int_to_string_inj: "int_to_string i = int_to_string j \<Longrightarrow> i = j"
proof -
  assume eq: "int_to_string i = int_to_string j"
  have nd: "CHR ''-'' # xs \<noteq> nat_to_string k" for xs k
    using nat_to_string_digits [of "CHR ''-''" k] digit_neq_pipe(2)
    by (metis is_digit_def list.set_intros(1))
  from eq show ?thesis
    by (auto simp: int_to_string_def nd nd [symmetric] split: if_splits dest!: nat_to_string_inj)
qed

section \<open>JSON values\<close>

text \<open>
  \<^verbatim>\<open>serde_json::Value\<close>. A number is kept as its text, which nothing modelled here reads;
  an object is the list of its entries in the map's iteration order.
\<close>

datatype json =
    JNull
  | JBool bool
  | JNumber string
  | JString string
  | JArray "json list"
  | JObject "(string \<times> json) list"

end
