(* ===== verification/Hlc.thy ===== *)
theory Hlc
  imports Mnemo_Prelude
begin

text \<open>
  Node identities and the hybrid logical clock of \<^verbatim>\<open>mnemo-core/src/sync.rs\<close>: timestamps
  with their total order, and the clock state with its two events, \<^verbatim>\<open>now\<close> and
  \<^verbatim>\<open>receive\<close>. The lemmas show that the timestamps a node issues increase strictly and
  follow every timestamp it has received, as long as no counter reaches its last value.
\<close>

section \<open>Timestamps\<close>

type_synonym node_id = string

datatype hlc_timestamp = Hlc (wall_ms: u64) (ts_counter: u32) (ts_node: node_id)

definition hlc_cmp :: "hlc_timestamp \<Rightarrow> hlc_timestamp \<Rightarrow> ordering" where
  "hlc_cmp a b =
     then_with (then_with (compare (wall_ms a) (wall_ms b)) (compare (ts_counter a) (ts_counter b)))
       (compare (ts_node a) (ts_node b))"

instantiation hlc_timestamp :: linorder
begin

definition less_hlc_timestamp :: "hlc_timestamp \<Rightarrow> hlc_timestamp \<Rightarrow> bool" where
  "less_hlc_timestamp a b \<longleftrightarrow> hlc_cmp a b = Less"

definition less_eq_hlc_timestamp :: "hlc_timestamp \<Rightarrow> hlc_timestamp \<Rightarrow> bool" where
  "less_eq_hlc_timestamp a b \<longleftrightarrow> hlc_cmp a b \<noteq> Greater"

instance
proof
  fix x y z :: hlc_timestamp
  have neg: "hlc_cmp a b \<noteq> Greater \<longleftrightarrow> hlc_cmp a b = Less \<or> hlc_cmp a b = Equal" for a b
    by (cases "hlc_cmp a b") auto
  show "x < y \<longleftrightarrow> x \<le> y \<and> \<not> y \<le> x"
    unfolding less_hlc_timestamp_def less_eq_hlc_timestamp_def neg by (auto simp: hlc_cmp_def)
  show "x \<le> x"
    unfolding less_eq_hlc_timestamp_def neg by (simp add: hlc_cmp_def)
  show "x \<le> y \<Longrightarrow> y \<le> z \<Longrightarrow> x \<le> z"
    unfolding less_eq_hlc_timestamp_def neg by (auto simp: hlc_cmp_def)
  show "x \<le> y \<Longrightarrow> y \<le> x \<Longrightarrow> x = y"
    unfolding less_eq_hlc_timestamp_def neg by (cases x; cases y) (auto simp: hlc_cmp_def)
  show "x \<le> y \<or> y \<le> x"
    unfolding less_eq_hlc_timestamp_def neg by (auto simp: hlc_cmp_def)
qed

end

lemma hlc_less_iff:
  "a < b \<longleftrightarrow> wall_ms a < wall_ms b \<or> wall_ms a = wall_ms b \<and>
     (ts_counter a < ts_counter b \<or> ts_counter a = ts_counter b \<and> ts_node a < ts_node b)"
  by (auto simp: less_hlc_timestamp_def hlc_cmp_def)

text \<open>\<^verbatim>\<open>Utc::now().timestamp_millis() as u64\<close> at clock reading \<open>now\<close>.\<close>

definition wall_clock :: "timestamp \<Rightarrow> u64" where
  "wall_clock now = word_of_int (timestamp_millis now)"

definition hlc_now :: "timestamp \<Rightarrow> node_id \<Rightarrow> hlc_timestamp" where
  "hlc_now now node = Hlc (wall_clock now) 0 node"

definition from_parts :: "u64 \<Rightarrow> u32 \<Rightarrow> node_id \<Rightarrow> hlc_timestamp" where
  "from_parts wall counter node = Hlc wall counter node"

section \<open>The clock\<close>

record hybrid_clock =
  hc_node :: node_id
  last_wall_ms :: u64
  hc_counter :: u32

definition clock_new :: "node_id \<Rightarrow> hybrid_clock" where
  "clock_new node = \<lparr>hc_node = node, last_wall_ms = 0, hc_counter = 0\<rparr>"

text \<open>The timestamp the state stands for; both events return it for the new state.\<close>

definition clock_stamp :: "hybrid_clock \<Rightarrow> hlc_timestamp" where
  "clock_stamp c = Hlc (last_wall_ms c) (hc_counter c) (hc_node c)"

definition clock_now :: "timestamp \<Rightarrow> hybrid_clock \<Rightarrow> hlc_timestamp \<times> hybrid_clock" where
  "clock_now now c =
     (let wall = wall_clock now;
          c' = (if wall > last_wall_ms c then c\<lparr>last_wall_ms := wall, hc_counter := 0\<rparr>
                else c\<lparr>hc_counter := hc_counter c + 1\<rparr>)
      in (clock_stamp c', c'))"

definition clock_receive :: "timestamp \<Rightarrow> hlc_timestamp \<Rightarrow> hybrid_clock \<Rightarrow> hlc_timestamp \<times> hybrid_clock" where
  "clock_receive now remote c =
     (let wall = wall_clock now;
          c' = (if wall > last_wall_ms c \<and> wall > wall_ms remote then
                  c\<lparr>last_wall_ms := wall, hc_counter := 0\<rparr>
                else if wall_ms remote > last_wall_ms c then
                  c\<lparr>last_wall_ms := wall_ms remote, hc_counter := ts_counter remote + 1\<rparr>
                else if last_wall_ms c > wall_ms remote then
                  c\<lparr>hc_counter := hc_counter c + 1\<rparr>
                else
                  c\<lparr>hc_counter := max (hc_counter c) (ts_counter remote) + 1\<rparr>)
      in (clock_stamp c', c'))"

datatype clock_event = Tick timestamp | Receive timestamp hlc_timestamp

fun clock_step :: "clock_event \<Rightarrow> hybrid_clock \<Rightarrow> hlc_timestamp \<times> hybrid_clock" where
  "clock_step (Tick now) c = clock_now now c"
| "clock_step (Receive now remote) c = clock_receive now remote c"

text \<open>The timestamps issued over a sequence of events.\<close>

fun clock_run :: "hybrid_clock \<Rightarrow> clock_event list \<Rightarrow> hlc_timestamp list" where
  "clock_run c [] = []"
| "clock_run c (e # es) = (let (t, c') = clock_step e c in t # clock_run c' es)"

section \<open>Monotonicity\<close>

fun remote_counter :: "clock_event \<Rightarrow> nat" where
  "remote_counter (Tick _) = 0"
| "remote_counter (Receive _ t) = unat (ts_counter t)"

lemma clock_step_stamp: "clock_step e c = (t, c') \<Longrightarrow> t = clock_stamp c'"
  by (cases e) (auto simp: clock_now_def clock_receive_def Let_def)

text \<open>One event: the new state follows the old one, and its counter grows by one at most.\<close>

lemma clock_step_less:
  assumes "clock_step e c = (t, c')"
    and "unat (hc_counter c) + 1 < 2 ^ 32" and "remote_counter e + 1 < 2 ^ 32"
  shows "clock_stamp c < clock_stamp c'"
    and "unat (hc_counter c') \<le> max (unat (hc_counter c)) (remote_counter e) + 1"
proof -
  have *: "unat (hc_counter c + 1) = unat (hc_counter c) + 1"
    using assms(2) by (intro unat_inc) simp
  show "clock_stamp c < clock_stamp c'"
  proof (cases e)
    case (Tick now)
    then show ?thesis
      using assms(1) *
      by (auto simp: clock_now_def Let_def hlc_less_iff clock_stamp_def word_less_nat_alt not_less
          word_le_nat_alt split: if_splits)
  next
    case (Receive now remote)
    have m: "unat (max (hc_counter c) (ts_counter remote) + 1) = max (unat (hc_counter c)) (unat (ts_counter remote)) + 1"
      using assms(2,3) Receive by (intro unat_max_inc) simp_all
    show ?thesis
      using assms(1) * m Receive
      by (auto simp: clock_receive_def Let_def hlc_less_iff clock_stamp_def word_less_nat_alt not_less
          word_le_nat_alt split: if_splits)
  qed
  show "unat (hc_counter c') \<le> max (unat (hc_counter c)) (remote_counter e) + 1"
  proof (cases e)
    case (Tick now)
    then show ?thesis
      using assms(1) * by (auto simp: clock_now_def Let_def split: if_splits)
  next
    case (Receive now remote)
    have m: "unat (max (hc_counter c) (ts_counter remote) + 1) = max (unat (hc_counter c)) (unat (ts_counter remote)) + 1"
      using assms(2,3) Receive by (intro unat_max_inc) simp_all
    have "unat (ts_counter remote + 1) = unat (ts_counter remote) + 1"
      using assms(3) Receive by (intro unat_inc) simp
    then show ?thesis
      using assms(1) * m Receive by (auto simp: clock_receive_def Let_def split: if_splits)
  qed
qed

text \<open>A received timestamp lies before the one issued for it.\<close>

lemma clock_receive_after_remote:
  assumes "clock_receive now remote c = (t, c')"
    and "unat (hc_counter c) + 1 < 2 ^ 32" and "unat (ts_counter remote) + 1 < 2 ^ 32"
  shows "remote < t"
proof -
  have "unat (max (hc_counter c) (ts_counter remote) + 1) = max (unat (hc_counter c)) (unat (ts_counter remote)) + 1"
    using assms(2,3) by (intro unat_max_inc) simp_all
  moreover have "unat (ts_counter remote + 1) = unat (ts_counter remote) + 1"
    using assms(3) by (intro unat_inc) simp
  ultimately show ?thesis
    using assms(1)
    by (auto simp: clock_receive_def Let_def hlc_less_iff clock_stamp_def word_less_nat_alt not_less
        word_le_nat_alt word_unat_eq_iff split: if_splits)
qed

lemma clock_run_increasing:
  assumes "\<And>e. e \<in> set es \<Longrightarrow> remote_counter e \<le> B" and "unat (hc_counter c) \<le> B"
    and "B + length es < 2 ^ 32"
  shows "sorted_wrt (<) (clock_stamp c # clock_run c es)"
  using assms
proof (induction es arbitrary: c B)
  case (Cons e es)
  obtain t c' where step: "clock_step e c = (t, c')" by fastforce
  have "unat (hc_counter c) + 1 < 2 ^ 32" "remote_counter e + 1 < 2 ^ 32"
    using Cons.prems(1) [of e] Cons.prems(2,3) by auto
  note less = clock_step_less [OF step this]
  have "sorted_wrt (<) (clock_stamp c' # clock_run c' es)"
  proof (rule Cons.IH [where B = "B + 1"])
    show "remote_counter e' \<le> B + 1" if "e' \<in> set es" for e'
      using Cons.prems(1) [of e'] that by simp
    show "unat (hc_counter c') \<le> B + 1"
      using less(2) Cons.prems(1) [of e] Cons.prems(2) by auto
    show "B + 1 + length es < 2 ^ 32" using Cons.prems(3) by simp
  qed
  then show ?case
    using less(1) step by (auto simp: clock_step_stamp [OF step] intro: less_trans)
qed simp

section \<open>Properties\<close>

text \<open>C1: Over any sequence of local and receive events, whatever the wall clock and the peers
  say, the timestamps a clock issues increase strictly (also past the timestamp of the initial
  state), provided the largest counter seen plus the number of events stays below \<open>2 ^ 32\<close>.\<close>

theorem hlc_issues_increasing:
  assumes "\<And>e. e \<in> set es \<Longrightarrow> remote_counter e \<le> B" and "unat (hc_counter c) \<le> B"
    and "B + length es < 2 ^ 32"
  shows "sorted_wrt (<) (clock_stamp c # clock_run c es)"
  using assms by (rule clock_run_increasing)

lemma hlc_issues_increasing_witness:
  "sorted_wrt (<) (clock_stamp (clock_new ''a'') # clock_run (clock_new ''a'')
     [Tick 5000000, Receive 4000000 (Hlc 9 7 ''b''), Tick 3000000])"
  by (rule hlc_issues_increasing [where B = 7]) (auto simp: clock_new_def)

text \<open>The timestamp a node issues on receiving a remote one is after the remote timestamp and
  after every timestamp the node issued before, in all four branches of \<^verbatim>\<open>receive\<close>, as long as
  neither counter is at its maximum.\<close>

theorem hlc_receive_follows:
  assumes "unat (hc_counter c) + 1 < 2 ^ 32" and "unat (ts_counter remote) + 1 < 2 ^ 32"
  shows "remote < fst (clock_receive now remote c) \<and> clock_stamp c < fst (clock_receive now remote c)"
proof -
  obtain t c' where r: "clock_receive now remote c = (t, c')" by fastforce
  then have "clock_stamp c < clock_stamp c'" "t = clock_stamp c'"
    using clock_step_less(1) [of "Receive now remote" c t c'] clock_step_stamp [of "Receive now remote" c t c'] assms
    by simp_all
  with clock_receive_after_remote [OF r assms] r show ?thesis by simp
qed

lemma hlc_receive_follows_witness:
  "Hlc 9 7 ''b'' < fst (clock_receive 5000000 (Hlc 9 7 ''b'') (clock_new ''a'')) \<and>
   clock_stamp (clock_new ''a'') < fst (clock_receive 5000000 (Hlc 9 7 ''b'') (clock_new ''a''))"
  by (rule hlc_receive_follows) (simp_all add: clock_new_def)

text \<open>A remote timestamp that is ahead of both clocks and whose counter is \<^verbatim>\<open>u32::MAX\<close> makes the
  counter wrap to zero: the timestamp returned by \<^verbatim>\<open>receive\<close> then lies before the remote one,
  against its contract.\<close>

theorem hlc_receive_wraps:
  assumes "last_wall_ms c < wall_ms remote" and "wall_clock now \<le> wall_ms remote"
    and "ts_counter remote = -1"
  shows "fst (clock_receive now remote c) = Hlc (wall_ms remote) 0 (hc_node c) \<and>
    fst (clock_receive now remote c) < remote"
  using assms by (auto simp: clock_receive_def Let_def clock_stamp_def hlc_less_iff not_less word_neq_0_conv [symmetric])

lemma hlc_receive_wraps_witness:
  "fst (clock_receive 5000000 (Hlc 9 (-1) ''b'') (clock_new ''a'')) = Hlc (wall_ms (Hlc 9 (-1) ''b'')) 0 (hc_node (clock_new ''a'')) \<and>
   fst (clock_receive 5000000 (Hlc 9 (-1) ''b'') (clock_new ''a'')) < Hlc 9 (-1) ''b''"
  by (rule hlc_receive_wraps) (simp_all add: clock_new_def wall_clock_def timestamp_millis_def)

end
