(* ===== verification/Ordered_Maps.thy ===== *)
theory Ordered_Maps
  imports Mnemo_Prelude
begin

text \<open>
  The map library: the interface of a map with unique keys, the facts its clients use
  (in particular the loop that merges one map into another), and the implementation the
  development instantiates it with, lists of entries in ascending key order. They stand for
  \<^verbatim>\<open>BTreeMap\<close>, and for \<^verbatim>\<open>HashMap\<close> wherever the result does not depend on its
  iteration order; equal maps have equal lists.
\<close>

section \<open>The interface\<close>

locale ordered_map =
  fixes lookup :: "'m \<Rightarrow> 'k \<Rightarrow> 'v option"
    and insert :: "'k \<Rightarrow> 'v \<Rightarrow> 'm \<Rightarrow> 'm"
    and delete :: "'k \<Rightarrow> 'm \<Rightarrow> 'm"
    and entries :: "'m \<Rightarrow> ('k \<times> 'v) list"
    and invar :: "'m \<Rightarrow> bool"
  assumes lookup_insert: "invar m \<Longrightarrow> lookup (insert k v m) = (lookup m)(k \<mapsto> v)"
    and lookup_delete: "invar m \<Longrightarrow> lookup (delete k m) = (lookup m)(k := None)"
    and invar_insert: "invar m \<Longrightarrow> invar (insert k v m)"
    and invar_delete: "invar m \<Longrightarrow> invar (delete k m)"
    and map_of_entries: "invar m \<Longrightarrow> map_of (entries m) = lookup m"
    and distinct_entries: "invar m \<Longrightarrow> distinct (map fst (entries m))"
    and map_eqI: "invar a \<Longrightarrow> invar b \<Longrightarrow> (\<And>k. lookup a k = lookup b k) \<Longrightarrow> a = b"
begin

text \<open>A loop over entries that, per key, leaves the map alone or stores a new value.\<close>

lemma invar_fold_opt:
  "invar m \<Longrightarrow> invar (fold (\<lambda>(k, v) m. case g (lookup m k) v of None \<Rightarrow> m | Some w \<Rightarrow> insert k w m) xs m)"
  by (induction xs arbitrary: m) (auto simp: invar_insert split: option.splits)

lemma lookup_fold_opt:
  assumes "invar m" and "distinct (map fst xs)"
  shows "lookup (fold (\<lambda>(k, v) m. case g (lookup m k) v of None \<Rightarrow> m | Some w \<Rightarrow> insert k w m) xs m) k =
    (case map_of xs k of None \<Rightarrow> lookup m k
     | Some v \<Rightarrow> (case g (lookup m k) v of None \<Rightarrow> lookup m k | Some w \<Rightarrow> Some w))"
  using assms
proof (induction xs arbitrary: m)
  case (Cons x xs)
  obtain k' v' where x: "x = (k', v')" by (cases x)
  define m1 where "m1 = (case g (lookup m k') v' of None \<Rightarrow> m | Some w \<Rightarrow> insert k' w m)"
  have "invar m1" using Cons.prems(1) by (auto simp: m1_def invar_insert split: option.splits)
  then have IH: "lookup (fold (\<lambda>(k, v) m. case g (lookup m k) v of None \<Rightarrow> m | Some w \<Rightarrow> insert k w m) xs m1) k =
      (case map_of xs k of None \<Rightarrow> lookup m1 k
       | Some v \<Rightarrow> (case g (lookup m1 k) v of None \<Rightarrow> lookup m1 k | Some w \<Rightarrow> Some w))"
    using Cons.prems(2) x by (intro Cons.IH) auto
  have look: "lookup m1 k = (if k = k' then (case g (lookup m k') v' of None \<Rightarrow> lookup m k' | Some w \<Rightarrow> Some w)
      else lookup m k)"
    using Cons.prems(1) by (auto simp: m1_def lookup_insert split: option.splits)
  have "map_of xs k' = None"
    using Cons.prems(2) x by (auto simp: map_of_eq_None_iff)
  then show ?case
    using IH look
    by (cases "k = k'") (auto simp: x m1_def [symmetric] split: option.splits)
qed simp

lemma invar_fold:
  "invar m \<Longrightarrow> invar (fold (\<lambda>(k, v) m. insert k (f (lookup m k) v) m) xs m)"
  using invar_fold_opt [where g = "\<lambda>old v. Some (f old v)"] by simp

lemma lookup_fold:
  "invar m \<Longrightarrow> distinct (map fst xs) \<Longrightarrow>
   lookup (fold (\<lambda>(k, v) m. insert k (f (lookup m k) v) m) xs m) k =
    (case map_of xs k of None \<Rightarrow> lookup m k | Some v \<Rightarrow> Some (f (lookup m k) v))"
  using lookup_fold_opt [where g = "\<lambda>old v. Some (f old v)"] by (simp split: option.splits)

text \<open>The loop that merges the entries of another map.\<close>

lemma lookup_merge:
  "invar m \<Longrightarrow> invar m' \<Longrightarrow>
   lookup (fold (\<lambda>(k, v) m. insert k (f (lookup m k) v) m) (entries m') m) k =
    (case lookup m' k of None \<Rightarrow> lookup m k | Some v \<Rightarrow> Some (f (lookup m k) v))"
  by (simp add: lookup_fold distinct_entries map_of_entries)

lemma lookup_merge_opt:
  "invar m \<Longrightarrow> invar m' \<Longrightarrow>
   lookup (fold (\<lambda>(k, v) m. case g (lookup m k) v of None \<Rightarrow> m | Some w \<Rightarrow> insert k w m) (entries m') m) k =
    (case lookup m' k of None \<Rightarrow> lookup m k
     | Some v \<Rightarrow> (case g (lookup m k) v of None \<Rightarrow> lookup m k | Some w \<Rightarrow> Some w))"
  by (simp add: lookup_fold_opt distinct_entries map_of_entries)

end

section \<open>Entry lists in ascending key order\<close>

type_synonym ('k, 'v) btree_map = "('k \<times> 'v) list"

definition bt_ok :: "('k::linorder, 'v) btree_map \<Rightarrow> bool" where
  "bt_ok m \<longleftrightarrow> sorted_wrt (<) (map fst m)"

fun bt_insert :: "'k::linorder \<Rightarrow> 'v \<Rightarrow> ('k, 'v) btree_map \<Rightarrow> ('k, 'v) btree_map" where
  "bt_insert k v [] = [(k, v)]"
| "bt_insert k v ((k', v') # m) =
     (if k < k' then (k, v) # (k', v') # m
      else if k = k' then (k, v) # m
      else (k', v') # bt_insert k v m)"

definition bt_remove :: "'k \<Rightarrow> ('k, 'v) btree_map \<Rightarrow> ('k, 'v) btree_map" where
  "bt_remove k m = filter (\<lambda>e. fst e \<noteq> k) m"

text \<open>\<^verbatim>\<open>get(k).copied().unwrap_or(d)\<close>.\<close>

definition bt_get_or :: "'v \<Rightarrow> ('k, 'v) btree_map \<Rightarrow> 'k \<Rightarrow> 'v" where
  "bt_get_or d m k = (case map_of m k of None \<Rightarrow> d | Some v \<Rightarrow> v)"

lemma bt_ok_Nil [simp]: "bt_ok []"
  by (simp add: bt_ok_def)

lemma bt_ok_Cons: "bt_ok ((k, v) # m) \<longleftrightarrow> (\<forall>k' \<in> fst ` set m. k < k') \<and> bt_ok m"
  by (auto simp: bt_ok_def)

lemma map_of_bt_insert: "map_of (bt_insert k v m) = (map_of m)(k \<mapsto> v)"
  by (induction k v m rule: bt_insert.induct) (auto simp: fun_eq_iff)

lemma keys_bt_insert: "fst ` set (bt_insert k v m) = insert k (fst ` set m)"
  by (induction k v m rule: bt_insert.induct) auto

lemma bt_ok_insert: "bt_ok m \<Longrightarrow> bt_ok (bt_insert k v m)"
proof (induction k v m rule: bt_insert.induct)
  case (2 k v k' v' m)
  have ok: "bt_ok m" and lt: "\<forall>x \<in> fst ` set m. k' < x"
    using "2.prems" by (auto simp: bt_ok_Cons)
  consider "k < k'" | "k = k'" | "k' < k" by (rule linorder_cases)
  then show ?case
  proof cases
    case 1
    with ok lt show ?thesis by (simp add: bt_ok_Cons) (metis less_trans)
  next
    case 2
    with ok lt show ?thesis by (simp add: bt_ok_Cons)
  next
    case 3
    then have "bt_ok (bt_insert k v m)" using "2.IH" ok by auto
    moreover have "\<not> k < k'" "k \<noteq> k'" using 3 by auto
    ultimately show ?thesis using 3 lt by (simp add: bt_ok_Cons keys_bt_insert)
  qed
qed (simp add: bt_ok_Cons)

lemma map_of_bt_remove: "map_of (bt_remove k m) = (map_of m)(k := None)"
  by (induction m) (auto simp: bt_remove_def fun_eq_iff)

lemma bt_ok_remove: "bt_ok m \<Longrightarrow> bt_ok (bt_remove k m)"
  by (induction m) (auto simp: bt_remove_def bt_ok_Cons)

lemma bt_ok_distinct: "bt_ok m \<Longrightarrow> distinct (map fst m)"
  by (simp add: bt_ok_def strict_sorted_iff)

lemma bt_mem_iff: "bt_ok m \<Longrightarrow> (k, v) \<in> set m \<longleftrightarrow> map_of m k = Some v"
  by (simp add: bt_ok_distinct)

text \<open>Two entry lists with the same look-ups are the same list.\<close>

lemma bt_map_eqI:
  assumes "bt_ok a" and "bt_ok b" and "\<And>k. map_of a k = map_of b k"
  shows "a = b"
proof -
  have eq: "map_of a = map_of b" using assms(3) by blast
  have set_eq: "set a = set b"
    using eq assms(1,2) by (metis bt_ok_distinct map_of_inject_set)
  have "inj_on fst (set a \<union> set b)"
    using bt_ok_distinct [OF assms(1)] set_eq by (simp add: distinct_map)
  with assms(1,2) set_eq show ?thesis
    by (intro map_sorted_distinct_set_unique [of fst]) (auto simp: bt_ok_def strict_sorted_iff)
qed

interpretation bt: ordered_map map_of bt_insert bt_remove "\<lambda>m. m" bt_ok
  by unfold_locales
    (simp_all add: map_of_bt_insert map_of_bt_remove bt_ok_insert bt_ok_remove bt_ok_distinct bt_map_eqI)

lemma bt_get_or_insert [simp]: "bt_get_or d (bt_insert k v m) j = (if j = k then v else bt_get_or d m j)"
  by (simp add: bt_get_or_def map_of_bt_insert)

lemma bt_get_or_remove [simp]: "bt_get_or d (bt_remove k m) j = (if j = k then d else bt_get_or d m j)"
  by (simp add: bt_get_or_def map_of_bt_remove)

lemma bt_get_or_Nil [simp]: "bt_get_or d [] k = d"
  by (simp add: bt_get_or_def)

text \<open>What \<^verbatim>\<open>entry(k).or_insert(d)\<close> followed by an update of the slot stores.\<close>

definition bt_upsert :: "'v \<Rightarrow> ('v \<Rightarrow> 'v) \<Rightarrow> 'k::linorder \<Rightarrow> ('k, 'v) btree_map \<Rightarrow> ('k, 'v) btree_map" where
  "bt_upsert d f k m = bt_insert k (f (bt_get_or d m k)) m"

lemma bt_ok_upsert [simp]: "bt_ok m \<Longrightarrow> bt_ok (bt_upsert d f k m)"
  by (simp add: bt_upsert_def bt_ok_insert)

lemma bt_get_or_upsert [simp]:
  "bt_get_or d (bt_upsert d f k m) j = (if j = k then f (bt_get_or d m k) else bt_get_or d m j)"
  by (simp add: bt_upsert_def)

lemma map_of_bt_upsert: "map_of (bt_upsert d f k m) = (map_of m)(k \<mapsto> f (bt_get_or d m k))"
  by (simp add: bt_upsert_def map_of_bt_insert)

text \<open>
  The loop \<^verbatim>\<open>for (k, v) in &other { let e = self.entry(k).or_insert(d); *e = f(*e, v) }\<close>.
\<close>

definition bt_merge_with :: "'v \<Rightarrow> ('v \<Rightarrow> 'v \<Rightarrow> 'v) \<Rightarrow> ('k::linorder, 'v) btree_map \<Rightarrow> ('k, 'v) btree_map \<Rightarrow> ('k, 'v) btree_map" where
  "bt_merge_with d f m other = fold (\<lambda>(k, w) m. bt_upsert d (\<lambda>v. f v w) k m) other m"

lemma bt_ok_merge_with [simp]: "bt_ok m \<Longrightarrow> bt_ok (bt_merge_with d f m other)"
  by (induction other arbitrary: m) (auto simp: bt_merge_with_def)

lemma map_of_bt_merge_with:
  assumes "bt_ok m" and "bt_ok other"
  shows "map_of (bt_merge_with d f m other) k =
    (case map_of other k of None \<Rightarrow> map_of m k | Some w \<Rightarrow> Some (f (bt_get_or d m k) w))"
proof -
  have "bt_merge_with d f m other =
      fold (\<lambda>(k, w) m. bt_insert k ((\<lambda>old w. f (case old of None \<Rightarrow> d | Some v \<Rightarrow> v) w) (map_of m k) w) m) other m"
    by (simp add: bt_merge_with_def bt_upsert_def bt_get_or_def case_prod_beta')
  then show ?thesis
    using bt.lookup_merge [OF assms, of "\<lambda>old w. f (case old of None \<Rightarrow> d | Some v \<Rightarrow> v) w" k]
    by (simp add: bt_get_or_def split: option.splits)
qed

text \<open>Merging with a commutative, associative and idempotent operation that has \<open>d\<close> as its unit.\<close>

lemma bt_get_or_merge_with:
  assumes "bt_ok m" and "bt_ok other" and "\<And>x. f x d = x"
  shows "bt_get_or d (bt_merge_with d f m other) k = f (bt_get_or d m k) (bt_get_or d other k)"
  by (simp add: bt_get_or_def [of d "bt_merge_with d f m other"] map_of_bt_merge_with assms(1,2))
    (simp add: bt_get_or_def assms(3) split: option.splits)

lemma bt_dom_merge_with:
  assumes "bt_ok m" and "bt_ok other"
  shows "map_of (bt_merge_with d f m other) k = None \<longleftrightarrow> map_of m k = None \<and> map_of other k = None"
  by (auto simp: map_of_bt_merge_with [OF assms] split: option.splits)

lemma bt_eq_via_get_or:
  assumes "bt_ok a" and "bt_ok b"
    and "\<And>k. map_of a k = None \<longleftrightarrow> map_of b k = None"
    and "\<And>k. bt_get_or d a k = bt_get_or d b k"
  shows "a = b"
proof (rule bt_map_eqI [OF assms(1,2)])
  fix k
  show "map_of a k = map_of b k"
    using assms(3,4) [of k] by (auto simp: bt_get_or_def split: option.splits)
qed

end
