(* ===== verification/Convergence.thy ===== *)
theory Convergence
  imports Ordered_Maps
begin

text \<open>
  What a state-based replicated data type owes its users: the contract of its
  \<^verbatim>\<open>merge\<close>, and from it strong eventual convergence, that replicas which have seen the
  same set of states agree, whatever the order and the number of deliveries. \<open>ok\<close> is the
  representation invariant; \<open>compat\<close> restricts the laws to states that can occur
  together (a last-writer-wins register needs that equal timestamps carry equal values).
\<close>

locale convergent =
  fixes merge :: "'s \<Rightarrow> 's \<Rightarrow> 's"
    and ok :: "'s \<Rightarrow> bool"
    and compat :: "'s \<Rightarrow> 's \<Rightarrow> bool"
  assumes merge_ok: "ok a \<Longrightarrow> ok b \<Longrightarrow> ok (merge a b)"
    and compat_refl: "ok a \<Longrightarrow> compat a a"
    and compat_sym: "compat a b \<Longrightarrow> compat b a"
    and compat_merge: "ok a \<Longrightarrow> ok b \<Longrightarrow> ok c \<Longrightarrow> compat a b \<Longrightarrow> compat a c \<Longrightarrow> compat b c \<Longrightarrow>
      compat a (merge b c)"
    and merge_idem: "ok a \<Longrightarrow> merge a a = a"
    and merge_comm: "ok a \<Longrightarrow> ok b \<Longrightarrow> compat a b \<Longrightarrow> merge a b = merge b a"
    and merge_assoc: "ok a \<Longrightarrow> ok b \<Longrightarrow> ok c \<Longrightarrow> compat a b \<Longrightarrow> compat b c \<Longrightarrow> compat a c \<Longrightarrow>
      merge (merge a b) c = merge a (merge b c)"
begin

definition coherent :: "'s set \<Rightarrow> bool" where
  "coherent C \<longleftrightarrow> (\<forall>a \<in> C. ok a \<and> (\<forall>b \<in> C. compat a b))"

lemma coherentD: "coherent C \<Longrightarrow> a \<in> C \<Longrightarrow> ok a" "coherent C \<Longrightarrow> a \<in> C \<Longrightarrow> b \<in> C \<Longrightarrow> compat a b"
  by (auto simp: coherent_def)

text \<open>What a replica holds after merging states of \<open>C\<close> stays usable with anything \<open>C\<close> is usable with.\<close>

lemma run_ok: "coherent C \<Longrightarrow> s \<in> C \<Longrightarrow> set xs \<subseteq> C \<Longrightarrow> ok (foldl merge s xs)"
  by (induction xs rule: rev_induct) (auto intro: merge_ok coherentD)

lemma run_compat:
  assumes C: "coherent C" and sub: "s \<in> C" "set xs \<subseteq> C" and c: "ok c" "\<And>d. d \<in> C \<Longrightarrow> compat c d"
  shows "compat c (foldl merge s xs)"
  using sub c
proof (induction xs arbitrary: c rule: rev_induct)
  case (snoc x xs)
  let ?r = "foldl merge s xs"
  have r: "ok ?r" and x: "ok x" "x \<in> C"
    using C snoc.prems(1,2) by (auto intro: run_ok coherentD)
  have "compat x ?r"
    using C x snoc.prems(1,2) by (intro snoc.IH) (auto intro: coherentD)
  moreover have "compat c ?r" "compat c x"
    using snoc.prems snoc.IH x by auto
  ultimately show ?case
    using r x snoc.prems(3) by (auto intro: compat_merge compat_sym)
qed (use assms in auto)

lemma run_compat_mem: "coherent C \<Longrightarrow> s \<in> C \<Longrightarrow> set xs \<subseteq> C \<Longrightarrow> c \<in> C \<Longrightarrow> compat (foldl merge s xs) c"
  by (rule compat_sym, rule run_compat) (auto intro: coherentD)

lemma run_compat_run:
  assumes "coherent C" "set (s # xs) \<subseteq> C" "set (t # ys) \<subseteq> C"
  shows "compat (foldl merge s xs) (foldl merge t ys)"
  using assms by (intro run_compat [where C = C] run_ok [where C = C] run_compat_mem [where C = C]) auto

text \<open>Delivering a state a second time changes nothing.\<close>

lemma run_absorb:
  assumes C: "coherent C" and sub: "set (s # xs) \<subseteq> C" and x: "x \<in> set (s # xs)"
  shows "merge (foldl merge s xs) x = foldl merge s xs"
  using sub x
proof (induction xs rule: rev_induct)
  case Nil
  then show ?case using C by (auto simp: merge_idem coherent_def)
next
  case (snoc y ys)
  let ?r = "foldl merge s ys"
  have oks: "ok ?r" "ok x" "ok y" and cx: "compat ?r x" and cy: "compat ?r y" and cxy: "compat x y" "compat y x"
    using C snoc.prems by (auto intro: run_ok [where C = C] run_compat_mem [where C = C] coherentD [OF C])
  show ?case
  proof (cases "x = y")
    case True
    with oks cx cxy show ?thesis by (simp add: merge_assoc merge_idem)
  next
    case False
    then have IH: "merge ?r x = ?r" using snoc by auto
    have "merge (merge ?r y) x = merge ?r (merge x y)"
      using oks cx cy cxy by (simp add: merge_assoc merge_comm [of y x])
    also have "\<dots> = merge ?r y" using oks cx cy cxy IH by (simp add: merge_assoc [symmetric])
    finally show ?thesis by simp
  qed
qed

text \<open>Merging another replica's state is the same as receiving what it received.\<close>

lemma run_into:
  assumes C: "coherent C" and sub: "set (s # xs) \<subseteq> C" and t: "ok t" "\<And>c. c \<in> C \<Longrightarrow> compat t c"
  shows "merge t (foldl merge s xs) = foldl merge t (s # xs)"
  using sub
proof (induction xs rule: rev_induct)
  case (snoc x xs)
  let ?r = "foldl merge s xs"
  have "ok ?r" "ok x" "compat ?r x" "compat t ?r" "compat t x"
    using C t snoc.prems
    by (auto intro: run_ok [where C = C] run_compat_mem [where C = C] run_compat [where C = C] coherentD [OF C])
  then have "merge t (merge ?r x) = merge (merge t ?r) x"
    using t by (simp add: merge_assoc)
  then show ?case using snoc by simp
qed simp

lemma absorb_all:
  assumes "\<And>x. x \<in> set xs \<Longrightarrow> merge t x = t"
  shows "foldl merge t xs = t"
  using assms by (induction xs) auto

lemma run_le:
  assumes C: "coherent C" and sub: "set (s # xs) \<subseteq> set (t # ys)" and C': "set (t # ys) \<subseteq> C"
  shows "merge (foldl merge t ys) (foldl merge s xs) = foldl merge t ys"
proof -
  let ?t = "foldl merge t ys"
  have "merge ?t (foldl merge s xs) = foldl merge ?t (s # xs)"
    using assms by (intro run_into [where C = C] run_ok [where C = C] run_compat_mem [where C = C]) auto
  also have "\<dots> = ?t"
    using assms by (intro absorb_all run_absorb [where C = C]) auto
  finally show ?thesis .
qed

text \<open>Strong eventual convergence.\<close>

lemma same_set_same_state:
  assumes C: "coherent (set (s # xs))" and eq: "set (s # xs) = set (t # ys)"
  shows "foldl merge s xs = foldl merge t ys"
proof -
  let ?C = "set (s # xs)" and ?r = "foldl merge s xs" and ?t = "foldl merge t ys"
  have "merge ?t ?r = ?t" "merge ?r ?t = ?r"
    using C eq by (intro run_le [where C = ?C]; simp)+
  moreover have "merge ?r ?t = merge ?t ?r"
    using C eq by (intro merge_comm run_ok [where C = ?C] run_compat_run [where C = ?C]) auto
  ultimately show ?thesis by simp
qed

end

text \<open>Types whose merge is a join on all well-formed states.\<close>

locale total_convergent =
  fixes merge :: "'s \<Rightarrow> 's \<Rightarrow> 's"
    and ok :: "'s \<Rightarrow> bool"
  assumes tmerge_ok: "ok a \<Longrightarrow> ok b \<Longrightarrow> ok (merge a b)"
    and tmerge_idem: "ok a \<Longrightarrow> merge a a = a"
    and tmerge_comm: "ok a \<Longrightarrow> ok b \<Longrightarrow> merge a b = merge b a"
    and tmerge_assoc: "ok a \<Longrightarrow> ok b \<Longrightarrow> ok c \<Longrightarrow> merge (merge a b) c = merge a (merge b c)"
begin

sublocale convergent merge ok "\<lambda>_ _. True"
  by unfold_locales (auto simp: tmerge_ok tmerge_idem tmerge_assoc intro: tmerge_comm)

lemma converges:
  assumes "\<And>a. a \<in> set (s # xs) \<Longrightarrow> ok a" and "set (s # xs) = set (t # ys)"
  shows "foldl merge s xs = foldl merge t ys"
  using assms by (intro same_set_same_state) (auto simp: coherent_def)

end

section \<open>Maps that merge value by value\<close>

text \<open>
  A value type with a join \<open>f\<close> that has a unit \<open>d\<close>, the default of an absent key. Its maps
  form a \<open>total_convergent\<close> type under the merge loop, by the five lemmas below.
\<close>

locale unit_join =
  fixes f :: "'v \<Rightarrow> 'v \<Rightarrow> 'v"
    and d :: 'v
  assumes f_idem: "f x x = x"
    and f_comm: "f x y = f y x"
    and f_assoc: "f (f x y) z = f x (f y z)"
    and f_unit: "f x d = x"
begin

lemma get_merge:
  "bt_ok a \<Longrightarrow> bt_ok b \<Longrightarrow> bt_get_or d (bt_merge_with d f a b) k = f (bt_get_or d a k) (bt_get_or d b k)"
  by (simp add: bt_get_or_merge_with f_unit)

lemma maps_idem: "bt_ok a \<Longrightarrow> bt_merge_with d f a a = a"
  by (rule bt_eq_via_get_or [where d = d]) (simp_all add: get_merge bt_dom_merge_with f_idem)

lemma maps_comm: "bt_ok a \<Longrightarrow> bt_ok b \<Longrightarrow> bt_merge_with d f a b = bt_merge_with d f b a"
  by (rule bt_eq_via_get_or [where d = d]) (auto simp: get_merge bt_dom_merge_with f_comm)

lemma maps_assoc:
  "bt_ok a \<Longrightarrow> bt_ok b \<Longrightarrow> bt_ok c \<Longrightarrow>
   bt_merge_with d f (bt_merge_with d f a b) c = bt_merge_with d f a (bt_merge_with d f b c)"
  by (rule bt_eq_via_get_or [where d = d]) (auto simp: get_merge bt_dom_merge_with f_assoc)

end

end
