(* ===== verification/Vector_Clock.thy ===== *)
theory Vector_Clock
  imports Hlc Convergence
begin

text \<open>
  \<^verbatim>\<open>VectorClock\<close> and \<^verbatim>\<open>GCounter\<close> of \<^verbatim>\<open>mnemo-core/src/sync.rs\<close>: maps from nodes to
  counters that merge pointwise by maximum. Both are interpreted as \<open>total_convergent\<close>
  types; the causal comparison of vector clocks is characterised pointwise.
\<close>

section \<open>Pointwise maxima of counter maps\<close>

type_synonym counters = "(node_id, u64) btree_map"

abbreviation count :: "counters \<Rightarrow> node_id \<Rightarrow> u64" where
  "count m n \<equiv> bt_get_or 0 m n"

definition merge_counts :: "counters \<Rightarrow> counters \<Rightarrow> counters" where
  "merge_counts a b = bt_merge_with 0 max a b"

lemma max_zero [simp]: "max (a :: 'a::len word) 0 = a" "max 0 (a :: 'a::len word) = a"
  by (simp_all add: max_def)

interpretation count_join: unit_join max "0 :: u64"
  by unfold_locales (simp_all add: max.assoc, rule max.commute)

lemma count_merge:
  "bt_ok a \<Longrightarrow> bt_ok b \<Longrightarrow> count (merge_counts a b) n = max (count a n) (count b n)"
  by (simp add: merge_counts_def count_join.get_merge)

lemma merge_counts_ok: "bt_ok a \<Longrightarrow> bt_ok (merge_counts a b)"
  by (simp add: merge_counts_def)

interpretation counts: total_convergent merge_counts bt_ok
  by unfold_locales
    (simp_all add: merge_counts_def count_join.maps_idem count_join.maps_assoc, rule count_join.maps_comm)

section \<open>Vector clocks\<close>

record vector_clock =
  vc_entries :: counters

definition vc_new :: vector_clock where
  "vc_new = \<lparr>vc_entries = []\<rparr>"

definition vc_increment :: "node_id \<Rightarrow> vector_clock \<Rightarrow> u64 \<times> vector_clock" where
  "vc_increment n c =
     (let es = bt_upsert 0 (\<lambda>v. v + 1) n (vc_entries c) in (count es n, c\<lparr>vc_entries := es\<rparr>))"

definition vc_get :: "vector_clock \<Rightarrow> node_id \<Rightarrow> u64" where
  "vc_get c n = count (vc_entries c) n"

definition vc_merge :: "vector_clock \<Rightarrow> vector_clock \<Rightarrow> vector_clock" where
  "vc_merge c other = c\<lparr>vc_entries := merge_counts (vc_entries c) (vc_entries other)\<rparr>"

definition is_before_or_equal :: "vector_clock \<Rightarrow> vector_clock \<Rightarrow> bool" where
  "is_before_or_equal c other \<longleftrightarrow> list_all (\<lambda>(n, v). \<not> v > vc_get other n) (vc_entries c)"

definition is_strictly_before :: "vector_clock \<Rightarrow> vector_clock \<Rightarrow> bool" where
  "is_strictly_before c other \<longleftrightarrow> is_before_or_equal c other \<and> c \<noteq> other"

definition is_concurrent_with :: "vector_clock \<Rightarrow> vector_clock \<Rightarrow> bool" where
  "is_concurrent_with c other \<longleftrightarrow> \<not> is_before_or_equal c other \<and> \<not> is_before_or_equal other c"

definition node_count :: "vector_clock \<Rightarrow> nat" where
  "node_count c = length (vc_entries c)"

definition vc_ok :: "vector_clock \<Rightarrow> bool" where
  "vc_ok c \<longleftrightarrow> bt_ok (vc_entries c)"

lemma vc_new_ok [simp]: "vc_ok vc_new"
  by (simp add: vc_ok_def vc_new_def)

lemma vc_increment_ok: "vc_ok c \<Longrightarrow> vc_ok (snd (vc_increment n c))"
  by (simp add: vc_ok_def vc_increment_def Let_def)

lemma vc_get_increment:
  "vc_get (snd (vc_increment n c)) m = (if m = n then vc_get c n + 1 else vc_get c m)"
  by (simp add: vc_get_def vc_increment_def Let_def)

lemma vc_get_merge: "vc_ok a \<Longrightarrow> vc_ok b \<Longrightarrow> vc_get (vc_merge a b) n = max (vc_get a n) (vc_get b n)"
  by (simp add: vc_ok_def vc_get_def vc_merge_def count_merge)

interpretation vc: total_convergent vc_merge vc_ok
proof
  fix a b c :: vector_clock
  show "vc_ok a \<Longrightarrow> vc_ok b \<Longrightarrow> vc_merge a b = vc_merge b a"
    by (rule vector_clock.equality) (simp_all add: vc_ok_def vc_merge_def counts.tmerge_comm)
qed (simp_all add: vc_ok_def vc_merge_def counts.tmerge_ok counts.tmerge_idem counts.tmerge_assoc)

text \<open>The comparison loop is the pointwise order.\<close>

lemma before_iff: "vc_ok a \<Longrightarrow> is_before_or_equal a b \<longleftrightarrow> (\<forall>n. vc_get a n \<le> vc_get b n)"
proof
  assume ok: "vc_ok a" and b: "is_before_or_equal a b"
  show "\<forall>n. vc_get a n \<le> vc_get b n"
  proof
    fix n
    show "vc_get a n \<le> vc_get b n"
    proof (cases "map_of (vc_entries a) n")
      case None
      then show ?thesis by (simp add: vc_get_def bt_get_or_def)
    next
      case (Some v)
      with b show ?thesis
        by (auto simp: is_before_or_equal_def vc_get_def [of a] bt_get_or_def list_all_iff not_less dest!: map_of_SomeD)
    qed
  qed
next
  assume ok: "vc_ok a" and le: "\<forall>n. vc_get a n \<le> vc_get b n"
  have "\<not> v > vc_get b n" if "(n, v) \<in> set (vc_entries a)" for n v
  proof -
    have "map_of (vc_entries a) n = Some v"
      using that ok by (simp add: vc_ok_def bt_ok_distinct)
    then have "vc_get a n = v" by (simp add: vc_get_def bt_get_or_def)
    with le show ?thesis by (auto simp: not_less)
  qed
  then show "is_before_or_equal a b" by (auto simp: is_before_or_equal_def list_all_iff)
qed

section \<open>Grow-only counters\<close>

record g_counter =
  gc_counts :: counters

definition gc_new :: g_counter where
  "gc_new = \<lparr>gc_counts = []\<rparr>"

definition gc_increment :: "node_id \<Rightarrow> g_counter \<Rightarrow> g_counter" where
  "gc_increment n c = c\<lparr>gc_counts := bt_upsert 0 (\<lambda>v. v + 1) n (gc_counts c)\<rparr>"

definition gc_increment_by :: "node_id \<Rightarrow> u64 \<Rightarrow> g_counter \<Rightarrow> g_counter" where
  "gc_increment_by n amount c = c\<lparr>gc_counts := bt_upsert 0 (\<lambda>v. v + amount) n (gc_counts c)\<rparr>"

definition gc_value :: "g_counter \<Rightarrow> u64" where
  "gc_value c = sum_list (map snd (gc_counts c))"

definition gc_node_value :: "g_counter \<Rightarrow> node_id \<Rightarrow> u64" where
  "gc_node_value c n = count (gc_counts c) n"

definition gc_merge :: "g_counter \<Rightarrow> g_counter \<Rightarrow> g_counter" where
  "gc_merge c other = c\<lparr>gc_counts := merge_counts (gc_counts c) (gc_counts other)\<rparr>"

definition gc_ok :: "g_counter \<Rightarrow> bool" where
  "gc_ok c \<longleftrightarrow> bt_ok (gc_counts c)"

interpretation gc: total_convergent gc_merge gc_ok
proof
  fix a b c :: g_counter
  show "gc_ok a \<Longrightarrow> gc_ok b \<Longrightarrow> gc_merge a b = gc_merge b a"
    by (rule g_counter.equality) (simp_all add: gc_ok_def gc_merge_def counts.tmerge_comm)
qed (simp_all add: gc_ok_def gc_merge_def counts.tmerge_ok counts.tmerge_idem counts.tmerge_assoc)

lemma sum_bt_upsert:
  "bt_ok m \<Longrightarrow> sum_list (map snd (bt_upsert 0 f n m)) = sum_list (map snd m) - count m n + f (count m n)"
proof -
  have "bt_ok m \<Longrightarrow> sum_list (map snd (bt_insert n v m)) = sum_list (map snd m) - count m n + v" for v
  proof (induction n v m rule: bt_insert.induct)
    case (2 k v k' v' m)
    show ?case
    proof (cases "k < k'")
      case True
      then have "map_of ((k', v') # m) k = None"
        using "2.prems" by (auto simp: bt_ok_Cons map_of_eq_None_iff)
      with True show ?thesis by (simp add: bt_get_or_def algebra_simps)
    next
      case False
      with 2 show ?thesis by (auto simp: bt_ok_Cons bt_get_or_def algebra_simps)
    qed
  qed simp
  then show "bt_ok m \<Longrightarrow> ?thesis" by (simp add: bt_upsert_def)
qed

text \<open>The value counts every increment (modulo \<open>2 ^ 64\<close>).\<close>

lemma gc_value_increment_by:
  "gc_ok c \<Longrightarrow> gc_value (gc_increment_by n amount c) = gc_value c + amount"
  by (simp add: gc_ok_def gc_value_def gc_increment_by_def sum_bt_upsert)

lemma gc_increment_eq: "gc_increment n c = gc_increment_by n 1 c"
  by (simp add: gc_increment_def gc_increment_by_def)

lemma gc_increment_by_ok: "gc_ok c \<Longrightarrow> gc_ok (gc_increment_by n amount c)"
  by (simp add: gc_ok_def gc_increment_by_def)

lemma gc_node_value_increment_by:
  "gc_node_value (gc_increment_by n amount c) m = (if m = n then gc_node_value c n + amount else gc_node_value c m)"
  by (simp add: gc_node_value_def gc_increment_by_def)

lemma gc_node_value_merge:
  "gc_ok a \<Longrightarrow> gc_ok b \<Longrightarrow> gc_node_value (gc_merge a b) n = max (gc_node_value a n) (gc_node_value b n)"
  by (simp add: gc_ok_def gc_node_value_def gc_merge_def count_merge)

text \<open>Merging maps without common nodes adds up their values.\<close>

lemma sum_merge_disjoint:
  assumes "bt_ok a" and "bt_ok b" and "\<And>n v. (n, v) \<in> set b \<Longrightarrow> count a n = 0"
  shows "sum_list (map snd (merge_counts a b)) = sum_list (map snd a) + sum_list (map snd b)"
proof -
  have "bt_ok a \<Longrightarrow> distinct (map fst b) \<Longrightarrow> (\<And>n v. (n, v) \<in> set b \<Longrightarrow> count a n = 0) \<Longrightarrow> ?thesis"
    unfolding merge_counts_def bt_merge_with_def
  proof (induction b arbitrary: a)
    case (Cons e b)
    obtain n v where e: "e = (n, v)" by (cases e)
    have z: "count a n = 0" using Cons.prems(3) [of n v] e by simp
    have "sum_list (map snd (fold (\<lambda>(k, w) m. bt_upsert 0 (\<lambda>v. max v w) k m) b (bt_upsert 0 (\<lambda>x. max x v) n a))) =
        sum_list (map snd (bt_upsert 0 (\<lambda>x. max x v) n a)) + sum_list (map snd b)"
    proof (rule Cons.IH)
      fix n' v'
      assume m: "(n', v') \<in> set b"
      then have "n' \<noteq> n" using Cons.prems(2) e by force
      then show "count (bt_upsert 0 (\<lambda>x. max x v) n a) n' = 0"
        using Cons.prems(3) [of n' v'] m by simp
    qed (use Cons.prems e in simp_all)
    then show ?case
      using Cons.prems(1) z e by (simp add: sum_bt_upsert)
  qed simp
  then show ?thesis using assms by (auto simp: bt_ok_distinct)
qed

text \<open>A replica that counts its own increments, and the state reached by merging such replicas.\<close>

definition gc_replica :: "node_id \<Rightarrow> u64 list \<Rightarrow> g_counter" where
  "gc_replica n amounts = foldl (\<lambda>c a. gc_increment_by n a c) gc_new amounts"

lemma gc_replica_props:
  "gc_ok (gc_replica n amounts)" "gc_value (gc_replica n amounts) = sum_list amounts"
  "m \<noteq> n \<Longrightarrow> gc_node_value (gc_replica n amounts) m = 0"
  "fst ` set (gc_counts (gc_replica n amounts)) \<subseteq> {n}"
proof (induction amounts rule: rev_induct)
  case (snoc a as)
  let ?c = "gc_replica n as"
  have eq: "gc_replica n (as @ [a]) = gc_increment_by n a ?c" by (simp add: gc_replica_def)
  have ok: "gc_ok ?c" and val: "gc_value ?c = sum_list as" and keys: "fst ` set (gc_counts ?c) \<subseteq> {n}"
    and other: "m \<noteq> n \<Longrightarrow> gc_node_value ?c m = 0"
    using snoc by blast+
  { case 1 show ?case using ok by (simp add: eq gc_increment_by_ok) }
  { case 2 show ?case using ok val by (simp add: eq gc_value_increment_by) }
  { case 3 then show ?case using other by (simp add: eq gc_node_value_increment_by) }
  { case 4 show ?case using keys by (auto simp: eq gc_increment_by_def bt_upsert_def keys_bt_insert) }
qed (simp_all add: gc_replica_def gc_new_def gc_ok_def gc_value_def gc_node_value_def)

lemma gc_merge_value_disjoint:
  assumes "gc_ok a" and "gc_ok b" and "\<And>n. n \<in> fst ` set (gc_counts b) \<Longrightarrow> gc_node_value a n = 0"
  shows "gc_value (gc_merge a b) = gc_value a + gc_value b"
  using assms sum_merge_disjoint [of "gc_counts a" "gc_counts b"]
  by (force simp: gc_ok_def gc_value_def gc_merge_def gc_node_value_def)

lemma gc_gather:
  assumes "distinct (map fst rs)"
  shows "gc_ok (foldl gc_merge gc_new (map (\<lambda>(n, as). gc_replica n as) rs)) \<and>
    gc_value (foldl gc_merge gc_new (map (\<lambda>(n, as). gc_replica n as) rs)) = sum_list (concat (map snd rs)) \<and>
    (\<forall>m. m \<notin> fst ` set rs \<longrightarrow> gc_node_value (foldl gc_merge gc_new (map (\<lambda>(n, as). gc_replica n as) rs)) m = 0)"
  using assms
proof (induction rs rule: rev_induct)
  case (snoc r rs)
  obtain n as where r: "r = (n, as)" by (cases r)
  let ?m = "foldl gc_merge gc_new (map (\<lambda>(n, as). gc_replica n as) rs)"
  have IH: "gc_ok ?m" "gc_value ?m = sum_list (concat (map snd rs))"
      "\<And>m. m \<notin> fst ` set rs \<Longrightarrow> gc_node_value ?m m = 0"
    using snoc by auto
  have "n \<notin> fst ` set rs" using snoc.prems r by force
  then have "gc_value (gc_merge ?m (gc_replica n as)) = gc_value ?m + gc_value (gc_replica n as)"
    using IH gc_replica_props [where n = n and amounts = as] by (intro gc_merge_value_disjoint) auto
  then show ?case
    using IH by (auto simp: r gc_replica_props gc.tmerge_ok gc_node_value_merge)
qed (simp add: gc_ok_def gc_new_def gc_value_def gc_node_value_def)

section \<open>Properties\<close>

text \<open>The causal comparison of vector clocks is the pointwise order on all nodes, the clock of a
  merge is the least clock that both merged clocks are before or equal to, and incrementing a
  node strictly advances the clock unless that node's counter is at its maximum.\<close>

theorem vc_merge_least_upper_bound:
  assumes "vc_ok a" and "vc_ok b" and "vc_ok c" and "vc_get a n \<noteq> -1"
  shows "(is_before_or_equal a b \<longleftrightarrow> (\<forall>n. vc_get a n \<le> vc_get b n)) \<and>
    is_before_or_equal a (vc_merge a b) \<and> is_before_or_equal b (vc_merge a b) \<and>
    (is_before_or_equal (vc_merge a b) c \<longleftrightarrow> is_before_or_equal a c \<and> is_before_or_equal b c) \<and>
    is_strictly_before a (snd (vc_increment n a)) \<and> \<not> is_before_or_equal (snd (vc_increment n a)) a"
proof -
  have "unat (vc_get a n) + 1 < 2 ^ 64" using unat_not_max [OF assms(4)] by simp
  then have lt: "vc_get a n < vc_get a n + 1" by (intro word_less_inc) simp
  have "is_before_or_equal a (snd (vc_increment n a))"
    using assms(1) lt by (auto simp: before_iff vc_get_increment)
  moreover have n: "\<not> is_before_or_equal (snd (vc_increment n a)) a"
    using assms(1) lt by (auto simp: before_iff vc_increment_ok vc_get_increment not_le intro!: exI [of _ n])
  moreover have "is_before_or_equal a a" using assms(1) by (simp add: before_iff)
  ultimately have "is_strictly_before a (snd (vc_increment n a))"
    unfolding is_strictly_before_def by metis
  with n show ?thesis
    using assms by (auto simp: before_iff vc.tmerge_ok vc_get_merge)
qed

lemma vc_merge_least_upper_bound_witness:
  "is_strictly_before (snd (vc_increment ''a'' vc_new)) (snd (vc_increment ''b'' (snd (vc_increment ''a'' vc_new))))"
  using vc_merge_least_upper_bound [of "snd (vc_increment ''a'' vc_new)" vc_new vc_new "''b''"]
  by (simp add: vc_increment_ok vc_get_increment) (simp add: vc_get_def vc_new_def)

text \<open>When every node counts its own increments and the replicas are merged, in whatever order
  the list gives, the value is the total of all increments (modulo \<open>2 ^ 64\<close>): none is lost and
  none is counted twice, also when the gathered state is merged with a replica once more.\<close>

theorem gc_merge_counts_everything:
  assumes "distinct (map fst rs)"
  shows "gc_value (foldl gc_merge gc_new (map (\<lambda>(n, as). gc_replica n as) rs)) = sum_list (concat (map snd rs)) \<and>
    ((n, as) \<in> set rs \<longrightarrow>
      gc_merge (foldl gc_merge gc_new (map (\<lambda>(n, as). gc_replica n as) rs)) (gc_replica n as) =
      foldl gc_merge gc_new (map (\<lambda>(n, as). gc_replica n as) rs))"
proof -
  let ?xs = "map (\<lambda>(n, as). gc_replica n as) rs"
  have "foldl gc_merge gc_new (?xs @ [gc_replica n as]) = foldl gc_merge gc_new ?xs" if "(n, as) \<in> set rs"
  proof (rule gc.converges)
    show "gc_ok c" if "c \<in> set (gc_new # ?xs @ [gc_replica n as])" for c
      using that gc_replica_props(1) gc_replica_props(1) [of n "[]"] by (auto simp: gc_replica_def)
    show "set (gc_new # ?xs @ [gc_replica n as]) = set (gc_new # ?xs)"
      using that by force
  qed
  with gc_gather [OF assms] show ?thesis by simp
qed

lemma gc_merge_counts_everything_witness:
  "gc_value (foldl gc_merge gc_new (map (\<lambda>(n, as). gc_replica n as) [(''a'', [2, 3]), (''b'', [4])])) = 9"
  using gc_merge_counts_everything [of "[(''a'', [2, 3]), (''b'', [4])]"] by simp

end
