(* ===== verification/Crdt.thy ===== *)
theory Crdt
  imports Vector_Clock
begin

text \<open>
  The remaining replicated types of \<^verbatim>\<open>mnemo-core/src/sync.rs\<close>: \<^verbatim>\<open>LWWRegister\<close>,
  \<^verbatim>\<open>ORSet\<close> and \<^verbatim>\<open>LWWMap\<close>, each with its operations, the invariant of its
  representation, and its interpretation as a convergent type.
\<close>

section \<open>Last-writer-wins registers\<close>

record 'v lww_register =
  lww_value :: 'v
  lww_timestamp :: hlc_timestamp

definition lww_new :: "'v \<Rightarrow> hlc_timestamp \<Rightarrow> 'v lww_register" where
  "lww_new v t = \<lparr>lww_value = v, lww_timestamp = t\<rparr>"

definition lww_set :: "'v \<Rightarrow> hlc_timestamp \<Rightarrow> 'v lww_register \<Rightarrow> bool \<times> 'v lww_register" where
  "lww_set v t r =
     (if t > lww_timestamp r then (True, r\<lparr>lww_value := v, lww_timestamp := t\<rparr>) else (False, r))"

definition lww_merge :: "'v lww_register \<Rightarrow> 'v lww_register \<Rightarrow> 'v lww_register" where
  "lww_merge r other =
     (if lww_timestamp other > lww_timestamp r
      then r\<lparr>lww_value := lww_value other, lww_timestamp := lww_timestamp other\<rparr> else r)"

definition lww_get :: "'v lww_register \<Rightarrow> 'v" where
  "lww_get r = lww_value r"

text \<open>Timestamps identify writes: equal timestamps come with equal values.\<close>

definition lww_compat :: "'v lww_register \<Rightarrow> 'v lww_register \<Rightarrow> bool" where
  "lww_compat a b \<longleftrightarrow> (lww_timestamp a = lww_timestamp b \<longrightarrow> lww_value a = lww_value b)"

lemma lww_merge_eq: "lww_merge a b = (if lww_timestamp a < lww_timestamp b then b else a)"
  by (rule lww_register.equality) (auto simp: lww_merge_def)

interpretation lww: convergent lww_merge "\<lambda>_. True" lww_compat
proof
  fix a b c :: "'v lww_register"
  show "lww_compat a b \<Longrightarrow> lww_merge a b = lww_merge b a"
    by (rule lww_register.equality) (auto simp: lww_merge_eq lww_compat_def)
  show "lww_merge (lww_merge a b) c = lww_merge a (lww_merge b c)"
    by (auto simp: lww_merge_eq)
qed (auto simp: lww_merge_eq lww_compat_def)

section \<open>Observed-remove sets\<close>

datatype add_tag = AddTag (tag_node: node_id) (tag_seq: u64)

record 'e or_set =
  or_elements_map :: "('e, add_tag set) btree_map"
  seq_counters :: counters

definition or_new :: "'e or_set" where
  "or_new = \<lparr>or_elements_map = [], seq_counters = []\<rparr>"

definition next_tag :: "node_id \<Rightarrow> 'e or_set \<Rightarrow> add_tag \<times> 'e or_set" where
  "next_tag n s =
     (let cs = bt_upsert 0 (\<lambda>v. v + 1) n (seq_counters s)
      in (AddTag n (count cs n), s\<lparr>seq_counters := cs\<rparr>))"

definition or_add :: "'e::linorder \<Rightarrow> node_id \<Rightarrow> 'e or_set \<Rightarrow> add_tag \<times> 'e or_set" where
  "or_add e n s =
     (let (tag, s') = next_tag n s
      in (tag, s'\<lparr>or_elements_map := bt_upsert {} (insert tag) e (or_elements_map s')\<rparr>))"

definition or_remove :: "'e \<Rightarrow> 'e or_set \<Rightarrow> bool \<times> 'e or_set" where
  "or_remove e s =
     (map_of (or_elements_map s) e \<noteq> None, s\<lparr>or_elements_map := bt_remove e (or_elements_map s)\<rparr>)"

definition or_contains :: "'e or_set \<Rightarrow> 'e \<Rightarrow> bool" where
  "or_contains s e = (case map_of (or_elements_map s) e of None \<Rightarrow> False | Some tags \<Rightarrow> tags \<noteq> {})"

definition or_elements :: "'e or_set \<Rightarrow> 'e list" where
  "or_elements s = map fst (filter (\<lambda>(_, tags). tags \<noteq> {}) (or_elements_map s))"

definition or_len :: "'e or_set \<Rightarrow> nat" where
  "or_len s = length (filter (\<lambda>(_, tags). tags \<noteq> {}) (or_elements_map s))"

definition or_is_empty :: "'e or_set \<Rightarrow> bool" where
  "or_is_empty s \<longleftrightarrow> or_len s = 0"

definition or_merge :: "'e::linorder or_set \<Rightarrow> 'e or_set \<Rightarrow> 'e or_set" where
  "or_merge s other =
     s\<lparr>or_elements_map := bt_merge_with {} (\<union>) (or_elements_map s) (or_elements_map other),
       seq_counters := bt_merge_with 0 max (seq_counters s) (seq_counters other)\<rparr>"

definition or_ok :: "'e::linorder or_set \<Rightarrow> bool" where
  "or_ok s \<longleftrightarrow> bt_ok (or_elements_map s) \<and> bt_ok (seq_counters s)"

text \<open>The tags an element carries, the abstract state of the set.\<close>

definition or_tags :: "'e or_set \<Rightarrow> 'e \<Rightarrow> add_tag set" where
  "or_tags s e = bt_get_or {} (or_elements_map s) e"

interpretation tag_join: unit_join "(\<union>)" "{} :: add_tag set"
  by unfold_locales auto

interpretation orset: total_convergent or_merge or_ok
proof
  fix a b c :: "'e::linorder or_set"
  show "or_ok a \<Longrightarrow> or_ok b \<Longrightarrow> or_merge a b = or_merge b a"
    by (rule or_set.equality) (simp_all add: or_ok_def or_merge_def count_join.maps_comm tag_join.maps_comm)
qed (simp_all add: or_ok_def or_merge_def count_join.maps_idem count_join.maps_assoc
      tag_join.maps_idem tag_join.maps_assoc)

lemma or_contains_iff: "or_contains s e \<longleftrightarrow> or_tags s e \<noteq> {}"
  by (simp add: or_contains_def or_tags_def bt_get_or_def split: option.split)

lemma or_ok_ops [simp]:
  "or_ok or_new" "or_ok s \<Longrightarrow> or_ok (snd (or_add e n s))" "or_ok s \<Longrightarrow> or_ok (snd (or_remove e s))"
  by (simp_all add: or_ok_def or_new_def or_add_def next_tag_def or_remove_def Let_def bt_ok_remove)

lemma or_tags_new [simp]: "or_tags or_new e = {}"
  by (simp add: or_tags_def or_new_def)

lemma or_tags_add:
  "or_tags (snd (or_add e n s)) d = (if d = e then insert (fst (or_add e n s)) (or_tags s e) else or_tags s d)"
  by (auto simp: or_tags_def or_add_def next_tag_def Let_def)

lemma or_tags_remove: "or_tags (snd (or_remove e s)) d = (if d = e then {} else or_tags s d)"
  by (simp add: or_tags_def or_remove_def)

lemmas or_tags_ops = or_tags_new or_tags_add or_tags_remove

lemma or_tags_merge: "or_ok a \<Longrightarrow> or_ok b \<Longrightarrow> or_tags (or_merge a b) e = or_tags a e \<union> or_tags b e"
  by (simp add: or_ok_def or_tags_def or_merge_def tag_join.get_merge)

lemma or_seq_merge:
  "or_ok a \<Longrightarrow> or_ok b \<Longrightarrow>
   count (seq_counters (or_merge a b)) n = max (count (seq_counters a) n) (count (seq_counters b) n)"
  by (simp add: or_ok_def or_merge_def count_join.get_merge)

lemma or_elements_iff: "or_ok s \<Longrightarrow> e \<in> set (or_elements s) \<longleftrightarrow> or_contains s e"
proof -
  assume "or_ok s"
  then have "bt_ok (or_elements_map s)" by (simp add: or_ok_def)
  moreover have "e \<in> set (or_elements s) \<longleftrightarrow> (\<exists>tags. (e, tags) \<in> set (or_elements_map s) \<and> tags \<noteq> {})"
    by (force simp: or_elements_def)
  ultimately show ?thesis
    by (simp add: bt_mem_iff or_contains_def split: option.split)
qed

lemma or_len_elements: "or_ok s \<Longrightarrow> distinct (or_elements s) \<and> or_len s = length (or_elements s)"
  by (auto simp: or_ok_def or_elements_def or_len_def distinct_map_filter bt_ok_distinct)

text \<open>Tags never run ahead of the sequence counter of their node: a new tag is fresh.\<close>

definition tags_bounded :: "'e or_set \<Rightarrow> bool" where
  "tags_bounded s \<longleftrightarrow> (\<forall>e. \<forall>t \<in> or_tags s e. tag_seq t \<le> count (seq_counters s) (tag_node t))"

lemma seq_next:
  "count (seq_counters (snd (or_add e n s))) m =
     (if m = n then count (seq_counters s) n + 1 else count (seq_counters s) m)"
  "fst (or_add e n s) = AddTag n (count (seq_counters s) n + 1)"
  by (simp_all add: or_add_def next_tag_def Let_def)

lemma tags_bounded_add:
  assumes "tags_bounded s" and "unat (count (seq_counters s) n) + 1 < 2 ^ 64"
  shows "tags_bounded (snd (or_add e n s))"
proof -
  have "count (seq_counters s) n < count (seq_counters s) n + 1"
    using assms(2) by (intro word_less_inc) simp
  then show ?thesis
    using assms(1) by (fastforce simp: tags_bounded_def or_tags_ops seq_next)
qed

lemma tags_bounded_remove: "tags_bounded s \<Longrightarrow> tags_bounded (snd (or_remove e s))"
proof -
  have "seq_counters (snd (or_remove e s)) = seq_counters s" by (simp add: or_remove_def)
  then show "tags_bounded s \<Longrightarrow> ?thesis" by (auto simp: tags_bounded_def or_tags_ops split: if_splits)
qed

lemma tags_bounded_merge:
  "or_ok a \<Longrightarrow> or_ok b \<Longrightarrow> tags_bounded a \<Longrightarrow> tags_bounded b \<Longrightarrow> tags_bounded (or_merge a b)"
  by (auto simp: tags_bounded_def or_tags_merge or_seq_merge le_max_iff_disj)

lemma tags_bounded_new: "tags_bounded or_new"
  by (simp add: tags_bounded_def or_tags_ops)

section \<open>Last-writer-wins maps\<close>

record 'v lww_entry =
  le_value :: "'v option"
  le_timestamp :: hlc_timestamp

record ('k, 'v) lww_map =
  lm_entries :: "('k, 'v lww_entry) btree_map"

definition lm_new :: "('k, 'v) lww_map" where
  "lm_new = \<lparr>lm_entries = []\<rparr>"

text \<open>\<^verbatim>\<open>set\<close> and \<^verbatim>\<open>remove\<close> differ in the value they store.\<close>

definition lm_set :: "'k::linorder \<Rightarrow> 'v \<Rightarrow> hlc_timestamp \<Rightarrow> ('k, 'v) lww_map \<Rightarrow> bool \<times> ('k, 'v) lww_map" where
  "lm_set k v t m =
     (case map_of (lm_entries m) k of
        Some e \<Rightarrow> if le_timestamp e \<ge> t then (False, m)
          else (True, m\<lparr>lm_entries := bt_insert k \<lparr>le_value = Some v, le_timestamp = t\<rparr> (lm_entries m)\<rparr>)
      | None \<Rightarrow> (True, m\<lparr>lm_entries := bt_insert k \<lparr>le_value = Some v, le_timestamp = t\<rparr> (lm_entries m)\<rparr>))"

definition lm_remove :: "'k::linorder \<Rightarrow> hlc_timestamp \<Rightarrow> ('k, 'v) lww_map \<Rightarrow> bool \<times> ('k, 'v) lww_map" where
  "lm_remove k t m =
     (case map_of (lm_entries m) k of
        Some e \<Rightarrow> if le_timestamp e \<ge> t then (False, m)
          else (True, m\<lparr>lm_entries := bt_insert k \<lparr>le_value = None, le_timestamp = t\<rparr> (lm_entries m)\<rparr>)
      | None \<Rightarrow> (True, m\<lparr>lm_entries := bt_insert k \<lparr>le_value = None, le_timestamp = t\<rparr> (lm_entries m)\<rparr>))"

definition lm_get :: "('k, 'v) lww_map \<Rightarrow> 'k \<Rightarrow> 'v option" where
  "lm_get m k = Option.bind (map_of (lm_entries m) k) le_value"

definition lm_live :: "('k, 'v) lww_map \<Rightarrow> ('k \<times> 'v) list" where
  "lm_live m = List.map_filter (\<lambda>(k, e). map_option (Pair k) (le_value e)) (lm_entries m)"

definition lm_len :: "('k, 'v) lww_map \<Rightarrow> nat" where
  "lm_len m = length (filter (\<lambda>e. le_value e \<noteq> None) (map snd (lm_entries m)))"

definition lm_is_empty :: "('k, 'v) lww_map \<Rightarrow> bool" where
  "lm_is_empty m \<longleftrightarrow> lm_len m = 0"

definition lm_merge :: "('k::linorder, 'v) lww_map \<Rightarrow> ('k, 'v) lww_map \<Rightarrow> ('k, 'v) lww_map" where
  "lm_merge m other =
     m\<lparr>lm_entries :=
        fold (\<lambda>(k, e) es. case map_of es k of
                Some mine \<Rightarrow> if le_timestamp mine \<ge> le_timestamp e then es else bt_insert k e es
              | None \<Rightarrow> bt_insert k e es)
          (lm_entries other) (lm_entries m)\<rparr>"

definition lm_ok :: "('k::linorder, 'v) lww_map \<Rightarrow> bool" where
  "lm_ok m \<longleftrightarrow> bt_ok (lm_entries m)"

definition lm_compat :: "('k, 'v) lww_map \<Rightarrow> ('k, 'v) lww_map \<Rightarrow> bool" where
  "lm_compat a b \<longleftrightarrow>
     (\<forall>k e f. map_of (lm_entries a) k = Some e \<longrightarrow> map_of (lm_entries b) k = Some f \<longrightarrow>
        le_timestamp e = le_timestamp f \<longrightarrow> e = f)"

text \<open>The entry that wins, per key.\<close>

fun newer :: "'v lww_entry option \<Rightarrow> 'v lww_entry option \<Rightarrow> 'v lww_entry option" where
  "newer None b = b"
| "newer a None = a"
| "newer (Some a) (Some b) = Some (if le_timestamp a \<ge> le_timestamp b then a else b)"

lemma newer_None [simp]: "newer a None = a"
  by (cases a) auto

lemma newer_simps: "newer a a = a" "newer (newer a b) c = newer a (newer b c)"
  by (cases a; auto) (cases a; cases b; cases c; auto)

definition upd :: "'v lww_entry option \<Rightarrow> 'v lww_entry \<Rightarrow> 'v lww_entry option" where
  "upd old e = (case old of Some mine \<Rightarrow> if le_timestamp mine \<ge> le_timestamp e then None else Some e | None \<Rightarrow> Some e)"

lemma lm_merge_upd:
  "lm_entries (lm_merge m other) =
     fold (\<lambda>(k, e) es. case upd (map_of es k) e of None \<Rightarrow> es | Some w \<Rightarrow> bt_insert k w es)
       (lm_entries other) (lm_entries m)"
proof -
  have "(case map_of es k of Some mine \<Rightarrow> if le_timestamp mine \<ge> le_timestamp e then es else bt_insert k e es
          | None \<Rightarrow> bt_insert k e es) =
        (case upd (map_of es k) e of None \<Rightarrow> es | Some w \<Rightarrow> bt_insert k w es)"
    for es :: "('a, 'b lww_entry) btree_map" and k e
    by (auto simp: upd_def split: option.splits)
  then show ?thesis by (simp add: lm_merge_def)
qed

lemma lm_lookup_merge:
  assumes "lm_ok a" and "lm_ok b"
  shows "map_of (lm_entries (lm_merge a b)) k = newer (map_of (lm_entries a) k) (map_of (lm_entries b) k)"
  using assms bt.lookup_merge_opt [of "lm_entries a" "lm_entries b" upd k]
  by (cases "map_of (lm_entries a) k"; cases "map_of (lm_entries b) k")
    (auto simp: lm_merge_upd lm_ok_def upd_def)

lemma lm_merge_ok [simp]: "lm_ok a \<Longrightarrow> lm_ok (lm_merge a b)"
  using bt.invar_fold_opt [of "lm_entries a" upd "lm_entries b"] by (simp add: lm_ok_def lm_merge_upd)

lemma lm_eqI:
  "lm_ok a \<Longrightarrow> lm_ok b \<Longrightarrow> (\<And>k. map_of (lm_entries a) k = map_of (lm_entries b) k) \<Longrightarrow> a = b"
  by (rule lww_map.equality) (auto simp: lm_ok_def intro: bt_map_eqI)

lemma lm_newer_comm:
  "lm_compat a b \<Longrightarrow> newer (map_of (lm_entries a) k) (map_of (lm_entries b) k) =
     newer (map_of (lm_entries b) k) (map_of (lm_entries a) k)"
proof (cases "map_of (lm_entries a) k"; cases "map_of (lm_entries b) k")
  fix e f
  assume e: "map_of (lm_entries a) k = Some e" and f: "map_of (lm_entries b) k = Some f"
    and c: "lm_compat a b"
  have "le_timestamp e = le_timestamp f \<Longrightarrow> e = f" using c e f unfolding lm_compat_def by blast
  then show ?thesis using e f by (cases "le_timestamp e = le_timestamp f") auto
qed simp_all

lemma newer_cases: "newer a b = a \<or> newer a b = b"
  by (cases a; cases b) auto

lemma lm_compat_merge:
  assumes "lm_ok b" and "lm_ok c" and "lm_compat a b" and "lm_compat a c"
  shows "lm_compat a (lm_merge b c)"
  unfolding lm_compat_def
proof (intro allI impI)
  fix k e f
  assume e: "map_of (lm_entries a) k = Some e" and f: "map_of (lm_entries (lm_merge b c)) k = Some f"
    and t: "le_timestamp e = le_timestamp f"
  have "map_of (lm_entries b) k = Some f \<or> map_of (lm_entries c) k = Some f"
    using f newer_cases [of "map_of (lm_entries b) k" "map_of (lm_entries c) k"]
    by (auto simp: lm_lookup_merge [OF assms(1,2)])
  with e t assms(3,4) show "e = f" unfolding lm_compat_def by blast
qed

interpretation lwwmap: convergent lm_merge lm_ok lm_compat
proof
  fix a b c :: "('k::linorder, 'v) lww_map"
  show "lm_ok a \<Longrightarrow> lm_merge a a = a"
    by (rule lm_eqI) (simp_all add: lm_lookup_merge newer_simps)
  show "lm_ok a \<Longrightarrow> lm_ok b \<Longrightarrow> lm_compat a b \<Longrightarrow> lm_merge a b = lm_merge b a"
    by (rule lm_eqI) (simp_all only: lm_lookup_merge lm_merge_ok, rule lm_newer_comm)
  show "lm_ok a \<Longrightarrow> lm_ok b \<Longrightarrow> lm_ok c \<Longrightarrow> lm_merge (lm_merge a b) c = lm_merge a (lm_merge b c)"
    by (rule lm_eqI) (simp_all add: lm_lookup_merge newer_simps)
  show "lm_ok a \<Longrightarrow> lm_ok b \<Longrightarrow> lm_ok c \<Longrightarrow> lm_compat a b \<Longrightarrow> lm_compat a c \<Longrightarrow> lm_compat b c \<Longrightarrow>
      lm_compat a (lm_merge b c)"
    by (rule lm_compat_merge)
  show "lm_compat a b \<Longrightarrow> lm_compat b a"
    unfolding lm_compat_def by metis
qed (auto simp: lm_compat_def)

text \<open>A write is a merge with the map that holds this write alone.\<close>

lemma lm_set_as_merge: "snd (lm_set k v t m) = lm_merge m \<lparr>lm_entries = [(k, \<lparr>le_value = Some v, le_timestamp = t\<rparr>)]\<rparr>"
  by (auto simp: lm_set_def lm_merge_def split: option.split)

lemma lm_remove_as_merge: "snd (lm_remove k t m) = lm_merge m \<lparr>lm_entries = [(k, \<lparr>le_value = None, le_timestamp = t\<rparr>)]\<rparr>"
  by (auto simp: lm_remove_def lm_merge_def split: option.split)

lemma lm_get_iff_live: "lm_ok m \<Longrightarrow> lm_get m k = Some v \<longleftrightarrow> (k, v) \<in> set (lm_live m)"
proof -
  assume "lm_ok m"
  moreover have "(k, v) \<in> set (lm_live m) \<longleftrightarrow> (\<exists>e. (k, e) \<in> set (lm_entries m) \<and> le_value e = Some v)"
    by (force simp: lm_live_def List.map_filter_def)
  ultimately show ?thesis
    by (auto simp: lm_ok_def bt_mem_iff lm_get_def Option.bind_eq_Some_conv)
qed

text \<open>A log of writes, applied one after the other, and the map it leaves.\<close>

datatype ('k, 'v) lm_write = LmSet 'k 'v hlc_timestamp | LmRemove 'k hlc_timestamp

fun lm_apply :: "('k::linorder, 'v) lww_map \<Rightarrow> ('k, 'v) lm_write \<Rightarrow> ('k, 'v) lww_map" where
  "lm_apply m (LmSet k v t) = snd (lm_set k v t m)"
| "lm_apply m (LmRemove k t) = snd (lm_remove k t m)"

fun lm_single :: "('k, 'v) lm_write \<Rightarrow> ('k, 'v) lww_map" where
  "lm_single (LmSet k v t) = \<lparr>lm_entries = [(k, \<lparr>le_value = Some v, le_timestamp = t\<rparr>)]\<rparr>"
| "lm_single (LmRemove k t) = \<lparr>lm_entries = [(k, \<lparr>le_value = None, le_timestamp = t\<rparr>)]\<rparr>"

fun write_key :: "('k, 'v) lm_write \<Rightarrow> 'k" where
  "write_key (LmSet k v t) = k"
| "write_key (LmRemove k t) = k"

fun write_entry :: "('k, 'v) lm_write \<Rightarrow> 'v lww_entry" where
  "write_entry (LmSet k v t) = \<lparr>le_value = Some v, le_timestamp = t\<rparr>"
| "write_entry (LmRemove k t) = \<lparr>le_value = None, le_timestamp = t\<rparr>"

lemma lm_apply_merge: "lm_apply m w = lm_merge m (lm_single w)"
  by (cases w) (simp_all add: lm_set_as_merge lm_remove_as_merge)

lemma lm_apply_foldl: "foldl lm_apply m ws = foldl lm_merge m (map lm_single ws)"
  by (induction ws arbitrary: m) (simp_all add: lm_apply_merge)

lemma lm_single_entries: "lm_entries (lm_single w) = [(write_key w, write_entry w)]"
  by (cases w) simp_all

lemma lm_single_ok [simp]: "lm_ok (lm_single w)" "lm_ok lm_new"
  by (simp_all add: lm_ok_def lm_single_entries bt_ok_Cons lm_new_def)

text \<open>Writes to one key at one timestamp are the same write.\<close>

definition writes_compat :: "('k, 'v) lm_write set \<Rightarrow> bool" where
  "writes_compat W \<longleftrightarrow>
     (\<forall>v \<in> W. \<forall>w \<in> W. write_key v = write_key w \<longrightarrow>
        le_timestamp (write_entry v) = le_timestamp (write_entry w) \<longrightarrow> v = w)"

lemma lm_log_order_irrelevant:
  assumes "writes_compat (set ws)" and "set ws = set us"
  shows "foldl lm_apply lm_new ws = foldl lm_apply lm_new us"
  unfolding lm_apply_foldl
proof (rule lwwmap.same_set_same_state)
  show "set (lm_new # map lm_single ws) = set (lm_new # map lm_single us)"
    using assms(2) by simp
  have "lm_compat lm_new a \<and> lm_compat a lm_new" for a :: "('k, 'v) lww_map"
    by (simp add: lm_compat_def lm_new_def)
  moreover have "lm_compat (lm_single v) (lm_single w)" if "v \<in> set ws" "w \<in> set ws" for v w
    using assms(1) that by (auto simp: writes_compat_def lm_compat_def lm_single_entries)
  ultimately show "lwwmap.coherent (set (lm_new # map lm_single ws))"
    by (auto simp: lwwmap.coherent_def)
qed

lemma lm_log_ok: "lm_ok (foldl lm_apply lm_new ws)"
  by (induction ws rule: rev_induct) (simp_all add: lm_apply_merge)

lemma lm_log_lookup:
  "map_of (lm_entries (foldl lm_apply lm_new (ws @ [w]))) k =
     newer (map_of (lm_entries (foldl lm_apply lm_new ws)) k) (if write_key w = k then Some (write_entry w) else None)"
  using lm_lookup_merge [OF lm_log_ok lm_single_ok(1), of ws w k]
  by (simp add: lm_apply_merge lm_single_entries split: if_splits)

text \<open>The entry a log leaves is one of its writes, and the latest one for its key.\<close>

lemma lm_log_latest:
  "case map_of (lm_entries (foldl lm_apply lm_new ws)) k of
     None \<Rightarrow> \<forall>w \<in> set ws. write_key w \<noteq> k
   | Some e \<Rightarrow> (\<exists>w \<in> set ws. write_key w = k \<and> write_entry w = e) \<and>
       (\<forall>w \<in> set ws. write_key w = k \<longrightarrow> le_timestamp (write_entry w) \<le> le_timestamp e)"
proof (induction ws rule: rev_induct)
  case (snoc w ws)
  show ?case
  proof (cases "write_key w = k")
    case False
    with snoc show ?thesis by (simp add: lm_log_lookup del: foldl_append split: option.splits)
  next
    case True
    with snoc show ?thesis
      by (cases "map_of (lm_entries (foldl lm_apply lm_new ws)) k")
        (auto simp add: lm_log_lookup simp del: foldl_append)
  qed
qed (simp add: lm_new_def)

section \<open>Properties\<close>



text \<open>A removal does not propagate: after a replica has removed an element, merging the state of
  any peer that still holds it (even the state before the removal, with no concurrent addition)
  brings the element back with the tags the removal had observed.\<close>

theorem orset_remove_undone_by_merge:
  assumes "or_ok a" and "or_ok b" and "or_contains b e"
  shows "or_contains (or_merge (snd (or_remove e a)) b) e \<and>
    or_tags (or_merge (snd (or_remove e a)) b) e = or_tags b e \<and>
    or_merge (snd (or_remove e a)) a = a"
proof -
  have "or_merge (snd (or_remove e a)) a = a"
  proof (rule or_set.equality)
    have ok: "bt_ok (or_elements_map a)" "bt_ok (seq_counters a)" using assms(1) by (simp_all add: or_ok_def)
    show "or_elements_map (or_merge (snd (or_remove e a)) a) = or_elements_map a"
      by (rule bt_eq_via_get_or [where d = "{}"])
        (use ok in \<open>auto simp: or_merge_def or_remove_def bt_ok_remove bt_dom_merge_with tag_join.get_merge
            map_of_bt_remove\<close>)
    show "seq_counters (or_merge (snd (or_remove e a)) a) = seq_counters a"
      using ok by (simp add: or_merge_def or_remove_def count_join.maps_idem)
  qed simp
  then show ?thesis
    using assms by (auto simp: or_contains_iff or_tags_merge or_tags_ops)
qed

lemma orset_remove_undone_by_merge_witness:
  "or_contains (or_merge (snd (or_remove ''x'' (snd (or_add ''x'' ''n'' or_new)))) (snd (or_add ''x'' ''n'' or_new))) ''x''"
  by (rule orset_remove_undone_by_merge [THEN conjunct1]) (simp_all add: or_contains_iff or_tags_ops)

text \<open>C3: Replicas of an observed-remove set that have merged the same states agree, whatever the
  order of the merges and however often a state was delivered.\<close>

theorem orset_replicas_converge:
  assumes "\<And>a. a \<in> set (s # xs) \<Longrightarrow> or_ok a" and "set (s # xs) = set (t # ys)"
  shows "foldl or_merge s xs = foldl or_merge t ys"
  using assms by (rule orset.converges)

lemma orset_replicas_converge_witness:
  "foldl or_merge (snd (or_add ''x'' ''n'' or_new)) [or_new, snd (or_add ''y'' ''m'' or_new)] =
   foldl or_merge or_new [snd (or_add ''y'' ''m'' or_new), snd (or_add ''x'' ''n'' or_new), or_new]"
  by (rule orset_replicas_converge) auto

text \<open>C4: The last writer wins: after any log of writes and removals a key reads the value of its
  latest write (nothing, if that is a removal), and two logs with the same writes in any order
  and with any repetitions leave the same map, provided writes to one key at one timestamp are
  the same write.\<close>

theorem lww_map_last_writer_wins:
  assumes "writes_compat (set ws)" and "w \<in> set ws"
    and "\<forall>u \<in> set ws. write_key u = write_key w \<longrightarrow>
      le_timestamp (write_entry u) \<le> le_timestamp (write_entry w)"
    and "set us = set ws"
  shows "lm_get (foldl lm_apply lm_new ws) (write_key w) = le_value (write_entry w) \<and>
    foldl lm_apply lm_new us = foldl lm_apply lm_new ws"
proof -
  note latest = lm_log_latest [of ws "write_key w"]
  obtain e where e: "map_of (lm_entries (foldl lm_apply lm_new ws)) (write_key w) = Some e"
    using latest assms(2) by (cases "map_of (lm_entries (foldl lm_apply lm_new ws)) (write_key w)") auto
  obtain u where u: "u \<in> set ws" "write_key u = write_key w" "write_entry u = e"
      and le: "le_timestamp (write_entry w) \<le> le_timestamp e"
    using latest assms(2) unfolding e option.case by blast
  have "le_timestamp e \<le> le_timestamp (write_entry w)" using assms(3) u by blast
  then have "le_timestamp (write_entry u) = le_timestamp (write_entry w)" using le u(3) by simp
  then have "u = w" using assms(1,2) u(1,2) unfolding writes_compat_def by blast
  moreover have "foldl lm_apply lm_new us = foldl lm_apply lm_new ws"
    using lm_log_order_irrelevant [OF assms(1)] assms(4) by metis
  ultimately show ?thesis using e u(3) by (simp add: lm_get_def)
qed

lemma lww_map_last_writer_wins_witness:
  "lm_get (foldl lm_apply lm_new [LmSet ''k'' (1 :: nat) (Hlc 5 0 ''a''), LmRemove ''k'' (Hlc 5 1 ''a''),
     LmSet ''k'' 2 (Hlc 4 7 ''b'')]) (write_key (LmRemove ''k'' (Hlc 5 1 ''a'') :: (string, nat) lm_write)) =
   le_value (write_entry (LmRemove ''k'' (Hlc 5 1 ''a'') :: (string, nat) lm_write)) \<and>
   foldl lm_apply lm_new [LmSet ''k'' 2 (Hlc 4 7 ''b''), LmRemove ''k'' (Hlc 5 1 ''a''),
     LmSet ''k'' 2 (Hlc 4 7 ''b''), LmSet ''k'' (1 :: nat) (Hlc 5 0 ''a'')] =
   foldl lm_apply lm_new [LmSet ''k'' (1 :: nat) (Hlc 5 0 ''a''), LmRemove ''k'' (Hlc 5 1 ''a''),
     LmSet ''k'' 2 (Hlc 4 7 ''b'')]"
  by (rule lww_map_last_writer_wins) (simp_all add: writes_compat_def hlc_less_iff le_less insert_commute)

end
