(* ===== verification/Delta_Sync.thy ===== *)
theory Delta_Sync
  imports Crdt
begin

text \<open>
  The delta envelopes, the anti-entropy digests and the sync status of
  \<^verbatim>\<open>mnemo-core/src/sync.rs\<close>. \<open>sha\<close> stands for \<^verbatim>\<open>hex::encode(Sha256::digest(..))\<close>,
  library code the digests are built on; what the lemmas say about differing contents is
  stated for the inputs on which it does not collide.
\<close>

section \<open>Envelopes\<close>

datatype delta_resource_type = DEntity | DEdge | DEpisode | DUser | DSession | DAgentIdentity

record delta_op =
  do_resource_type :: delta_resource_type
  do_resource_id :: uuid
  do_field :: string
  do_crdt_state :: json

record delta_envelope =
  de_id :: uuid
  de_source_node :: node_id
  de_vector_clock :: vector_clock
  de_deltas :: "delta_op list"
  de_created_at :: timestamp

definition envelope_new :: "uuid \<Rightarrow> timestamp \<Rightarrow> node_id \<Rightarrow> vector_clock \<Rightarrow> delta_op list \<Rightarrow> delta_envelope" where
  "envelope_new new_id now source vc deltas =
     \<lparr>de_id = new_id, de_source_node = source, de_vector_clock = vc, de_deltas = deltas, de_created_at = now\<rparr>"

definition delta_count :: "delta_envelope \<Rightarrow> nat" where
  "delta_count e = length (de_deltas e)"

section \<open>Digests\<close>

record merkle_node =
  mn_hash :: string
  mn_prefix :: string
  mn_count :: u64

record merkle_digest =
  md_resource_type :: delta_resource_type
  md_user_id :: "uuid option"
  root_hash :: string
  total_items :: u64
  computed_at :: timestamp
  md_nodes :: "merkle_node list"

text \<open>\<^verbatim>\<open>chars().next()\<close>: the bytes of the first character, whose width its first byte tells.\<close>

definition utf8_width :: "char \<Rightarrow> nat" where
  "utf8_width c = (let b = (of_char c :: nat) in if b < 128 then 1 else if b < 224 then 2 else if b < 240 then 3 else 4)"

fun bucket_prefix :: "string \<Rightarrow> string" where
  "bucket_prefix [] = ''?''"
| "bucket_prefix (c # s) = take (utf8_width c) (c # s)"

type_synonym buckets = "(string, string list \<times> u64) btree_map"

definition add_to_bucket :: "merkle_node \<Rightarrow> buckets \<Rightarrow> buckets" where
  "add_to_bucket node = bt_upsert ([], 0) (\<lambda>(hs, n). (hs @ [mn_hash node], n + 1)) (bucket_prefix (mn_prefix node))"

definition leaf_nodes :: "(string \<times> string) list \<Rightarrow> merkle_node list" where
  "leaf_nodes items = map (\<lambda>(key, h). \<lparr>mn_hash = h, mn_prefix = key, mn_count = 1\<rparr>) items"

definition digest_from_items ::
  "(string \<Rightarrow> string) \<Rightarrow> timestamp \<Rightarrow> delta_resource_type \<Rightarrow> uuid option \<Rightarrow> (string \<times> string) list \<Rightarrow> merkle_digest" where
  "digest_from_items sha now rt user items =
     (if items = [] then
        \<lparr>md_resource_type = rt, md_user_id = user, root_hash = sha ''empty'', total_items = 0,
         computed_at = now, md_nodes = []\<rparr>
      else
        let nodes = leaf_nodes items;
            root = sha (concat (map mn_hash nodes));
            bs = fold add_to_bucket nodes [];
            summary = map (\<lambda>(prefix, hs, n). \<lparr>mn_hash = sha (concat hs), mn_prefix = prefix, mn_count = n\<rparr>) bs
        in \<lparr>md_resource_type = rt, md_user_id = user, root_hash = root, total_items = of_nat (length items),
            computed_at = now, md_nodes = summary\<rparr>)"

text \<open>The hash maps of \<^verbatim>\<open>diff_prefixes\<close>; a later node overwrites an earlier one.\<close>

definition node_map :: "merkle_digest \<Rightarrow> string \<rightharpoonup> string" where
  "node_map d = map_of (rev (map (\<lambda>n. (mn_prefix n, mn_hash n)) (md_nodes d)))"

definition diff_prefixes :: "merkle_digest \<Rightarrow> merkle_digest \<Rightarrow> string list" where
  "diff_prefixes d other =
     (if root_hash d = root_hash other then []
      else sort (filter (\<lambda>p. node_map d p \<noteq> node_map other p)
             (remdups (map mn_prefix (md_nodes d) @ map mn_prefix (md_nodes other)))))"

section \<open>Sync status\<close>

record sync_status =
  ss_node_id :: node_id
  ss_vector_clock :: vector_clock
  known_peers :: "node_id list"
  deltas_produced :: u64
  deltas_received :: u64
  conflicts_resolved :: u64
  last_sync :: "(node_id, timestamp) btree_map"
  ss_enabled :: bool

definition sync_disabled :: sync_status where
  "sync_disabled =
     \<lparr>ss_node_id = ''standalone'', ss_vector_clock = vc_new, known_peers = [], deltas_produced = 0,
      deltas_received = 0, conflicts_resolved = 0, last_sync = [], ss_enabled = False\<rparr>"

section \<open>What a digest records\<close>

definition bucket_hashes :: "(string \<times> string) list \<Rightarrow> string \<Rightarrow> string list" where
  "bucket_hashes items p = map snd (filter (\<lambda>(key, _). bucket_prefix key = p) items)"

lemma bucket_hashes_snoc:
  "bucket_hashes (items @ [(key, h)]) p = bucket_hashes items p @ (if bucket_prefix key = p then [h] else [])"
  by (simp add: bucket_hashes_def)

lemma add_to_bucket_apply:
  "add_to_bucket \<lparr>mn_hash = h, mn_prefix = key, mn_count = 1\<rparr> bs =
     bt_upsert ([], 0) (\<lambda>(hs, n). (hs @ [h], n + 1)) (bucket_prefix key) bs"
  by (simp add: add_to_bucket_def)

lemma buckets_lookup:
  "bt_ok (fold add_to_bucket (leaf_nodes items) []) \<and>
   map_of (fold add_to_bucket (leaf_nodes items) []) p =
     (if bucket_hashes items p = [] then None
      else Some (bucket_hashes items p, of_nat (length (bucket_hashes items p))))"
proof (induction items rule: rev_induct)
  case (snoc item items)
  obtain key h where item: "item = (key, h)" by (cases item)
  let ?bs = "fold add_to_bucket (leaf_nodes items) []"
  have leaf: "leaf_nodes (items @ [(key, h)]) = leaf_nodes items @ [\<lparr>mn_hash = h, mn_prefix = key, mn_count = 1\<rparr>]"
    by (simp add: leaf_nodes_def)
  have IH: "bt_ok ?bs" "map_of ?bs p = (if bucket_hashes items p = [] then None
      else Some (bucket_hashes items p, of_nat (length (bucket_hashes items p))))"
    using snoc by auto
  show ?case
    using IH by (auto simp: item leaf add_to_bucket_apply map_of_bt_upsert bucket_hashes_snoc bt_get_or_def
        split: if_splits)
qed (simp_all add: leaf_nodes_def bucket_hashes_def)

lemma node_map_digest:
  "node_map (digest_from_items sha now rt user items) p =
     (if bucket_hashes items p = [] then None else Some (sha (concat (bucket_hashes items p))))"
proof (cases "items = []")
  case True
  then show ?thesis by (simp add: digest_from_items_def node_map_def bucket_hashes_def)
next
  case False
  let ?bs = "fold add_to_bucket (leaf_nodes items) []"
  have ok: "bt_ok ?bs" using buckets_lookup by blast
  let ?ns = "map (\<lambda>n. (mn_prefix n, mn_hash n)) (md_nodes (digest_from_items sha now rt user items))"
  have ns: "?ns = map (\<lambda>(q, hs, n). (q, sha (concat hs))) ?bs"
    using False by (simp add: digest_from_items_def Let_def case_prod_beta comp_def)
  have keys: "map fst ?ns = map fst ?bs" unfolding ns by (simp add: case_prod_beta comp_def)
  have summary: "map_of (map (\<lambda>(q, hs, n). (q, sha (concat hs))) bs) p = map_option (\<lambda>(hs, n). sha (concat hs)) (map_of bs p)"
    for bs :: buckets
    by (induction bs) auto
  from keys have "map_of (rev ?ns) = map_of ?ns"
    using bt_ok_distinct [OF ok] by (subst map_of_inject_set) (simp_all add: rev_map [symmetric])
  moreover have "map_of ?ns p = map_option (\<lambda>(hs, n). sha (concat hs)) (map_of ?bs p)"
    unfolding ns by (rule summary)
  ultimately show ?thesis
    using buckets_lookup [of items p] by (simp add: node_map_def)
qed

lemma node_map_prefixes: "node_map d p \<noteq> None \<longleftrightarrow> p \<in> mn_prefix ` set (md_nodes d)"
  by (auto simp: node_map_def map_of_eq_None_iff image_image)

lemma diff_prefixes_set:
  "set (diff_prefixes d e) = (if root_hash d = root_hash e then {} else {p. node_map d p \<noteq> node_map e p})"
proof -
  have "p \<in> mn_prefix ` set (md_nodes d) \<or> p \<in> mn_prefix ` set (md_nodes e)" if "node_map d p \<noteq> node_map e p" for p
    using that node_map_prefixes [of d p] node_map_prefixes [of e p] by (metis option.exhaust_sel)
  then show ?thesis by (auto simp: diff_prefixes_def)
qed

lemma root_hash_digest:
  "root_hash (digest_from_items sha now rt user items) =
     sha (if items = [] then ''empty'' else concat (map snd items))"
  by (simp add: digest_from_items_def leaf_nodes_def Let_def case_prod_beta comp_def)

section \<open>Properties\<close>

text \<open>Two digests whose roots differ report, in ascending order and each once, exactly the
  prefixes under which the two item lists have different hash sequences, provided SHA-256 does
  not collide on the concatenations compared and all item hashes have one length: a subtree
  that is in sync is never reported and one that is not is never missed.\<close>

theorem diff_prefixes_exact:
  fixes A B rt user sha t1 t2 L
  defines "dA \<equiv> digest_from_items sha t1 rt user A" and "dB \<equiv> digest_from_items sha t2 rt user B"
  assumes "root_hash dA \<noteq> root_hash dB"
    and "0 < L" and "\<forall>(key, h) \<in> set (A @ B). length h = L"
    and "\<forall>p. inj_on sha {concat (bucket_hashes A p), concat (bucket_hashes B p)}"
  shows "(\<forall>p. p \<in> set (diff_prefixes dA dB) \<longleftrightarrow> bucket_hashes A p \<noteq> bucket_hashes B p) \<and>
    sorted (diff_prefixes dA dB) \<and> distinct (diff_prefixes dA dB)"
proof -
  have len: "length h = L" if "h \<in> set (bucket_hashes A p) \<union> set (bucket_hashes B p)" for h p
    using that assms(5) by (auto simp: bucket_hashes_def)
  have "concat (bucket_hashes A p) = concat (bucket_hashes B p) \<longleftrightarrow> bucket_hashes A p = bucket_hashes B p" for p
  proof
    assume eq: "concat (bucket_hashes A p) = concat (bucket_hashes B p)"
    have "length (concat xs) = L * length xs" if "\<forall>x \<in> set xs. length x = L" for xs :: "string list"
      using that by (induction xs) auto
    then have "length (bucket_hashes A p) = length (bucket_hashes B p)"
      using eq len \<open>0 < L\<close> by (metis UnCI mult_cancel1 less_numeral_extra(3))
    then show "bucket_hashes A p = bucket_hashes B p"
    proof (intro concat_injective)
      show "\<forall>(x, y) \<in> set (zip (bucket_hashes A p) (bucket_hashes B p)). length x = length y"
      proof clarify
        fix x y
        assume "(x, y) \<in> set (zip (bucket_hashes A p) (bucket_hashes B p))"
        then have "x \<in> set (bucket_hashes A p)" "y \<in> set (bucket_hashes B p)"
          by (auto dest: set_zip_leftD set_zip_rightD)
        then show "length x = length y" using len [of x p] len [of y p] by simp
      qed
    qed (use eq in simp_all)
  qed simp
  then have "node_map dA p \<noteq> node_map dB p \<longleftrightarrow> bucket_hashes A p \<noteq> bucket_hashes B p" for p
    using assms(6) by (auto simp: dA_def dB_def node_map_digest inj_on_def)
  then show ?thesis
    using assms(3) by (auto simp: diff_prefixes_set) (auto simp: diff_prefixes_def)
qed

lemma diff_prefixes_exact_witness:
  "\<exists>d. diff_prefixes (digest_from_items (\<lambda>x. x) 0 DEdge None [(''edge:1'', ''aa''), (''user:1'', ''bb'')])
         (digest_from_items (\<lambda>x. x) 5 DEdge None [(''edge:1'', ''aa''), (''user:1'', ''cc'')]) = d \<and>
     sorted d \<and> distinct d \<and> ''u'' \<in> set d \<and> ''e'' \<notin> set d"
  using diff_prefixes_exact [of "\<lambda>x. x" 0 DEdge None "[(''edge:1'', ''aa''), (''user:1'', ''bb'')]" 5
      "[(''edge:1'', ''aa''), (''user:1'', ''cc'')]" 2]
  by (simp add: root_hash_digest bucket_hashes_def utf8_width_def)

text \<open>Equal roots end the comparison, and a root depends on the sequence of item hashes alone:
  item lists under different keys but with the same hashes are reported as in sync, and so
  are lists whose hashes merely concatenate to the same bytes, without any collision of SHA-256.\<close>

theorem digest_ignores_keys:
  assumes "A \<noteq> []" and "B \<noteq> []" and "concat (map snd A) = concat (map snd B)"
  shows "diff_prefixes (digest_from_items sha t1 rt user A) (digest_from_items sha t2 rt user B) = []"
  using assms by (simp add: diff_prefixes_def root_hash_digest)

lemma digest_ignores_keys_witness:
  "diff_prefixes (digest_from_items (\<lambda>x. x) 0 DEdge None [(''edge:1'', ''aa'')])
     (digest_from_items (\<lambda>x. x) 5 DEdge None [(''user:1'', ''aa'')]) = [] \<and>
   bucket_hashes [(''edge:1'', ''aa'')] ''e'' \<noteq> bucket_hashes [(''user:1'', ''aa'')] ''e''"
  using digest_ignores_keys [of "[(''edge:1'', ''aa'')]" "[(''user:1'', ''aa'')]" "\<lambda>x. x" 0 DEdge None 5]
  by (simp add: bucket_hashes_def utf8_width_def)

end
