(* ===== verification/Error_Model.thy ===== *)
theory Error_Model
  imports Mnemo_Prelude
begin

text \<open>
  The error type every operation of the workspace returns (\<^verbatim>\<open>mnemo-core/src/error.rs\<close>),
  its HTTP status and code, and the response body a client receives, whose message is
  sanitised. \<open>show_uuid\<close> stands for the \<^verbatim>\<open>Display\<close> of the \<^verbatim>\<open>uuid\<close> crate.
\<close>

datatype (plugins only: size) mnemo_error =
    UserNotFound uuid
  | SessionNotFound uuid
  | EpisodeNotFound uuid
  | EntityNotFound uuid
  | EdgeNotFound uuid
  | NotFound string string
  | Validation string
  | Duplicate string
  | Redis string
  | Qdrant string
  | Storage string
  | Serialization string
  | LlmProvider string string
  | EmbeddingProvider string string
  | ExtractionFailed string
  | RateLimited u64
  | DocumentParsing string
  | AlreadyClaimed uuid
  | ProcessingTimeout uuid
  | Unauthorized
  | Forbidden
  | AccessDenied string
  | InvalidApiKey
  | BadRequest string
  | UnsupportedMediaType string
  | PayloadTooLarge string
  | ServiceUnavailable string
  | NotImplemented string
  | Config string
  | Internal string

definition status_code :: "mnemo_error \<Rightarrow> nat" where
  "status_code err = (case err of
     UserNotFound _ \<Rightarrow> 404
   | SessionNotFound _ \<Rightarrow> 404
   | EpisodeNotFound _ \<Rightarrow> 404
   | EntityNotFound _ \<Rightarrow> 404
   | EdgeNotFound _ \<Rightarrow> 404
   | NotFound _ _ \<Rightarrow> 404
   | Validation _ \<Rightarrow> 400
   | BadRequest _ \<Rightarrow> 400
   | Duplicate _ \<Rightarrow> 409
   | Unauthorized \<Rightarrow> 401
   | InvalidApiKey \<Rightarrow> 401
   | Forbidden \<Rightarrow> 403
   | AccessDenied _ \<Rightarrow> 403
   | RateLimited _ \<Rightarrow> 429
   | AlreadyClaimed _ \<Rightarrow> 409
   | UnsupportedMediaType _ \<Rightarrow> 415
   | PayloadTooLarge _ \<Rightarrow> 413
   | ServiceUnavailable _ \<Rightarrow> 503
   | NotImplemented _ \<Rightarrow> 501
   | LlmProvider _ _ \<Rightarrow> 502
   | EmbeddingProvider _ _ \<Rightarrow> 502
   | ExtractionFailed _ \<Rightarrow> 502
   | _ \<Rightarrow> 500)"

definition error_code :: "mnemo_error \<Rightarrow> string" where
  "error_code err = (case err of
     UserNotFound _ \<Rightarrow> ''user_not_found''
   | SessionNotFound _ \<Rightarrow> ''session_not_found''
   | EpisodeNotFound _ \<Rightarrow> ''episode_not_found''
   | EntityNotFound _ \<Rightarrow> ''entity_not_found''
   | EdgeNotFound _ \<Rightarrow> ''edge_not_found''
   | NotFound _ _ \<Rightarrow> ''not_found''
   | Validation _ \<Rightarrow> ''validation_error''
   | Duplicate _ \<Rightarrow> ''duplicate''
   | Unauthorized \<Rightarrow> ''unauthorized''
   | InvalidApiKey \<Rightarrow> ''invalid_api_key''
   | Forbidden \<Rightarrow> ''forbidden''
   | AccessDenied _ \<Rightarrow> ''forbidden''
   | RateLimited _ \<Rightarrow> ''rate_limited''
   | AlreadyClaimed _ \<Rightarrow> ''already_claimed''
   | BadRequest _ \<Rightarrow> ''bad_request''
   | UnsupportedMediaType _ \<Rightarrow> ''unsupported_media_type''
   | PayloadTooLarge _ \<Rightarrow> ''payload_too_large''
   | ServiceUnavailable _ \<Rightarrow> ''service_unavailable''
   | NotImplemented _ \<Rightarrow> ''not_implemented''
   | _ \<Rightarrow> ''internal_error'')"

definition sanitize_error_message :: "(uuid \<Rightarrow> string) \<Rightarrow> mnemo_error \<Rightarrow> string" where
  "sanitize_error_message show_uuid err = (case err of
     UserNotFound i \<Rightarrow> ''User not found: '' @ show_uuid i
   | SessionNotFound i \<Rightarrow> ''Session not found: '' @ show_uuid i
   | EpisodeNotFound i \<Rightarrow> ''Episode not found: '' @ show_uuid i
   | EntityNotFound i \<Rightarrow> ''Entity not found: '' @ show_uuid i
   | EdgeNotFound i \<Rightarrow> ''Edge not found: '' @ show_uuid i
   | NotFound rt i \<Rightarrow> rt @ '' not found: '' @ i
   | Validation msg \<Rightarrow> ''Validation error: '' @ msg
   | Duplicate msg \<Rightarrow> ''Duplicate resource: '' @ msg
   | Forbidden \<Rightarrow> ''Insufficient permissions''
   | AccessDenied msg \<Rightarrow> ''Access denied: '' @ msg
   | Unauthorized \<Rightarrow> ''Unauthorized''
   | InvalidApiKey \<Rightarrow> ''Invalid API key''
   | RateLimited ms \<Rightarrow> ''Rate limit exceeded, retry after '' @ nat_to_string (unat ms) @ ''ms''
   | AlreadyClaimed _ \<Rightarrow> ''Resource is being processed''
   | ProcessingTimeout _ \<Rightarrow> ''Processing timed out''
   | BadRequest msg \<Rightarrow> ''Bad request: '' @ msg
   | UnsupportedMediaType msg \<Rightarrow> ''Unsupported media type: '' @ msg
   | PayloadTooLarge msg \<Rightarrow> ''Payload too large: '' @ msg
   | ServiceUnavailable msg \<Rightarrow> ''Service unavailable: '' @ msg
   | NotImplemented msg \<Rightarrow> ''Not implemented: '' @ msg
   | Redis _ \<Rightarrow> ''Storage service temporarily unavailable''
   | Qdrant _ \<Rightarrow> ''Vector service temporarily unavailable''
   | Storage _ \<Rightarrow> ''Storage error''
   | Serialization _ \<Rightarrow> ''Data serialization error''
   | Config _ \<Rightarrow> ''Server configuration error''
   | LlmProvider _ _ \<Rightarrow> ''Language model service error''
   | EmbeddingProvider _ _ \<Rightarrow> ''Embedding service error''
   | ExtractionFailed _ \<Rightarrow> ''Content extraction failed''
   | DocumentParsing _ \<Rightarrow> ''Document parsing failed''
   | Internal _ \<Rightarrow> ''Internal server error'')"

record api_error_detail =
  aed_code :: string
  aed_message :: string
  retry_after_ms :: "u64 option"

record api_error_response =
  aer_error :: api_error_detail

definition error_response :: "(uuid \<Rightarrow> string) \<Rightarrow> mnemo_error \<Rightarrow> api_error_response" where
  "error_response show_uuid err =
     \<lparr>aer_error =
       \<lparr>aed_code = error_code err,
        aed_message = sanitize_error_message show_uuid err,
        retry_after_ms = (case err of RateLimited ms \<Rightarrow> Some ms | _ \<Rightarrow> None)\<rparr>\<rparr>"

section \<open>Properties\<close>

text \<open>The variants behind statuses 500 and 502, whose payload is internal.\<close>

definition internal_kind :: "mnemo_error \<Rightarrow> nat option" where
  "internal_kind err = (case err of
     Redis _ \<Rightarrow> Some 0
   | Qdrant _ \<Rightarrow> Some 1
   | Storage _ \<Rightarrow> Some 2
   | Serialization _ \<Rightarrow> Some 3
   | Config _ \<Rightarrow> Some 4
   | LlmProvider _ _ \<Rightarrow> Some 5
   | EmbeddingProvider _ _ \<Rightarrow> Some 6
   | ExtractionFailed _ \<Rightarrow> Some 7
   | DocumentParsing _ \<Rightarrow> Some 8
   | Internal _ \<Rightarrow> Some 9
   | ProcessingTimeout _ \<Rightarrow> Some 10
   | _ \<Rightarrow> None)"

definition same_variant :: "mnemo_error \<Rightarrow> mnemo_error \<Rightarrow> bool" where
  "same_variant e f \<longleftrightarrow> internal_kind e \<noteq> None \<and> internal_kind e = internal_kind f"

text \<open>No internal detail reaches a client: for every error that maps to status 500 or 502 the
  response body is the same whatever the error carries, and the status is in the client or
  server error range for every error.\<close>

theorem internal_errors_leak_nothing:
  assumes "status_code e \<in> {500, 502}"
  shows "(same_variant e f \<longrightarrow> error_response s e = error_response s' f) \<and> same_variant e e \<and>
    400 \<le> status_code f \<and> status_code f < 600"
proof -
  have "same_variant e f \<Longrightarrow> error_response s e = error_response s' f"
    by (cases e; simp add: same_variant_def internal_kind_def; cases f; simp add: error_response_def error_code_def sanitize_error_message_def)
  moreover have "same_variant e e" using assms by (cases e) (simp_all add: same_variant_def internal_kind_def status_code_def)
  moreover have "400 \<le> status_code f \<and> status_code f < 600" by (cases f) (simp_all add: status_code_def)
  ultimately show ?thesis by blast
qed

lemma internal_errors_leak_nothing_witness:
  "error_response (\<lambda>_. ''u'') (Redis ''redis://:secret@10.0.0.1'') = error_response (\<lambda>_. ''v'') (Redis '''')"
  using internal_errors_leak_nothing [of "Redis ''redis://:secret@10.0.0.1''" "Redis ''''" "\<lambda>_. ''u''" "\<lambda>_. ''v''"]
  by (simp add: same_variant_def internal_kind_def status_code_def)

end
