(* ===== verification/Access.thy ===== *)
theory Access
  imports Error_Model
begin

text \<open>
  Roles, classifications, key scopes and the caller context of
  \<^verbatim>\<open>mnemo-core/src/models/api_key.rs\<close> and \<^verbatim>\<open>classification.rs\<close>. The levels share an
  interface, \<open>graded\<close>, from which the facts about ceilings and about narrowing one ceiling by
  another follow. \<open>sha\<close> stands for \<^verbatim>\<open>hex::encode(Sha256::digest(..))\<close> and \<open>henc\<close> for
  \<^verbatim>\<open>hex::encode\<close>; random bytes are an argument.
\<close>

section \<open>Graded permissions\<close>

text \<open>\<open>allows have need\<close>: holding \<open>have\<close> is enough for what needs \<open>need\<close>.\<close>

locale graded =
  fixes allows :: "'l \<Rightarrow> 'l \<Rightarrow> bool"
  assumes allows_refl: "allows a a"
    and allows_trans: "allows a b \<Longrightarrow> allows b c \<Longrightarrow> allows a c"
    and allows_total: "allows a b \<or> allows b a"
    and allows_antisym: "allows a b \<Longrightarrow> allows b a \<Longrightarrow> a = b"
begin

lemma raise: "allows a' a \<Longrightarrow> allows a need \<Longrightarrow> allows a' need"
  by (rule allows_trans)

lemma refusal_downward: "\<not> allows a need \<Longrightarrow> allows a a' \<Longrightarrow> \<not> allows a' need"
  using allows_trans by blast

text \<open>The narrower of two levels gives exactly what both give.\<close>

lemma narrower_iff: "allows (if allows b a then a else b) need \<longleftrightarrow> allows a need \<and> allows b need"
  using allows_trans allows_total by (metis (full_types))

lemma same_grants: "(\<And>need. allows a need \<longleftrightarrow> allows b need) \<Longrightarrow> a = b"
  using allows_refl allows_antisym by blast

end

section \<open>Classifications\<close>

datatype classification = ClPublic | ClInternal | ClConfidential | ClRestricted

fun classification_rank :: "classification \<Rightarrow> nat" where
  "classification_rank ClPublic = 0"
| "classification_rank ClInternal = 1"
| "classification_rank ClConfidential = 2"
| "classification_rank ClRestricted = 3"

lemma classification_rank_inj: "classification_rank a = classification_rank b \<Longrightarrow> a = b"
  by (cases a; cases b) simp_all

text \<open>The derived \<^verbatim>\<open>Ord\<close> compares the discriminants.\<close>

instantiation classification :: linorder
begin

definition less_classification :: "classification \<Rightarrow> classification \<Rightarrow> bool" where
  "less_classification a b \<longleftrightarrow> classification_rank a < classification_rank b"

definition less_eq_classification :: "classification \<Rightarrow> classification \<Rightarrow> bool" where
  "less_eq_classification a b \<longleftrightarrow> classification_rank a \<le> classification_rank b"

instance
  by standard (auto simp: less_classification_def less_eq_classification_def dest: classification_rank_inj)

end

definition classification_default :: classification where
  "classification_default = ClInternal"

fun classification_as_str :: "classification \<Rightarrow> string" where
  "classification_as_str ClPublic = ''public''"
| "classification_as_str ClInternal = ''internal''"
| "classification_as_str ClConfidential = ''confidential''"
| "classification_as_str ClRestricted = ''restricted''"

definition classification_from_str :: "string \<Rightarrow> classification" where
  "classification_from_str s =
     (let t = lowercase (trim s) in
      if t = ''public'' then ClPublic
      else if t = ''internal'' then ClInternal
      else if t = ''confidential'' then ClConfidential
      else if t = ''restricted'' then ClRestricted
      else ClInternal)"

text \<open>What a ceiling lets through: the classifications not above it.\<close>

definition within_ceiling :: "classification \<Rightarrow> classification \<Rightarrow> bool" where
  "within_ceiling cap c \<longleftrightarrow> \<not> c > cap"

interpretation ceilings: graded within_ceiling
  by unfold_locales (auto simp: within_ceiling_def)

lemma classification_restricted_top [simp]: "c \<le> ClRestricted" "within_ceiling ClRestricted c"
  by (cases c; simp add: less_eq_classification_def within_ceiling_def less_classification_def)+

lemma classification_roundtrip: "classification_from_str (classification_as_str c) = c"
  by (cases c) (simp_all add: classification_from_str_def trim_def lowercase_def lower_char_def is_space_def
      Let_def less_eq_char_def)

section \<open>Roles\<close>

datatype api_key_role = RoleRead | RoleWrite | RoleAdmin

fun role_rank :: "api_key_role \<Rightarrow> u8" where
  "role_rank RoleRead = 0"
| "role_rank RoleWrite = 1"
| "role_rank RoleAdmin = 2"

definition role_has_at_least :: "api_key_role \<Rightarrow> api_key_role \<Rightarrow> bool" where
  "role_has_at_least role required \<longleftrightarrow> role_rank role \<ge> role_rank required"

fun role_as_str :: "api_key_role \<Rightarrow> string" where
  "role_as_str RoleRead = ''read''"
| "role_as_str RoleWrite = ''write''"
| "role_as_str RoleAdmin = ''admin''"

lemma role_rank_inj: "role_rank a = role_rank b \<Longrightarrow> a = b"
  by (cases a; cases b) simp_all

interpretation roles: graded role_has_at_least
  by unfold_locales (auto simp: role_has_at_least_def intro: role_rank_inj)

section \<open>Scopes\<close>

record api_key_scope =
  allowed_user_ids :: "uuid list option"
  allowed_agent_ids :: "string list option"
  scope_max_classification :: "classification option"

definition allows_user :: "api_key_scope \<Rightarrow> uuid \<Rightarrow> bool" where
  "allows_user s u = (case allowed_user_ids s of None \<Rightarrow> True | Some ids \<Rightarrow> List.member ids u)"

definition allows_agent :: "api_key_scope \<Rightarrow> string \<Rightarrow> bool" where
  "allows_agent s a = (case allowed_agent_ids s of None \<Rightarrow> True | Some ids \<Rightarrow> list_ex (\<lambda>i. i = a) ids)"

definition effective_max_classification :: "api_key_scope \<Rightarrow> classification" where
  "effective_max_classification s =
     (case scope_max_classification s of None \<Rightarrow> ClRestricted | Some c \<Rightarrow> c)"

section \<open>Keys\<close>

record api_key =
  ak_id :: uuid
  ak_name :: string
  key_hash :: string
  ak_key_prefix :: string
  ak_role :: api_key_role
  ak_scope :: "api_key_scope option"
  ak_created_by :: "string option"
  ak_created_at :: timestamp
  last_used_at :: "timestamp option"
  ak_expires_at :: "timestamp option"
  revoked :: bool

definition is_active :: "timestamp \<Rightarrow> api_key \<Rightarrow> bool" where
  "is_active now k =
     (if revoked k then False
      else case ak_expires_at k of
        Some e \<Rightarrow> if now \<ge> e then False else True
      | None \<Rightarrow> True)"

record create_api_key_request =
  cak_name :: string
  cak_role :: api_key_role
  cak_scope :: "api_key_scope option"
  cak_expires_at :: "timestamp option"

record create_api_key_response =
  raw_key :: string
  cakr_key :: api_key

lemma is_active_iff: "is_active now k \<longleftrightarrow> \<not> revoked k \<and> (\<forall>e. ak_expires_at k = Some e \<longrightarrow> now < e)"
  by (auto simp: is_active_def split: option.split)

text \<open>Once inactive, a key stays inactive: time only moves forward.\<close>

lemma is_active_antimono: "is_active now k \<Longrightarrow> now' \<le> now \<Longrightarrow> is_active now' k"
  by (auto simp: is_active_iff)

text \<open>The random bytes come from the operating system.\<close>

definition generate_raw_key :: "(u8 list \<Rightarrow> string) \<Rightarrow> u8 list \<Rightarrow> string" where
  "generate_raw_key henc bytes = ''mnk_'' @ henc bytes"

definition hash_api_key :: "(string \<Rightarrow> string) \<Rightarrow> string \<Rightarrow> string" where
  "hash_api_key sha raw = sha raw"

text \<open>
  \<^verbatim>\<open>&raw[..12]\<close> panics (\<open>None\<close>) when byte 12 is in the middle of a character, that is,
  when it is a UTF-8 continuation byte.
\<close>

definition is_continuation :: "char \<Rightarrow> bool" where
  "is_continuation c \<longleftrightarrow> (let b = (of_char c :: nat) in 128 \<le> b \<and> b < 192)"

definition key_prefix :: "string \<Rightarrow> string option" where
  "key_prefix raw =
     (if length raw > 12 then
        if is_continuation (raw ! 12) then None else Some (take 12 raw @ ''...'')
      else Some raw)"

lemma key_prefix_generated:
  assumes "\<And>c. c \<in> set (henc bytes) \<Longrightarrow> (of_char c :: nat) < 128" and "8 < length (henc bytes)"
  shows "key_prefix (generate_raw_key henc bytes) = Some (''mnk_'' @ take 8 (henc bytes) @ ''...'')"
proof -
  have "(''mnk_'' @ henc bytes) ! 12 = henc bytes ! 8" by (simp add: nth_append)
  moreover have "henc bytes ! 8 \<in> set (henc bytes)" using assms(2) by (rule nth_mem)
  ultimately have "\<not> is_continuation ((''mnk_'' @ henc bytes) ! 12)"
    using assms(1) [of "henc bytes ! 8"] by (simp add: is_continuation_def)
  with assms(2) show ?thesis by (simp add: key_prefix_def generate_raw_key_def)
qed

section \<open>Callers\<close>

record caller_context =
  key_id :: uuid
  key_name :: string
  caller_role :: api_key_role
  caller_scope :: "api_key_scope option"

definition bootstrap_sentinel :: uuid where
  "bootstrap_sentinel = 0x00000000000040008000000000000001"

definition anonymous_sentinel :: uuid where
  "anonymous_sentinel = 0x00000000000040008000000000000002"

definition admin_bootstrap :: caller_context where
  "admin_bootstrap = \<lparr>key_id = bootstrap_sentinel, key_name = ''bootstrap'', caller_role = RoleAdmin, caller_scope = None\<rparr>"

definition anonymous :: caller_context where
  "anonymous = \<lparr>key_id = anonymous_sentinel, key_name = ''anonymous'', caller_role = RoleRead, caller_scope = None\<rparr>"

definition is_bootstrap :: "caller_context \<Rightarrow> bool" where
  "is_bootstrap c \<longleftrightarrow> key_id c = bootstrap_sentinel"

definition is_anonymous :: "caller_context \<Rightarrow> bool" where
  "is_anonymous c \<longleftrightarrow> key_id c = anonymous_sentinel"

definition require_role :: "caller_context \<Rightarrow> api_key_role \<Rightarrow> mnemo_error + unit" where
  "require_role c required =
     (if role_has_at_least (caller_role c) required then Inr () else Inl Forbidden)"

definition require_user_access :: "caller_context \<Rightarrow> uuid \<Rightarrow> mnemo_error + unit" where
  "require_user_access c u =
     (case caller_scope c of
        Some s \<Rightarrow> if \<not> allows_user s u then Inl Forbidden else Inr ()
      | None \<Rightarrow> Inr ())"

definition require_agent_access :: "caller_context \<Rightarrow> string \<Rightarrow> mnemo_error + unit" where
  "require_agent_access c a =
     (case caller_scope c of
        Some s \<Rightarrow> if \<not> allows_agent s a then Inl Forbidden else Inr ()
      | None \<Rightarrow> Inr ())"

definition max_classification :: "caller_context \<Rightarrow> classification" where
  "max_classification c =
     (case caller_scope c of Some s \<Rightarrow> effective_max_classification s | None \<Rightarrow> ClRestricted)"

text \<open>\<^verbatim>\<open>caller_from_extension\<close> of the handlers.\<close>

definition caller_from_extension :: "caller_context option \<Rightarrow> caller_context" where
  "caller_from_extension c = (case c of Some ctx \<Rightarrow> ctx | None \<Rightarrow> anonymous)"

lemma require_role_ok [simp]:
  "require_role c r = Inr () \<longleftrightarrow> role_has_at_least (caller_role c) r"
  "require_role c r = Inl e \<longleftrightarrow> \<not> role_has_at_least (caller_role c) r \<and> e = Forbidden"
  by (auto simp: require_role_def)

text \<open>A role requirement met by a caller is met by every caller of a higher role.\<close>

lemma require_role_raise:
  "require_role c r = Inr () \<Longrightarrow> role_has_at_least (caller_role d) (caller_role c) \<Longrightarrow> require_role d r = Inr ()"
  by (simp add: roles.raise)

lemma role_admin_top [simp]:
  "role_has_at_least RoleAdmin r" "role_has_at_least r RoleRead" "role_has_at_least r RoleAdmin \<longleftrightarrow> r = RoleAdmin"
  by (cases r; simp add: role_has_at_least_def word_le_nat_alt)+

lemma anonymous_cannot_write:
  "require_role anonymous RoleWrite = Inl Forbidden" "require_role anonymous RoleAdmin = Inl Forbidden"
  by (simp_all add: anonymous_def role_has_at_least_def word_le_nat_alt)

lemma sentinels: "is_bootstrap admin_bootstrap" "is_anonymous anonymous" "\<not> is_bootstrap anonymous"
  "\<not> is_anonymous admin_bootstrap"
  by (simp_all add: is_bootstrap_def is_anonymous_def admin_bootstrap_def anonymous_def
      bootstrap_sentinel_def anonymous_sentinel_def)

end
