(* ===== verification/Redis_Index.thy ===== *)
theory Redis_Index
  imports Ordered_Maps
begin

text \<open>
  The sorted sets the store keeps as indexes (\<^verbatim>\<open>mnemo-storage/src/redis_store.rs\<close>). The
  interface states what the documented commands \<^verbatim>\<open>ZADD\<close>, \<^verbatim>\<open>ZREM\<close>, \<^verbatim>\<open>ZSCORE\<close> and
  \<^verbatim>\<open>ZREVRANGE\<close> do; it is instantiated by lists in ascending order of score and member, the
  order Redis keeps. Scores are epoch milliseconds, which \<^verbatim>\<open>f64\<close> represents exactly. Members
  are UUIDs, whose canonical text orders them as their numeric value does. JSON documents
  under keys (\<^verbatim>\<open>JSON.SET\<close>, \<^verbatim>\<open>JSON.GET\<close>, \<^verbatim>\<open>DEL\<close>) are the ordered maps of
  \<open>Ordered_Maps\<close>, one per key family; (de)serialisation, the encryption envelope and the failure
  of a command are left out unless a component's theory says otherwise.
\<close>

locale score_index =
  fixes score :: "'z \<Rightarrow> 'm \<Rightarrow> int option"
    and add :: "int \<Rightarrow> 'm \<Rightarrow> 'z \<Rightarrow> 'z"
    and rem :: "'m \<Rightarrow> 'z \<Rightarrow> 'z"
    and newest :: "'z \<Rightarrow> 'm list"
    and invar :: "'z \<Rightarrow> bool"
  assumes score_add: "invar z \<Longrightarrow> score (add s m z) = (score z)(m \<mapsto> s)"
    and score_rem: "invar z \<Longrightarrow> score (rem m z) = (score z)(m := None)"
    and invar_add: "invar z \<Longrightarrow> invar (add s m z)"
    and invar_rem: "invar z \<Longrightarrow> invar (rem m z)"
    and set_newest: "invar z \<Longrightarrow> set (newest z) = dom (score z)"
    and distinct_newest: "invar z \<Longrightarrow> distinct (newest z)"
    and newest_sorted: "invar z \<Longrightarrow> sorted_wrt (\<lambda>a b. the (score z b) \<le> the (score z a)) (newest z)"
begin

lemma newest_add: "invar z \<Longrightarrow> set (newest (add s m z)) = insert m (set (newest z))"
  by (simp add: set_newest invar_add score_add)

lemma newest_rem: "invar z \<Longrightarrow> set (newest (rem m z)) = set (newest z) - {m}"
  by (simp add: set_newest invar_rem score_rem)

end

section \<open>Sorted sets as lists\<close>

type_synonym 'm zset = "(int \<times> 'm) list"

fun z_insert :: "int \<times> 'm::linorder \<Rightarrow> 'm zset \<Rightarrow> 'm zset" where
  "z_insert x [] = [x]"
| "z_insert (s, m) ((s', m') # z) =
     (if s < s' \<or> s = s' \<and> m \<le> m' then (s, m) # (s', m') # z else (s', m') # z_insert (s, m) z)"

definition zrem :: "'m \<Rightarrow> 'm zset \<Rightarrow> 'm zset" where
  "zrem m z = filter (\<lambda>e. snd e \<noteq> m) z"

definition zadd :: "int \<Rightarrow> 'm::linorder \<Rightarrow> 'm zset \<Rightarrow> 'm zset" where
  "zadd s m z = z_insert (s, m) (zrem m z)"

definition zscore :: "'m zset \<Rightarrow> 'm \<Rightarrow> int option" where
  "zscore z m = map_of (map (\<lambda>(s, m). (m, s)) z) m"

text \<open>\<^verbatim>\<open>ZREVRANGE key 0 -1\<close>: all members, highest score first.\<close>

definition znewest :: "'m zset \<Rightarrow> 'm list" where
  "znewest z = rev (map snd z)"

text \<open>\<^verbatim>\<open>ZREVRANGE key 0 stop\<close>; a negative \<open>stop\<close> counts from the end.\<close>

definition zrevrange :: "'m zset \<Rightarrow> int \<Rightarrow> 'm list" where
  "zrevrange z stop = take (nat ((if stop < 0 then int (length z) + stop else stop) + 1)) (znewest z)"

text \<open>\<^verbatim>\<open>ZREVRANGEBYSCORE key (s -inf LIMIT 0 limit\<close>: the members below a score.\<close>

definition zrev_below :: "'m zset \<Rightarrow> int \<Rightarrow> nat \<Rightarrow> 'm list" where
  "zrev_below z s limit = take limit (rev (map snd (filter (\<lambda>e. fst e < s) z)))"

text \<open>\<^verbatim>\<open>ZRANGEBYSCORE key lo hi LIMIT 0 limit\<close>, the lower bound \<^verbatim>\<open>-inf\<close> as \<open>None\<close>.\<close>

definition zrange_by_score :: "'m zset \<Rightarrow> int option \<Rightarrow> int \<Rightarrow> nat \<Rightarrow> 'm list" where
  "zrange_by_score z lo hi limit =
     take limit (map snd (filter (\<lambda>e. (case lo of None \<Rightarrow> True | Some l \<Rightarrow> l \<le> fst e) \<and> fst e \<le> hi) z))"

definition zset_ok :: "'m zset \<Rightarrow> bool" where
  "zset_ok z \<longleftrightarrow> sorted_wrt (\<lambda>a b. fst a \<le> fst b) z \<and> distinct (map snd z)"

lemma set_z_insert [simp]: "set (z_insert x z) = insert x (set z)"
  by (induction x z rule: z_insert.induct) auto

lemma sorted_z_insert: "sorted_wrt (\<lambda>a b. fst a \<le> fst b) z \<Longrightarrow> sorted_wrt (\<lambda>a b. fst a \<le> fst b) (z_insert x z)"
  by (induction x z rule: z_insert.induct) force+

lemma distinct_z_insert:
  "snd x \<notin> snd ` set z \<Longrightarrow> distinct (map snd z) \<Longrightarrow> distinct (map snd (z_insert x z))"
  by (induction x z rule: z_insert.induct) auto

lemma zrem_set [simp]: "set (zrem m z) = {e \<in> set z. snd e \<noteq> m}"
  by (auto simp: zrem_def)

lemma zset_ok_Nil [simp]: "zset_ok []"
  by (simp add: zset_ok_def)

lemma zset_ok_rem [simp]: "zset_ok z \<Longrightarrow> zset_ok (zrem m z)"
  by (auto simp: zset_ok_def zrem_def sorted_wrt_filter distinct_map_filter)

lemma zset_ok_add [simp]: "zset_ok z \<Longrightarrow> zset_ok (zadd s m z)"
proof -
  assume "zset_ok z"
  then have "zset_ok (zrem m z)" by simp
  moreover have "m \<notin> snd ` set (zrem m z)" by auto
  ultimately show ?thesis
    by (simp add: zset_ok_def zadd_def sorted_z_insert distinct_z_insert)
qed

lemma zscore_Some_iff: "zset_ok z \<Longrightarrow> zscore z m = Some s \<longleftrightarrow> (s, m) \<in> set z"
proof -
  assume "zset_ok z"
  then have "distinct (map fst (map (\<lambda>(s, m). (m, s)) z))"
    by (simp add: zset_ok_def case_prod_beta comp_def)
  then have "zscore z m = Some s \<longleftrightarrow> (m, s) \<in> set (map (\<lambda>(s, m). (m, s)) z)"
    by (simp add: zscore_def)
  also have "\<dots> \<longleftrightarrow> (s, m) \<in> set z" by force
  finally show ?thesis .
qed

lemma zscore_add:
  assumes "zset_ok z"
  shows "zscore (zadd s m z) = (zscore z)(m \<mapsto> s)"
proof
  fix k
  have ok: "zset_ok (zadd s m z)" using assms by simp
  have mem: "(t, k) \<in> set (zadd s m z) \<longleftrightarrow> (if k = m then t = s else (t, k) \<in> set z)" for t
    by (auto simp: zadd_def)
  have "zscore (zadd s m z) k = Some t \<longleftrightarrow> ((zscore z)(m \<mapsto> s)) k = Some t" for t
    unfolding zscore_Some_iff [OF ok] mem using zscore_Some_iff [OF assms, of k t] by auto
  then show "zscore (zadd s m z) k = ((zscore z)(m \<mapsto> s)) k"
    by (metis option.exhaust)
qed

lemma zscore_rem:
  assumes "zset_ok z"
  shows "zscore (zrem m z) = (zscore z)(m := None)"
proof
  fix k
  have ok: "zset_ok (zrem m z)" using assms by simp
  have "zscore (zrem m z) k = Some t \<longleftrightarrow> ((zscore z)(m := None)) k = Some t" for t
    unfolding zscore_Some_iff [OF ok] by (simp add: zscore_Some_iff [OF assms])
  then show "zscore (zrem m z) k = ((zscore z)(m := None)) k"
    by (metis option.exhaust)
qed

lemma dom_zscore: "zset_ok z \<Longrightarrow> dom (zscore z) = snd ` set z"
  by (force simp: dom_def zscore_Some_iff)

lemma znewest_sorted:
  assumes "zset_ok z"
  shows "sorted_wrt (\<lambda>a b. the (zscore z b) \<le> the (zscore z a)) (znewest z)"
proof -
  have sc: "the (zscore z (snd e)) = fst e" if "e \<in> set (rev z)" for e
  proof -
    have "(fst e, snd e) \<in> set z" using that by simp
    then have "zscore z (snd e) = Some (fst e)" using zscore_Some_iff [OF assms, of "snd e" "fst e"] by blast
    then show ?thesis by simp
  qed
  have "sorted_wrt (\<lambda>a b. fst b \<le> fst a) (rev z)"
    using assms by (simp add: zset_ok_def sorted_wrt_rev)
  then have "sorted_wrt (\<lambda>a b. the (zscore z (snd b)) \<le> the (zscore z (snd a))) (rev z)"
    by (rule sorted_wrt_mono_rel [rotated]) (simp add: sc)
  then show ?thesis by (simp add: znewest_def rev_map sorted_wrt_map)
qed

interpretation zset: score_index zscore zadd zrem znewest zset_ok
proof
  fix z :: "'m::linorder zset" and s m
  assume ok: "zset_ok z"
  show "zscore (zadd s m z) = (zscore z)(m \<mapsto> s)" "zscore (zrem m z) = (zscore z)(m := None)"
    using ok by (rule zscore_add, rule zscore_rem)
  show "zset_ok (zadd s m z)" "zset_ok (zrem m z)" using ok by simp_all
  show "set (znewest z) = dom (zscore z)" using ok by (simp add: znewest_def dom_zscore)
  show "distinct (znewest z)" using ok by (simp add: znewest_def zset_ok_def)
  show "sorted_wrt (\<lambda>a b. the (zscore z b) \<le> the (zscore z a)) (znewest z)"
    using ok by (rule znewest_sorted)
qed

lemma zrevrange_subset: "set (zrevrange z stop) \<subseteq> set (znewest z)"
  by (auto simp: zrevrange_def dest: in_set_takeD)

lemma zrange_by_score_subset: "set (zrange_by_score z lo hi limit) \<subseteq> snd ` set z"
  by (auto simp: zrange_by_score_def dest!: in_set_takeD)

end
