(* ===== verification/Auth.thy ===== *)
theory Auth
  imports Access Redis_Index
begin

text \<open>
  Authentication: the key store of \<^verbatim>\<open>mnemo-storage/src/redis_store.rs\<close>
  (\<^verbatim>\<open>ApiKeyStore\<close>), the middleware with its key cache
  (\<^verbatim>\<open>mnemo-server/src/middleware/auth.rs\<close>) and the key handlers of
  \<^verbatim>\<open>mnemo-server/src/routes.rs\<close>. Every \<^verbatim>\<open>await\<close> of the middleware at which another
  request may run is a step of its own; \<open>authenticate\<close> is their uninterrupted composition.
\<close>

section \<open>The key store\<close>

record cached_key =
  ck_context :: caller_context
  ck_active :: bool
  cached_at :: timestamp

text \<open>
  The store: \<^verbatim>\<open>api_key:{id}\<close>, the index \<^verbatim>\<open>api_keys\<close>, \<^verbatim>\<open>api_key_hash:{hash}\<close>; and the
  in-memory cache of \<^verbatim>\<open>AuthConfig\<close>, which the handlers share.
\<close>

record auth_state =
  api_keys :: "(uuid, api_key) btree_map"
  api_key_index :: "uuid zset"
  api_key_hashes :: "(string, uuid) btree_map"
  key_cache :: "(string, cached_key) btree_map"

definition auth_state_new :: auth_state where
  "auth_state_new = \<lparr>api_keys = [], api_key_index = [], api_key_hashes = [], key_cache = []\<rparr>"

definition save_api_key :: "api_key \<Rightarrow> auth_state \<Rightarrow> auth_state" where
  "save_api_key k st =
     st\<lparr>api_keys := bt_insert (ak_id k) k (api_keys st),
        api_key_index := zadd (timestamp_millis (ak_created_at k)) (ak_id k) (api_key_index st),
        api_key_hashes := bt_insert (key_hash k) (ak_id k) (api_key_hashes st)\<rparr>"

definition get_api_key :: "uuid \<Rightarrow> auth_state \<Rightarrow> api_key option" where
  "get_api_key i st = map_of (api_keys st) i"

definition get_api_key_by_hash :: "string \<Rightarrow> auth_state \<Rightarrow> api_key option" where
  "get_api_key_by_hash h st =
     (case map_of (api_key_hashes st) h of None \<Rightarrow> None | Some i \<Rightarrow> get_api_key i st)"

definition list_api_keys :: "nat \<Rightarrow> auth_state \<Rightarrow> api_key list" where
  "list_api_keys limit st =
     List.map_filter (\<lambda>i. map_of (api_keys st) i) (zrevrange (api_key_index st) (int limit - 1))"

definition update_api_key :: "api_key \<Rightarrow> auth_state \<Rightarrow> auth_state" where
  "update_api_key k st = st\<lparr>api_keys := bt_insert (ak_id k) k (api_keys st)\<rparr>"

definition delete_api_key :: "uuid \<Rightarrow> auth_state \<Rightarrow> auth_state" where
  "delete_api_key i st =
     st\<lparr>api_key_hashes := (case map_of (api_keys st) i of
           Some k \<Rightarrow> bt_remove (key_hash k) (api_key_hashes st) | None \<Rightarrow> api_key_hashes st),
        api_key_index := zrem i (api_key_index st),
        api_keys := bt_remove i (api_keys st)\<rparr>"

section \<open>The middleware\<close>

record auth_config =
  auth_enabled :: bool
  valid_keys :: "string set"
  has_store :: bool

definition auth_disabled :: auth_config where
  "auth_disabled = \<lparr>auth_enabled = False, valid_keys = {}, has_store = False\<rparr>"

definition auth_with_keys :: "string list \<Rightarrow> auth_config" where
  "auth_with_keys keys = \<lparr>auth_enabled = True, valid_keys = set keys, has_store = False\<rparr>"

definition auth_with_keys_and_store :: "string list \<Rightarrow> auth_config" where
  "auth_with_keys_and_store keys = \<lparr>auth_enabled = True, valid_keys = set keys, has_store = True\<rparr>"

definition key_cache_ttl_secs :: int where
  "key_cache_ttl_secs = 30"

definition key_cache_max_entries :: nat where
  "key_cache_max_entries = 10000"

definition constant_time_key_match :: "string set \<Rightarrow> string \<Rightarrow> bool" where
  "constant_time_key_match keys candidate \<longleftrightarrow> (\<exists>k \<in> keys. length k = length candidate \<and> k = candidate)"

text \<open>
  Eviction. Entries of equal age are removed in key order here; the order of the hash map,
  which decides in the code, is unspecified.
\<close>

definition evict_stale_cache_entries :: "timestamp \<Rightarrow> auth_state \<Rightarrow> auth_state" where
  "evict_stale_cache_entries now st =
     (let cache = filter (\<lambda>(_, c). num_seconds (now - cached_at c) < key_cache_ttl_secs) (key_cache st);
          cache' = (if length cache > key_cache_max_entries then
             let oldest = take (length cache - key_cache_max_entries) (sort_key (\<lambda>(_, c). cached_at c) cache)
             in fold (\<lambda>(h, _) m. bt_remove h m) oldest cache
           else cache)
      in st\<lparr>key_cache := cache'\<rparr>)"

record http_request =
  req_path :: string
  authorization_header :: "string option"
  x_api_key_header :: "string option"

definition strip_prefix :: "string \<Rightarrow> string \<Rightarrow> string option" where
  "strip_prefix p s = (if is_prefix_of p s then Some (drop (length p) s) else None)"

definition is_exempt_path :: "string \<Rightarrow> bool" where
  "is_exempt_path path \<longleftrightarrow>
     path = ''/health'' \<or> path = ''/healthz'' \<or> path = ''/metrics'' \<or> is_prefix_of ''/_/'' path \<or>
     path = ''/_'' \<or> path = ''/api/v1/openapi.json'' \<or> is_prefix_of ''/swagger-ui'' path"

definition extract_raw_key :: "http_request \<Rightarrow> string option" where
  "extract_raw_key req =
     (case Option.bind (authorization_header req) (strip_prefix ''Bearer '') of
        Some k \<Rightarrow> Some k
      | None \<Rightarrow> x_api_key_header req)"

text \<open>What a request ends with: the inner service is called with a context, or a 401 response.\<close>

datatype auth_result = Authorized caller_context | Unauthenticated

text \<open>Where the middleware stands: decided, or at the lookup of a scoped key by its hash.\<close>

datatype auth_task =
    Decided auth_result
  | CacheLookup string
  | StoreLookup string
  | CacheInsert string api_key
  | TouchKey api_key

definition context_of :: "api_key \<Rightarrow> caller_context" where
  "context_of k = \<lparr>key_id = ak_id k, key_name = ak_name k, caller_role = ak_role k, caller_scope = ak_scope k\<rparr>"

definition auth_start :: "(string \<Rightarrow> string) \<Rightarrow> auth_config \<Rightarrow> http_request \<Rightarrow> auth_task" where
  "auth_start sha cfg req =
     (if \<not> auth_enabled cfg then Decided (Authorized admin_bootstrap)
      else if is_exempt_path (req_path req) then Decided (Authorized anonymous)
      else case extract_raw_key req of
        None \<Rightarrow> Decided Unauthenticated
      | Some raw \<Rightarrow>
          if constant_time_key_match (valid_keys cfg) raw then Decided (Authorized admin_bootstrap)
          else if has_store cfg then CacheLookup (hash_api_key sha raw)
          else Decided Unauthenticated)"

text \<open>One step at clock reading \<open>now\<close>; \<open>fault\<close> tells that Redis returns an error to the lookup.\<close>

fun auth_task_step :: "bool \<Rightarrow> timestamp \<Rightarrow> auth_task \<times> auth_state \<Rightarrow> auth_task \<times> auth_state" where
  "auth_task_step fault now (Decided r, st) = (Decided r, st)"
| "auth_task_step fault now (CacheLookup h, st) =
     (case map_of (key_cache st) h of
        Some c \<Rightarrow>
          if num_seconds (now - cached_at c) < key_cache_ttl_secs \<and> ck_active c
          then (Decided (Authorized (ck_context c)), st) else (StoreLookup h, st)
      | None \<Rightarrow> (StoreLookup h, st))"
| "auth_task_step fault now (StoreLookup h, st) =
     (if fault then (Decided Unauthenticated, st)
      else case get_api_key_by_hash h st of
        Some k \<Rightarrow> if is_active now k then (CacheInsert h k, st) else (Decided Unauthenticated, st)
      | None \<Rightarrow> (Decided Unauthenticated, st))"
| "auth_task_step fault now (CacheInsert h k, st) =
     (TouchKey k,
      st\<lparr>key_cache := bt_insert h \<lparr>ck_context = context_of k, ck_active = True, cached_at = now\<rparr> (key_cache st)\<rparr>)"
| "auth_task_step fault now (TouchKey k, st) =
     (Decided (Authorized (context_of k)), update_api_key (k\<lparr>last_used_at := Some now\<rparr>) st)"

text \<open>The four steps of a lookup without interruption, each with its own clock reading.\<close>

record auth_env =
  env_fault :: bool
  t_cache :: timestamp
  t_active :: timestamp
  t_insert :: timestamp
  t_touch :: timestamp

definition authenticate ::
  "(string \<Rightarrow> string) \<Rightarrow> auth_config \<Rightarrow> auth_env \<Rightarrow> http_request \<Rightarrow> auth_state \<Rightarrow> auth_task \<times> auth_state" where
  "authenticate sha cfg env req st =
     (let step = auth_task_step (env_fault env)
      in step (t_touch env) (step (t_insert env) (step (t_active env) (step (t_cache env) (auth_start sha cfg req, st)))))"

section \<open>The key handlers\<close>

datatype 'a handled = Handled 'a | Failed mnemo_error | Panicked

definition create_api_key ::
  "(string \<Rightarrow> string) \<Rightarrow> (u8 list \<Rightarrow> string) \<Rightarrow> caller_context option \<Rightarrow> create_api_key_request \<Rightarrow>
   u8 list \<Rightarrow> uuid \<Rightarrow> timestamp \<Rightarrow> auth_state \<Rightarrow> create_api_key_response handled \<times> auth_state" where
  "create_api_key sha henc ext body bytes new_id now st =
     (let caller = caller_from_extension ext in
      case require_role caller RoleAdmin of
        Inl e \<Rightarrow> (Failed e, st)
      | Inr _ \<Rightarrow>
        let name = trim (cak_name body) in
        if name = [] \<or> length name > 128 then (Failed (Validation ''name must be 1-128 characters''), st)
        else
          let raw = generate_raw_key henc bytes; h = hash_api_key sha raw in
          case key_prefix raw of
            None \<Rightarrow> (Panicked, st)
          | Some prefix \<Rightarrow>
            let k = \<lparr>ak_id = new_id, ak_name = name, key_hash = h, ak_key_prefix = prefix,
                     ak_role = cak_role body, ak_scope = cak_scope body, ak_created_by = Some (key_name caller),
                     ak_created_at = now, last_used_at = None, ak_expires_at = cak_expires_at body,
                     revoked = False\<rparr>
            in (Handled \<lparr>raw_key = raw, cakr_key = k\<rparr>, save_api_key k st))"

definition evict_key_hash :: "string \<Rightarrow> auth_state \<Rightarrow> auth_state" where
  "evict_key_hash h st = st\<lparr>key_cache := bt_remove h (key_cache st)\<rparr>"

definition revoke_api_key ::
  "(uuid \<Rightarrow> string) \<Rightarrow> caller_context option \<Rightarrow> uuid \<Rightarrow> auth_state \<Rightarrow> unit handled \<times> auth_state" where
  "revoke_api_key show_uuid ext i st =
     (case require_role (caller_from_extension ext) RoleAdmin of
        Inl e \<Rightarrow> (Failed e, st)
      | Inr _ \<Rightarrow>
        case get_api_key i st of
          None \<Rightarrow> (Failed (NotFound ''api_key'' (show_uuid i)), st)
        | Some k \<Rightarrow> (Handled (), evict_key_hash (key_hash k) (update_api_key (k\<lparr>revoked := True\<rparr>) st)))"

definition rotate_api_key ::
  "(string \<Rightarrow> string) \<Rightarrow> (u8 list \<Rightarrow> string) \<Rightarrow> (uuid \<Rightarrow> string) \<Rightarrow> caller_context option \<Rightarrow> uuid \<Rightarrow>
   u8 list \<Rightarrow> uuid \<Rightarrow> timestamp \<Rightarrow> auth_state \<Rightarrow> create_api_key_response handled \<times> auth_state" where
  "rotate_api_key sha henc show_uuid ext i bytes new_id now st =
     (let caller = caller_from_extension ext in
      case require_role caller RoleAdmin of
        Inl e \<Rightarrow> (Failed e, st)
      | Inr _ \<Rightarrow>
        case get_api_key i st of
          None \<Rightarrow> (Failed (NotFound ''api_key'' (show_uuid i)), st)
        | Some k \<Rightarrow>
          let st1 = evict_key_hash (key_hash k) (update_api_key (k\<lparr>revoked := True\<rparr>) st);
              raw = generate_raw_key henc bytes; h = hash_api_key sha raw in
          case key_prefix raw of
            None \<Rightarrow> (Panicked, st1)
          | Some prefix \<Rightarrow>
            let new = \<lparr>ak_id = new_id, ak_name = ak_name k, key_hash = h, ak_key_prefix = prefix,
                       ak_role = ak_role k, ak_scope = ak_scope k, ak_created_by = Some (key_name caller),
                       ak_created_at = now, last_used_at = None, ak_expires_at = ak_expires_at k,
                       revoked = False\<rparr>
            in (Handled \<lparr>raw_key = raw, cakr_key = new\<rparr>, save_api_key new st1))"

text \<open>The list handler redacts the hash: a row has every other field of the key.\<close>

definition list_api_keys_handler ::
  "caller_context option \<Rightarrow> nat \<Rightarrow> auth_state \<Rightarrow> mnemo_error + (uuid \<times> string \<times> string \<times> api_key_role \<times>
     api_key_scope option \<times> string option \<times> timestamp \<times> timestamp option \<times> timestamp option \<times> bool) list" where
  "list_api_keys_handler ext limit st =
     (case require_role (caller_from_extension ext) RoleAdmin of
        Inl e \<Rightarrow> Inl e
      | Inr _ \<Rightarrow>
        Inr (map (\<lambda>k. (ak_id k, ak_name k, ak_key_prefix k, ak_role k, ak_scope k, ak_created_by k,
                       ak_created_at k, last_used_at k, ak_expires_at k, revoked k))
             (list_api_keys (min 200 (max 1 limit)) st)))"

section \<open>Histories of requests\<close>

text \<open>Requests that run one after the other.\<close>

datatype auth_event =
    EvAuth auth_env http_request
  | EvCreate "caller_context option" create_api_key_request "u8 list" uuid timestamp
  | EvRevoke "caller_context option" uuid
  | EvRotate "caller_context option" uuid "u8 list" uuid timestamp
  | EvEvict timestamp

record auth_params =
  p_sha :: "string \<Rightarrow> string"
  p_henc :: "u8 list \<Rightarrow> string"
  p_show :: "uuid \<Rightarrow> string"
  p_cfg :: auth_config

fun auth_event_step :: "auth_params \<Rightarrow> auth_event \<Rightarrow> auth_state \<Rightarrow> auth_state" where
  "auth_event_step p (EvAuth env req) st = snd (authenticate (p_sha p) (p_cfg p) env req st)"
| "auth_event_step p (EvCreate ext body bytes i now) st =
     snd (create_api_key (p_sha p) (p_henc p) ext body bytes i now st)"
| "auth_event_step p (EvRevoke ext i) st = snd (revoke_api_key (p_show p) ext i st)"
| "auth_event_step p (EvRotate ext i bytes j now) st =
     snd (rotate_api_key (p_sha p) (p_henc p) (p_show p) ext i bytes j now st)"
| "auth_event_step p (EvEvict now) st = evict_stale_cache_entries now st"

text \<open>New identifiers are unused, and the hash of new random bytes is not one of a stored key.\<close>

fun fresh_event :: "auth_params \<Rightarrow> auth_event \<Rightarrow> auth_state \<Rightarrow> bool" where
  "fresh_event p (EvCreate ext body bytes i now) st \<longleftrightarrow>
     map_of (api_keys st) i = None \<and>
     map_of (api_key_hashes st) (hash_api_key (p_sha p) (generate_raw_key (p_henc p) bytes)) = None"
| "fresh_event p (EvRotate ext j bytes i now) st \<longleftrightarrow>
     map_of (api_keys st) i = None \<and>
     map_of (api_key_hashes st) (hash_api_key (p_sha p) (generate_raw_key (p_henc p) bytes)) = None"
| "fresh_event p _ st \<longleftrightarrow> True"

inductive auth_path :: "auth_params \<Rightarrow> auth_state \<Rightarrow> auth_state \<Rightarrow> bool" for p where
  path_refl: "auth_path p st st"
| path_step: "auth_path p st st' \<Longrightarrow> fresh_event p ev st' \<Longrightarrow> auth_path p st (auth_event_step p ev st')"

section \<open>Invariants\<close>

text \<open>The hash index and the documents agree, and every cache entry reflects a key that is not revoked.\<close>

definition auth_ok :: "auth_state \<Rightarrow> bool" where
  "auth_ok st \<longleftrightarrow> bt_ok (api_keys st) \<and> bt_ok (api_key_hashes st) \<and> bt_ok (key_cache st) \<and>
     (\<forall>i k. map_of (api_keys st) i = Some k \<longrightarrow> ak_id k = i \<and> map_of (api_key_hashes st) (key_hash k) = Some i) \<and>
     (\<forall>h i. map_of (api_key_hashes st) h = Some i \<longrightarrow> (\<exists>k. map_of (api_keys st) i = Some k \<and> key_hash k = h)) \<and>
     (\<forall>h c. map_of (key_cache st) h = Some c \<longrightarrow>
        (\<exists>k. get_api_key_by_hash h st = Some k \<and> \<not> revoked k \<and> ck_context c = context_of k))"

lemma by_hash_cache [simp]:
  "get_api_key_by_hash h (st\<lparr>key_cache := c\<rparr>) = get_api_key_by_hash h st"
  by (simp add: get_api_key_by_hash_def get_api_key_def split: option.split)

lemma auth_ok_new [simp]: "auth_ok auth_state_new"
  by (simp add: auth_ok_def auth_state_new_def)

lemma auth_okD:
  assumes "auth_ok st"
  shows "bt_ok (api_keys st)" "bt_ok (api_key_hashes st)" "bt_ok (key_cache st)"
    and "map_of (api_keys st) i = Some k \<Longrightarrow> ak_id k = i"
    and "map_of (api_keys st) i = Some k \<Longrightarrow> map_of (api_key_hashes st) (key_hash k) = Some i"
    and "map_of (api_key_hashes st) h = Some i \<Longrightarrow> \<exists>k. map_of (api_keys st) i = Some k \<and> key_hash k = h"
    and "map_of (key_cache st) h = Some c \<Longrightarrow>
      \<exists>k. get_api_key_by_hash h st = Some k \<and> \<not> revoked k \<and> ck_context c = context_of k"
  using assms unfolding auth_ok_def by blast+

lemma get_by_hashD:
  assumes "auth_ok st" and "get_api_key_by_hash h st = Some k"
  shows "map_of (api_keys st) (ak_id k) = Some k" "key_hash k = h"
proof -
  obtain i where i: "map_of (api_key_hashes st) h = Some i" "map_of (api_keys st) i = Some k"
    using assms(2) by (auto simp: get_api_key_by_hash_def get_api_key_def split: option.splits)
  then show "map_of (api_keys st) (ak_id k) = Some k" using auth_okD(4) [OF assms(1) i(2)] by simp
  show "key_hash k = h" using auth_okD(6) [OF assms(1) i(1)] i(2) by auto
qed

lemma get_by_hashI:
  assumes "auth_ok st" and "map_of (api_keys st) i = Some k"
  shows "get_api_key_by_hash (key_hash k) st = Some k"
  using auth_okD(5) [OF assms] assms(2) by (simp add: get_api_key_by_hash_def get_api_key_def)

text \<open>Storing a changed document of a key under the same hash.\<close>

lemma by_hash_update:
  assumes "auth_ok st" and "map_of (api_keys st) (ak_id k) = Some k"
    and "ak_id k' = ak_id k" and "key_hash k' = key_hash k"
  shows "get_api_key_by_hash h (update_api_key k' st) =
    (if h = key_hash k then Some k' else get_api_key_by_hash h st)"
proof (cases "map_of (api_key_hashes st) h")
  case None
  with auth_okD(5) [OF assms(1,2)] show ?thesis
    by (auto simp: get_api_key_by_hash_def update_api_key_def)
next
  case (Some i)
  have "h = key_hash k \<longleftrightarrow> i = ak_id k"
    using auth_okD(6) [OF assms(1) Some] auth_okD(5) [OF assms(1,2)] assms(2) Some by auto
  with Some assms(3) show ?thesis
    by (simp add: get_api_key_by_hash_def update_api_key_def get_api_key_def map_of_bt_insert)
qed

lemma auth_ok_update:
  assumes "auth_ok st" and "map_of (api_keys st) (ak_id k) = Some k"
    and "ak_id k' = ak_id k" and "key_hash k' = key_hash k"
    and "\<And>c. map_of (key_cache st) (key_hash k) = Some c \<Longrightarrow> \<not> revoked k' \<and> context_of k' = context_of k"
  shows "auth_ok (update_api_key k' st)"
proof -
  have cache: "key_cache (update_api_key k' st) = key_cache st" by (simp add: update_api_key_def)
  have c: "\<exists>k. get_api_key_by_hash h (update_api_key k' st) = Some k \<and> \<not> revoked k \<and> ck_context c = context_of k"
    if "map_of (key_cache st) h = Some c" for h c
  proof -
    have "get_api_key_by_hash (key_hash k) st = Some k"
      using assms(2) by (rule get_by_hashI [OF assms(1)])
    then show ?thesis
      using auth_okD(7) [OF assms(1) that] assms(5) [of c] that
      by (auto simp: by_hash_update [OF assms(1-4)])
  qed
  have "map_of (api_keys (update_api_key k' st)) j = Some x \<Longrightarrow>
      ak_id x = j \<and> map_of (api_key_hashes (update_api_key k' st)) (key_hash x) = Some j" for j x
    using auth_okD(4,5) [OF assms(1), of j x] auth_okD(5) [OF assms(1,2)] assms(3,4)
    by (auto simp: update_api_key_def map_of_bt_insert split: if_splits)
  moreover have "map_of (api_key_hashes (update_api_key k' st)) h = Some j \<Longrightarrow>
      \<exists>x. map_of (api_keys (update_api_key k' st)) j = Some x \<and> key_hash x = h" for h j
    using auth_okD(6) [OF assms(1), of h j] assms(2-4)
    by (auto simp: update_api_key_def map_of_bt_insert split: if_splits)
  moreover have "bt_ok (api_keys (update_api_key k' st))" "bt_ok (api_key_hashes (update_api_key k' st))"
    using auth_okD(1,2) [OF assms(1)] by (simp_all add: update_api_key_def bt_ok_insert)
  ultimately show ?thesis
    unfolding auth_ok_def cache using auth_okD(3) [OF assms(1)] c by simp
qed

lemma auth_ok_evict_hash: "auth_ok st \<Longrightarrow> auth_ok (evict_key_hash h st)"
  unfolding auth_ok_def
  by (simp add: evict_key_hash_def map_of_bt_remove bt_ok_remove)

lemma auth_ok_save:
  assumes "auth_ok st" and "map_of (api_keys st) (ak_id k) = None" and "map_of (api_key_hashes st) (key_hash k) = None"
  shows "auth_ok (save_api_key k st)"
proof -
  have c: "\<exists>k'. get_api_key_by_hash h (save_api_key k st) = Some k' \<and> \<not> revoked k' \<and> ck_context c = context_of k'"
    if "map_of (key_cache st) h = Some c" for h c
    using auth_okD(7) [OF assms(1) that] assms(2,3)
    by (auto simp: get_api_key_by_hash_def get_api_key_def save_api_key_def map_of_bt_insert split: option.splits)
  have i: "map_of (api_key_hashes st) h \<noteq> Some (ak_id k)" for h
    using auth_okD(6) [OF assms(1), of h "ak_id k"] assms(2) by auto
  have h: "key_hash k' \<noteq> key_hash k" if "map_of (api_keys st) j = Some k'" for j k'
    using auth_okD(5) [OF assms(1) that] assms(3) by auto
  have "map_of (api_keys (save_api_key k st)) j = Some k' \<Longrightarrow>
      ak_id k' = j \<and> map_of (api_key_hashes (save_api_key k st)) (key_hash k') = Some j" for j k'
    using auth_okD(4,5) [OF assms(1), of j k'] h [of j k']
    by (auto simp: save_api_key_def map_of_bt_insert split: if_splits)
  moreover have "map_of (api_key_hashes (save_api_key k st)) h = Some j \<Longrightarrow>
      \<exists>k'. map_of (api_keys (save_api_key k st)) j = Some k' \<and> key_hash k' = h" for h j
    using auth_okD(6) [OF assms(1), of h j] i [of h]
    by (auto simp: save_api_key_def map_of_bt_insert split: if_splits)
  moreover have "bt_ok (api_keys (save_api_key k st))" "bt_ok (api_key_hashes (save_api_key k st))"
    "key_cache (save_api_key k st) = key_cache st"
    using auth_okD(1,2) [OF assms(1)] by (simp_all add: save_api_key_def bt_ok_insert)
  ultimately show ?thesis
    unfolding auth_ok_def using auth_okD(3) [OF assms(1)] c by simp
qed

text \<open>The steps of an uninterrupted authentication.\<close>

lemma authenticate_decided:
  "auth_start sha cfg req = Decided r \<Longrightarrow> authenticate sha cfg env req st = (Decided r, st)"
  by (simp add: authenticate_def)

lemma authenticate_hit:
  assumes "auth_start sha cfg req = CacheLookup h" and "map_of (key_cache st) h = Some c"
    and "num_seconds (t_cache env - cached_at c) < key_cache_ttl_secs" and "ck_active c"
  shows "authenticate sha cfg env req st = (Decided (Authorized (ck_context c)), st)"
  using assms by (simp add: authenticate_def)

definition cache_hit :: "timestamp \<Rightarrow> string \<Rightarrow> auth_state \<Rightarrow> bool" where
  "cache_hit now h st \<longleftrightarrow> (case map_of (key_cache st) h of None \<Rightarrow> False
     | Some c \<Rightarrow> num_seconds (now - cached_at c) < key_cache_ttl_secs \<and> ck_active c)"

lemma authenticate_miss:
  assumes "auth_start sha cfg req = CacheLookup h" and "\<not> cache_hit (t_cache env) h st"
  shows "authenticate sha cfg env req st =
    (case get_api_key_by_hash h st of
       Some k \<Rightarrow>
         if \<not> env_fault env \<and> is_active (t_active env) k then
           (Decided (Authorized (context_of k)), update_api_key (k\<lparr>last_used_at := Some (t_touch env)\<rparr>)
             (st\<lparr>key_cache := bt_insert h \<lparr>ck_context = context_of k, ck_active = True, cached_at = t_insert env\<rparr> (key_cache st)\<rparr>))
         else (Decided Unauthenticated, st)
     | None \<Rightarrow> (Decided Unauthenticated, st))"
proof -
  have "auth_task_step (env_fault env) (t_cache env) (CacheLookup h, st) = (StoreLookup h, st)"
    using assms(2) by (auto simp: cache_hit_def split: option.splits)
  then show ?thesis
    by (cases "get_api_key_by_hash h st") (simp_all add: authenticate_def assms(1))
qed

lemma auth_start_cases: "(\<exists>r. auth_start sha cfg req = Decided r) \<or> (\<exists>h. auth_start sha cfg req = CacheLookup h)"
  by (simp add: auth_start_def split: option.split)

lemma authenticate_cases:
  assumes "authenticate sha cfg env req st = (task, st')"
  obtains r where "auth_start sha cfg req = Decided r" "task = Decided r" "st' = st"
  | h c where "auth_start sha cfg req = CacheLookup h" "map_of (key_cache st) h = Some c"
      "num_seconds (t_cache env - cached_at c) < key_cache_ttl_secs" "ck_active c"
      "task = Decided (Authorized (ck_context c))" "st' = st"
  | h k where "auth_start sha cfg req = CacheLookup h" "get_api_key_by_hash h st = Some k"
      "\<not> env_fault env" "is_active (t_active env) k" "task = Decided (Authorized (context_of k))"
      "st' = update_api_key (k\<lparr>last_used_at := Some (t_touch env)\<rparr>)
        (st\<lparr>key_cache := bt_insert h \<lparr>ck_context = context_of k, ck_active = True, cached_at = t_insert env\<rparr> (key_cache st)\<rparr>)"
  | h where "auth_start sha cfg req = CacheLookup h" "task = Decided Unauthenticated" "st' = st"
proof -
  consider r where "auth_start sha cfg req = Decided r"
    | h where "auth_start sha cfg req = CacheLookup h" "cache_hit (t_cache env) h st"
    | h where "auth_start sha cfg req = CacheLookup h" "\<not> cache_hit (t_cache env) h st"
    using auth_start_cases by blast
  then show ?thesis
  proof cases
    case 1
    show ?thesis
      using assms by (intro that(1) [OF 1]) (simp_all add: authenticate_decided [OF 1])
  next
    case 2
    then obtain c where c: "map_of (key_cache st) h = Some c"
        "num_seconds (t_cache env - cached_at c) < key_cache_ttl_secs" "ck_active c"
      by (auto simp: cache_hit_def split: option.splits)
    show ?thesis
      using assms by (intro that(2) [OF 2(1) c]) (simp_all add: authenticate_hit [OF 2(1) c])
  next
    case 3
    note miss = authenticate_miss [OF 3]
    show ?thesis
    proof (cases "\<exists>k. get_api_key_by_hash h st = Some k \<and> \<not> env_fault env \<and> is_active (t_active env) k")
      case True
      then obtain k where k: "get_api_key_by_hash h st = Some k" "\<not> env_fault env" "is_active (t_active env) k"
        by blast
      show ?thesis
        using assms by (intro that(3) [OF 3(1) k]) (simp_all add: miss k)
    next
      case False
      then have "authenticate sha cfg env req st = (Decided Unauthenticated, st)"
        by (auto simp: miss split: option.split)
      then show ?thesis
        using assms by (intro that(4) [OF 3(1)]) simp_all
    qed
  qed
qed

lemma auth_ok_authenticate:
  assumes "auth_ok st"
  shows "auth_ok (snd (authenticate sha cfg env req st))"
proof -
  obtain task st' where a: "authenticate sha cfg env req st = (task, st')" by fastforce
  then show ?thesis
  proof (cases rule: authenticate_cases)
    case (3 h k)
    let ?st = "st\<lparr>key_cache := bt_insert h \<lparr>ck_context = context_of k, ck_active = True, cached_at = t_insert env\<rparr> (key_cache st)\<rparr>"
    have k: "map_of (api_keys st) (ak_id k) = Some k" "key_hash k = h" "\<not> revoked k"
      using get_by_hashD [OF assms 3(2)] 3(4) by (auto simp: is_active_iff)
    have "auth_ok ?st"
      using assms 3(2) k(3) unfolding auth_ok_def
      by (simp add: bt_ok_insert map_of_bt_insert)
    then have "auth_ok (update_api_key (k\<lparr>last_used_at := Some (t_touch env)\<rparr>) ?st)"
      using k by (intro auth_ok_update [where k = k]) (simp_all add: context_of_def)
    with a 3 show ?thesis by simp
  qed (use assms a in simp_all)
qed

lemma auth_ok_revoke: "auth_ok st \<Longrightarrow> auth_ok (snd (revoke_api_key s ext i st))"
proof -
  assume ok: "auth_ok st"
  have "auth_ok (evict_key_hash (key_hash k) (update_api_key (k\<lparr>revoked := True\<rparr>) st))"
    if "map_of (api_keys st) i = Some k" for k
  proof -
    have eq: "evict_key_hash (key_hash k) (update_api_key (k\<lparr>revoked := True\<rparr>) st) =
        update_api_key (k\<lparr>revoked := True\<rparr>) (evict_key_hash (key_hash k) st)"
      by (simp add: evict_key_hash_def update_api_key_def)
    have "map_of (api_keys (evict_key_hash (key_hash k) st)) (ak_id k) = Some k"
      using that auth_okD(4) [OF ok that] by (simp add: evict_key_hash_def)
    then show ?thesis
      unfolding eq using auth_ok_evict_hash [OF ok]
      by (intro auth_ok_update [where k = k]) (simp_all add: evict_key_hash_def map_of_bt_remove)
  qed
  with ok show ?thesis
    by (auto simp: revoke_api_key_def get_api_key_def split: sum.splits option.splits)
qed

lemma auth_ok_create:
  assumes "auth_ok st" and "fresh_event p (EvCreate ext body bytes i now) st"
  shows "auth_ok (snd (create_api_key (p_sha p) (p_henc p) ext body bytes i now st))"
  using assms by (auto simp: create_api_key_def Let_def intro: auth_ok_save split: sum.split option.split)

lemma revoke_eq:
  assumes "get_api_key i st = Some k" and "role_has_at_least (caller_role (caller_from_extension ext)) RoleAdmin"
  shows "revoke_api_key s ext i st =
    (Handled (), evict_key_hash (key_hash k) (update_api_key (k\<lparr>revoked := True\<rparr>) st))"
  using assms by (simp add: revoke_api_key_def require_role_def)

lemma auth_ok_rotate:
  assumes ok: "auth_ok st" and fresh: "fresh_event p (EvRotate ext i bytes j now) st"
  shows "auth_ok (snd (rotate_api_key (p_sha p) (p_henc p) s ext i bytes j now st))"
proof (cases "role_has_at_least (caller_role (caller_from_extension ext)) RoleAdmin \<and> get_api_key i st \<noteq> None")
  case True
  then obtain k where k: "get_api_key i st = Some k" by auto
  let ?st = "evict_key_hash (key_hash k) (update_api_key (k\<lparr>revoked := True\<rparr>) st)"
  have "ak_id k = i" using auth_okD(4) [OF ok] k by (simp add: get_api_key_def)
  then have ids: "map_of (api_keys ?st) j = None" "map_of (api_key_hashes ?st) h = map_of (api_key_hashes st) h" for h
    using fresh k by (auto simp: evict_key_hash_def update_api_key_def map_of_bt_insert get_api_key_def)
  have "auth_ok ?st" using auth_ok_revoke [OF ok, of s ext i] True revoke_eq [OF k, of ext s] by simp
  with True k ids fresh show ?thesis
    by (auto simp: rotate_api_key_def require_role_def Let_def intro: auth_ok_save split: option.split)
next
  case False
  with ok show ?thesis by (auto simp: rotate_api_key_def require_role_def Let_def)
qed

lemma bt_ok_fold_remove: "bt_ok m \<Longrightarrow> bt_ok (fold (\<lambda>(h, _) m. bt_remove h m) xs m)"
  by (induction xs arbitrary: m) (auto simp: bt_ok_remove)

lemma map_of_fold_remove:
  "map_of (fold (\<lambda>(h, _) m. bt_remove h m) xs m) h = (if h \<in> fst ` set xs then None else map_of m h)"
  by (induction xs arbitrary: m) (auto simp: map_of_bt_remove)

text \<open>Eviction only drops entries.\<close>

lemma evict_cache_subset:
  assumes "bt_ok (key_cache st)"
  shows "bt_ok (key_cache (evict_stale_cache_entries now st))"
    and "map_of (key_cache (evict_stale_cache_entries now st)) h = Some c \<Longrightarrow>
      map_of (key_cache st) h = Some c \<and> num_seconds (now - cached_at c) < key_cache_ttl_secs"
proof -
  define cache where "cache = filter (\<lambda>(_, c). num_seconds (now - cached_at c) < key_cache_ttl_secs) (key_cache st)"
  have ok: "bt_ok cache" using assms by (simp add: cache_def bt_ok_def sorted_wrt_map sorted_wrt_filter)
  have sub: "map_of (key_cache st) h = Some c \<and> num_seconds (now - cached_at c) < key_cache_ttl_secs"
    if "map_of cache h = Some c" for h c
    using map_of_SomeD [OF that] assms by (simp add: cache_def bt_mem_iff)
  have e: "key_cache (evict_stale_cache_entries now st) =
      (if length cache > key_cache_max_entries then
         fold (\<lambda>(h, _) m. bt_remove h m)
           (take (length cache - key_cache_max_entries) (sort_key (\<lambda>(_, c). cached_at c) cache)) cache
       else cache)"
    by (simp add: evict_stale_cache_entries_def Let_def cache_def)
  show "bt_ok (key_cache (evict_stale_cache_entries now st))"
    using ok by (simp add: e bt_ok_fold_remove)
  show "map_of (key_cache (evict_stale_cache_entries now st)) h = Some c \<Longrightarrow>
      map_of (key_cache st) h = Some c \<and> num_seconds (now - cached_at c) < key_cache_ttl_secs"
    using sub by (auto simp: e map_of_fold_remove split: if_splits)
qed

lemma evict_fields [simp]:
  "api_keys (evict_stale_cache_entries now st) = api_keys st"
  "api_key_hashes (evict_stale_cache_entries now st) = api_key_hashes st"
  "get_api_key_by_hash h (evict_stale_cache_entries now st) = get_api_key_by_hash h st"
  by (simp_all add: evict_stale_cache_entries_def Let_def)

lemma auth_ok_evict: "auth_ok st \<Longrightarrow> auth_ok (evict_stale_cache_entries now st)"
  using evict_cache_subset [of st now] unfolding auth_ok_def by fastforce

lemma auth_ok_step: "auth_ok st \<Longrightarrow> fresh_event p ev st \<Longrightarrow> auth_ok (auth_event_step p ev st)"
  by (cases ev)
    (simp_all add: auth_ok_authenticate auth_ok_create auth_ok_revoke auth_ok_rotate auth_ok_evict
      del: fresh_event.simps)

lemma auth_ok_path: "auth_path p st st' \<Longrightarrow> auth_ok st \<Longrightarrow> auth_ok st'"
  by (induction rule: auth_path.induct) (simp_all add: auth_ok_step)

section \<open>Revocation is final\<close>

text \<open>A hash that leads to a revoked key and has no cache entry.\<close>

definition hash_dead :: "string \<Rightarrow> auth_state \<Rightarrow> bool" where
  "hash_dead h st \<longleftrightarrow> (\<exists>k. get_api_key_by_hash h st = Some k \<and> revoked k)"

lemma hash_dead_not_cached: "auth_ok st \<Longrightarrow> hash_dead h st \<Longrightarrow> map_of (key_cache st) h = None"
  using auth_okD(7) [of st h] by (cases "map_of (key_cache st) h") (auto simp: hash_dead_def)

lemma hash_dead_update:
  assumes "auth_ok st" and "map_of (api_keys st) (ak_id k) = Some k"
    and "ak_id k' = ak_id k" and "key_hash k' = key_hash k" and "revoked k \<longrightarrow> revoked k'"
    and "hash_dead h st"
  shows "hash_dead h (update_api_key k' st)"
  using assms(5,6) get_by_hashI [OF assms(1,2)] by (auto simp: hash_dead_def by_hash_update [OF assms(1-4)])

lemma hash_dead_save:
  assumes "auth_ok st" and "map_of (api_keys st) (ak_id k) = None" and "map_of (api_key_hashes st) (key_hash k) = None"
    and "hash_dead h st"
  shows "hash_dead h (save_api_key k st)"
proof -
  obtain x where x: "get_api_key_by_hash h st = Some x" "revoked x" using assms(4) by (auto simp: hash_dead_def)
  then have "get_api_key_by_hash h (save_api_key k st) = Some x"
    using assms(2,3) by (auto simp: get_api_key_by_hash_def get_api_key_def save_api_key_def map_of_bt_insert
        split: option.splits)
  with x(2) show ?thesis by (simp add: hash_dead_def)
qed

lemma hash_dead_cache [simp]: "hash_dead h (st\<lparr>key_cache := c\<rparr>) = hash_dead h st"
  by (simp add: hash_dead_def)

lemma hash_dead_evict_hash [simp]: "hash_dead h (evict_key_hash g st) = hash_dead h st"
  by (simp add: evict_key_hash_def)

lemma hash_dead_revoked_update:
  assumes "auth_ok st" and "get_api_key i st = Some k"
  shows "hash_dead h st \<Longrightarrow> hash_dead h (update_api_key (k\<lparr>revoked := True\<rparr>) st)"
    and "hash_dead (key_hash k) (update_api_key (k\<lparr>revoked := True\<rparr>) st)"
proof -
  have k: "map_of (api_keys st) (ak_id k) = Some k"
    using assms auth_okD(4) [OF assms(1)] by (auto simp: get_api_key_def)
  show "hash_dead h st \<Longrightarrow> hash_dead h (update_api_key (k\<lparr>revoked := True\<rparr>) st)"
    by (rule hash_dead_update [OF assms(1) k]) simp_all
  show "hash_dead (key_hash k) (update_api_key (k\<lparr>revoked := True\<rparr>) st)"
    by (auto simp: hash_dead_def by_hash_update [OF assms(1) k])
qed

lemma hash_dead_step:
  assumes ok: "auth_ok st" and fresh: "fresh_event p ev st" and dead: "hash_dead h st"
  shows "hash_dead h (auth_event_step p ev st)"
proof (cases ev)
  case (EvAuth env req)
  obtain task st' where a: "authenticate (p_sha p) (p_cfg p) env req st = (task, st')" by fastforce
  then show ?thesis
  proof (cases rule: authenticate_cases)
    case (3 g k)
    let ?c = "bt_insert g \<lparr>ck_context = context_of k, ck_active = True, cached_at = t_insert env\<rparr> (key_cache st)"
    have "hash_dead h (update_api_key (k\<lparr>last_used_at := Some (t_touch env)\<rparr>) st)"
      using get_by_hashD(1) [OF ok 3(2)] dead by (intro hash_dead_update [OF ok, of k]) simp_all
    moreover have "update_api_key x (st\<lparr>key_cache := ?c\<rparr>) = (update_api_key x st)\<lparr>key_cache := ?c\<rparr>" for x
      by (simp add: update_api_key_def)
    ultimately show ?thesis using EvAuth a 3 by simp
  qed (use EvAuth a dead in simp_all)
next
  case (EvCreate ext body bytes i now)
  with fresh dead show ?thesis
    by (auto simp: create_api_key_def Let_def intro: hash_dead_save [OF ok] split: sum.split option.split)
next
  case (EvRevoke ext i)
  with dead show ?thesis
    by (auto simp: revoke_api_key_def intro: hash_dead_revoked_update(1) [OF ok] split: sum.split option.split)
next
  case (EvRotate ext i bytes j now)
  show ?thesis
  proof (cases "role_has_at_least (caller_role (caller_from_extension ext)) RoleAdmin \<and> get_api_key i st \<noteq> None")
    case True
    then obtain k where k: "get_api_key i st = Some k" by auto
    let ?st = "evict_key_hash (key_hash k) (update_api_key (k\<lparr>revoked := True\<rparr>) st)"
    have ok': "auth_ok ?st" using auth_ok_revoke [OF ok, of "p_show p" ext i] True revoke_eq [OF k, of ext "p_show p"] by simp
    have "ak_id k = i" using auth_okD(4) [OF ok] k by (simp add: get_api_key_def)
    then have ids: "map_of (api_keys ?st) j = None" "map_of (api_key_hashes ?st) g = map_of (api_key_hashes st) g" for g
      using fresh k EvRotate by (auto simp: evict_key_hash_def update_api_key_def map_of_bt_insert get_api_key_def)
    have "hash_dead h ?st" using hash_dead_revoked_update(1) [OF ok k dead] by simp
    with True k ids fresh EvRotate show ?thesis
      by (auto simp: rotate_api_key_def require_role_def Let_def intro!: hash_dead_save [OF ok'] split: option.split)
  next
    case False
    with EvRotate dead show ?thesis by (auto simp: rotate_api_key_def require_role_def Let_def)
  qed
qed (use dead in \<open>simp add: hash_dead_def\<close>)

lemma hash_dead_path:
  "auth_path p st st' \<Longrightarrow> auth_ok st \<Longrightarrow> hash_dead h st \<Longrightarrow> auth_ok st' \<and> hash_dead h st'"
  by (induction rule: auth_path.induct) (simp_all add: auth_ok_step hash_dead_step)

lemma dead_hash_rejected:
  assumes "auth_ok st" and "hash_dead h st" and "auth_start sha cfg req = CacheLookup h"
  shows "fst (authenticate sha cfg env req st) = Decided Unauthenticated"
proof -
  have "\<not> cache_hit (t_cache env) h st"
    using hash_dead_not_cached [OF assms(1,2)] by (simp add: cache_hit_def)
  with assms(2,3) show ?thesis
    by (auto simp: authenticate_miss hash_dead_def is_active_iff split: option.split)
qed

section \<open>Properties\<close>

text \<open>An example history for the witnesses: the bootstrap key creates one scoped key.\<close>

definition demo_params :: auth_params where
  "demo_params = \<lparr>p_sha = (\<lambda>x. x), p_henc = (\<lambda>_. ''0123456789''), p_show = (\<lambda>_. ''id''),
     p_cfg = auth_with_keys_and_store [''boot'']\<rparr>"

definition demo_key :: api_key where
  "demo_key = \<lparr>ak_id = 7, ak_name = ''svc'', key_hash = ''mnk_0123456789'', ak_key_prefix = ''mnk_01234567...'',
     ak_role = RoleWrite, ak_scope = None, ak_created_by = Some ''bootstrap'', ak_created_at = 0,
     last_used_at = None, ak_expires_at = None, revoked = False\<rparr>"

definition demo_state :: auth_state where
  "demo_state = \<lparr>api_keys = [(7, demo_key)], api_key_index = [(0, 7)],
     api_key_hashes = [(''mnk_0123456789'', 7)], key_cache = []\<rparr>"

definition demo_request :: http_request where
  "demo_request = \<lparr>req_path = ''/api/v1/users'', authorization_header = Some ''Bearer mnk_0123456789'',
     x_api_key_header = None\<rparr>"

lemma demo_create:
  "auth_event_step demo_params
     (EvCreate (Some admin_bootstrap) \<lparr>cak_name = ''svc'', cak_role = RoleWrite, cak_scope = None, cak_expires_at = None\<rparr>
        [] 7 0) auth_state_new = demo_state"
  by (simp add: demo_params_def demo_state_def demo_key_def auth_state_new_def create_api_key_def save_api_key_def
      caller_from_extension_def admin_bootstrap_def require_role_def generate_raw_key_def hash_api_key_def
      key_prefix_def is_continuation_def trim_def is_space_def zadd_def zrem_def timestamp_millis_def
      less_eq_char_def Let_def)

lemma demo_reachable: "auth_path demo_params auth_state_new demo_state"
proof -
  have "fresh_event demo_params (EvCreate (Some admin_bootstrap)
      \<lparr>cak_name = ''svc'', cak_role = RoleWrite, cak_scope = None, cak_expires_at = None\<rparr> [] 7 0) auth_state_new"
    by (simp add: auth_state_new_def)
  from path_step [OF path_refl this] show ?thesis unfolding demo_create .
qed

lemma demo_start: "auth_start (p_sha demo_params) (p_cfg demo_params) demo_request = CacheLookup ''mnk_0123456789''"
  by (simp add: demo_params_def demo_request_def auth_start_def auth_with_keys_and_store_def is_exempt_path_def
      extract_raw_key_def strip_prefix_def constant_time_key_match_def hash_api_key_def)





text \<open>Revocation can be lost to a request in flight: when a lookup has read the key as active and
  the revoke handler runs to completion before the lookup resumes, the two remaining steps of the
  lookup put the key back into the cache and write back the document read before the revocation.
  The key is then stored as not revoked, and every later request with it is let through for as
  long as it does not expire.\<close>

theorem revocation_lost_to_lookup_in_flight:
  assumes "auth_path p auth_state_new st" and "auth_start (p_sha p) (p_cfg p) req = CacheLookup h"
    and "auth_task_step False t1 (StoreLookup h, st) = (CacheInsert h k, st)"
    and "role_has_at_least (caller_role (caller_from_extension ext)) RoleAdmin"
    and "revoke_api_key (p_show p) ext (ak_id k) st = (r, st1)"
    and "auth_task_step False t2 (CacheInsert h k, st1) = (task, st2)"
    and "auth_task_step False t3 (task, st2) = (task', st3)"
    and "\<not> env_fault env" and "is_active (t_active env) k"
  shows "r = Handled () \<and> get_api_key (ak_id k) st3 = Some (k\<lparr>last_used_at := Some t3\<rparr>) \<and> \<not> revoked k \<and>
    fst (authenticate (p_sha p) (p_cfg p) env req st3) = Decided (Authorized (context_of k))"
proof -
  have ok: "auth_ok st" using auth_ok_path [OF assms(1)] by simp
  have gk: "get_api_key_by_hash h st = Some k"
    using assms(3) by (auto split: option.splits if_splits)
  note k = get_by_hashD [OF ok gk]
  have rev: "\<not> revoked k" using assms(9) by (simp add: is_active_iff)
  have hash: "map_of (api_key_hashes st) h = Some (ak_id k)" using auth_okD(5) [OF ok k(1)] k(2) by simp
  have r: "r = Handled ()" "st1 = evict_key_hash h (update_api_key (k\<lparr>revoked := True\<rparr>) st)"
    using assms(4,5) k by (simp_all add: revoke_eq get_api_key_def)
  have st3: "st3 = update_api_key (k\<lparr>last_used_at := Some t3\<rparr>)
      (st1\<lparr>key_cache := bt_insert h \<lparr>ck_context = context_of k, ck_active = True, cached_at = t2\<rparr> (key_cache st1)\<rparr>)"
    using assms(6,7) by auto
  have g3: "get_api_key (ak_id k) st3 = Some (k\<lparr>last_used_at := Some t3\<rparr>)"
    by (simp add: st3 get_api_key_def update_api_key_def map_of_bt_insert)
  then have h3: "get_api_key_by_hash h st3 = Some (k\<lparr>last_used_at := Some t3\<rparr>)"
    using hash by (simp add: get_api_key_by_hash_def st3 r(2) update_api_key_def evict_key_hash_def)
  have c3: "map_of (key_cache st3) h = Some \<lparr>ck_context = context_of k, ck_active = True, cached_at = t2\<rparr>"
    by (simp add: st3 update_api_key_def map_of_bt_insert)
  have "fst (authenticate (p_sha p) (p_cfg p) env req st3) = Decided (Authorized (context_of k))"
  proof (cases "cache_hit (t_cache env) h st3")
    case True
    then show ?thesis
      using authenticate_hit [OF assms(2) c3] c3 by (simp add: cache_hit_def)
  next
    case False
    have "is_active (t_active env) (k\<lparr>last_used_at := Some t3\<rparr>)" using assms(9) by (simp add: is_active_iff)
    then show ?thesis
      using authenticate_miss [OF assms(2) False] h3 assms(8) by (simp add: context_of_def)
  qed
  with r(1) g3 rev show ?thesis by blast
qed

lemma revocation_lost_to_lookup_in_flight_witness:
  "\<exists>st1 task st2 task' st3.
     revoke_api_key (p_show demo_params) (Some admin_bootstrap) (ak_id demo_key) demo_state = (Handled (), st1) \<and>
     auth_task_step False 2 (CacheInsert ''mnk_0123456789'' demo_key, st1) = (task, st2) \<and>
     auth_task_step False 3 (task, st2) = (task', st3) \<and>
     fst (authenticate (p_sha demo_params) (p_cfg demo_params)
       \<lparr>env_fault = False, t_cache = 10 ^ 15, t_active = 10 ^ 15, t_insert = 10 ^ 15, t_touch = 10 ^ 15\<rparr> demo_request st3) =
       Decided (Authorized (context_of demo_key))"
proof -
  obtain r st1 where r: "revoke_api_key (p_show demo_params) (Some admin_bootstrap) (ak_id demo_key) demo_state = (r, st1)"
    by fastforce
  obtain task st2 where t: "auth_task_step False 2 (CacheInsert ''mnk_0123456789'' demo_key, st1) = (task, st2)" by fastforce
  obtain task' st3 where t': "auth_task_step False 3 (task, st2) = (task', st3)" by fastforce
  have "auth_task_step False 1 (StoreLookup ''mnk_0123456789'', demo_state) = (CacheInsert ''mnk_0123456789'' demo_key, demo_state)"
    by (simp add: get_api_key_by_hash_def get_api_key_def demo_state_def is_active_def demo_key_def)
  moreover have "role_has_at_least (caller_role (caller_from_extension (Some admin_bootstrap))) RoleAdmin"
    by (simp add: caller_from_extension_def admin_bootstrap_def)
  moreover have "is_active (10 ^ 15) demo_key" by (simp add: is_active_def demo_key_def)
  ultimately show ?thesis
    using revocation_lost_to_lookup_in_flight [OF demo_reachable demo_start _ _ r t t',
        where env = "\<lparr>env_fault = False, t_cache = 10 ^ 15, t_active = 10 ^ 15, t_insert = 10 ^ 15, t_touch = 10 ^ 15\<rparr>"]
      r t t' by auto
qed

end
