(* ===== verification/Paging.thy ===== *)
theory Paging
  imports Redis_Index
begin

text \<open>
  Cursor pagination over a sorted set (\<^verbatim>\<open>list_from_zset\<close> of
  \<^verbatim>\<open>mnemo-storage/src/redis_store.rs\<close>) and the loops of \<^verbatim>\<open>mnemo-server/src/routes.rs\<close>
  that walk over all pages, which are partial functions until they are proved to return. The
  locale \<open>page_source\<close> is the contract between a paged listing and these loops; the theories
  of users, sessions and episodes interpret it.
\<close>

section \<open>A page\<close>

text \<open>
  The identifiers after the cursor are those with a lower score; \<^verbatim>\<open>ZREVRANGE 0 (limit - 1)\<close>
  without a cursor. Documents that are gone are skipped.
\<close>

definition list_from_zset :: "('m::linorder, 'd) btree_map \<Rightarrow> 'm zset \<Rightarrow> nat \<Rightarrow> 'm option \<Rightarrow> 'd list" where
  "list_from_zset docs z limit after =
     List.map_filter (map_of docs)
       (case after of
          Some cursor \<Rightarrow> (case zscore z cursor of Some s \<Rightarrow> zrev_below z s limit | None \<Rightarrow> [])
        | None \<Rightarrow> zrevrange z (int limit - 1))"

text \<open>
  An index that holds exactly the documents that satisfy a predicate, at their scores, where a
  document is stored under its own identifier.
\<close>

definition indexed ::
  "('d \<Rightarrow> 'm::linorder) \<Rightarrow> ('d \<Rightarrow> bool) \<Rightarrow> ('d \<Rightarrow> int) \<Rightarrow> ('m, 'd) btree_map \<Rightarrow> 'm zset \<Rightarrow> bool" where
  "indexed ident sel sc docs z \<longleftrightarrow>
     zset_ok z \<and> (\<forall>i d. map_of docs i = Some d \<longrightarrow> ident d = i) \<and>
     (\<forall>i. zscore z i = (case map_of docs i of Some d \<Rightarrow> if sel d then Some (sc d) else None | None \<Rightarrow> None))"

text \<open>The documents of an index, newest first.\<close>

definition all_indexed :: "('m, 'd) btree_map \<Rightarrow> 'm zset \<Rightarrow> 'd list" where
  "all_indexed docs z = List.map_filter (map_of docs) (znewest z)"

lemma indexed_score:
  "indexed ident sel sc docs z \<Longrightarrow> zscore z i = Some s \<longleftrightarrow> (\<exists>d. map_of docs i = Some d \<and> sel d \<and> sc d = s)"
  unfolding indexed_def by (cases "map_of docs i") auto

lemma indexed_mem:
  assumes "indexed ident sel sc docs z" and "(s, i) \<in> set z"
  shows "\<exists>d. map_of docs i = Some d \<and> sel d \<and> sc d = s \<and> ident d = i"
proof -
  have "zset_ok z" using assms(1) by (simp add: indexed_def)
  then have "zscore z i = Some s" using assms(2) by (simp add: zscore_Some_iff)
  then obtain d where "map_of docs i = Some d" "sel d" "sc d = s"
    unfolding indexed_score [OF assms(1)] by blast
  moreover have "ident d = i" using assms(1) \<open>map_of docs i = Some d\<close> by (simp add: indexed_def)
  ultimately show ?thesis by blast
qed

lemma map_filter_Some: "(\<forall>i \<in> set is. f i = Some (g i)) \<Longrightarrow> List.map_filter f is = map g is"
  by (induction "is") (auto simp: List.map_filter_def)

lemma set_all_indexed:
  "indexed ident sel sc docs z \<Longrightarrow> set (all_indexed docs z) = {d \<in> ran (map_of docs). sel d}"
proof -
  assume ok: "indexed ident sel sc docs z"
  then have z: "zset_ok z" by (simp add: indexed_def)
  have "i \<in> set (znewest z) \<longleftrightarrow> (\<exists>d. map_of docs i = Some d \<and> sel d)" for i
    unfolding zset.set_newest [OF z] using indexed_score [OF ok, of i] by (metis domIff not_Some_eq)
  then show ?thesis by (force simp: all_indexed_def List.map_filter_def ran_def)
qed

text \<open>As a list, the documents of an index are the images of its entries, in reverse.\<close>

definition doc_at :: "('m, 'd) btree_map \<Rightarrow> int \<times> 'm \<Rightarrow> 'd" where
  "doc_at docs e = the (map_of docs (snd e))"

lemma doc_at:
  assumes "indexed ident sel sc docs z" and "e \<in> set z"
  shows "map_of docs (snd e) = Some (doc_at docs e)" "sel (doc_at docs e)" "sc (doc_at docs e) = fst e"
    "ident (doc_at docs e) = snd e"
  using indexed_mem [OF assms(1), of "fst e" "snd e"] assms(2) by (auto simp: doc_at_def)

lemma map_filter_entries:
  "indexed ident sel sc docs z \<Longrightarrow> set es \<subseteq> set z \<Longrightarrow>
   List.map_filter (map_of docs) (map snd es) = map (doc_at docs) es"
  by (induction es) (auto simp: List.map_filter_def doc_at)

lemma all_indexed_eq: "indexed ident sel sc docs z \<Longrightarrow> all_indexed docs z = map (doc_at docs) (rev z)"
  unfolding all_indexed_def znewest_def by (simp add: map_filter_entries rev_map)

lemma page_first:
  "indexed ident sel sc docs z \<Longrightarrow> 0 < n \<Longrightarrow> list_from_zset docs z n None = take n (all_indexed docs z)"
proof -
  assume a: "indexed ident sel sc docs z" "0 < n"
  have "zrevrange z (int n - 1) = map snd (take n (rev z))"
    using a(2) by (simp add: zrevrange_def znewest_def rev_map take_map nat_add_distrib)
  then show ?thesis
    using a(1) by (simp add: list_from_zset_def all_indexed_eq map_filter_entries take_map set_take_subset
        subset_trans [OF set_take_subset])
qed

lemma page_after:
  assumes ok: "indexed ident sel sc docs z" and e: "e \<in> set z"
  shows "list_from_zset docs z n (Some (snd e)) = map (doc_at docs) (take n (rev (filter (\<lambda>x. fst x < fst e) z)))"
proof -
  have z: "zset_ok z" using ok by (simp add: indexed_def)
  have "(fst e, snd e) \<in> set z" using e by simp
  then have "zscore z (snd e) = Some (fst e)" using zscore_Some_iff [OF z, of "snd e" "fst e"] by blast
  then have "list_from_zset docs z n (Some (snd e)) =
      List.map_filter (map_of docs) (map snd (take n (rev (filter (\<lambda>x. fst x < fst e) z))))"
    by (simp add: list_from_zset_def zrev_below_def rev_map take_map)
  also have "\<dots> = map (doc_at docs) (take n (rev (filter (\<lambda>x. fst x < fst e) z)))"
    by (rule map_filter_entries [OF ok]) (auto dest: in_set_takeD)
  finally show ?thesis .
qed

section \<open>The loops over pages\<close>

text \<open>Search: the first match, or nothing when a page is empty or not full.\<close>

partial_function (option) scan_pages ::
  "('m option \<Rightarrow> 'd list) \<Rightarrow> ('d \<Rightarrow> 'm) \<Rightarrow> nat \<Rightarrow> ('d \<Rightarrow> bool) \<Rightarrow> 'm option \<Rightarrow> 'd option option" where
  "scan_pages page ident limit test after =
     (let items = page after in
      if items = [] then Some None
      else case List.find test items of
        Some d \<Rightarrow> Some (Some d)
      | None \<Rightarrow>
        if length items < limit then Some None
        else scan_pages page ident limit test (Some (ident (last items))))"

lemma find_mem: "List.find t xs = Some x \<Longrightarrow> x \<in> set xs \<and> t x"
  by (induction xs) (auto split: if_splits)

lemma scan_pages_sound:
  assumes "scan_pages page ident limit test after = Some r"
  shows "\<forall>d. r = Some d \<longrightarrow> (\<exists>a. d \<in> set (page a)) \<and> test d"
proof (rule scan_pages.raw_induct
    [where P = "\<lambda>page ident limit test after r. \<forall>d. r = Some d \<longrightarrow> (\<exists>a. d \<in> set (page a)) \<and> test d",
     OF _ assms])
  fix f and page :: "'m option \<Rightarrow> 'd list" and ident :: "'d \<Rightarrow> 'm" and limit :: nat
    and test :: "'d \<Rightarrow> bool" and after :: "'m option" and r :: "'d option"
  assume IH: "\<And>page ident limit test after r. f page ident limit test after = Some r \<Longrightarrow>
      \<forall>d. r = Some d \<longrightarrow> (\<exists>a. d \<in> set (page a)) \<and> test d"
    and eq: "(let items = page after in
      if items = [] then Some None
      else case List.find test items of
        Some d \<Rightarrow> Some (Some d)
      | None \<Rightarrow>
        if length items < limit then Some None
        else f page ident limit test (Some (ident (last items)))) = Some r"
  show "\<forall>d. r = Some d \<longrightarrow> (\<exists>a. d \<in> set (page a)) \<and> test d"
  proof (cases "List.find test (page after)")
    case None
    then have "r = None \<or> f page ident limit test (Some (ident (last (page after)))) = Some r"
      using eq by (auto simp: Let_def split: if_splits)
    then show ?thesis using IH by blast
  next
    case (Some x)
    then have "r = None \<or> r = Some x" using eq by (auto simp: Let_def split: if_splits)
    with find_mem [OF Some] show ?thesis by blast
  qed
qed

text \<open>Collection, stopped when more than \<open>cap\<close> items are gathered.\<close>

partial_function (option) collect_pages ::
  "('m option \<Rightarrow> 'd list) \<Rightarrow> ('d \<Rightarrow> 'm) \<Rightarrow> nat \<Rightarrow> 'm option \<Rightarrow> 'd list \<Rightarrow> 'd list option" where
  "collect_pages page ident cap after out =
     (let items = page after in
      if items = [] then Some out
      else
        let out' = out @ items in
        if length out' > cap then Some out'
        else collect_pages page ident cap (Some (ident (last items))) out')"

text \<open>
  The contract: a page after a cursor holds items of lower score only; when no two items share a
  score, it holds the items that follow the cursor.
\<close>

locale page_source =
  fixes page :: "'s \<Rightarrow> nat \<Rightarrow> 'm option \<Rightarrow> 'd list"
    and ident :: "'d \<Rightarrow> 'm"
    and score :: "'d \<Rightarrow> int"
    and items :: "'s \<Rightarrow> 'd list"
    and invar :: "'s \<Rightarrow> bool"
  assumes page_items: "invar s \<Longrightarrow> 0 < n \<Longrightarrow> set (page s n after) \<subseteq> set (items s)"
    and page_below: "invar s \<Longrightarrow> d \<in> set (items s) \<Longrightarrow> e \<in> set (page s n (Some (ident d))) \<Longrightarrow> score e < score d"
    and page_head: "invar s \<Longrightarrow> 0 < n \<Longrightarrow> page s n None = take n (items s)"
    and page_tail: "invar s \<Longrightarrow> distinct (map score (items s)) \<Longrightarrow> items s = xs @ d # ys \<Longrightarrow>
      page s n (Some (ident d)) = take n ys"
begin

lemma below_shrinks:
  assumes "invar s" and "d \<in> set (items s)" and "p = page s n (Some (ident d))" and "p \<noteq> []" and "0 < n"
  shows "last p \<in> set (items s)" and
    "card {e \<in> set (items s). score e < score (last p)} < card {e \<in> set (items s). score e < score d}"
proof -
  have l: "last p \<in> set p" using assms(4) by simp
  then show m: "last p \<in> set (items s)" using assms page_items by blast
  have lt: "score (last p) < score d" using assms l page_below by blast
  then have sub: "{e \<in> set (items s). score e < score (last p)} \<subseteq> {e \<in> set (items s). score e < score d}"
    by auto
  have "last p \<in> {e \<in> set (items s). score e < score d} - {e \<in> set (items s). score e < score (last p)}"
    using m lt by simp
  with sub have "{e \<in> set (items s). score e < score (last p)} \<subset> {e \<in> set (items s). score e < score d}"
    by blast
  then show "card {e \<in> set (items s). score e < score (last p)} < card {e \<in> set (items s). score e < score d}"
    by (intro psubset_card_mono) simp_all
qed

lemma scan_from_total:
  "invar s \<Longrightarrow> 0 < n \<Longrightarrow> d \<in> set (items s) \<Longrightarrow>
   \<exists>r. scan_pages (page s n) ident lmt test (Some (ident d)) = Some r"
proof (induction "card {e \<in> set (items s). score e < score d}" arbitrary: d rule: less_induct)
  case less
  let ?p = "page s n (Some (ident d))"
  show ?case
  proof (cases "?p = []")
    case False
    note shrink = below_shrinks [OF less.prems(1,3) refl False less.prems(2)]
    have "\<exists>r. scan_pages (page s n) ident lmt test (Some (ident (last ?p))) = Some r"
      by (rule less.hyps [OF shrink(2) less.prems(1,2) shrink(1)])
    with False show ?thesis
      by (subst scan_pages.simps) (auto simp: Let_def split: option.split)
  qed (subst scan_pages.simps, simp)
qed

lemma scan_total:
  assumes "invar s" and "0 < n"
  shows "\<exists>r. scan_pages (page s n) ident lmt test None = Some r"
proof (cases "page s n None = []")
  case False
  then have "last (page s n None) \<in> set (items s)" using assms page_items by (metis last_in_set subsetD)
  then have "\<exists>r. scan_pages (page s n) ident lmt test (Some (ident (last (page s n None)))) = Some r"
    by (rule scan_from_total [OF assms])
  with False show ?thesis by (subst scan_pages.simps) (auto simp: Let_def split: option.split)
qed (subst scan_pages.simps, simp)

lemma scan_sound:
  "invar s \<Longrightarrow> 0 < n \<Longrightarrow> scan_pages (page s n) ident lmt test after = Some (Some d) \<Longrightarrow> d \<in> set (items s) \<and> test d"
  using scan_pages_sound [of "page s n" ident lmt test after "Some d"] page_items by blast

lemma scan_below:
  "invar s \<Longrightarrow> 0 < n \<Longrightarrow> d \<in> set (items s) \<Longrightarrow>
   scan_pages (page s n) ident lmt test (Some (ident d)) = Some (Some e) \<Longrightarrow> score e < score d"
proof (induction "card {e \<in> set (items s). score e < score d}" arbitrary: d rule: less_induct)
  case less
  let ?p = "page s n (Some (ident d))"
  have ne: "?p \<noteq> []" using less.prems(4) by (subst (asm) scan_pages.simps) (auto split: if_splits)
  note shrink = below_shrinks [OF less.prems(1,3) refl ne less.prems(2)]
  show ?case
  proof (cases "List.find test ?p")
    case None
    then have "scan_pages (page s n) ident lmt test (Some (ident (last ?p))) = Some (Some e)"
      using less.prems(4) ne by (subst (asm) scan_pages.simps) (simp add: Let_def split: if_splits)
    then have "score e < score (last ?p)" by (rule less.hyps [OF shrink(2) less.prems(1,2) shrink(1)])
    moreover have "score (last ?p) < score d" by (rule page_below [OF less.prems(1,3) last_in_set [OF ne]])
    ultimately show ?thesis by simp
  next
    case (Some x)
    then have "x = e" using less.prems(4) ne by (subst (asm) scan_pages.simps) (simp add: Let_def split: if_splits)
    then show ?thesis using find_mem [OF Some] page_below [OF less.prems(1,3)] by blast
  qed
qed

text \<open>When no two items share a score, the loops see every item, newest first.\<close>

lemma last_take_split:
  assumes "ys \<noteq> []" and "0 < n"
  shows "\<exists>us. take n ys = us @ [last (take n ys)] \<and> ys = us @ last (take n ys) # drop n ys"
proof -
  have "take n ys \<noteq> []" using assms by simp
  then obtain us where "take n ys = us @ [last (take n ys)]" by (metis append_butlast_last_id)
  then show ?thesis by (metis append.assoc append_Cons append_Nil append_take_drop_id)
qed

lemma scan_step_exact:
  assumes "invar s" and "distinct (map score (items s))" and "0 < n" and "items s = xs @ ys" and "page s n after = take n ys"
  shows "scan_pages (page s n) ident n test after = Some (List.find test ys)"
  using assms(4,5)
proof (induction "length ys" arbitrary: xs ys after rule: less_induct)
  case less
  show ?case
  proof (cases "ys = []")
    case False
    obtain us where us: "take n ys = us @ [last (take n ys)]" "ys = us @ last (take n ys) # drop n ys"
      using last_take_split [OF False assms(3)] by blast
    have split: "items s = (xs @ us) @ last (take n ys) # drop n ys"
      using less.prems(1) us(2) by simp
    have next_page: "page s n (Some (ident (last (take n ys)))) = take n (drop n ys)"
      by (rule page_tail [OF assms(1,2) split])
    have IH: "scan_pages (page s n) ident n test (Some (ident (last (take n ys)))) = Some (List.find test (drop n ys))"
      using False assms(3) split next_page by (intro less.hyps [where xs = "xs @ us @ [last (take n ys)]"]) simp_all
    have fnd: "List.find test ys = (case List.find test (take n ys) of Some d \<Rightarrow> Some d | None \<Rightarrow> List.find test (drop n ys))"
    proof -
      have "List.find test (as @ bs) = (case List.find test as of Some d \<Rightarrow> Some d | None \<Rightarrow> List.find test bs)" for as bs
        by (induction as) auto
      from this [of "take n ys" "drop n ys"] show ?thesis by simp
    qed
    show ?thesis
      using False assms(3) IH fnd less.prems(2)
      by (subst scan_pages.simps) (auto simp: Let_def min_def split: option.split)
  next
    case True
    with less.prems(2) show ?thesis by (subst scan_pages.simps) simp
  qed
qed

lemma scan_exact:
  "invar s \<Longrightarrow> distinct (map score (items s)) \<Longrightarrow> 0 < n \<Longrightarrow>
   scan_pages (page s n) ident n test None = Some (List.find test (items s))"
  by (rule scan_step_exact [where xs = "[]"]) (simp_all add: page_head)

lemma collect_from_total:
  "invar s \<Longrightarrow> 0 < n \<Longrightarrow> d \<in> set (items s) \<Longrightarrow>
   \<exists>r. collect_pages (page s n) ident cap (Some (ident d)) out = Some r"
proof (induction "card {e \<in> set (items s). score e < score d}" arbitrary: d out rule: less_induct)
  case less
  let ?p = "page s n (Some (ident d))"
  show ?case
  proof (cases "?p = []")
    case False
    note shrink = below_shrinks [OF less.prems(1,3) refl False less.prems(2)]
    have "\<exists>r. collect_pages (page s n) ident cap (Some (ident (last ?p))) (out @ ?p) = Some r"
      by (rule less.hyps [OF shrink(2) less.prems(1,2) shrink(1)])
    with False show ?thesis by (subst collect_pages.simps) (auto simp: Let_def)
  qed (subst collect_pages.simps, simp)
qed

lemma collect_total:
  assumes "invar s" and "0 < n"
  shows "\<exists>r. collect_pages (page s n) ident cap None [] = Some r"
proof (cases "page s n None = []")
  case False
  then have "last (page s n None) \<in> set (items s)" using assms page_items by (metis last_in_set subsetD)
  then have "\<exists>r. collect_pages (page s n) ident cap (Some (ident (last (page s n None)))) (page s n None) = Some r"
    by (rule collect_from_total [OF assms])
  with False show ?thesis by (subst collect_pages.simps) (auto simp: Let_def)
qed (subst collect_pages.simps, simp)

lemma collect_step_exact:
  assumes "invar s" and "distinct (map score (items s))" and "0 < n" and "length (items s) \<le> cap"
    and "items s = xs @ ys" and "page s n after = take n ys"
  shows "collect_pages (page s n) ident cap after xs = Some (items s)"
  using assms(5,6)
proof (induction "length ys" arbitrary: xs ys after rule: less_induct)
  case less
  show ?case
  proof (cases "ys = []")
    case False
    obtain us where us: "take n ys = us @ [last (take n ys)]" "ys = us @ last (take n ys) # drop n ys"
      using last_take_split [OF False assms(3)] by blast
    have split: "items s = (xs @ us) @ last (take n ys) # drop n ys"
      using less.prems(1) us(2) by simp
    have next_page: "page s n (Some (ident (last (take n ys)))) = take n (drop n ys)"
      by (rule page_tail [OF assms(1,2) split])
    have IH: "collect_pages (page s n) ident cap (Some (ident (last (take n ys)))) (xs @ take n ys) = Some (items s)"
      using False assms(3) next_page less.prems(1) by (intro less.hyps [where ys = "drop n ys"]) simp_all
    have "length (xs @ take n ys) \<le> cap" using assms(4) less.prems(1) by simp
    with False assms(3) IH less.prems(2) show ?thesis
      by (subst collect_pages.simps) (auto simp: Let_def)
  next
    case True
    with less.prems show ?thesis by (subst collect_pages.simps) simp
  qed
qed

lemma collect_exact:
  "invar s \<Longrightarrow> distinct (map score (items s)) \<Longrightarrow> 0 < n \<Longrightarrow> length (items s) \<le> cap \<Longrightarrow>
   collect_pages (page s n) ident cap None [] = Some (items s)"
  by (rule collect_step_exact [where xs = "[]"]) (simp_all add: page_head)

end

section \<open>Indexes are page sources\<close>

lemma indexed_page_items:
  assumes ok: "indexed ident sel sc docs z" and n: "0 < n"
  shows "set (list_from_zset docs z n after) \<subseteq> set (all_indexed docs z)"
proof (cases after)
  case None
  then show ?thesis by (simp add: page_first [OF ok n] set_take_subset)
next
  case (Some c)
  show ?thesis
  proof (cases "zscore z c")
    case None
    with Some show ?thesis by (simp add: list_from_zset_def List.map_filter_def)
  next
    case s: (Some s)
    have "zset_ok z" using ok by (simp add: indexed_def)
    with s have "(s, c) \<in> set z" by (simp add: zscore_Some_iff)
    from page_after [OF ok this, of n] Some show ?thesis
      by (auto simp: all_indexed_eq [OF ok] dest!: in_set_takeD)
  qed
qed

lemma indexed_page_below:
  assumes ok: "indexed ident sel sc docs z" and d: "d \<in> set (all_indexed docs z)"
    and e: "e \<in> set (list_from_zset docs z n (Some (ident d)))"
  shows "sc e < sc d"
proof -
  obtain x where x: "x \<in> set z" "d = doc_at docs x" using d by (auto simp: all_indexed_eq [OF ok])
  have "ident d = snd x" "sc d = fst x" using doc_at [OF ok x(1)] x(2) by simp_all
  with e obtain y where "y \<in> set z" "fst y < fst x" "e = doc_at docs y"
    by (auto simp: page_after [OF ok x(1)] dest!: in_set_takeD)
  then show ?thesis using doc_at [OF ok] \<open>sc d = fst x\<close> by metis
qed

lemma indexed_page_tail:
  assumes ok: "indexed ident sel sc docs z" and dist: "distinct (map sc (all_indexed docs z))"
    and split: "all_indexed docs z = xs @ d # ys"
  shows "list_from_zset docs z n (Some (ident d)) = take n ys"
proof -
  let ?k = "length xs"
  have r: "all_indexed docs z = map (doc_at docs) (rev z)" by (rule all_indexed_eq [OF ok])
  obtain as x bs where z: "rev z = as @ x # bs" "map (doc_at docs) as = xs" "doc_at docs x = d" "map (doc_at docs) bs = ys"
    using split unfolding r by (force simp: map_eq_append_conv map_eq_Cons_conv)
  have x: "x \<in> set z" using z(1) by (metis in_set_conv_decomp set_rev)
  have "map sc (map (doc_at docs) (rev z)) = map fst (rev z)"
    using doc_at(3) [OF ok] by (simp add: comp_def)
  then have df: "distinct (map fst (rev z))" using dist unfolding r by metis
  have "sorted_wrt (\<lambda>a b. fst b \<le> fst a) (rev z)"
    using ok by (simp add: indexed_def zset_ok_def sorted_wrt_rev)
  then have "(\<forall>a \<in> set as. fst x \<le> fst a) \<and> (\<forall>b \<in> set bs. fst b \<le> fst x)"
    unfolding z(1) by (auto simp: sorted_wrt_append)
  moreover have "(\<forall>a \<in> set as. fst x \<noteq> fst a) \<and> (\<forall>b \<in> set bs. fst b \<noteq> fst x)"
    using df unfolding z(1) by (force simp: image_iff)
  ultimately have "(\<forall>a \<in> set as. \<not> fst a < fst x)" "(\<forall>b \<in> set bs. fst b < fst x)"
    by (auto simp: less_le)
  then have "filter (\<lambda>y. fst y < fst x) (rev z) = bs"
    unfolding z(1) by (simp add: filter_id_conv filter_empty_conv)
  then have "rev (filter (\<lambda>y. fst y < fst x) z) = bs" by (simp add: rev_filter)
  moreover have "ident d = snd x" using doc_at(4) [OF ok x] z(3) by simp
  ultimately show ?thesis using page_after [OF ok x, of n] z(4) by (simp add: take_map [symmetric])
qed

text \<open>An index grows and shrinks with its documents.\<close>

lemma indexed_insert:
  assumes "indexed ident sel sc docs z" and "sel d" and "ident d = i"
  shows "indexed ident sel sc (bt_insert i d docs) (zadd (sc d) i z)"
  using assms by (auto simp: indexed_def map_of_bt_insert zset.score_add split: option.splits)

lemma indexed_insert_other:
  assumes "indexed ident sel sc docs z" and "\<not> sel d" and "ident d = i"
    and "\<forall>d'. map_of docs i = Some d' \<longrightarrow> \<not> sel d'"
  shows "indexed ident sel sc (bt_insert i d docs) z"
  using assms by (auto simp: indexed_def map_of_bt_insert split: option.splits)

lemma indexed_update:
  assumes "indexed ident sel sc docs z" and "map_of docs i = Some d" and "ident d' = i" and "sel d' = sel d"
    and "sc d' = sc d"
  shows "indexed ident sel sc (bt_insert i d' docs) z"
  using assms by (auto simp: indexed_def map_of_bt_insert split: option.splits)

lemma indexed_remove:
  assumes "indexed ident sel sc docs z"
  shows "indexed ident sel sc (bt_remove i docs) (zrem i z)"
  using assms by (auto simp: indexed_def map_of_bt_remove zset.score_rem split: option.splits)

lemma indexed_remove_other:
  assumes "indexed ident sel sc docs z" and "\<forall>d. map_of docs i = Some d \<longrightarrow> \<not> sel d"
  shows "indexed ident sel sc (bt_remove i docs) z"
  using assms by (auto simp: indexed_def map_of_bt_remove split: option.splits)

lemma indexed_Nil: "indexed ident sel sc [] []"
  by (simp add: indexed_def zscore_def)

end
