(* ===== verification/Users.thy ===== *)
theory Users
  imports Access Paging
begin

text \<open>
  Users: \<^verbatim>\<open>mnemo-core/src/models/user.rs\<close>, the user store of
  \<^verbatim>\<open>mnemo-storage/src/redis_store.rs\<close> and the lookup by identifier of
  \<^verbatim>\<open>mnemo-server/src/routes.rs\<close>. \<open>parse_uuid\<close> and \<open>show_uuid\<close> stand for the
  \<^verbatim>\<open>uuid\<close> crate.
\<close>

section \<open>Users\<close>

record user =
  u_id :: uuid
  u_external_id :: "string option"
  u_name :: string
  u_email :: "string option"
  u_metadata :: json
  u_created_at :: timestamp
  u_updated_at :: timestamp

record create_user_request =
  cu_id :: "uuid option"
  cu_external_id :: "string option"
  cu_name :: string
  cu_email :: "string option"
  cu_metadata :: json

record update_user_request =
  uu_name :: "string option"
  uu_email :: "string option"
  uu_external_id :: "string option"
  uu_metadata :: "json option"

definition user_from_request :: "create_user_request \<Rightarrow> uuid \<Rightarrow> timestamp \<Rightarrow> user" where
  "user_from_request req new_id now =
     \<lparr>u_id = (case cu_id req of Some i \<Rightarrow> i | None \<Rightarrow> new_id), u_external_id = cu_external_id req,
      u_name = cu_name req, u_email = cu_email req, u_metadata = cu_metadata req,
      u_created_at = now, u_updated_at = now\<rparr>"

definition user_apply_update :: "user \<Rightarrow> update_user_request \<Rightarrow> timestamp \<Rightarrow> user" where
  "user_apply_update u up now =
     (let u1 = (case uu_name up of Some n \<Rightarrow> u\<lparr>u_name := n\<rparr> | None \<Rightarrow> u);
          u2 = (case uu_email up of Some e \<Rightarrow> u1\<lparr>u_email := Some e\<rparr> | None \<Rightarrow> u1);
          u3 = (case uu_external_id up of Some x \<Rightarrow> u2\<lparr>u_external_id := Some x\<rparr> | None \<Rightarrow> u2);
          u4 = (case uu_metadata up of Some m \<Rightarrow> u3\<lparr>u_metadata := m\<rparr> | None \<Rightarrow> u3)
      in u4\<lparr>u_updated_at := now\<rparr>)"

section \<open>The store\<close>

text \<open>\<^verbatim>\<open>user:{id}\<close>, \<^verbatim>\<open>user_ext:{external_id}\<close> and the index \<^verbatim>\<open>users\<close> by creation time.\<close>

record user_store =
  us_users :: "(uuid, user) btree_map"
  us_ext :: "(string, uuid) btree_map"
  us_index :: "uuid zset"

definition user_store_new :: user_store where
  "user_store_new = \<lparr>us_users = [], us_ext = [], us_index = []\<rparr>"

definition create_user ::
  "(uuid \<Rightarrow> string) \<Rightarrow> create_user_request \<Rightarrow> uuid \<Rightarrow> timestamp \<Rightarrow> user_store \<Rightarrow> (mnemo_error + user) \<times> user_store" where
  "create_user show_uuid req new_id now st =
     (let u = user_from_request req new_id now in
      if map_of (us_users st) (u_id u) \<noteq> None then
        (Inl (Duplicate (''User '' @ show_uuid (u_id u) @ '' already exists'')), st)
      else
        (Inr u,
         st\<lparr>us_users := bt_insert (u_id u) u (us_users st),
            us_ext := (case u_external_id u of Some x \<Rightarrow> bt_insert x (u_id u) (us_ext st) | None \<Rightarrow> us_ext st),
            us_index := zadd (timestamp_millis (u_created_at u)) (u_id u) (us_index st)\<rparr>))"

definition get_user :: "uuid \<Rightarrow> user_store \<Rightarrow> mnemo_error + user" where
  "get_user i st = (case map_of (us_users st) i of Some u \<Rightarrow> Inr u | None \<Rightarrow> Inl (UserNotFound i))"

definition get_user_by_external_id :: "string \<Rightarrow> user_store \<Rightarrow> mnemo_error + user" where
  "get_user_by_external_id x st =
     (case map_of (us_ext st) x of Some i \<Rightarrow> get_user i st | None \<Rightarrow> Inl (NotFound ''User'' x))"

definition update_user ::
  "uuid \<Rightarrow> update_user_request \<Rightarrow> timestamp \<Rightarrow> user_store \<Rightarrow> (mnemo_error + user) \<times> user_store" where
  "update_user i req now st =
     (case get_user i st of
        Inl e \<Rightarrow> (Inl e, st)
      | Inr u \<Rightarrow>
        let u' = user_apply_update u req now
        in (Inr u', st\<lparr>us_users := bt_insert i u' (us_users st)\<rparr>))"

definition delete_user :: "uuid \<Rightarrow> user_store \<Rightarrow> (mnemo_error + unit) \<times> user_store" where
  "delete_user i st =
     (case get_user i st of
        Inl e \<Rightarrow> (Inl e, st)
      | Inr u \<Rightarrow>
        (Inr (),
         st\<lparr>us_users := bt_remove i (us_users st),
            us_ext := (case u_external_id u of Some x \<Rightarrow> bt_remove x (us_ext st) | None \<Rightarrow> us_ext st),
            us_index := zrem i (us_index st)\<rparr>))"

definition list_users :: "user_store \<Rightarrow> nat \<Rightarrow> uuid option \<Rightarrow> user list" where
  "list_users st limit after = list_from_zset (us_users st) (us_index st) limit after"

section \<open>Lookup by identifier\<close>

definition is_user_not_found :: "mnemo_error \<Rightarrow> bool" where
  "is_user_not_found e =
     (case e of UserNotFound _ \<Rightarrow> True | NotFound t _ \<Rightarrow> eq_ignore_ascii_case t ''user'' | _ \<Rightarrow> False)"

definition user_named :: "string \<Rightarrow> user \<Rightarrow> bool" where
  "user_named identifier u = eq_ignore_ascii_case (u_name u) identifier"

definition find_user_by_name :: "string \<Rightarrow> user_store \<Rightarrow> user option option" where
  "find_user_by_name identifier st = scan_pages (list_users st 200) u_id 200 (user_named identifier) None"

text \<open>The outer option is that of the loop: \<open>None\<close> would be a loop that does not end.\<close>

definition find_user_by_identifier ::
  "(string \<Rightarrow> uuid option) \<Rightarrow> string \<Rightarrow> user_store \<Rightarrow> (mnemo_error + user) option" where
  "find_user_by_identifier parse_uuid identifier st =
     (let by_name = (case find_user_by_name identifier st of
            None \<Rightarrow> None
          | Some (Some u) \<Rightarrow> Some (Inr u)
          | Some None \<Rightarrow> Some (Inl (NotFound ''User'' identifier)));
          by_external_id = (case get_user_by_external_id identifier st of
            Inr u \<Rightarrow> Some (Inr u)
          | Inl e \<Rightarrow> if is_user_not_found e then by_name else Some (Inl e))
      in case parse_uuid identifier of
           Some i \<Rightarrow> (case get_user i st of
               Inr u \<Rightarrow> Some (Inr u)
             | Inl e \<Rightarrow> if is_user_not_found e then by_external_id else Some (Inl e))
         | None \<Rightarrow> by_external_id)"

definition find_user_with_access ::
  "(string \<Rightarrow> uuid option) \<Rightarrow> caller_context \<Rightarrow> string \<Rightarrow> user_store \<Rightarrow> (mnemo_error + user) option" where
  "find_user_with_access parse_uuid caller identifier st =
     (case find_user_by_identifier parse_uuid identifier st of
        None \<Rightarrow> None
      | Some (Inl e) \<Rightarrow> Some (Inl e)
      | Some (Inr u) \<Rightarrow> (case require_user_access caller (u_id u) of Inl e \<Rightarrow> Some (Inl e) | Inr _ \<Rightarrow> Some (Inr u)))"

section \<open>Invariants\<close>

abbreviation user_score :: "user \<Rightarrow> int" where
  "user_score u \<equiv> timestamp_millis (u_created_at u)"

definition users_ok :: "user_store \<Rightarrow> bool" where
  "users_ok st \<longleftrightarrow> bt_ok (us_users st) \<and> bt_ok (us_ext st) \<and>
     indexed u_id (\<lambda>_. True) user_score (us_users st) (us_index st)"

definition all_users :: "user_store \<Rightarrow> user list" where
  "all_users st = all_indexed (us_users st) (us_index st)"

lemma users_okD:
  assumes "users_ok st"
  shows "bt_ok (us_users st)" "bt_ok (us_ext st)" "indexed u_id (\<lambda>_. True) user_score (us_users st) (us_index st)"
    "map_of (us_users st) i = Some u \<Longrightarrow> u_id u = i"
  using assms by (auto simp: users_ok_def indexed_def)

lemma user_apply_update_simps [simp]:
  "u_id (user_apply_update u up now) = u_id u" "u_created_at (user_apply_update u up now) = u_created_at u"
  "u_external_id (user_apply_update u up now) =
     (case uu_external_id up of Some x \<Rightarrow> Some x | None \<Rightarrow> u_external_id u)"
  by (auto simp: user_apply_update_def Let_def split: option.split)

lemma users_ok_new: "users_ok user_store_new"
  by (simp add: users_ok_def user_store_new_def indexed_Nil)

lemma users_ok_create: "users_ok st \<Longrightarrow> users_ok (snd (create_user s req i now st))"
  using indexed_insert [of u_id "\<lambda>_. True" user_score "us_users st" "us_index st"]
  by (auto simp: create_user_def Let_def users_ok_def bt_ok_insert split: option.split)

lemma users_ok_update: "users_ok st \<Longrightarrow> users_ok (snd (update_user i req now st))"
  using users_okD(4) [of st i]
  by (auto simp: update_user_def get_user_def Let_def users_ok_def bt_ok_insert
      intro: indexed_update split: option.split)

lemma users_ok_delete: "users_ok st \<Longrightarrow> users_ok (snd (delete_user i st))"
  by (auto simp: delete_user_def get_user_def users_ok_def bt_ok_remove indexed_remove split: option.split)

interpretation user_pages: page_source list_users u_id user_score all_users users_ok
proof
  fix s and n :: nat and after d e xs ys
  assume "users_ok s"
  note ix = users_okD(3) [OF this]
  show "0 < n \<Longrightarrow> set (list_users s n after) \<subseteq> set (all_users s)"
    unfolding list_users_def all_users_def by (rule indexed_page_items [OF ix])
  show "d \<in> set (all_users s) \<Longrightarrow> e \<in> set (list_users s n (Some (u_id d))) \<Longrightarrow> user_score e < user_score d"
    unfolding list_users_def all_users_def by (rule indexed_page_below [OF ix])
  show "0 < n \<Longrightarrow> list_users s n None = take n (all_users s)"
    unfolding list_users_def all_users_def by (rule page_first [OF ix])
  show "distinct (map user_score (all_users s)) \<Longrightarrow> all_users s = xs @ d # ys \<Longrightarrow>
      list_users s n (Some (u_id d)) = take n ys"
    unfolding list_users_def all_users_def by (rule indexed_page_tail [OF ix])
qed

lemma set_all_users: "users_ok st \<Longrightarrow> set (all_users st) = ran (map_of (us_users st))"
  using set_all_indexed [OF users_okD(3)] by (simp add: all_users_def)

lemma find_user_by_name_total: "users_ok st \<Longrightarrow> \<exists>r. find_user_by_name identifier st = Some r"
  unfolding find_user_by_name_def by (rule user_pages.scan_total) simp_all

lemma find_user_by_name_sound:
  "users_ok st \<Longrightarrow> find_user_by_name identifier st = Some (Some u) \<Longrightarrow>
   map_of (us_users st) (u_id u) = Some u \<and> user_named identifier u"
  using user_pages.scan_sound [of st 200 200 "user_named identifier" None u] set_all_users [of st] users_okD(4)
  by (fastforce simp: find_user_by_name_def ran_def)

lemma find_user_by_name_exact:
  "users_ok st \<Longrightarrow> distinct (map user_score (all_users st)) \<Longrightarrow>
   find_user_by_name identifier st = Some (List.find (user_named identifier) (all_users st))"
  unfolding find_user_by_name_def by (rule user_pages.scan_exact) simp_all

section \<open>Properties\<close>

text \<open>The lookup by identifier always ends, although the loop over the pages of users has no
  bound of its own, and it is sound: the user it returns is stored, and either has the identifier
  as its id, or is the one the external-id index names, or has this name up to ASCII case; a user
  stored under the id takes precedence over the other two readings.\<close>

theorem find_user_terminates:
  assumes "users_ok st"
  shows "\<exists>r. find_user_by_identifier parse_uuid identifier st = Some r \<and>
    (\<forall>u. r = Inr u \<longrightarrow> map_of (us_users st) (u_id u) = Some u \<and>
      (parse_uuid identifier = Some (u_id u) \<or> map_of (us_ext st) identifier = Some (u_id u) \<or> user_named identifier u)) \<and>
    (\<forall>i u. parse_uuid identifier = Some i \<longrightarrow> map_of (us_users st) i = Some u \<longrightarrow> r = Inr u)"
proof -
  obtain o' where o': "find_user_by_name identifier st = Some o'" using find_user_by_name_total [OF assms] by blast
  have sound: "map_of (us_users st) (u_id u) = Some u \<and> user_named identifier u" if "o' = Some u" for u
    using find_user_by_name_sound [OF assms] o' that by blast
  note stored = users_okD(4) [OF assms]
  show ?thesis
    using o' sound
    by (auto simp: find_user_by_identifier_def Let_def get_user_def get_user_by_external_id_def is_user_not_found_def
        eq_ignore_ascii_case_def lowercase_def lower_char_def split: option.splits dest: stored)
qed

lemma find_user_terminates_witness:
  "\<exists>r. find_user_by_identifier (\<lambda>_. None) ''kendra''
     (snd (create_user (\<lambda>_. []) \<lparr>cu_id = Some 7, cu_external_id = None, cu_name = ''Kendra'', cu_email = None,
        cu_metadata = JNull\<rparr> 1 0 user_store_new)) = Some r"
  using find_user_terminates [OF users_ok_create [OF users_ok_new]] by blast

text \<open>Creation times decide what a walk over the pages sees. When no two users were created in the
  same millisecond, the search by name finds the newest user of this name, if any. But when the
  last user of a page and the one after it were created in the same millisecond, the next page
  skips the latter: it starts below the score of the cursor.\<close>

theorem user_pages_by_millisecond:
  assumes "users_ok st"
  shows "(distinct (map user_score (all_users st)) \<longrightarrow>
      find_user_by_name identifier st = Some (List.find (user_named identifier) (all_users st))) \<and>
    (all_users st = xs @ d # e # ys \<and> user_score d = user_score e \<and> n = length xs + 1 \<and>
      (\<forall>u \<in> set (xs @ d # ys). \<not> user_named identifier u) \<longrightarrow>
      e \<notin> set (list_users st n (Some (u_id d))) \<and>
      scan_pages (list_users st n) u_id n (user_named identifier) None = Some None)"
proof (intro conjI impI)
  show "find_user_by_name identifier st = Some (List.find (user_named identifier) (all_users st))"
    if "distinct (map user_score (all_users st))"
    using assms that by (rule find_user_by_name_exact)
next
  assume a: "all_users st = xs @ d # e # ys \<and> user_score d = user_score e \<and> n = length xs + 1 \<and>
      (\<forall>u \<in> set (xs @ d # ys). \<not> user_named identifier u)"
  have d: "d \<in> set (all_users st)" using a by simp
  show "e \<notin> set (list_users st n (Some (u_id d)))"
    using user_pages.page_below [OF assms d] a by fastforce
  have first: "list_users st n None = xs @ [d]"
    using user_pages.page_head [OF assms, of n] a by simp
  let ?rest = "scan_pages (list_users st n) u_id n (user_named identifier) (Some (u_id d))"
  obtain r where r: "?rest = Some r" using user_pages.scan_from_total [OF assms _ d] a by fastforce
  have "r = None"
  proof (cases r)
    case (Some x)
    have "user_score x < user_score d" using user_pages.scan_below [OF assms _ d] r Some a by fastforce
    moreover have "x \<in> set (all_users st) \<and> user_named identifier x"
      using user_pages.scan_sound [OF assms] r Some a by fastforce
    ultimately show ?thesis using a by auto
  qed
  with r first a show "scan_pages (list_users st n) u_id n (user_named identifier) None = Some None"
    by (subst scan_pages.simps) (auto simp: Let_def find_None_iff split: option.split dest!: find_mem)
qed

lemma user_pages_by_millisecond_witness:
  "scan_pages
     (list_users
       (snd (create_user (\<lambda>_. []) \<lparr>cu_id = Some 2, cu_external_id = None, cu_name = ''Ann'', cu_email = None,
           cu_metadata = JNull\<rparr> 0 5
         (snd (create_user (\<lambda>_. []) \<lparr>cu_id = Some 1, cu_external_id = None, cu_name = ''Bob'', cu_email = None,
           cu_metadata = JNull\<rparr> 0 5 user_store_new)))) 1) u_id 1 (user_named ''Bob'') None = Some None"
proof -
  have ok: "users_ok (snd (create_user (\<lambda>_. []) \<lparr>cu_id = Some 2, cu_external_id = None, cu_name = ''Ann'',
      cu_email = None, cu_metadata = JNull\<rparr> 0 5 (snd (create_user (\<lambda>_. []) \<lparr>cu_id = Some 1, cu_external_id = None,
      cu_name = ''Bob'', cu_email = None, cu_metadata = JNull\<rparr> 0 5 user_store_new))))"
    by (intro users_ok_create users_ok_new)
  show ?thesis
    by (rule user_pages_by_millisecond [where xs = "[]" and ys = "[]" and
          d = "\<lparr>u_id = 2, u_external_id = None, u_name = ''Ann'', u_email = None, u_metadata = JNull,
            u_created_at = 5, u_updated_at = 5\<rparr>" and
          e = "\<lparr>u_id = 1, u_external_id = None, u_name = ''Bob'', u_email = None, u_metadata = JNull,
            u_created_at = 5, u_updated_at = 5\<rparr>", OF ok, THEN conjunct2, THEN mp, THEN conjunct2])
      (simp add: create_user_def user_store_new_def user_from_request_def Let_def all_users_def all_indexed_def
        znewest_def zadd_def zrem_def List.map_filter_def user_named_def eq_ignore_ascii_case_def lowercase_def
        lower_char_def word_le_nat_alt)
qed

text \<open>The external-id index is not maintained when a user's external id changes, and one external
  id can be claimed again. After an update of \<open>x\<close> to \<open>y\<close>, the user is still found under \<open>x\<close>, not
  under \<open>y\<close>, and deleting it leaves the entry for \<open>x\<close> dangling; and a new user created with the
  external id \<open>x\<close> of another one takes over every lookup of \<open>x\<close>.\<close>

theorem external_id_index_stale:
  assumes "users_ok st" and "map_of (us_users st) i = Some u" and "map_of (us_ext st) x = Some i"
    and "uu_external_id req = Some y" and "x \<noteq> y" and "map_of (us_ext st) y = None"
    and "map_of (us_users st) (u_id (user_from_request creq k t)) = None" and "cu_external_id creq = Some x"
    and "st' = snd (update_user i req now st)"
  shows "get_user_by_external_id x st' = Inr (user_apply_update u req now) \<and>
    get_user_by_external_id y st' = Inl (NotFound ''User'' y) \<and>
    get_user_by_external_id x (snd (delete_user i st')) = Inl (UserNotFound i) \<and>
    get_user_by_external_id x (snd (create_user show_uuid creq k t st)) = Inr (user_from_request creq k t)"
proof -
  have st': "us_ext st' = us_ext st" "map_of (us_users st') i = Some (user_apply_update u req now)"
    using assms(2) by (simp_all add: assms(9) update_user_def get_user_def map_of_bt_insert Let_def)
  have del: "snd (delete_user i st') = st'\<lparr>us_users := bt_remove i (us_users st'), us_ext := bt_remove y (us_ext st'),
      us_index := zrem i (us_index st')\<rparr>"
    using st'(2) assms(4) by (simp add: delete_user_def get_user_def)
  show ?thesis
    using st' assms(3,5-8) unfolding del
    by (simp add: get_user_by_external_id_def get_user_def map_of_bt_remove create_user_def Let_def
        user_from_request_def map_of_bt_insert)
qed

lemma external_id_index_stale_witness:
  "get_user_by_external_id ''crm-1''
     (snd (update_user 7 \<lparr>uu_name = None, uu_email = None, uu_external_id = Some ''crm-2'', uu_metadata = None\<rparr> 9
       (snd (create_user (\<lambda>_. []) \<lparr>cu_id = Some 7, cu_external_id = Some ''crm-1'', cu_name = ''Kendra'',
          cu_email = None, cu_metadata = JNull\<rparr> 1 0 user_store_new)))) =
   Inr (user_apply_update \<lparr>u_id = 7, u_external_id = Some ''crm-1'', u_name = ''Kendra'',
        u_email = None, u_metadata = JNull, u_created_at = 0, u_updated_at = 0\<rparr>
      \<lparr>uu_name = None, uu_email = None, uu_external_id = Some ''crm-2'', uu_metadata = None\<rparr> 9)"
proof -
  have ok: "users_ok (snd (create_user (\<lambda>_. []) \<lparr>cu_id = Some 7, cu_external_id = Some ''crm-1'',
      cu_name = ''Kendra'', cu_email = None, cu_metadata = JNull\<rparr> 1 0 user_store_new))"
    by (intro users_ok_create users_ok_new)
  show ?thesis
    by (rule external_id_index_stale [where y = "''crm-2''" and creq = "\<lparr>cu_id = Some 8,
          cu_external_id = Some ''crm-1'', cu_name = [], cu_email = None, cu_metadata = JNull\<rparr>",
          OF ok, THEN conjunct1])
      (simp_all add: create_user_def user_store_new_def user_from_request_def Let_def)
qed

end
