(* ===== verification/Sessions.thy ===== *)
theory Sessions
  imports Users
begin

text \<open>
  Sessions: \<^verbatim>\<open>mnemo-core/src/models/session.rs\<close>, the session store of
  \<^verbatim>\<open>mnemo-storage/src/redis_store.rs\<close>, and the search by name and the walk over all
  sessions of \<^verbatim>\<open>mnemo-server/src/routes.rs\<close>.
\<close>

section \<open>Sessions\<close>

record session =
  s_id :: uuid
  s_user_id :: uuid
  s_agent_id :: "string option"
  s_name :: "string option"
  s_metadata :: json
  s_episode_count :: u64
  s_summary :: "string option"
  s_summary_tokens :: u32
  s_head_episode_id :: "uuid option"
  s_head_updated_at :: "timestamp option"
  s_head_version :: u64
  s_created_at :: timestamp
  s_updated_at :: timestamp
  s_last_activity_at :: "timestamp option"

record create_session_request =
  cs_id :: "uuid option"
  cs_user_id :: uuid
  cs_agent_id :: "string option"
  cs_name :: "string option"
  cs_metadata :: json

record update_session_request =
  us_name :: "string option"
  us_metadata :: "json option"
  us_summary :: "string option"
  us_summary_tokens :: "u32 option"

definition session_from_request :: "create_session_request \<Rightarrow> uuid \<Rightarrow> timestamp \<Rightarrow> session" where
  "session_from_request req new_id now =
     \<lparr>s_id = (case cs_id req of Some i \<Rightarrow> i | None \<Rightarrow> new_id), s_user_id = cs_user_id req,
      s_agent_id = cs_agent_id req, s_name = cs_name req, s_metadata = cs_metadata req,
      s_episode_count = 0, s_summary = None, s_summary_tokens = 0, s_head_episode_id = None,
      s_head_updated_at = None, s_head_version = 0, s_created_at = now, s_updated_at = now,
      s_last_activity_at = None\<rparr>"

definition session_apply_update :: "session \<Rightarrow> update_session_request \<Rightarrow> timestamp \<Rightarrow> session" where
  "session_apply_update s up now =
     (let s1 = (case us_name up of Some n \<Rightarrow> s\<lparr>s_name := Some n\<rparr> | None \<Rightarrow> s);
          s2 = (case us_metadata up of Some m \<Rightarrow> s1\<lparr>s_metadata := m\<rparr> | None \<Rightarrow> s1);
          s3 = (case us_summary up of Some x \<Rightarrow> s2\<lparr>s_summary := Some x\<rparr> | None \<Rightarrow> s2);
          s4 = (case us_summary_tokens up of Some t \<Rightarrow> s3\<lparr>s_summary_tokens := t\<rparr> | None \<Rightarrow> s3)
      in s4\<lparr>s_updated_at := now\<rparr>)"

text \<open>\<open>now1\<close> and \<open>now2\<close> are the two readings of the clock.\<close>

definition record_episode :: "session \<Rightarrow> uuid \<Rightarrow> timestamp \<Rightarrow> timestamp \<Rightarrow> timestamp \<Rightarrow> session" where
  "record_episode s episode_id event_time now1 now2 =
     s\<lparr>s_episode_count := s_episode_count s + 1, s_last_activity_at := Some now1,
       s_head_episode_id := Some episode_id, s_head_updated_at := Some event_time,
       s_head_version := s_head_version s + 1, s_updated_at := now2\<rparr>"

section \<open>The store\<close>

text \<open>
  \<^verbatim>\<open>session:{id}\<close> and the indexes \<^verbatim>\<open>user_sessions:{user}\<close>, \<^verbatim>\<open>agent_sessions:{agent}\<close>.
\<close>

record session_store =
  ss_users :: user_store
  ss_sessions :: "(uuid, session) btree_map"
  ss_by_user :: "(uuid, uuid zset) btree_map"
  ss_by_agent :: "(string, uuid zset) btree_map"

definition session_store_new :: "user_store \<Rightarrow> session_store" where
  "session_store_new users = \<lparr>ss_users = users, ss_sessions = [], ss_by_user = [], ss_by_agent = []\<rparr>"

abbreviation session_score :: "session \<Rightarrow> int" where
  "session_score s \<equiv> timestamp_millis (s_created_at s)"

definition create_session ::
  "create_session_request \<Rightarrow> uuid \<Rightarrow> timestamp \<Rightarrow> session_store \<Rightarrow> (mnemo_error + session) \<times> session_store" where
  "create_session req new_id now st =
     (case get_user (cs_user_id req) (ss_users st) of
        Inl e \<Rightarrow> (Inl e, st)
      | Inr _ \<Rightarrow>
        let s = session_from_request req new_id now in
        (Inr s,
         st\<lparr>ss_sessions := bt_insert (s_id s) s (ss_sessions st),
            ss_by_user := bt_upsert [] (zadd (session_score s) (s_id s)) (s_user_id s) (ss_by_user st),
            ss_by_agent := (case s_agent_id s of
                Some a \<Rightarrow> bt_upsert [] (zadd (session_score s) (s_id s)) a (ss_by_agent st)
              | None \<Rightarrow> ss_by_agent st)\<rparr>))"

definition get_session :: "uuid \<Rightarrow> session_store \<Rightarrow> mnemo_error + session" where
  "get_session i st = (case map_of (ss_sessions st) i of Some s \<Rightarrow> Inr s | None \<Rightarrow> Inl (SessionNotFound i))"

definition update_session ::
  "uuid \<Rightarrow> update_session_request \<Rightarrow> timestamp \<Rightarrow> session_store \<Rightarrow> (mnemo_error + session) \<times> session_store" where
  "update_session i req now st =
     (case get_session i st of
        Inl e \<Rightarrow> (Inl e, st)
      | Inr s \<Rightarrow>
        let s' = session_apply_update s req now
        in (Inr s', st\<lparr>ss_sessions := bt_insert i s' (ss_sessions st)\<rparr>))"

definition delete_session :: "uuid \<Rightarrow> session_store \<Rightarrow> (mnemo_error + unit) \<times> session_store" where
  "delete_session i st =
     (case get_session i st of
        Inl e \<Rightarrow> (Inl e, st)
      | Inr s \<Rightarrow>
        (Inr (),
         st\<lparr>ss_sessions := bt_remove i (ss_sessions st),
            ss_by_user := bt_upsert [] (zrem i) (s_user_id s) (ss_by_user st),
            ss_by_agent := (case s_agent_id s of
                Some a \<Rightarrow> bt_upsert [] (zrem i) a (ss_by_agent st) | None \<Rightarrow> ss_by_agent st)\<rparr>))"

definition list_sessions :: "uuid \<Rightarrow> session_store \<Rightarrow> nat \<Rightarrow> uuid option \<Rightarrow> session list" where
  "list_sessions u st limit after = list_from_zset (ss_sessions st) (bt_get_or [] (ss_by_user st) u) limit after"

section \<open>Search and walk\<close>

definition is_session_not_found :: "mnemo_error \<Rightarrow> bool" where
  "is_session_not_found e =
     (case e of SessionNotFound _ \<Rightarrow> True | NotFound t _ \<Rightarrow> eq_ignore_ascii_case t ''session'' | _ \<Rightarrow> False)"

lemma session_not_found_named [simp]: "is_session_not_found (NotFound ''Session'' x)"
proof -
  have "eq_ignore_ascii_case ''Session'' ''session''" by code_simp
  then show ?thesis by (simp add: is_session_not_found_def)
qed

definition session_named :: "string \<Rightarrow> session \<Rightarrow> bool" where
  "session_named name s = (case s_name s of Some n \<Rightarrow> eq_ignore_ascii_case n name | None \<Rightarrow> False)"

definition find_session_by_name ::
  "(uuid \<Rightarrow> string) \<Rightarrow> uuid \<Rightarrow> string \<Rightarrow> session_store \<Rightarrow> (mnemo_error + session) option" where
  "find_session_by_name show_uuid u name st =
     (case scan_pages (list_sessions u st 200) s_id 200 (session_named name) None of
        None \<Rightarrow> None
      | Some (Some s) \<Rightarrow> Some (Inr s)
      | Some None \<Rightarrow> Some (Inl (NotFound ''Session'' (show_uuid u @ '':'' @ name))))"

definition find_or_create_session ::
  "(uuid \<Rightarrow> string) \<Rightarrow> uuid \<Rightarrow> string \<Rightarrow> uuid \<Rightarrow> timestamp \<Rightarrow> session_store \<Rightarrow>
   ((mnemo_error + session) \<times> session_store) option" where
  "find_or_create_session show_uuid u name new_id now st =
     (case find_session_by_name show_uuid u name st of
        None \<Rightarrow> None
      | Some (Inr s) \<Rightarrow> Some (Inr s, st)
      | Some (Inl e) \<Rightarrow>
        if is_session_not_found e then
          Some (create_session \<lparr>cs_id = None, cs_user_id = u, cs_agent_id = None, cs_name = Some name,
                                cs_metadata = JObject []\<rparr> new_id now st)
        else Some (Inl e, st))"

definition list_all_sessions_for_user :: "uuid \<Rightarrow> session_store \<Rightarrow> session list option" where
  "list_all_sessions_for_user u st = collect_pages (list_sessions u st 500) s_id 20000 None []"

section \<open>Invariants\<close>

definition sessions_ok :: "session_store \<Rightarrow> bool" where
  "sessions_ok st \<longleftrightarrow> users_ok (ss_users st) \<and> bt_ok (ss_sessions st) \<and> bt_ok (ss_by_user st) \<and>
     (\<forall>u. indexed s_id (\<lambda>s. s_user_id s = u) session_score (ss_sessions st) (bt_get_or [] (ss_by_user st) u))"

lemma sessions_okD:
  assumes "sessions_ok st"
  shows "users_ok (ss_users st)" "bt_ok (ss_sessions st)" "bt_ok (ss_by_user st)"
    "indexed s_id (\<lambda>s. s_user_id s = u) session_score (ss_sessions st) (bt_get_or [] (ss_by_user st) u)"
    "map_of (ss_sessions st) i = Some s \<Longrightarrow> s_id s = i"
  using assms by (auto simp: sessions_ok_def indexed_def)

lemma session_from_request_simps [simp]:
  "s_id (session_from_request req i now) = (case cs_id req of Some j \<Rightarrow> j | None \<Rightarrow> i)"
  "s_user_id (session_from_request req i now) = cs_user_id req"
  "s_created_at (session_from_request req i now) = now"
  "s_name (session_from_request req i now) = cs_name req"
  "s_agent_id (session_from_request req i now) = cs_agent_id req"
  by (simp_all add: session_from_request_def)

lemma session_apply_update_simps [simp]:
  "s_id (session_apply_update s up now) = s_id s" "s_created_at (session_apply_update s up now) = s_created_at s"
  "s_user_id (session_apply_update s up now) = s_user_id s"
  by (auto simp: session_apply_update_def Let_def split: option.split)

lemma sessions_ok_new: "users_ok us \<Longrightarrow> sessions_ok (session_store_new us)"
  by (simp add: sessions_ok_def session_store_new_def indexed_Nil)

text \<open>Creation keeps the indexes when the identifier is not taken by a session of another user.\<close>

lemma sessions_ok_create:
  assumes ok: "sessions_ok st"
    and own: "\<forall>s. map_of (ss_sessions st) (s_id (session_from_request req i now)) = Some s \<longrightarrow> s_user_id s = cs_user_id req"
  shows "sessions_ok (snd (create_session req i now st))"
proof (cases "get_user (cs_user_id req) (ss_users st)")
  case (Inr u)
  let ?s = "session_from_request req i now"
  let ?t = "snd (create_session req i now st)"
  have ixs: "indexed s_id (\<lambda>s. s_user_id s = v) session_score (bt_insert (s_id ?s) ?s (ss_sessions st))
      (if v = cs_user_id req then zadd (session_score ?s) (s_id ?s) (bt_get_or [] (ss_by_user st) v)
       else bt_get_or [] (ss_by_user st) v)" for v
  proof (cases "v = cs_user_id req")
    case True
    with indexed_insert [OF sessions_okD(4) [OF ok, of v], of ?s "s_id ?s"] show ?thesis by simp
  next
    case False
    with indexed_insert_other [OF sessions_okD(4) [OF ok, of v], of ?s "s_id ?s"] own show ?thesis by auto
  qed
  have t: "ss_users ?t = ss_users st" "ss_sessions ?t = bt_insert (s_id ?s) ?s (ss_sessions st)" "bt_ok (ss_by_user ?t)"
    using Inr sessions_okD(3) [OF ok] by (simp_all add: create_session_def Let_def)
  have look: "bt_get_or [] (ss_by_user ?t) v = (if v = cs_user_id req
      then zadd (session_score ?s) (s_id ?s) (bt_get_or [] (ss_by_user st) v) else bt_get_or [] (ss_by_user st) v)" for v
    using Inr by (simp add: create_session_def Let_def)
  show ?thesis
    unfolding sessions_ok_def t(1,2) look
    by (intro conjI allI ixs t(3) sessions_okD(1) [OF ok] bt_ok_insert sessions_okD(2) [OF ok])
qed (simp add: create_session_def ok)

lemma sessions_ok_set:
  "sessions_ok st \<Longrightarrow> map_of (ss_sessions st) i = Some s \<Longrightarrow> s_id s' = s_id s \<Longrightarrow> s_user_id s' = s_user_id s \<Longrightarrow>
   s_created_at s' = s_created_at s \<Longrightarrow> sessions_ok (st\<lparr>ss_sessions := bt_insert i s' (ss_sessions st)\<rparr>)"
  using sessions_okD(5) [of st i s]
  by (auto simp: sessions_ok_def bt_ok_insert intro!: indexed_update)

lemma sessions_ok_update: "sessions_ok st \<Longrightarrow> sessions_ok (snd (update_session i req now st))"
  by (auto simp: update_session_def get_session_def Let_def intro: sessions_ok_set split: option.split)

lemma sessions_ok_delete:
  assumes ok: "sessions_ok st"
  shows "sessions_ok (snd (delete_session i st))"
proof (cases "map_of (ss_sessions st) i")
  case (Some s)
  let ?t = "snd (delete_session i st)"
  have ixs: "indexed s_id (\<lambda>s. s_user_id s = v) session_score (bt_remove i (ss_sessions st))
      (if v = s_user_id s then zrem i (bt_get_or [] (ss_by_user st) v) else bt_get_or [] (ss_by_user st) v)" for v
    using indexed_remove [OF sessions_okD(4) [OF ok, of v], of i]
      indexed_remove_other [OF sessions_okD(4) [OF ok, of v], of i] Some by auto
  have t: "ss_users ?t = ss_users st" "ss_sessions ?t = bt_remove i (ss_sessions st)" "bt_ok (ss_by_user ?t)"
    using Some sessions_okD(3) [OF ok] by (simp_all add: delete_session_def get_session_def)
  have look: "bt_get_or [] (ss_by_user ?t) v =
      (if v = s_user_id s then zrem i (bt_get_or [] (ss_by_user st) v) else bt_get_or [] (ss_by_user st) v)" for v
    using Some by (simp add: delete_session_def get_session_def)
  show ?thesis
    unfolding sessions_ok_def t(1,2) look
    by (intro conjI allI ixs t(3) sessions_okD(1) [OF ok] bt_ok_remove sessions_okD(2) [OF ok])
qed (simp add: delete_session_def get_session_def ok)

definition user_sessions :: "uuid \<Rightarrow> session_store \<Rightarrow> session list" where
  "user_sessions u st = all_indexed (ss_sessions st) (bt_get_or [] (ss_by_user st) u)"

interpretation session_pages: page_source "\<lambda>(u, st). list_sessions u st" s_id session_score
  "\<lambda>(u, st). user_sessions u st" "\<lambda>(u, st). sessions_ok st"
proof
  fix us :: "uuid \<times> session_store" and n :: nat and after d e xs ys
  assume inv: "case us of (u, st) \<Rightarrow> sessions_ok st"
  obtain u st where us: "us = (u, st)" by (cases us)
  have ix: "indexed s_id (\<lambda>s. s_user_id s = u) session_score (ss_sessions st) (bt_get_or [] (ss_by_user st) u)"
    using inv us by (simp add: sessions_okD(4))
  show "0 < n \<Longrightarrow> set ((case us of (u, st) \<Rightarrow> list_sessions u st) n after) \<subseteq> set (case us of (u, st) \<Rightarrow> user_sessions u st)"
    unfolding us list_sessions_def user_sessions_def prod.case by (rule indexed_page_items [OF ix])
  show "d \<in> set (case us of (u, st) \<Rightarrow> user_sessions u st) \<Longrightarrow>
      e \<in> set ((case us of (u, st) \<Rightarrow> list_sessions u st) n (Some (s_id d))) \<Longrightarrow> session_score e < session_score d"
    unfolding us list_sessions_def user_sessions_def prod.case by (rule indexed_page_below [OF ix])
  show "0 < n \<Longrightarrow> (case us of (u, st) \<Rightarrow> list_sessions u st) n None = take n (case us of (u, st) \<Rightarrow> user_sessions u st)"
    unfolding us list_sessions_def user_sessions_def prod.case by (rule page_first [OF ix])
  show "distinct (map session_score (case us of (u, st) \<Rightarrow> user_sessions u st)) \<Longrightarrow>
      (case us of (u, st) \<Rightarrow> user_sessions u st) = xs @ d # ys \<Longrightarrow>
      (case us of (u, st) \<Rightarrow> list_sessions u st) n (Some (s_id d)) = take n ys"
    unfolding us list_sessions_def user_sessions_def prod.case by (rule indexed_page_tail [OF ix])
qed

lemma set_user_sessions:
  "sessions_ok st \<Longrightarrow> set (user_sessions u st) = {s \<in> ran (map_of (ss_sessions st)). s_user_id s = u}"
  using set_all_indexed [OF sessions_okD(4)] by (simp add: user_sessions_def)

section \<open>Properties\<close>

text \<open>Finding or creating a session by name always returns; the session it answers belongs to the
  user and carries the name up to ASCII case, an existing one is answered without any change of
  the store, and otherwise it fails only because the user does not exist.\<close>

theorem find_or_create_session_correct:
  assumes "sessions_ok st"
  shows "\<exists>r st'. find_or_create_session show_uuid u name new_id now st = Some (r, st') \<and>
    (\<forall>s. r = Inr s \<longrightarrow> s_user_id s = u \<and> session_named name s \<and> map_of (ss_sessions st') (s_id s) = Some s) \<and>
    (\<forall>s. r = Inr s \<longrightarrow> st' = st \<or> s_id s = new_id \<and> s_name s = Some name \<and> s_episode_count s = 0) \<and>
    (\<forall>e. r = Inl e \<longrightarrow> e = UserNotFound u \<and> st' = st)"
proof -
  have inv: "case (u, st) of (u, st) \<Rightarrow> sessions_ok st" using assms by simp
  obtain o' where o': "scan_pages (list_sessions u st 200) s_id 200 (session_named name) None = Some o'"
    using session_pages.scan_total [OF inv, of 200 200 "session_named name"] by auto
  show ?thesis
  proof (cases o')
    case (Some s)
    have mem: "s \<in> set (user_sessions u st) \<and> session_named name s"
      using session_pages.scan_sound [OF inv, of 200 200 "session_named name" None s] o' Some by simp
    then have "s_user_id s = u" "map_of (ss_sessions st) (s_id s) = Some s"
      using set_user_sessions [OF assms] sessions_okD(5) [OF assms] by (auto simp: ran_def)
    with mem o' Some show ?thesis
      by (simp add: find_or_create_session_def find_session_by_name_def)
  next
    case None
    then show ?thesis
      using o' by (auto simp: find_or_create_session_def find_session_by_name_def create_session_def get_user_def Let_def
          map_of_bt_insert session_named_def eq_ignore_ascii_case_def session_from_request_def split: option.split)
  qed
qed

lemma find_or_create_session_correct_witness:
  "\<exists>r st'. find_or_create_session (\<lambda>_. []) 1 ''chat'' 2 0 (session_store_new user_store_new) = Some (r, st')"
  using find_or_create_session_correct [OF sessions_ok_new [OF users_ok_new]] by blast

text \<open>The walk over all sessions of a user ends, and when no two of them were created in the same
  millisecond and there are at most 20000, it lists exactly the user's sessions, newest first.\<close>

theorem list_all_sessions_exact:
  assumes "sessions_ok st"
  shows "list_all_sessions_for_user u st \<noteq> None \<and>
    (distinct (map session_score (user_sessions u st)) \<and> length (user_sessions u st) \<le> 20000 \<longrightarrow>
      list_all_sessions_for_user u st = Some (user_sessions u st) \<and>
      set (user_sessions u st) = {s \<in> ran (map_of (ss_sessions st)). s_user_id s = u})"
proof -
  have inv: "case (u, st) of (u, st) \<Rightarrow> sessions_ok st" using assms by simp
  have "\<exists>r. list_all_sessions_for_user u st = Some r"
    using session_pages.collect_total [OF inv, of 500 20000] by (simp add: list_all_sessions_for_user_def)
  then show ?thesis
    using session_pages.collect_exact [OF inv, of 500 20000] set_user_sessions [OF assms]
    by (auto simp: list_all_sessions_for_user_def)
qed

lemma list_all_sessions_exact_witness:
  "list_all_sessions_for_user 1 (session_store_new user_store_new) = Some []"
  using list_all_sessions_exact [OF sessions_ok_new [OF users_ok_new], of 1]
  by (simp add: user_sessions_def session_store_new_def all_indexed_def znewest_def List.map_filter_def)

text \<open>Creating a session with a client-chosen identifier overwrites whatever session has it: the
  session of another user is replaced, listed under both users, and its content, head and counters
  are gone.\<close>

theorem create_session_overwrites:
  assumes "sessions_ok st" and "map_of (ss_sessions st) i = Some victim" and "s_user_id victim \<noteq> cs_user_id req"
    and "cs_id req = Some i" and "map_of (us_users (ss_users st)) (cs_user_id req) = Some attacker"
    and "st' = snd (create_session req new_id now st)"
  shows "map_of (ss_sessions st') i = Some (session_from_request req new_id now) \<and>
    session_from_request req new_id now \<in> set (user_sessions (s_user_id victim) st') \<and> \<not> sessions_ok st'"
proof -
  let ?s = "session_from_request req new_id now"
  let ?z = "bt_get_or [] (ss_by_user st) (s_user_id victim)"
  have st': "ss_sessions st' = bt_insert i ?s (ss_sessions st)"
    "bt_get_or [] (ss_by_user st') (s_user_id victim) = ?z"
    using assms(3-6) by (simp_all add: create_session_def get_user_def Let_def)
  have ix: "indexed s_id (\<lambda>s. s_user_id s = s_user_id victim) session_score (ss_sessions st) ?z"
    by (rule sessions_okD(4) [OF assms(1)])
  then have z: "zset_ok ?z" by (simp add: indexed_def)
  have "zscore ?z i = Some (session_score victim)"
    using assms(2) by (subst indexed_score [OF ix]) simp
  then have "i \<in> set (znewest ?z)" by (metis domI zset.set_newest z)
  then have mem: "?s \<in> set (user_sessions (s_user_id victim) st')"
    using st' by (force simp: user_sessions_def all_indexed_def List.map_filter_def map_of_bt_insert)
  moreover have "\<not> sessions_ok st'"
    using mem set_user_sessions [of st' "s_user_id victim"] assms(3) by auto
  ultimately show ?thesis using st' by (simp add: map_of_bt_insert)
qed

lemma create_session_overwrites_witness:
  "\<not> sessions_ok (snd (create_session \<lparr>cs_id = Some 9, cs_user_id = 2, cs_agent_id = None, cs_name = None,
       cs_metadata = JNull\<rparr> 0 6
     (snd (create_session \<lparr>cs_id = Some 9, cs_user_id = 1, cs_agent_id = None, cs_name = None, cs_metadata = JNull\<rparr> 0 5
       (session_store_new
         (snd (create_user (\<lambda>_. []) \<lparr>cu_id = Some 2, cu_external_id = None, cu_name = ''Ann'', cu_email = None,
             cu_metadata = JNull\<rparr> 0 4
           (snd (create_user (\<lambda>_. []) \<lparr>cu_id = Some 1, cu_external_id = None, cu_name = ''Bob'', cu_email = None,
             cu_metadata = JNull\<rparr> 0 3 user_store_new)))))))))"
proof -
  let ?us = "snd (create_user (\<lambda>_. []) \<lparr>cu_id = Some 2, cu_external_id = None, cu_name = ''Ann'', cu_email = None,
      cu_metadata = JNull\<rparr> 0 4 (snd (create_user (\<lambda>_. []) \<lparr>cu_id = Some 1, cu_external_id = None,
      cu_name = ''Bob'', cu_email = None, cu_metadata = JNull\<rparr> 0 3 user_store_new)))"
  let ?st = "snd (create_session \<lparr>cs_id = Some 9, cs_user_id = 1, cs_agent_id = None, cs_name = None,
      cs_metadata = JNull\<rparr> 0 5 (session_store_new ?us))"
  have "users_ok ?us" by (intro users_ok_create users_ok_new)
  then have ok: "sessions_ok ?st"
    by (intro sessions_ok_create sessions_ok_new) (simp_all add: session_store_new_def)
  show ?thesis
    by (rule create_session_overwrites [where st = ?st and i = 9 and victim = "session_from_request
          \<lparr>cs_id = Some 9, cs_user_id = 1, cs_agent_id = None, cs_name = None, cs_metadata = JNull\<rparr> 0 5", OF ok, THEN conjunct2, THEN conjunct2, OF _ _ _ _ refl])
      (simp_all add: create_session_def session_store_new_def get_user_def Let_def create_user_def user_store_new_def
        user_from_request_def session_from_request_def word_less_nat_alt)
qed

end
