(* ===== verification/Episodes.thy ===== *)
theory Episodes
  imports Sessions
begin

text \<open>
  Episodes: \<^verbatim>\<open>mnemo-core/src/models/episode.rs\<close>, the episode store of
  \<^verbatim>\<open>mnemo-storage/src/redis_store.rs\<close> with its indexes and its pending queue, the lookup by
  request id, and the failure handling of \<^verbatim>\<open>mnemo-ingest/src/lib.rs\<close>. \<open>show_uuid\<close> and
  \<open>parse_uuid\<close> stand for the \<^verbatim>\<open>uuid\<close> crate.
\<close>

section \<open>Episodes\<close>

datatype episode_type = EtMessage | EtJson | EtText

datatype message_role = MrUser | MrAssistant | MrSystem | MrTool

datatype modality = MText | MImage | MAudio | MVideo | MDocument

datatype processing_status = PsPending | PsProcessing | PsCompleted | PsFailed | PsSkipped

record episode =
  e_id :: uuid
  e_session_id :: uuid
  e_user_id :: uuid
  e_agent_id :: "string option"
  e_type :: episode_type
  e_content :: string
  e_role :: "message_role option"
  e_name :: "string option"
  e_metadata :: json
  e_created_at :: timestamp
  e_ingested_at :: timestamp
  e_status :: processing_status
  e_error :: "string option"
  e_entity_ids :: "uuid list"
  e_edge_ids :: "uuid list"
  e_retry_count :: u32
  e_modality :: modality
  e_attachment_ids :: "uuid list"
  e_parent_document_id :: "uuid option"
  e_document_location :: "string option"

record create_episode_request =
  ce_id :: "uuid option"
  ce_type :: episode_type
  ce_content :: string
  ce_role :: "message_role option"
  ce_name :: "string option"
  ce_agent_id :: "string option"
  ce_metadata :: json
  ce_created_at :: "timestamp option"
  ce_modality :: modality

definition episode_from_request ::
  "create_episode_request \<Rightarrow> uuid \<Rightarrow> uuid \<Rightarrow> string option \<Rightarrow> uuid \<Rightarrow> timestamp \<Rightarrow> episode" where
  "episode_from_request req session_id user_id agent_id new_id now =
     \<lparr>e_id = (case ce_id req of Some i \<Rightarrow> i | None \<Rightarrow> new_id), e_session_id = session_id, e_user_id = user_id,
      e_agent_id = (case ce_agent_id req of Some a \<Rightarrow> Some a | None \<Rightarrow> agent_id), e_type = ce_type req,
      e_content = ce_content req, e_role = ce_role req, e_name = ce_name req, e_metadata = ce_metadata req,
      e_created_at = (case ce_created_at req of Some t \<Rightarrow> t | None \<Rightarrow> now), e_ingested_at = now,
      e_status = PsPending, e_error = None, e_entity_ids = [], e_edge_ids = [], e_retry_count = 0,
      e_modality = ce_modality req, e_attachment_ids = [], e_parent_document_id = None,
      e_document_location = None\<rparr>"

definition from_multimodal :: "uuid \<Rightarrow> uuid \<Rightarrow> modality \<Rightarrow> string \<Rightarrow> uuid \<Rightarrow> uuid \<Rightarrow> timestamp \<Rightarrow> episode" where
  "from_multimodal session_id user_id modality content attachment_id new_id now =
     \<lparr>e_id = new_id, e_session_id = session_id, e_user_id = user_id, e_agent_id = None, e_type = EtText,
      e_content = content, e_role = None, e_name = None, e_metadata = JNull, e_created_at = now,
      e_ingested_at = now, e_status = PsPending, e_error = None, e_entity_ids = [], e_edge_ids = [],
      e_retry_count = 0, e_modality = modality, e_attachment_ids = [attachment_id],
      e_parent_document_id = None, e_document_location = None\<rparr>"

definition from_document_chunk :: "uuid \<Rightarrow> uuid \<Rightarrow> string \<Rightarrow> uuid \<Rightarrow> string \<Rightarrow> uuid \<Rightarrow> timestamp \<Rightarrow> episode" where
  "from_document_chunk session_id user_id content parent_document_id document_location new_id now =
     \<lparr>e_id = new_id, e_session_id = session_id, e_user_id = user_id, e_agent_id = None, e_type = EtText,
      e_content = content, e_role = None, e_name = None, e_metadata = JNull, e_created_at = now,
      e_ingested_at = now, e_status = PsPending, e_error = None, e_entity_ids = [], e_edge_ids = [],
      e_retry_count = 0, e_modality = MDocument, e_attachment_ids = [parent_document_id],
      e_parent_document_id = Some parent_document_id, e_document_location = Some document_location\<rparr>"

definition add_attachment :: "episode \<Rightarrow> uuid \<Rightarrow> episode" where
  "add_attachment e a =
     (if a \<notin> set (e_attachment_ids e) then e\<lparr>e_attachment_ids := e_attachment_ids e @ [a]\<rparr> else e)"

definition should_process :: "episode \<Rightarrow> bool" where
  "should_process e =
     (if trim (e_content e) = [] then False else if e_role e = Some MrSystem then False else True)"

definition mark_processing :: "episode \<Rightarrow> episode" where
  "mark_processing e = e\<lparr>e_status := PsProcessing\<rparr>"

definition mark_completed :: "episode \<Rightarrow> uuid list \<Rightarrow> uuid list \<Rightarrow> episode" where
  "mark_completed e entity_ids edge_ids =
     e\<lparr>e_status := PsCompleted, e_entity_ids := entity_ids, e_edge_ids := edge_ids, e_error := None\<rparr>"

definition mark_failed :: "episode \<Rightarrow> string \<Rightarrow> episode" where
  "mark_failed e error = e\<lparr>e_status := PsFailed, e_error := Some error\<rparr>"

definition mark_skipped :: "episode \<Rightarrow> episode" where
  "mark_skipped e = e\<lparr>e_status := PsSkipped\<rparr>"

text \<open>The delay \<^verbatim>\<open>500u64 * 2u64.pow(retry_count - 1)\<close> wraps around.\<close>

definition requeue_for_retry :: "episode \<Rightarrow> string \<Rightarrow> u32 \<Rightarrow> u64 option \<times> episode" where
  "requeue_for_retry e error max_retries =
     (if e_retry_count e \<ge> max_retries then (None, mark_failed e error)
      else
        let e' = e\<lparr>e_retry_count := e_retry_count e + 1, e_status := PsPending, e_error := Some error\<rparr>
        in (Some (500 * 2 ^ unat (e_retry_count e' - 1)), e'))"

section \<open>The store\<close>

text \<open>
  \<^verbatim>\<open>episode:{id}\<close>, the indexes \<^verbatim>\<open>session_episodes:{session}\<close>,
  \<^verbatim>\<open>rid_episodes:{request_id}\<close> and \<^verbatim>\<open>agent_episodes:{agent}\<close>, and the queue
  \<^verbatim>\<open>pending_episodes\<close>.
\<close>

record episode_store =
  ep_base :: session_store
  ep_episodes :: "(uuid, episode) btree_map"
  ep_by_session :: "(uuid, uuid zset) btree_map"
  ep_pending :: "uuid zset"
  ep_rid :: "(string, string zset) btree_map"
  ep_by_agent :: "(string, uuid zset) btree_map"

definition episode_store_new :: "session_store \<Rightarrow> episode_store" where
  "episode_store_new b =
     \<lparr>ep_base = b, ep_episodes = [], ep_by_session = [], ep_pending = [], ep_rid = [], ep_by_agent = []\<rparr>"

abbreviation episode_score :: "episode \<Rightarrow> int" where
  "episode_score e \<equiv> timestamp_millis (e_created_at e)"

text \<open>\<^verbatim>\<open>metadata.get("request_id")\<close> as a string, trimmed, unless blank.\<close>

definition episode_request_id :: "episode \<Rightarrow> string option" where
  "episode_request_id e =
     (case e_metadata e of
        JObject m \<Rightarrow> (case map_of m ''request_id'' of
            Some (JString s) \<Rightarrow> (let t = trim s in if t = [] then None else Some t)
          | _ \<Rightarrow> None)
      | _ \<Rightarrow> None)"

definition rid_member :: "(uuid \<Rightarrow> string) \<Rightarrow> uuid \<Rightarrow> uuid \<Rightarrow> uuid \<Rightarrow> string" where
  "rid_member show_uuid episode user session = show_uuid episode @ '':'' @ show_uuid user @ '':'' @ show_uuid session"

text \<open>The writes come before the session is read: they stay when it does not exist.\<close>

definition create_episode ::
  "(uuid \<Rightarrow> string) \<Rightarrow> create_episode_request \<Rightarrow> uuid \<Rightarrow> uuid \<Rightarrow> string option \<Rightarrow> uuid \<Rightarrow> timestamp \<Rightarrow> timestamp \<Rightarrow>
   timestamp \<Rightarrow> episode_store \<Rightarrow> (mnemo_error + episode) \<times> episode_store" where
  "create_episode show_uuid req session_id user_id agent_id new_id now now1 now2 st =
     (let e = episode_from_request req session_id user_id agent_id new_id now;
          st1 = st\<lparr>ep_episodes := bt_insert (e_id e) e (ep_episodes st),
                   ep_by_session := bt_upsert [] (zadd (episode_score e) (e_id e)) session_id (ep_by_session st),
                   ep_pending := (if should_process e then zadd (timestamp_millis (e_ingested_at e)) (e_id e) (ep_pending st)
                                  else ep_pending st)\<rparr>
      in case get_session session_id (ep_base st1) of
           Inl err \<Rightarrow> (Inl err, st1)
         | Inr s \<Rightarrow>
           let s' = record_episode s (e_id e) (e_created_at e) now1 now2;
               b = (ep_base st1)\<lparr>ss_sessions := bt_insert session_id s' (ss_sessions (ep_base st1))\<rparr>
           in (Inr e,
               st1\<lparr>ep_base := b,
                   ep_rid := (case episode_request_id e of
                       Some rid \<Rightarrow> bt_upsert [] (zadd (episode_score e) (rid_member show_uuid (e_id e) user_id session_id)) rid (ep_rid st1)
                     | None \<Rightarrow> ep_rid st1),
                   ep_by_agent := (case e_agent_id e of
                       Some a \<Rightarrow> bt_upsert [] (zadd (episode_score e) (e_id e)) a (ep_by_agent st1)
                     | None \<Rightarrow> ep_by_agent st1)\<rparr>))"

text \<open>One element of \<open>inputs\<close> per request: the request, the generated id and the three times.\<close>

fun create_episodes_batch ::
  "(uuid \<Rightarrow> string) \<Rightarrow> uuid \<Rightarrow> uuid \<Rightarrow> string option \<Rightarrow>
   (create_episode_request \<times> uuid \<times> timestamp \<times> timestamp \<times> timestamp) list \<Rightarrow> episode_store \<Rightarrow>
   (mnemo_error + episode list) \<times> episode_store" where
  "create_episodes_batch show_uuid session_id user_id agent_id [] st = (Inr [], st)"
| "create_episodes_batch show_uuid session_id user_id agent_id ((req, i, now, now1, now2) # inputs) st =
     (case create_episode show_uuid req session_id user_id agent_id i now now1 now2 st of
        (Inl e, st') \<Rightarrow> (Inl e, st')
      | (Inr ep, st') \<Rightarrow>
        (case create_episodes_batch show_uuid session_id user_id agent_id inputs st' of
           (Inl e, st'') \<Rightarrow> (Inl e, st'')
         | (Inr eps, st'') \<Rightarrow> (Inr (ep # eps), st'')))"

definition get_episode :: "uuid \<Rightarrow> episode_store \<Rightarrow> mnemo_error + episode" where
  "get_episode i st = (case map_of (ep_episodes st) i of Some e \<Rightarrow> Inr e | None \<Rightarrow> Inl (EpisodeNotFound i))"

definition update_episode :: "episode \<Rightarrow> episode_store \<Rightarrow> episode_store" where
  "update_episode e st = st\<lparr>ep_episodes := bt_insert (e_id e) e (ep_episodes st)\<rparr>"

text \<open>The status filter of the parameters is not read by the code.\<close>

definition list_episodes :: "uuid \<Rightarrow> processing_status option \<Rightarrow> episode_store \<Rightarrow> nat \<Rightarrow> uuid option \<Rightarrow> episode list" where
  "list_episodes s status st limit after =
     list_from_zset (ep_episodes st) (bt_get_or [] (ep_by_session st) s) limit after"

text \<open>\<^verbatim>\<open>ZRANGE key 0 stop\<close>: lowest score first.\<close>

definition zrange :: "'m zset \<Rightarrow> int \<Rightarrow> 'm list" where
  "zrange z stop = take (nat ((if stop < 0 then int (length z) + stop else stop) + 1)) (map snd z)"

definition get_pending_episodes :: "u32 \<Rightarrow> episode_store \<Rightarrow> episode list" where
  "get_pending_episodes limit st =
     filter (\<lambda>e. e_status e = PsPending)
       (List.map_filter (map_of (ep_episodes st)) (zrange (ep_pending st) (int (unat limit) - 1)))"

text \<open>The claim: \<^verbatim>\<open>ZREM\<close>, whose reply counts the removed members, then the status.\<close>

definition claim_remove :: "uuid \<Rightarrow> episode_store \<Rightarrow> bool \<times> episode_store" where
  "claim_remove i st = (zscore (ep_pending st) i \<noteq> None, st\<lparr>ep_pending := zrem i (ep_pending st)\<rparr>)"

definition claim_mark :: "uuid \<Rightarrow> episode_store \<Rightarrow> (mnemo_error + bool) \<times> episode_store" where
  "claim_mark i st =
     (case get_episode i st of
        Inl e \<Rightarrow> (Inl e, st)
      | Inr ep \<Rightarrow> (Inr True, update_episode (mark_processing ep) st))"

definition claim_episode :: "uuid \<Rightarrow> episode_store \<Rightarrow> (mnemo_error + bool) \<times> episode_store" where
  "claim_episode i st =
     (case claim_remove i st of (removed, st') \<Rightarrow> if removed then claim_mark i st' else (Inr False, st'))"

definition requeue_episode :: "uuid \<Rightarrow> u64 \<Rightarrow> timestamp \<Rightarrow> episode_store \<Rightarrow> episode_store" where
  "requeue_episode i delay_ms now st =
     st\<lparr>ep_pending := zadd (sint (of_int (timestamp_millis now) + delay_ms)) i (ep_pending st)\<rparr>"

definition delete_episode :: "uuid \<Rightarrow> episode_store \<Rightarrow> (mnemo_error + unit) \<times> episode_store" where
  "delete_episode i st =
     (case get_episode i st of
        Inl err \<Rightarrow> (Inl err, st)
      | Inr e \<Rightarrow>
        (Inr (),
         st\<lparr>ep_by_session := bt_upsert [] (zrem i) (e_session_id e) (ep_by_session st),
            ep_pending := zrem i (ep_pending st),
            ep_episodes := bt_remove i (ep_episodes st)\<rparr>))"

definition delete_session_episodes :: "uuid \<Rightarrow> episode_store \<Rightarrow> u32 \<times> episode_store" where
  "delete_session_episodes s st =
     (let ids = map snd (bt_get_or [] (ep_by_session st) s) in
      (of_nat (length ids),
       st\<lparr>ep_episodes := fold bt_remove ids (ep_episodes st),
          ep_pending := fold zrem ids (ep_pending st),
          ep_by_session := bt_remove s (ep_by_session st)\<rparr>))"

section \<open>Lookup by request id\<close>

text \<open>\<^verbatim>\<open>str::splitn\<close> at a one-byte separator.\<close>

fun splitn :: "nat \<Rightarrow> char \<Rightarrow> string \<Rightarrow> string list" where
  "splitn 0 c s = []"
| "splitn (Suc 0) c s = [s]"
| "splitn (Suc (Suc n)) c s =
     (case dropWhile (\<lambda>x. x \<noteq> c) s of
        [] \<Rightarrow> [s]
      | _ # rest \<Rightarrow> takeWhile (\<lambda>x. x \<noteq> c) s # splitn (Suc n) c rest)"

text \<open>\<open>uuid_error\<close> is the text of the parse error of a string.\<close>

fun parse_members ::
  "(string \<Rightarrow> uuid option) \<Rightarrow> (string \<Rightarrow> string) \<Rightarrow> string list \<Rightarrow> mnemo_error + (uuid \<times> uuid \<times> uuid) list" where
  "parse_members parse_uuid uuid_error [] = Inr []"
| "parse_members parse_uuid uuid_error (m # ms) =
     (case splitn 3 (CHR '':'') m of
        [a, b, c] \<Rightarrow>
          (case parse_uuid a of None \<Rightarrow> Inl (Storage (''Invalid UUID in rid index: '' @ uuid_error a)) | Some e \<Rightarrow>
           case parse_uuid b of None \<Rightarrow> Inl (Storage (''Invalid UUID in rid index: '' @ uuid_error b)) | Some u \<Rightarrow>
           case parse_uuid c of None \<Rightarrow> Inl (Storage (''Invalid UUID in rid index: '' @ uuid_error c)) | Some s \<Rightarrow>
           case parse_members parse_uuid uuid_error ms of Inl err \<Rightarrow> Inl err | Inr r \<Rightarrow> Inr ((e, u, s) # r))
      | _ \<Rightarrow> parse_members parse_uuid uuid_error ms)"

definition get_episodes_by_request_id ::
  "(string \<Rightarrow> uuid option) \<Rightarrow> (string \<Rightarrow> string) \<Rightarrow> string \<Rightarrow> int \<Rightarrow> int \<Rightarrow> nat \<Rightarrow> episode_store \<Rightarrow>
   mnemo_error + (uuid \<times> uuid \<times> uuid) list" where
  "get_episodes_by_request_id parse_uuid uuid_error rid from_ms to_ms limit st =
     parse_members parse_uuid uuid_error (zrange_by_score (bt_get_or [] (ep_rid st) rid) (Some from_ms) to_ms limit)"

section \<open>Failure handling\<close>

text \<open>\<^verbatim>\<open>handle_failure\<close>, which works on the copy of the episode taken by the poll.\<close>

definition handle_failure :: "u32 \<Rightarrow> episode \<Rightarrow> string \<Rightarrow> timestamp \<Rightarrow> episode_store \<Rightarrow> episode_store" where
  "handle_failure max_retries e error now st =
     (case requeue_for_retry e error max_retries of
        (Some delay_ms, e') \<Rightarrow> requeue_episode (e_id e') delay_ms now (update_episode e' st)
      | (None, e') \<Rightarrow> update_episode e' st)"

section \<open>Invariants\<close>

definition episodes_ok :: "episode_store \<Rightarrow> bool" where
  "episodes_ok st \<longleftrightarrow> sessions_ok (ep_base st) \<and> bt_ok (ep_episodes st) \<and> bt_ok (ep_by_session st) \<and> zset_ok (ep_pending st) \<and>
     (\<forall>s. indexed e_id (\<lambda>e. e_session_id e = s) episode_score (ep_episodes st) (bt_get_or [] (ep_by_session st) s))"

lemma episodes_okI:
  assumes "sessions_ok (ep_base st)" and "bt_ok (ep_episodes st)" and "bt_ok (ep_by_session st)" and "zset_ok (ep_pending st)"
    and "\<And>s. indexed e_id (\<lambda>e. e_session_id e = s) episode_score (ep_episodes st) (bt_get_or [] (ep_by_session st) s)"
  shows "episodes_ok st"
  using assms by (simp add: episodes_ok_def)

lemma episodes_okD:
  assumes "episodes_ok st"
  shows "sessions_ok (ep_base st)" "bt_ok (ep_episodes st)" "bt_ok (ep_by_session st)" "zset_ok (ep_pending st)"
    "indexed e_id (\<lambda>e. e_session_id e = s) episode_score (ep_episodes st) (bt_get_or [] (ep_by_session st) s)"
    "map_of (ep_episodes st) i = Some e \<Longrightarrow> e_id e = i"
  using assms by (auto simp: episodes_ok_def indexed_def)

lemma episode_from_request_simps [simp]:
  "e_id (episode_from_request req s u a i now) = (case ce_id req of Some j \<Rightarrow> j | None \<Rightarrow> i)"
  "e_session_id (episode_from_request req s u a i now) = s" "e_user_id (episode_from_request req s u a i now) = u"
  "e_status (episode_from_request req s u a i now) = PsPending"
  "e_retry_count (episode_from_request req s u a i now) = 0"
  "e_metadata (episode_from_request req s u a i now) = ce_metadata req"
  by (simp_all add: episode_from_request_def)

lemma episodes_ok_new: "sessions_ok b \<Longrightarrow> episodes_ok (episode_store_new b)"
  by (simp add: episodes_ok_def episode_store_new_def indexed_Nil)

lemma create_episode_fields:
  fixes show_uuid req s u a i now now1 now2 st
  defines "e \<equiv> episode_from_request req s u a i now"
    and "st' \<equiv> snd (create_episode show_uuid req s u a i now now1 now2 st)"
  shows "ep_episodes st' = bt_insert (e_id e) e (ep_episodes st)"
    and "ep_by_session st' = bt_upsert [] (zadd (episode_score e) (e_id e)) s (ep_by_session st)"
    and "ep_pending st' = (if should_process e then zadd (timestamp_millis (e_ingested_at e)) (e_id e) (ep_pending st) else ep_pending st)"
    and "ep_base st' = (case get_session s (ep_base st) of Inl _ \<Rightarrow> ep_base st
      | Inr x \<Rightarrow> (ep_base st)\<lparr>ss_sessions := bt_insert s (record_episode x (e_id e) (e_created_at e) now1 now2) (ss_sessions (ep_base st))\<rparr>)"
    and "ep_rid st' = (case get_session s (ep_base st) of Inl _ \<Rightarrow> ep_rid st
      | Inr x \<Rightarrow> (case episode_request_id e of
           Some rid \<Rightarrow> bt_upsert [] (zadd (episode_score e) (rid_member show_uuid (e_id e) u s)) rid (ep_rid st)
         | None \<Rightarrow> ep_rid st))"
  by (simp_all add: st'_def e_def create_episode_def Let_def split: sum.split option.split)

lemma episodes_ok_create:
  assumes ok: "episodes_ok st"
    and own: "\<forall>e. map_of (ep_episodes st) (e_id (episode_from_request req s u a i now)) = Some e \<longrightarrow> e_session_id e = s"
  shows "episodes_ok (snd (create_episode show_uuid req s u a i now now1 now2 st))" (is "episodes_ok ?t")
proof (rule episodes_okI)
  let ?e = "episode_from_request req s u a i now"
  show "sessions_ok (ep_base ?t)"
    using sessions_ok_set [OF episodes_okD(1) [OF ok], of s] episodes_okD(1) [OF ok]
    unfolding create_episode_fields get_session_def by (auto simp: record_episode_def split: option.split)
  show "bt_ok (ep_episodes ?t)" "bt_ok (ep_by_session ?t)"
    unfolding create_episode_fields using episodes_okD(2,3) [OF ok] by (simp_all add: bt_ok_insert)
  show "zset_ok (ep_pending ?t)" unfolding create_episode_fields using episodes_okD(4) [OF ok] by simp
  show "indexed e_id (\<lambda>e. e_session_id e = v) episode_score (ep_episodes ?t) (bt_get_or [] (ep_by_session ?t) v)" for v
  proof (cases "v = s")
    case True
    with indexed_insert [OF episodes_okD(5) [OF ok, of v], of ?e "e_id ?e"]
    show ?thesis unfolding create_episode_fields by simp
  next
    case False
    with indexed_insert_other [OF episodes_okD(5) [OF ok, of v], of ?e "e_id ?e"] own
    show ?thesis unfolding create_episode_fields by auto
  qed
qed

text \<open>Writing back an episode whose document is still there.\<close>

lemma episodes_ok_update:
  assumes ok: "episodes_ok st" and "map_of (ep_episodes st) (e_id e) = Some d"
    and "e_session_id e = e_session_id d" and "e_created_at e = e_created_at d"
  shows "episodes_ok (update_episode e st)"
proof (rule episodes_okI)
  show "indexed e_id (\<lambda>e. e_session_id e = v) episode_score (ep_episodes (update_episode e st))
      (bt_get_or [] (ep_by_session (update_episode e st)) v)" for v
    using indexed_update [OF episodes_okD(5) [OF ok, of v] assms(2), of e] assms(3,4) by (simp add: update_episode_def)
qed (use episodes_okD(1-4) [OF ok] in \<open>simp_all add: update_episode_def bt_ok_insert\<close>)

lemma episodes_ok_claim_remove: "episodes_ok st \<Longrightarrow> episodes_ok (snd (claim_remove i st))"
  by (simp add: episodes_ok_def claim_remove_def)

lemma episodes_ok_claim_mark: "episodes_ok st \<Longrightarrow> episodes_ok (snd (claim_mark i st))"
  using episodes_okD(6) [of st i]
  by (auto simp: claim_mark_def get_episode_def mark_processing_def intro: episodes_ok_update split: option.split)

lemma episodes_ok_requeue: "episodes_ok st \<Longrightarrow> episodes_ok (requeue_episode i d now st)"
  by (simp add: episodes_ok_def requeue_episode_def)

lemma episodes_ok_delete:
  assumes ok: "episodes_ok st"
  shows "episodes_ok (snd (delete_episode i st))"
proof (cases "map_of (ep_episodes st) i")
  case (Some e)
  show ?thesis
  proof (rule episodes_okI)
    show "indexed e_id (\<lambda>e. e_session_id e = v) episode_score (ep_episodes (snd (delete_episode i st)))
        (bt_get_or [] (ep_by_session (snd (delete_episode i st))) v)" for v
      using indexed_remove [OF episodes_okD(5) [OF ok, of v], of i]
        indexed_remove_other [OF episodes_okD(5) [OF ok, of v], of i] Some
      by (cases "v = e_session_id e") (simp_all add: delete_episode_def get_episode_def)
  qed (use episodes_okD(1-4) [OF ok] Some in \<open>simp_all add: delete_episode_def get_episode_def bt_ok_remove\<close>)
qed (simp add: delete_episode_def get_episode_def ok)

definition session_episodes :: "uuid \<Rightarrow> episode_store \<Rightarrow> episode list" where
  "session_episodes s st = all_indexed (ep_episodes st) (bt_get_or [] (ep_by_session st) s)"

lemma set_session_episodes:
  "episodes_ok st \<Longrightarrow> set (session_episodes s st) = {e \<in> ran (map_of (ep_episodes st)). e_session_id e = s}"
  using set_all_indexed [OF episodes_okD(5)] by (simp add: session_episodes_def)

section \<open>The request-id index\<close>

definition rendered :: "(uuid \<Rightarrow> string) \<Rightarrow> string \<Rightarrow> bool" where
  "rendered show_uuid m \<longleftrightarrow> (\<exists>e u s. m = rid_member show_uuid e u s)"

lemma rendered_member: "rendered show_uuid (rid_member show_uuid e u s)"
  by (auto simp: rendered_def)

definition members_ok :: "(uuid \<Rightarrow> string) \<Rightarrow> string zset \<Rightarrow> bool" where
  "members_ok show_uuid z \<longleftrightarrow> zset_ok z \<and> Ball (snd ` set z) (rendered show_uuid)"

definition rid_ok :: "(uuid \<Rightarrow> string) \<Rightarrow> episode_store \<Rightarrow> bool" where
  "rid_ok show_uuid st \<longleftrightarrow> (\<forall>rid. members_ok show_uuid (bt_get_or [] (ep_rid st) rid))"

lemma rid_ok_new: "rid_ok show_uuid (episode_store_new b)"
  by (simp add: rid_ok_def members_ok_def episode_store_new_def)

lemma set_zadd: "set (zadd s m z) = insert (s, m) {e \<in> set z. snd e \<noteq> m}"
  by (auto simp: zadd_def)

lemma members_ok_add:
  assumes "members_ok show_uuid z"
  shows "members_ok show_uuid (zadd sc (rid_member show_uuid e u s) z)"
proof -
  have "snd ` set (zadd sc (rid_member show_uuid e u s) z) \<subseteq> insert (rid_member show_uuid e u s) (snd ` set z)"
    by (auto simp: set_zadd)
  with assms show ?thesis
    unfolding members_ok_def by (auto simp del: image_subset_iff simp: rendered_member dest!: subsetD)
qed

lemma rid_ok_create: "rid_ok show_uuid st \<Longrightarrow> rid_ok show_uuid (snd (create_episode show_uuid req s u a i now now1 now2 st))"
  unfolding rid_ok_def create_episode_fields
  by (cases "get_session s (ep_base st)"; cases "episode_request_id (episode_from_request req s u a i now)")
    (simp_all add: members_ok_add)

lemma zrange_by_score_all:
  "(sc, m) \<in> set z \<Longrightarrow> lo \<le> sc \<Longrightarrow> sc \<le> hi \<Longrightarrow> length z \<le> limit \<Longrightarrow> m \<in> set (zrange_by_score z (Some lo) hi limit)"
proof -
  assume a: "(sc, m) \<in> set z" "lo \<le> sc" "sc \<le> hi" "length z \<le> limit"
  let ?f = "filter (\<lambda>e. lo \<le> fst e \<and> fst e \<le> hi) z"
  have "length ?f \<le> limit" using a(4) le_trans length_filter_le by blast
  then have "zrange_by_score z (Some lo) hi limit = map snd ?f" by (simp add: zrange_by_score_def)
  moreover have "(sc, m) \<in> set ?f" using a by simp
  ultimately show ?thesis by force
qed

lemma splitn_part:
  "c \<notin> set a \<Longrightarrow> splitn (Suc (Suc n)) c (a @ c # rest) = a # splitn (Suc n) c rest"
proof -
  assume "c \<notin> set a"
  then have "dropWhile (\<lambda>x. x \<noteq> c) (a @ c # rest) = c # rest" "takeWhile (\<lambda>x. x \<noteq> c) (a @ c # rest) = a"
    by (induction a) auto
  then show ?thesis by simp
qed

lemma splitn_member:
  assumes "\<forall>x. CHR '':'' \<notin> set (show_uuid x)"
  shows "splitn 3 (CHR '':'') (rid_member show_uuid e u s) = [show_uuid e, show_uuid u, show_uuid s]"
proof -
  have "rid_member show_uuid e u s = show_uuid e @ CHR '':'' # (show_uuid u @ CHR '':'' # show_uuid s)"
    by (simp add: rid_member_def)
  moreover have "splitn 3 (CHR '':'') (show_uuid e @ CHR '':'' # (show_uuid u @ CHR '':'' # show_uuid s)) =
      [show_uuid e, show_uuid u, show_uuid s]"
    using assms by (simp add: numeral_3_eq_3 splitn_part del: splitn.simps(3))
  ultimately show ?thesis by simp
qed

lemma parse_members_rendered:
  assumes "\<forall>x. parse_uuid (show_uuid x) = Some x" and "\<forall>x. CHR '':'' \<notin> set (show_uuid x)"
  shows "Ball (set ms) (rendered show_uuid) \<Longrightarrow>
    \<exists>r. parse_members parse_uuid uuid_error ms = Inr r \<and> ms = map (\<lambda>(e, u, s). rid_member show_uuid e u s) r"
proof (induction ms)
  case (Cons m ms)
  then obtain e u s r where m: "m = rid_member show_uuid e u s"
    and r: "parse_members parse_uuid uuid_error ms = Inr r" "ms = map (\<lambda>(e, u, s). rid_member show_uuid e u s) r"
    by (auto simp: rendered_def)
  have "parse_members parse_uuid uuid_error (m # ms) = Inr ((e, u, s) # r)"
    using assms r(1) by (simp add: m splitn_member)
  with m r(2) show ?case by auto
qed simp

lemma rid_member_inj:
  assumes "\<forall>x. parse_uuid (show_uuid x) = Some x" and "\<forall>x. CHR '':'' \<notin> set (show_uuid x)"
    and "rid_member show_uuid e u s = rid_member show_uuid e' u' s'"
  shows "e = e' \<and> u = u' \<and> s = s'"
proof -
  have "[show_uuid e, show_uuid u, show_uuid s] = [show_uuid e', show_uuid u', show_uuid s']"
    using assms(3) splitn_member [OF assms(2)] by metis
  then show ?thesis using assms(1) by (metis list.inject option.inject)
qed

section \<open>Properties\<close>

text \<open>Adding an episode under a new identifier to an existing session succeeds, keeps the store
  consistent, adds exactly this episode to the session's listing, advances the head of the session
  to it with both counters incremented, and queues it for processing at its arrival time exactly
  when it is to be processed (not blank, not a system message).\<close>

theorem create_episode_effect:
  assumes "episodes_ok st" and "map_of (ss_sessions (ep_base st)) s = Some x"
    and "e = episode_from_request req s u a i now" and "map_of (ep_episodes st) (e_id e) = None"
    and "st' = snd (create_episode show_uuid req s u a i now now1 now2 st)"
  shows "fst (create_episode show_uuid req s u a i now now1 now2 st) = Inr e \<and> episodes_ok st' \<and>
    set (session_episodes s st') = insert e (set (session_episodes s st)) \<and>
    zscore (ep_pending st') = (if should_process e then (zscore (ep_pending st))(e_id e \<mapsto> timestamp_millis now) else zscore (ep_pending st)) \<and>
    (\<exists>x'. map_of (ss_sessions (ep_base st')) s = Some x' \<and> s_head_episode_id x' = Some (e_id e) \<and>
      s_episode_count x' = s_episode_count x + 1 \<and> s_head_version x' = s_head_version x + 1)"
proof (intro conjI)
  have g: "get_session s (ep_base st) = Inr x" using assms(2) by (simp add: get_session_def)
  show "fst (create_episode show_uuid req s u a i now now1 now2 st) = Inr e"
    using g by (simp add: create_episode_def Let_def assms(3))
  show ok: "episodes_ok st'"
    unfolding assms(5) by (rule episodes_ok_create [OF assms(1)]) (use assms(3,4) in auto)
  have "ran (map_of (ep_episodes st')) = insert e (ran (map_of (ep_episodes st)))"
    unfolding assms(5) create_episode_fields map_of_bt_insert assms(3) [symmetric]
    using assms(4) by (rule ran_map_upd)
  then show "set (session_episodes s st') = insert e (set (session_episodes s st))"
    unfolding set_session_episodes [OF ok] set_session_episodes [OF assms(1)] using assms(3) by auto
  show "zscore (ep_pending st') = (if should_process e then (zscore (ep_pending st))(e_id e \<mapsto> timestamp_millis now) else zscore (ep_pending st))"
    unfolding assms(5) create_episode_fields assms(3) [symmetric] using episodes_okD(4) [OF assms(1)]
    by (simp add: zset.score_add assms(3) episode_from_request_def)
  show "\<exists>x'. map_of (ss_sessions (ep_base st')) s = Some x' \<and> s_head_episode_id x' = Some (e_id e) \<and>
      s_episode_count x' = s_episode_count x + 1 \<and> s_head_version x' = s_head_version x + 1"
    unfolding assms(5) create_episode_fields g by (simp add: map_of_bt_insert record_episode_def assms(3))
qed

lemma create_episode_effect_witness:
  "fst (create_episode (\<lambda>_. []) \<lparr>ce_id = None, ce_type = EtMessage, ce_content = ''hello'', ce_role = None, ce_name = None,
     ce_agent_id = None, ce_metadata = JNull, ce_created_at = None, ce_modality = MText\<rparr> 9 1 None 5 7 8 9
     (episode_store_new (snd (create_session \<lparr>cs_id = Some 9, cs_user_id = 1, cs_agent_id = None, cs_name = None,
        cs_metadata = JNull\<rparr> 0 5 (session_store_new (snd (create_user (\<lambda>_. []) \<lparr>cu_id = Some 1,
        cu_external_id = None, cu_name = ''Bob'', cu_email = None, cu_metadata = JNull\<rparr> 0 3 user_store_new))))))) =
   Inr (episode_from_request \<lparr>ce_id = None, ce_type = EtMessage, ce_content = ''hello'', ce_role = None, ce_name = None,
     ce_agent_id = None, ce_metadata = JNull, ce_created_at = None, ce_modality = MText\<rparr> 9 1 None 5 7)"
proof -
  let ?us = "snd (create_user (\<lambda>_. []) \<lparr>cu_id = Some 1, cu_external_id = None, cu_name = ''Bob'', cu_email = None,
      cu_metadata = JNull\<rparr> 0 3 user_store_new)"
  let ?b = "snd (create_session \<lparr>cs_id = Some 9, cs_user_id = 1, cs_agent_id = None, cs_name = None,
      cs_metadata = JNull\<rparr> 0 5 (session_store_new ?us))"
  have "users_ok ?us" by (intro users_ok_create users_ok_new)
  then have ok: "episodes_ok (episode_store_new ?b)"
    by (intro episodes_ok_new sessions_ok_create sessions_ok_new) (simp_all add: session_store_new_def)
  show ?thesis
    by (rule create_episode_effect [OF ok, where x = "session_from_request \<lparr>cs_id = Some 9, cs_user_id = 1,
          cs_agent_id = None, cs_name = None, cs_metadata = JNull\<rparr> 0 5", OF _ refl _ refl, THEN conjunct1])
      (simp_all add: create_session_def session_store_new_def get_user_def Let_def create_user_def user_store_new_def
        user_from_request_def session_from_request_def episode_store_new_def)
qed

text \<open>Request ids round-trip: an episode whose metadata carries a request id is found under it,
  with its user and session, by every later lookup whose window holds its time and whose limit
  covers the entries, because what the index stores is parsed back without error.\<close>

theorem request_id_roundtrip:
  assumes "\<forall>x. parse_uuid (show_uuid x) = Some x" and "\<forall>x. CHR '':'' \<notin> set (show_uuid x)"
    and "rid_ok show_uuid st" and "map_of (ss_sessions (ep_base st)) s = Some x"
    and "e = episode_from_request req s u a i now" and "episode_request_id e = Some rid"
    and "st' = snd (create_episode show_uuid req s u a i now now1 now2 st)"
    and "from_ms \<le> episode_score e" and "episode_score e \<le> to_ms"
    and "length (bt_get_or [] (ep_rid st') rid) \<le> limit"
  shows "rid_ok show_uuid st' \<and> (\<exists>r. get_episodes_by_request_id parse_uuid uuid_error rid from_ms to_ms limit st' = Inr r \<and>
    (e_id e, u, s) \<in> set r)"
proof
  let ?z = "bt_get_or [] (ep_rid st') rid"
  let ?ms = "zrange_by_score ?z (Some from_ms) to_ms limit"
  have g: "get_session s (ep_base st) = Inr x" using assms(4) by (simp add: get_session_def)
  show ok: "rid_ok show_uuid st'" unfolding assms(7) by (rule rid_ok_create [OF assms(3)])
  have "?z = zadd (episode_score e) (rid_member show_uuid (e_id e) u s) (bt_get_or [] (ep_rid st) rid)"
    unfolding assms(7) create_episode_fields g using assms(5,6) by simp
  then have "(episode_score e, rid_member show_uuid (e_id e) u s) \<in> set ?z" by (simp add: set_zadd)
  then have mem: "rid_member show_uuid (e_id e) u s \<in> set ?ms"
    using assms(8-10) by (rule zrange_by_score_all)
  have "members_ok show_uuid ?z" using ok by (simp only: rid_ok_def)
  then have "\<forall>m \<in> snd ` set ?z. rendered show_uuid m" unfolding members_ok_def by (rule conjunct2)
  then have "Ball (set ?ms) (rendered show_uuid)"
    by (meson zrange_by_score_subset subsetD)
  from parse_members_rendered [OF assms(1,2) this, of uuid_error]
  obtain r where r: "parse_members parse_uuid uuid_error ?ms = Inr r"
      "?ms = map (\<lambda>(e, u, s). rid_member show_uuid e u s) r"
    by blast
  have "(e_id e, u, s) \<in> set r"
    using mem unfolding r(2) using rid_member_inj [OF assms(1,2)] by force
  with r(1) show "\<exists>r. get_episodes_by_request_id parse_uuid uuid_error rid from_ms to_ms limit st' = Inr r \<and>
      (e_id e, u, s) \<in> set r"
    by (auto simp: get_episodes_by_request_id_def)
qed

lemma request_id_roundtrip_witness:
  "\<exists>r. get_episodes_by_request_id (\<lambda>s. Some (of_nat (length s))) (\<lambda>_. []) ''r1'' 0 9 10
     (snd (create_episode (\<lambda>x. replicate (unat x) (CHR ''x'')) \<lparr>ce_id = None, ce_type = EtMessage, ce_content = ''hello'',
        ce_role = None, ce_name = None, ce_agent_id = None, ce_metadata = JObject [(''request_id'', JString ''r1'')],
        ce_created_at = None, ce_modality = MText\<rparr> 9 1 None 5 7 8 9
        (episode_store_new (snd (create_session \<lparr>cs_id = Some 9, cs_user_id = 1, cs_agent_id = None, cs_name = None,
           cs_metadata = JNull\<rparr> 0 5 (session_store_new (snd (create_user (\<lambda>_. []) \<lparr>cu_id = Some 1,
           cu_external_id = None, cu_name = ''Bob'', cu_email = None, cu_metadata = JNull\<rparr> 0 3 user_store_new)))))))) =
     Inr r \<and> (5, 1, 9) \<in> set r"
proof -
  let ?show = "\<lambda>x :: uuid. replicate (unat x) (CHR ''x'')"
  let ?req = "\<lparr>ce_id = None, ce_type = EtMessage, ce_content = ''hello'',
        ce_role = None, ce_name = None, ce_agent_id = None, ce_metadata = JObject [(''request_id'', JString ''r1'')],
        ce_created_at = None, ce_modality = MText\<rparr>"
  let ?us = "snd (create_user (\<lambda>_. []) \<lparr>cu_id = Some 1, cu_external_id = None, cu_name = ''Bob'', cu_email = None,
      cu_metadata = JNull\<rparr> 0 3 user_store_new)"
  let ?b = "snd (create_session \<lparr>cs_id = Some 9, cs_user_id = 1, cs_agent_id = None, cs_name = None,
      cs_metadata = JNull\<rparr> 0 5 (session_store_new ?us))"
  let ?e = "episode_from_request ?req 9 1 None 5 7"
  let ?t = "snd (create_episode ?show ?req 9 1 None 5 7 8 9 (episode_store_new ?b))"
  have rid: "episode_request_id ?e = Some ''r1''"
    by (simp add: episode_request_id_def Let_def) code_simp
  have x: "map_of (ss_sessions (ep_base (episode_store_new ?b))) 9 = Some (session_from_request \<lparr>cs_id = Some 9,
      cs_user_id = 1, cs_agent_id = None, cs_name = None, cs_metadata = JNull\<rparr> 0 5)"
    by (simp add: create_session_def session_store_new_def get_user_def Let_def create_user_def user_store_new_def
        user_from_request_def session_from_request_def episode_store_new_def)
  then have g: "get_session 9 (ep_base (episode_store_new ?b)) = Inr (session_from_request \<lparr>cs_id = Some 9,
      cs_user_id = 1, cs_agent_id = None, cs_name = None, cs_metadata = JNull\<rparr> 0 5)"
    by (simp add: get_session_def)
  have len: "length (bt_get_or [] (ep_rid ?t) ''r1'') \<le> 10"
    unfolding create_episode_fields g using rid by (simp add: episode_store_new_def zadd_def zrem_def)
  have "\<exists>r. get_episodes_by_request_id (\<lambda>s. Some (of_nat (length s))) (\<lambda>_. []) ''r1'' 0 9 10 ?t = Inr r \<and>
      (e_id ?e, 1, 9) \<in> set r"
    by (rule request_id_roundtrip [OF _ _ rid_ok_new x refl rid refl _ _ len, THEN conjunct2])
      (simp_all add: episode_from_request_def timestamp_millis_def)
  then show ?thesis by simp
qed

end
