(* ===== verification/Poll_Selection.thy ===== *)
theory Poll_Selection
  imports Episodes "HOL-Library.Multiset"
begin

text \<open>
  Which of the pending episodes a poll of the ingestion worker processes
  (\<^verbatim>\<open>poll_and_process\<close> of \<^verbatim>\<open>mnemo-ingest/src/lib.rs\<close>): per-user queues by priority, drained
  round-robin into a batch. The passes are a terminating recursion; the lemmas show that a batch
  is full or complete, that it respects each queue, and that it serves every user it can.
\<close>

section \<open>Selection\<close>

definition episode_priority :: "string \<Rightarrow> u8" where
  "episode_priority content =
     (let lower = lowercase content;
          s1 = (if str_contains lower '' named '' then 4 else 0);
          s2 = (if str_contains lower ''most viewed'' \<or> (str_contains lower ''instagram'' \<and> str_contains lower ''views'') then 4 else 0);
          s3 = (if str_contains lower ''works as'' \<or> str_contains lower '' is a '' \<or> str_contains lower '' is an '' then 3 else 0);
          s4 = (if str_contains lower ''allergic'' \<or> str_contains lower ''birthday'' \<or> str_contains lower ''studied '' then 2 else 0);
          s5 = (if str_contains lower ''favourite'' \<or> str_contains lower ''favorite'' \<or> str_contains lower ''prefers '' then 1 else 0)
      in s1 + s2 + s3 + s4 + s5)"

record ingest_config =
  ic_poll_interval_ms :: u64
  ic_batch_size :: u32
  ic_concurrency :: nat
  ic_max_retries :: u32
  ic_session_summary_threshold :: u32
  ic_sleep_enabled :: bool
  ic_sleep_idle_window_seconds :: u64

definition ingest_config_default :: ingest_config where
  "ingest_config_default =
     \<lparr>ic_poll_interval_ms = 500, ic_batch_size = 10, ic_concurrency = 4, ic_max_retries = 3,
      ic_session_summary_threshold = 10, ic_sleep_enabled = True, ic_sleep_idle_window_seconds = 300\<rparr>"

definition saturating_mul :: "u32 \<Rightarrow> u32 \<Rightarrow> u32" where
  "saturating_mul a b = of_nat (min (2 ^ 32 - 1) (unat a * unat b))"

definition fetch_limit :: "ingest_config \<Rightarrow> u32" where
  "fetch_limit cfg = max (saturating_mul (ic_batch_size cfg) (of_nat (max (ic_concurrency cfg) 1))) (ic_batch_size cfg)"

text \<open>The users in the order of their first pending episode, and the queue of each.\<close>

definition user_order :: "episode list \<Rightarrow> uuid list" where
  "user_order pending = fold (\<lambda>e us. if e_user_id e \<in> set us then us else us @ [e_user_id e]) pending []"

definition user_queue :: "episode list \<Rightarrow> uuid \<Rightarrow> episode list" where
  "user_queue pending u =
     sort_key (\<lambda>e. - int (unat (episode_priority (e_content e)))) (filter (\<lambda>e. e_user_id e = u) pending)"

text \<open>One pass over the users, then passes until the batch is full or a pass adds nothing.\<close>

fun take_round ::
  "nat \<Rightarrow> uuid list \<Rightarrow> (uuid \<Rightarrow> episode list) \<Rightarrow> episode list \<Rightarrow> episode list \<times> (uuid \<Rightarrow> episode list)" where
  "take_round batch [] q selected = (selected, q)"
| "take_round batch (u # us) q selected =
     (if batch \<le> length selected then (selected, q)
      else case q u of
        [] \<Rightarrow> take_round batch us q selected
      | e # es \<Rightarrow> take_round batch us (q(u := es)) (selected @ [e]))"

lemma take_round_grows: "\<exists>zs. fst (take_round batch us q selected) = selected @ zs"
  by (induction batch us q selected rule: take_round.induct) (auto simp: fun_upd_def split: list.split)

lemma take_round_length: "length selected \<le> length (fst (take_round batch us q selected))"
  using take_round_grows [of batch us q selected] by auto

lemma take_round_progress:
  "\<not> batch \<le> length selected \<Longrightarrow> (selected', q') = take_round batch us q selected \<Longrightarrow>
   length selected' \<noteq> length selected \<Longrightarrow> batch - length selected' < batch - length selected"
  using take_round_length [of selected batch us q] by (metis diff_less_mono2 fst_conv le_neq_implies_less not_le)

function take_rounds ::
  "nat \<Rightarrow> uuid list \<Rightarrow> (uuid \<Rightarrow> episode list) \<Rightarrow> episode list \<Rightarrow> episode list" where
  "take_rounds batch us q selected =
     (if batch \<le> length selected then selected
      else case take_round batch us q selected of (selected', q') \<Rightarrow>
        if length selected' = length selected then selected' else take_rounds batch us q' selected')"
  by pat_completeness auto

termination
  by (relation "measure (\<lambda>(batch, us, q, selected). batch - length selected)") (simp_all add: take_round_progress)

declare take_rounds.simps [simp del]

definition poll_select :: "nat \<Rightarrow> episode list \<Rightarrow> episode list" where
  "poll_select batch pending = take_rounds batch (user_order pending) (user_queue pending) []"

section \<open>What a poll selects\<close>

text \<open>
  The invariant of the passes: what was taken from a user's queue followed by what is left is the
  queue itself, and never more than the batch is taken.
\<close>

definition split_ok :: "nat \<Rightarrow> (uuid \<Rightarrow> episode list) \<Rightarrow> (uuid \<Rightarrow> episode list) \<Rightarrow> episode list \<Rightarrow> bool" where
  "split_ok batch q0 q selected \<longleftrightarrow> length selected \<le> batch \<and>
     (\<forall>u. filter (\<lambda>e. e_user_id e = u) selected @ q u = q0 u) \<and> (\<forall>u. \<forall>e \<in> set (q u). e_user_id e = u)"

lemma split_ok_round:
  "split_ok batch q0 q selected \<Longrightarrow> case take_round batch us q selected of (selected', q') \<Rightarrow> split_ok batch q0 q' selected'"
proof (induction batch us q selected rule: take_round.induct)
  case (2 batch u us q selected)
  show ?case
  proof (cases "batch \<le> length selected \<or> q u = []")
    case True
    with "2.IH"(1) "2.prems" show ?thesis by auto
  next
    case False
    then obtain e es where q: "q u = e # es" by (cases "q u") auto
    have eu: "e_user_id e = u" using "2.prems" q by (auto simp: split_ok_def)
    have "split_ok batch q0 (q(u := es)) (selected @ [e])"
      unfolding split_ok_def
    proof (intro conjI allI)
      show "length (selected @ [e]) \<le> batch" using False by simp
      show "filter (\<lambda>x. e_user_id x = v) (selected @ [e]) @ (q(u := es)) v = q0 v" for v
      proof -
        have "filter (\<lambda>x. e_user_id x = v) selected @ q v = q0 v" using "2.prems" by (simp add: split_ok_def)
        then show ?thesis using q eu by auto
      qed
      show "\<forall>x \<in> set ((q(u := es)) v). e_user_id x = v" for v
        using "2.prems" q by (auto simp: split_ok_def)
    qed
    with False q "2.IH"(2) show ?thesis by (simp add: fun_upd_def)
  qed
qed simp

text \<open>A pass that adds nothing, with room left, found every queue empty.\<close>

lemma round_stuck:
  "length selected < batch \<Longrightarrow> length (fst (take_round batch us q selected)) = length selected \<Longrightarrow> u \<in> set us \<Longrightarrow> q u = []"
proof (induction batch us q selected rule: take_round.induct)
  case (2 batch v us q selected)
  have "q v = []"
  proof (rule ccontr)
    assume "q v \<noteq> []"
    then obtain e es where "q v = e # es" by (cases "q v") auto
    then have "length (selected @ [e]) \<le> length (fst (take_round batch (v # us) q selected))"
      using 2(3) take_round_length [of "selected @ [e]" batch us "q(v := es)"] by simp
    with 2(4) show False by simp
  qed
  with 2 show ?case by auto
qed simp

lemma rounds_spec:
  assumes "split_ok batch q0 q selected" and "\<forall>u. u \<notin> set us \<longrightarrow> q0 u = []"
  shows "\<exists>q'. split_ok batch q0 q' (take_rounds batch us q selected) \<and>
    (length (take_rounds batch us q selected) = batch \<or> (\<forall>u. q' u = [])) \<and>
    (\<exists>zs. take_rounds batch us q selected = selected @ zs)"
  using assms
proof (induction batch us q selected rule: take_rounds.induct)
  case (1 batch us q selected)
  obtain s' q' where r: "take_round batch us q selected = (s', q')" by fastforce
  have ok': "split_ok batch q0 q' s'" using split_ok_round [OF "1.prems"(1), of us] r by simp
  obtain zs where zs: "s' = selected @ zs" using take_round_grows [of batch us q selected] r by auto
  consider "batch \<le> length selected" | "length selected < batch" "length s' = length selected"
    | "length selected < batch" "length s' \<noteq> length selected" by linarith
  then show ?case
  proof cases
    case 1
    with "1.prems" show ?thesis by (subst take_rounds.simps) (auto simp: split_ok_def take_rounds.simps)
  next
    case 2
    have empty: "q u = []" for u
    proof (cases "u \<in> set us")
      case True
      then show ?thesis using round_stuck [of selected batch us q u] r 2 by simp
    next
      case False
      then have "q0 u = []" using "1.prems"(2) by blast
      then show ?thesis using "1.prems"(1) unfolding split_ok_def by (metis append_is_Nil_conv)
    qed
    have "take_rounds batch us q selected = s'" using 2 r by (subst take_rounds.simps) simp
    moreover have "s' = selected" using zs 2(2) by simp
    ultimately have t: "take_rounds batch us q selected = selected" by simp
    show ?thesis
      unfolding t by (intro exI [of _ q] conjI disjI2 allI empty "1.prems"(1) exI [of _ "[]"]) simp
  next
    case 3
    have "\<not> batch \<le> length selected" using 3 by simp
    then have IH: "\<exists>q''. split_ok batch q0 q'' (take_rounds batch us q' s') \<and>
        (length (take_rounds batch us q' s') = batch \<or> (\<forall>u. q'' u = [])) \<and> (\<exists>zs. take_rounds batch us q' s' = s' @ zs)"
      using r 3(2) ok' "1.prems"(2) by (intro "1.IH") simp_all
    have "take_rounds batch us q selected = take_rounds batch us q' s'" using 3 r by (subst take_rounds.simps) simp
    then show ?thesis using IH zs by auto
  qed
qed

text \<open>A pass with room for everyone serves everyone.\<close>

lemma round_serves:
  "length selected + length us \<le> batch \<Longrightarrow> distinct us \<Longrightarrow> u \<in> set us \<Longrightarrow> q u = e # es \<Longrightarrow>
   e \<in> set (fst (take_round batch us q selected))"
proof (induction batch us q selected rule: take_round.induct)
  case (2 batch v us q selected)
  note prems = "2.prems"
  have room: "\<not> batch \<le> length selected" using prems(1) by simp
  show ?case
  proof (cases "q v")
    case Nil
    then have "u \<in> set us" using prems(3,4) by auto
    with 2(1) room Nil prems show ?thesis by simp
  next
    case (Cons x xs)
    obtain zs where zs: "fst (take_round batch us (q(v := xs)) (selected @ [x])) = (selected @ [x]) @ zs"
      using take_round_grows by blast
    show ?thesis
    proof (cases "u = v")
      case True
      then show ?thesis using room Cons prems(4) zs by simp
    next
      case False
      then have "e \<in> set (fst (take_round batch us (q(v := xs)) (selected @ [x])))"
        using room Cons prems by (intro "2.IH"(2)) auto
      with room Cons show ?thesis by simp
    qed
  qed
qed simp

lemma user_order_spec: "distinct (user_order es) \<and> set (user_order es) = e_user_id ` set es"
proof -
  have "distinct us \<Longrightarrow> distinct (fold (\<lambda>e us. if e_user_id e \<in> set us then us else us @ [e_user_id e]) es us) \<and>
      set (fold (\<lambda>e us. if e_user_id e \<in> set us then us else us @ [e_user_id e]) es us) = set us \<union> e_user_id ` set es" for us
    by (induction es arbitrary: us) auto
  from this [of "[]"] show ?thesis by (simp add: user_order_def)
qed

lemma poll_select_split:
  "\<exists>q'. split_ok batch (user_queue pending) q' (poll_select batch pending) \<and>
     (length (poll_select batch pending) = batch \<or> (\<forall>u. q' u = []))"
proof -
  have ok: "split_ok batch (user_queue pending) (user_queue pending) []"
    by (auto simp: split_ok_def user_queue_def)
  have none: "\<forall>u. u \<notin> set (user_order pending) \<longrightarrow> user_queue pending u = []"
  proof (intro allI impI)
    fix u assume "u \<notin> set (user_order pending)"
    then have "filter (\<lambda>e. e_user_id e = u) pending = []"
      using user_order_spec [of pending] by (auto simp: filter_empty_conv)
    then show "user_queue pending u = []" by (simp add: user_queue_def)
  qed
  from rounds_spec [OF ok none] show ?thesis unfolding poll_select_def by blast
qed

lemma count_by_user: "count (mset xs) e = count (mset (filter (\<lambda>x. e_user_id x = e_user_id e) xs)) e"
  by (induction xs) auto

lemma mset_user_queue: "mset (user_queue pending u) = mset (filter (\<lambda>e. e_user_id e = u) pending)"
  by (simp add: user_queue_def)

lemma poll_select_sub: "mset (poll_select batch pending) \<subseteq># mset pending"
proof (rule mset_subset_eqI)
  fix e :: episode
  obtain q' where "split_ok batch (user_queue pending) q' (poll_select batch pending)"
    using poll_select_split by blast
  then have "filter (\<lambda>x. e_user_id x = e_user_id e) (poll_select batch pending) @ q' (e_user_id e) =
      user_queue pending (e_user_id e)"
    by (simp add: split_ok_def)
  then have "mset (filter (\<lambda>x. e_user_id x = e_user_id e) (poll_select batch pending)) \<subseteq>#
      mset (filter (\<lambda>x. e_user_id x = e_user_id e) pending)"
    by (metis mset_append mset_subset_eq_add_left mset_user_queue)
  then have "count (mset (filter (\<lambda>x. e_user_id x = e_user_id e) (poll_select batch pending))) e \<le>
      count (mset (filter (\<lambda>x. e_user_id x = e_user_id e) pending)) e"
    by (rule mset_subset_eq_count)
  then show "count (mset (poll_select batch pending)) e \<le> count (mset pending) e"
    by (subst (1 2) count_by_user)
qed

lemma poll_select_all:
  assumes "length (poll_select batch pending) \<noteq> batch"
  shows "mset (poll_select batch pending) = mset pending"
proof (rule multiset_eqI)
  fix e :: episode
  obtain q' where "split_ok batch (user_queue pending) q' (poll_select batch pending)" "\<forall>u. q' u = []"
    using poll_select_split assms by blast
  then have "filter (\<lambda>x. e_user_id x = e_user_id e) (poll_select batch pending) = user_queue pending (e_user_id e)"
    unfolding split_ok_def by (metis append_Nil2)
  then have "mset (filter (\<lambda>x. e_user_id x = e_user_id e) (poll_select batch pending)) =
      mset (filter (\<lambda>x. e_user_id x = e_user_id e) pending)"
    by (metis mset_user_queue)
  then show "count (mset (poll_select batch pending)) e = count (mset pending) e"
    by (subst (1 2) count_by_user) simp
qed

lemma poll_select_length: "length (poll_select batch pending) = min batch (length pending)"
proof (cases "length (poll_select batch pending) = batch")
  case True
  have "length (poll_select batch pending) \<le> length pending"
    using size_mset_mono [OF poll_select_sub] by simp
  with True show ?thesis by simp
next
  case False
  then have "length (poll_select batch pending) = length pending"
    by (metis poll_select_all size_mset)
  moreover have "length (poll_select batch pending) \<le> batch"
    using poll_select_split [of batch pending] by (auto simp: split_ok_def)
  ultimately show ?thesis by simp
qed

lemma poll_select_serves:
  assumes "length (user_order pending) \<le> batch" and "e \<in> set pending"
  shows "\<exists>e' \<in> set (poll_select batch pending). e_user_id e' = e_user_id e"
proof -
  let ?u = "e_user_id e"
  have u: "?u \<in> set (user_order pending)" "distinct (user_order pending)"
    using user_order_spec [of pending] assms(2) by auto
  have "e \<in> set (user_queue pending ?u)" using assms(2) by (simp add: user_queue_def)
  then obtain x xs where x: "user_queue pending ?u = x # xs" by (cases "user_queue pending ?u") auto
  have "x \<in> set (user_queue pending ?u)" using x by simp
  then have xu: "e_user_id x = ?u" by (simp add: user_queue_def)
  obtain s' q' where r: "take_round batch (user_order pending) (user_queue pending) [] = (s', q')" by fastforce
  have mem: "x \<in> set s'"
    using round_serves [of "[]" "user_order pending" batch ?u "user_queue pending" x xs] assms(1) u x r by simp
  have grows: "\<exists>zs. take_rounds b us q sel = sel @ zs" for b us q sel
  proof (induction b us q sel rule: take_rounds.induct)
    case (1 b us q sel)
    obtain s1 q1 where r1: "take_round b us q sel = (s1, q1)" by fastforce
    moreover obtain zs where "s1 = sel @ zs" using take_round_grows [of b us q sel] r1 by auto
    ultimately show ?case
      using 1 [OF _ r1 [symmetric]] by (subst take_rounds.simps) (auto split: if_splits)
  qed
  have "batch \<noteq> 0" using u(1) assms(1) by (cases "user_order pending") auto
  moreover have "s' \<noteq> []" using mem by auto
  ultimately have "poll_select batch pending = take_rounds batch (user_order pending) q' s'"
    unfolding poll_select_def using r by (subst take_rounds.simps) simp
  then have "x \<in> set (poll_select batch pending)"
    using mem grows [of batch "user_order pending" q' s'] by auto
  with xu show ?thesis by blast
qed

section \<open>Properties\<close>



end
