(* ===== verification/Ingest_Queue.thy ===== *)
theory Ingest_Queue
  imports Poll_Selection
begin

text \<open>
  The workers of \<^verbatim>\<open>mnemo-ingest/src/lib.rs\<close> on the pending queue: how a batch is claimed,
  completed, retried or lost, as a step relation in which any number of workers and the request
  handlers interleave between the store commands. A status write of a claim and a deletion are
  single steps; failures of Redis itself are crashes of a worker.
\<close>

section \<open>Workers\<close>

text \<open>
  A task is an episode as the poll read it, with how far it is: being processed, its completion
  written, or its retry written and the episode about to be put back. A worker claims what a poll
  selected one by one (\<open>Marking\<close>: the \<^verbatim>\<open>ZREM\<close> succeeded, the status is not written
  yet), and then runs what it claimed, in any order.
\<close>

datatype stage = Working | Finished | Retrying u64

datatype worker =
    Idle
  | Claiming "episode list" "episode list"
  | Marking episode "episode list" "episode list"
  | Running "(episode \<times> stage) list"

type_synonym q_state = "episode_store \<times> worker multiset"

fun owned :: "worker \<Rightarrow> uuid multiset" where
  "owned Idle = {#}"
| "owned (Claiming es claimed) = mset (map e_id claimed)"
| "owned (Marking e es claimed) = add_mset (e_id e) (mset (map e_id claimed))"
| "owned (Running tasks) = mset (map (\<lambda>t. e_id (fst t)) tasks)"

definition owners :: "worker multiset \<Rightarrow> uuid multiset" where
  "owners ws = \<Sum>\<^sub># (image_mset owned ws)"

text \<open>
  One step of one worker between two store commands, a crash of a worker, or a request handler.
  Creation is restricted to identifiers no worker is working on; it labels the step.
\<close>

inductive q_step :: "ingest_config \<Rightarrow> (uuid \<Rightarrow> string) \<Rightarrow> uuid option \<Rightarrow> q_state \<Rightarrow> q_state \<Rightarrow> bool" for cfg show_uuid where
  Poll: "q_step cfg show_uuid None (st, add_mset Idle ws)
    (st, add_mset (Claiming (poll_select (unat (ic_batch_size cfg)) (get_pending_episodes (fetch_limit cfg) st)) []) ws)"
| ClaimLost: "claim_remove (e_id e) st = (False, st') \<Longrightarrow>
    q_step cfg show_uuid None (st, add_mset (Claiming (e # es) claimed) ws) (st', add_mset (Claiming es claimed) ws)"
| ClaimWon: "claim_remove (e_id e) st = (True, st') \<Longrightarrow>
    q_step cfg show_uuid None (st, add_mset (Claiming (e # es) claimed) ws) (st', add_mset (Marking e es claimed) ws)"
| MarkOk: "claim_mark (e_id e) st = (Inr b, st') \<Longrightarrow>
    q_step cfg show_uuid None (st, add_mset (Marking e es claimed) ws) (st', add_mset (Claiming es (claimed @ [e])) ws)"
| MarkErr: "claim_mark (e_id e) st = (Inl err, st') \<Longrightarrow>
    q_step cfg show_uuid None (st, add_mset (Marking e es claimed) ws) (st', add_mset Idle ws)"
| Start: "q_step cfg show_uuid None (st, add_mset (Claiming [] claimed) ws)
    (st, add_mset (Running (map (\<lambda>e. (e, Working)) claimed)) ws)"
| Complete: "q_step cfg show_uuid None (st, add_mset (Running (xs @ (e, Working) # ys)) ws)
    (update_episode (mark_completed e entity_ids edge_ids) st, add_mset (Running (xs @ (e, Finished) # ys)) ws)"
| Done: "q_step cfg show_uuid None (st, add_mset (Running (xs @ (e, Finished) # ys)) ws) (st, add_mset (Running (xs @ ys)) ws)"
| FailRetry: "s \<noteq> Retrying d \<Longrightarrow> requeue_for_retry e err (ic_max_retries cfg) = (Some delay, e') \<Longrightarrow>
    q_step cfg show_uuid None (st, add_mset (Running (xs @ (e, s) # ys)) ws)
      (update_episode e' st, add_mset (Running (xs @ (e', Retrying delay) # ys)) ws)"
| FailFinal: "s \<noteq> Retrying d \<Longrightarrow> requeue_for_retry e err (ic_max_retries cfg) = (None, e') \<Longrightarrow>
    q_step cfg show_uuid None (st, add_mset (Running (xs @ (e, s) # ys)) ws) (update_episode e' st, add_mset (Running (xs @ ys)) ws)"
| Requeue: "q_step cfg show_uuid None (st, add_mset (Running (xs @ (e, Retrying delay) # ys)) ws)
    (requeue_episode (e_id e) delay now st, add_mset (Running (xs @ ys)) ws)"
| Rest: "q_step cfg show_uuid None (st, add_mset (Running []) ws) (st, add_mset Idle ws)"
| Crash: "q_step cfg show_uuid None (st, add_mset w ws) (st, add_mset Idle ws)"
| Create: "e_id (episode_from_request req s u a i now) \<notin># owners ws \<Longrightarrow>
    q_step cfg show_uuid (Some (e_id (episode_from_request req s u a i now))) (st, ws) (snd (create_episode show_uuid req s u a i now now1 now2 st), ws)"
| Delete: "q_step cfg show_uuid None (st, ws) (snd (delete_episode i st), ws)"
| DeleteAll: "q_step cfg show_uuid None (st, ws) (snd (delete_session_episodes i st), ws)"

lemma requeue_retry:
  "e_retry_count e < m \<Longrightarrow> requeue_for_retry e err m =
     (Some (500 * 2 ^ unat (e_retry_count e)), e\<lparr>e_retry_count := e_retry_count e + 1, e_status := PsPending, e_error := Some err\<rparr>)"
  by (simp add: requeue_for_retry_def Let_def)

text \<open>No identifier is owned twice, or owned while it is queued.\<close>

definition queued :: "episode_store \<Rightarrow> uuid \<Rightarrow> nat" where
  "queued st i = (if zscore (ep_pending st) i = None then 0 else 1)"

definition exclusive :: "q_state \<Rightarrow> bool" where
  "exclusive S \<longleftrightarrow> zset_ok (ep_pending (fst S)) \<and> (\<forall>i. count (owners (snd S)) i + queued (fst S) i \<le> 1)"

lemma owners_simps [simp]:
  "owners {#} = {#}" "owners (add_mset w ws) = owned w + owners ws"
  by (simp_all add: owners_def)

lemma exclusiveI:
  assumes "zset_ok (ep_pending st')" and "exclusive (st, ws)"
    and "\<And>i. count (owners ws') i + queued st' i \<le> count (owners ws) i + queued st i \<or> count (owners ws') i + queued st' i \<le> 1"
  shows "exclusive (st', ws')"
  unfolding exclusive_def fst_conv snd_conv
proof (intro conjI allI)
  show "count (owners ws') i + queued st' i \<le> 1" for i
  proof -
    have "count (owners ws) i + queued st i \<le> 1" using assms(2) by (simp add: exclusive_def)
    with assms(3) [of i] show ?thesis by linarith
  qed
qed (rule assms(1))

lemma exclusive_zset: "exclusive (st, ws) \<Longrightarrow> zset_ok (ep_pending st)"
  by (simp add: exclusive_def)

lemma queued_update [simp]: "queued (update_episode e st) i = queued st i"
  by (simp add: queued_def update_episode_def)

lemma pending_update [simp]: "ep_pending (update_episode e st) = ep_pending st"
  by (simp add: update_episode_def)

lemma requeue_keeps_id: "requeue_for_retry e err m = (r, e') \<Longrightarrow> e_id e' = e_id e"
  by (auto simp: requeue_for_retry_def mark_failed_def Let_def split: if_splits)

lemma zset_ok_fold_rem: "zset_ok z \<Longrightarrow> zset_ok (fold zrem is z)"
  by (induction "is" arbitrary: z) simp_all

lemma score_fold_rem:
  fixes z :: "'m::linorder zset"
  shows "zset_ok z \<Longrightarrow> zscore (fold zrem is z) i \<noteq> None \<Longrightarrow> zscore z i \<noteq> None"
proof (induction "is" arbitrary: z)
  case (Cons a "is")
  have "zset_ok (zrem a z)" using Cons.prems(1) by simp
  moreover have "zscore (fold zrem is (zrem a z)) i \<noteq> None" using Cons.prems(2) by simp
  ultimately have "zscore (zrem a z) i \<noteq> None" by (rule Cons.IH)
  then show ?case by (cases "i = a") (simp_all add: zset.score_rem [OF Cons.prems(1)])
qed simp

lemma claim_mark_pending: "claim_mark i st = (r, st') \<Longrightarrow> ep_pending st' = ep_pending st"
  by (auto simp: claim_mark_def split: sum.splits)

lemma claim_removeD:
  "claim_remove i st = (b, st') \<Longrightarrow> b = (zscore (ep_pending st) i \<noteq> None) \<and> st' = st\<lparr>ep_pending := zrem i (ep_pending st)\<rparr>"
  by (auto simp: claim_remove_def)

lemma create_pending:
  "ep_pending (snd (create_episode show_uuid req s u a i now now1 now2 st)) \<in>
     {ep_pending st, zadd (timestamp_millis now) (e_id (episode_from_request req s u a i now)) (ep_pending st)}"
  unfolding create_episode_fields by (simp add: episode_from_request_def)

lemma delete_pending: "ep_pending (snd (delete_episode i st)) \<in> {ep_pending st, zrem i (ep_pending st)}"
  by (auto simp: delete_episode_def split: sum.split)

lemma exclusive_step: "q_step cfg show_uuid l S S' \<Longrightarrow> exclusive S \<Longrightarrow> exclusive S'"
proof (induction rule: q_step.induct)
  case (ClaimLost e st st' es claimed ws)
  note z = exclusive_zset [OF ClaimLost(2)] and c = claim_removeD [OF ClaimLost(1)]
  show ?case
    by (rule exclusiveI [OF _ ClaimLost(2)]) (use z c in \<open>auto simp: queued_def zset.score_rem\<close>)
next
  case (ClaimWon e st st' es claimed ws)
  note z = exclusive_zset [OF ClaimWon(2)] and c = claim_removeD [OF ClaimWon(1)]
  show ?case
    by (rule exclusiveI [OF _ ClaimWon(2)]) (use z c in \<open>auto simp: queued_def zset.score_rem\<close>)
next
  case (MarkOk e st b st' es claimed ws)
  note z = exclusive_zset [OF MarkOk(2)] and c = claim_mark_pending [OF MarkOk(1)]
  show ?case
    by (rule exclusiveI [OF _ MarkOk(2)]) (use z c in \<open>auto simp: queued_def\<close>)
next
  case (MarkErr e st err st' es claimed ws)
  note z = exclusive_zset [OF MarkErr(2)] and c = claim_mark_pending [OF MarkErr(1)]
  show ?case
    by (rule exclusiveI [OF _ MarkErr(2)]) (use z c in \<open>auto simp: queued_def\<close>)
next
  case (FailRetry s d e err delay e' st xs ys ws)
  show ?case
    by (rule exclusiveI [OF _ FailRetry(3)])
      (use exclusive_zset [OF FailRetry(3)] requeue_keeps_id [OF FailRetry(2)] in auto)
next
  case (FailFinal s d e err e' st xs ys ws)
  show ?case
    by (rule exclusiveI [OF _ FailFinal(3)]) (use exclusive_zset [OF FailFinal(3)] in auto)
next
  case (Requeue st xs e delay ys ws now)
  show ?case
    by (rule exclusiveI [OF _ Requeue(1)])
      (use exclusive_zset [OF Requeue(1)] in \<open>auto simp: requeue_episode_def queued_def zset.score_add\<close>)
next
  case (Create req s u a i now ws st now1 now2)
  note z = exclusive_zset [OF Create(2)]
  show ?case
  proof (rule exclusiveI [OF _ Create(2)])
    show "zset_ok (ep_pending (snd (create_episode show_uuid req s u a i now now1 now2 st)))"
      using create_pending [of show_uuid req s u a i now now1 now2 st] z by auto
    fix k
    have "count (owners ws) k + queued st k \<le> 1" using Create(2) by (simp add: exclusive_def)
    then show "count (owners ws) k + queued (snd (create_episode show_uuid req s u a i now now1 now2 st)) k \<le>
        count (owners ws) k + queued st k \<or>
        count (owners ws) k + queued (snd (create_episode show_uuid req s u a i now now1 now2 st)) k \<le> 1"
      using create_pending [of show_uuid req s u a i now now1 now2 st] z Create(1)
      by (auto simp: queued_def zset.score_add not_in_iff split: if_splits)
  qed
next
  case (Delete st ws i)
  note z = exclusive_zset [OF Delete]
  show ?case
    by (rule exclusiveI [OF _ Delete])
      (use delete_pending [of i st] z in \<open>auto simp: queued_def zset.score_rem split: if_splits\<close>)
next
  case (DeleteAll st ws i)
  note z = exclusive_zset [OF DeleteAll]
  have "queued (snd (delete_session_episodes i st)) k \<le> queued st k" for k
    using score_fold_rem [OF z, of "map snd (bt_get_or [] (ep_by_session st) i)" k]
    by (auto simp: queued_def delete_session_episodes_def Let_def)
  then show ?case
    by (intro exclusiveI [OF _ DeleteAll]) (use z in \<open>auto simp: delete_session_episodes_def Let_def zset_ok_fold_rem\<close>)
next
  case (Done st xs e ys ws)
  show ?case by (rule exclusiveI [OF exclusive_zset [OF Done] Done]) auto
next
  case (Rest st ws)
  then show ?case by (simp add: exclusive_def)
next
  case (Crash st w ws)
  show ?case by (rule exclusiveI [OF exclusive_zset [OF Crash] Crash]) auto
qed (auto simp: exclusive_def comp_def)

text \<open>Runs that create no episode under the identifiers of a set.\<close>

definition q_run :: "ingest_config \<Rightarrow> (uuid \<Rightarrow> string) \<Rightarrow> uuid set \<Rightarrow> q_state \<Rightarrow> q_state \<Rightarrow> bool" where
  "q_run cfg show_uuid I = (\<lambda>S S'. \<exists>l. q_step cfg show_uuid l S S' \<and> l \<notin> Some ` I)\<^sup>*\<^sup>*"

lemma q_run_invariant:
  assumes "q_run cfg show_uuid I S S'" and "P S"
    and "\<And>l S S'. q_step cfg show_uuid l S S' \<Longrightarrow> l \<notin> Some ` I \<Longrightarrow> P S \<Longrightarrow> P S'"
  shows "P S'"
  using assms(1) unfolding q_run_def by (induction rule: rtranclp_induct) (use assms(2,3) in auto)

lemma q_run_trans: "q_run cfg show_uuid I S T \<Longrightarrow> q_run cfg show_uuid I T U \<Longrightarrow> q_run cfg show_uuid I S U"
  unfolding q_run_def by (rule rtranclp_trans)

lemma q_run_step: "q_step cfg show_uuid l S T \<Longrightarrow> l \<notin> Some ` I \<Longrightarrow> q_run cfg show_uuid I S T"
  unfolding q_run_def by (rule r_into_rtranclp) blast

lemma q_run_refl: "q_run cfg show_uuid I S S"
  unfolding q_run_def by simp

text \<open>
  An episode that is neither queued nor owned stays so, and its document is not written, only
  perhaps deleted.
\<close>

definition ids_ok :: "episode_store \<Rightarrow> bool" where
  "ids_ok st \<longleftrightarrow> (\<forall>i e. map_of (ep_episodes st) i = Some e \<longrightarrow> e_id e = i)"

definition lost :: "uuid \<Rightarrow> episode \<Rightarrow> q_state \<Rightarrow> bool" where
  "lost c d S \<longleftrightarrow> zset_ok (ep_pending (fst S)) \<and> ids_ok (fst S) \<and> c \<notin># owners (snd S) \<and>
     zscore (ep_pending (fst S)) c = None \<and> map_of (ep_episodes (fst S)) c \<in> {None, Some d}"

lemma ids_ok_update: "ids_ok st \<Longrightarrow> ids_ok (update_episode e st)"
  by (auto simp: ids_ok_def update_episode_def map_of_bt_insert)

lemma lost_update: "lost c d (st, ws) \<Longrightarrow> e_id e \<noteq> c \<Longrightarrow> c \<notin># owners ws' \<Longrightarrow> lost c d (update_episode e st, ws')"
  using ids_ok_update [of st e] by (auto simp: lost_def update_episode_def map_of_bt_insert)

lemma lost_workers: "lost c d (st, ws) \<Longrightarrow> c \<notin># owners ws' \<Longrightarrow> lost c d (st, ws')"
  by (auto simp: lost_def)

lemma lost_owner: "lost c d (st, ws) \<Longrightarrow> c \<notin># owners ws"
  by (auto simp: lost_def)

lemma lost_claim_remove: "claim_remove i st = (b, st') \<Longrightarrow> lost c d (st, ws) \<Longrightarrow> lost c d (st', ws)"
  by (drule claim_removeD) (auto simp: lost_def zset.score_rem ids_ok_def)

lemma lost_claim_mark: "claim_mark i st = (r, st') \<Longrightarrow> i \<noteq> c \<Longrightarrow> lost c d (st, ws) \<Longrightarrow> lost c d (st', ws)"
proof -
  assume a: "claim_mark i st = (r, st')" "i \<noteq> c" "lost c d (st, ws)"
  show "lost c d (st', ws)"
  proof (cases "map_of (ep_episodes st) i")
    case (Some e)
    have "e_id e = i" using a(3) Some by (auto simp: lost_def ids_ok_def)
    then have "lost c d (update_episode (mark_processing e) st, ws)"
      using a lost_owner [OF a(3)] by (intro lost_update) (simp_all add: mark_processing_def)
    then show ?thesis using a(1) Some by (auto simp: claim_mark_def get_episode_def)
  qed (use a in \<open>auto simp: claim_mark_def get_episode_def\<close>)
qed

lemma lost_create:
  assumes "lost c d (st, ws)" and "e_id (episode_from_request req s u a i now) \<noteq> c"
  shows "lost c d (snd (create_episode show_uuid req s u a i now now1 now2 st), ws)"
proof -
  note z = assms(1) [unfolded lost_def fst_conv snd_conv, THEN conjunct1]
  let ?st' = "snd (create_episode show_uuid req s u a i now now1 now2 st)"
  have "zset_ok (ep_pending ?st') \<and> zscore (ep_pending ?st') c = zscore (ep_pending st) c"
    using create_pending [of show_uuid req s u a i now now1 now2 st] assms(2) z by (auto simp: zset.score_add)
  moreover have "map_of (ep_episodes ?st') c = map_of (ep_episodes st) c"
    using assms(2) unfolding create_episode_fields by (simp add: map_of_bt_insert)
  moreover have "ids_ok ?st'"
    using assms(1) unfolding lost_def ids_ok_def create_episode_fields by (auto simp: map_of_bt_insert)
  ultimately show ?thesis using assms(1) by (simp add: lost_def)
qed

lemma lost_delete: "lost c d (st, ws) \<Longrightarrow> lost c d (snd (delete_episode i st), ws)"
  by (auto simp: lost_def delete_episode_def get_episode_def ids_ok_def map_of_bt_remove zset.score_rem
      split: option.split if_splits)

lemma map_of_fold_bt_remove: "map_of (fold bt_remove is m) k = (if k \<in> set is then None else map_of m k)"
  by (induction "is" arbitrary: m) (auto simp: map_of_bt_remove)

lemma lost_delete_all:
  assumes "lost c d (st, ws)"
  shows "lost c d (snd (delete_session_episodes i st), ws)"
proof -
  have z: "zset_ok (ep_pending st)" "zscore (ep_pending st) c = None" using assms by (simp_all add: lost_def)
  then have "zscore (fold zrem (map snd (bt_get_or [] (ep_by_session st) i)) (ep_pending st)) c = None"
    using score_fold_rem by blast
  then show ?thesis
    using assms by (auto simp: lost_def delete_session_episodes_def Let_def ids_ok_def map_of_fold_bt_remove zset_ok_fold_rem
        split: if_splits)
qed

lemma lost_step: "q_step cfg show_uuid l S S' \<Longrightarrow> l \<noteq> Some c \<Longrightarrow> lost c d S \<Longrightarrow> lost c d S'"
proof (induction rule: q_step.induct)
  case (ClaimLost e st st' es claimed ws)
  show ?case
    by (rule lost_workers [OF lost_claim_remove [OF ClaimLost(1,3)]]) (use lost_owner [OF ClaimLost(3)] in auto)
next
  case (ClaimWon e st st' es claimed ws)
  have "e_id e \<noteq> c" using ClaimWon(1,3) by (auto dest!: claim_removeD simp: lost_def)
  then show ?case
    by (intro lost_workers [OF lost_claim_remove [OF ClaimWon(1,3)]]) (use lost_owner [OF ClaimWon(3)] in auto)
next
  case (MarkOk e st b st' es claimed ws)
  note o = lost_owner [OF MarkOk(3)]
  have "e_id e \<noteq> c" using o by auto
  then show ?case by (intro lost_workers [OF lost_claim_mark [OF MarkOk(1) _ MarkOk(3)]]) (use o in auto)
next
  case (MarkErr e st err st' es claimed ws)
  note o = lost_owner [OF MarkErr(3)]
  have "e_id e \<noteq> c" using o by auto
  then show ?case by (intro lost_workers [OF lost_claim_mark [OF MarkErr(1) _ MarkErr(3)]]) (use o in auto)
next
  case (Complete st xs e ys ws entity_ids edge_ids)
  note o = lost_owner [OF Complete(2)]
  show ?case by (rule lost_update [OF Complete(2)]) (use o in \<open>auto simp: mark_completed_def\<close>)
next
  case (FailRetry s d' e err delay e' st xs ys ws)
  note o = lost_owner [OF FailRetry(4)]
  show ?case by (rule lost_update [OF FailRetry(4)]) (use o requeue_keeps_id [OF FailRetry(2)] in auto)
next
  case (FailFinal s d' e err e' st xs ys ws)
  note o = lost_owner [OF FailFinal(4)]
  show ?case by (rule lost_update [OF FailFinal(4)]) (use o requeue_keeps_id [OF FailFinal(2)] in auto)
next
  case (Requeue st xs e delay ys ws now)
  note o = lost_owner [OF Requeue(2)]
  have "e_id e \<noteq> c" using o by auto
  then have "lost c d (requeue_episode (e_id e) delay now st, add_mset (Running (xs @ (e, Retrying delay) # ys)) ws)"
    using Requeue(2) by (auto simp: lost_def requeue_episode_def zset.score_add ids_ok_def)
  then show ?case by (rule lost_workers) (use o in auto)
next
  case (Create req s u a i now ws st now1 now2)
  show ?case by (rule lost_create) (use Create in auto)
next
  case (Delete st ws i)
  show ?case by (rule lost_delete [OF Delete(2)])
next
  case (DeleteAll st ws i)
  show ?case by (rule lost_delete_all [OF DeleteAll(2)])
next
  case (Poll st ws)
  show ?case by (rule lost_workers [OF Poll(2)]) (use lost_owner [OF Poll(2)] in auto)
next
  case (Start st claimed ws)
  show ?case by (rule lost_workers [OF Start(2)]) (use lost_owner [OF Start(2)] in auto)
next
  case (Done st xs e ys ws)
  show ?case by (rule lost_workers [OF Done(2)]) (use lost_owner [OF Done(2)] in auto)
next
  case (Rest st ws)
  show ?case by (rule lost_workers [OF Rest(2)]) (use lost_owner [OF Rest(2)] in auto)
next
  case (Crash st w ws)
  show ?case by (rule lost_workers [OF Crash(2)]) (use lost_owner [OF Crash(2)] in auto)
qed

section \<open>An episode that keeps failing\<close>

text \<open>One round of it: a poll read it, a claim wins it, the processing fails.\<close>

definition failing_attempt :: "u32 \<Rightarrow> uuid \<Rightarrow> string \<Rightarrow> timestamp \<Rightarrow> episode_store \<Rightarrow> episode_store" where
  "failing_attempt max_retries i err now st =
     (case get_episode i st of
        Inl _ \<Rightarrow> st
      | Inr e \<Rightarrow>
        (case claim_episode i st of
           (Inr True, st') \<Rightarrow> handle_failure max_retries e err now st'
         | (_, st') \<Rightarrow> st'))"

definition attempts_left :: "u32 \<Rightarrow> uuid \<Rightarrow> u32 \<Rightarrow> episode_store \<Rightarrow> bool" where
  "attempts_left max_retries i r st \<longleftrightarrow> zset_ok (ep_pending st) \<and> zscore (ep_pending st) i \<noteq> None \<and>
     (\<exists>e. map_of (ep_episodes st) i = Some e \<and> e_id e = i \<and> e_retry_count e = r) \<and> r \<le> max_retries"

definition given_up :: "uuid \<Rightarrow> episode_store \<Rightarrow> bool" where
  "given_up i st \<longleftrightarrow> zscore (ep_pending st) i = None \<and> (\<exists>e. map_of (ep_episodes st) i = Some e \<and> e_status e = PsFailed)"

lemma failing_attempt_cases:
  assumes "attempts_left m i r st"
  shows "r < m \<Longrightarrow> attempts_left m i (r + 1) (failing_attempt m i err now st)"
    and "r = m \<Longrightarrow> given_up i (failing_attempt m i err now st)"
proof -
  obtain e where e: "map_of (ep_episodes st) i = Some e" "e_id e = i" "e_retry_count e = r"
    and z: "zset_ok (ep_pending st)" "zscore (ep_pending st) i \<noteq> None"
    using assms by (auto simp: attempts_left_def)
  let ?st1 = "update_episode (mark_processing e) (st\<lparr>ep_pending := zrem i (ep_pending st)\<rparr>)"
  have step: "failing_attempt m i err now st = handle_failure m e err now ?st1"
    using e z by (simp add: failing_attempt_def get_episode_def claim_episode_def claim_remove_def claim_mark_def)
  show "attempts_left m i (r + 1) (failing_attempt m i err now st)" if "r < m"
  proof -
    have "r + 1 \<le> m" using that by (simp add: inc_le)
    moreover have "handle_failure m e err now ?st1 = requeue_episode i (500 * 2 ^ unat r) now
        (update_episode (e\<lparr>e_retry_count := r + 1, e_status := PsPending, e_error := Some err\<rparr>) ?st1)"
      using that e by (simp add: handle_failure_def requeue_retry)
    ultimately show ?thesis
      using e z unfolding step
      by (simp add: attempts_left_def requeue_episode_def update_episode_def map_of_bt_insert zset.score_add)
  qed
  show "given_up i (failing_attempt m i err now st)" if "r = m"
    using that e z unfolding step
    by (simp add: handle_failure_def requeue_for_retry_def given_up_def update_episode_def map_of_bt_insert
        mark_failed_def mark_processing_def zset.score_rem)
qed

section \<open>Properties\<close>



text \<open>A claim that fails strands the episodes claimed before it. When an episode is deleted between
  the two commands of its claim, the poll returns the error and drops what it had claimed: those
  episodes stay marked as processing, outside the queue, and in no run of any workers and
  handlers are they owned, queued or written again, unless a client creates an episode under the
  same identifier.\<close>

theorem claim_error_strands:
  assumes "exclusive (st, add_mset (Claiming (e # es) claimed) ws)" and "ids_ok st"
    and "zscore (ep_pending st) (e_id e) \<noteq> None" and "map_of (ep_episodes st) (e_id e) \<noteq> None"
    and "c \<in> set claimed" and "map_of (ep_episodes st) (e_id c) = Some d"
  shows "\<exists>st'. q_run cfg show_uuid {e_id c} (st, add_mset (Claiming (e # es) claimed) ws) (st', add_mset Idle ws) \<and>
    map_of (ep_episodes st') (e_id c) = Some d \<and>
    (\<forall>S. q_run cfg show_uuid {e_id c} (st', add_mset Idle ws) S \<longrightarrow> lost (e_id c) d S)"
proof -
  let ?S0 = "(st, add_mset (Claiming (e # es) claimed) ws)"
  let ?i = "e_id e"
  define st1 where "st1 = st\<lparr>ep_pending := zrem ?i (ep_pending st)\<rparr>"
  define st2 where "st2 = snd (delete_episode ?i st1)"
  have z: "zset_ok (ep_pending st)" using exclusive_zset [OF assms(1)] .
  have cnt: "count (owners (snd ?S0)) (e_id c) + queued st (e_id c) \<le> 1"
    using assms(1) by (simp only: exclusive_def fst_conv snd_conv)
  have "e_id c \<in># image_mset e_id (mset claimed)" using assms(5) by simp
  then have one: "1 \<le> count (image_mset e_id (mset claimed)) (e_id c)" by (simp only: count_greater_eq_one_iff)
  from cnt have "count (image_mset e_id (mset claimed)) (e_id c) + count (owners ws) (e_id c) + queued st (e_id c) \<le> 1"
    by simp
  with one have "count (owners ws) (e_id c) = 0" "queued st (e_id c) = 0" by linarith+
  then have free: "e_id c \<notin># owners ws" "queued st (e_id c) = 0" by (simp_all add: not_in_iff)
  then have ne: "e_id c \<noteq> ?i" using assms(3) by (auto simp: queued_def)
  have "q_step cfg show_uuid None ?S0 (st1, add_mset (Marking e es claimed) ws)"
    by (rule q_step.ClaimWon) (use assms(3) in \<open>simp add: claim_remove_def st1_def\<close>)
  moreover have "q_step cfg show_uuid None (st1, add_mset (Marking e es claimed) ws) (st2, add_mset (Marking e es claimed) ws)"
    unfolding st2_def by (rule q_step.Delete)
  moreover have "map_of (ep_episodes st2) ?i = None"
    using assms(4) by (auto simp: st2_def st1_def delete_episode_def get_episode_def map_of_bt_remove)
  then have "claim_mark ?i st2 = (Inl (EpisodeNotFound ?i), st2)" by (simp add: claim_mark_def get_episode_def)
  then have "q_step cfg show_uuid None (st2, add_mset (Marking e es claimed) ws) (st2, add_mset Idle ws)"
    by (rule q_step.MarkErr)
  ultimately have run: "q_run cfg show_uuid {e_id c} ?S0 (st2, add_mset Idle ws)"
    by (meson q_run_step q_run_trans imageE option.distinct(1))
  have doc: "map_of (ep_episodes st2) (e_id c) = Some d"
    using assms(4,6) ne by (auto simp: st2_def st1_def delete_episode_def get_episode_def map_of_bt_remove)
  have "ids_ok st1" using assms(2) by (simp add: ids_ok_def st1_def)
  moreover have "zscore (ep_pending st) (e_id c) = None" using free(2) by (simp add: queued_def split: if_splits)
  moreover have "ep_pending st1 = zrem ?i (ep_pending st)" "ep_episodes st1 = ep_episodes st" by (simp_all add: st1_def)
  ultimately have "lost (e_id c) d (st1, add_mset Idle ws)"
    using z assms(6) free(1) by (simp add: lost_def zset.score_rem)
  then have "lost (e_id c) d (st2, add_mset Idle ws)" unfolding st2_def by (rule lost_delete)
  then have "lost (e_id c) d S" if "q_run cfg show_uuid {e_id c} (st2, add_mset Idle ws) S" for S
    by (rule q_run_invariant [OF that]) (auto intro: lost_step)
  with run doc show ?thesis by blast
qed

text \<open>An episode and a store with two episodes, of which the second one is claimed.\<close>

definition sample_episode :: "uuid \<Rightarrow> processing_status \<Rightarrow> episode" where
  "sample_episode i status = (from_multimodal 9 1 MText ''hello'' 3 i 0)\<lparr>e_status := status\<rparr>"

definition sample_store :: episode_store where
  "sample_store = (episode_store_new (session_store_new user_store_new))
     \<lparr>ep_episodes := [(1, sample_episode 1 PsPending), (2, sample_episode 2 PsProcessing)], ep_pending := [(0, 1)]\<rparr>"

lemma claim_error_strands_witness:
  "\<exists>st'. q_run ingest_config_default (\<lambda>_. []) {2}
     (sample_store, {#Claiming [sample_episode 1 PsPending] [sample_episode 2 PsPending]#}) (st', {#Idle#}) \<and>
     map_of (ep_episodes st') 2 = Some (sample_episode 2 PsProcessing)"
proof -
  let ?e = "sample_episode 1 PsPending" and ?c = "sample_episode 2 PsPending"
  have i: "e_id (sample_episode k s) = k" for k s by (simp add: sample_episode_def from_multimodal_def)
  have "exclusive (sample_store, add_mset (Claiming [?e] [?c]) {#})"
    by (simp add: exclusive_def queued_def sample_store_def zset_ok_def i zscore_def)
  moreover have "ids_ok sample_store" by (simp add: ids_ok_def sample_store_def i)
  ultimately show ?thesis
    using claim_error_strands [where e = ?e and es = "[]" and claimed = "[?c]" and ws = "{#}" and st = sample_store
        and c = ?c and d = "sample_episode 2 PsProcessing" and cfg = ingest_config_default and show_uuid = "\<lambda>_. []"]
    by (auto simp: i sample_store_def zscore_def)
qed

text \<open>The backoff has no effect: an episode whose processing failed is handed out by the very next
  poll whatever the delay and whatever the time, provided the queue is shorter than what a poll
  reads; the score that encodes the delay is written but never compared with the clock.\<close>

theorem retry_ignores_backoff:
  assumes "e_retry_count e < max_retries" and "length (ep_pending (handle_failure max_retries e err now st)) \<le> unat limit"
    and "zset_ok (ep_pending st)"
  shows "\<exists>e' \<in> set (get_pending_episodes limit (handle_failure max_retries e err now st)).
    e_id e' = e_id e \<and> e_retry_count e' = e_retry_count e + 1"
proof -
  let ?st = "handle_failure max_retries e err now st"
  let ?e = "e\<lparr>e_retry_count := e_retry_count e + 1, e_status := PsPending, e_error := Some err\<rparr>"
  obtain sc where st: "ep_pending ?st = zadd sc (e_id e) (ep_pending st)" "map_of (ep_episodes ?st) (e_id e) = Some ?e"
  proof -
    have "?st = requeue_episode (e_id e) (500 * 2 ^ unat (e_retry_count e)) now (update_episode ?e st)"
      using assms(1) by (simp add: handle_failure_def requeue_retry)
    then show ?thesis
      by (intro that) (simp_all add: requeue_episode_def update_episode_def map_of_bt_insert)
  qed
  have "e_id e \<in> set (map snd (ep_pending ?st))" unfolding st(1) by (force simp: set_zadd)
  moreover have "zrange (ep_pending ?st) (int (unat limit) - 1) = map snd (ep_pending ?st)"
  proof (cases "unat limit = 0")
    case True
    then have "ep_pending ?st = []" using assms(2) by simp
    then show ?thesis by (simp add: zrange_def)
  next
    case False
    then have "\<not> int (unat limit) - 1 < 0" by linarith
    then show ?thesis using assms(2) by (simp add: zrange_def)
  qed
  ultimately have "e_id e \<in> set (zrange (ep_pending ?st) (int (unat limit) - 1))" by simp
  then have "?e \<in> set (get_pending_episodes limit ?st)"
    using st(2) by (force simp: get_pending_episodes_def List.map_filter_def)
  then show ?thesis by (intro bexI [of _ ?e]) simp_all
qed

lemma retry_ignores_backoff_witness:
  "\<exists>e' \<in> set (get_pending_episodes 10 (handle_failure 3 (sample_episode 2 PsProcessing) ''timeout'' 0 sample_store)).
     e_id e' = e_id (sample_episode 2 PsProcessing) \<and> e_retry_count e' = e_retry_count (sample_episode 2 PsProcessing) + 1"
  by (rule retry_ignores_backoff)
    (simp_all add: sample_episode_def sample_store_def from_multimodal_def handle_failure_def requeue_for_retry_def
      requeue_episode_def update_episode_def zadd_def zrem_def zset_ok_def)

text \<open>C11: An episode that keeps failing is given up: after as many failing attempts as it has retries
  left it is still queued, with exactly the retry limit reached, and the next failing attempt marks
  it failed and leaves it out of the queue. So the number of attempts is bounded by the retry
  limit plus one.\<close>

theorem failing_episode_is_given_up:
  assumes "attempts_left max_retries i r st"
  shows "attempts_left max_retries i max_retries ((failing_attempt max_retries i err now ^^ unat (max_retries - r)) st) \<and>
    given_up i ((failing_attempt max_retries i err now ^^ Suc (unat (max_retries - r))) st)"
proof -
  let ?f = "failing_attempt max_retries i err now"
  have left: "r \<le> max_retries" using assms by (simp add: attempts_left_def)
  have "attempts_left max_retries i (r + of_nat k) ((?f ^^ k) st)" if "k \<le> unat (max_retries - r)" for k
    using that
  proof (induction k)
    case (Suc k)
    have IH: "attempts_left max_retries i (r + of_nat k) ((?f ^^ k) st)" using Suc by simp
    have "unat r + k < unat max_retries"
      using Suc.prems left by (simp add: unat_sub Suc_le_eq less_diff_conv add.commute)
    moreover have "unat max_retries < 2 ^ 32" using unsigned_less [where w = max_retries and 'a = nat] by simp
    ultimately have "unat (r + of_nat k) = unat r + k" "unat r + k < unat max_retries"
      by (simp_all add: unat_word_ariths unat_of_nat)
    then have "r + of_nat k < max_retries" by (simp add: word_less_nat_alt)
    from failing_attempt_cases(1) [OF IH this, of err now] show ?case by (simp add: ac_simps)
  qed (use assms in simp)
  from this [of "unat (max_retries - r)"]
  have full: "attempts_left max_retries i max_retries ((?f ^^ unat (max_retries - r)) st)" by simp
  with failing_attempt_cases(2) [OF full refl, of err now] show ?thesis by simp
qed

lemma failing_episode_is_given_up_witness:
  "given_up 1 ((failing_attempt 3 1 ''timeout'' 0 ^^ Suc (unat (3 - 0 :: u32))) sample_store)"
  by (rule failing_episode_is_given_up [THEN conjunct2])
    (simp add: attempts_left_def sample_store_def sample_episode_def from_multimodal_def zset_ok_def zscore_def)

end
