(* ===== verification/Context_Block.thy ===== *)
theory Context_Block
  imports Access
begin

text \<open>
  The context block of \<^verbatim>\<open>mnemo-core/src/models/context.rs\<close>: its summaries, the token
  estimate, the assembly of the text under a token budget, the structured supplement and the
  collector of explanations. \<open>fmt_date\<close> stands for \<^verbatim>\<open>format("%Y-%m-%d")\<close> of the
  \<^verbatim>\<open>chrono\<close> crate. Tiered assembly, whose partition multiplies floats, is not modelled.
\<close>

section \<open>Summaries\<close>

record entity_summary =
  es_id :: uuid
  es_name :: string
  es_entity_type :: string
  es_classification :: classification
  es_summary :: "string option"
  es_relevance :: f32

record fact_summary =
  fs_id :: uuid
  fs_source_entity :: string
  fs_target_entity :: string
  fs_label :: string
  fs_fact :: string
  fs_classification :: classification
  fs_valid_at :: timestamp
  fs_invalid_at :: "timestamp option"
  fs_relevance :: f32
  fs_access_count :: u32
  fs_last_accessed_at :: "timestamp option"
  fs_temporal_scope :: "string option"

record episode_summary =
  eps_id :: uuid
  eps_session_id :: uuid
  eps_role :: "string option"
  eps_preview :: string
  eps_created_at :: timestamp
  eps_relevance :: f32

datatype retrieval_source =
  SemanticSearch | FullTextSearch | GraphTraversal | TemporalScoring | EpisodeRecall | SessionSummary

datatype temporal_intent = TiAuto | TiCurrent | TiRecent | TiHistorical

record temporal_diagnostics =
  td_resolved_intent :: temporal_intent
  td_temporal_weight :: f32
  td_as_of :: "timestamp option"
  td_entities_scored :: u32
  td_facts_scored :: u32
  td_episodes_scored :: u32

datatype retrieval_reason =
  SemanticMatch | GraphConnection | MostRecentBelief | TemporalRelevance | ContractRequired | Reinforced | FullTextMatch

record retrieval_explanation =
  re_id :: uuid
  re_reason :: retrieval_reason
  re_detail :: string

record key_fact =
  kf_subject :: string
  kf_predicate :: string
  kf_object :: string
  kf_valid_at :: timestamp
  kf_confidence :: f32
  kf_source_fact_id :: uuid

record recent_change =
  rc_fact :: string
  rc_changed_at :: timestamp
  rc_source_fact_id :: uuid

record relationship_summary =
  rs_from :: string
  rs_relation :: string
  rs_to :: string
  rs_confidence :: f32

record structured_context =
  sc_key_facts :: "key_fact list"
  sc_recent_changes :: "recent_change list"
  sc_relationships :: "relationship_summary list"
  sc_open_questions :: "string list"

text \<open>The block; the attachments, which no operation here touches, are left out.\<close>

record context_block =
  cb_context :: string
  cb_token_count :: u32
  cb_entities :: "entity_summary list"
  cb_facts :: "fact_summary list"
  cb_episodes :: "episode_summary list"
  cb_latency_ms :: u64
  cb_sources :: "retrieval_source list"
  cb_temporal_diagnostics :: "temporal_diagnostics option"
  cb_routing_decision :: "json option"
  cb_structured :: "structured_context option"
  cb_explanations :: "retrieval_explanation list option"
  cb_query_type :: "string option"

definition context_empty :: context_block where
  "context_empty =
     \<lparr>cb_context = [], cb_token_count = 0, cb_entities = [], cb_facts = [], cb_episodes = [],
      cb_latency_ms = 0, cb_sources = [], cb_temporal_diagnostics = None, cb_routing_decision = None,
      cb_structured = None, cb_explanations = None, cb_query_type = None\<rparr>"

section \<open>Explanations\<close>

definition explanation_record ::
  "uuid \<Rightarrow> retrieval_reason \<Rightarrow> string \<Rightarrow> retrieval_explanation list \<Rightarrow> retrieval_explanation list" where
  "explanation_record i reason detail es =
     (if list_ex (\<lambda>e. re_id e = i) es then es
      else es @ [\<lparr>re_id = i, re_reason = reason, re_detail = detail\<rparr>])"

lemma explanation_record_distinct:
  "distinct (map re_id es) \<Longrightarrow> distinct (map re_id (explanation_record i reason detail es))"
  by (auto simp: explanation_record_def list_ex_iff)

section \<open>Assembly\<close>

text \<open>\<^verbatim>\<open>(text.len() as f64 / 4.0).ceil() as u32\<close>; the cast saturates.\<close>

definition estimate_tokens :: "string \<Rightarrow> u32" where
  "estimate_tokens text = of_nat (min (2 ^ 32 - 1) ((length text + 3) div 4))"

definition nl :: string where
  "nl = [CHR 0x0A]"

definition entity_line :: "entity_summary \<Rightarrow> string" where
  "entity_line e =
     (case es_summary e of
        Some s \<Rightarrow> ''- '' @ es_name e @ '' ('' @ es_entity_type e @ ''): '' @ s @ nl
      | None \<Rightarrow> ''- '' @ es_name e @ '' ('' @ es_entity_type e @ '')'' @ nl)"

definition fact_line :: "fact_summary \<Rightarrow> string" where
  "fact_line f = ''- '' @ fs_fact f @ (if fs_invalid_at f \<noteq> None then '' [superseded]'' else []) @ nl"

definition episode_line :: "(timestamp \<Rightarrow> string) \<Rightarrow> episode_summary \<Rightarrow> string" where
  "episode_line fmt_date ep =
     ''- ['' @ fmt_date (eps_created_at ep) @ ''] '' @
     (case eps_role ep of Some r \<Rightarrow> r | None \<Rightarrow> ''unknown'') @ '': '' @ eps_preview ep @ nl"

text \<open>The item loop of a section: it stops at the first line that does not fit.\<close>

fun add_lines :: "u32 \<Rightarrow> string list \<Rightarrow> string \<times> u32 \<times> nat \<Rightarrow> string \<times> u32 \<times> nat" where
  "add_lines max_tokens [] acc = acc"
| "add_lines max_tokens (line # lines) (section, running, added) =
     (let tokens = estimate_tokens line in
      if running + tokens > max_tokens then (section, running, added)
      else add_lines max_tokens lines (section @ line, running + tokens, added + 1))"

text \<open>
  One of the three sections. The last one does not give its header back when it stays empty,
  which has no effect, since nothing reads the running total after it.
\<close>

definition add_section :: "u32 \<Rightarrow> string \<Rightarrow> string list \<Rightarrow> string list \<times> u32 \<Rightarrow> string list \<times> u32" where
  "add_section max_tokens header lines acc =
     (case acc of (parts, running) \<Rightarrow>
      if lines = [] then (parts, running)
      else
        let header_tokens = estimate_tokens header in
        if running + header_tokens \<le> max_tokens then
          case add_lines max_tokens lines (header, running + header_tokens, 0) of (section, running', added) \<Rightarrow>
            if added > 0 then (parts @ [section], running') else (parts, running' - header_tokens)
        else (parts, running))"

fun join_with :: "string \<Rightarrow> string list \<Rightarrow> string" where
  "join_with sep [] = []"
| "join_with sep [x] = x"
| "join_with sep (x # y # xs) = x @ sep @ join_with sep (y # xs)"

definition assembled_parts :: "(timestamp \<Rightarrow> string) \<Rightarrow> u32 \<Rightarrow> context_block \<Rightarrow> string list \<times> u32" where
  "assembled_parts fmt_date max_tokens cb =
     add_section max_tokens (''Relevant conversation history:'' @ nl) (map (episode_line fmt_date) (cb_episodes cb))
       (add_section max_tokens (''Current facts:'' @ nl) (map fact_line (cb_facts cb))
         (add_section max_tokens (''Known entities:'' @ nl) (map entity_line (cb_entities cb)) ([], 0)))"

definition assemble :: "(timestamp \<Rightarrow> string) \<Rightarrow> u32 \<Rightarrow> context_block \<Rightarrow> context_block" where
  "assemble fmt_date max_tokens cb =
     (let text = join_with nl (fst (assembled_parts fmt_date max_tokens cb))
      in cb\<lparr>cb_context := text, cb_token_count := estimate_tokens text\<rparr>)"

definition build_structured :: "timestamp \<Rightarrow> context_block \<Rightarrow> structured_context" where
  "build_structured now cb =
     (let thirty_days_ago = now - 30 * ns_per_day in
      \<lparr>sc_key_facts = map (\<lambda>f. \<lparr>kf_subject = fs_source_entity f, kf_predicate = fs_label f,
           kf_object = fs_target_entity f, kf_valid_at = fs_valid_at f, kf_confidence = fs_relevance f,
           kf_source_fact_id = fs_id f\<rparr>) (take 10 (filter (\<lambda>f. fs_invalid_at f = None) (cb_facts cb))),
       sc_recent_changes = map (\<lambda>f. \<lparr>rc_fact = fs_fact f, rc_changed_at = fs_valid_at f, rc_source_fact_id = fs_id f\<rparr>)
           (take 5 (filter (\<lambda>f. fs_valid_at f \<ge> thirty_days_ago) (cb_facts cb))),
       sc_relationships = map (\<lambda>f. \<lparr>rs_from = fs_source_entity f, rs_relation = fs_label f,
           rs_to = fs_target_entity f, rs_confidence = fs_relevance f\<rparr>)
           (take 8 (filter (\<lambda>f. fs_source_entity f \<noteq> [] \<and> fs_target_entity f \<noteq> []) (cb_facts cb))),
       sc_open_questions = []\<rparr>)"

section \<open>The budget\<close>

lemma estimate_tokens_small:
  "length t < 2 ^ 32 \<Longrightarrow> unat (estimate_tokens t) = (length t + 3) div 4"
proof -
  assume a: "length t < 2 ^ 32"
  then have "min (2 ^ 32 - 1) ((length t + 3) div 4) = (length t + 3) div 4" by simp
  moreover have "(length t + 3) div 4 < 2 ^ 32" using a by simp
  moreover have "(2 :: nat) ^ LENGTH(32) = 2 ^ 32" by simp
  ultimately show ?thesis unfolding estimate_tokens_def by (simp only: unat_of_nat mod_less)
qed

lemma estimate_tokens_bytes: "length t < 2 ^ 32 \<Longrightarrow> length t \<le> 4 * unat (estimate_tokens t)"
  by (simp only: estimate_tokens_small)

text \<open>No line is so long that adding its estimate overflows.\<close>

abbreviation short :: "string \<Rightarrow> bool" where
  "short s \<equiv> length s < 2 ^ 31"

lemma unat_add_tokens:
  "unat (a :: u32) < 2 ^ 31 \<Longrightarrow> short t \<Longrightarrow> unat (a + estimate_tokens t) = unat a + (length t + 3) div 4"
  using estimate_tokens_small [of t] by (simp add: unat_word_ariths)

text \<open>Text and tokens keep pace, and the running total stays within the budget.\<close>

lemma add_lines_budget:
  assumes "\<forall>l \<in> set lines. short l" and "unat max_tokens < 2 ^ 31" and "unat running \<le> unat max_tokens"
    and "length sec + slack \<le> 4 * unat running"
    and "add_lines max_tokens lines (sec, running, added) = (sec', running', added')"
  shows "unat running' \<le> unat max_tokens \<and> length sec' + slack \<le> 4 * unat running' \<and>
    unat running \<le> unat running' \<and> (added' = added \<longrightarrow> running' = running) \<and> added \<le> added'"
  using assms
proof (induction lines arbitrary: sec running added)
  case (Cons l lines)
  have r: "unat (running + estimate_tokens l) = unat running + (length l + 3) div 4"
    using Cons.prems(1-3) by (intro unat_add_tokens) auto
  show ?case
  proof (cases "running + estimate_tokens l > max_tokens")
    case True
    with Cons.prems show ?thesis by (simp add: Let_def)
  next
    case False
    have le: "unat (running + estimate_tokens l) \<le> unat max_tokens"
      using False by (simp add: word_le_nat_alt not_less)
    have "length (sec @ l) + slack \<le> 4 * unat (running + estimate_tokens l)"
      using Cons.prems(4) unfolding r by (simp add: algebra_simps)
    moreover have "add_lines max_tokens lines (sec @ l, running + estimate_tokens l, added + 1) =
        (sec', running', added')"
      using Cons.prems(5) False by (simp add: Let_def)
    ultimately have "unat running' \<le> unat max_tokens \<and> length sec' + slack \<le> 4 * unat running' \<and>
        unat (running + estimate_tokens l) \<le> unat running' \<and>
        (added' = added + 1 \<longrightarrow> running' = running + estimate_tokens l) \<and> added + 1 \<le> added'"
      using Cons.prems(1,2) le by (intro Cons.IH) auto
    then show ?thesis unfolding r by auto
  qed
qed simp

lemma join_with_snoc:
  "length (join_with sep (xs @ [x])) = length (join_with sep xs) + (if xs = [] then 0 else length sep) + length x"
proof (induction xs)
  case (Cons a xs)
  then show ?case by (cases xs) simp_all
qed simp

text \<open>A section whose header estimate leaves a byte for the separator, unless it comes first.\<close>

lemma add_section_budget:
  assumes "\<forall>l \<in> set lines. short l" and "unat max_tokens < 2 ^ 31" and "short header"
    and "parts \<noteq> [] \<longrightarrow> length header mod 4 \<noteq> 0"
    and "length (join_with nl parts) \<le> 4 * unat running" and "unat running \<le> unat max_tokens"
    and "add_section max_tokens header lines (parts, running) = (parts', running')"
  shows "length (join_with nl parts') \<le> 4 * unat running' \<and> unat running' \<le> unat max_tokens"
proof (cases "lines = [] \<or> \<not> running + estimate_tokens header \<le> max_tokens")
  case True
  then have "parts' = parts" "running' = running"
    using assms(7) by (auto simp: add_section_def Let_def split: if_splits)
  with assms show ?thesis by simp
next
  case False
  let ?slack = "length (join_with nl parts) + (if parts = [] then 0 else 1)"
  obtain sec r added where l: "add_lines max_tokens lines (header, running + estimate_tokens header, 0) = (sec, r, added)"
    by (metis prod_cases3)
  have h: "unat (running + estimate_tokens header) = unat running + (length header + 3) div 4"
    using assms by (intro unat_add_tokens) auto
  have hd: "length header + (if parts = [] then 0 else 1) \<le> 4 * ((length header + 3) div 4)"
    using assms(4) by (cases "parts = []") (simp_all, presburger)
  have "unat r \<le> unat max_tokens \<and> length sec + ?slack \<le> 4 * unat r \<and>
      unat (running + estimate_tokens header) \<le> unat r \<and> (added = 0 \<longrightarrow> r = running + estimate_tokens header) \<and> 0 \<le> added"
  proof (rule add_lines_budget [OF assms(1,2) _ _ l])
    show "unat (running + estimate_tokens header) \<le> unat max_tokens"
      using False by (simp add: word_le_nat_alt)
    show "length header + ?slack \<le> 4 * unat (running + estimate_tokens header)"
      unfolding h using hd assms(5) by (simp add: algebra_simps)
  qed
  moreover have "parts' = (if added > 0 then parts @ [sec] else parts)"
      "running' = (if added > 0 then r else r - estimate_tokens header)"
    using assms(7) False l by (auto simp: add_section_def Let_def split: if_splits)
  ultimately show ?thesis
    using assms(5,6) by (auto simp: join_with_snoc nl_def split: if_splits)
qed

section \<open>Properties\<close>

text \<open>C8: The assembled text keeps its token budget: whatever entities, facts and episodes the block
  holds, the token count of the assembled context is at most \<^verbatim>\<open>max_tokens\<close>, headers and
  separators included, provided no line and no budget reaches \<open>2 ^ 31\<close>.\<close>

theorem assemble_within_budget:
  assumes "unat max_tokens < 2 ^ 31"
    and "\<forall>e \<in> set (cb_entities cb). short (entity_line e)"
    and "\<forall>f \<in> set (cb_facts cb). short (fact_line f)"
    and "\<forall>e \<in> set (cb_episodes cb). short (episode_line fmt_date e)"
  shows "cb_token_count (assemble fmt_date max_tokens cb) \<le> max_tokens \<and>
    cb_token_count (assemble fmt_date max_tokens cb) = estimate_tokens (cb_context (assemble fmt_date max_tokens cb))"
proof -
  obtain p1 r1 where s1: "add_section max_tokens (''Known entities:'' @ nl) (map entity_line (cb_entities cb)) ([], 0) = (p1, r1)"
    by fastforce
  obtain p2 r2 where s2: "add_section max_tokens (''Current facts:'' @ nl) (map fact_line (cb_facts cb)) (p1, r1) = (p2, r2)"
    by fastforce
  obtain p3 r3 where s3: "add_section max_tokens (''Relevant conversation history:'' @ nl)
      (map (episode_line fmt_date) (cb_episodes cb)) (p2, r2) = (p3, r3)"
    by fastforce
  have b1: "length (join_with nl p1) \<le> 4 * unat r1 \<and> unat r1 \<le> unat max_tokens"
    by (rule add_section_budget [OF _ assms(1) _ _ _ _ s1]) (use assms in \<open>simp_all add: nl_def\<close>)
  have b2: "length (join_with nl p2) \<le> 4 * unat r2 \<and> unat r2 \<le> unat max_tokens"
    by (rule add_section_budget [OF _ assms(1) _ _ _ _ s2]) (use assms b1 in \<open>simp_all add: nl_def\<close>)
  have b3: "length (join_with nl p3) \<le> 4 * unat r3 \<and> unat r3 \<le> unat max_tokens"
    by (rule add_section_budget [OF _ assms(1) _ _ _ _ s3]) (use assms b2 in \<open>simp_all add: nl_def\<close>)
  then have "length (join_with nl p3) \<le> 4 * unat max_tokens" by linarith
  then have "(length (join_with nl p3) + 3) div 4 \<le> unat max_tokens" by linarith
  moreover have "unat (estimate_tokens (join_with nl p3)) \<le> (length (join_with nl p3) + 3) div 4"
    unfolding estimate_tokens_def unat_of_nat by (rule order_trans [OF mod_less_eq_dividend]) simp
  moreover have "assembled_parts fmt_date max_tokens cb = (p3, r3)"
    unfolding assembled_parts_def s1 s2 s3 by (rule refl)
  ultimately show ?thesis
    by (simp add: assemble_def Let_def word_le_nat_alt)
qed

lemma assemble_within_budget_witness:
  "cb_token_count (assemble (\<lambda>_. ''2026-01-01'') 6 (context_empty\<lparr>cb_entities :=
     [\<lparr>es_id = 1, es_name = ''Acme'', es_entity_type = ''org'', es_classification = ClPublic,
       es_summary = None, es_relevance = Fin 1\<rparr>]\<rparr>)) \<le> 6"
  by (rule assemble_within_budget [THEN conjunct1]) (simp_all add: context_empty_def entity_line_def nl_def)

end
