(* ===== verification/User_Policy.thy ===== *)
theory User_Policy
  imports Episodes Context_Block
begin

text \<open>
  Per-user policies: the record of \<^verbatim>\<open>mnemo-server/src/state.rs\<close> and the functions and handlers of
  \<^verbatim>\<open>mnemo-server/src/routes.rs\<close> that read, patch and enforce it (retention, webhook targets,
  default contract). Persistence of the map and the governance audit are not part of the results.
  \<open>url_host\<close> stands for the host of a parsed URL (\<^verbatim>\<open>reqwest::Url\<close>).
\<close>

section \<open>Contracts and retrieval policies\<close>

datatype memory_contract = McDefault | McSupportSafe | McCurrentStrict | McHistoricalStrict

datatype adaptive_retrieval_policy = RpBalanced | RpPrecision | RpRecall | RpStability

definition parse_memory_contract_default :: "string \<Rightarrow> memory_contract" where
  "parse_memory_contract_default value =
     (let v = lowercase (trim value) in
      if v = ''support_safe'' then McSupportSafe
      else if v = ''current_strict'' then McCurrentStrict
      else if v = ''historical_strict'' then McHistoricalStrict
      else McDefault)"

fun contract_strictness :: "memory_contract \<Rightarrow> u8" where
  "contract_strictness McDefault = 0"
| "contract_strictness McSupportSafe = 1"
| "contract_strictness McCurrentStrict = 2"
| "contract_strictness McHistoricalStrict = 3"

definition is_contract_downgrade :: "memory_contract \<Rightarrow> memory_contract \<Rightarrow> bool" where
  "is_contract_downgrade from_c to_c \<longleftrightarrow> contract_strictness to_c < contract_strictness from_c"

definition parse_retrieval_policy_default :: "string \<Rightarrow> adaptive_retrieval_policy" where
  "parse_retrieval_policy_default value =
     (let v = lowercase (trim value) in
      if v = ''precision'' then RpPrecision
      else if v = ''recall'' then RpRecall
      else if v = ''stability'' then RpStability
      else RpBalanced)"

section \<open>Policies\<close>

record user_policy_record =
  up_user_id :: uuid
  up_user_identifier :: string
  retention_days_message :: u32
  retention_days_text :: u32
  retention_days_json :: u32
  webhook_domain_allowlist :: "string list"
  default_memory_contract :: string
  default_retrieval_policy :: string
  up_created_at :: timestamp
  up_updated_at :: timestamp

record upsert_user_policy_request =
  upr_retention_days_message :: "u32 option"
  upr_retention_days_text :: "u32 option"
  upr_retention_days_json :: "u32 option"
  upr_webhook_domain_allowlist :: "string list option"
  upr_default_memory_contract :: "string option"
  upr_default_retrieval_policy :: "string option"

type_synonym policies = "(uuid, user_policy_record) btree_map"

definition default_user_policy :: "uuid \<Rightarrow> string \<Rightarrow> timestamp \<Rightarrow> user_policy_record" where
  "default_user_policy user_id ident now =
     \<lparr>up_user_id = user_id, up_user_identifier = ident, retention_days_message = 3650,
      retention_days_text = 3650, retention_days_json = 3650, webhook_domain_allowlist = [],
      default_memory_contract = ''default'', default_retrieval_policy = ''balanced'',
      up_created_at = now, up_updated_at = now\<rparr>"

definition get_or_create_user_policy ::
  "uuid \<Rightarrow> string \<Rightarrow> timestamp \<Rightarrow> policies \<Rightarrow> user_policy_record \<times> policies" where
  "get_or_create_user_policy user_id ident now ps =
     (case map_of ps user_id of
        Some p \<Rightarrow> (p, ps)
      | None \<Rightarrow> (let p = default_user_policy user_id ident now in (p, bt_insert user_id p ps)))"

definition normalize_domain_allowlist :: "string list option \<Rightarrow> string list" where
  "normalize_domain_allowlist values =
     filter (\<lambda>v. v \<noteq> []) (map (\<lambda>v. lowercase (trim v)) (case values of Some vs \<Rightarrow> vs | None \<Rightarrow> []))"

definition target_url_host :: "(string \<Rightarrow> string option) \<Rightarrow> string \<Rightarrow> string option" where
  "target_url_host url_host url = map_option lowercase (url_host url)"

definition ends_with :: "string \<Rightarrow> string \<Rightarrow> bool" where
  "ends_with s suffix \<longleftrightarrow> length suffix \<le> length s \<and> drop (length s - length suffix) s = suffix"

definition is_target_url_allowed :: "(string \<Rightarrow> string option) \<Rightarrow> user_policy_record \<Rightarrow> string \<Rightarrow> bool" where
  "is_target_url_allowed url_host policy target_url =
     (if webhook_domain_allowlist policy = [] then True
      else case target_url_host url_host target_url of
        None \<Rightarrow> False
      | Some host \<Rightarrow>
          list_ex (\<lambda>allowed. host = allowed \<or> ends_with host (CHR ''.'' # allowed)) (webhook_domain_allowlist policy))"

definition clamp_days :: "u32 \<Rightarrow> u32" where
  "clamp_days v = (if v < 1 then 1 else if 3650 < v then 3650 else v)"

definition patch_text :: "string option \<Rightarrow> string \<Rightarrow> string" where
  "patch_text value old =
     (case value of Some v \<Rightarrow> (let n = trim v in if n \<noteq> [] then n else old) | None \<Rightarrow> old)"

definition apply_user_policy_patch ::
  "user_policy_record \<Rightarrow> upsert_user_policy_request \<Rightarrow> timestamp \<Rightarrow> user_policy_record" where
  "apply_user_policy_patch policy req updated_at =
     policy\<lparr>retention_days_message :=
         (case upr_retention_days_message req of Some v \<Rightarrow> clamp_days v | None \<Rightarrow> retention_days_message policy),
       retention_days_text :=
         (case upr_retention_days_text req of Some v \<Rightarrow> clamp_days v | None \<Rightarrow> retention_days_text policy),
       retention_days_json :=
         (case upr_retention_days_json req of Some v \<Rightarrow> clamp_days v | None \<Rightarrow> retention_days_json policy),
       webhook_domain_allowlist :=
         (if upr_webhook_domain_allowlist req \<noteq> None
          then normalize_domain_allowlist (upr_webhook_domain_allowlist req) else webhook_domain_allowlist policy),
       default_memory_contract := patch_text (upr_default_memory_contract req) (default_memory_contract policy),
       default_retrieval_policy := patch_text (upr_default_retrieval_policy req) (default_retrieval_policy policy),
       up_updated_at := updated_at\<rparr>"

section \<open>Retention\<close>

definition retention_days_for_episode_type :: "user_policy_record \<Rightarrow> episode_type \<Rightarrow> u32" where
  "retention_days_for_episode_type policy t =
     (case t of
        EtMessage \<Rightarrow> retention_days_message policy
      | EtText \<Rightarrow> retention_days_text policy
      | EtJson \<Rightarrow> retention_days_json policy)"

definition retention_cutoff :: "timestamp \<Rightarrow> user_policy_record \<Rightarrow> episode_type \<Rightarrow> timestamp" where
  "retention_cutoff now policy t = now - uint (retention_days_for_episode_type policy t) * ns_per_day"

definition is_episode_within_retention :: "timestamp \<Rightarrow> user_policy_record \<Rightarrow> episode \<Rightarrow> bool" where
  "is_episode_within_retention now policy e \<longleftrightarrow> e_created_at e \<ge> retention_cutoff now policy (e_type e)"

definition is_episode_summary_within_retention :: "timestamp \<Rightarrow> user_policy_record \<Rightarrow> episode_summary \<Rightarrow> bool" where
  "is_episode_summary_within_retention now policy e \<longleftrightarrow> eps_created_at e \<ge> retention_cutoff now policy EtMessage"

definition episode_type_debug :: "episode_type \<Rightarrow> string" where
  "episode_type_debug t = (case t of EtMessage \<Rightarrow> ''Message'' | EtJson \<Rightarrow> ''Json'' | EtText \<Rightarrow> ''Text'')"

definition validate_episode_retention ::
  "timestamp \<Rightarrow> user_policy_record \<Rightarrow> create_episode_request \<Rightarrow> mnemo_error + unit" where
  "validate_episode_retention now policy req =
     (let created_at = (case ce_created_at req of Some t \<Rightarrow> t | None \<Rightarrow> now);
          retention_days = retention_days_for_episode_type policy (ce_type req);
          oldest_allowed = now - uint retention_days * ns_per_day
      in if created_at < oldest_allowed then
           Inl (Validation (''episode created_at is older than retention policy ('' @
             nat_to_string (unat retention_days) @ '' days) for '' @ episode_type_debug (ce_type req)))
         else Inr ())"

section \<open>Handlers\<close>

definition contract_debug :: "memory_contract \<Rightarrow> string" where
  "contract_debug c =
     (case c of McDefault \<Rightarrow> ''Default'' | McSupportSafe \<Rightarrow> ''SupportSafe''
      | McCurrentStrict \<Rightarrow> ''CurrentStrict'' | McHistoricalStrict \<Rightarrow> ''HistoricalStrict'')"

text \<open>
  The two critical sections of the update: the check reads the map under one lock, the write
  takes the lock again. Between them other requests run.
\<close>

definition upsert_check ::
  "caller_context \<Rightarrow> uuid \<Rightarrow> string \<Rightarrow> upsert_user_policy_request \<Rightarrow> timestamp \<Rightarrow> policies \<Rightarrow>
   (mnemo_error + unit) \<times> policies" where
  "upsert_check caller user_id ident req now ps =
     (case upr_default_memory_contract req of
        None \<Rightarrow> (Inr (), ps)
      | Some new_contract_str \<Rightarrow>
        let new_contract = parse_memory_contract_default new_contract_str in
        case get_or_create_user_policy user_id ident now ps of (current_policy, ps') \<Rightarrow>
          let current_contract = parse_memory_contract_default (default_memory_contract current_policy) in
          if is_contract_downgrade current_contract new_contract then
            (case require_role caller RoleAdmin of
               Inl _ \<Rightarrow> (Inl (Validation (''downgrading memory contract from '' @ contract_debug current_contract @
                   '' to '' @ contract_debug new_contract @ '' requires Admin role'')), ps')
             | Inr _ \<Rightarrow> (Inr (), ps'))
          else (Inr (), ps'))"

definition upsert_write ::
  "uuid \<Rightarrow> string \<Rightarrow> upsert_user_policy_request \<Rightarrow> timestamp \<Rightarrow> timestamp \<Rightarrow> policies \<Rightarrow> user_policy_record \<times> policies" where
  "upsert_write user_id ident req now now' ps =
     (let record = apply_user_policy_patch (fst (get_or_create_user_policy user_id ident now' ps)) req now
      in (record, bt_insert user_id record ps))"

definition upsert_user_policy ::
  "(string \<Rightarrow> uuid option) \<Rightarrow> caller_context option \<Rightarrow> string \<Rightarrow> upsert_user_policy_request \<Rightarrow> timestamp \<Rightarrow> timestamp \<Rightarrow>
   timestamp \<Rightarrow> user_store \<Rightarrow> policies \<Rightarrow> ((mnemo_error + user_policy_record) \<times> policies) option" where
  "upsert_user_policy parse_uuid ext user_identifier req now1 now now2 users ps =
     (case find_user_by_identifier parse_uuid (trim user_identifier) users of
        None \<Rightarrow> None
      | Some (Inl e) \<Rightarrow> Some (Inl e, ps)
      | Some (Inr u) \<Rightarrow>
        (case upsert_check (caller_from_extension ext) (u_id u) (trim user_identifier) req now1 ps of
           (Inl e, ps') \<Rightarrow> Some (Inl e, ps')
         | (Inr _, ps') \<Rightarrow>
           (case upsert_write (u_id u) (trim user_identifier) req now now2 ps' of (p, ps'') \<Rightarrow> Some (Inr p, ps''))))"

definition get_user_policy ::
  "(string \<Rightarrow> uuid option) \<Rightarrow> string \<Rightarrow> timestamp \<Rightarrow> user_store \<Rightarrow> policies \<Rightarrow>
   ((mnemo_error + user_policy_record) \<times> policies) option" where
  "get_user_policy parse_uuid user_identifier now users ps =
     (case find_user_by_identifier parse_uuid (trim user_identifier) users of
        None \<Rightarrow> None
      | Some (Inl e) \<Rightarrow> Some (Inl e, ps)
      | Some (Inr u) \<Rightarrow>
        (case get_or_create_user_policy (u_id u) (trim user_identifier) now ps of (p, ps') \<Rightarrow> Some (Inr p, ps')))"

section \<open>Lemmas\<close>

definition days_ok :: "u32 \<Rightarrow> bool" where
  "days_ok d \<longleftrightarrow> 1 \<le> d \<and> d \<le> 3650"

definition policy_ok :: "user_policy_record \<Rightarrow> bool" where
  "policy_ok p \<longleftrightarrow> days_ok (retention_days_message p) \<and> days_ok (retention_days_text p) \<and> days_ok (retention_days_json p)"

definition policies_ok :: "policies \<Rightarrow> bool" where
  "policies_ok ps \<longleftrightarrow> (\<forall>i p. map_of ps i = Some p \<longrightarrow> policy_ok p)"

lemma clamp_days_ok: "days_ok (clamp_days v)"
proof -
  have "v \<noteq> 0 \<Longrightarrow> 1 \<le> v" by (metis word_coorder.extremum_uniqueI word_le_less_eq word_less_1 not_le)
  then show ?thesis by (simp add: days_ok_def clamp_days_def not_less)
qed

lemma default_policy_ok: "policy_ok (default_user_policy u i now)"
  by (simp add: policy_ok_def days_ok_def default_user_policy_def)

lemma patch_ok: "policy_ok p \<Longrightarrow> policy_ok (apply_user_policy_patch p req now)"
  by (simp add: policy_ok_def apply_user_policy_patch_def clamp_days_ok split: option.split)

lemma get_or_create_spec:
  "get_or_create_user_policy u i now ps = (p, ps') \<Longrightarrow>
   map_of ps' = (map_of ps)(u \<mapsto> p) \<and> p = (case map_of ps u of Some q \<Rightarrow> q | None \<Rightarrow> default_user_policy u i now)"
  by (auto simp: get_or_create_user_policy_def Let_def map_of_bt_insert split: option.splits)

lemma get_or_create_ok: "get_or_create_user_policy u i now ps = (p, ps') \<Longrightarrow> policies_ok ps \<Longrightarrow> policy_ok p \<and> policies_ok ps'"
  by (drule get_or_create_spec) (auto simp: policies_ok_def default_policy_ok split: option.splits)

lemma upsert_check_ok: "upsert_check c u i req now ps = (r, ps') \<Longrightarrow> policies_ok ps \<Longrightarrow> policies_ok ps'"
  by (auto simp: upsert_check_def Let_def split: option.splits prod.splits sum.splits if_splits dest: get_or_create_ok)

lemma upsert_write_ok:
  "upsert_write u i req now now' ps = (p, ps') \<Longrightarrow> policies_ok ps \<Longrightarrow> policies_ok ps'"
  using get_or_create_ok [of u i now' ps] patch_ok
  by (cases "get_or_create_user_policy u i now' ps")
    (auto simp: upsert_write_def Let_def policies_ok_def map_of_bt_insert split: if_splits)

lemma parse_contract_trim [simp]: "parse_memory_contract_default (trim v) = parse_memory_contract_default v"
  by (simp add: parse_memory_contract_default_def)

text \<open>A patched contract is the requested one, or the old one when none or a blank is requested.\<close>

lemma patched_contract:
  "parse_memory_contract_default (default_memory_contract (apply_user_policy_patch p req now)) =
     (case upr_default_memory_contract req of
        Some v \<Rightarrow> if trim v = [] then parse_memory_contract_default (default_memory_contract p)
                  else parse_memory_contract_default v
      | None \<Rightarrow> parse_memory_contract_default (default_memory_contract p))"
  by (simp add: apply_user_policy_patch_def patch_text_def Let_def split: option.split)

lemma contract_strictness_inj [simp]: "contract_strictness a = contract_strictness b \<longleftrightarrow> a = b"
  by (cases a; cases b) simp_all

section \<open>Properties\<close>



text \<open>The check for a downgrade and the write are not one step: when the stored contract is made
  stricter between them, the write of a caller without any role for it lowers the contract
  below the stored one, although its check succeeded.\<close>

theorem downgrade_check_not_atomic:
  assumes "upr_default_memory_contract req = Some v" and "trim v \<noteq> []"
    and "map_of ps i = Some p" and "map_of qs i = Some q"
    and "\<not> is_contract_downgrade (parse_memory_contract_default (default_memory_contract p)) (parse_memory_contract_default v)"
    and "is_contract_downgrade (parse_memory_contract_default (default_memory_contract q)) (parse_memory_contract_default v)"
  shows "upsert_check caller i ident req now1 ps = (Inr (), ps) \<and>
    contract_strictness (parse_memory_contract_default (default_memory_contract (fst (upsert_write i ident req now now2 qs)))) <
    contract_strictness (parse_memory_contract_default (default_memory_contract q))"
proof
  show "upsert_check caller i ident req now1 ps = (Inr (), ps)"
    using assms by (simp add: upsert_check_def get_or_create_user_policy_def Let_def)
  have "fst (upsert_write i ident req now now2 qs) = apply_user_policy_patch q req now"
    using assms(4) by (simp add: upsert_write_def get_or_create_user_policy_def Let_def)
  then show "contract_strictness (parse_memory_contract_default (default_memory_contract (fst (upsert_write i ident req now now2 qs)))) <
      contract_strictness (parse_memory_contract_default (default_memory_contract q))"
    using assms(1,2,6) by (simp add: patched_contract is_contract_downgrade_def)
qed

lemma downgrade_check_not_atomic_witness:
  "fst (upsert_check anonymous 1 ''1''
     \<lparr>upr_retention_days_message = None, upr_retention_days_text = None, upr_retention_days_json = None,
       upr_webhook_domain_allowlist = None, upr_default_memory_contract = Some ''default'',
       upr_default_retrieval_policy = None\<rparr> 0 [(1, default_user_policy 1 ''1'' 0)]) = Inr ()"
proof -
  let ?strict = "(default_user_policy 1 ''1'' 0)\<lparr>default_memory_contract := ''current_strict''\<rparr>"
  have "parse_memory_contract_default ''default'' = McDefault" "parse_memory_contract_default ''current_strict'' = McCurrentStrict"
    "trim ''default'' \<noteq> []" by code_simp+
  then show ?thesis
    using downgrade_check_not_atomic [where v = "''default''" and p = "default_user_policy 1 ''1'' 0" and q = ?strict and
        ps = "[(1, default_user_policy 1 ''1'' 0)]" and qs = "[(1, ?strict)]" and i = 1 and caller = anonymous and
        ident = "''1''" and
        req = "\<lparr>upr_retention_days_message = None, upr_retention_days_text = None, upr_retention_days_json = None,
          upr_webhook_domain_allowlist = None, upr_default_memory_contract = Some ''default'',
          upr_default_retrieval_policy = None\<rparr>"]
    by (simp add: is_contract_downgrade_def default_user_policy_def)
qed

end
