(* ===== verification/Guardrails.thy ===== *)
theory Guardrails
  imports Access Redis_Index
begin

text \<open>
  The guardrail policy engine of \<^verbatim>\<open>mnemo-core/src/models/guardrail.rs\<close>, the guardrail store of
  \<^verbatim>\<open>mnemo-storage/src/redis_store.rs\<close> and the guardrail handlers of
  \<^verbatim>\<open>mnemo-server/src/routes.rs\<close>. The \<^verbatim>\<open>regex\<close> crate is a parameter: \<open>rx_new\<close> is
  \<^verbatim>\<open>Regex::new\<close>, with the error text in the left summand, and \<open>rx_match\<close> builds a pattern
  under the size limit of the evaluator (\<open>None\<close> when that fails) and matches.
\<close>

section \<open>Rules\<close>

datatype guardrail_trigger = OnIngest | OnFactCreation | OnRetrieval | OnEntityCreation | OnAny

definition trigger_matches :: "guardrail_trigger \<Rightarrow> guardrail_trigger \<Rightarrow> bool" where
  "trigger_matches self operation \<longleftrightarrow> self = OnAny \<or> self = operation"

datatype guardrail_condition =
    ClassificationAbove classification
  | EntityTypeIn "string list"
  | EdgeLabelIn "string list"
  | ContentMatchesRegex string
  | CallerRoleBelow api_key_role
  | FactAgeAboveDays u32
  | ConfidenceBelow f32
  | GAnd "guardrail_condition list"
  | GOr "guardrail_condition list"
  | GNot guardrail_condition

datatype guardrail_action =
    Block string
  | Redact
  | Reclassify classification
  | AuditOnly string
  | Warn string

datatype guardrail_scope = GGlobal | GUser uuid | GAgent string

record guardrail_rule =
  gr_id :: uuid
  gr_name :: string
  gr_description :: string
  gr_trigger :: guardrail_trigger
  gr_condition :: guardrail_condition
  gr_action :: guardrail_action
  gr_priority :: u32
  gr_enabled :: bool
  gr_scope :: guardrail_scope
  gr_created_at :: timestamp
  gr_updated_at :: timestamp

record eval_context =
  ec_classification :: "classification option"
  ec_entity_type :: "string option"
  ec_edge_label :: "string option"
  ec_content :: "string option"
  ec_caller_role :: "api_key_role option"
  ec_fact_age_days :: "u32 option"
  ec_confidence :: "f32 option"
  ec_user_id :: "uuid option"
  ec_agent_id :: "string option"

definition eval_context_default :: eval_context where
  "eval_context_default =
     \<lparr>ec_classification = None, ec_entity_type = None, ec_edge_label = None, ec_content = None,
      ec_caller_role = None, ec_fact_age_days = None, ec_confidence = None, ec_user_id = None,
      ec_agent_id = None\<rparr>"

record guardrail_eval_result =
  ger_rule_id :: uuid
  ger_rule_name :: string
  ger_matched :: bool
  ger_action :: guardrail_action

record guardrail_verdict =
  gv_blocked :: bool
  block_reason :: "string option"
  gv_redact :: bool
  reclassify_to :: "classification option"
  gv_warnings :: "string list"
  audit_entries :: "(string \<times> string) list"
  gv_details :: "guardrail_eval_result list"

definition verdict_default :: guardrail_verdict where
  "verdict_default =
     \<lparr>gv_blocked = False, block_reason = None, gv_redact = False, reclassify_to = None,
      gv_warnings = [], audit_entries = [], gv_details = []\<rparr>"

section \<open>Evaluation\<close>

definition max_content_len :: nat where
  "max_content_len = 100 * 1024"

fun cond_evaluate :: "(string \<Rightarrow> string \<Rightarrow> bool option) \<Rightarrow> eval_context \<Rightarrow> guardrail_condition \<Rightarrow> bool" where
  "cond_evaluate rx_match ctx (ClassificationAbove c) =
     (case ec_classification ctx of Some x \<Rightarrow> x > c | None \<Rightarrow> False)"
| "cond_evaluate rx_match ctx (EntityTypeIn types) =
     (case ec_entity_type ctx of Some et \<Rightarrow> list_ex (\<lambda>t. eq_ignore_ascii_case t et) types | None \<Rightarrow> False)"
| "cond_evaluate rx_match ctx (EdgeLabelIn labels) =
     (case ec_edge_label ctx of Some el \<Rightarrow> list_ex (\<lambda>l. eq_ignore_ascii_case l el) labels | None \<Rightarrow> False)"
| "cond_evaluate rx_match ctx (ContentMatchesRegex pattern) =
     (case ec_content ctx of
        Some content \<Rightarrow>
          if length content > max_content_len then False
          else (case rx_match pattern content of Some b \<Rightarrow> b | None \<Rightarrow> False)
      | None \<Rightarrow> False)"
| "cond_evaluate rx_match ctx (CallerRoleBelow role) =
     (case ec_caller_role ctx of Some cr \<Rightarrow> role_rank cr < role_rank role | None \<Rightarrow> False)"
| "cond_evaluate rx_match ctx (FactAgeAboveDays days) =
     (case ec_fact_age_days ctx of Some age \<Rightarrow> age > days | None \<Rightarrow> False)"
| "cond_evaluate rx_match ctx (ConfidenceBelow confidence) =
     (case ec_confidence ctx of Some c \<Rightarrow> f32_lt c confidence | None \<Rightarrow> False)"
| "cond_evaluate rx_match ctx (GAnd cs) = list_all (cond_evaluate rx_match ctx) cs"
| "cond_evaluate rx_match ctx (GOr cs) = list_ex (cond_evaluate rx_match ctx) cs"
| "cond_evaluate rx_match ctx (GNot c) = (\<not> cond_evaluate rx_match ctx c)"

definition rule_applies_to :: "guardrail_rule \<Rightarrow> guardrail_trigger \<Rightarrow> eval_context \<Rightarrow> bool" where
  "rule_applies_to r trigger ctx =
     (if \<not> gr_enabled r then False
      else if \<not> trigger_matches (gr_trigger r) trigger then False
      else case gr_scope r of
        GGlobal \<Rightarrow> True
      | GUser u \<Rightarrow> ec_user_id ctx = Some u
      | GAgent a \<Rightarrow> ec_agent_id ctx = Some a)"

text \<open>The effect of one matching action other than a block.\<close>

fun apply_action :: "string \<Rightarrow> guardrail_action \<Rightarrow> guardrail_verdict \<Rightarrow> guardrail_verdict" where
  "apply_action name (Block reason) v = v\<lparr>gv_blocked := True, block_reason := Some reason\<rparr>"
| "apply_action name Redact v = v\<lparr>gv_redact := True\<rparr>"
| "apply_action name (Reclassify c) v =
     (case reclassify_to v of
        None \<Rightarrow> v\<lparr>reclassify_to := Some c\<rparr>
      | Some existing \<Rightarrow> if c > existing then v\<lparr>reclassify_to := Some c\<rparr> else v)"
| "apply_action name (AuditOnly severity) v = v\<lparr>audit_entries := audit_entries v @ [(name, severity)]\<rparr>"
| "apply_action name (Warn message) v = v\<lparr>gv_warnings := gv_warnings v @ [message]\<rparr>"

fun is_block :: "guardrail_action \<Rightarrow> bool" where
  "is_block (Block _) = True"
| "is_block _ = False"

text \<open>The loop, from a verdict so far; a matching block returns.\<close>

fun evaluate_from ::
  "(string \<Rightarrow> string \<Rightarrow> bool option) \<Rightarrow> guardrail_trigger \<Rightarrow> eval_context \<Rightarrow> guardrail_verdict \<Rightarrow>
   guardrail_rule list \<Rightarrow> guardrail_verdict" where
  "evaluate_from rx_match trigger ctx v [] = v"
| "evaluate_from rx_match trigger ctx v (r # rules) =
     (if \<not> rule_applies_to r trigger ctx then evaluate_from rx_match trigger ctx v rules
      else
        let matched = cond_evaluate rx_match ctx (gr_condition r);
            v' = v\<lparr>gv_details := gv_details v @
              [\<lparr>ger_rule_id = gr_id r, ger_rule_name = gr_name r, ger_matched = matched, ger_action = gr_action r\<rparr>]\<rparr>
        in if \<not> matched then evaluate_from rx_match trigger ctx v' rules
           else if is_block (gr_action r) then apply_action (gr_name r) (gr_action r) v'
           else evaluate_from rx_match trigger ctx (apply_action (gr_name r) (gr_action r) v') rules)"

definition evaluate_rules ::
  "(string \<Rightarrow> string \<Rightarrow> bool option) \<Rightarrow> guardrail_rule list \<Rightarrow> guardrail_trigger \<Rightarrow> eval_context \<Rightarrow> guardrail_verdict" where
  "evaluate_rules rx_match rules trigger ctx = evaluate_from rx_match trigger ctx verdict_default rules"

section \<open>Requests, responses and validation\<close>

record create_guardrail_request =
  cgr_name :: string
  cgr_description :: string
  cgr_trigger :: guardrail_trigger
  cgr_condition :: guardrail_condition
  cgr_action :: guardrail_action
  cgr_priority :: u32
  cgr_enabled :: bool
  cgr_scope :: guardrail_scope

record evaluate_guardrails_request =
  egr_trigger :: guardrail_trigger
  egr_classification :: "classification option"
  egr_entity_type :: "string option"
  egr_edge_label :: "string option"
  egr_content :: "string option"
  egr_caller_role :: "api_key_role option"
  egr_fact_age_days :: "u32 option"
  egr_confidence :: "f32 option"
  egr_user_id :: "uuid option"

definition into_eval_context :: "evaluate_guardrails_request \<Rightarrow> eval_context" where
  "into_eval_context r =
     \<lparr>ec_classification = egr_classification r, ec_entity_type = egr_entity_type r,
      ec_edge_label = egr_edge_label r, ec_content = egr_content r, ec_caller_role = egr_caller_role r,
      ec_fact_age_days = egr_fact_age_days r, ec_confidence = egr_confidence r,
      ec_user_id = egr_user_id r, ec_agent_id = None\<rparr>"

record audit_entry =
  ae_rule_name :: string
  ae_severity :: string

record evaluate_guardrails_response =
  egp_blocked :: bool
  egp_block_reason :: "string option"
  egp_redact :: bool
  egp_reclassify_to :: "classification option"
  egp_warnings :: "string list"
  egp_audit_entries :: "audit_entry list"
  rule_results :: "guardrail_eval_result list"

definition response_of_verdict :: "guardrail_verdict \<Rightarrow> evaluate_guardrails_response" where
  "response_of_verdict v =
     \<lparr>egp_blocked = gv_blocked v, egp_block_reason = block_reason v, egp_redact = gv_redact v,
      egp_reclassify_to = reclassify_to v, egp_warnings = gv_warnings v,
      egp_audit_entries = map (\<lambda>(n, s). \<lparr>ae_rule_name = n, ae_severity = s\<rparr>) (audit_entries v),
      rule_results = gv_details v\<rparr>"

definition validate_guardrail_name :: "string \<Rightarrow> string + unit" where
  "validate_guardrail_name name =
     (if name = [] \<or> length name > 64 then Inl ''Guardrail name must be 1-64 characters''
      else if \<not> list_all (\<lambda>c. is_ascii_alphanumeric c \<or> c = CHR ''_'' \<or> c = CHR ''-'') name then
        Inl ''Guardrail name must contain only alphanumeric characters, underscores, and hyphens''
      else Inr ())"

text \<open>A loop whose body ends with \<^verbatim>\<open>?\<close>: the first error, if any.\<close>

fun first_error :: "('e + unit) list \<Rightarrow> 'e + unit" where
  "first_error [] = Inr ()"
| "first_error (Inl e # _) = Inl e"
| "first_error (Inr _ # rs) = first_error rs"

fun validate_condition_regexes :: "(string \<Rightarrow> string + unit) \<Rightarrow> guardrail_condition \<Rightarrow> string + unit" where
  "validate_condition_regexes rx_new (ContentMatchesRegex pattern) =
     (case rx_new pattern of
        Inl e \<Rightarrow> Inl (''Invalid regex pattern '' @ [CHR 0x27] @ pattern @ [CHR 0x27] @ '': '' @ e)
      | Inr _ \<Rightarrow> Inr ())"
| "validate_condition_regexes rx_new (GAnd cs) = first_error (map (validate_condition_regexes rx_new) cs)"
| "validate_condition_regexes rx_new (GOr cs) = first_error (map (validate_condition_regexes rx_new) cs)"
| "validate_condition_regexes rx_new (GNot c) = validate_condition_regexes rx_new c"
| "validate_condition_regexes rx_new _ = Inr ()"

section \<open>The store\<close>

text \<open>\<^verbatim>\<open>guardrail:{id}\<close>, the index \<^verbatim>\<open>guardrails\<close> by priority and \<^verbatim>\<open>guardrails_user:{id}\<close>.\<close>

record guardrail_store =
  gs_rules :: "(uuid, guardrail_rule) btree_map"
  gs_index :: "uuid zset"
  gs_user_index :: "(uuid, uuid zset) btree_map"

definition guardrail_store_new :: guardrail_store where
  "guardrail_store_new = \<lparr>gs_rules = [], gs_index = [], gs_user_index = []\<rparr>"

definition save_guardrail :: "guardrail_rule \<Rightarrow> guardrail_store \<Rightarrow> guardrail_store" where
  "save_guardrail r st =
     (let s = uint (gr_priority r) in
      st\<lparr>gs_rules := bt_insert (gr_id r) r (gs_rules st),
         gs_index := zadd s (gr_id r) (gs_index st),
         gs_user_index := (case gr_scope r of
            GUser u \<Rightarrow> bt_upsert [] (zadd s (gr_id r)) u (gs_user_index st)
          | _ \<Rightarrow> gs_user_index st)\<rparr>)"

definition get_guardrail :: "uuid \<Rightarrow> guardrail_store \<Rightarrow> guardrail_rule option" where
  "get_guardrail i st = map_of (gs_rules st) i"

definition list_guardrails :: "guardrail_store \<Rightarrow> guardrail_rule list" where
  "list_guardrails st =
     sort_key gr_priority (List.map_filter (\<lambda>i. map_of (gs_rules st) i) (map snd (gs_index st)))"

definition rule_for_user :: "uuid \<Rightarrow> string option \<Rightarrow> guardrail_rule \<Rightarrow> bool" where
  "rule_for_user u agent r =
     (case gr_scope r of GGlobal \<Rightarrow> True | GUser v \<Rightarrow> v = u | GAgent a \<Rightarrow> agent = Some a)"

definition list_guardrails_for_user :: "uuid \<Rightarrow> string option \<Rightarrow> guardrail_store \<Rightarrow> guardrail_rule list" where
  "list_guardrails_for_user u agent st =
     sort_key gr_priority (filter (rule_for_user u agent) (list_guardrails st))"

definition update_guardrail_doc :: "guardrail_rule \<Rightarrow> guardrail_store \<Rightarrow> guardrail_store" where
  "update_guardrail_doc r st =
     st\<lparr>gs_rules := bt_insert (gr_id r) r (gs_rules st),
        gs_index := zadd (uint (gr_priority r)) (gr_id r) (gs_index st)\<rparr>"

definition delete_guardrail_doc :: "uuid \<Rightarrow> guardrail_store \<Rightarrow> guardrail_store" where
  "delete_guardrail_doc i st =
     st\<lparr>gs_user_index := (case map_of (gs_rules st) i of
           Some r \<Rightarrow> (case gr_scope r of
              GUser u \<Rightarrow> bt_upsert [] (zrem i) u (gs_user_index st) | _ \<Rightarrow> gs_user_index st)
         | None \<Rightarrow> gs_user_index st),
        gs_index := zrem i (gs_index st),
        gs_rules := bt_remove i (gs_rules st)\<rparr>"

section \<open>The handlers\<close>

definition create_guardrail ::
  "(string \<Rightarrow> string + unit) \<Rightarrow> caller_context option \<Rightarrow> create_guardrail_request \<Rightarrow> uuid \<Rightarrow> timestamp \<Rightarrow>
   guardrail_store \<Rightarrow> (mnemo_error + guardrail_rule) \<times> guardrail_store" where
  "create_guardrail rx_new ext body new_id now st =
     (case require_role (caller_from_extension ext) RoleAdmin of Inl e \<Rightarrow> (Inl e, st) | Inr _ \<Rightarrow>
      case validate_guardrail_name (cgr_name body) of Inl e \<Rightarrow> (Inl (Validation e), st) | Inr _ \<Rightarrow>
      case validate_condition_regexes rx_new (cgr_condition body) of Inl e \<Rightarrow> (Inl (Validation e), st) | Inr _ \<Rightarrow>
      if list_ex (\<lambda>r. gr_name r = cgr_name body) (list_guardrails st) then
        (Inl (Duplicate (''guardrail '' @ [CHR 0x27] @ cgr_name body @ [CHR 0x27] @ '' already exists'')), st)
      else
        let r = \<lparr>gr_id = new_id, gr_name = cgr_name body, gr_description = cgr_description body,
                 gr_trigger = cgr_trigger body, gr_condition = cgr_condition body, gr_action = cgr_action body,
                 gr_priority = cgr_priority body, gr_enabled = cgr_enabled body, gr_scope = cgr_scope body,
                 gr_created_at = now, gr_updated_at = now\<rparr>
        in (Inr r, save_guardrail r st))"

definition update_guardrail ::
  "(string \<Rightarrow> string + unit) \<Rightarrow> (uuid \<Rightarrow> string) \<Rightarrow> caller_context option \<Rightarrow> uuid \<Rightarrow> create_guardrail_request \<Rightarrow>
   timestamp \<Rightarrow> guardrail_store \<Rightarrow> (mnemo_error + guardrail_rule) \<times> guardrail_store" where
  "update_guardrail rx_new show_uuid ext i body now st =
     (case require_role (caller_from_extension ext) RoleAdmin of Inl e \<Rightarrow> (Inl e, st) | Inr _ \<Rightarrow>
      case validate_guardrail_name (cgr_name body) of Inl e \<Rightarrow> (Inl (Validation e), st) | Inr _ \<Rightarrow>
      case validate_condition_regexes rx_new (cgr_condition body) of Inl e \<Rightarrow> (Inl (Validation e), st) | Inr _ \<Rightarrow>
      case get_guardrail i st of
        None \<Rightarrow> (Inl (NotFound ''guardrail'' (show_uuid i)), st)
      | Some r \<Rightarrow>
        let r' = r\<lparr>gr_name := cgr_name body, gr_description := cgr_description body,
                   gr_trigger := cgr_trigger body, gr_condition := cgr_condition body, gr_action := cgr_action body,
                   gr_priority := cgr_priority body, gr_enabled := cgr_enabled body, gr_scope := cgr_scope body,
                   gr_updated_at := now\<rparr>
        in (Inr r', update_guardrail_doc r' st))"

definition delete_guardrail ::
  "(uuid \<Rightarrow> string) \<Rightarrow> caller_context option \<Rightarrow> uuid \<Rightarrow> guardrail_store \<Rightarrow> (mnemo_error + unit) \<times> guardrail_store" where
  "delete_guardrail show_uuid ext i st =
     (case require_role (caller_from_extension ext) RoleAdmin of Inl e \<Rightarrow> (Inl e, st) | Inr _ \<Rightarrow>
      case get_guardrail i st of
        None \<Rightarrow> (Inl (NotFound ''guardrail'' (show_uuid i)), st)
      | Some r \<Rightarrow> (Inr (), delete_guardrail_doc i st))"

definition list_guardrails_handler :: "caller_context option \<Rightarrow> guardrail_store \<Rightarrow> mnemo_error + guardrail_rule list" where
  "list_guardrails_handler ext st =
     (case require_role (caller_from_extension ext) RoleRead of Inl e \<Rightarrow> Inl e | Inr _ \<Rightarrow> Inr (list_guardrails st))"

definition get_guardrail_handler ::
  "(uuid \<Rightarrow> string) \<Rightarrow> caller_context option \<Rightarrow> uuid \<Rightarrow> guardrail_store \<Rightarrow> mnemo_error + guardrail_rule" where
  "get_guardrail_handler show_uuid ext i st =
     (case require_role (caller_from_extension ext) RoleRead of Inl e \<Rightarrow> Inl e | Inr _ \<Rightarrow>
      case get_guardrail i st of None \<Rightarrow> Inl (NotFound ''guardrail'' (show_uuid i)) | Some r \<Rightarrow> Inr r)"

text \<open>The dry run; its governance audit entry is not part of the result.\<close>

definition evaluate_guardrails ::
  "(string \<Rightarrow> string \<Rightarrow> bool option) \<Rightarrow> caller_context option \<Rightarrow> evaluate_guardrails_request \<Rightarrow> guardrail_store \<Rightarrow>
   mnemo_error + evaluate_guardrails_response" where
  "evaluate_guardrails rx_match ext body st =
     (case require_role (caller_from_extension ext) RoleRead of Inl e \<Rightarrow> Inl e | Inr _ \<Rightarrow>
      let rules = (case egr_user_id body of Some u \<Rightarrow> list_guardrails_for_user u None st | None \<Rightarrow> list_guardrails st)
      in Inr (response_of_verdict (evaluate_rules rx_match rules (egr_trigger body) (into_eval_context body))))"

section \<open>What a verdict says\<close>

text \<open>The rules that apply and match, and those of them whose action takes effect.\<close>

definition hits ::
  "(string \<Rightarrow> string \<Rightarrow> bool option) \<Rightarrow> guardrail_trigger \<Rightarrow> eval_context \<Rightarrow> guardrail_rule list \<Rightarrow> guardrail_rule list" where
  "hits rx_match trigger ctx rules =
     filter (\<lambda>r. rule_applies_to r trigger ctx \<and> cond_evaluate rx_match ctx (gr_condition r)) rules"

definition effective :: "guardrail_rule list \<Rightarrow> guardrail_rule list" where
  "effective hs = takeWhile (\<lambda>r. \<not> is_block (gr_action r)) hs"

definition first_block :: "guardrail_rule list \<Rightarrow> guardrail_rule option" where
  "first_block hs = List.find (\<lambda>r. is_block (gr_action r)) hs"

fun block_text :: "guardrail_action \<Rightarrow> string option" where
  "block_text (Block reason) = Some reason"
| "block_text _ = None"

definition reclass_of :: "guardrail_rule list \<Rightarrow> classification list" where
  "reclass_of rs = List.map_filter (\<lambda>r. case gr_action r of Reclassify c \<Rightarrow> Some c | _ \<Rightarrow> None) rs"

definition warnings_of :: "guardrail_rule list \<Rightarrow> string list" where
  "warnings_of rs = List.map_filter (\<lambda>r. case gr_action r of Warn m \<Rightarrow> Some m | _ \<Rightarrow> None) rs"

definition audits_of :: "guardrail_rule list \<Rightarrow> (string \<times> string) list" where
  "audits_of rs = List.map_filter (\<lambda>r. case gr_action r of AuditOnly s \<Rightarrow> Some (gr_name r, s) | _ \<Rightarrow> None) rs"

fun max_class :: "classification option \<Rightarrow> classification list \<Rightarrow> classification option" where
  "max_class m [] = m"
| "max_class None (c # cs) = max_class (Some c) cs"
| "max_class (Some e) (c # cs) = max_class (Some (max e c)) cs"

lemma max_class_Some: "max_class (Some e) cs = Some (Max (set (e # cs)))"
  by (induction cs arbitrary: e) (auto simp: max.assoc Max_insert [symmetric] simp del: Max_insert,
      metis List.finite_set Max_insert2 Max_singleton empty_set finite.insertI insert_not_empty
        max.assoc Max_insert set_empty)

lemma max_class_None: "max_class None cs = (if cs = [] then None else Some (Max (set cs)))"
  by (cases cs) (simp_all add: max_class_Some)

lemma evaluate_from_spec:
  fixes rx_match trigger ctx v rules
  defines "hs \<equiv> hits rx_match trigger ctx rules"
  shows "gv_blocked (evaluate_from rx_match trigger ctx v rules) = (gv_blocked v \<or> first_block hs \<noteq> None)"
    and "block_reason (evaluate_from rx_match trigger ctx v rules) =
      (case first_block hs of Some r \<Rightarrow> block_text (gr_action r) | None \<Rightarrow> block_reason v)"
    and "gv_redact (evaluate_from rx_match trigger ctx v rules) =
      (gv_redact v \<or> (\<exists>r \<in> set (effective hs). gr_action r = Redact))"
    and "reclassify_to (evaluate_from rx_match trigger ctx v rules) =
      max_class (reclassify_to v) (reclass_of (effective hs))"
    and "gv_warnings (evaluate_from rx_match trigger ctx v rules) = gv_warnings v @ warnings_of (effective hs)"
    and "audit_entries (evaluate_from rx_match trigger ctx v rules) = audit_entries v @ audits_of (effective hs)"
proof -
  have "let e = evaluate_from rx_match trigger ctx v rules; hs = hits rx_match trigger ctx rules in
      gv_blocked e = (gv_blocked v \<or> first_block hs \<noteq> None) \<and>
      block_reason e = (case first_block hs of Some r \<Rightarrow> block_text (gr_action r) | None \<Rightarrow> block_reason v) \<and>
      gv_redact e = (gv_redact v \<or> (\<exists>r \<in> set (effective hs). gr_action r = Redact)) \<and>
      reclassify_to e = max_class (reclassify_to v) (reclass_of (effective hs)) \<and>
      gv_warnings e = gv_warnings v @ warnings_of (effective hs) \<and>
      audit_entries e = audit_entries v @ audits_of (effective hs)"
  proof (induction rules arbitrary: v)
    case Nil
    then show ?case
      by (simp add: hits_def first_block_def effective_def reclass_of_def warnings_of_def audits_of_def List.map_filter_def)
  next
    case (Cons r rules)
    show ?case
    proof (cases "rule_applies_to r trigger ctx \<and> cond_evaluate rx_match ctx (gr_condition r)")
      case False
      then have "hits rx_match trigger ctx (r # rules) = hits rx_match trigger ctx rules" by (simp add: hits_def)
      with False Cons.IH show ?thesis by (auto simp: Let_def split: option.split)
    next
      case True
      then have h: "hits rx_match trigger ctx (r # rules) = r # hits rx_match trigger ctx rules"
        by (simp add: hits_def)
      show ?thesis
        using True Cons.IH unfolding h
        by (cases "gr_action r")
          (auto simp: Let_def first_block_def effective_def reclass_of_def warnings_of_def audits_of_def
            List.map_filter_def max_def split: option.splits)
    qed
  qed
  then show
    "gv_blocked (evaluate_from rx_match trigger ctx v rules) = (gv_blocked v \<or> first_block hs \<noteq> None)"
    "block_reason (evaluate_from rx_match trigger ctx v rules) =
      (case first_block hs of Some r \<Rightarrow> block_text (gr_action r) | None \<Rightarrow> block_reason v)"
    "gv_redact (evaluate_from rx_match trigger ctx v rules) =
      (gv_redact v \<or> (\<exists>r \<in> set (effective hs). gr_action r = Redact))"
    "reclassify_to (evaluate_from rx_match trigger ctx v rules) =
      max_class (reclassify_to v) (reclass_of (effective hs))"
    "gv_warnings (evaluate_from rx_match trigger ctx v rules) = gv_warnings v @ warnings_of (effective hs)"
    "audit_entries (evaluate_from rx_match trigger ctx v rules) = audit_entries v @ audits_of (effective hs)"
    by (simp_all add: Let_def hs_def)
qed

lemma first_block_iff: "first_block hs \<noteq> None \<longleftrightarrow> (\<exists>r \<in> set hs. is_block (gr_action r))"
  by (auto simp: first_block_def find_None_iff)

section \<open>Invariants of the store\<close>

definition guard_ok :: "guardrail_store \<Rightarrow> bool" where
  "guard_ok st \<longleftrightarrow> bt_ok (gs_rules st) \<and> zset_ok (gs_index st) \<and>
     (\<forall>i r. map_of (gs_rules st) i = Some r \<longrightarrow> gr_id r = i) \<and>
     (\<forall>i. zscore (gs_index st) i = map_option (\<lambda>r. uint (gr_priority r)) (map_of (gs_rules st) i))"

lemma guard_ok_new: "guard_ok guardrail_store_new"
  by (simp add: guard_ok_def guardrail_store_new_def zscore_def)

lemma guard_ok_insert:
  "guard_ok st \<Longrightarrow> gs_rules st' = bt_insert (gr_id r) r (gs_rules st) \<Longrightarrow>
   gs_index st' = zadd (uint (gr_priority r)) (gr_id r) (gs_index st) \<Longrightarrow> guard_ok st'"
  by (auto simp: guard_ok_def bt_ok_insert map_of_bt_insert zset.score_add)

lemma guard_ok_save: "guard_ok st \<Longrightarrow> guard_ok (save_guardrail r st)"
  by (rule guard_ok_insert) (simp_all add: save_guardrail_def Let_def)

lemma guard_ok_update: "guard_ok st \<Longrightarrow> guard_ok (update_guardrail_doc r st)"
  by (rule guard_ok_insert) (simp_all add: update_guardrail_doc_def)

lemma guard_ok_delete: "guard_ok st \<Longrightarrow> guard_ok (delete_guardrail_doc i st)"
  by (auto simp: guard_ok_def delete_guardrail_doc_def bt_ok_remove map_of_bt_remove zset.score_rem)

lemma guard_ok_create_handler: "guard_ok st \<Longrightarrow> guard_ok (snd (create_guardrail rx ext body i now st))"
  by (auto simp: create_guardrail_def Let_def guard_ok_save split: sum.split)

lemma guard_ok_update_handler: "guard_ok st \<Longrightarrow> guard_ok (snd (update_guardrail rx s ext i body now st))"
  by (auto simp: update_guardrail_def Let_def guard_ok_update split: sum.split option.split)

lemma guard_ok_delete_handler: "guard_ok st \<Longrightarrow> guard_ok (snd (delete_guardrail s ext i st))"
  by (auto simp: delete_guardrail_def guard_ok_delete split: sum.split option.split)

lemma set_list_guardrails: "guard_ok st \<Longrightarrow> set (list_guardrails st) = ran (map_of (gs_rules st))"
proof -
  assume ok: "guard_ok st"
  have z: "zset_ok (gs_index st)" using ok by (simp add: guard_ok_def)
  have "i \<in> snd ` set (gs_index st) \<longleftrightarrow> map_of (gs_rules st) i \<noteq> None" for i
  proof -
    have "i \<in> snd ` set (gs_index st) \<longleftrightarrow> zscore (gs_index st) i \<noteq> None"
      using dom_zscore [OF z] by (metis domIff)
    then show ?thesis using ok by (simp add: guard_ok_def)
  qed
  then show ?thesis
    by (force simp: list_guardrails_def List.map_filter_def ran_def)
qed

lemma list_guardrails_sorted:
  "sorted (map gr_priority (list_guardrails st))"
  "sorted (map gr_priority (list_guardrails_for_user u a st))"
  by (simp_all add: list_guardrails_def list_guardrails_for_user_def)

lemma set_list_for_user:
  "guard_ok st \<Longrightarrow> set (list_guardrails_for_user u a st) = {r \<in> ran (map_of (gs_rules st)). rule_for_user u a r}"
  by (auto simp: list_guardrails_for_user_def set_list_guardrails)

section \<open>Properties\<close>

text \<open>C7: The verdict over a rule list is determined by the rules that apply and match, in order: it
  blocks exactly when one of them is a block, with the reason of the first; only the matching
  rules before that first block act: redaction if one asks for it, the highest of their
  reclassifications, their warnings and audit entries in rule order.\<close>

theorem evaluate_rules_verdict:
  fixes rx_match rules trigger ctx
  defines "v \<equiv> evaluate_rules rx_match rules trigger ctx"
    and "hs \<equiv> hits rx_match trigger ctx rules"
  shows "(gv_blocked v \<longleftrightarrow> (\<exists>r \<in> set hs. is_block (gr_action r))) \<and>
    block_reason v = (case first_block hs of Some r \<Rightarrow> block_text (gr_action r) | None \<Rightarrow> None) \<and>
    (gv_redact v \<longleftrightarrow> (\<exists>r \<in> set (effective hs). gr_action r = Redact)) \<and>
    reclassify_to v = (if reclass_of (effective hs) = [] then None else Some (Max (set (reclass_of (effective hs))))) \<and>
    gv_warnings v = warnings_of (effective hs) \<and> audit_entries v = audits_of (effective hs)"
  unfolding v_def hs_def evaluate_rules_def evaluate_from_spec
  by (simp add: verdict_default_def first_block_iff [symmetric] max_class_None split: option.split)

text \<open>The handlers keep the store consistent, whoever calls them and whatever they answer; and in
  a consistent store the rules returned for a user are exactly the stored rules that are global,
  of this user or of this agent (no other user's or agent's rule), in ascending priority, the
  order \<^verbatim>\<open>evaluate_rules\<close> relies on.\<close>

theorem guardrails_for_user_exact:
  assumes "guard_ok st"
  shows "set (list_guardrails_for_user u a st) =
      {r \<in> ran (map_of (gs_rules st)). gr_scope r = GGlobal \<or> gr_scope r = GUser u \<or> (\<exists>b. gr_scope r = GAgent b \<and> a = Some b)} \<and>
    sorted (map gr_priority (list_guardrails_for_user u a st)) \<and>
    guard_ok (snd (create_guardrail rx ext body i now st)) \<and>
    guard_ok (snd (update_guardrail rx s ext j body now st)) \<and> guard_ok (snd (delete_guardrail s ext j st))"
proof -
  have "rule_for_user u a r \<longleftrightarrow> gr_scope r = GGlobal \<or> gr_scope r = GUser u \<or> (\<exists>b. gr_scope r = GAgent b \<and> a = Some b)" for r
    by (cases "gr_scope r") (auto simp: rule_for_user_def)
  with assms show ?thesis
    by (simp add: set_list_for_user list_guardrails_sorted guard_ok_create_handler guard_ok_update_handler
        guard_ok_delete_handler)
qed

lemma guardrails_for_user_exact_witness:
  "set (list_guardrails_for_user 1 None guardrail_store_new) = {}"
  using guardrails_for_user_exact [OF guard_ok_new, of 1 None] by (simp add: guardrail_store_new_def)

text \<open>A content rule fails open: on content longer than 100 KiB, and for a pattern that compiles
  when the rule is created but exceeds the limits of the evaluator, the condition is false, so a
  block or redaction rule with this condition has no effect, while its negation matches.\<close>

theorem content_rules_fail_open:
  assumes "ec_content ctx = Some content"
    and "max_content_len < length content \<or> rx_match pattern content = None"
    and "\<forall>r \<in> set rules. gr_condition r = ContentMatchesRegex pattern"
  shows "\<not> gv_blocked (evaluate_rules rx_match rules trigger ctx) \<and>
    \<not> gv_redact (evaluate_rules rx_match rules trigger ctx) \<and>
    reclassify_to (evaluate_rules rx_match rules trigger ctx) = None \<and>
    cond_evaluate rx_match ctx (GNot (ContentMatchesRegex pattern))"
proof -
  have no: "\<not> cond_evaluate rx_match ctx (ContentMatchesRegex pattern)"
    using assms(1,2) by auto
  then have "hits rx_match trigger ctx rules = []"
    using assms(3) by (auto simp: hits_def filter_empty_conv)
  with no show ?thesis
    by (simp add: evaluate_rules_def evaluate_from_spec verdict_default_def first_block_def effective_def
        reclass_of_def List.map_filter_def)
qed

lemma content_rules_fail_open_witness:
  "\<not> gv_blocked (evaluate_rules (\<lambda>p c. Some True)
     [\<lparr>gr_id = 1, gr_name = ''pii'', gr_description = [], gr_trigger = OnAny,
       gr_condition = ContentMatchesRegex ''ssn'', gr_action = Block ''pii'', gr_priority = 0, gr_enabled = True,
       gr_scope = GGlobal, gr_created_at = 0, gr_updated_at = 0\<rparr>]
     OnIngest (eval_context_default\<lparr>ec_content := Some (replicate (max_content_len + 1) (CHR ''s''))\<rparr>))"
  by (rule content_rules_fail_open [where content = "replicate (max_content_len + 1) (CHR ''s'')" and
        pattern = "''ssn''", THEN conjunct1]) (simp_all add: eval_context_default_def del: replicate.simps)

end
