(* ===== verification/Views.thy ===== *)
theory Views
  imports Access Redis_Index
begin

text \<open>
  Policy-scoped memory views: \<^verbatim>\<open>mnemo-core/src/models/view.rs\<close>, the view store of
  \<^verbatim>\<open>mnemo-storage/src/redis_store.rs\<close> and the view handlers of
  \<^verbatim>\<open>mnemo-server/src/routes.rs\<close>. \<open>min_utc\<close> is the least representable
  \<^verbatim>\<open>DateTime<Utc>\<close> of the \<^verbatim>\<open>chrono\<close> crate, whose subtraction panics below it.
\<close>

section \<open>Views and their constraints\<close>

datatype temporal_scope = LastNDays u32 | Since timestamp | CurrentOnly

record memory_view =
  mv_id :: uuid
  mv_name :: string
  mv_description :: string
  mv_max_classification :: classification
  mv_allowed_entity_types :: "string list option"
  mv_blocked_edge_labels :: "string list option"
  mv_max_facts :: "u32 option"
  mv_include_narrative :: bool
  mv_temporal_scope :: "temporal_scope option"
  mv_created_at :: timestamp
  mv_updated_at :: timestamp

record view_constraints =
  vc_max_classification :: classification
  vc_allowed_entity_types :: "string list option"
  vc_blocked_edge_labels :: "string list option"
  vc_max_facts :: "u32 option"
  vc_include_narrative :: bool
  vc_temporal_scope :: "temporal_scope option"
  vc_view_name :: "string option"

definition constraints_from_view :: "memory_view \<Rightarrow> classification \<Rightarrow> view_constraints" where
  "constraints_from_view view caller_max =
     (let effective_max = (if mv_max_classification view \<le> caller_max then mv_max_classification view else caller_max)
      in \<lparr>vc_max_classification = effective_max, vc_allowed_entity_types = mv_allowed_entity_types view,
          vc_blocked_edge_labels = mv_blocked_edge_labels view, vc_max_facts = mv_max_facts view,
          vc_include_narrative = mv_include_narrative view, vc_temporal_scope = mv_temporal_scope view,
          vc_view_name = Some (mv_name view)\<rparr>)"

definition default_for_caller :: "classification \<Rightarrow> view_constraints" where
  "default_for_caller caller_max =
     \<lparr>vc_max_classification = caller_max, vc_allowed_entity_types = None, vc_blocked_edge_labels = None,
      vc_max_facts = None, vc_include_narrative = True, vc_temporal_scope = None, vc_view_name = None\<rparr>"

definition allows_entity :: "view_constraints \<Rightarrow> classification \<Rightarrow> string \<Rightarrow> bool" where
  "allows_entity vc c entity_type =
     (if c > vc_max_classification vc then False
      else case vc_allowed_entity_types vc of
        Some allowed \<Rightarrow> if \<not> list_ex (\<lambda>t. eq_ignore_ascii_case t entity_type) allowed then False else True
      | None \<Rightarrow> True)"

definition allows_edge :: "view_constraints \<Rightarrow> classification \<Rightarrow> string \<Rightarrow> bool" where
  "allows_edge vc c label =
     (if c > vc_max_classification vc then False
      else case vc_blocked_edge_labels vc of
        Some blocked \<Rightarrow> if list_ex (\<lambda>l. eq_ignore_ascii_case l label) blocked then False else True
      | None \<Rightarrow> True)"

text \<open>\<open>None\<close>: \<^verbatim>\<open>Utc::now() - Duration::days(days)\<close> panics.\<close>

definition allows_time :: "timestamp \<Rightarrow> timestamp \<Rightarrow> view_constraints \<Rightarrow> timestamp \<Rightarrow> bool option" where
  "allows_time min_utc now vc valid_at =
     (case vc_temporal_scope vc of
        None \<Rightarrow> Some True
      | Some CurrentOnly \<Rightarrow> Some True
      | Some (Since since) \<Rightarrow> Some (valid_at \<ge> since)
      | Some (LastNDays days) \<Rightarrow>
          let cutoff = now - uint days * ns_per_day
          in if cutoff < min_utc then None else Some (valid_at \<ge> cutoff))"

record create_view_request =
  cvr_name :: string
  cvr_description :: string
  cvr_max_classification :: classification
  cvr_allowed_entity_types :: "string list option"
  cvr_blocked_edge_labels :: "string list option"
  cvr_max_facts :: "u32 option"
  cvr_include_narrative :: bool
  cvr_temporal_scope :: "temporal_scope option"

section \<open>The store\<close>

text \<open>\<^verbatim>\<open>memory_view:{name}\<close> and the index \<^verbatim>\<open>memory_views\<close> by creation time.\<close>

record view_store =
  vs_views :: "(string, memory_view) btree_map"
  vs_index :: "string zset"

definition save_view :: "memory_view \<Rightarrow> view_store \<Rightarrow> view_store" where
  "save_view v st =
     st\<lparr>vs_views := bt_insert (mv_name v) v (vs_views st),
        vs_index := zadd (timestamp_millis (mv_created_at v)) (mv_name v) (vs_index st)\<rparr>"

definition get_view :: "string \<Rightarrow> view_store \<Rightarrow> memory_view option" where
  "get_view name st = map_of (vs_views st) name"

definition list_views :: "view_store \<Rightarrow> memory_view list" where
  "list_views st = List.map_filter (\<lambda>n. map_of (vs_views st) n) (map snd (vs_index st))"

definition update_view_doc :: "memory_view \<Rightarrow> view_store \<Rightarrow> view_store" where
  "update_view_doc v st = st\<lparr>vs_views := bt_insert (mv_name v) v (vs_views st)\<rparr>"

definition delete_view_doc :: "string \<Rightarrow> view_store \<Rightarrow> view_store" where
  "delete_view_doc name st =
     st\<lparr>vs_index := zrem name (vs_index st), vs_views := bt_remove name (vs_views st)\<rparr>"

section \<open>The handlers\<close>

definition quoted :: "string \<Rightarrow> string" where
  "quoted s = [CHR 0x27] @ s @ [CHR 0x27]"

definition create_view ::
  "caller_context option \<Rightarrow> create_view_request \<Rightarrow> uuid \<Rightarrow> timestamp \<Rightarrow> view_store \<Rightarrow> (mnemo_error + memory_view) \<times> view_store" where
  "create_view ext body new_id now st =
     (case require_role (caller_from_extension ext) RoleAdmin of Inl e \<Rightarrow> (Inl e, st) | Inr _ \<Rightarrow>
      let name = trim (cvr_name body) in
      if name = [] \<or> length name > 128 then (Inl (Validation ''view name must be 1-128 characters''), st)
      else case get_view name st of
        Some v \<Rightarrow> (Inl (Duplicate (''view '' @ quoted name @ '' already exists'')), st)
      | None \<Rightarrow>
        let v = \<lparr>mv_id = new_id, mv_name = name, mv_description = cvr_description body,
                 mv_max_classification = cvr_max_classification body,
                 mv_allowed_entity_types = cvr_allowed_entity_types body,
                 mv_blocked_edge_labels = cvr_blocked_edge_labels body, mv_max_facts = cvr_max_facts body,
                 mv_include_narrative = cvr_include_narrative body, mv_temporal_scope = cvr_temporal_scope body,
                 mv_created_at = now, mv_updated_at = now\<rparr>
        in (Inr v, save_view v st))"

definition list_views_handler :: "caller_context option \<Rightarrow> view_store \<Rightarrow> mnemo_error + memory_view list" where
  "list_views_handler ext st =
     (case require_role (caller_from_extension ext) RoleRead of Inl e \<Rightarrow> Inl e | Inr _ \<Rightarrow> Inr (list_views st))"

definition get_view_handler :: "caller_context option \<Rightarrow> string \<Rightarrow> view_store \<Rightarrow> mnemo_error + memory_view" where
  "get_view_handler ext name st =
     (case require_role (caller_from_extension ext) RoleRead of Inl e \<Rightarrow> Inl e | Inr _ \<Rightarrow>
      case get_view name st of None \<Rightarrow> Inl (NotFound ''memory_view'' name) | Some v \<Rightarrow> Inr v)"

definition update_view ::
  "caller_context option \<Rightarrow> string \<Rightarrow> create_view_request \<Rightarrow> timestamp \<Rightarrow> view_store \<Rightarrow> (mnemo_error + memory_view) \<times> view_store" where
  "update_view ext name body now st =
     (case require_role (caller_from_extension ext) RoleAdmin of Inl e \<Rightarrow> (Inl e, st) | Inr _ \<Rightarrow>
      case get_view name st of
        None \<Rightarrow> (Inl (NotFound ''memory_view'' name), st)
      | Some v \<Rightarrow>
        let v' = v\<lparr>mv_description := cvr_description body, mv_max_classification := cvr_max_classification body,
                   mv_allowed_entity_types := cvr_allowed_entity_types body,
                   mv_blocked_edge_labels := cvr_blocked_edge_labels body, mv_max_facts := cvr_max_facts body,
                   mv_include_narrative := cvr_include_narrative body,
                   mv_temporal_scope := cvr_temporal_scope body, mv_updated_at := now\<rparr>
        in (Inr v', update_view_doc v' st))"

definition delete_view :: "caller_context option \<Rightarrow> string \<Rightarrow> view_store \<Rightarrow> (mnemo_error + unit) \<times> view_store" where
  "delete_view ext name st =
     (case require_role (caller_from_extension ext) RoleAdmin of Inl e \<Rightarrow> (Inl e, st) | Inr _ \<Rightarrow>
      case get_view name st of
        None \<Rightarrow> (Inl (NotFound ''memory_view'' name), st)
      | Some v \<Rightarrow> (Inr (), delete_view_doc name st))"

section \<open>Lemmas\<close>

lemma allows_entity_iff:
  "allows_entity vc c t \<longleftrightarrow> within_ceiling (vc_max_classification vc) c \<and>
     (\<forall>allowed. vc_allowed_entity_types vc = Some allowed \<longrightarrow> (\<exists>a \<in> set allowed. eq_ignore_ascii_case a t))"
  by (auto simp: allows_entity_def within_ceiling_def list_ex_iff split: option.split)

lemma allows_edge_iff:
  "allows_edge vc c l \<longleftrightarrow> within_ceiling (vc_max_classification vc) c \<and>
     (\<forall>blocked. vc_blocked_edge_labels vc = Some blocked \<longrightarrow> (\<forall>b \<in> set blocked. \<not> eq_ignore_ascii_case b l))"
  by (auto simp: allows_edge_def within_ceiling_def list_ex_iff split: option.split)

text \<open>The ceiling of a view's constraints lets through what the view and the caller both let through.\<close>

lemma from_view_ceiling:
  "within_ceiling (vc_max_classification (constraints_from_view view caller_max)) c \<longleftrightarrow>
     within_ceiling (mv_max_classification view) c \<and> within_ceiling caller_max c"
proof -
  have "vc_max_classification (constraints_from_view view caller_max) =
      (if within_ceiling caller_max (mv_max_classification view) then mv_max_classification view else caller_max)"
    by (auto simp: constraints_from_view_def Let_def within_ceiling_def not_less)
  then show ?thesis by (simp only: ceilings.narrower_iff)
qed

definition view_ok :: "view_store \<Rightarrow> bool" where
  "view_ok st \<longleftrightarrow> bt_ok (vs_views st) \<and> zset_ok (vs_index st) \<and>
     (\<forall>n v. map_of (vs_views st) n = Some v \<longrightarrow> mv_name v = n) \<and>
     (\<forall>n. zscore (vs_index st) n = map_option (\<lambda>v. timestamp_millis (mv_created_at v)) (map_of (vs_views st) n))"

lemma view_ok_create: "view_ok st \<Longrightarrow> view_ok (snd (create_view ext body i now st))"
  by (auto simp: create_view_def Let_def save_view_def view_ok_def bt_ok_insert map_of_bt_insert zset.score_add
      split: sum.split option.split)

lemma view_ok_update: "view_ok st \<Longrightarrow> view_ok (snd (update_view ext name body now st))"
  by (auto simp: update_view_def Let_def update_view_doc_def view_ok_def bt_ok_insert map_of_bt_insert get_view_def
      split: sum.split option.split)

lemma view_ok_delete: "view_ok st \<Longrightarrow> view_ok (snd (delete_view ext name st))"
  by (auto simp: delete_view_def delete_view_doc_def view_ok_def bt_ok_remove map_of_bt_remove zset.score_rem
      split: sum.split option.split)

end
