(* ===== verification/Read_Path.thy ===== *)
theory Read_Path
  imports User_Policy Guardrails Views
begin

text \<open>
  The read path \<^verbatim>\<open>get_memory_context\<close> of \<^verbatim>\<open>mnemo-server/src/routes.rs\<close>: how a request and the
  user's policy determine what is retrieved, and everything that happens to the retrieved block
  before it is answered (episode candidates, contract, retention, view or classification ceiling,
  guardrails, re-assembly). The block that the retrieval engine delivers is an argument; the
  narrative, the goal's re-scoring and the audit entries are not part of the results.
\<close>

section \<open>The plan\<close>

datatype memory_context_mode = CmHead | CmHybrid | CmHistorical

record memory_context_request =
  mcr_query :: string
  mcr_session :: "string option"
  mcr_max_tokens :: "u32 option"
  mcr_min_relevance :: "f32 option"
  mcr_time_intent :: "temporal_intent option"
  mcr_as_of :: "timestamp option"
  mcr_temporal_weight :: "f32 option"
  mcr_mode :: "memory_context_mode option"
  mcr_contract :: "memory_contract option"
  mcr_retrieval_policy :: "adaptive_retrieval_policy option"
  mcr_include_narrative :: bool
  mcr_goal :: "string option"
  mcr_view :: "string option"

record context_plan =
  pl_contract :: memory_contract
  pl_retrieval_policy :: adaptive_retrieval_policy
  pl_max_tokens :: u32
  pl_temporal_intent :: temporal_intent
  pl_temporal_weight :: "f32 option"
  pl_min_relevance :: f32

definition default_max_tokens :: "adaptive_retrieval_policy \<Rightarrow> u32" where
  "default_max_tokens p =
     (case p of RpBalanced \<Rightarrow> 500 | RpPrecision \<Rightarrow> 400 | RpRecall \<Rightarrow> 700 | RpStability \<Rightarrow> 500)"

definition clamp_u32 :: "u32 \<Rightarrow> u32 \<Rightarrow> u32 \<Rightarrow> u32" where
  "clamp_u32 lo hi v = (if v < lo then lo else if hi < v then hi else v)"

text \<open>The \<^verbatim>\<open>f32\<close> values nearest to the decimals of the source.\<close>

definition policy_temporal_weight :: "adaptive_retrieval_policy \<Rightarrow> f32 option" where
  "policy_temporal_weight p =
     (case p of
        RpBalanced \<Rightarrow> None
      | RpPrecision \<Rightarrow> Some (Fin (11744051 / 33554432))
      | RpRecall \<Rightarrow> Some (Fin (13421773 / 67108864))
      | RpStability \<Rightarrow> Some (Fin (13421773 / 16777216)))"

definition policy_min_relevance :: "adaptive_retrieval_policy \<Rightarrow> f32" where
  "policy_min_relevance p =
     (case p of
        RpBalanced \<Rightarrow> Fin (5033165 / 16777216)
      | RpPrecision \<Rightarrow> Fin (9227469 / 16777216)
      | RpRecall \<Rightarrow> Fin (5033165 / 33554432)
      | RpStability \<Rightarrow> Fin (13421773 / 33554432))"

definition plan_intent :: "memory_contract \<Rightarrow> adaptive_retrieval_policy \<Rightarrow> temporal_intent option \<Rightarrow> temporal_intent" where
  "plan_intent contract retrieval_policy time_intent =
     (let base = (case contract of
            McCurrentStrict \<Rightarrow> TiCurrent
          | McHistoricalStrict \<Rightarrow> TiHistorical
          | _ \<Rightarrow> (case time_intent of Some t \<Rightarrow> t | None \<Rightarrow> TiAuto))
      in if retrieval_policy = RpStability \<and> contract \<noteq> McHistoricalStrict \<and> time_intent = None then TiCurrent else base)"

definition plan_context :: "memory_context_request \<Rightarrow> user_policy_record \<Rightarrow> mnemo_error + context_plan" where
  "plan_context req policy =
     (let contract = (case mcr_contract req of
            Some c \<Rightarrow> c | None \<Rightarrow> parse_memory_contract_default (default_memory_contract policy));
          retrieval_policy = (case mcr_retrieval_policy req of
            Some p \<Rightarrow> p | None \<Rightarrow> parse_retrieval_policy_default (default_retrieval_policy policy))
      in if contract = McHistoricalStrict \<and> mcr_as_of req = None then
           Inl (Validation ''historical_strict contract requires as_of'')
         else
           Inr \<lparr>pl_contract = contract, pl_retrieval_policy = retrieval_policy,
                pl_max_tokens = clamp_u32 100 10000
                  (case mcr_max_tokens req of Some m \<Rightarrow> m | None \<Rightarrow> default_max_tokens retrieval_policy),
                pl_temporal_intent = plan_intent contract retrieval_policy (mcr_time_intent req),
                pl_temporal_weight = (case mcr_temporal_weight req of
                    Some w \<Rightarrow> Some w | None \<Rightarrow> policy_temporal_weight retrieval_policy),
                pl_min_relevance = (case mcr_min_relevance req of
                    Some r \<Rightarrow> r | None \<Rightarrow> policy_min_relevance retrieval_policy)\<rparr>)"

section \<open>The filters\<close>

definition apply_memory_contract :: "memory_contract \<Rightarrow> context_block \<Rightarrow> context_block" where
  "apply_memory_contract contract cb =
     (case contract of
        McDefault \<Rightarrow> cb
      | McSupportSafe \<Rightarrow>
          cb\<lparr>cb_episodes := filter (\<lambda>e. eps_role e = Some ''user'') (cb_episodes cb),
             cb_facts := filter (\<lambda>f. fs_invalid_at f = None) (cb_facts cb)\<rparr>
      | McCurrentStrict \<Rightarrow>
          cb\<lparr>cb_facts := filter (\<lambda>f. fs_invalid_at f = None) (cb_facts cb),
             cb_episodes := filter (\<lambda>e. case eps_role e of
                 Some r \<Rightarrow> r = ''user'' \<or> r = ''assistant'' | None \<Rightarrow> True) (cb_episodes cb)\<rparr>
      | McHistoricalStrict \<Rightarrow> cb)"

text \<open>\<^verbatim>\<open>retain\<close> with a test that may panic.\<close>

fun retain_opt :: "('a \<Rightarrow> bool option) \<Rightarrow> 'a list \<Rightarrow> 'a list option" where
  "retain_opt t [] = Some []"
| "retain_opt t (x # xs) =
     (case t x of
        None \<Rightarrow> None
      | Some keep \<Rightarrow>
        (case retain_opt t xs of None \<Rightarrow> None | Some ys \<Rightarrow> Some (if keep then x # ys else ys)))"

text \<open>The constraints of a request: those of the named view under the caller's ceiling, or the ceiling.\<close>

definition resolve_constraints ::
  "caller_context \<Rightarrow> string option \<Rightarrow> view_store \<Rightarrow> mnemo_error + view_constraints option" where
  "resolve_constraints caller requested_view views =
     (case requested_view of
        Some name \<Rightarrow>
          (case get_view name views of
             None \<Rightarrow> Inl (NotFound ''memory_view'' name)
           | Some view \<Rightarrow> Inr (Some (constraints_from_view view (max_classification caller))))
      | None \<Rightarrow>
          (let caller_max = max_classification caller in
           if caller_max < ClRestricted then Inr (Some (default_for_caller caller_max)) else Inr None))"

text \<open>\<open>clk\<close> is the reading of the clock in the test of a fact; \<open>None\<close> is a panic.\<close>

definition apply_view ::
  "(timestamp \<Rightarrow> string) \<Rightarrow> timestamp \<Rightarrow> (fact_summary \<Rightarrow> timestamp) \<Rightarrow> u32 \<Rightarrow> view_constraints \<Rightarrow> context_block \<Rightarrow>
   context_block option" where
  "apply_view fmt_date min_utc clk max_tokens vc cb =
     (case retain_opt (\<lambda>f. if allows_edge vc (fs_classification f) (fs_label f)
                          then allows_time min_utc (clk f) vc (fs_valid_at f) else Some False) (cb_facts cb) of
        None \<Rightarrow> None
      | Some facts \<Rightarrow>
        Some (assemble fmt_date max_tokens
          (cb\<lparr>cb_entities := filter (\<lambda>e. allows_entity vc (es_classification e) (es_entity_type e)) (cb_entities cb),
              cb_facts := (case vc_max_facts vc of Some m \<Rightarrow> take (unat m) facts | None \<Rightarrow> facts)\<rparr>)))"

text \<open>\<^verbatim>\<open>TimeDelta::num_days\<close> rounds towards zero; the cast to \<^verbatim>\<open>u32\<close> truncates.\<close>

definition num_days :: "int \<Rightarrow> int" where
  "num_days d = sgn d * (\<bar>d\<bar> div ns_per_day)"

definition fact_eval_context :: "uuid \<Rightarrow> api_key_role \<Rightarrow> timestamp \<Rightarrow> fact_summary \<Rightarrow> eval_context" where
  "fact_eval_context user_id role now f =
     eval_context_default\<lparr>ec_classification := Some (fs_classification f), ec_edge_label := Some (fs_label f),
       ec_content := Some (fs_fact f), ec_caller_role := Some role,
       ec_fact_age_days := Some (of_int (max 0 (num_days (now - fs_valid_at f)))),
       ec_confidence := Some (fs_relevance f), ec_user_id := Some user_id\<rparr>"

definition entity_eval_context :: "uuid \<Rightarrow> api_key_role \<Rightarrow> entity_summary \<Rightarrow> eval_context" where
  "entity_eval_context user_id role e =
     eval_context_default\<lparr>ec_classification := Some (es_classification e), ec_entity_type := Some (es_entity_type e),
       ec_caller_role := Some role, ec_user_id := Some user_id\<rparr>"

definition add_warnings :: "string list \<Rightarrow> string list \<Rightarrow> string list" where
  "add_warnings new_ws ws = fold (\<lambda>w ws. if w \<in> set ws then ws else ws @ [w]) new_ws ws"

text \<open>\<^verbatim>\<open>retain\<close> with a verdict per item: a redacted item goes, the warnings of the others are collected.\<close>

fun guard_retain :: "('a \<Rightarrow> guardrail_verdict) \<Rightarrow> 'a list \<Rightarrow> string list \<Rightarrow> 'a list \<times> string list" where
  "guard_retain verdict [] ws = ([], ws)"
| "guard_retain verdict (x # xs) ws =
     (if gv_redact (verdict x) then guard_retain verdict xs ws
      else case guard_retain verdict xs (add_warnings (gv_warnings (verdict x)) ws) of (ys, ws') \<Rightarrow> (x # ys, ws'))"

definition apply_guardrails ::
  "(timestamp \<Rightarrow> string) \<Rightarrow> (string \<Rightarrow> string \<Rightarrow> bool option) \<Rightarrow> (fact_summary \<Rightarrow> timestamp) \<Rightarrow> u32 \<Rightarrow> uuid \<Rightarrow> api_key_role \<Rightarrow>
   guardrail_rule list \<Rightarrow> context_block \<Rightarrow> context_block \<times> string list" where
  "apply_guardrails fmt_date rx_match clk max_tokens user_id role rules cb =
     (if rules = [] then (cb, [])
      else
        case guard_retain (\<lambda>f. evaluate_rules rx_match rules OnRetrieval (fact_eval_context user_id role (clk f) f))
               (cb_facts cb) [] of (facts, ws1) \<Rightarrow>
        case guard_retain (\<lambda>e. evaluate_rules rx_match rules OnRetrieval (entity_eval_context user_id role e))
               (cb_entities cb) ws1 of (entities, ws) \<Rightarrow>
          let cb' = cb\<lparr>cb_facts := facts, cb_entities := entities\<rparr> in
          (if length facts \<noteq> length entities \<or> ws \<noteq> [] then assemble fmt_date max_tokens cb' else cb', ws))"

record memory_context_response =
  mcp_context :: context_block
  mcp_view_applied :: "string option"
  mcp_guardrail_warnings :: "string list"

text \<open>
  From the retrieved block to the response. \<open>None\<close> is a panic. \<open>clk_ret\<close>, \<open>clk_view\<close> and
  \<open>clk_guard\<close> read the clock in the three loops.
\<close>

definition finish_context ::
  "(timestamp \<Rightarrow> string) \<Rightarrow> (string \<Rightarrow> string \<Rightarrow> bool option) \<Rightarrow> timestamp \<Rightarrow> (episode_summary \<Rightarrow> timestamp) \<Rightarrow>
   (fact_summary \<Rightarrow> timestamp) \<Rightarrow> (fact_summary \<Rightarrow> timestamp) \<Rightarrow> caller_context \<Rightarrow> uuid \<Rightarrow> user_policy_record \<Rightarrow>
   context_plan \<Rightarrow> uuid list option \<Rightarrow> string option \<Rightarrow> view_store \<Rightarrow> guardrail_store \<Rightarrow> context_block \<Rightarrow>
   (mnemo_error + memory_context_response) option" where
  "finish_context fmt_date rx_match min_utc clk_ret clk_view clk_guard caller user_id policy plan candidates
     requested_view views guards cb =
     (let cb1 = (case candidates of
            Some ids \<Rightarrow> cb\<lparr>cb_episodes := filter (\<lambda>e. eps_id e \<in> set ids) (cb_episodes cb)\<rparr>
          | None \<Rightarrow> cb);
          cb2 = apply_memory_contract (pl_contract plan) cb1;
          cb3 = cb2\<lparr>cb_episodes :=
            filter (\<lambda>e. is_episode_summary_within_retention (clk_ret e) policy e) (cb_episodes cb2)\<rparr>
      in case resolve_constraints caller requested_view views of
           Inl e \<Rightarrow> Some (Inl e)
         | Inr constraints \<Rightarrow>
           (case (case constraints of
                    Some vc \<Rightarrow> map_option (\<lambda>b. (b, vc_view_name vc)) (apply_view fmt_date min_utc clk_view (pl_max_tokens plan) vc cb3)
                  | None \<Rightarrow> Some (cb3, None)) of
              None \<Rightarrow> None
            | Some (cb4, view_applied) \<Rightarrow>
              (case apply_guardrails fmt_date rx_match clk_guard (pl_max_tokens plan) user_id (caller_role caller)
                      (list_guardrails_for_user user_id None guards) cb4 of (cb5, ws) \<Rightarrow>
                Some (Inr \<lparr>mcp_context = cb5, mcp_view_applied = view_applied, mcp_guardrail_warnings = ws\<rparr>))))"

section \<open>Lemmas\<close>

lemma retain_opt_eq:
  "retain_opt t xs = (if \<forall>x \<in> set xs. t x \<noteq> None then Some (filter (\<lambda>x. t x = Some True) xs) else None)"
  by (induction xs) (auto split: option.split)

lemma retain_opt_Some_iff:
  "retain_opt t xs = Some ys \<longleftrightarrow> (\<forall>x \<in> set xs. t x \<noteq> None) \<and> ys = filter (\<lambda>x. t x = Some True) xs"
  by (auto simp: retain_opt_eq)

text \<open>Items that the test refuses without a panic have no influence.\<close>

lemma retain_opt_skip:
  "(\<And>x. x \<in> set xs \<Longrightarrow> \<not> P x \<Longrightarrow> t x = Some False) \<Longrightarrow> retain_opt t xs = retain_opt t (filter P xs)"
  by (induction xs) (auto split: option.split)

lemma guard_retain_fst: "fst (guard_retain verdict xs ws) = filter (\<lambda>x. \<not> gv_redact (verdict x)) xs"
  by (induction xs arbitrary: ws) (auto split: prod.split, metis fst_conv)

lemma guard_retain_filter:
  "guard_retain verdict xs ws = (ys, ws') \<Longrightarrow> ys = filter (\<lambda>x. \<not> gv_redact (verdict x)) xs"
  by (metis fst_conv guard_retain_fst)

lemma assemble_fields [simp]:
  "cb_entities (assemble fmt_date m cb) = cb_entities cb"
  "cb_facts (assemble fmt_date m cb) = cb_facts cb"
  "cb_episodes (assemble fmt_date m cb) = cb_episodes cb"
  by (simp_all add: assemble_def Let_def)

lemma apply_memory_contract_fields [simp]:
  "cb_entities (apply_memory_contract c cb) = cb_entities cb"
  "set (cb_facts (apply_memory_contract c cb)) \<subseteq> set (cb_facts cb)"
  "set (cb_episodes (apply_memory_contract c cb)) \<subseteq> set (cb_episodes cb)"
  by (auto simp: apply_memory_contract_def split: memory_contract.split)

lemma within_ceiling_trans_view:
  "within_ceiling (vc_max_classification (constraints_from_view view m)) c \<Longrightarrow> within_ceiling m c"
  by (simp add: from_view_ceiling)

lemma resolve_constraints_ceiling:
  "resolve_constraints caller name views = Inr (Some vc) \<Longrightarrow>
     within_ceiling (vc_max_classification vc) c \<Longrightarrow> within_ceiling (max_classification caller) c"
  by (auto simp: resolve_constraints_def Let_def default_for_caller_def dest: within_ceiling_trans_view
      split: option.splits if_splits)

lemma resolve_constraints_None:
  "resolve_constraints caller name views = Inr None \<Longrightarrow> within_ceiling (max_classification caller) c"
  by (cases "max_classification caller")
    (auto simp: resolve_constraints_def Let_def less_classification_def split: option.splits if_splits)

definition entity_redacted ::
  "(string \<Rightarrow> string \<Rightarrow> bool option) \<Rightarrow> guardrail_rule list \<Rightarrow> uuid \<Rightarrow> api_key_role \<Rightarrow> entity_summary \<Rightarrow> bool" where
  "entity_redacted rx_match rules user_id role e =
     gv_redact (evaluate_rules rx_match rules OnRetrieval (entity_eval_context user_id role e))"

definition fact_redacted ::
  "(string \<Rightarrow> string \<Rightarrow> bool option) \<Rightarrow> guardrail_rule list \<Rightarrow> uuid \<Rightarrow> api_key_role \<Rightarrow> timestamp \<Rightarrow> fact_summary \<Rightarrow> bool" where
  "fact_redacted rx_match rules user_id role now f =
     gv_redact (evaluate_rules rx_match rules OnRetrieval (fact_eval_context user_id role now f))"

lemma no_rules_redact_nothing [simp]:
  "\<not> entity_redacted rx_match [] user_id role e" "\<not> fact_redacted rx_match [] user_id role now f"
  by (simp_all add: entity_redacted_def fact_redacted_def evaluate_rules_def verdict_default_def)

lemma apply_guardrails_items:
  assumes "apply_guardrails fmt_date rx_match clk m user_id role rules cb = (cb', ws)"
  shows "cb_facts cb' = filter (\<lambda>f. \<not> fact_redacted rx_match rules user_id role (clk f) f) (cb_facts cb) \<and>
    cb_entities cb' = filter (\<lambda>e. \<not> entity_redacted rx_match rules user_id role e) (cb_entities cb) \<and>
    cb_episodes cb' = cb_episodes cb"
proof (cases "rules = []")
  case False
  then show ?thesis
    using assms unfolding fact_redacted_def entity_redacted_def
    by (auto simp: apply_guardrails_def Let_def split: prod.splits if_splits dest!: guard_retain_filter)
qed (use assms in \<open>simp add: apply_guardrails_def\<close>)

lemma apply_view_items:
  assumes "apply_view fmt_date min_utc clk m vc cb = Some cb'"
  shows "cb_entities cb' = filter (\<lambda>e. allows_entity vc (es_classification e) (es_entity_type e)) (cb_entities cb) \<and>
    set (cb_facts cb') \<subseteq> {f \<in> set (cb_facts cb). allows_edge vc (fs_classification f) (fs_label f)} \<and>
    (\<forall>n. vc_max_facts vc = Some n \<longrightarrow> length (cb_facts cb') \<le> unat n)"
  using assms set_take_subset
  by (fastforce simp: apply_view_def retain_opt_Some_iff split: option.splits if_splits)

lemma list_all_none: "(\<And>x. x \<in> set xs \<Longrightarrow> False) \<Longrightarrow> xs = []"
  by (cases xs) auto

text \<open>What a caller may see of a retrieved block. The text and its token count are no part of it.\<close>

definition visible_block :: "classification \<Rightarrow> context_block \<Rightarrow> context_block" where
  "visible_block cap cb =
     cb\<lparr>cb_context := [], cb_token_count := 0,
        cb_entities := filter (\<lambda>e. within_ceiling cap (es_classification e)) (cb_entities cb),
        cb_facts := filter (\<lambda>f. within_ceiling cap (fs_classification f)) (cb_facts cb)\<rparr>"

lemma filter_ceiling: "(\<And>x. P x \<Longrightarrow> Q x) \<Longrightarrow> filter P xs = filter P (filter Q xs)"
  by (induction xs) auto

lemma assemble_visible:
  "assemble fmt_date m (cb\<lparr>cb_context := t, cb_token_count := n\<rparr>) = assemble fmt_date m cb"
  by (simp add: assemble_def assembled_parts_def Let_def)

lemma apply_view_visible:
  assumes "\<And>c. within_ceiling (vc_max_classification vc) c \<Longrightarrow> within_ceiling cap c"
  shows "apply_view fmt_date min_utc clk m vc (visible_block cap cb) = apply_view fmt_date min_utc clk m vc cb"
proof -
  let ?t = "\<lambda>f. if allows_edge vc (fs_classification f) (fs_label f)
      then allows_time min_utc (clk f) vc (fs_valid_at f) else Some False"
  have "retain_opt ?t (cb_facts cb) =
      retain_opt ?t (filter (\<lambda>f. within_ceiling cap (fs_classification f)) (cb_facts cb))"
    by (rule retain_opt_skip) (auto simp: allows_edge_iff dest: assms)
  moreover have "filter (\<lambda>e. allows_entity vc (es_classification e) (es_entity_type e)) (cb_entities cb) =
      filter (\<lambda>e. allows_entity vc (es_classification e) (es_entity_type e))
        (filter (\<lambda>e. within_ceiling cap (es_classification e)) (cb_entities cb))"
    by (rule filter_ceiling) (auto simp: allows_entity_iff dest: assms)
  ultimately show ?thesis
    using assemble_visible [where t = "[]" and n = 0]
    by (simp add: apply_view_def visible_block_def assemble_def assembled_parts_def Let_def split: option.split)
qed

lemma contract_visible:
  "visible_block cap (apply_memory_contract c cb) = apply_memory_contract c (visible_block cap cb)"
  by (simp add: apply_memory_contract_def visible_block_def conj_commute split: memory_contract.split)

text \<open>The block before the view: candidates, contract and retention.\<close>

definition pre_view ::
  "(episode_summary \<Rightarrow> timestamp) \<Rightarrow> user_policy_record \<Rightarrow> context_plan \<Rightarrow> uuid list option \<Rightarrow> context_block \<Rightarrow> context_block" where
  "pre_view clk_ret policy plan candidates cb =
     (let cb1 = (case candidates of
            Some ids \<Rightarrow> cb\<lparr>cb_episodes := filter (\<lambda>e. eps_id e \<in> set ids) (cb_episodes cb)\<rparr>
          | None \<Rightarrow> cb);
          cb2 = apply_memory_contract (pl_contract plan) cb1
      in cb2\<lparr>cb_episodes :=
            filter (\<lambda>e. is_episode_summary_within_retention (clk_ret e) policy e) (cb_episodes cb2)\<rparr>)"

lemma pre_view_visible:
  "visible_block cap (pre_view clk_ret policy plan candidates cb) =
     pre_view clk_ret policy plan candidates (visible_block cap cb)"
  by (cases candidates; cases "pl_contract plan")
    (simp_all add: pre_view_def Let_def apply_memory_contract_def visible_block_def conj_commute)

lemma pre_view_items:
  "cb_entities (pre_view clk_ret policy plan candidates cb) = cb_entities cb"
  "set (cb_facts (pre_view clk_ret policy plan candidates cb)) \<subseteq> set (cb_facts cb)"
  "cb_context (pre_view clk_ret policy plan candidates cb) = cb_context cb"
  by (cases candidates; cases "pl_contract plan"; auto simp: pre_view_def Let_def apply_memory_contract_def)+

lemma finish_context_split:
  "finish_context fmt_date rx_match min_utc clk_ret clk_view clk_guard caller user_id policy plan candidates
     requested_view views guards cb =
   (case resolve_constraints caller requested_view views of
      Inl e \<Rightarrow> Some (Inl e)
    | Inr constraints \<Rightarrow>
      (case (case constraints of
               Some vc \<Rightarrow> map_option (\<lambda>b. (b, vc_view_name vc))
                 (apply_view fmt_date min_utc clk_view (pl_max_tokens plan) vc (pre_view clk_ret policy plan candidates cb))
             | None \<Rightarrow> Some (pre_view clk_ret policy plan candidates cb, None)) of
         None \<Rightarrow> None
       | Some (cb4, view_applied) \<Rightarrow>
         (case apply_guardrails fmt_date rx_match clk_guard (pl_max_tokens plan) user_id (caller_role caller)
                 (list_guardrails_for_user user_id None guards) cb4 of (cb5, ws) \<Rightarrow>
           Some (Inr \<lparr>mcp_context = cb5, mcp_view_applied = view_applied, mcp_guardrail_warnings = ws\<rparr>))))"
  by (simp only: finish_context_def pre_view_def Let_def)

text \<open>Without a temporal scope nothing panics.\<close>

lemma apply_view_total: "vc_temporal_scope vc = None \<Longrightarrow> apply_view fmt_date min_utc clk m vc cb \<noteq> None"
  by (auto simp: apply_view_def retain_opt_eq allows_time_def)

lemma finish_context_total:
  assumes "resolve_constraints caller requested_view views = Inr constraints"
    and "\<And>vc. constraints = Some vc \<Longrightarrow> vc_temporal_scope vc = None"
  shows "\<exists>r. finish_context fmt_date rx_match min_utc clk_ret clk_view clk_guard caller user_id policy plan candidates
      requested_view views guards cb = Some (Inr r)"
  using assms apply_view_total
  by (auto simp: finish_context_split split: option.split prod.split)

text \<open>Sample data of the witnesses.\<close>

definition sample_caller :: "classification option \<Rightarrow> caller_context" where
  "sample_caller cap = \<lparr>key_id = 7, key_name = ''k'', caller_role = RoleRead,
     caller_scope = Some \<lparr>allowed_user_ids = None, allowed_agent_ids = None, scope_max_classification = cap\<rparr>\<rparr>"

definition sample_fact :: "classification \<Rightarrow> string \<Rightarrow> fact_summary" where
  "sample_fact c t =
     \<lparr>fs_id = 1, fs_source_entity = ''a'', fs_target_entity = ''b'', fs_label = ''earns'', fs_fact = t,
      fs_classification = c, fs_valid_at = 0, fs_invalid_at = None, fs_relevance = Fin 1, fs_access_count = 0,
      fs_last_accessed_at = None, fs_temporal_scope = None\<rparr>"

definition sample_plan :: context_plan where
  "sample_plan = \<lparr>pl_contract = McDefault, pl_retrieval_policy = RpBalanced, pl_max_tokens = 500,
     pl_temporal_intent = TiAuto, pl_temporal_weight = None, pl_min_relevance = Fin 0\<rparr>"

definition no_views :: view_store where
  "no_views = \<lparr>vs_views = [], vs_index = []\<rparr>"

definition redact_rule :: guardrail_rule where
  "redact_rule = \<lparr>gr_id = 1, gr_name = ''pay'', gr_description = [], gr_trigger = OnRetrieval,
     gr_condition = ClassificationAbove ClPublic, gr_action = Redact, gr_priority = 0, gr_enabled = True,
     gr_scope = GGlobal, gr_created_at = 0, gr_updated_at = 0\<rparr>"

section \<open>Properties\<close>

text \<open>C13: Whatever the retrieval engine delivers, the entities and facts of the response were delivered
  by it, are within the classification ceiling of the caller (also under a view whose own
  ceiling is higher), and are not redacted by any rule that applies to the user.\<close>

theorem context_respects_ceiling:
  assumes "finish_context fmt_date rx_match min_utc clk_ret clk_view clk_guard caller user_id policy plan candidates
      requested_view views guards cb = Some (Inr r)"
  shows "(\<forall>e \<in> set (cb_entities (mcp_context r)).
      e \<in> set (cb_entities cb) \<and> within_ceiling (max_classification caller) (es_classification e) \<and>
      \<not> entity_redacted rx_match (list_guardrails_for_user user_id None guards) user_id (caller_role caller) e) \<and>
    (\<forall>f \<in> set (cb_facts (mcp_context r)).
      f \<in> set (cb_facts cb) \<and> within_ceiling (max_classification caller) (fs_classification f) \<and>
      \<not> fact_redacted rx_match (list_guardrails_for_user user_id None guards) user_id (caller_role caller) (clk_guard f) f)"
proof -
  let ?pre = "pre_view clk_ret policy plan candidates cb"
  obtain constraints cb4 va where rc: "resolve_constraints caller requested_view views = Inr constraints"
    and v: "(case constraints of
        Some vc \<Rightarrow> map_option (\<lambda>b. (b, vc_view_name vc)) (apply_view fmt_date min_utc clk_view (pl_max_tokens plan) vc ?pre)
      | None \<Rightarrow> Some (?pre, None)) = Some (cb4, va)"
    and g: "fst (apply_guardrails fmt_date rx_match clk_guard (pl_max_tokens plan) user_id (caller_role caller)
        (list_guardrails_for_user user_id None guards) cb4) = mcp_context r"
    using assms by (auto simp: finish_context_split split: sum.splits option.splits prod.splits)
  have items: "(\<forall>e \<in> set (cb_entities cb4). e \<in> set (cb_entities cb) \<and> within_ceiling (max_classification caller) (es_classification e)) \<and>
      (\<forall>f \<in> set (cb_facts cb4). f \<in> set (cb_facts cb) \<and> within_ceiling (max_classification caller) (fs_classification f))"
  proof (cases constraints)
    case None
    with rc v show ?thesis
      using resolve_constraints_None pre_view_items(1,2) by fastforce
  next
    case (Some vc)
    then have "apply_view fmt_date min_utc clk_view (pl_max_tokens plan) vc ?pre = Some cb4" using v by auto
    from apply_view_items [OF this] rc Some show ?thesis
      using pre_view_items(1,2)
      by (fastforce simp: allows_entity_iff allows_edge_iff dest: resolve_constraints_ceiling)
  qed
  obtain ws where "apply_guardrails fmt_date rx_match clk_guard (pl_max_tokens plan) user_id (caller_role caller)
      (list_guardrails_for_user user_id None guards) cb4 = (mcp_context r, ws)"
    using g by (metis prod.collapse)
  from apply_guardrails_items [OF this] items show ?thesis by auto
qed

lemma context_respects_ceiling_witness:
  "\<exists>r. finish_context (\<lambda>_. []) (\<lambda>_ _. None) 0 (\<lambda>_. 0) (\<lambda>_. 0) (\<lambda>_. 0) (sample_caller (Some ClInternal)) 1
      (default_user_policy 1 ''1'' 0) sample_plan None None no_views guardrail_store_new
      (context_empty\<lparr>cb_facts := [sample_fact ClRestricted ''pay'']\<rparr>) = Some (Inr r) \<and> cb_facts (mcp_context r) = []"
proof -
  have c: "resolve_constraints (sample_caller (Some ClInternal)) None no_views = Inr (Some (default_for_caller ClInternal))"
    by (simp add: resolve_constraints_def sample_caller_def max_classification_def effective_max_classification_def
        less_classification_def)
  then obtain r where r: "finish_context (\<lambda>_. []) (\<lambda>_ _. None) 0 (\<lambda>_. 0) (\<lambda>_. 0) (\<lambda>_. 0) (sample_caller (Some ClInternal)) 1
      (default_user_policy 1 ''1'' 0) sample_plan None None no_views guardrail_store_new
      (context_empty\<lparr>cb_facts := [sample_fact ClRestricted ''pay'']\<rparr>) = Some (Inr r)"
    using finish_context_total [OF c, of "\<lambda>_. []" "\<lambda>_ _. None" 0 "\<lambda>_. 0" "\<lambda>_. 0" "\<lambda>_. 0" 1]
    by (simp add: default_for_caller_def) blast
  have "max_classification (sample_caller (Some ClInternal)) = ClInternal"
    by (simp add: sample_caller_def max_classification_def effective_max_classification_def)
  then have "cb_facts (mcp_context r) = []"
    using context_respects_ceiling [OF r, THEN conjunct2]
    by (intro list_all_none) (auto simp: sample_fact_def within_ceiling_def less_classification_def context_empty_def)
  with r show ?thesis by blast
qed

text \<open>C14: Non-interference of the ceiling: with a view, or for a caller below \<^verbatim>\<open>restricted\<close>,
  two retrieved blocks that agree on what the caller may see (they may differ in entities and
  facts above the ceiling, in the text assembled from them and in its token count) give the same
  response, text included.\<close>

theorem hidden_items_do_not_interfere:
  assumes "requested_view \<noteq> None \<or> max_classification caller < ClRestricted"
    and "visible_block (max_classification caller) cb = visible_block (max_classification caller) cb'"
  shows "finish_context fmt_date rx_match min_utc clk_ret clk_view clk_guard caller user_id policy plan candidates
      requested_view views guards cb =
    finish_context fmt_date rx_match min_utc clk_ret clk_view clk_guard caller user_id policy plan candidates
      requested_view views guards cb'"
proof -
  let ?cap = "max_classification caller" and ?pre = "pre_view clk_ret policy plan candidates"
  have "apply_view fmt_date min_utc clk_view m vc (?pre cb) = apply_view fmt_date min_utc clk_view m vc (?pre cb')"
    if "resolve_constraints caller requested_view views = Inr (Some vc)" for vc m
  proof -
    have c: "\<And>c. within_ceiling (vc_max_classification vc) c \<Longrightarrow> within_ceiling ?cap c"
      using that by (rule resolve_constraints_ceiling)
    have "apply_view fmt_date min_utc clk_view m vc (?pre b) =
        apply_view fmt_date min_utc clk_view m vc (?pre (visible_block ?cap b))" for b
      using apply_view_visible [OF c, where cb = "?pre b"] by (simp add: pre_view_visible)
    then show ?thesis using assms(2) by metis
  qed
  moreover have "resolve_constraints caller requested_view views \<noteq> Inr None"
    using assms(1) by (auto simp: resolve_constraints_def Let_def split: option.split)
  ultimately show ?thesis
    by (auto simp: finish_context_split split: sum.split option.split)
qed

lemma hidden_items_do_not_interfere_witness:
  "finish_context (\<lambda>_. []) (\<lambda>_ _. None) 0 (\<lambda>_. 0) (\<lambda>_. 0) (\<lambda>_. 0) (sample_caller (Some ClInternal)) 1
      (default_user_policy 1 ''1'' 0) sample_plan None None no_views guardrail_store_new
      (context_empty\<lparr>cb_context := ''pay is 9'', cb_facts := [sample_fact ClRestricted ''pay is 9'']\<rparr>) =
    finish_context (\<lambda>_. []) (\<lambda>_ _. None) 0 (\<lambda>_. 0) (\<lambda>_. 0) (\<lambda>_. 0) (sample_caller (Some ClInternal)) 1
      (default_user_policy 1 ''1'' 0) sample_plan None None no_views guardrail_store_new context_empty"
  by (rule hidden_items_do_not_interfere)
    (simp_all add: sample_caller_def max_classification_def effective_max_classification_def less_classification_def
      visible_block_def sample_fact_def within_ceiling_def context_empty_def)

text \<open>The text is not always assembled again: for a caller without a ceiling and no view, when the
  rules leave as many facts as entities and give no warning, the response still carries the
  text of the retrieval engine, with the facts that the rules redacted.\<close>

theorem redacted_fact_stays_in_text:
  assumes "requested_view = None" and "max_classification caller = ClRestricted"
    and "rules = list_guardrails_for_user user_id None guards"
    and "f \<in> set (cb_facts cb)" and "fact_redacted rx_match rules user_id (caller_role caller) (clk_guard f) f"
    and "apply_guardrails fmt_date rx_match clk_guard (pl_max_tokens plan) user_id (caller_role caller) rules
      (pre_view clk_ret policy plan candidates cb) = (cb', [])"
    and "length (cb_facts cb') = length (cb_entities cb')"
  shows "\<exists>r. finish_context fmt_date rx_match min_utc clk_ret clk_view clk_guard caller user_id policy plan candidates
      requested_view views guards cb = Some (Inr r) \<and>
    f \<notin> set (cb_facts (mcp_context r)) \<and> cb_context (mcp_context r) = cb_context cb"
proof -
  have "resolve_constraints caller requested_view views = Inr None"
    using assms(1,2) by (simp add: resolve_constraints_def Let_def less_classification_def)
  moreover have "cb_context cb' = cb_context cb"
    using assms(6,7) pre_view_items(3)
    by (auto simp: apply_guardrails_def Let_def split: prod.splits if_splits)
  moreover have "f \<notin> set (cb_facts cb')"
    using apply_guardrails_items [OF assms(6)] assms(5) by simp
  ultimately show ?thesis
    using assms(3,6) by (auto simp: finish_context_split)
qed

lemma redacted_fact_stays_in_text_witness:
  "\<exists>r. finish_context (\<lambda>_. []) (\<lambda>_ _. None) 0 (\<lambda>_. 0) (\<lambda>_. 0) (\<lambda>_. 0) admin_bootstrap 1
      (default_user_policy 1 ''1'' 0) sample_plan None None no_views (save_guardrail redact_rule guardrail_store_new)
      (context_empty\<lparr>cb_context := ''pay is 9'', cb_facts := [sample_fact ClRestricted ''pay is 9'']\<rparr>) = Some (Inr r) \<and>
    sample_fact ClRestricted ''pay is 9'' \<notin> set (cb_facts (mcp_context r)) \<and> cb_context (mcp_context r) = ''pay is 9''"
proof -
  let ?cb = "context_empty\<lparr>cb_context := ''pay is 9'', cb_facts := [sample_fact ClRestricted ''pay is 9'']\<rparr>"
  have rules: "list_guardrails_for_user 1 None (save_guardrail redact_rule guardrail_store_new) = [redact_rule]"
    by code_simp
  have red: "fact_redacted (\<lambda>_ _. None) [redact_rule] 1 RoleAdmin 0 (sample_fact ClRestricted ''pay is 9'')"
    by (simp add: fact_redacted_def evaluate_rules_def redact_rule_def fact_eval_context_def sample_fact_def
        rule_applies_to_def trigger_matches_def eval_context_default_def less_classification_def verdict_default_def)
  have g: "apply_guardrails (\<lambda>_. []) (\<lambda>_ _. None) (\<lambda>_. 0) 500 1 RoleAdmin [redact_rule]
      (pre_view (\<lambda>_. 0) (default_user_policy 1 ''1'' 0) sample_plan None ?cb) = (?cb\<lparr>cb_facts := []\<rparr>, [])"
    using red by (simp add: apply_guardrails_def pre_view_def sample_plan_def apply_memory_contract_def context_empty_def
        fact_redacted_def)
  show ?thesis
    using redacted_fact_stays_in_text [where rules = "[redact_rule]" and f = "sample_fact ClRestricted ''pay is 9''" and
        requested_view = None and caller = admin_bootstrap and user_id = 1 and clk_guard = "\<lambda>_. 0" and
        guards = "save_guardrail redact_rule guardrail_store_new" and plan = sample_plan and cb = ?cb and
        rx_match = "\<lambda>_ _. None" and fmt_date = "\<lambda>_. []" and clk_ret = "\<lambda>_. 0" and candidates = None and
        policy = "default_user_policy 1 ''1'' 0" and min_utc = 0 and clk_view = "\<lambda>_. 0" and views = no_views and
        cb' = "?cb\<lparr>cb_facts := []\<rparr>"] red g rules
    by (simp add: admin_bootstrap_def max_classification_def sample_plan_def context_empty_def)
qed

end
