(* ===== verification/Identity_Guard.thy ===== *)
theory Identity_Guard
  imports Access
begin

text \<open>
  The contamination guard of agent identities: the allowlist of core keys, its Merkle tree and the
  proof-carrying check of \<^verbatim>\<open>mnemo-core/src/models/agent.rs\<close>, and the direct check
  \<^verbatim>\<open>validate_identity_core\<close> of \<^verbatim>\<open>mnemo-server/src/routes.rs\<close>. \<open>sha\<close> stands for SHA-256
  (on byte strings), \<open>henc\<close> and \<open>hdec\<close> for \<^verbatim>\<open>encode\<close> and \<^verbatim>\<open>decode\<close> of the
  \<^verbatim>\<open>hex\<close> crate.
\<close>

section \<open>The allowlist and the direct check\<close>

definition identity_allowlist :: "string list" where
  "identity_allowlist = [''boundaries'', ''capabilities'', ''mission'', ''persona'', ''style'', ''values'']"

definition identity_forbidden_substrings :: "string list" where
  "identity_forbidden_substrings =
     [''address'', ''email'', ''episode'', ''external_id'', ''phone'', ''session'', ''user'']"

definition forbidden_key :: "string list \<Rightarrow> string \<Rightarrow> bool" where
  "forbidden_key tokens k = list_ex (\<lambda>token. str_contains (lowercase k) token) tokens"

definition item_path :: "string \<Rightarrow> nat \<Rightarrow> string" where
  "item_path path idx = path @ ''['' @ nat_to_string idx @ '']/''"

fun check_forbidden_substrings :: "json \<Rightarrow> string \<Rightarrow> string + unit"
  and check_fields :: "(string \<times> json) list \<Rightarrow> string \<Rightarrow> string + unit"
  and check_items :: "nat \<Rightarrow> json list \<Rightarrow> string \<Rightarrow> string + unit" where
  "check_forbidden_substrings (JObject entries) path = check_fields entries path"
| "check_forbidden_substrings (JArray items) path = check_items 0 items path"
| "check_forbidden_substrings _ path = Inr ()"
| "check_fields [] path = Inr ()"
| "check_fields ((k, v) # entries) path =
     (if forbidden_key identity_forbidden_substrings k then Inl (path @ k)
      else case check_forbidden_substrings v (path @ k @ ''/'') of
        Inl e \<Rightarrow> Inl e
      | Inr _ \<Rightarrow> check_fields entries path)"
| "check_items idx [] path = Inr ()"
| "check_items idx (x # xs) path =
     (case check_forbidden_substrings x (item_path path idx) of
        Inl e \<Rightarrow> Inl e
      | Inr _ \<Rightarrow> check_items (idx + 1) xs path)"

definition allowed_top_level :: "string list" where
  "allowed_top_level = [''mission'', ''style'', ''boundaries'', ''capabilities'', ''values'', ''persona'']"

definition visit_tokens :: "string list" where
  "visit_tokens = [''user'', ''session'', ''episode'', ''external_id'', ''email'', ''phone'', ''address'']"

fun visit :: "json \<Rightarrow> string \<Rightarrow> mnemo_error + unit"
  and visit_fields :: "(string \<times> json) list \<Rightarrow> string \<Rightarrow> mnemo_error + unit"
  and visit_items :: "nat \<Rightarrow> json list \<Rightarrow> string \<Rightarrow> mnemo_error + unit" where
  "visit (JObject entries) path = visit_fields entries path"
| "visit (JArray items) path = visit_items 0 items path"
| "visit _ path = Inr ()"
| "visit_fields [] path = Inr ()"
| "visit_fields ((k, v) # entries) path =
     (if forbidden_key visit_tokens k then
        Inl (Validation (''identity core contains forbidden key at '' @ path @ k))
      else case visit v (path @ k @ ''/'') of Inl e \<Rightarrow> Inl e | Inr _ \<Rightarrow> visit_fields entries path)"
| "visit_items idx [] path = Inr ()"
| "visit_items idx (x # xs) path =
     (case visit x (item_path path idx) of Inl e \<Rightarrow> Inl e | Inr _ \<Rightarrow> visit_items (idx + 1) xs path)"

definition validate_identity_core :: "json \<Rightarrow> mnemo_error + unit" where
  "validate_identity_core core =
     (case core of
        JObject entries \<Rightarrow>
          (case List.find (\<lambda>k. \<not> List.member allowed_top_level k) (map fst entries) of
             Some key \<Rightarrow> Inl (Validation (''identity core key '' @ [CHR 0x27] @ key @ [CHR 0x27] @ '' is not allowed''))
           | None \<Rightarrow> visit core ''core/'')
      | _ \<Rightarrow> Inl (Validation ''identity core must be a JSON object''))"

section \<open>The Merkle tree\<close>

definition leaf_hash :: "(string \<Rightarrow> string) \<Rightarrow> string \<Rightarrow> string" where
  "leaf_hash sha key = sha (''leaf:'' @ key)"

definition node_hash :: "(string \<Rightarrow> string) \<Rightarrow> string \<Rightarrow> string \<Rightarrow> string" where
  "node_hash sha l r = sha (''node:'' @ l @ r)"

record allowlist_merkle_tree =
  mt_root :: string
  mt_leaves :: "string list"
  mt_layers :: "string list list"

fun next_layer :: "(string \<Rightarrow> string) \<Rightarrow> string list \<Rightarrow> string list" where
  "next_layer sha [] = []"
| "next_layer sha [a] = [node_hash sha a a]"
| "next_layer sha (a # b # xs) = node_hash sha a b # next_layer sha xs"

lemma length_next_layer: "length (next_layer sha xs) = (length xs + 1) div 2"
  by (induction sha xs rule: next_layer.induct) auto

function layers_from :: "(string \<Rightarrow> string) \<Rightarrow> string list \<Rightarrow> string list list" where
  "layers_from sha current =
     current # (if length current > 1 then layers_from sha (next_layer sha current) else [])"
  by pat_completeness auto

termination
  by (relation "measure (\<lambda>(sha, current). length current)") (auto simp: length_next_layer)

declare layers_from.simps [simp del]

definition pad_even :: "string list \<Rightarrow> string list" where
  "pad_even hs = (if odd (length hs) then hs @ [last hs] else hs)"

definition from_keys :: "(string \<Rightarrow> string) \<Rightarrow> (string \<Rightarrow> string) \<Rightarrow> string list \<Rightarrow> allowlist_merkle_tree" where
  "from_keys sha henc ks =
     (let keys = sort ks;
          layers = layers_from sha (pad_even (map (leaf_hash sha) keys));
          root_hash = (case last layers of [] \<Rightarrow> replicate 32 (CHR 0x00) | h # _ \<Rightarrow> h)
      in \<lparr>mt_root = henc root_hash, mt_leaves = keys, mt_layers = layers\<rparr>)"

definition from_allowlist :: "(string \<Rightarrow> string) \<Rightarrow> (string \<Rightarrow> string) \<Rightarrow> allowlist_merkle_tree" where
  "from_allowlist sha henc = from_keys sha henc identity_allowlist"

datatype sibling_position = SLeft | SRight

record proof_sibling =
  ps_hash :: string
  ps_position :: sibling_position

record allowlist_membership_proof =
  mp_key :: string
  mp_leaf_index :: u32
  mp_siblings :: "proof_sibling list"
  mp_root :: string

text \<open>The walk over all layers but the last; the index stays within its layer.\<close>

fun proof_siblings :: "(string \<Rightarrow> string) \<Rightarrow> string list list \<Rightarrow> nat \<Rightarrow> proof_sibling list" where
  "proof_siblings henc [] current_idx = []"
| "proof_siblings henc (layer # layers) current_idx =
     (let sibling_idx = (if current_idx mod 2 = 0 then current_idx + 1 else current_idx - 1);
          sibling_hash = (if sibling_idx < length layer then layer ! sibling_idx else layer ! current_idx)
      in \<lparr>ps_hash = henc sibling_hash, ps_position = (if current_idx mod 2 = 0 then SRight else SLeft)\<rparr> #
         proof_siblings henc layers (current_idx div 2))"

fun position_of :: "'a \<Rightarrow> 'a list \<Rightarrow> nat option" where
  "position_of x [] = None"
| "position_of x (y # ys) = (if y = x then Some 0 else map_option Suc (position_of x ys))"

definition prove :: "(string \<Rightarrow> string) \<Rightarrow> allowlist_merkle_tree \<Rightarrow> string \<Rightarrow> allowlist_membership_proof option" where
  "prove henc tree key =
     (case position_of key (mt_leaves tree) of
        None \<Rightarrow> None
      | Some idx \<Rightarrow>
        Some \<lparr>mp_key = key, mp_leaf_index = of_nat idx,
              mp_siblings = proof_siblings henc (butlast (mt_layers tree)) idx, mp_root = mt_root tree\<rparr>)"

fun fold_siblings ::
  "(string \<Rightarrow> string) \<Rightarrow> (string \<Rightarrow> string option) \<Rightarrow> string \<Rightarrow> proof_sibling list \<Rightarrow> string option" where
  "fold_siblings sha hdec current [] = Some current"
| "fold_siblings sha hdec current (s # ss) =
     (case hdec (ps_hash s) of
        None \<Rightarrow> None
      | Some h \<Rightarrow>
        if length h = 32 then
          fold_siblings sha hdec
            (case ps_position s of SRight \<Rightarrow> node_hash sha current h | SLeft \<Rightarrow> node_hash sha h current) ss
        else None)"

definition verify_against_root ::
  "(string \<Rightarrow> string) \<Rightarrow> (string \<Rightarrow> string) \<Rightarrow> (string \<Rightarrow> string option) \<Rightarrow> string \<Rightarrow> allowlist_membership_proof \<Rightarrow> bool" where
  "verify_against_root sha henc hdec merkle p =
     (case fold_siblings sha hdec (leaf_hash sha (mp_key p)) (mp_siblings p) of
        None \<Rightarrow> False
      | Some current \<Rightarrow> henc current = merkle)"

section \<open>Proof-carrying updates\<close>

record identity_update_proof =
  ip_merkle_root :: string
  ip_key_proofs :: "allowlist_membership_proof list"

record key_verification_result =
  kv_key :: string
  kv_valid :: bool
  kv_error :: "string option"

record proof_verification_result =
  pv_verified :: bool
  pv_key_results :: "key_verification_result list"
  pv_merkle_root :: string

definition kv_fail :: "string \<Rightarrow> string \<Rightarrow> key_verification_result" where
  "kv_fail key msg = \<lparr>kv_key = key, kv_valid = False, kv_error = Some msg\<rparr>"

definition check_core_key ::
  "(string \<Rightarrow> string) \<Rightarrow> (string \<Rightarrow> string) \<Rightarrow> (string \<Rightarrow> string option) \<Rightarrow> string \<Rightarrow> allowlist_membership_proof list \<Rightarrow>
   string \<Rightarrow> key_verification_result" where
  "check_core_key sha henc hdec merkle proofs core_key =
     (case List.find (\<lambda>p. mp_key p = core_key) proofs of
        None \<Rightarrow> kv_fail core_key ''no proof provided for this key''
      | Some kp \<Rightarrow>
        if verify_against_root sha henc hdec merkle kp then \<lparr>kv_key = core_key, kv_valid = True, kv_error = None\<rparr>
        else kv_fail core_key ''Merkle proof verification failed'')"

definition verify_identity_update_proof ::
  "(string \<Rightarrow> string) \<Rightarrow> (string \<Rightarrow> string) \<Rightarrow> (string \<Rightarrow> string option) \<Rightarrow> json \<Rightarrow> identity_update_proof \<Rightarrow>
   proof_verification_result" where
  "verify_identity_update_proof sha henc hdec core p =
     (let canonical_root = mt_root (from_allowlist sha henc) in
      if ip_merkle_root p \<noteq> canonical_root then
        \<lparr>pv_verified = False,
         pv_key_results = [kv_fail ''<merkle_root>''
           (''proof merkle_root '' @ ip_merkle_root p @ '' does not match canonical root '' @ canonical_root)],
         pv_merkle_root = canonical_root\<rparr>
      else case core of
        JObject entries \<Rightarrow>
          let core_keys = map fst entries;
              per_key = map (check_core_key sha henc hdec canonical_root (ip_key_proofs p)) core_keys;
              extra = map (\<lambda>kp. kv_fail (mp_key kp) ''proof provided for key not present in core'')
                (filter (\<lambda>kp. \<not> List.member core_keys (mp_key kp)) (ip_key_proofs p));
              scan = (case check_forbidden_substrings core ''core/'' of
                  Inl k \<Rightarrow> [kv_fail k (''forbidden substring detected at '' @ k)]
                | Inr _ \<Rightarrow> []);
              results = per_key @ extra @ scan
          in \<lparr>pv_verified = list_all kv_valid results, pv_key_results = results, pv_merkle_root = canonical_root\<rparr>
      | _ \<Rightarrow> \<lparr>pv_verified = False, pv_key_results = [kv_fail ''<core>'' ''core must be a JSON object''],
             pv_merkle_root = canonical_root\<rparr>)"

section \<open>The two checks of a core agree\<close>

lemma forbidden_key_tokens: "forbidden_key visit_tokens k = forbidden_key identity_forbidden_substrings k"
  by (auto simp: forbidden_key_def visit_tokens_def identity_forbidden_substrings_def)

lemma visit_ok_iff:
  "visit v path = Inr () \<longleftrightarrow> check_forbidden_substrings v path = Inr ()"
  "visit_fields kvs path = Inr () \<longleftrightarrow> check_fields kvs path = Inr ()"
  "visit_items idx xs path = Inr () \<longleftrightarrow> check_items idx xs path = Inr ()"
  by (induction v path and kvs path and idx xs path rule: visit_visit_fields_visit_items.induct)
    (auto simp: forbidden_key_tokens split: sum.splits)

lemma visit_ok_iff_Inl: "visit v path = Inr () \<longleftrightarrow> (\<forall>k. check_forbidden_substrings v path \<noteq> Inl k)"
  by (simp add: visit_ok_iff(1)) (metis old.unit.exhaust sumE sum.distinct(1))

lemma allowed_top_level_set: "set allowed_top_level = set identity_allowlist"
  by (auto simp: allowed_top_level_def identity_allowlist_def)

lemma validate_identity_core_iff:
  "validate_identity_core core = Inr () \<longleftrightarrow>
     (\<exists>kvs. core = JObject kvs \<and> fst ` set kvs \<subseteq> set identity_allowlist \<and>
       check_forbidden_substrings core ''core/'' = Inr ())"
proof (cases core)
  case (JObject kvs)
  have "List.find (\<lambda>k. \<not> List.member allowed_top_level k) (map fst kvs) = None \<longleftrightarrow>
      fst ` set kvs \<subseteq> set identity_allowlist"
    by (auto simp: find_None_iff allowed_top_level_set)
  then show ?thesis
    using JObject visit_ok_iff(1) [of core "''core/''"]
    by (auto simp: validate_identity_core_def simp del: visit.simps check_forbidden_substrings.simps split: option.split)
qed (simp_all add: validate_identity_core_def)

section \<open>Membership proofs\<close>

lemma layers_from_simps:
  "length xs \<le> 1 \<Longrightarrow> layers_from sha xs = [xs]"
  "length xs > 1 \<Longrightarrow> layers_from sha xs = xs # layers_from sha (next_layer sha xs)"
  by (subst layers_from.simps; simp)+

lemma layers_from_neq_Nil [simp]: "layers_from sha xs \<noteq> []"
  by (subst layers_from.simps) simp

lemma last_layers_from: "xs \<noteq> [] \<Longrightarrow> length (last (layers_from sha xs)) = 1"
proof (induction sha xs rule: layers_from.induct)
  case (1 sha xs)
  show ?case
  proof (cases "length xs > 1")
    case True
    then have "next_layer sha xs \<noteq> []" using length_next_layer [of sha xs] by (cases "next_layer sha xs") auto
    with 1 True show ?thesis by (simp add: layers_from_simps)
  next
    case False
    with 1 show ?thesis by (cases xs) (simp_all add: layers_from_simps)
  qed
qed

lemma next_layer_nth:
  "idx < length xs \<Longrightarrow> next_layer sha xs ! (idx div 2) =
     (if even idx then node_hash sha (xs ! idx) (if idx + 1 < length xs then xs ! (idx + 1) else xs ! idx)
      else node_hash sha (xs ! (idx - 1)) (xs ! idx))"
proof (induction sha xs arbitrary: idx rule: next_layer.induct)
  case (3 sha a b xs)
  show ?case
  proof (cases "idx < 2")
    case True
    then have "idx = 0 \<or> idx = 1" by linarith
    then show ?thesis by auto
  next
    case False
    then obtain j where j: "idx = Suc (Suc j)" by (metis One_nat_def Suc_1 add_2_eq_Suc le_Suc_ex not_less)
    have "j < length xs" using "3.prems" by (simp add: j)
    from "3.IH" [OF this] show ?thesis by (cases j) (auto simp: j)
  qed
qed auto

text \<open>What the code relies on: decoding inverts encoding, and a digest has 32 bytes.\<close>

definition hex_ok :: "(string \<Rightarrow> string) \<Rightarrow> (string \<Rightarrow> string option) \<Rightarrow> bool" where
  "hex_ok henc hdec \<longleftrightarrow> (\<forall>x. hdec (henc x) = Some x)"

definition sha_ok :: "(string \<Rightarrow> string) \<Rightarrow> bool" where
  "sha_ok sha \<longleftrightarrow> (\<forall>x. length (sha x) = 32)"

lemma hex_okD [simp]: "hex_ok henc hdec \<Longrightarrow> hdec (henc x) = Some x"
  by (simp add: hex_ok_def)

lemma sha_okD [simp]: "sha_ok sha \<Longrightarrow> length (sha x) = 32"
  by (simp add: sha_ok_def)

text \<open>The strings hashed for one layer, for the whole tree, and by the verifier.\<close>

fun layer_inputs :: "string list \<Rightarrow> string list" where
  "layer_inputs [] = []"
| "layer_inputs [a] = [''node:'' @ a @ a]"
| "layer_inputs (a # b # xs) = (''node:'' @ a @ b) # layer_inputs xs"

definition tree_inputs :: "(string \<Rightarrow> string) \<Rightarrow> string list \<Rightarrow> string set" where
  "tree_inputs sha keys =
     (@) ''leaf:'' ` set keys \<union>
     (\<Union>layer \<in> set (layers_from sha (pad_even (map (leaf_hash sha) keys))). set (layer_inputs layer))"

fun path_inputs :: "(string \<Rightarrow> string) \<Rightarrow> (string \<Rightarrow> string option) \<Rightarrow> string \<Rightarrow> proof_sibling list \<Rightarrow> string set" where
  "path_inputs sha hdec input [] = {input}"
| "path_inputs sha hdec input (s # ss) =
     insert input (case hdec (ps_hash s) of
        None \<Rightarrow> {}
      | Some h \<Rightarrow> path_inputs sha hdec
          (''node:'' @ (case ps_position s of SRight \<Rightarrow> sha input @ h | SLeft \<Rightarrow> h @ sha input)) ss)"

definition proof_inputs ::
  "(string \<Rightarrow> string) \<Rightarrow> (string \<Rightarrow> string option) \<Rightarrow> allowlist_membership_proof \<Rightarrow> string set" where
  "proof_inputs sha hdec p = path_inputs sha hdec (''leaf:'' @ mp_key p) (mp_siblings p)"

lemma next_layer_inputs: "next_layer sha xs = map sha (layer_inputs xs)"
  by (induction sha xs rule: next_layer.induct) (simp_all add: node_hash_def)

lemma layer_inputs_mem: "i \<in> set (layer_inputs xs) \<Longrightarrow> \<exists>a b. a \<in> set xs \<and> b \<in> set xs \<and> i = ''node:'' @ a @ b"
  by (induction xs rule: layer_inputs.induct) auto

lemma next_layer_mem:
  "c \<in> set (next_layer sha xs) \<Longrightarrow> \<exists>a b. a \<in> set xs \<and> b \<in> set xs \<and> c = node_hash sha a b"
  unfolding next_layer_inputs node_hash_def using layer_inputs_mem by fastforce

lemma prove_fold:
  assumes "hex_ok henc hdec" and "sha_ok sha"
  shows "idx < length xs \<Longrightarrow> \<forall>x \<in> set xs. length x = 32 \<Longrightarrow>
    fold_siblings sha hdec (xs ! idx) (proof_siblings henc (butlast (layers_from sha xs)) idx) =
      Some (hd (last (layers_from sha xs)))"
proof (induction "length xs" arbitrary: xs idx rule: less_induct)
  case less
  show ?case
  proof (cases "length xs > 1")
    case False
    with less.prems(1) have "xs = [xs ! 0] \<and> idx = 0" by (cases xs) auto
    then show ?thesis by (metis False butlast.simps(2) fold_siblings.simps(1) last.simps layers_from_simps(1) list.sel(1) not_less proof_siblings.simps(1))
  next
    case True
    let ?ys = "next_layer sha xs"
    have sib: "\<forall>i < length xs. length (xs ! i) = 32" using less.prems(2) by simp
    have "idx div 2 < length ?ys" using less.prems(1) by (simp add: length_next_layer)
    moreover have "length ?ys < length xs" using True by (simp add: length_next_layer)
    moreover have "\<forall>x \<in> set ?ys. length x = 32"
      by (auto simp: assms(2) node_hash_def dest!: next_layer_mem)
    ultimately have ih: "fold_siblings sha hdec (?ys ! (idx div 2)) (proof_siblings henc (butlast (layers_from sha ?ys)) (idx div 2)) =
        Some (hd (last (layers_from sha ?ys)))"
      by (intro less.hyps) auto
    have "fold_siblings sha hdec (xs ! idx) (proof_siblings henc (xs # butlast (layers_from sha ?ys)) idx) =
        fold_siblings sha hdec (?ys ! (idx div 2)) (proof_siblings henc (butlast (layers_from sha ?ys)) (idx div 2))"
      using less.prems(1) sib next_layer_nth [OF less.prems(1), of sha]
      by (cases "even idx") (auto simp: Let_def assms(1) even_iff_mod_2_eq_zero odd_iff_mod_2_eq_one)
    then show ?thesis using ih True by (simp add: layers_from_simps(2))
  qed
qed

text \<open>Every value of a tree is the hash of one of its inputs.\<close>

definition tree_values :: "(string \<Rightarrow> string) \<Rightarrow> string list \<Rightarrow> string set" where
  "tree_values sha keys = (\<Union>layer \<in> set (layers_from sha (pad_even (map (leaf_hash sha) keys))). set layer)"

lemma layers_from_values:
  "layer \<in> set (layers_from sha xs) \<Longrightarrow> c \<in> set layer \<Longrightarrow>
     c \<in> set xs \<or> (\<exists>prev \<in> set (layers_from sha xs). c \<in> sha ` set (layer_inputs prev))"
proof (induction "length xs" arbitrary: xs rule: less_induct)
  case less
  show ?case
  proof (cases "length xs > 1")
    case True
    let ?ys = "next_layer sha xs"
    have eq: "set (layers_from sha xs) = insert xs (set (layers_from sha ?ys))"
      using True by (simp add: layers_from_simps(2))
    show ?thesis
    proof (cases "layer = xs")
      case False
      then have "layer \<in> set (layers_from sha ?ys)" using less.prems(1) eq by blast
      moreover have "length ?ys < length xs" using True by (simp add: length_next_layer)
      ultimately have "c \<in> set ?ys \<or> (\<exists>prev \<in> set (layers_from sha ?ys). c \<in> sha ` set (layer_inputs prev))"
        using less.prems(2) by (intro less.hyps)
      then show ?thesis unfolding eq next_layer_inputs set_map by blast
    qed (use less.prems(2) in blast)
  qed (use less.prems in \<open>simp add: layers_from_simps\<close>)
qed

lemma set_pad_even: "set (pad_even xs) = set xs"
  by (cases "xs = []") (auto simp: pad_even_def)

lemma tree_values_input:
  assumes "c \<in> tree_values sha keys"
  shows "\<exists>i \<in> tree_inputs sha keys. c = sha i"
proof -
  let ?xs = "pad_even (map (leaf_hash sha) keys)"
  obtain layer where "layer \<in> set (layers_from sha ?xs)" "c \<in> set layer"
    using assms by (auto simp: tree_values_def)
  from layers_from_values [OF this] show ?thesis
  proof
    assume "c \<in> set ?xs"
    then show ?thesis by (auto simp: set_pad_even leaf_hash_def tree_inputs_def)
  next
    assume "\<exists>prev \<in> set (layers_from sha ?xs). c \<in> sha ` set (layer_inputs prev)"
    then show ?thesis unfolding tree_inputs_def by blast
  qed
qed

lemma tree_inputs_cases:
  assumes "i \<in> tree_inputs sha keys"
  obtains k where "k \<in> set keys" and "i = ''leaf:'' @ k"
  | a b where "a \<in> tree_values sha keys" and "b \<in> tree_values sha keys" and "i = ''node:'' @ a @ b"
  using assms unfolding tree_values_def tree_inputs_def by (force dest!: layer_inputs_mem)

lemma tree_values_length:
  assumes "sha_ok sha" and "c \<in> tree_values sha keys"
  shows "length c = 32"
  using tree_values_input [OF assms(2)] assms(1) by auto

text \<open>A verified path starts at an input of the tree, unless two different inputs have the same hash.\<close>

definition collision :: "(string \<Rightarrow> string) \<Rightarrow> string set \<Rightarrow> string set \<Rightarrow> bool" where
  "collision sha xs ys \<longleftrightarrow> (\<exists>i \<in> xs. \<exists>j \<in> ys. i \<noteq> j \<and> sha i = sha j)"

lemma collision_mono: "collision sha xs ys \<Longrightarrow> xs \<subseteq> xs' \<Longrightarrow> collision sha xs' ys"
  by (auto simp: collision_def)

lemma value_of_input:
  "sha i \<in> tree_values sha keys \<Longrightarrow> i \<in> tree_inputs sha keys \<or> collision sha {i} (tree_inputs sha keys)"
  by (auto simp: collision_def dest!: tree_values_input)

lemma path_sound:
  assumes len: "sha_ok sha"
  shows "fold_siblings sha hdec (sha input) ss = Some c \<Longrightarrow> c \<in> tree_values sha keys \<Longrightarrow>
    input \<in> tree_inputs sha keys \<or> collision sha (path_inputs sha hdec input ss) (tree_inputs sha keys)"
proof (induction ss arbitrary: input)
  case Nil
  then show ?case using value_of_input [of sha input] by auto
next
  case (Cons s ss)
  obtain h where h: "hdec (ps_hash s) = Some h" "length h = 32"
    using Cons.prems(1) by (auto split: option.splits if_splits)
  define next_input where
    "next_input = ''node:'' @ (case ps_position s of SRight \<Rightarrow> sha input @ h | SLeft \<Rightarrow> h @ sha input)"
  have step: "fold_siblings sha hdec (sha next_input) ss = Some c"
    using Cons.prems(1) h by (cases "ps_position s") (simp_all add: next_input_def node_hash_def)
  have sub: "path_inputs sha hdec input (s # ss) = insert input (path_inputs sha hdec next_input ss)"
    by (simp add: h next_input_def)
  from Cons.IH [OF step Cons.prems(2)] show ?case
  proof
    assume "next_input \<in> tree_inputs sha keys"
    then have "sha input \<in> tree_values sha keys"
    proof (cases rule: tree_inputs_cases)
      case (2 a b)
      have "length a = 32" "length b = 32" using 2 tree_values_length [OF len] by auto
      then show ?thesis using 2 h len by (cases "ps_position s") (auto simp: next_input_def)
    qed (simp add: next_input_def)
    from value_of_input [OF this] show ?thesis unfolding sub by (auto dest: collision_mono)
  next
    assume "collision sha (path_inputs sha hdec next_input ss) (tree_inputs sha keys)"
    then show ?thesis unfolding sub by (auto dest: collision_mono)
  qed
qed

lemma root_value:
  assumes "keys \<noteq> []"
  shows "\<exists>c \<in> tree_values sha (sort keys). mt_root (from_keys sha henc keys) = henc c"
proof -
  let ?layers = "layers_from sha (pad_even (map (leaf_hash sha) (sort keys)))"
  have "map (leaf_hash sha) (sort keys) \<noteq> []" using assms by (metis Nil_is_map_conv set_empty set_sort)
  then have "pad_even (map (leaf_hash sha) (sort keys)) \<noteq> []" by (simp add: pad_even_def)
  from last_layers_from [OF this, of sha] obtain c where c: "last ?layers = [c]"
    by (metis One_nat_def length_0_conv length_Suc_conv)
  have "last ?layers \<in> set ?layers" by simp
  then have "c \<in> tree_values sha (sort keys)" using c by (force simp: tree_values_def)
  moreover have "mt_root (from_keys sha henc keys) = henc c" by (simp add: from_keys_def Let_def c)
  ultimately show ?thesis by blast
qed

lemma position_of_Some: "k \<in> set ks \<Longrightarrow> \<exists>idx. position_of k ks = Some idx \<and> idx < length ks \<and> ks ! idx = k"
  by (induction ks) auto

lemma pad_even_nth: "idx < length xs \<Longrightarrow> pad_even xs ! idx = xs ! idx \<and> idx < length (pad_even xs)"
  by (simp add: pad_even_def nth_append)

lemma merkle_sound:
  assumes "hex_ok henc hdec" and "sha_ok sha" and "keys \<noteq> []"
    and "verify_against_root sha henc hdec (mt_root (from_keys sha henc keys)) p"
  shows "mp_key p \<in> set keys \<or> collision sha (proof_inputs sha hdec p) (tree_inputs sha (sort keys))"
proof -
  obtain c where c: "fold_siblings sha hdec (sha (''leaf:'' @ mp_key p)) (mp_siblings p) = Some c"
      "henc c = mt_root (from_keys sha henc keys)"
    using assms(4) by (auto simp: verify_against_root_def leaf_hash_def split: option.splits)
  from root_value [OF assms(3)] obtain d where d: "d \<in> tree_values sha (sort keys)" "mt_root (from_keys sha henc keys) = henc d"
    by blast
  have "c = d" using c(2) d(2) hex_okD [OF assms(1)] by (metis option.sel)
  with path_sound [OF assms(2) c(1)] d(1)
  have "''leaf:'' @ mp_key p \<in> tree_inputs sha (sort keys) \<or>
      collision sha (proof_inputs sha hdec p) (tree_inputs sha (sort keys))"
    by (simp add: proof_inputs_def)
  then show ?thesis by (auto elim: tree_inputs_cases)
qed

lemma merkle_roundtrip:
  assumes "hex_ok henc hdec" and "sha_ok sha" and "key \<in> set keys"
  shows "\<exists>p. prove henc (from_keys sha henc keys) key = Some p \<and> mp_key p = key \<and>
    mp_root p = mt_root (from_keys sha henc keys) \<and>
    verify_against_root sha henc hdec (mt_root (from_keys sha henc keys)) p"
proof -
  let ?hs = "map (leaf_hash sha) (sort keys)"
  let ?layers = "layers_from sha (pad_even ?hs)"
  obtain idx where idx: "position_of key (sort keys) = Some idx" "idx < length (sort keys)" "sort keys ! idx = key"
    using position_of_Some [of key "sort keys"] assms(3) by auto
  have nth: "pad_even ?hs ! idx = leaf_hash sha key" and less: "idx < length (pad_even ?hs)"
    using pad_even_nth [of idx ?hs] idx by auto
  have "\<forall>x \<in> set (pad_even ?hs). length x = 32" by (auto simp: set_pad_even leaf_hash_def assms(2))
  from prove_fold [OF assms(1,2) less this]
  have f: "fold_siblings sha hdec (leaf_hash sha key) (proof_siblings henc (butlast ?layers) idx) = Some (hd (last ?layers))"
    unfolding nth .
  have "pad_even ?hs \<noteq> []" using less by force
  from last_layers_from [OF this, of sha] obtain c where "last ?layers = [c]"
    by (metis One_nat_def length_0_conv length_Suc_conv)
  with f idx show ?thesis by (simp add: prove_def from_keys_def Let_def verify_against_root_def)
qed

lemma verified_iff:
  "pv_verified (verify_identity_update_proof sha henc hdec core p) \<longleftrightarrow>
     ip_merkle_root p = mt_root (from_allowlist sha henc) \<and>
     (\<exists>kvs. core = JObject kvs \<and> check_forbidden_substrings core ''core/'' = Inr () \<and>
       (\<forall>k \<in> set (map fst kvs).
          kv_valid (check_core_key sha henc hdec (mt_root (from_allowlist sha henc)) (ip_key_proofs p) k)) \<and>
       (\<forall>kp \<in> set (ip_key_proofs p). mp_key kp \<in> set (map fst kvs)))"
proof (cases core)
  case (JObject kvs)
  show ?thesis
    by (cases "check_forbidden_substrings (JObject kvs) ''core/''")
      (simp_all add: JObject verify_identity_update_proof_def Let_def list_all_iff kv_fail_def ball_Un
        del: check_forbidden_substrings.simps, blast)
qed (simp_all add: verify_identity_update_proof_def Let_def)

lemma check_core_key_valid:
  "kv_valid (check_core_key sha henc hdec merkle proofs k) \<longleftrightarrow>
     (\<exists>kp. List.find (\<lambda>p. mp_key p = k) proofs = Some kp \<and> verify_against_root sha henc hdec merkle kp)"
  by (auto simp: check_core_key_def kv_fail_def split: option.split)

section \<open>Properties\<close>

text \<open>C15: Membership proofs round-trip: for every key of a tree, \<^verbatim>\<open>prove\<close> returns a proof for this
  key and the tree's root, and the proof verifies, whatever the number of keys (with the padding
  of odd layers).\<close>

theorem merkle_proof_roundtrip:
  assumes "hex_ok henc hdec" and "sha_ok sha" and "key \<in> set keys"
  shows "\<exists>p. prove henc (from_keys sha henc keys) key = Some p \<and> mp_key p = key \<and>
    mp_root p = mt_root (from_keys sha henc keys) \<and>
    verify_against_root sha henc hdec (mt_root (from_keys sha henc keys)) p"
  by (rule merkle_roundtrip [OF assms])

lemma merkle_proof_roundtrip_witness:
  "\<exists>p. prove (\<lambda>x. x) (from_keys (\<lambda>_. replicate 32 (CHR ''h'')) (\<lambda>x. x) [''b'', ''a'', ''c'']) ''c'' = Some p \<and> mp_key p = ''c''"
  using merkle_proof_roundtrip [where sha = "\<lambda>_. replicate 32 (CHR ''h'')" and henc = "\<lambda>x. x" and hdec = Some and
      key = "''c''" and keys = "[''b'', ''a'', ''c'']"] by (auto simp: hex_ok_def sha_ok_def)

text \<open>The proof a client attaches: one membership proof per key of the core.\<close>

definition client_proof :: "(string \<Rightarrow> string) \<Rightarrow> (string \<Rightarrow> string) \<Rightarrow> string list \<Rightarrow> identity_update_proof" where
  "client_proof sha henc core_keys =
     \<lparr>ip_merkle_root = mt_root (from_allowlist sha henc),
      ip_key_proofs = List.map_filter (prove henc (from_allowlist sha henc)) core_keys\<rparr>"

lemma find_client_proof:
  assumes "hex_ok henc hdec" and "sha_ok sha"
    and "set ks \<subseteq> set identity_allowlist" and "k \<in> set ks"
  shows "\<exists>p. List.find (\<lambda>p. mp_key p = k) (ip_key_proofs (client_proof sha henc ks)) = Some p \<and>
    verify_against_root sha henc hdec (mt_root (from_allowlist sha henc)) p"
  using assms(3,4)
proof (induction ks)
  case (Cons k0 ks)
  obtain p0 where p0: "prove henc (from_allowlist sha henc) k0 = Some p0" "mp_key p0 = k0"
      "verify_against_root sha henc hdec (mt_root (from_allowlist sha henc)) p0"
    using merkle_roundtrip [OF assms(1,2), of k0 identity_allowlist] Cons.prems(1) by (auto simp: from_allowlist_def)
  show ?case using Cons p0 by (cases "k = k0") (auto simp: client_proof_def map_filter_simps)
qed simp

text \<open>C16: The proof-carrying update and the direct update accept the same cores: a core whose proof is
  accepted passes the direct check, unless the proof and the tree exhibit two different strings
  with the same SHA-256 hash; and for a core that passes the direct check, the membership proofs
  of its keys are accepted.\<close>

theorem verified_update_equivalent:
  assumes "hex_ok henc hdec" and "sha_ok sha"
  shows "(pv_verified (verify_identity_update_proof sha henc hdec core p) \<longrightarrow>
      validate_identity_core core = Inr () \<or>
      (\<exists>kp \<in> set (ip_key_proofs p). collision sha (proof_inputs sha hdec kp) (tree_inputs sha (sort identity_allowlist)))) \<and>
    (validate_identity_core core = Inr () \<longrightarrow>
      (\<exists>kvs. core = JObject kvs \<and>
        pv_verified (verify_identity_update_proof sha henc hdec core (client_proof sha henc (map fst kvs)))))"
  (is "(?verified \<longrightarrow> ?ok \<or> ?coll) \<and> (?ok \<longrightarrow> ?complete)")
proof
  let ?r = "mt_root (from_allowlist sha henc)"
  show "?verified \<longrightarrow> ?ok \<or> ?coll"
  proof (intro impI disjCI)
    assume v: ?verified and nc: "\<not> ?coll"
    from v obtain kvs where core: "core = JObject kvs" and scan: "check_forbidden_substrings core ''core/'' = Inr ()"
      and keys: "\<forall>k \<in> set (map fst kvs). kv_valid (check_core_key sha henc hdec ?r (ip_key_proofs p) k)"
      unfolding verified_iff by blast
    have "k \<in> set identity_allowlist" if k: "k \<in> fst ` set kvs" for k
    proof -
      obtain kp where kp: "List.find (\<lambda>p. mp_key p = k) (ip_key_proofs p) = Some kp" "verify_against_root sha henc hdec ?r kp"
        using keys k unfolding check_core_key_valid by auto
      have "kp \<in> set (ip_key_proofs p)" "mp_key kp = k" using kp(1) by (auto simp: find_Some_iff)
      moreover have "mp_key kp \<in> set identity_allowlist \<or>
          collision sha (proof_inputs sha hdec kp) (tree_inputs sha (sort identity_allowlist))"
        by (rule merkle_sound [OF assms]) (use kp(2) in \<open>simp_all add: from_allowlist_def identity_allowlist_def\<close>)
      ultimately show ?thesis using nc by blast
    qed
    then show ?ok using core scan by (auto simp: validate_identity_core_iff)
  qed
  show "?ok \<longrightarrow> ?complete"
  proof
    assume ?ok
    then obtain kvs where core: "core = JObject kvs" and sub: "set (map fst kvs) \<subseteq> set identity_allowlist"
      and scan: "check_forbidden_substrings core ''core/'' = Inr ()"
      by (auto simp: validate_identity_core_iff)
    have "kv_valid (check_core_key sha henc hdec ?r (ip_key_proofs (client_proof sha henc (map fst kvs))) k)"
      if "k \<in> set (map fst kvs)" for k
      using find_client_proof [OF assms sub that] by (simp add: check_core_key_valid)
    moreover have "mp_key kp \<in> set (map fst kvs)" if "kp \<in> set (ip_key_proofs (client_proof sha henc (map fst kvs)))" for kp
      using that by (auto simp: client_proof_def List.map_filter_def prove_def split: option.splits intro: rev_image_eqI)
    ultimately show ?complete
      using scan core unfolding verified_iff by (intro exI [of _ kvs]) (simp add: client_proof_def)
  qed
qed

lemma verified_update_equivalent_witness:
  "\<exists>kvs. JObject [(''mission'', JNull)] = JObject kvs \<and>
     pv_verified (verify_identity_update_proof (\<lambda>_. replicate 32 (CHR ''h'')) (\<lambda>x. x) Some (JObject [(''mission'', JNull)])
       (client_proof (\<lambda>_. replicate 32 (CHR ''h'')) (\<lambda>x. x) (map fst kvs)))"
  by (rule verified_update_equivalent [THEN conjunct2, THEN mp]) (simp_all add: hex_ok_def sha_ok_def validate_identity_core_iff, code_simp)

end
