(* ===== verification/Agent_Audit.thy ===== *)
theory Agent_Audit
  imports Identity_Guard Redis_Index
begin

text \<open>
  The witness chain of identity audit events of \<^verbatim>\<open>mnemo-core/src/models/agent.rs\<close>: the
  hash of an event and the verification of a chain, oldest event first.
\<close>

section \<open>Events\<close>

datatype audit_action =
  AaCreated | AaUpdated | AaRolledBack | AaBranchCreated | AaBranchMerged | AaBranchDeleted | AaForked

text \<open>The \<^verbatim>\<open>snake_case\<close> name that \<^verbatim>\<open>serde\<close> gives the action.\<close>

fun action_str :: "audit_action \<Rightarrow> string" where
  "action_str AaCreated = ''created''"
| "action_str AaUpdated = ''updated''"
| "action_str AaRolledBack = ''rolled_back''"
| "action_str AaBranchCreated = ''branch_created''"
| "action_str AaBranchMerged = ''branch_merged''"
| "action_str AaBranchDeleted = ''branch_deleted''"
| "action_str AaForked = ''forked''"

record agent_audit_event =
  av_id :: uuid
  av_agent_id :: string
  av_action :: audit_action
  av_from_version :: "u64 option"
  av_to_version :: u64
  av_rollback_to_version :: "u64 option"
  av_reason :: "string option"
  av_created_at :: timestamp
  av_prev_hash :: "string option"
  av_event_hash :: string

record audit_chain_break =
  ab_index :: nat
  ab_event_id :: uuid
  ab_reason :: string

record audit_chain_verification =
  ac_valid :: bool
  ac_chain_length :: nat
  ac_breaks :: "audit_chain_break list"

definition hash_input :: "agent_audit_event \<Rightarrow> string" where
  "hash_input e =
     action_str (av_action e) @ ''|'' @
     (case av_from_version e of Some v \<Rightarrow> nat_to_string (unat v) | None \<Rightarrow> []) @ ''|'' @
     nat_to_string (unat (av_to_version e)) @ ''|'' @
     (case av_prev_hash e of Some p \<Rightarrow> p | None \<Rightarrow> []) @ ''|'' @
     int_to_string (timestamp_millis (av_created_at e))"

definition compute_hash :: "(string \<Rightarrow> string) \<Rightarrow> (string \<Rightarrow> string) \<Rightarrow> agent_audit_event \<Rightarrow> string" where
  "compute_hash sha henc e = henc (sha (hash_input e))"

definition verify_hash :: "(string \<Rightarrow> string) \<Rightarrow> (string \<Rightarrow> string) \<Rightarrow> agent_audit_event \<Rightarrow> bool" where
  "verify_hash sha henc e \<longleftrightarrow> av_event_hash e = compute_hash sha henc e"

section \<open>Verification\<close>

text \<open>The body of the loop for the event at index \<open>i\<close>; \<open>chain_start\<close> is the first hashed event.\<close>

definition event_break ::
  "(string \<Rightarrow> string) \<Rightarrow> (string \<Rightarrow> string) \<Rightarrow> agent_audit_event list \<Rightarrow> nat \<Rightarrow> nat \<Rightarrow> audit_chain_break option" where
  "event_break sha henc events chain_start i =
     (let event = events ! i in
      if \<not> verify_hash sha henc event then
        Some \<lparr>ab_index = i, ab_event_id = av_id event,
              ab_reason = ''event_hash mismatch: stored='' @ av_event_hash event @ '', computed='' @
                compute_hash sha henc event\<rparr>
      else if i = chain_start then
        (if av_prev_hash event \<noteq> None \<and> i = 0 then
           Some \<lparr>ab_index = i, ab_event_id = av_id event, ab_reason = ''Genesis event should have prev_hash = None''\<rparr>
         else None)
      else
        let expected_prev = av_event_hash (events ! (i - 1)) in
        case av_prev_hash event of
          None \<Rightarrow> Some \<lparr>ab_index = i, ab_event_id = av_id event, ab_reason = ''Non-genesis event has prev_hash = None''\<rparr>
        | Some ph \<Rightarrow>
          if ph \<noteq> expected_prev then
            Some \<lparr>ab_index = i, ab_event_id = av_id event,
                  ab_reason = ''prev_hash mismatch: stored='' @ ph @ '', expected='' @ expected_prev\<rparr>
          else None)"

fun chain_start_of :: "agent_audit_event list \<Rightarrow> nat" where
  "chain_start_of [] = 0"
| "chain_start_of (e # es) = (if av_event_hash e \<noteq> [] then 0 else Suc (chain_start_of es))"

definition verify_audit_chain ::
  "(string \<Rightarrow> string) \<Rightarrow> (string \<Rightarrow> string) \<Rightarrow> agent_audit_event list \<Rightarrow> audit_chain_verification" where
  "verify_audit_chain sha henc events =
     (let chain_start = chain_start_of events;
          breaks = List.map_filter (event_break sha henc events chain_start) [chain_start ..< length events]
      in \<lparr>ac_valid = (breaks = []), ac_chain_length = length events, ac_breaks = breaks\<rparr>)"

section \<open>Valid chains\<close>

text \<open>The link between two neighbours, and a chain in which every event is hashed.\<close>

definition link_ok :: "(string \<Rightarrow> string) \<Rightarrow> (string \<Rightarrow> string) \<Rightarrow> string option \<Rightarrow> agent_audit_event \<Rightarrow> bool" where
  "link_ok sha henc prev e \<longleftrightarrow> verify_hash sha henc e \<and> av_prev_hash e = prev"

fun linked :: "(string \<Rightarrow> string) \<Rightarrow> (string \<Rightarrow> string) \<Rightarrow> string option \<Rightarrow> agent_audit_event list \<Rightarrow> bool" where
  "linked sha henc prev [] \<longleftrightarrow> True"
| "linked sha henc prev (e # es) \<longleftrightarrow> link_ok sha henc prev e \<and> linked sha henc (Some (av_event_hash e)) es"

lemma event_break_None_iff:
  "event_break sha henc events start i = None \<longleftrightarrow>
     verify_hash sha henc (events ! i) \<and>
     (if i = start then av_prev_hash (events ! i) = None \<or> i \<noteq> 0
      else av_prev_hash (events ! i) = Some (av_event_hash (events ! (i - 1))))"
  by (auto simp: event_break_def Let_def split: option.split)

lemma map_filter_Nil_iff: "List.map_filter f xs = [] \<longleftrightarrow> (\<forall>x \<in> set xs. f x = None)"
  by (induction xs) (auto simp: map_filter_simps split: option.split)

lemma ac_valid_iff:
  "ac_valid (verify_audit_chain sha henc events) \<longleftrightarrow>
     (\<forall>i. chain_start_of events \<le> i \<and> i < length events \<longrightarrow> event_break sha henc events (chain_start_of events) i = None)"
  by (auto simp: verify_audit_chain_def Let_def map_filter_Nil_iff)

lemma chain_start_le: "chain_start_of es \<le> length es"
  by (induction es) auto

lemma linked_iff:
  "linked sha henc prev es \<longleftrightarrow>
     (\<forall>i < length es. verify_hash sha henc (es ! i) \<and>
        av_prev_hash (es ! i) = (if i = 0 then prev else Some (av_event_hash (es ! (i - 1)))))"
proof (induction es arbitrary: prev)
  case (Cons e es)
  show ?case unfolding linked.simps Cons.IH link_ok_def
    by (auto simp: nth_Cons' less_Suc_eq_0_disj)
qed simp

text \<open>Without legacy events, validity is being linked from the start.\<close>

lemma chain_start_hashed: "es \<noteq> [] \<Longrightarrow> av_event_hash (hd es) \<noteq> [] \<Longrightarrow> chain_start_of es = 0"
  by (cases es) auto

lemma ac_valid_linked:
  assumes "es \<noteq> []" and "av_event_hash (hd es) \<noteq> []"
  shows "ac_valid (verify_audit_chain sha henc es) \<longleftrightarrow> linked sha henc None es"
  using chain_start_hashed [OF assms] by (auto simp: ac_valid_iff event_break_None_iff linked_iff)

lemma linked_append:
  "linked sha henc prev (es @ [e]) \<longleftrightarrow>
     linked sha henc prev es \<and> link_ok sha henc (if es = [] then prev else Some (av_event_hash (last es))) e"
  by (induction es arbitrary: prev) auto

lemma linked_take: "linked sha henc prev es \<Longrightarrow> linked sha henc prev (take n es)"
  by (induction es arbitrary: prev n) (auto simp: take_Cons' )

section \<open>What a hash covers\<close>

lemma split_first_pipe:
  "c \<notin> set a \<Longrightarrow> c \<notin> set b \<Longrightarrow> a @ c # r = b @ c # r' \<longleftrightarrow> a = b \<and> r = r'"
  by (induction a arbitrary: b) (case_tac b; auto)+

lemma split_last_pipe:
  assumes "c \<notin> set m" and "c \<notin> set m'"
  shows "a @ c # m = b @ c # m' \<longleftrightarrow> a = b \<and> m = m'"
proof -
  have "a @ c # m = b @ c # m' \<longleftrightarrow> rev m @ c # rev a = rev m' @ c # rev b"
    by (metis append.assoc append_Cons append_Nil rev.simps(2) rev_append rev_rev_ident)
  also have "\<dots> \<longleftrightarrow> rev m = rev m' \<and> rev a = rev b" using assms by (intro split_first_pipe) auto
  finally show ?thesis by auto
qed

lemma nat_to_string_no_pipe: "CHR ''|'' \<notin> set (nat_to_string n)"
  using nat_to_string_digits [of "CHR ''|''" n] digit_neq_pipe(1) by (metis is_digit_def)

lemma int_to_string_no_pipe: "CHR ''|'' \<notin> set (int_to_string i)"
  by (simp add: int_to_string_def nat_to_string_no_pipe)

lemma action_str_no_pipe: "CHR ''|'' \<notin> set (action_str a)"
  by (cases a) simp_all

lemma action_str_inj: "action_str a = action_str b \<Longrightarrow> a = b"
  by (cases a; cases b) simp_all

definition version_str :: "u64 option \<Rightarrow> string" where
  "version_str v = (case v of Some n \<Rightarrow> nat_to_string (unat n) | None \<Rightarrow> [])"

lemma version_str_inj: "version_str v = version_str w \<Longrightarrow> v = w"
  by (auto simp: version_str_def split: option.splits simp: word_unat_eq_iff dest!: nat_to_string_inj dest: sym [of "[]"])

lemma version_str_no_pipe: "CHR ''|'' \<notin> set (version_str v)"
  by (simp add: version_str_def nat_to_string_no_pipe split: option.split)

definition prev_str :: "string option \<Rightarrow> string" where
  "prev_str p = (case p of Some h \<Rightarrow> h | None \<Rightarrow> [])"

definition covered :: "agent_audit_event \<Rightarrow> audit_action \<times> u64 option \<times> u64 \<times> string \<times> int" where
  "covered e = (av_action e, av_from_version e, av_to_version e, prev_str (av_prev_hash e), timestamp_millis (av_created_at e))"

lemma hash_input_covered: "hash_input e = hash_input f \<longleftrightarrow> covered e = covered f"
proof
  assume eq: "hash_input e = hash_input f"
  have in_eq: "hash_input g = action_str (av_action g) @ CHR ''|'' # (version_str (av_from_version g) @ CHR ''|'' #
      (nat_to_string (unat (av_to_version g)) @ CHR ''|'' # (prev_str (av_prev_hash g) @ CHR ''|'' #
        int_to_string (timestamp_millis (av_created_at g)))))" for g
    by (simp add: hash_input_def version_str_def prev_str_def)
  have parts: "action_str (av_action e) = action_str (av_action f) \<and> version_str (av_from_version e) = version_str (av_from_version f) \<and>
      nat_to_string (unat (av_to_version e)) = nat_to_string (unat (av_to_version f)) \<and>
      prev_str (av_prev_hash e) = prev_str (av_prev_hash f) \<and>
      int_to_string (timestamp_millis (av_created_at e)) = int_to_string (timestamp_millis (av_created_at f))"
    using eq unfolding in_eq
    by (simp only: split_first_pipe [OF action_str_no_pipe action_str_no_pipe]
        split_first_pipe [OF version_str_no_pipe version_str_no_pipe]
        split_first_pipe [OF nat_to_string_no_pipe nat_to_string_no_pipe]
        split_last_pipe [OF int_to_string_no_pipe int_to_string_no_pipe])
  then show "covered e = covered f"
    using action_str_inj version_str_inj nat_to_string_inj int_to_string_inj
    by (simp add: covered_def) (metis word_unat_eq_iff)
qed (auto simp: covered_def hash_input_def prev_str_def)

lemma collision_mono2: "collision sha xs ys \<Longrightarrow> xs \<subseteq> xs' \<Longrightarrow> ys \<subseteq> ys' \<Longrightarrow> collision sha xs' ys'"
  unfolding collision_def by blast

text \<open>Two linked chains that end in the same hash cover the same fields.\<close>

lemma same_hash_covered:
  assumes "hex_ok henc hdec" and "verify_hash sha henc e" and "verify_hash sha henc f" and "av_event_hash e = av_event_hash f"
  shows "covered e = covered f \<or> collision sha {hash_input e} {hash_input f}"
proof -
  have "sha (hash_input e) = sha (hash_input f)"
    using assms hex_okD [OF assms(1)] by (metis compute_hash_def option.sel verify_hash_def)
  then show ?thesis by (auto simp: collision_def hash_input_covered)
qed

lemma linked_same_end:
  assumes "hex_ok henc hdec"
  shows "linked sha henc None es \<Longrightarrow> linked sha henc None fs \<Longrightarrow> length es = length fs \<Longrightarrow>
    (es \<noteq> [] \<Longrightarrow> av_event_hash (last es) = av_event_hash (last fs)) \<Longrightarrow>
    map covered es = map covered fs \<or> collision sha (hash_input ` set es) (hash_input ` set fs)"
proof (induction es fs rule: rev_induct2)
  case (4 x xs y ys)
  have xy: "link_ok sha henc (if xs = [] then None else Some (av_event_hash (last xs))) x"
      "link_ok sha henc (if ys = [] then None else Some (av_event_hash (last ys))) y"
    using "4.prems"(1,2) by (simp_all add: linked_append)
  from same_hash_covered [OF assms, of sha x y] xy "4.prems"(4)
  consider "covered x = covered y" | "collision sha {hash_input x} {hash_input y}"
    by (auto simp: link_ok_def)
  then show ?case
  proof cases
    case 1
    then have "av_event_hash (last xs) = av_event_hash (last ys)" if "xs \<noteq> []"
      using xy that "4.prems"(3) by (auto simp: link_ok_def covered_def prev_str_def split: if_splits)
    with "4.IH" "4.prems"(1-3)
    have "map covered xs = map covered ys \<or> collision sha (hash_input ` set xs) (hash_input ` set ys)"
      by (auto simp: linked_append)
    with 1 show ?thesis by (auto simp: collision_def)
  next
    case 2
    then show ?thesis by (intro disjI2) (rule collision_mono2, auto)
  qed
qed auto

text \<open>Legacy events at the front, and changes of fields outside the hash.\<close>

lemma chain_start_legacy:
  "\<forall>g \<in> set gs. av_event_hash g = [] \<Longrightarrow> chain_start_of (gs @ ds) = length gs + chain_start_of ds"
  by (induction gs) auto

lemma chain_start_map: "(\<And>e. av_event_hash (f e) = av_event_hash e) \<Longrightarrow> chain_start_of (map f es) = chain_start_of es"
  by (induction es) auto

lemma chain_start_take: "chain_start_of es \<le> n \<Longrightarrow> chain_start_of (take n es) = chain_start_of es"
  by (induction es arbitrary: n) (auto simp: take_Cons')

lemma chain_start_take_all: "n \<le> chain_start_of es \<Longrightarrow> n \<le> length es \<Longrightarrow> chain_start_of (take n es) = n"
  by (induction es arbitrary: n) (auto simp: take_Cons' split: if_splits)

lemma take_valid:
  assumes "ac_valid (verify_audit_chain sha henc es)"
  shows "ac_valid (verify_audit_chain sha henc (take n es))"
proof (cases "chain_start_of es \<le> n")
  case True
  with assms show ?thesis by (auto simp: ac_valid_iff event_break_None_iff chain_start_take)
next
  case False
  then have "chain_start_of (take n es) = n" "n \<le> length es"
    using chain_start_take_all [of n es] chain_start_le [of es] by simp_all
  then show ?thesis by (auto simp: ac_valid_iff)
qed

lemma legacy_prefix_valid:
  assumes "\<forall>e \<in> set es. av_event_hash e \<noteq> []" and "ac_valid (verify_audit_chain sha henc es)"
    and "\<forall>g \<in> set gs. av_event_hash g = []"
  shows "ac_valid (verify_audit_chain sha henc (gs @ drop (length gs) es))"
proof (cases "gs = [] \<or> length es \<le> length gs")
  case True
  then show ?thesis
    using assms(2) chain_start_legacy [OF assms(3), of "[]"] by (auto simp: ac_valid_iff)
next
  case False
  let ?k = "length gs" and ?es = "gs @ drop (length gs) es"
  have "es \<noteq> []" using False by auto
  then have "chain_start_of es = 0" using assms(1) by (intro chain_start_hashed) simp_all
  then have old: "event_break sha henc es 0 i = None" if "i < length es" for i
    using assms(2) that by (simp add: ac_valid_iff)
  have "drop ?k es \<noteq> []" using False by simp
  then have "chain_start_of (drop ?k es) = 0"
    using assms(1) by (intro chain_start_hashed) (simp_all add: hd_drop_conv_nth not_le)
  then have start: "chain_start_of ?es = ?k" by (simp add: chain_start_legacy [OF assms(3)])
  have nth: "?es ! i = es ! i" if "?k \<le> i" "i < length es" for i using that by (simp add: nth_append)
  have "event_break sha henc ?es ?k i = None" if i: "?k \<le> i" "i < length es" for i
    using old [OF i(2)] False i nth [OF i] nth [of "i - 1"] by (auto simp: event_break_None_iff)
  then show ?thesis using False by (auto simp: ac_valid_iff start)
qed

section \<open>Properties\<close>


text \<open>What verification does not notice, contrary to the documentation: dropping the newest events;
  changing the identifier, agent, reason or restored version of any event, which the hash does not
  cover; and replacing the oldest events of a fully hashed chain by any others without a hash.\<close>

theorem audit_tampering_unnoticed:
  assumes "ac_valid (verify_audit_chain sha henc es)" and "\<forall>e \<in> set es. av_event_hash e \<noteq> []"
    and "\<forall>g \<in> set gs. av_event_hash g = []"
  shows "ac_valid (verify_audit_chain sha henc (take n es)) \<and>
    ac_valid (verify_audit_chain sha henc (map (\<lambda>e. e\<lparr>av_id := i e, av_agent_id := a e, av_reason := r e,
      av_rollback_to_version := v e\<rparr>) es)) \<and>
    ac_valid (verify_audit_chain sha henc (gs @ drop (length gs) es))"
proof (intro conjI)
  show "ac_valid (verify_audit_chain sha henc (map (\<lambda>e. e\<lparr>av_id := i e, av_agent_id := a e, av_reason := r e,
      av_rollback_to_version := v e\<rparr>) es))"
    using assms(1)
    by (auto simp: ac_valid_iff event_break_None_iff verify_hash_def compute_hash_def hash_input_def chain_start_map)
qed (use assms in \<open>auto intro: take_valid legacy_prefix_valid\<close>)

definition sample_event :: "string option \<Rightarrow> string \<Rightarrow> agent_audit_event" where
  "sample_event p h = \<lparr>av_id = 1, av_agent_id = ''a'', av_action = AaUpdated, av_from_version = Some 1, av_to_version = 2,
     av_rollback_to_version = None, av_reason = None, av_created_at = 5000000, av_prev_hash = p, av_event_hash = h\<rparr>"


lemma audit_tampering_unnoticed_witness:
  "ac_valid (verify_audit_chain (\<lambda>_. ''h'') (\<lambda>x. x)
     ([sample_event None []] @ drop (length [sample_event None []]) [sample_event None ''h'', sample_event (Some ''h'') ''h'']))"
  by (rule audit_tampering_unnoticed [THEN conjunct2, THEN conjunct2])
    (simp_all add: sample_event_def ac_valid_linked link_ok_def verify_hash_def compute_hash_def)

end
