(* ===== verification/Agents.thy ===== *)
theory Agents
  imports Agent_Audit Ordered_Maps
begin

text \<open>
  Agent identities: the profiles, experience events, branches and forks of
  \<^verbatim>\<open>mnemo-core/src/models/agent.rs\<close>, the agent store of
  \<^verbatim>\<open>mnemo-storage/src/redis_store.rs\<close> and the agent handlers of
  \<^verbatim>\<open>mnemo-server/src/routes.rs\<close>. An operation takes the readings of the clock as \<open>t\<close> and the
  generated identifiers as \<open>u\<close>, one index per call in the order of the code. A document key of
  Redis is a key of a map; a missing sorted set is the empty one. Errors of Redis itself, the
  importance of an experience (floats) and the episode and session indexes of an agent are left out.
\<close>

section \<open>Data\<close>

record agent_identity_profile =
  ai_agent_id :: string
  ai_version :: u64
  ai_core :: json
  ai_updated_at :: timestamp

definition profile_new :: "string \<Rightarrow> timestamp \<Rightarrow> agent_identity_profile" where
  "profile_new agent_id now = \<lparr>ai_agent_id = agent_id, ai_version = 1, ai_core = JObject [], ai_updated_at = now\<rparr>"

definition profile_apply_update :: "json \<Rightarrow> timestamp \<Rightarrow> agent_identity_profile \<Rightarrow> agent_identity_profile" where
  "profile_apply_update core now p = p\<lparr>ai_core := core, ai_version := ai_version p + 1, ai_updated_at := now\<rparr>"

record experience_event =
  ee_id :: uuid
  ee_agent_id :: string
  ee_user_id :: "uuid option"
  ee_session_id :: "uuid option"
  ee_category :: string
  ee_signal :: string
  ee_confidence :: f32
  ee_weight :: f32
  ee_decay_half_life_days :: u32
  ee_evidence_episode_ids :: "uuid list"
  ee_fisher_importance :: f32
  ee_created_at :: timestamp

record create_experience_request =
  cer_id :: "uuid option"
  cer_user_id :: "uuid option"
  cer_session_id :: "uuid option"
  cer_category :: string
  cer_signal :: string
  cer_confidence :: f32
  cer_weight :: f32
  cer_decay_half_life_days :: u32
  cer_evidence_episode_ids :: "uuid list"
  cer_created_at :: "timestamp option"

definition experience_from_request ::
  "string \<Rightarrow> create_experience_request \<Rightarrow> uuid \<Rightarrow> timestamp \<Rightarrow> experience_event" where
  "experience_from_request agent_id req new_id now =
     \<lparr>ee_id = (case cer_id req of Some i \<Rightarrow> i | None \<Rightarrow> new_id), ee_agent_id = agent_id,
      ee_user_id = cer_user_id req, ee_session_id = cer_session_id req, ee_category = cer_category req,
      ee_signal = cer_signal req, ee_confidence = cer_confidence req, ee_weight = cer_weight req,
      ee_decay_half_life_days = cer_decay_half_life_days req,
      ee_evidence_episode_ids = cer_evidence_episode_ids req, ee_fisher_importance = Fin 0,
      ee_created_at = (case cer_created_at req of Some c \<Rightarrow> c | None \<Rightarrow> now)\<rparr>"

record branch_metadata =
  bm_branch_name :: string
  bm_parent_agent_id :: string
  bm_fork_version :: u64
  bm_created_at :: timestamp
  bm_description :: "string option"
  bm_merged :: bool

record create_branch_request =
  cbr_branch_name :: string
  cbr_description :: "string option"
  cbr_core_override :: "json option"

record branch_info =
  bi_metadata :: branch_metadata
  bi_identity :: agent_identity_profile

record merge_result =
  mr_branch_name :: string
  mr_merged_identity :: agent_identity_profile
  mr_parent_version_before :: u64
  mr_branch_core_applied :: json

record experience_filter =
  ef_categories :: "string list"
  ef_min_confidence :: "f32 option"
  ef_min_weight :: "f32 option"
  ef_max_events :: "u32 option"

definition experience_filter_default :: experience_filter where
  "experience_filter_default = \<lparr>ef_categories = [], ef_min_confidence = None, ef_min_weight = None, ef_max_events = None\<rparr>"

definition filter_matches :: "experience_filter \<Rightarrow> experience_event \<Rightarrow> bool" where
  "filter_matches f e =
     (if ef_categories f \<noteq> [] \<and> \<not> list_ex (\<lambda>c. c = ee_category e) (ef_categories f) then False
      else if (case ef_min_confidence f of Some m \<Rightarrow> f32_lt (ee_confidence e) m | None \<Rightarrow> False) then False
      else if (case ef_min_weight f of Some m \<Rightarrow> f32_lt (ee_weight e) m | None \<Rightarrow> False) then False
      else True)"

record fork_agent_request =
  far_new_agent_id :: string
  far_core_override :: "json option"
  far_experience_filter :: "experience_filter option"
  far_description :: "string option"

record fork_lineage =
  fl_parent_agent_id :: string
  fl_parent_version :: u64
  fl_forked_at :: timestamp
  fl_description :: "string option"
  fl_experience_events_transferred :: u32
  fl_experience_filter :: "experience_filter option"

record fork_result =
  fr_new_agent :: agent_identity_profile
  fr_lineage :: fork_lineage

definition validate_branch_name :: "string \<Rightarrow> string + unit" where
  "validate_branch_name name =
     (if name = [] then Inl ''branch name cannot be empty''
      else if length name > 64 then Inl ''branch name must be <= 64 characters''
      else if \<not> list_all (\<lambda>c. is_ascii_alphanumeric c \<or> c = CHR ''-'' \<or> c = CHR ''_'') name then
        Inl ''branch name must contain only alphanumeric characters, hyphens, or underscores''
      else Inr ())"

definition validate_fork_agent_id :: "string \<Rightarrow> string + unit" where
  "validate_fork_agent_id i =
     (if i = [] then Inl ''new_agent_id must not be empty''
      else if length i > 128 then Inl ''new_agent_id must be <= 128 characters''
      else if List.member i (CHR '':'') \<or> List.member i (CHR ''/'') \<or> str_contains i ''..'' then
        Inl (''new_agent_id must not contain '' @ [CHR 0x27] @ '':'' @ [CHR 0x27] @ '', '' @ [CHR 0x27] @ ''/'' @
          [CHR 0x27] @ '', or '' @ [CHR 0x27] @ ''..'' @ [CHR 0x27])
      else if \<not> list_all (\<lambda>c. is_ascii_alphanumeric c \<or> c = CHR ''-'' \<or> c = CHR ''_'' \<or> c = CHR ''.'') i then
        Inl ''new_agent_id must contain only alphanumeric characters, hyphens, underscores, or dots''
      else Inr ())"

section \<open>The store\<close>

text \<open>
  \<^verbatim>\<open>agent_identity:{agent}\<close>, \<^verbatim>\<open>agent_identity_version:{agent}:{version}\<close> and the index of versions;
  \<^verbatim>\<open>agents\<close>; audit events and their index; experience events and their index; branches and
  their index; lineages; and the keys that only \<^verbatim>\<open>fork_agent\<close> writes:
  \<^verbatim>\<open>agent_experience:{agent}:{id}\<close>, \<^verbatim>\<open>agent_experiences:{agent}\<close>, \<^verbatim>\<open>agent_audit:{agent}:{id}\<close> and
  \<^verbatim>\<open>agent_audit_events:{agent}\<close>.
\<close>

record agent_store =
  as_identity :: "string \<rightharpoonup> agent_identity_profile"
  as_version_docs :: "string \<times> u64 \<rightharpoonup> agent_identity_profile"
  as_versions :: "string \<Rightarrow> u64 zset"
  as_agents :: "string zset"
  as_audit_docs :: "uuid \<rightharpoonup> agent_audit_event"
  as_audit :: "string \<Rightarrow> uuid zset"
  as_experience_docs :: "uuid \<rightharpoonup> experience_event"
  as_experience :: "string \<Rightarrow> uuid zset"
  as_branches :: "string \<times> string \<rightharpoonup> branch_metadata"
  as_branch_index :: "string \<Rightarrow> string zset"
  as_lineage :: "string \<rightharpoonup> fork_lineage"
  as_fork_experience_docs :: "string \<times> uuid \<rightharpoonup> experience_event"
  as_fork_experience :: "string \<Rightarrow> uuid zset"
  as_fork_audit_docs :: "string \<times> uuid \<rightharpoonup> agent_audit_event"
  as_fork_audit :: "string \<Rightarrow> uuid zset"

definition agent_store_new :: agent_store where
  "agent_store_new =
     \<lparr>as_identity = Map.empty, as_version_docs = Map.empty, as_versions = (\<lambda>_. []), as_agents = [],
      as_audit_docs = Map.empty, as_audit = (\<lambda>_. []), as_experience_docs = Map.empty, as_experience = (\<lambda>_. []),
      as_branches = Map.empty, as_branch_index = (\<lambda>_. []), as_lineage = Map.empty,
      as_fork_experience_docs = Map.empty, as_fork_experience = (\<lambda>_. []),
      as_fork_audit_docs = Map.empty, as_fork_audit = (\<lambda>_. [])\<rparr>"

definition persist_identity_snapshot :: "string \<Rightarrow> agent_identity_profile \<Rightarrow> agent_store \<Rightarrow> agent_store" where
  "persist_identity_snapshot agent_id p st =
     st\<lparr>as_identity := (as_identity st)(agent_id \<mapsto> p),
        as_version_docs := (as_version_docs st)((agent_id, ai_version p) \<mapsto> p),
        as_versions := (as_versions st)(agent_id := zadd (uint (ai_version p)) (ai_version p) (as_versions st agent_id))\<rparr>"

text \<open>The hash of the newest event of the agent, if its document is there.\<close>

definition latest_hash :: "string \<Rightarrow> agent_store \<Rightarrow> string option" where
  "latest_hash agent_id st =
     (case zrevrange (as_audit st agent_id) 0 of
        latest_id # _ \<Rightarrow> map_option av_event_hash (as_audit_docs st latest_id)
      | [] \<Rightarrow> None)"

definition append_identity_audit ::
  "(string \<Rightarrow> string) \<Rightarrow> (string \<Rightarrow> string) \<Rightarrow> string \<Rightarrow> audit_action \<Rightarrow> u64 option \<Rightarrow> u64 \<Rightarrow> u64 option \<Rightarrow> string option \<Rightarrow>
   uuid \<Rightarrow> timestamp \<Rightarrow> agent_store \<Rightarrow> agent_store" where
  "append_identity_audit sha henc agent_id action from_version to_version rollback_to reason new_id now st =
     (let event0 = \<lparr>av_id = new_id, av_agent_id = agent_id, av_action = action, av_from_version = from_version,
            av_to_version = to_version, av_rollback_to_version = rollback_to, av_reason = reason,
            av_created_at = now, av_prev_hash = latest_hash agent_id st, av_event_hash = []\<rparr>;
          event = event0\<lparr>av_event_hash := compute_hash sha henc event0\<rparr>
      in st\<lparr>as_audit_docs := (as_audit_docs st)(new_id \<mapsto> event),
            as_audit := (as_audit st)(agent_id := zadd (timestamp_millis now) new_id (as_audit st agent_id))\<rparr>)"

definition index_agent :: "string \<Rightarrow> agent_identity_profile \<Rightarrow> agent_store \<Rightarrow> agent_store" where
  "index_agent agent_id p st = st\<lparr>as_agents := zadd (timestamp_millis (ai_updated_at p)) agent_id (as_agents st)\<rparr>"

definition get_agent_identity ::
  "(string \<Rightarrow> string) \<Rightarrow> (string \<Rightarrow> string) \<Rightarrow> (nat \<Rightarrow> timestamp) \<Rightarrow> (nat \<Rightarrow> uuid) \<Rightarrow> string \<Rightarrow> agent_store \<Rightarrow>
   agent_identity_profile \<times> agent_store" where
  "get_agent_identity sha henc t u agent_id st =
     (case as_identity st agent_id of
        Some p \<Rightarrow> (p, st)
      | None \<Rightarrow>
        let p = profile_new agent_id (t 0)
        in (p, index_agent agent_id p
              (append_identity_audit sha henc agent_id AaCreated None (ai_version p) None None (u 0) (t 1)
                (persist_identity_snapshot agent_id p st))))"

definition agent_not_found :: "string \<Rightarrow> mnemo_error" where
  "agent_not_found agent_id = NotFound ''agent'' agent_id"

definition get_agent_identity_strict :: "string \<Rightarrow> agent_store \<Rightarrow> mnemo_error + agent_identity_profile" where
  "get_agent_identity_strict agent_id st =
     (case as_identity st agent_id of Some p \<Rightarrow> Inr p | None \<Rightarrow> Inl (agent_not_found agent_id))"

definition register_agent ::
  "(string \<Rightarrow> string) \<Rightarrow> (string \<Rightarrow> string) \<Rightarrow> (nat \<Rightarrow> timestamp) \<Rightarrow> (nat \<Rightarrow> uuid) \<Rightarrow> string \<Rightarrow> string option \<Rightarrow> agent_store \<Rightarrow>
   (bool \<times> agent_identity_profile) \<times> agent_store" where
  "register_agent sha henc t u agent_id description st =
     (case (case as_identity st agent_id of
              Some existing \<Rightarrow>
                (case description of
                   Some desc \<Rightarrow>
                     let core = (case ai_core existing of
                             JObject m \<Rightarrow> JObject (bt_insert ''description'' (JString desc) m) | c \<Rightarrow> c);
                         p = existing\<lparr>ai_core := core, ai_updated_at := t 0\<rparr>
                     in (False, p, st\<lparr>as_identity := (as_identity st)(agent_id \<mapsto> p)\<rparr>)
                 | None \<Rightarrow> (False, existing, st))
            | None \<Rightarrow>
                let new = profile_new agent_id (t 0);
                    p = (case description of
                        Some desc \<Rightarrow> new\<lparr>ai_core := JObject [(''description'', JString desc)]\<rparr> | None \<Rightarrow> new)
                in (True, p, append_identity_audit sha henc agent_id AaCreated None (ai_version p) None None (u 0) (t 1)
                      (persist_identity_snapshot agent_id p st))) of
        (is_new, p, st') \<Rightarrow> ((is_new, p), index_agent agent_id p st'))"

definition delete_agent :: "string \<Rightarrow> agent_store \<Rightarrow> (mnemo_error + unit) \<times> agent_store" where
  "delete_agent agent_id st =
     (case as_identity st agent_id of
        None \<Rightarrow> (Inl (agent_not_found agent_id), st)
      | Some p \<Rightarrow> (Inr (), st\<lparr>as_identity := (as_identity st)(agent_id := None), as_agents := zrem agent_id (as_agents st)\<rparr>))"

text \<open>
  \<^verbatim>\<open>list_agents\<close>; the cursor is the number that it is as a score. Reading an identity that is gone
  creates it again, with readings of the clock from position \<open>2 i\<close> for the \<open>i\<close>-th agent.
\<close>

definition zrange_above :: "'m zset \<Rightarrow> int option \<Rightarrow> nat \<Rightarrow> 'm list" where
  "zrange_above z lo limit =
     take limit (map snd (filter (\<lambda>e. case lo of None \<Rightarrow> True | Some l \<Rightarrow> l < fst e) z))"

fun read_identities ::
  "(string \<Rightarrow> string) \<Rightarrow> (string \<Rightarrow> string) \<Rightarrow> (nat \<Rightarrow> timestamp) \<Rightarrow> (nat \<Rightarrow> uuid) \<Rightarrow> nat \<Rightarrow> string list \<Rightarrow> agent_store \<Rightarrow>
   agent_identity_profile list \<times> agent_store" where
  "read_identities sha henc t u i [] st = ([], st)"
| "read_identities sha henc t u i (a # as) st =
     (case get_agent_identity sha henc (\<lambda>n. t (2 * i + n)) (\<lambda>n. u (i + n)) a st of (p, st1) \<Rightarrow>
      case read_identities sha henc t u (Suc i) as st1 of (ps, st2) \<Rightarrow> (p # ps, st2))"

definition list_agents ::
  "(string \<Rightarrow> string) \<Rightarrow> (string \<Rightarrow> string) \<Rightarrow> (nat \<Rightarrow> timestamp) \<Rightarrow> (nat \<Rightarrow> uuid) \<Rightarrow> u32 \<Rightarrow> int option \<Rightarrow> agent_store \<Rightarrow>
   agent_identity_profile list \<times> agent_store" where
  "list_agents sha henc t u limit after st =
     read_identities sha henc t u 0 (zrange_above (as_agents st) after (unat (max limit 1))) st"

definition update_agent_identity ::
  "(string \<Rightarrow> string) \<Rightarrow> (string \<Rightarrow> string) \<Rightarrow> (nat \<Rightarrow> timestamp) \<Rightarrow> (nat \<Rightarrow> uuid) \<Rightarrow> string \<Rightarrow> json \<Rightarrow> agent_store \<Rightarrow>
   agent_identity_profile \<times> agent_store" where
  "update_agent_identity sha henc t u agent_id core st =
     (case get_agent_identity sha henc t u agent_id st of (p, st1) \<Rightarrow>
      let p' = profile_apply_update core (t 2) p
      in (p', append_identity_audit sha henc agent_id AaUpdated (Some (ai_version p)) (ai_version p') None None (u 1) (t 3)
            (persist_identity_snapshot agent_id p' st1)))"

definition list_agent_identity_versions :: "string \<Rightarrow> u32 \<Rightarrow> agent_store \<Rightarrow> agent_identity_profile list" where
  "list_agent_identity_versions agent_id limit st =
     List.map_filter (\<lambda>v. as_version_docs st (agent_id, v)) (zrevrange (as_versions st agent_id) (uint limit - 1))"

definition rollback_agent_identity ::
  "(string \<Rightarrow> string) \<Rightarrow> (string \<Rightarrow> string) \<Rightarrow> (nat \<Rightarrow> timestamp) \<Rightarrow> (nat \<Rightarrow> uuid) \<Rightarrow> string \<Rightarrow> u64 \<Rightarrow> string option \<Rightarrow> agent_store \<Rightarrow>
   (mnemo_error + agent_identity_profile) \<times> agent_store" where
  "rollback_agent_identity sha henc t u agent_id target_version reason st =
     (case as_version_docs st (agent_id, target_version) of
        None \<Rightarrow> (Inl (NotFound ''AgentIdentityVersion'' (agent_id @ '':'' @ nat_to_string (unat target_version))), st)
      | Some target \<Rightarrow>
        (case get_agent_identity sha henc t u agent_id st of (current, st1) \<Rightarrow>
         let rolled = target\<lparr>ai_agent_id := agent_id, ai_version := ai_version current + 1, ai_updated_at := t 2\<rparr>
         in (Inr rolled,
             append_identity_audit sha henc agent_id AaRolledBack (Some (ai_version current)) (ai_version rolled)
               (Some target_version) reason (u 1) (t 3) (persist_identity_snapshot agent_id rolled st1))))"

definition list_agent_identity_audit :: "string \<Rightarrow> u32 \<Rightarrow> agent_store \<Rightarrow> agent_audit_event list" where
  "list_agent_identity_audit agent_id limit st =
     List.map_filter (as_audit_docs st) (zrevrange (as_audit st agent_id) (uint limit - 1))"

definition audit_events :: "string \<Rightarrow> agent_store \<Rightarrow> agent_audit_event list" where
  "audit_events agent_id st = List.map_filter (as_audit_docs st) (map snd (as_audit st agent_id))"

definition verify_agent_audit_chain ::
  "(string \<Rightarrow> string) \<Rightarrow> (string \<Rightarrow> string) \<Rightarrow> string \<Rightarrow> agent_store \<Rightarrow> audit_chain_verification" where
  "verify_agent_audit_chain sha henc agent_id st = verify_audit_chain sha henc (audit_events agent_id st)"

definition add_experience_event ::
  "string \<Rightarrow> create_experience_request \<Rightarrow> uuid \<Rightarrow> timestamp \<Rightarrow> agent_store \<Rightarrow> experience_event \<times> agent_store" where
  "add_experience_event agent_id req new_id now st =
     (let e = experience_from_request agent_id req new_id now
      in (e, st\<lparr>as_experience_docs := (as_experience_docs st)(ee_id e \<mapsto> e),
                as_experience := (as_experience st)(agent_id :=
                  zadd (timestamp_millis (ee_created_at e)) (ee_id e) (as_experience st agent_id))\<rparr>))"

definition get_experience_event :: "uuid \<Rightarrow> agent_store \<Rightarrow> experience_event option" where
  "get_experience_event i st = as_experience_docs st i"

definition update_experience_event :: "experience_event \<Rightarrow> agent_store \<Rightarrow> agent_store" where
  "update_experience_event e st = st\<lparr>as_experience_docs := (as_experience_docs st)(ee_id e \<mapsto> e)\<rparr>"

definition list_experience_events :: "string \<Rightarrow> u32 \<Rightarrow> agent_store \<Rightarrow> experience_event list" where
  "list_experience_events agent_id limit st =
     List.map_filter (as_experience_docs st) (zrevrange (as_experience st agent_id) (uint limit - 1))"

section \<open>Branches and forks\<close>

definition branch_agent :: "string \<Rightarrow> string \<Rightarrow> string" where
  "branch_agent agent_id branch_name = agent_id @ '':branch:'' @ branch_name"

definition quote1 :: "string \<Rightarrow> string" where
  "quote1 s = [CHR 0x27] @ s @ [CHR 0x27]"

definition create_agent_branch ::
  "(string \<Rightarrow> string) \<Rightarrow> (string \<Rightarrow> string) \<Rightarrow> (nat \<Rightarrow> timestamp) \<Rightarrow> (nat \<Rightarrow> uuid) \<Rightarrow> string \<Rightarrow> create_branch_request \<Rightarrow> agent_store \<Rightarrow>
   (mnemo_error + branch_info) \<times> agent_store" where
  "create_agent_branch sha henc t u agent_id req st =
     (case validate_branch_name (cbr_branch_name req) of Inl e \<Rightarrow> (Inl (Validation e), st) | Inr _ \<Rightarrow>
      case as_branches st (agent_id, cbr_branch_name req) of
        Some m \<Rightarrow> (Inl (Validation (''branch '' @ quote1 (cbr_branch_name req) @ '' already exists for agent '' @
            quote1 agent_id)), st)
      | None \<Rightarrow>
        (case get_agent_identity sha henc t u agent_id st of (parent, st1) \<Rightarrow>
         let branch_id = branch_agent agent_id (cbr_branch_name req);
             identity = \<lparr>ai_agent_id = branch_id, ai_version = ai_version parent,
               ai_core = (case cbr_core_override req of Some c \<Rightarrow> c | None \<Rightarrow> ai_core parent), ai_updated_at = t 2\<rparr>;
             metadata = \<lparr>bm_branch_name = cbr_branch_name req, bm_parent_agent_id = agent_id,
               bm_fork_version = ai_version parent, bm_created_at = t 3, bm_description = cbr_description req,
               bm_merged = False\<rparr>;
             st2 = st1\<lparr>as_identity := (as_identity st1)(branch_id \<mapsto> identity),
               as_branches := (as_branches st1)((agent_id, cbr_branch_name req) \<mapsto> metadata),
               as_branch_index := (as_branch_index st1)(agent_id :=
                 zadd (timestamp_millis (t 3)) (cbr_branch_name req) (as_branch_index st1 agent_id))\<rparr>
         in (Inr \<lparr>bi_metadata = metadata, bi_identity = identity\<rparr>,
             append_identity_audit sha henc agent_id AaBranchCreated (Some (ai_version parent)) (ai_version parent) None
               (Some (''branch:'' @ cbr_branch_name req)) (u 1) (t 4) st2)))"

definition list_agent_branches :: "string \<Rightarrow> agent_store \<Rightarrow> branch_metadata list" where
  "list_agent_branches agent_id st =
     List.map_filter (\<lambda>b. as_branches st (agent_id, b)) (map snd (as_branch_index st agent_id))"

definition branch_not_found :: "string \<Rightarrow> string \<Rightarrow> mnemo_error" where
  "branch_not_found agent_id branch_name = NotFound ''AgentBranch'' (agent_id @ '':'' @ branch_name)"

definition already_merged :: "string \<Rightarrow> mnemo_error" where
  "already_merged branch_name = Validation (''branch '' @ quote1 branch_name @ '' has already been merged'')"

definition get_agent_branch ::
  "(string \<Rightarrow> string) \<Rightarrow> (string \<Rightarrow> string) \<Rightarrow> (nat \<Rightarrow> timestamp) \<Rightarrow> (nat \<Rightarrow> uuid) \<Rightarrow> string \<Rightarrow> string \<Rightarrow> agent_store \<Rightarrow>
   (mnemo_error + branch_info) \<times> agent_store" where
  "get_agent_branch sha henc t u agent_id branch_name st =
     (case as_branches st (agent_id, branch_name) of
        None \<Rightarrow> (Inl (branch_not_found agent_id branch_name), st)
      | Some m \<Rightarrow>
        (case get_agent_identity sha henc t u (branch_agent agent_id branch_name) st of (p, st1) \<Rightarrow>
          (Inr \<lparr>bi_metadata = m, bi_identity = p\<rparr>, st1)))"

definition update_agent_branch ::
  "(string \<Rightarrow> string) \<Rightarrow> (string \<Rightarrow> string) \<Rightarrow> (nat \<Rightarrow> timestamp) \<Rightarrow> (nat \<Rightarrow> uuid) \<Rightarrow> string \<Rightarrow> string \<Rightarrow> json \<Rightarrow> agent_store \<Rightarrow>
   (mnemo_error + agent_identity_profile) \<times> agent_store" where
  "update_agent_branch sha henc t u agent_id branch_name core st =
     (case as_branches st (agent_id, branch_name) of
        None \<Rightarrow> (Inl (branch_not_found agent_id branch_name), st)
      | Some m \<Rightarrow>
        if bm_merged m then (Inl (already_merged branch_name), st)
        else case update_agent_identity sha henc t u (branch_agent agent_id branch_name) core st of
          (p, st1) \<Rightarrow> (Inr p, st1))"

definition merge_agent_branch ::
  "(string \<Rightarrow> string) \<Rightarrow> (string \<Rightarrow> string) \<Rightarrow> (nat \<Rightarrow> timestamp) \<Rightarrow> (nat \<Rightarrow> uuid) \<Rightarrow> string \<Rightarrow> string \<Rightarrow> agent_store \<Rightarrow>
   (mnemo_error + merge_result) \<times> agent_store" where
  "merge_agent_branch sha henc t u agent_id branch_name st =
     (case as_branches st (agent_id, branch_name) of
        None \<Rightarrow> (Inl (branch_not_found agent_id branch_name), st)
      | Some m \<Rightarrow>
        if bm_merged m then (Inl (already_merged branch_name), st)
        else
          case get_agent_identity sha henc t u (branch_agent agent_id branch_name) st of (branch, st1) \<Rightarrow>
          case get_agent_identity sha henc (\<lambda>n. t (2 + n)) (\<lambda>n. u (1 + n)) agent_id st1 of (parent, st2) \<Rightarrow>
          case update_agent_identity sha henc (\<lambda>n. t (4 + n)) (\<lambda>n. u (2 + n)) agent_id (ai_core branch) st2 of (merged, st3) \<Rightarrow>
          let st4 = st3\<lparr>as_branches := (as_branches st3)((agent_id, branch_name) \<mapsto> m\<lparr>bm_merged := True\<rparr>)\<rparr>
          in (Inr \<lparr>mr_branch_name = branch_name, mr_merged_identity = merged,
                   mr_parent_version_before = ai_version parent, mr_branch_core_applied = ai_core branch\<rparr>,
              append_identity_audit sha henc agent_id AaBranchMerged (Some (ai_version parent)) (ai_version merged) None
                (Some (''branch:'' @ branch_name)) (u 4) (t 8) st4))"

definition delete_agent_branch ::
  "(string \<Rightarrow> string) \<Rightarrow> (string \<Rightarrow> string) \<Rightarrow> (nat \<Rightarrow> timestamp) \<Rightarrow> (nat \<Rightarrow> uuid) \<Rightarrow> string \<Rightarrow> string \<Rightarrow> agent_store \<Rightarrow>
   (mnemo_error + unit) \<times> agent_store" where
  "delete_agent_branch sha henc t u agent_id branch_name st =
     (case as_branches st (agent_id, branch_name) of
        None \<Rightarrow> (Inl (branch_not_found agent_id branch_name), st)
      | Some m \<Rightarrow>
        let st1 = st\<lparr>as_identity := (as_identity st)(branch_agent agent_id branch_name := None),
              as_branches := (as_branches st)((agent_id, branch_name) := None),
              as_branch_index := (as_branch_index st)(agent_id := zrem branch_name (as_branch_index st agent_id))\<rparr>
        in case get_agent_identity sha henc t u agent_id st1 of (parent, st2) \<Rightarrow>
          (Inr (), append_identity_audit sha henc agent_id AaBranchDeleted (Some (ai_version parent)) (ai_version parent) None
             (Some (''branch:'' @ branch_name)) (u 1) (t 2) st2))"

text \<open>The loop over the matching events of the source; \<open>n\<close> is \<^verbatim>\<open>transferred_count\<close>.\<close>

fun transfer_events ::
  "(nat \<Rightarrow> uuid) \<Rightarrow> string \<Rightarrow> nat \<Rightarrow> experience_event list \<Rightarrow> nat \<Rightarrow> agent_store \<Rightarrow> nat \<times> agent_store" where
  "transfer_events u new_agent max_events [] n st = (n, st)"
| "transfer_events u new_agent max_events (e # es) n st =
     (if max_events \<le> n then (n, st)
      else
        let e' = e\<lparr>ee_id := u n, ee_agent_id := new_agent\<rparr>;
            st' = st\<lparr>as_fork_experience_docs := (as_fork_experience_docs st)((new_agent, ee_id e') \<mapsto> e'),
              as_fork_experience := (as_fork_experience st)(new_agent :=
                zadd (timestamp_millis (ee_created_at e')) (ee_id e') (as_fork_experience st new_agent))\<rparr>
        in transfer_events u new_agent max_events es (Suc n) st')"

definition fork_agent ::
  "(string \<Rightarrow> string) \<Rightarrow> (string \<Rightarrow> string) \<Rightarrow> (nat \<Rightarrow> timestamp) \<Rightarrow> (nat \<Rightarrow> uuid) \<Rightarrow> string \<Rightarrow> fork_agent_request \<Rightarrow> agent_store \<Rightarrow>
   (mnemo_error + fork_result) \<times> agent_store" where
  "fork_agent sha henc t u source_agent_id req st =
     (case validate_fork_agent_id (far_new_agent_id req) of Inl e \<Rightarrow> (Inl (Validation e), st) | Inr _ \<Rightarrow>
      case as_identity st (far_new_agent_id req) of
        Some p \<Rightarrow> (Inl (Validation (''agent '' @ quote1 (far_new_agent_id req) @
            '' already exists; cannot fork to an existing agent_id'')), st)
      | None \<Rightarrow>
        (case get_agent_identity sha henc t u source_agent_id st of (src, st1) \<Rightarrow>
         let new = far_new_agent_id req;
             identity = \<lparr>ai_agent_id = new, ai_version = 1,
               ai_core = (case far_core_override req of Some c \<Rightarrow> c | None \<Rightarrow> ai_core src), ai_updated_at = t 2\<rparr>;
             st2 = persist_identity_snapshot new identity
               (st1\<lparr>as_identity := (as_identity st1)(new \<mapsto> identity)\<rparr>);
             flt = (case far_experience_filter req of Some f \<Rightarrow> f | None \<Rightarrow> experience_filter_default);
             max_events = unat (case ef_max_events flt of Some m \<Rightarrow> m | None \<Rightarrow> - 1)
         in case transfer_events (\<lambda>n. u (4 + n)) new max_events
                   (filter (filter_matches flt) (list_experience_events source_agent_id 10000 st2)) 0 st2 of (count, st3) \<Rightarrow>
         let lineage = \<lparr>fl_parent_agent_id = source_agent_id, fl_parent_version = ai_version src, fl_forked_at = t 3,
               fl_description = far_description req, fl_experience_events_transferred = of_nat count,
               fl_experience_filter = far_experience_filter req\<rparr>;
             event0 = \<lparr>av_id = u 2, av_agent_id = new, av_action = AaCreated, av_from_version = None, av_to_version = 1,
               av_rollback_to_version = None, av_reason = far_description req, av_created_at = t 4, av_prev_hash = None,
               av_event_hash = []\<rparr>;
             event = event0\<lparr>av_event_hash := compute_hash sha henc event0\<rparr>;
             st4 = st3\<lparr>as_lineage := (as_lineage st3)(new \<mapsto> lineage),
               as_fork_audit_docs := (as_fork_audit_docs st3)((new, av_id event) \<mapsto> event),
               as_fork_audit := (as_fork_audit st3)(new :=
                 zadd (timestamp_millis (av_created_at event)) (av_id event) (as_fork_audit st3 new))\<rparr>
         in (Inr \<lparr>fr_new_agent = identity, fr_lineage = lineage\<rparr>,
             append_identity_audit sha henc source_agent_id AaForked (Some (ai_version src)) (ai_version src) None
               (Some (''forked_to:'' @ new)) (u 3) (t 5) st4)))"

section \<open>The chain an agent store keeps\<close>

lemma z_insert_end:
  "(\<And>s' m'. (s', m') \<in> set z \<Longrightarrow> s' < s \<or> s' = s \<and> m' < m) \<Longrightarrow> z_insert (s, m) z = z @ [(s, m)]"
  by (induction z) (auto, force+)

lemma map_filter_same: "(\<And>x. x \<in> set xs \<Longrightarrow> f x = g x) \<Longrightarrow> List.map_filter f xs = List.map_filter g xs"
  by (induction xs) (auto simp: map_filter_simps split: option.split)

lemma map_filter_append: "List.map_filter f (xs @ ys) = List.map_filter f xs @ List.map_filter f ys"
  by (simp add: List.map_filter_def)

text \<open>Every chain is linked, no score exceeds \<open>lt\<close> and no identifier of an event reaches \<open>lu\<close>.\<close>

definition chain_ok :: "(string \<Rightarrow> string) \<Rightarrow> (string \<Rightarrow> string) \<Rightarrow> agent_store \<Rightarrow> string \<Rightarrow> bool" where
  "chain_ok sha henc st a \<longleftrightarrow>
     (\<forall>i \<in> snd ` set (as_audit st a). as_audit_docs st i \<noteq> None) \<and> linked sha henc None (audit_events a st)"

definition audit_inv :: "(string \<Rightarrow> string) \<Rightarrow> (string \<Rightarrow> string) \<Rightarrow> int \<Rightarrow> uuid \<Rightarrow> agent_store \<Rightarrow> bool" where
  "audit_inv sha henc lt lu st \<longleftrightarrow>
     (\<forall>a. chain_ok sha henc st a) \<and> (\<forall>a. \<forall>e \<in> set (as_audit st a). fst e \<le> lt) \<and>
     (\<forall>i \<in> dom (as_audit_docs st). i < lu)"

lemma audit_inv_new: "audit_inv sha henc lt lu agent_store_new"
  by (simp add: audit_inv_def chain_ok_def agent_store_new_def audit_events_def map_filter_simps)

lemma audit_inv_mono: "audit_inv sha henc lt lu st \<Longrightarrow> lt \<le> lt' \<Longrightarrow> lu \<le> lu' \<Longrightarrow> audit_inv sha henc lt' lu' st"
  unfolding audit_inv_def by (meson dual_order.trans order.strict_trans2)

text \<open>Only the audit documents and their index matter.\<close>

lemma audit_inv_cong:
  "as_audit st' = as_audit st \<Longrightarrow> as_audit_docs st' = as_audit_docs st \<Longrightarrow>
     audit_inv sha henc lt lu st' = audit_inv sha henc lt lu st"
  by (simp add: audit_inv_def chain_ok_def audit_events_def)

lemma latest_hash_last:
  assumes "chain_ok sha henc st a"
  shows "latest_hash a st = (if audit_events a st = [] then None else Some (av_event_hash (last (audit_events a st))))"
proof (cases "as_audit st a" rule: rev_cases)
  case (snoc z e)
  then have "as_audit_docs st (snd e) \<noteq> None" using assms by (auto simp: chain_ok_def)
  then show ?thesis
    using snoc by (auto simp: latest_hash_def zrevrange_def znewest_def audit_events_def List.map_filter_def)
qed (simp add: latest_hash_def zrevrange_def znewest_def audit_events_def map_filter_simps)

text \<open>Appending an event that is newer than all others puts it at the end of its chain.\<close>

lemma append_identity_audit_inv:
  assumes inv: "audit_inv sha henc lt lu st" and "lt \<le> timestamp_millis now" and "lu \<le> i" and "i < lu'"
  shows "audit_inv sha henc (timestamp_millis now) lu'
    (append_identity_audit sha henc a action f v rb reason i now st)" (is "audit_inv _ _ _ _ ?st")
proof -
  have fresh: "as_audit_docs st i = None" using inv assms(3) by (meson audit_inv_def domIff not_le)
  have newer: "fst e \<le> timestamp_millis now \<and> snd e \<noteq> i \<and> snd e < i" if e: "e \<in> set (as_audit st b)" for b e
  proof -
    have "as_audit_docs st (snd e) \<noteq> None" using inv e by (auto simp: audit_inv_def chain_ok_def)
    then have "snd e < lu" using inv by (auto simp: audit_inv_def)
    then show ?thesis using inv e assms(2,3) by (fastforce simp: audit_inv_def)
  qed
  have "zrem i (as_audit st a) = as_audit st a" using newer by (auto simp: zrem_def filter_id_conv)
  moreover have "z_insert (timestamp_millis now, i) (as_audit st a) = as_audit st a @ [(timestamp_millis now, i)]"
    using newer by (intro z_insert_end) fastforce
  ultimately have z: "zadd (timestamp_millis now) i (as_audit st a) = as_audit st a @ [(timestamp_millis now, i)]"
    by (simp add: zadd_def)
  obtain e where e: "as_audit_docs ?st = (as_audit_docs st)(i \<mapsto> e)" "verify_hash sha henc e" "av_prev_hash e = latest_hash a st"
    by (simp add: append_identity_audit_def Let_def verify_hash_def compute_hash_def hash_input_def)
  have idx: "as_audit ?st = (as_audit st)(a := as_audit st a @ [(timestamp_millis now, i)])"
    by (simp add: append_identity_audit_def Let_def z)
  have same: "List.map_filter ((as_audit_docs st)(i \<mapsto> e)) (map snd (as_audit st b)) = audit_events b st" for b
    unfolding audit_events_def using newer by (intro map_filter_same) auto
  have evs: "audit_events b ?st = (if b = a then audit_events a st @ [e] else audit_events b st)" for b
    using same [of a] same [of b] unfolding audit_events_def [of _ ?st] idx e(1)
    by (cases "b = a") (simp_all add: map_filter_append map_filter_simps(1) map_filter_simps(2))
  have "chain_ok sha henc ?st b" for b
  proof -
    have "chain_ok sha henc st b" using inv by (simp add: audit_inv_def)
    then show ?thesis
      using e(2,3) latest_hash_last [of sha henc st a] inv
      by (auto simp: chain_ok_def evs e(1) idx linked_append link_ok_def audit_inv_def)
  qed
  moreover have "\<forall>b. \<forall>x \<in> set (as_audit ?st b). fst x \<le> timestamp_millis now"
    using newer by (auto simp: idx)
  moreover have "\<forall>j \<in> dom (as_audit_docs ?st). j < lu'"
    using inv assms(3,4) unfolding e(1) audit_inv_def by (auto intro: order.strict_trans2 order.strict_trans1 dest: bspec)
  ultimately show ?thesis by (simp add: audit_inv_def)
qed

text \<open>The chains under each operation; \<open>lu'\<close> is any identifier above the last one used.\<close>

lemma audit_fields_simps [simp]:
  "as_audit (persist_identity_snapshot a p st) = as_audit st"
  "as_audit_docs (persist_identity_snapshot a p st) = as_audit_docs st"
  "as_audit (index_agent a p st) = as_audit st"
  "as_audit_docs (index_agent a p st) = as_audit_docs st"
  by (simp_all add: persist_identity_snapshot_def index_agent_def)

lemma audit_inv_simps [simp]:
  "audit_inv sha henc lt lu (persist_identity_snapshot a p st) = audit_inv sha henc lt lu st"
  "audit_inv sha henc lt lu (index_agent a p st) = audit_inv sha henc lt lu st"
  "audit_inv sha henc lt lu (st\<lparr>as_identity := x\<rparr>) = audit_inv sha henc lt lu st"
  "audit_inv sha henc lt lu (st\<lparr>as_branches := y\<rparr>) = audit_inv sha henc lt lu st"
  "audit_inv sha henc lt lu (st\<lparr>as_branch_index := z\<rparr>) = audit_inv sha henc lt lu st"
  "audit_inv sha henc lt lu (st\<lparr>as_agents := ag\<rparr>) = audit_inv sha henc lt lu st"
  "audit_inv sha henc lt lu (st\<lparr>as_lineage := l\<rparr>) = audit_inv sha henc lt lu st"
  "audit_inv sha henc lt lu (st\<lparr>as_fork_audit_docs := fd\<rparr>) = audit_inv sha henc lt lu st"
  "audit_inv sha henc lt lu (st\<lparr>as_fork_audit := fa\<rparr>) = audit_inv sha henc lt lu st"
  "audit_inv sha henc lt lu (st\<lparr>as_fork_experience_docs := ed\<rparr>) = audit_inv sha henc lt lu st"
  "audit_inv sha henc lt lu (st\<lparr>as_fork_experience := ea\<rparr>) = audit_inv sha henc lt lu st"
  "audit_inv sha henc lt lu (st\<lparr>as_experience_docs := xd\<rparr>) = audit_inv sha henc lt lu st"
  "audit_inv sha henc lt lu (st\<lparr>as_experience := xa\<rparr>) = audit_inv sha henc lt lu st"
  by (rule audit_inv_cong; simp)+

lemma millis_mono: "a \<le> b \<Longrightarrow> timestamp_millis a \<le> timestamp_millis b"
  by (simp add: timestamp_millis_def zdiv_mono1)

definition fresh_supply :: "nat \<Rightarrow> (nat \<Rightarrow> timestamp) \<Rightarrow> (nat \<Rightarrow> uuid) \<Rightarrow> bool" where
  "fresh_supply n t u \<longleftrightarrow> (\<forall>i j. i \<le> j \<and> j \<le> n \<longrightarrow> t i \<le> t j) \<and> (\<forall>i j. i < j \<and> j \<le> n \<longrightarrow> u i < u j)"

lemma fresh_supplyD:
  "fresh_supply n t u \<Longrightarrow> i \<le> j \<Longrightarrow> j \<le> n \<Longrightarrow> timestamp_millis (t i) \<le> timestamp_millis (t j)"
  "fresh_supply n t u \<Longrightarrow> i < j \<Longrightarrow> j \<le> n \<Longrightarrow> u i < u j"
  "fresh_supply n t u \<Longrightarrow> i \<le> j \<Longrightarrow> j \<le> n \<Longrightarrow> u i \<le> u j"
  by (auto simp: fresh_supply_def millis_mono) (metis le_neq_implies_less less_imp_le order_refl)

lemma fresh_supply_shift: "fresh_supply n t u \<Longrightarrow> k + m \<le> n \<Longrightarrow> l + m \<le> n \<Longrightarrow> fresh_supply m (\<lambda>i. t (k + i)) (\<lambda>i. u (l + i))"
  by (simp add: fresh_supply_def)

text \<open>\<open>ready i j\<close>: readings of the clock from \<open>i\<close> and identifiers from \<open>j\<close> are newer than the store.\<close>

definition ready ::
  "(string \<Rightarrow> string) \<Rightarrow> (string \<Rightarrow> string) \<Rightarrow> (nat \<Rightarrow> timestamp) \<Rightarrow> (nat \<Rightarrow> uuid) \<Rightarrow> nat \<Rightarrow> nat \<Rightarrow> agent_store \<Rightarrow> bool" where
  "ready sha henc t u i j st = audit_inv sha henc (timestamp_millis (t i)) (u j) st"

lemma ready_simps [simp]:
  "ready sha henc t u i j (persist_identity_snapshot a p st) = ready sha henc t u i j st"
  "ready sha henc t u i j (index_agent a p st) = ready sha henc t u i j st"
  "ready sha henc t u i j (st\<lparr>as_identity := x\<rparr>) = ready sha henc t u i j st"
  "ready sha henc t u i j (st\<lparr>as_branches := y\<rparr>) = ready sha henc t u i j st"
  "ready sha henc t u i j (st\<lparr>as_branch_index := z\<rparr>) = ready sha henc t u i j st"
  "ready sha henc t u i j (st\<lparr>as_agents := ag\<rparr>) = ready sha henc t u i j st"
  "ready sha henc t u i j (st\<lparr>as_lineage := l\<rparr>) = ready sha henc t u i j st"
  "ready sha henc t u i j (st\<lparr>as_fork_audit_docs := fd\<rparr>) = ready sha henc t u i j st"
  "ready sha henc t u i j (st\<lparr>as_fork_audit := fa\<rparr>) = ready sha henc t u i j st"
  "ready sha henc t u i j (st\<lparr>as_fork_experience_docs := ed\<rparr>) = ready sha henc t u i j st"
  "ready sha henc t u i j (st\<lparr>as_fork_experience := ea\<rparr>) = ready sha henc t u i j st"
  "ready sha henc t u i j (st\<lparr>as_experience_docs := xd\<rparr>) = ready sha henc t u i j st"
  "ready sha henc t u i j (st\<lparr>as_experience := xa\<rparr>) = ready sha henc t u i j st"
  by (simp_all add: ready_def)

lemma ready_later:
  "fresh_supply n t u \<Longrightarrow> ready sha henc t u i j st \<Longrightarrow> i \<le> i' \<Longrightarrow> j \<le> j' \<Longrightarrow> i' \<le> n \<Longrightarrow> j' \<le> n \<Longrightarrow> ready sha henc t u i' j' st"
  unfolding ready_def by (erule audit_inv_mono) (auto intro: fresh_supplyD)

lemma ready_append:
  assumes "fresh_supply n t u" and "ready sha henc t u i j st" and "i \<le> k" and "j \<le> l" and "k \<le> n" and "l < n"
  shows "ready sha henc t u k (Suc l) (append_identity_audit sha henc a action f v rb reason (u l) (t k) st)"
  unfolding ready_def
  by (rule append_identity_audit_inv [OF assms(2) [unfolded ready_def]]) (use assms in \<open>auto intro: fresh_supplyD\<close>)

lemma ready_shift: "ready sha henc (\<lambda>n. t (k + n)) (\<lambda>n. u (l + n)) i j st = ready sha henc t u (k + i) (l + j) st"
  by (simp add: ready_def)

lemma ready_get:
  assumes "fresh_supply n t u" and "ready sha henc t u 0 0 st" and "1 \<le> n"
  shows "ready sha henc t u 1 1 (snd (get_agent_identity sha henc t u a st))"
proof (cases "as_identity st a")
  case None
  then show ?thesis
    using ready_append [OF assms(1), where j = 0 and l = 0 and k = 1 and i = 0] assms(2,3)
    by (simp add: get_agent_identity_def Let_def)
qed (use assms ready_later in \<open>simp add: get_agent_identity_def\<close>)

lemma ready_update:
  assumes "fresh_supply n t u" and "ready sha henc t u 0 0 st" and "3 \<le> n"
  shows "ready sha henc t u 3 2 (snd (update_agent_identity sha henc t u a core st))"
proof -
  obtain p st1 where g: "get_agent_identity sha henc t u a st = (p, st1)" by fastforce
  then have "ready sha henc t u 1 1 st1" using ready_get [OF assms(1,2), of a] assms(3) by simp
  from ready_append [OF assms(1), where i = 1 and j = 1 and l = 1 and k = 3] this assms(3) show ?thesis
    by (simp add: update_agent_identity_def g Let_def numeral_2_eq_2)
qed

lemma ready_register:
  assumes "fresh_supply n t u" and "ready sha henc t u 0 0 st" and "1 \<le> n"
  shows "ready sha henc t u 1 1 (snd (register_agent sha henc t u a d st))"
proof (cases "as_identity st a")
  case None
  then show ?thesis
    using ready_append [OF assms(1), where j = 0 and l = 0 and k = 1 and i = 0] assms(2,3)
    by (simp add: register_agent_def Let_def)
next
  case (Some p)
  then show ?thesis
    using ready_later [OF assms(1,2), of 1 1] assms(3) by (cases d) (simp_all add: register_agent_def Let_def)
qed

lemma ready_rollback:
  assumes "fresh_supply n t u" and "ready sha henc t u 0 0 st" and "3 \<le> n"
  shows "ready sha henc t u 3 2 (snd (rollback_agent_identity sha henc t u a v reason st))"
proof (cases "as_version_docs st (a, v)")
  case (Some target)
  obtain p st1 where g: "get_agent_identity sha henc t u a st = (p, st1)" by fastforce
  then have "ready sha henc t u 1 1 st1" using ready_get [OF assms(1,2), of a] assms(3) by simp
  from ready_append [OF assms(1), where i = 1 and j = 1 and l = 1 and k = 3] this assms(3) show ?thesis
    by (simp add: rollback_agent_identity_def g Some Let_def numeral_2_eq_2)
qed (use assms ready_later [OF assms(1,2)] in \<open>simp add: rollback_agent_identity_def\<close>)

lemma ready_create_branch:
  assumes "fresh_supply n t u" and "ready sha henc t u 0 0 st" and "4 \<le> n"
  shows "ready sha henc t u 4 2 (snd (create_agent_branch sha henc t u a req st))"
proof -
  obtain p st1 where g: "get_agent_identity sha henc t u a st = (p, st1)" by fastforce
  then have "ready sha henc t u 1 1 st1" using ready_get [OF assms(1,2), of a] assms(3) by simp
  from ready_append [OF assms(1), where i = 1 and j = 1 and l = 1 and k = 4] this assms(3)
    ready_later [OF assms(1,2), of 4 2]
  show ?thesis by (simp add: create_agent_branch_def g Let_def numeral_2_eq_2 split: sum.split option.split)
qed

lemma ready_get_branch:
  assumes "fresh_supply n t u" and "ready sha henc t u 0 0 st" and "1 \<le> n"
  shows "ready sha henc t u 1 1 (snd (get_agent_branch sha henc t u a b st))"
  using ready_get [OF assms, of "branch_agent a b"] ready_later [OF assms(1,2), of 1 1] assms(3)
  by (auto simp: get_agent_branch_def split: option.split prod.split)

lemma ready_update_branch:
  assumes "fresh_supply n t u" and "ready sha henc t u 0 0 st" and "3 \<le> n"
  shows "ready sha henc t u 3 2 (snd (update_agent_branch sha henc t u a b core st))"
  using ready_update [OF assms, of "branch_agent a b" core] ready_later [OF assms(1,2), of 3 2] assms(3)
  by (auto simp: update_agent_branch_def split: option.split prod.split)

lemma ready_merge_branch:
  assumes s: "fresh_supply n t u" and r: "ready sha henc t u 0 0 st" and n: "8 \<le> n"
  shows "ready sha henc t u 8 5 (snd (merge_agent_branch sha henc t u a b st))"
proof (cases "as_branches st (a, b)")
  case (Some m)
  obtain branch st1 where g1: "get_agent_identity sha henc t u (branch_agent a b) st = (branch, st1)" by fastforce
  have r1: "ready sha henc t u 2 1 st1"
    using ready_later [OF s ready_get [OF s r], of 2 1 "branch_agent a b"] g1 n by simp
  obtain parent st2 where g2: "get_agent_identity sha henc (\<lambda>n. t (2 + n)) (\<lambda>n. u (1 + n)) a st1 = (parent, st2)"
    by fastforce
  have "fresh_supply 1 (\<lambda>n. t (2 + n)) (\<lambda>n. u (1 + n))"
    by (rule fresh_supply_shift [OF s]) (use n in simp_all)
  from ready_get [OF this, of sha henc st1 a]
  have "ready sha henc (\<lambda>n. t (2 + n)) (\<lambda>n. u (1 + n)) 1 1 st2"
    using r1 unfolding ready_shift g2 by simp
  then have r2: "ready sha henc t u 4 2 st2"
    unfolding ready_shift using ready_later [OF s, where i' = 4 and j' = 2] n by simp
  obtain merged st3 where g3: "update_agent_identity sha henc (\<lambda>n. t (4 + n)) (\<lambda>n. u (2 + n)) a (ai_core branch) st2 =
      (merged, st3)" by fastforce
  have "fresh_supply 3 (\<lambda>n. t (4 + n)) (\<lambda>n. u (2 + n))"
    by (rule fresh_supply_shift [OF s]) (use n in simp_all)
  from ready_update [OF this, of sha henc st2 a "ai_core branch"]
  have "ready sha henc (\<lambda>n. t (4 + n)) (\<lambda>n. u (2 + n)) 3 2 st3"
    using r2 unfolding ready_shift g3 by simp
  then have r3: "ready sha henc t u 7 4 st3" unfolding ready_shift by simp
  have "ready sha henc t u 8 (Suc 4) (append_identity_audit sha henc a AaBranchMerged (Some (ai_version parent))
      (ai_version merged) None (Some (''branch:'' @ b)) (u 4) (t 8)
      (st3\<lparr>as_branches := (as_branches st3)((a, b) \<mapsto> m\<lparr>bm_merged := True\<rparr>)\<rparr>))"
    by (rule ready_append [OF s, where i = 7 and j = 4]) (use r3 n in simp_all)
  then show ?thesis
    using ready_later [OF s r, of 8 5] n
    unfolding merge_agent_branch_def Some option.case g1 prod.case g2 g3 Let_def by simp
qed (use assms ready_later [OF s r] in \<open>simp add: merge_agent_branch_def\<close>)

lemma ready_delete_branch:
  assumes "fresh_supply n t u" and "ready sha henc t u 0 0 st" and "2 \<le> n"
  shows "ready sha henc t u 2 2 (snd (delete_agent_branch sha henc t u a b st))"
proof -
  let ?st1 = "st\<lparr>as_identity := (as_identity st)(branch_agent a b := None),
    as_branches := (as_branches st)((a, b) := None),
    as_branch_index := (as_branch_index st)(a := zrem b (as_branch_index st a))\<rparr>"
  obtain p st2 where g: "get_agent_identity sha henc t u a ?st1 = (p, st2)" by fastforce
  then have "ready sha henc t u 1 1 st2" using ready_get [OF assms(1), of sha henc ?st1 a] assms(2,3) by simp
  from ready_append [OF assms(1), where i = 1 and j = 1 and l = 1 and k = 2] this assms(3)
    ready_later [OF assms(1,2), of 2 2]
  show ?thesis by (simp add: delete_agent_branch_def g Let_def numeral_2_eq_2 split: option.split)
qed

lemma ready_transfer: "ready sha henc t u i j (snd (transfer_events u' a m es c st)) = ready sha henc t u i j st"
  by (induction u' a m es c st rule: transfer_events.induct) (simp_all add: Let_def)

lemma ready_fork:
  assumes "fresh_supply n t u" and "ready sha henc t u 0 0 st" and "5 \<le> n"
  shows "ready sha henc t u 5 4 (snd (fork_agent sha henc t u a req st))"
proof -
  obtain p st1 where g: "get_agent_identity sha henc t u a st = (p, st1)" by fastforce
  then have r1: "ready sha henc t u 1 1 st1" using ready_get [OF assms(1,2), of a] assms(3) by simp
  show ?thesis
    unfolding fork_agent_def Let_def g
    using ready_append [OF assms(1), where i = 1 and j = 1 and l = 3 and k = 5] r1 assms(3)
      ready_later [OF assms(1,2), of 5 4]
    by (auto simp: ready_transfer eval_nat_numeral split: sum.split option.split prod.split dest!: arg_cong [where f = snd])
qed

lemma ready_read_identities:
  "fresh_supply n t u \<Longrightarrow> ready sha henc t u (2 * i) i st \<Longrightarrow> 2 * (i + length as) \<le> n \<Longrightarrow>
     ready sha henc t u (2 * (i + length as)) (i + length as) (snd (read_identities sha henc t u i as st))"
proof (induction "as" arbitrary: i st)
  case (Cons a "as")
  obtain p st1 where g: "get_agent_identity sha henc (\<lambda>n. t (2 * i + n)) (\<lambda>n. u (i + n)) a st = (p, st1)" by fastforce
  have "fresh_supply 1 (\<lambda>n. t (2 * i + n)) (\<lambda>n. u (i + n))"
    by (rule fresh_supply_shift [OF Cons.prems(1)]) (use Cons.prems(3) in simp_all)
  from ready_get [OF this, of sha henc st a] have "ready sha henc t u (2 * i + 1) (i + 1) st1"
    using Cons.prems(2) unfolding ready_shift g by simp
  then have "ready sha henc t u (2 * Suc i) (Suc i) st1"
    using ready_later [OF Cons.prems(1), where i' = "2 * Suc i" and j' = "Suc i"] Cons.prems(3) by simp
  from Cons.IH [OF Cons.prems(1) this] Cons.prems(3) show ?case
    unfolding read_identities.simps g prod.case by (auto split: prod.split)
qed simp

lemma ready_list:
  assumes "fresh_supply n t u" and "ready sha henc t u 0 0 st" and "2 * length (as_agents st) \<le> n"
  shows "ready sha henc t u n n (snd (list_agents sha henc t u limit after st))"
proof -
  let ?as = "zrange_above (as_agents st) after (unat (max limit 1))"
  have "length ?as \<le> length (filter (\<lambda>e. case after of None \<Rightarrow> True | Some l \<Rightarrow> l < fst e) (as_agents st))"
    by (simp add: zrange_above_def)
  also have "\<dots> \<le> length (as_agents st)" by (rule length_filter_le)
  finally have len: "length ?as \<le> length (as_agents st)" .
  with ready_read_identities [OF assms(1), of sha henc 0 st ?as] assms(2,3)
  have "ready sha henc t u (2 * length ?as) (length ?as) (snd (list_agents sha henc t u limit after st))"
    by (simp add: list_agents_def)
  from ready_later [OF assms(1) this, of n n] len assms(3) show ?thesis by simp
qed

text \<open>The operations that change the store, each with its own readings and identifiers.\<close>

inductive agent_step ::
  "(string \<Rightarrow> string) \<Rightarrow> (string \<Rightarrow> string) \<Rightarrow> (nat \<Rightarrow> timestamp) \<Rightarrow> (nat \<Rightarrow> uuid) \<Rightarrow> agent_store \<Rightarrow> agent_store \<Rightarrow> bool"
  for sha henc t u st where
  StRegister: "agent_step sha henc t u st (snd (register_agent sha henc t u a desc st))"
| StGet: "agent_step sha henc t u st (snd (get_agent_identity sha henc t u a st))"
| StList: "agent_step sha henc t u st (snd (list_agents sha henc t u limit after st))"
| StUpdate: "agent_step sha henc t u st (snd (update_agent_identity sha henc t u a core st))"
| StRollback: "agent_step sha henc t u st (snd (rollback_agent_identity sha henc t u a v reason st))"
| StDelete: "agent_step sha henc t u st (snd (delete_agent a st))"
| StExperience: "agent_step sha henc t u st (snd (add_experience_event a ereq (u 0) (t 0) st))"
| StImportance: "agent_step sha henc t u st (update_experience_event e st)"
| StBranch: "agent_step sha henc t u st (snd (create_agent_branch sha henc t u a breq st))"
| StGetBranch: "agent_step sha henc t u st (snd (get_agent_branch sha henc t u a b st))"
| StUpdateBranch: "agent_step sha henc t u st (snd (update_agent_branch sha henc t u a b core st))"
| StMerge: "agent_step sha henc t u st (snd (merge_agent_branch sha henc t u a b st))"
| StDeleteBranch: "agent_step sha henc t u st (snd (delete_agent_branch sha henc t u a b st))"
| StFork: "agent_step sha henc t u st (snd (fork_agent sha henc t u a freq st))"

lemma ready_step:
  assumes "agent_step sha henc t u st st'" and s: "fresh_supply n t u" and n: "8 + 2 * length (as_agents st) \<le> n"
    and r: "ready sha henc t u 0 0 st"
  shows "ready sha henc t u n n st'"
proof -
  have l: "ready sha henc t u n n st'" if "ready sha henc t u i j st'" "i \<le> 8" "j \<le> 8" for i j
    using that n by (intro ready_later [OF s that(1)]) simp_all
  from assms(1) show ?thesis
  proof cases
    case StList
    then show ?thesis using ready_list [OF s r] n by simp
  next
    case (StDelete a)
    then have "ready sha henc t u 0 0 st'" using r by (auto simp: delete_agent_def split: option.split)
    then show ?thesis by (rule l) simp_all
  next
    case StExperience
    then have "ready sha henc t u 0 0 st'" using r by (simp add: add_experience_event_def Let_def)
    then show ?thesis by (rule l) simp_all
  next
    case StImportance
    then have "ready sha henc t u 0 0 st'" using r by (simp add: update_experience_event_def)
    then show ?thesis by (rule l) simp_all
  next
    case StRegister
    with ready_register [OF s r] n show ?thesis by (intro l [of 1 1]) auto
  next
    case StGet
    with ready_get [OF s r] n show ?thesis by (intro l [of 1 1]) auto
  next
    case StUpdate
    with ready_update [OF s r] n show ?thesis by (intro l [of 3 2]) auto
  next
    case StRollback
    with ready_rollback [OF s r] n show ?thesis by (intro l [of 3 2]) auto
  next
    case StBranch
    with ready_create_branch [OF s r] n show ?thesis by (intro l [of 4 2]) auto
  next
    case StGetBranch
    with ready_get_branch [OF s r] n show ?thesis by (intro l [of 1 1]) auto
  next
    case StUpdateBranch
    with ready_update_branch [OF s r] n show ?thesis by (intro l [of 3 2]) auto
  next
    case StMerge
    with ready_merge_branch [OF s r] n show ?thesis by (intro l [of 8 5]) auto
  next
    case StDeleteBranch
    with ready_delete_branch [OF s r] n show ?thesis by (intro l [of 2 2]) auto
  next
    case StFork
    with ready_fork [OF s r] n show ?thesis by (intro l [of 5 4]) auto
  qed
qed

text \<open>
  The stores that operations reach while the clock does not run backwards and identifiers grow, as
  those of version 7 do within one process: \<open>lt\<close> and \<open>lu\<close> bound what was handed out.
\<close>

inductive agent_reach :: "(string \<Rightarrow> string) \<Rightarrow> (string \<Rightarrow> string) \<Rightarrow> timestamp \<Rightarrow> uuid \<Rightarrow> agent_store \<Rightarrow> bool"
  for sha henc where
  AgInit: "agent_reach sha henc lt lu agent_store_new"
| AgStep: "agent_reach sha henc lt lu st \<Longrightarrow> lt \<le> t 0 \<Longrightarrow> lu \<le> u 0 \<Longrightarrow> agent_step sha henc t u st st' \<Longrightarrow>
    fresh_supply n t u \<Longrightarrow> 8 + 2 * length (as_agents st) \<le> n \<Longrightarrow> agent_reach sha henc (t n) (u n) st'"

lemma agent_reach_inv: "agent_reach sha henc lt lu st \<Longrightarrow> audit_inv sha henc (timestamp_millis lt) lu st"
proof (induction rule: agent_reach.induct)
  case (AgStep lt lu st t u st' n)
  have "ready sha henc t u 0 0 st"
    unfolding ready_def by (rule audit_inv_mono [OF AgStep.IH millis_mono [OF AgStep.hyps(2)] AgStep.hyps(3)])
  from ready_step [OF AgStep.hyps(4-6) this] show ?case by (simp add: ready_def)
qed (rule audit_inv_new)

lemma linked_valid: "linked sha henc None es \<Longrightarrow> ac_valid (verify_audit_chain sha henc es)"
  unfolding ac_valid_iff
proof (intro allI impI)
  fix i
  assume "linked sha henc None es" and i: "chain_start_of es \<le> i \<and> i < length es"
  then have "verify_hash sha henc (es ! i)" "av_prev_hash (es ! i) = (if i = 0 then None else Some (av_event_hash (es ! (i - 1))))"
    by (simp_all add: linked_iff)
  then show "event_break sha henc es (chain_start_of es) i = None" using i by (auto simp: event_break_None_iff)
qed

lemma transfer_events_spec:
  assumes "transfer_events u a m es c st = (c', st')"
  shows "c' = max c (min m (c + length es)) \<and> as_experience st' = as_experience st \<and> as_audit st' = as_audit st \<and>
    as_agents st' = as_agents st \<and> as_experience_docs st' = as_experience_docs st"
  using assms by (induction u a m es c st rule: transfer_events.induct) (auto simp: Let_def split: if_splits)

lemma get_other [simp]:
  "b \<noteq> a \<Longrightarrow> as_audit (snd (get_agent_identity sha henc t u a st)) b = as_audit st b"
  "as_experience (snd (get_agent_identity sha henc t u a st)) = as_experience st"
  "as_experience_docs (snd (get_agent_identity sha henc t u a st)) = as_experience_docs st"
  "b \<noteq> a \<Longrightarrow> zset_ok (as_agents st) \<Longrightarrow> zscore (as_agents (snd (get_agent_identity sha henc t u a st))) b = zscore (as_agents st) b"
  by (auto simp: get_agent_identity_def Let_def append_identity_audit_def persist_identity_snapshot_def index_agent_def
      zset.score_add split: option.split)

section \<open>Properties\<close>

text \<open>C18: The audit chain of every agent verifies, in every store that the operations reach while the clock
  of the server does not run backwards and generated identifiers grow: identities created, read,
  updated, rolled back, deleted, branched, merged and forked in any order.\<close>

theorem audit_chain_verifies:
  assumes "agent_reach sha henc lt lu st"
  shows "ac_valid (verify_agent_audit_chain sha henc a st)"
  using agent_reach_inv [OF assms] linked_valid
  by (simp add: audit_inv_def chain_ok_def verify_agent_audit_chain_def)

definition tick :: "nat \<Rightarrow> timestamp" where
  "tick n = int n * 1000000"

definition uid :: "nat \<Rightarrow> uuid" where
  "uid n = of_nat n"

lemma sample_supply: "n \<le> 100 \<Longrightarrow> fresh_supply n tick uid"
  by (auto simp: fresh_supply_def tick_def uid_def word_less_nat_alt unat_of_nat)

lemma audit_chain_verifies_witness:
  "ac_valid (verify_agent_audit_chain (\<lambda>x. x) (\<lambda>x. x) ''bot''
     (snd (update_agent_identity (\<lambda>x. x) (\<lambda>x. x) tick uid ''bot'' (JObject []) agent_store_new)))"
  by (rule audit_chain_verifies, rule AgStep [OF AgInit, where t = tick and u = uid and n = 8 and lt = 0 and lu = 0],
      simp add: tick_def, simp, rule StUpdate, simp add: sample_supply, simp add: agent_store_new_def)

text \<open>The chain depends on the clock: an event appended with a time before all others of its agent sorts
  to the front of the index, and verification then reports a break although nobody tampered.\<close>

theorem clock_back_breaks_chain:
  assumes "chain_ok sha henc st a" and "as_audit st a \<noteq> []" and "\<And>x. henc x \<noteq> []"
    and "\<forall>e \<in> set (as_audit st a). timestamp_millis now < fst e" and "as_audit_docs st i = None"
  shows "\<not> ac_valid (verify_agent_audit_chain sha henc a
    (append_identity_audit sha henc a action f v rb reason i now st))" (is "\<not> ac_valid (verify_agent_audit_chain _ _ _ ?st)")
proof -
  have ne: "snd e \<noteq> i" if "e \<in> set (as_audit st a)" for e
    using assms(1,5) that by (auto simp: chain_ok_def)
  then have "zrem i (as_audit st a) = as_audit st a" by (auto simp: zrem_def filter_id_conv)
  moreover obtain e z where z: "as_audit st a = e # z" using assms(2) by (cases "as_audit st a") auto
  then have "z_insert (timestamp_millis now, i) (as_audit st a) = (timestamp_millis now, i) # as_audit st a"
    using assms(4) by (cases e) auto
  ultimately have idx: "as_audit ?st a = (timestamp_millis now, i) # as_audit st a"
    by (simp add: append_identity_audit_def Let_def zadd_def)
  obtain d where d: "as_audit_docs st (snd e) = Some d" using assms(1) z by (auto simp: chain_ok_def)
  have "audit_events a st \<noteq> []" using z d by (simp add: audit_events_def map_filter_simps)
  then have lh: "latest_hash a st \<noteq> None" by (simp add: latest_hash_last [OF assms(1)])
  obtain ev where ev: "as_audit_docs ?st i = Some ev" "av_prev_hash ev = latest_hash a st" "av_event_hash ev \<noteq> []"
    using assms(3) by (simp add: append_identity_audit_def Let_def compute_hash_def)
  have "audit_events a ?st = ev # List.map_filter (as_audit_docs ?st) (map snd (as_audit st a))"
    by (simp add: audit_events_def idx map_filter_simps ev(1))
  then show ?thesis
    unfolding verify_agent_audit_chain_def using ev(2,3) lh
    by (simp add: ac_valid_linked link_ok_def)
qed

definition sample_chain_store :: agent_store where
  "sample_chain_store = agent_store_new\<lparr>as_audit_docs := [1 \<mapsto> sample_event None ''h''],
     as_audit := (\<lambda>_. [])(''a'' := [(5, 1)])\<rparr>"

lemma clock_back_breaks_chain_witness:
  "\<not> ac_valid (verify_agent_audit_chain (\<lambda>x. x) (\<lambda>_. ''h'') ''a''
     (append_identity_audit (\<lambda>x. x) (\<lambda>_. ''h'') ''a'' AaUpdated None 2 None None 9 4000000 sample_chain_store))"
  by (rule clock_back_breaks_chain)
    (simp_all add: sample_chain_store_def agent_store_new_def chain_ok_def audit_events_def map_filter_simps link_ok_def
      verify_hash_def compute_hash_def sample_event_def timestamp_millis_def)

text \<open>An update followed by a rollback restores the identity: after any update, rolling back to the version
  before it answers a profile with the old core and the next version, stores it as the current
  one, and keeps the snapshots of both earlier versions.\<close>

theorem update_rollback_roundtrip:
  assumes "as_identity st a = Some p" and "as_version_docs st (a, ai_version p) = Some p"
  shows "\<exists>r st'. rollback_agent_identity sha henc t' u' a (ai_version p) reason
        (snd (update_agent_identity sha henc t u a core st)) = (Inr r, st') \<and>
    ai_core r = ai_core p \<and> ai_agent_id r = a \<and> ai_version r = ai_version p + 2 \<and>
    get_agent_identity_strict a st' = Inr r \<and> as_version_docs st' (a, ai_version p) = Some p \<and>
    map_option ai_core (as_version_docs st' (a, ai_version p + 1)) = Some core"
proof -
  have "ai_version p + 1 \<noteq> ai_version p" "ai_version p + 2 \<noteq> ai_version p" "ai_version p + 2 \<noteq> ai_version p + 1"
    by simp_all
  then show ?thesis
    using assms
    by (simp add: update_agent_identity_def rollback_agent_identity_def get_agent_identity_def Let_def
        persist_identity_snapshot_def append_identity_audit_def profile_apply_update_def get_agent_identity_strict_def
        add.assoc)
qed

lemma update_rollback_roundtrip_witness:
  "\<exists>r st'. rollback_agent_identity (\<lambda>x. x) (\<lambda>x. x) tick uid ''a'' 1 None
      (snd (update_agent_identity (\<lambda>x. x) (\<lambda>x. x) tick uid ''a'' (JObject [(''style'', JNull)])
        (snd (get_agent_identity (\<lambda>x. x) (\<lambda>x. x) tick uid ''a'' agent_store_new)))) = (Inr r, st') \<and>
    ai_core r = JObject [] \<and> ai_version r = 3"
  using update_rollback_roundtrip [where p = "profile_new ''a'' 0" and a = "''a''" and sha = "\<lambda>x. x" and henc = "\<lambda>x. x" and
      t = tick and u = uid and t' = tick and u' = uid and reason = None and core = "JObject [(''style'', JNull)]" and
      st = "snd (get_agent_identity (\<lambda>x. x) (\<lambda>x. x) tick uid ''a'' agent_store_new)"]
  by (auto simp: get_agent_identity_def Let_def agent_store_new_def persist_identity_snapshot_def append_identity_audit_def
      index_agent_def profile_new_def tick_def)

text \<open>Deletion does not delete the history: after an agent is deleted and created anew by a read, a rollback
  to any version of the deleted agent but the first answers and stores the core that the deleted
  agent had then.\<close>

theorem deleted_core_restored:
  assumes "as_identity st a = Some q" and "as_version_docs st (a, v) = Some p" and "v \<noteq> 1"
  shows "\<exists>r st'. rollback_agent_identity sha henc t' u' a v reason
      (snd (get_agent_identity sha henc t u a (snd (delete_agent a st)))) = (Inr r, st') \<and>
    ai_core r = ai_core p \<and> ai_version r = 2 \<and> get_agent_identity_strict a st' = Inr r"
  using assms
  by (simp add: delete_agent_def rollback_agent_identity_def get_agent_identity_def Let_def persist_identity_snapshot_def
      append_identity_audit_def index_agent_def profile_new_def get_agent_identity_strict_def)

lemma deleted_core_restored_witness:
  "\<exists>r st'. rollback_agent_identity (\<lambda>x. x) (\<lambda>x. x) tick uid ''a'' 2 None
      (snd (get_agent_identity (\<lambda>x. x) (\<lambda>x. x) tick uid ''a'' (snd (delete_agent ''a''
        (snd (update_agent_identity (\<lambda>x. x) (\<lambda>x. x) tick uid ''a'' (JObject [(''style'', JNull)]) agent_store_new)))))) =
      (Inr r, st') \<and> ai_core r = JObject [(''style'', JNull)]"
  using deleted_core_restored [where a = "''a''" and v = 2 and sha = "\<lambda>x. x" and henc = "\<lambda>x. x" and
      t = tick and u = uid and t' = tick and u' = uid and reason = None and
      st = "snd (update_agent_identity (\<lambda>x. x) (\<lambda>x. x) tick uid ''a'' (JObject [(''style'', JNull)]) agent_store_new)" and
      p = "profile_apply_update (JObject [(''style'', JNull)]) (tick 2) (profile_new ''a'' (tick 0))" and
      q = "profile_apply_update (JObject [(''style'', JNull)]) (tick 2) (profile_new ''a'' (tick 0))"]
  by (auto simp: update_agent_identity_def get_agent_identity_def Let_def agent_store_new_def persist_identity_snapshot_def
      append_identity_audit_def index_agent_def profile_new_def profile_apply_update_def)

lemma length_list_experience:
  assumes "limit \<noteq> 0"
  shows "length (list_experience_events a limit st) \<le> unat limit"
proof -
  have l: "\<not> uint limit - 1 < 0" using assms by (metis diff_ge_0_iff_ge int_one_le_iff_zero_less not_less uint_0_iff uint_ge_0 order.not_eq_order_implies_strict)
  have "length (List.map_filter f xs) \<le> length xs" for f :: "uuid \<Rightarrow> experience_event option" and xs
    by (simp add: List.map_filter_def)
  then have "length (list_experience_events a limit st) \<le> length (zrevrange (as_experience st a) (uint limit - 1))"
    unfolding list_experience_events_def .
  also have "\<dots> \<le> unat limit" using l by (simp only: zrevrange_def if_False length_take unat_eq_nat_uint diff_add_cancel min.cobounded2)
  finally show ?thesis .
qed

lemma matches_default: "filter_matches experience_filter_default e"
  by (simp add: filter_matches_def experience_filter_default_def)

text \<open>A fork loses what it transfers: \<^verbatim>\<open>fork_agent\<close> writes the copied experience and the first audit
  event under keys that no reader uses and does not enter the new agent in the registry; the
  result counts the transferred events, but the new agent lists no experience and no audit event,
  and its registration is as before.\<close>

theorem fork_transfers_nothing_readable:
  assumes "fork_agent sha henc t u src req st = (Inr res, st')" and "far_new_agent_id req = new" and "src \<noteq> new"
    and "as_experience st new = []" and "as_audit st new = []" and "zset_ok (as_agents st)"
  shows "list_experience_events new limit st' = [] \<and> list_agent_identity_audit new limit st' = [] \<and>
    zscore (as_agents st') new = zscore (as_agents st) new \<and>
    (far_experience_filter req = None \<longrightarrow>
      unat (fl_experience_events_transferred (fr_lineage res)) = length (list_experience_events src 10000 st))"
proof -
  obtain p st1 where g: "get_agent_identity sha henc t u src st = (p, st1)" by fastforce
  have st1: "as_audit st1 new = []" "as_experience st1 = as_experience st" "as_experience_docs st1 = as_experience_docs st"
      "zscore (as_agents st1) new = zscore (as_agents st) new"
    using get_other(1) [of new src sha henc t u st] get_other(2,3) [of sha henc t u src st]
      get_other(4) [of new src st sha henc t u] assms(3,5,6) g by auto
  define identity where "identity = \<lparr>ai_agent_id = new, ai_version = 1,
    ai_core = (case far_core_override req of Some c \<Rightarrow> c | None \<Rightarrow> ai_core p), ai_updated_at = t 2\<rparr>"
  define st2 where "st2 = persist_identity_snapshot new identity (st1\<lparr>as_identity := (as_identity st1)(new \<mapsto> identity)\<rparr>)"
  define flt where "flt = (case far_experience_filter req of Some f \<Rightarrow> f | None \<Rightarrow> experience_filter_default)"
  define m where "m = unat (case ef_max_events flt of Some m \<Rightarrow> m | None \<Rightarrow> - 1)"
  let ?es = "filter (filter_matches flt) (list_experience_events src 10000 st2)"
  obtain count st3 where tr: "transfer_events (\<lambda>n. u (4 + n)) new m ?es 0 st2 = (count, st3)" by fastforce
  have st2: "as_audit st2 = as_audit st1" "as_experience st2 = as_experience st1" "as_agents st2 = as_agents st1"
      "as_experience_docs st2 = as_experience_docs st1"
    by (simp_all add: st2_def persist_identity_snapshot_def)
  note st3 = transfer_events_spec [OF tr]
  have fork: "fork_agent sha henc t u src req st = (Inr res, st') \<Longrightarrow>
      as_audit st' new = as_audit st3 new \<and> as_experience st' = as_experience st3 \<and> as_agents st' = as_agents st3 \<and>
      fl_experience_events_transferred (fr_lineage res) = of_nat count"
    using assms(2,3)
    by (auto simp: fork_agent_def Let_def g identity_def [symmetric] st2_def [symmetric] flt_def [symmetric]
        m_def [symmetric] tr append_identity_audit_def split: sum.splits option.splits)
  have len: "length (list_experience_events src 10000 st) \<le> 10000"
    using length_list_experience [of 10000 src st] by simp
  have cnt: "count = length (list_experience_events src 10000 st)" if "far_experience_filter req = None"
  proof -
    have "?es = list_experience_events src 10000 st"
      using that by (simp add: flt_def matches_default list_experience_events_def st1 st2)
    moreover have "m = 2 ^ 32 - 1"
      using that by (simp add: m_def flt_def experience_filter_default_def unsigned_minus_1_eq_mask mask_eq_exp_minus_1)
    ultimately show ?thesis using st3 len by simp
  qed
  then have "unat (of_nat count :: u32) = count" if "far_experience_filter req = None"
    using len that by (simp add: unat_of_nat)
  then show ?thesis
    using fork [OF assms(1)] st1 st2 st3 assms(4) cnt
    by (auto simp: list_experience_events_def list_agent_identity_audit_def zrevrange_def znewest_def map_filter_simps)
qed

definition sample_experience :: create_experience_request where
  "sample_experience = \<lparr>cer_id = Some 50, cer_user_id = None, cer_session_id = None, cer_category = ''tone'',
     cer_signal = ''formal'', cer_confidence = Fin 1, cer_weight = Fin 1, cer_decay_half_life_days = 30,
     cer_evidence_episode_ids = [], cer_created_at = Some 0\<rparr>"

definition sample_fork :: fork_agent_request where
  "sample_fork = \<lparr>far_new_agent_id = ''b'', far_core_override = None, far_experience_filter = None, far_description = None\<rparr>"

lemma fork_transfers_nothing_readable_witness:
  "\<exists>res st'. fork_agent (\<lambda>x. x) (\<lambda>x. x) tick uid ''a'' sample_fork
      (snd (add_experience_event ''a'' sample_experience 1 0 agent_store_new)) = (Inr res, st') \<and>
    list_experience_events ''b'' 10 st' = [] \<and> fl_experience_events_transferred (fr_lineage res) = 1"
proof -
  let ?st = "snd (add_experience_event ''a'' sample_experience 1 0 agent_store_new)"
  have v: "validate_fork_agent_id ''b'' = Inr ()" by code_simp
  have "as_identity ?st ''b'' = None" by (simp add: add_experience_event_def Let_def agent_store_new_def)
  with v obtain res st' where f: "fork_agent (\<lambda>x. x) (\<lambda>x. x) tick uid ''a'' sample_fork ?st = (Inr res, st')"
    by (fastforce simp: fork_agent_def Let_def sample_fork_def split: prod.split)
  have "length (list_experience_events ''a'' 10000 ?st) = 1"
    by (simp add: list_experience_events_def zrevrange_def znewest_def add_experience_event_def Let_def agent_store_new_def
        zadd_def zrem_def experience_from_request_def sample_experience_def map_filter_simps)
  then have "unat (fl_experience_events_transferred (fr_lineage res)) = unat (1 :: u32)" "list_experience_events ''b'' 10 st' = []"
    using fork_transfers_nothing_readable [OF f, of "''b''" 10]
    by (simp_all add: sample_fork_def add_experience_event_def Let_def agent_store_new_def)
  with f show ?thesis by (metis word_unat_eq_iff)
qed

end
