(* ===== verification/Agent_Api.thy ===== *)
theory Agent_Api
  imports Agents
begin

text \<open>
  The identity, branch and fork handlers of \<^verbatim>\<open>mnemo-server/src/routes.rs\<close>: the checks of role,
  agent identifier and identity core in front of the agent store. Status codes, metrics and the
  importance of experience events (floats) are left out; cursors are numbers.
\<close>

definition normalize_agent_id :: "string \<Rightarrow> mnemo_error + string" where
  "normalize_agent_id agent_id =
     (let trimmed = trim agent_id in
      if trimmed = [] then Inl (Validation ''agent_id is required'') else Inr trimmed)"

record register_agent_request =
  rar_agent_id :: string
  rar_description :: "string option"

definition register_agent_handler ::
  "(string \<Rightarrow> string) \<Rightarrow> (string \<Rightarrow> string) \<Rightarrow> (nat \<Rightarrow> timestamp) \<Rightarrow> (nat \<Rightarrow> uuid) \<Rightarrow> register_agent_request \<Rightarrow> agent_store \<Rightarrow>
   (mnemo_error + agent_identity_profile) \<times> agent_store" where
  "register_agent_handler sha henc t u req st =
     (case normalize_agent_id (rar_agent_id req) of Inl e \<Rightarrow> (Inl e, st) | Inr a \<Rightarrow>
      case register_agent sha henc t u a (rar_description req) st of ((_, p), st') \<Rightarrow> (Inr p, st'))"

text \<open>The page and the cursor to the next one, present when the page is full.\<close>

definition list_agents_handler ::
  "(string \<Rightarrow> string) \<Rightarrow> (string \<Rightarrow> string) \<Rightarrow> (nat \<Rightarrow> timestamp) \<Rightarrow> (nat \<Rightarrow> uuid) \<Rightarrow> u32 \<Rightarrow> int option \<Rightarrow> agent_store \<Rightarrow>
   (agent_identity_profile list \<times> int option) \<times> agent_store" where
  "list_agents_handler sha henc t u limit0 after st =
     (let limit = min limit0 500 in
      case list_agents sha henc t u limit after st of (agents, st') \<Rightarrow>
        ((agents,
          if length agents = unat limit then
            (if agents = [] then None else Some (timestamp_millis (ai_updated_at (last agents))))
          else None), st'))"

definition get_agent_handler :: "string \<Rightarrow> agent_store \<Rightarrow> mnemo_error + agent_identity_profile" where
  "get_agent_handler agent_id st =
     (case normalize_agent_id agent_id of Inl e \<Rightarrow> Inl e | Inr a \<Rightarrow> get_agent_identity_strict a st)"

definition delete_agent_handler :: "caller_context option \<Rightarrow> string \<Rightarrow> agent_store \<Rightarrow> (mnemo_error + unit) \<times> agent_store" where
  "delete_agent_handler ext agent_id st =
     (case require_role (caller_from_extension ext) RoleAdmin of Inl e \<Rightarrow> (Inl e, st) | Inr _ \<Rightarrow>
      case normalize_agent_id agent_id of Inl e \<Rightarrow> (Inl e, st) | Inr a \<Rightarrow> delete_agent a st)"

definition get_agent_identity_handler ::
  "(string \<Rightarrow> string) \<Rightarrow> (string \<Rightarrow> string) \<Rightarrow> (nat \<Rightarrow> timestamp) \<Rightarrow> (nat \<Rightarrow> uuid) \<Rightarrow> string \<Rightarrow> agent_store \<Rightarrow>
   (mnemo_error + agent_identity_profile) \<times> agent_store" where
  "get_agent_identity_handler sha henc t u agent_id st =
     (case normalize_agent_id agent_id of Inl e \<Rightarrow> (Inl e, st) | Inr a \<Rightarrow>
      case get_agent_identity sha henc t u a st of (p, st') \<Rightarrow> (Inr p, st'))"

definition update_agent_identity_handler ::
  "(string \<Rightarrow> string) \<Rightarrow> (string \<Rightarrow> string) \<Rightarrow> (nat \<Rightarrow> timestamp) \<Rightarrow> (nat \<Rightarrow> uuid) \<Rightarrow> caller_context option \<Rightarrow> string \<Rightarrow> json \<Rightarrow>
   agent_store \<Rightarrow> (mnemo_error + agent_identity_profile) \<times> agent_store" where
  "update_agent_identity_handler sha henc t u ext agent_id core st =
     (case require_role (caller_from_extension ext) RoleWrite of Inl e \<Rightarrow> (Inl e, st) | Inr _ \<Rightarrow>
      case normalize_agent_id agent_id of Inl e \<Rightarrow> (Inl e, st) | Inr a \<Rightarrow>
      case validate_identity_core core of Inl e \<Rightarrow> (Inl e, st) | Inr _ \<Rightarrow>
      case update_agent_identity sha henc t u a core st of (p, st') \<Rightarrow> (Inr p, st'))"

definition clamp_limit :: "u32 option \<Rightarrow> u32 \<Rightarrow> u32 \<Rightarrow> u32" where
  "clamp_limit limit dflt hi =
     (let l = (case limit of Some l \<Rightarrow> l | None \<Rightarrow> dflt) in if l < 1 then 1 else if hi < l then hi else l)"

definition list_versions_handler :: "string \<Rightarrow> u32 option \<Rightarrow> agent_store \<Rightarrow> mnemo_error + agent_identity_profile list" where
  "list_versions_handler agent_id limit st =
     (case normalize_agent_id agent_id of Inl e \<Rightarrow> Inl e | Inr a \<Rightarrow>
      Inr (list_agent_identity_versions a (clamp_limit limit 20 200) st))"

definition list_audit_handler :: "string \<Rightarrow> u32 option \<Rightarrow> agent_store \<Rightarrow> mnemo_error + agent_audit_event list" where
  "list_audit_handler agent_id limit st =
     (case normalize_agent_id agent_id of Inl e \<Rightarrow> Inl e | Inr a \<Rightarrow>
      Inr (list_agent_identity_audit a (clamp_limit limit 50 500) st))"

definition verify_audit_handler ::
  "(string \<Rightarrow> string) \<Rightarrow> (string \<Rightarrow> string) \<Rightarrow> string \<Rightarrow> agent_store \<Rightarrow> mnemo_error + audit_chain_verification" where
  "verify_audit_handler sha henc agent_id st =
     (case normalize_agent_id agent_id of Inl e \<Rightarrow> Inl e | Inr a \<Rightarrow> Inr (verify_agent_audit_chain sha henc a st))"

definition rollback_agent_identity_handler ::
  "(string \<Rightarrow> string) \<Rightarrow> (string \<Rightarrow> string) \<Rightarrow> (nat \<Rightarrow> timestamp) \<Rightarrow> (nat \<Rightarrow> uuid) \<Rightarrow> caller_context option \<Rightarrow> string \<Rightarrow> u64 \<Rightarrow>
   string option \<Rightarrow> agent_store \<Rightarrow> (mnemo_error + agent_identity_profile) \<times> agent_store" where
  "rollback_agent_identity_handler sha henc t u ext agent_id target_version reason st =
     (case require_role (caller_from_extension ext) RoleAdmin of Inl e \<Rightarrow> (Inl e, st) | Inr _ \<Rightarrow>
      case normalize_agent_id agent_id of Inl e \<Rightarrow> (Inl e, st) | Inr a \<Rightarrow>
      if target_version = 0 then (Inl (Validation ''target_version must be >= 1''), st)
      else rollback_agent_identity sha henc t u a target_version reason st)"

fun join_failed :: "key_verification_result list \<Rightarrow> string" where
  "join_failed [] = []"
| "join_failed [r] = kv_key r @ '': '' @ (case kv_error r of Some e \<Rightarrow> e | None \<Rightarrow> ''unknown'')"
| "join_failed (r # rs) = kv_key r @ '': '' @ (case kv_error r of Some e \<Rightarrow> e | None \<Rightarrow> ''unknown'') @ ''; '' @ join_failed rs"

definition verified_identity_update ::
  "(string \<Rightarrow> string) \<Rightarrow> (string \<Rightarrow> string) \<Rightarrow> (string \<Rightarrow> string option) \<Rightarrow> (nat \<Rightarrow> timestamp) \<Rightarrow> (nat \<Rightarrow> uuid) \<Rightarrow>
   caller_context option \<Rightarrow> string \<Rightarrow> json \<Rightarrow> identity_update_proof \<Rightarrow> agent_store \<Rightarrow>
   (mnemo_error + agent_identity_profile \<times> proof_verification_result) \<times> agent_store" where
  "verified_identity_update sha henc hdec t u ext agent_id core p st =
     (case require_role (caller_from_extension ext) RoleWrite of Inl e \<Rightarrow> (Inl e, st) | Inr _ \<Rightarrow>
      case normalize_agent_id agent_id of Inl e \<Rightarrow> (Inl e, st) | Inr a \<Rightarrow>
      let verification = verify_identity_update_proof sha henc hdec core p in
      if \<not> pv_verified verification then
        (Inl (Validation (''proof verification failed: '' @
           join_failed (filter (\<lambda>r. \<not> kv_valid r) (pv_key_results verification)))), st)
      else case update_agent_identity sha henc t u a core st of (identity, st') \<Rightarrow> (Inr (identity, verification), st'))"

definition create_agent_branch_handler ::
  "(string \<Rightarrow> string) \<Rightarrow> (string \<Rightarrow> string) \<Rightarrow> (nat \<Rightarrow> timestamp) \<Rightarrow> (nat \<Rightarrow> uuid) \<Rightarrow> caller_context option \<Rightarrow> string \<Rightarrow>
   create_branch_request \<Rightarrow> agent_store \<Rightarrow> (mnemo_error + branch_info) \<times> agent_store" where
  "create_agent_branch_handler sha henc t u ext agent_id req st =
     (case require_role (caller_from_extension ext) RoleAdmin of Inl e \<Rightarrow> (Inl e, st) | Inr _ \<Rightarrow>
      case normalize_agent_id agent_id of Inl e \<Rightarrow> (Inl e, st) | Inr a \<Rightarrow> create_agent_branch sha henc t u a req st)"

definition fork_agent_handler ::
  "(string \<Rightarrow> string) \<Rightarrow> (string \<Rightarrow> string) \<Rightarrow> (nat \<Rightarrow> timestamp) \<Rightarrow> (nat \<Rightarrow> uuid) \<Rightarrow> caller_context option \<Rightarrow> string \<Rightarrow>
   fork_agent_request \<Rightarrow> agent_store \<Rightarrow> (mnemo_error + fork_result) \<times> agent_store" where
  "fork_agent_handler sha henc t u ext agent_id req st =
     (case require_role (caller_from_extension ext) RoleAdmin of Inl e \<Rightarrow> (Inl e, st) | Inr _ \<Rightarrow>
      case normalize_agent_id agent_id of Inl e \<Rightarrow> (Inl e, st) | Inr a \<Rightarrow> fork_agent sha henc t u a req st)"

definition list_agent_branches_handler :: "string \<Rightarrow> agent_store \<Rightarrow> mnemo_error + branch_metadata list" where
  "list_agent_branches_handler agent_id st =
     (case normalize_agent_id agent_id of Inl e \<Rightarrow> Inl e | Inr a \<Rightarrow> Inr (list_agent_branches a st))"

definition get_agent_branch_handler ::
  "(string \<Rightarrow> string) \<Rightarrow> (string \<Rightarrow> string) \<Rightarrow> (nat \<Rightarrow> timestamp) \<Rightarrow> (nat \<Rightarrow> uuid) \<Rightarrow> string \<Rightarrow> string \<Rightarrow> agent_store \<Rightarrow>
   (mnemo_error + branch_info) \<times> agent_store" where
  "get_agent_branch_handler sha henc t u agent_id branch_name st =
     (case normalize_agent_id agent_id of Inl e \<Rightarrow> (Inl e, st) | Inr a \<Rightarrow> get_agent_branch sha henc t u a branch_name st)"

definition update_agent_branch_handler ::
  "(string \<Rightarrow> string) \<Rightarrow> (string \<Rightarrow> string) \<Rightarrow> (nat \<Rightarrow> timestamp) \<Rightarrow> (nat \<Rightarrow> uuid) \<Rightarrow> caller_context option \<Rightarrow> string \<Rightarrow> string \<Rightarrow>
   json \<Rightarrow> agent_store \<Rightarrow> (mnemo_error + agent_identity_profile) \<times> agent_store" where
  "update_agent_branch_handler sha henc t u ext agent_id branch_name core st =
     (case require_role (caller_from_extension ext) RoleWrite of Inl e \<Rightarrow> (Inl e, st) | Inr _ \<Rightarrow>
      case normalize_agent_id agent_id of Inl e \<Rightarrow> (Inl e, st) | Inr a \<Rightarrow>
      update_agent_branch sha henc t u a branch_name core st)"

definition merge_agent_branch_handler ::
  "(string \<Rightarrow> string) \<Rightarrow> (string \<Rightarrow> string) \<Rightarrow> (nat \<Rightarrow> timestamp) \<Rightarrow> (nat \<Rightarrow> uuid) \<Rightarrow> caller_context option \<Rightarrow> string \<Rightarrow> string \<Rightarrow>
   agent_store \<Rightarrow> (mnemo_error + merge_result) \<times> agent_store" where
  "merge_agent_branch_handler sha henc t u ext agent_id branch_name st =
     (case require_role (caller_from_extension ext) RoleAdmin of Inl e \<Rightarrow> (Inl e, st) | Inr _ \<Rightarrow>
      case normalize_agent_id agent_id of Inl e \<Rightarrow> (Inl e, st) | Inr a \<Rightarrow> merge_agent_branch sha henc t u a branch_name st)"

definition delete_agent_branch_handler ::
  "(string \<Rightarrow> string) \<Rightarrow> (string \<Rightarrow> string) \<Rightarrow> (nat \<Rightarrow> timestamp) \<Rightarrow> (nat \<Rightarrow> uuid) \<Rightarrow> caller_context option \<Rightarrow> string \<Rightarrow> string \<Rightarrow>
   agent_store \<Rightarrow> (mnemo_error + unit) \<times> agent_store" where
  "delete_agent_branch_handler sha henc t u ext agent_id branch_name st =
     (case require_role (caller_from_extension ext) RoleAdmin of Inl e \<Rightarrow> (Inl e, st) | Inr _ \<Rightarrow>
      case normalize_agent_id agent_id of Inl e \<Rightarrow> (Inl e, st) | Inr a \<Rightarrow> delete_agent_branch sha henc t u a branch_name st)"

end
