(* ===== verification/Promotions.thy ===== *)
theory Promotions
  imports Agent_Api
begin

text \<open>
  Promotion proposals: the approval gate in front of an agent's identity. Proposals and approval
  policies of \<^verbatim>\<open>mnemo-core/src/models/agent.rs\<close>, their store in
  \<^verbatim>\<open>mnemo-storage/src/redis_store.rs\<close> and their handlers in \<^verbatim>\<open>mnemo-server/src/routes.rs\<close>.
  \<open>max_utc\<close> is the greatest \<^verbatim>\<open>DateTime<Utc>\<close>, beyond which the addition of \<^verbatim>\<open>chrono\<close> panics
  (\<open>None\<close>). Governance audit entries, metrics and the conflict analysis (a score in floats) are
  left out.
\<close>

section \<open>Proposals and policies\<close>

datatype promotion_status = PsPending | PsApproved | PsRejected | PsExpired

record promotion_proposal =
  pp_id :: uuid
  pp_agent_id :: string
  pp_proposal :: string
  pp_candidate_core :: json
  pp_reason :: string
  pp_risk_level :: string
  pp_status :: promotion_status
  pp_source_event_ids :: "uuid list"
  pp_approvers :: "string list"
  pp_approved_at :: "timestamp option"
  pp_rejected_at :: "timestamp option"
  pp_expired_at :: "timestamp option"
  pp_created_at :: timestamp

record create_promotion_request =
  cpr_id :: "uuid option"
  cpr_proposal :: string
  cpr_candidate_core :: json
  cpr_reason :: string
  cpr_risk_level :: string
  cpr_source_event_ids :: "uuid list"

definition proposal_from_request :: "string \<Rightarrow> create_promotion_request \<Rightarrow> uuid \<Rightarrow> timestamp \<Rightarrow> promotion_proposal" where
  "proposal_from_request agent_id req new_id now =
     \<lparr>pp_id = (case cpr_id req of Some i \<Rightarrow> i | None \<Rightarrow> new_id), pp_agent_id = agent_id,
      pp_proposal = cpr_proposal req, pp_candidate_core = cpr_candidate_core req, pp_reason = cpr_reason req,
      pp_risk_level = cpr_risk_level req, pp_status = PsPending, pp_source_event_ids = cpr_source_event_ids req,
      pp_approvers = [], pp_approved_at = None, pp_rejected_at = None, pp_expired_at = None, pp_created_at = now\<rparr>"

record approval_requirement =
  ar_min_approvers :: u32
  ar_cooling_period_hours :: "u32 option"
  ar_auto_reject_after_hours :: "u32 option"

definition requirement_default :: approval_requirement where
  "requirement_default = \<lparr>ar_min_approvers = 1, ar_cooling_period_hours = None, ar_auto_reject_after_hours = None\<rparr>"

record approval_policy =
  ap_agent_id :: string
  ap_low_risk :: approval_requirement
  ap_medium_risk :: approval_requirement
  ap_high_risk :: approval_requirement
  ap_updated_at :: timestamp

definition default_for_agent :: "string \<Rightarrow> timestamp \<Rightarrow> approval_policy" where
  "default_for_agent agent_id now =
     \<lparr>ap_agent_id = agent_id, ap_low_risk = requirement_default, ap_medium_risk = requirement_default,
      ap_high_risk = requirement_default, ap_updated_at = now\<rparr>"

definition requirement_for_risk :: "approval_policy \<Rightarrow> string \<Rightarrow> approval_requirement" where
  "requirement_for_risk p risk_level =
     (let r = lowercase risk_level in
      if r = ''low'' then ap_low_risk p else if r = ''high'' then ap_high_risk p else ap_medium_risk p)"

definition deadline :: "timestamp \<Rightarrow> timestamp \<Rightarrow> u32 \<Rightarrow> timestamp option" where
  "deadline max_utc created_at hours =
     (let d = created_at + uint hours * ns_per_hour in if d > max_utc then None else Some d)"

definition is_expired :: "timestamp \<Rightarrow> timestamp \<Rightarrow> promotion_proposal \<Rightarrow> approval_policy \<Rightarrow> bool option" where
  "is_expired max_utc now p policy =
     (if pp_status p \<noteq> PsPending then Some False
      else case ar_auto_reject_after_hours (requirement_for_risk policy (pp_risk_level p)) of
        None \<Rightarrow> Some False
      | Some hours \<Rightarrow> map_option (\<lambda>d. now \<ge> d) (deadline max_utc (pp_created_at p) hours))"

definition cooling_period_elapsed :: "timestamp \<Rightarrow> timestamp \<Rightarrow> promotion_proposal \<Rightarrow> approval_policy \<Rightarrow> bool option" where
  "cooling_period_elapsed max_utc now p policy =
     (case ar_cooling_period_hours (requirement_for_risk policy (pp_risk_level p)) of
        None \<Rightarrow> Some True
      | Some hours \<Rightarrow> map_option (\<lambda>d. now \<ge> d) (deadline max_utc (pp_created_at p) hours))"

definition has_quorum :: "promotion_proposal \<Rightarrow> approval_policy \<Rightarrow> bool" where
  "has_quorum p policy \<longleftrightarrow>
     length (pp_approvers p) \<ge> unat (ar_min_approvers (requirement_for_risk policy (pp_risk_level p)))"

section \<open>The store\<close>

text \<open>
  \<^verbatim>\<open>promotion_proposal:{id}\<close>, \<^verbatim>\<open>agent_promotion_proposals:{agent}\<close> and \<^verbatim>\<open>approval_policy:{agent}\<close>,
  beside the agent store.
\<close>

record promotion_store =
  ps_agents :: agent_store
  ps_proposals :: "uuid \<rightharpoonup> promotion_proposal"
  ps_index :: "string \<Rightarrow> uuid zset"
  ps_policies :: "string \<rightharpoonup> approval_policy"

definition store_promotion_proposal ::
  "string \<Rightarrow> create_promotion_request \<Rightarrow> uuid \<Rightarrow> timestamp \<Rightarrow> promotion_store \<Rightarrow> promotion_proposal \<times> promotion_store" where
  "store_promotion_proposal agent_id req new_id now st =
     (let p = proposal_from_request agent_id req new_id now
      in (p, st\<lparr>ps_proposals := (ps_proposals st)(pp_id p \<mapsto> p),
                ps_index := (ps_index st)(agent_id :=
                  zadd (timestamp_millis (pp_created_at p)) (pp_id p) (ps_index st agent_id))\<rparr>))"

definition list_promotion_proposals :: "string \<Rightarrow> u32 \<Rightarrow> promotion_store \<Rightarrow> promotion_proposal list" where
  "list_promotion_proposals agent_id limit st =
     List.map_filter (ps_proposals st) (zrevrange (ps_index st agent_id) (uint limit - 1))"

definition get_promotion_proposal ::
  "(uuid \<Rightarrow> string) \<Rightarrow> string \<Rightarrow> uuid \<Rightarrow> promotion_store \<Rightarrow> mnemo_error + promotion_proposal" where
  "get_promotion_proposal show_uuid agent_id i st =
     (case ps_proposals st i of
        None \<Rightarrow> Inl (NotFound ''PromotionProposal'' (show_uuid i))
      | Some p \<Rightarrow> if pp_agent_id p \<noteq> agent_id then Inl (NotFound ''PromotionProposal'' (show_uuid i)) else Inr p)"

definition update_promotion_proposal :: "promotion_proposal \<Rightarrow> promotion_store \<Rightarrow> promotion_store" where
  "update_promotion_proposal p st = st\<lparr>ps_proposals := (ps_proposals st)(pp_id p \<mapsto> p)\<rparr>"

definition save_approval_policy :: "approval_policy \<Rightarrow> promotion_store \<Rightarrow> promotion_store" where
  "save_approval_policy p st = st\<lparr>ps_policies := (ps_policies st)(ap_agent_id p \<mapsto> p)\<rparr>"

definition get_approval_policy :: "string \<Rightarrow> promotion_store \<Rightarrow> approval_policy option" where
  "get_approval_policy agent_id st = ps_policies st agent_id"

section \<open>The handlers\<close>

definition create_promotion_proposal ::
  "(uuid \<Rightarrow> string) \<Rightarrow> string \<Rightarrow> create_promotion_request \<Rightarrow> uuid \<Rightarrow> timestamp \<Rightarrow> promotion_store \<Rightarrow>
   (mnemo_error + promotion_proposal) \<times> promotion_store" where
  "create_promotion_proposal show_uuid agent_id req new_id now st =
     (case normalize_agent_id agent_id of Inl e \<Rightarrow> (Inl e, st) | Inr a \<Rightarrow>
      if trim (cpr_proposal req) = [] then (Inl (Validation ''proposal is required''), st)
      else if trim (cpr_reason req) = [] then (Inl (Validation ''reason is required''), st)
      else case validate_identity_core (cpr_candidate_core req) of Inl e \<Rightarrow> (Inl e, st) | Inr _ \<Rightarrow>
      if length (cpr_source_event_ids req) < 3 then
        (Inl (Validation ''promotion requires at least 3 source_event_ids''), st)
      else case List.find (\<lambda>i. get_experience_event i (ps_agents st) = None) (cpr_source_event_ids req) of
        Some event_id \<Rightarrow> (Inl (Validation (''source_event_id '' @ show_uuid event_id @
            '' does not reference an existing experience event'')), st)
      | None \<Rightarrow> (case store_promotion_proposal a req new_id now st of (p, st') \<Rightarrow> (Inr p, st')))"

definition list_promotion_proposals_handler ::
  "string \<Rightarrow> u32 option \<Rightarrow> promotion_store \<Rightarrow> mnemo_error + promotion_proposal list" where
  "list_promotion_proposals_handler agent_id limit st =
     (case normalize_agent_id agent_id of Inl e \<Rightarrow> Inl e | Inr a \<Rightarrow>
      Inr (list_promotion_proposals a (clamp_limit limit 50 500) st))"

definition not_pending :: mnemo_error where
  "not_pending = Validation ''proposal is not pending''"

text \<open>The approving caller added to the approvers.\<close>

definition with_approver :: "string \<Rightarrow> promotion_proposal \<Rightarrow> promotion_proposal" where
  "with_approver name p = (if List.member (pp_approvers p) name then p else p\<lparr>pp_approvers := pp_approvers p @ [name]\<rparr>)"

definition policy_of :: "string \<Rightarrow> timestamp \<Rightarrow> promotion_store \<Rightarrow> approval_policy" where
  "policy_of a now st = (case get_approval_policy a st of Some pol \<Rightarrow> pol | None \<Rightarrow> default_for_agent a now)"

text \<open>From the quorum on: record a partial approval, or apply the candidate core.\<close>

definition apply_approval ::
  "(string \<Rightarrow> string) \<Rightarrow> (string \<Rightarrow> string) \<Rightarrow> (nat \<Rightarrow> timestamp) \<Rightarrow> (nat \<Rightarrow> uuid) \<Rightarrow> string \<Rightarrow> approval_policy \<Rightarrow>
   promotion_proposal \<Rightarrow> promotion_store \<Rightarrow> (mnemo_error + promotion_proposal) \<times> promotion_store" where
  "apply_approval sha henc t u a policy p st =
     (if \<not> has_quorum p policy then (Inr p, update_promotion_proposal p st)
      else case validate_identity_core (pp_candidate_core p) of Inl e \<Rightarrow> (Inl e, st) | Inr _ \<Rightarrow>
        case update_agent_identity sha henc t u a (pp_candidate_core p) (ps_agents st) of (identity, ag) \<Rightarrow>
        let p' = p\<lparr>pp_status := PsApproved, pp_approved_at := Some (t 4)\<rparr>
        in (Inr p', update_promotion_proposal p' (st\<lparr>ps_agents := ag\<rparr>)))"

definition approve_promotion_proposal ::
  "(string \<Rightarrow> string) \<Rightarrow> (string \<Rightarrow> string) \<Rightarrow> (uuid \<Rightarrow> string) \<Rightarrow> timestamp \<Rightarrow> (nat \<Rightarrow> timestamp) \<Rightarrow> (nat \<Rightarrow> uuid) \<Rightarrow>
   caller_context option \<Rightarrow> string \<Rightarrow> uuid \<Rightarrow> promotion_store \<Rightarrow>
   ((mnemo_error + promotion_proposal) \<times> promotion_store) option" where
  "approve_promotion_proposal sha henc show_uuid max_utc t u ext agent_id proposal_id st =
     (case normalize_agent_id agent_id of Inl e \<Rightarrow> Some (Inl e, st) | Inr a \<Rightarrow>
      case get_promotion_proposal show_uuid a proposal_id st of Inl e \<Rightarrow> Some (Inl e, st) | Inr p \<Rightarrow>
      if pp_status p \<noteq> PsPending then Some (Inl not_pending, st)
      else
        case is_expired max_utc (t 1) p (policy_of a (t 0) st) of
          None \<Rightarrow> None
        | Some True \<Rightarrow>
            Some (Inl (Validation ''proposal has expired''),
              update_promotion_proposal (p\<lparr>pp_status := PsExpired, pp_expired_at := Some (t 2)\<rparr>) st)
        | Some False \<Rightarrow>
          case cooling_period_elapsed max_utc (t 3) p (policy_of a (t 0) st) of
            None \<Rightarrow> None
          | Some False \<Rightarrow> Some (Inl (Validation ''cooling period has not elapsed''), st)
          | Some True \<Rightarrow>
              Some (apply_approval sha henc (\<lambda>n. t (4 + n)) u a (policy_of a (t 0) st)
                (with_approver (key_name (caller_from_extension ext)) p) st))"

definition reject_promotion_proposal ::
  "(uuid \<Rightarrow> string) \<Rightarrow> string \<Rightarrow> uuid \<Rightarrow> string option \<Rightarrow> timestamp \<Rightarrow> promotion_store \<Rightarrow>
   (mnemo_error + promotion_proposal) \<times> promotion_store" where
  "reject_promotion_proposal show_uuid agent_id proposal_id reason now st =
     (case normalize_agent_id agent_id of Inl e \<Rightarrow> (Inl e, st) | Inr a \<Rightarrow>
      case get_promotion_proposal show_uuid a proposal_id st of Inl e \<Rightarrow> (Inl e, st) | Inr p \<Rightarrow>
      if pp_status p \<noteq> PsPending then (Inl not_pending, st)
      else
        let p1 = p\<lparr>pp_status := PsRejected, pp_rejected_at := Some now\<rparr>;
            p2 = (case reason of
                Some r \<Rightarrow> if trim r \<noteq> [] then p1\<lparr>pp_reason := pp_reason p1 @ '' | rejection_reason='' @ trim r\<rparr> else p1
              | None \<Rightarrow> p1)
        in (Inr p2, update_promotion_proposal p2 st))"

record set_approval_policy_request =
  sap_low_risk :: approval_requirement
  sap_medium_risk :: approval_requirement
  sap_high_risk :: approval_requirement

definition set_agent_approval_policy ::
  "caller_context option \<Rightarrow> string \<Rightarrow> set_approval_policy_request \<Rightarrow> timestamp \<Rightarrow> promotion_store \<Rightarrow>
   (mnemo_error + approval_policy) \<times> promotion_store" where
  "set_agent_approval_policy ext agent_id req now st =
     (case normalize_agent_id agent_id of Inl e \<Rightarrow> (Inl e, st) | Inr a \<Rightarrow>
      case require_role (caller_from_extension ext) RoleAdmin of Inl e \<Rightarrow> (Inl e, st) | Inr _ \<Rightarrow>
      let policy = \<lparr>ap_agent_id = a, ap_low_risk = sap_low_risk req, ap_medium_risk = sap_medium_risk req,
            ap_high_risk = sap_high_risk req, ap_updated_at = now\<rparr>
      in (Inr policy, save_approval_policy policy st))"

definition get_agent_approval_policy :: "string \<Rightarrow> timestamp \<Rightarrow> promotion_store \<Rightarrow> mnemo_error + approval_policy" where
  "get_agent_approval_policy agent_id now st =
     (case normalize_agent_id agent_id of Inl e \<Rightarrow> Inl e | Inr a \<Rightarrow>
      Inr (case get_approval_policy a st of Some p \<Rightarrow> p | None \<Rightarrow> default_for_agent a now))"

section \<open>The invariant of the proposals\<close>

definition proposals_ok :: "promotion_store \<Rightarrow> bool" where
  "proposals_ok st \<longleftrightarrow> (\<forall>i p. ps_proposals st i = Some p \<longrightarrow> pp_id p = i \<and> distinct (pp_approvers p))"

lemma proposals_ok_update:
  "proposals_ok st \<Longrightarrow> distinct (pp_approvers p) \<Longrightarrow> proposals_ok (update_promotion_proposal p st)"
  by (simp add: proposals_ok_def update_promotion_proposal_def)

lemma proposals_ok_agents: "proposals_ok (st\<lparr>ps_agents := ag\<rparr>) = proposals_ok st"
  by (simp add: proposals_ok_def)

lemma proposals_ok_create: "proposals_ok st \<Longrightarrow> proposals_ok (snd (create_promotion_proposal sh a req i now st))"
  by (auto simp: create_promotion_proposal_def store_promotion_proposal_def proposals_ok_def proposal_from_request_def Let_def
      split: sum.split option.split)

lemma get_promotion_proposal_Inr:
  "get_promotion_proposal show_uuid a i st = Inr p \<longleftrightarrow> ps_proposals st i = Some p \<and> pp_agent_id p = a"
  by (auto simp: get_promotion_proposal_def split: option.split)

lemma proposals_ok_reject: "proposals_ok st \<Longrightarrow> proposals_ok (snd (reject_promotion_proposal sh a i reason now st))"
  by (auto simp: reject_promotion_proposal_def get_promotion_proposal_Inr Let_def proposals_ok_def update_promotion_proposal_def
      split: sum.split option.split)

text \<open>The identity after an update.\<close>

lemma update_agent_identity_core:
  "update_agent_identity sha henc t u a core st = (p, st') \<Longrightarrow> ai_core p = core \<and> as_identity st' a = Some p"
  by (auto simp: update_agent_identity_def Let_def append_identity_audit_def persist_identity_snapshot_def
      profile_apply_update_def split: prod.splits)

lemma with_approver_simps [simp]:
  "pp_id (with_approver name p) = pp_id p" "pp_candidate_core (with_approver name p) = pp_candidate_core p"
  "pp_risk_level (with_approver name p) = pp_risk_level p" "pp_status (with_approver name p) = pp_status p"
  "set (pp_approvers (with_approver name p)) = insert name (set (pp_approvers p))"
  "distinct (pp_approvers (with_approver name p)) = distinct (pp_approvers p)"
  by (auto simp: with_approver_def)

section \<open>Properties\<close>

text \<open>C19: The approval gate: an approval changes an identity only when the proposal was pending for this agent,
  neither expired nor within its cooling period, and the caller's name completes a quorum of
  distinct approvers for the risk level; the new core is the proposed one and passes the guard,
  and the proposal is stored as approved, so that it cannot be applied again.\<close>

theorem approval_needs_quorum:
  assumes "approve_promotion_proposal sha henc show_uuid max_utc t u ext agent_id i st = Some (res, st')"
    and "ps_agents st' \<noteq> ps_agents st" and "proposals_ok st"
  shows "\<exists>a p p'. normalize_agent_id agent_id = Inr a \<and> ps_proposals st i = Some p \<and> pp_agent_id p = a \<and>
    pp_status p = PsPending \<and> is_expired max_utc (t 1) p (policy_of a (t 0) st) = Some False \<and>
    cooling_period_elapsed max_utc (t 3) p (policy_of a (t 0) st) = Some True \<and>
    set (pp_approvers p') = insert (key_name (caller_from_extension ext)) (set (pp_approvers p)) \<and>
    unat (ar_min_approvers (requirement_for_risk (policy_of a (t 0) st) (pp_risk_level p))) \<le> card (set (pp_approvers p')) \<and>
    validate_identity_core (pp_candidate_core p) = Inr () \<and>
    map_option ai_core (as_identity (ps_agents st') a) = Some (pp_candidate_core p) \<and>
    res = Inr p' \<and> ps_proposals st' i = Some p' \<and> pp_status p' = PsApproved"
proof -
  let ?name = "key_name (caller_from_extension ext)"
  obtain a p where a: "normalize_agent_id agent_id = Inr a" and p: "get_promotion_proposal show_uuid a i st = Inr p"
    and pend: "pp_status p = PsPending"
    and gates: "is_expired max_utc (t 1) p (policy_of a (t 0) st) = Some False"
      "cooling_period_elapsed max_utc (t 3) p (policy_of a (t 0) st) = Some True"
    and run: "apply_approval sha henc (\<lambda>n. t (4 + n)) u a (policy_of a (t 0) st) (with_approver ?name p) st = (res, st')"
    using assms(1,2)
    by (auto simp: approve_promotion_proposal_def update_promotion_proposal_def
        split: sum.splits if_splits option.splits bool.splits)
  obtain identity ag where up: "update_agent_identity sha henc (\<lambda>n. t (4 + n)) u a (pp_candidate_core p) (ps_agents st) = (identity, ag)"
    by fastforce
  define p' where "p' = (with_approver ?name p)\<lparr>pp_status := PsApproved, pp_approved_at := Some (t 8)\<rparr>"
  have res: "has_quorum (with_approver ?name p) (policy_of a (t 0) st)" "validate_identity_core (pp_candidate_core p) = Inr ()"
      "res = Inr p'" "st' = update_promotion_proposal p' (st\<lparr>ps_agents := ag\<rparr>)"
    using run assms(2) up unfolding p'_def
    by (auto simp: apply_approval_def update_promotion_proposal_def Let_def split: if_splits sum.splits)
  have "pp_id p = i" "distinct (pp_approvers p)" "ps_proposals st i = Some p" "pp_agent_id p = a"
    using p assms(3) by (auto simp: proposals_ok_def get_promotion_proposal_Inr)
  then have "card (set (pp_approvers p')) = length (pp_approvers (with_approver ?name p))" "pp_id p' = i"
    using distinct_card [of "pp_approvers (with_approver ?name p)"] by (simp_all add: p'_def)
  then show ?thesis
    using a pend gates res update_agent_identity_core [OF up] \<open>ps_proposals st i = Some p\<close> \<open>pp_agent_id p = a\<close>
    by (intro exI [of _ a] exI [of _ p] exI [of _ p'])
      (simp add: update_promotion_proposal_def has_quorum_def p'_def)
qed

definition sample_proposal :: promotion_proposal where
  "sample_proposal = \<lparr>pp_id = 5, pp_agent_id = ''a'', pp_proposal = ''p'', pp_candidate_core = JObject [(''style'', JNull)],
     pp_reason = ''r'', pp_risk_level = ''high'', pp_status = PsPending, pp_source_event_ids = [], pp_approvers = [],
     pp_approved_at = None, pp_rejected_at = None, pp_expired_at = None, pp_created_at = 0\<rparr>"

definition sample_promotions :: promotion_store where
  "sample_promotions = \<lparr>ps_agents = agent_store_new, ps_proposals = [5 \<mapsto> sample_proposal], ps_index = (\<lambda>_. []),
     ps_policies = Map.empty\<rparr>"

lemma sample_core_ok: "validate_identity_core (JObject [(''style'', JNull)]) = Inr ()"
  by (simp add: validate_identity_core_iff, code_simp)

lemma sample_agent_id: "normalize_agent_id ''a'' = Inr ''a''"
proof -
  have "trim ''a'' = ''a''" by code_simp
  then show ?thesis by (simp add: normalize_agent_id_def)
qed

text \<open>The gate asks for no role: without a stored policy, one request of any caller, even one without
  credentials, approves a pending proposal of any risk and replaces the identity by the candidate
  core, although the direct update refuses the same caller.\<close>

theorem approval_asks_no_role:
  assumes "normalize_agent_id agent_id = Inr a" and "ps_proposals st i = Some p" and "pp_agent_id p = a" and "pp_id p = i"
    and "pp_status p = PsPending" and "ps_policies st a = None" and "validate_identity_core (pp_candidate_core p) = Inr ()"
    and "caller_role (caller_from_extension ext) = RoleRead"
  shows "fst (update_agent_identity_handler sha henc t u ext agent_id (pp_candidate_core p) (ps_agents st)) = Inl Forbidden \<and>
    (\<exists>p' st'. approve_promotion_proposal sha henc show_uuid max_utc t u ext agent_id i st = Some (Inr p', st') \<and>
      pp_status p' = PsApproved \<and> map_option ai_core (as_identity (ps_agents st') a) = Some (pp_candidate_core p))"
proof
  show "fst (update_agent_identity_handler sha henc t u ext agent_id (pp_candidate_core p) (ps_agents st)) = Inl Forbidden"
    using assms(8) by (simp add: update_agent_identity_handler_def require_role_def role_has_at_least_def word_le_nat_alt)
  have pol: "policy_of a (t 0) st = default_for_agent a (t 0)"
    using assms(6) by (simp add: policy_of_def get_approval_policy_def)
  have req: "requirement_for_risk (default_for_agent a n) r = requirement_default" for n r
    by (simp add: requirement_for_risk_def default_for_agent_def Let_def)
  obtain identity ag where up: "update_agent_identity sha henc (\<lambda>n. t (4 + n)) u a (pp_candidate_core p) (ps_agents st) = (identity, ag)"
    by fastforce
  have "has_quorum (with_approver (key_name (caller_from_extension ext)) p) (default_for_agent a (t 0))"
    by (cases "pp_approvers p") (auto simp: has_quorum_def req requirement_default_def with_approver_def)
  then show "\<exists>p' st'. approve_promotion_proposal sha henc show_uuid max_utc t u ext agent_id i st = Some (Inr p', st') \<and>
      pp_status p' = PsApproved \<and> map_option ai_core (as_identity (ps_agents st') a) = Some (pp_candidate_core p)"
    using assms(1-5,7) update_agent_identity_core [OF up] get_promotion_proposal_Inr [of show_uuid a i st p]
    by (simp add: approve_promotion_proposal_def pol req is_expired_def cooling_period_elapsed_def requirement_default_def
        apply_approval_def up Let_def update_promotion_proposal_def)
qed

lemma approval_asks_no_role_witness:
  "\<exists>p' st'. approve_promotion_proposal (\<lambda>x. x) (\<lambda>x. x) (\<lambda>_. []) 0 tick uid None ''a'' 5 sample_promotions = Some (Inr p', st') \<and>
     pp_status p' = PsApproved \<and> map_option ai_core (as_identity (ps_agents st') ''a'') = Some (JObject [(''style'', JNull)])"
  using approval_asks_no_role [where a = "''a''" and agent_id = "''a''" and st = sample_promotions and i = 5 and
      p = sample_proposal and ext = None and sha = "\<lambda>x. x" and henc = "\<lambda>x. x" and show_uuid = "\<lambda>_. []" and max_utc = 0 and
      t = tick and u = uid] sample_core_ok sample_agent_id
  by (simp add: sample_promotions_def sample_proposal_def caller_from_extension_def anonymous_def)

lemma approval_needs_quorum_witness:
  "validate_identity_core (JObject [(''style'', JNull)]) = Inr () \<and>
   (\<exists>p' st'. approve_promotion_proposal (\<lambda>x. x) (\<lambda>x. x) (\<lambda>_. []) 0 tick uid None ''a'' 5 sample_promotions =
      Some (Inr p', st') \<and> ps_proposals st' 5 = Some p')"
proof -
  obtain identity ag where up: "update_agent_identity (\<lambda>x. x) (\<lambda>x. x) (\<lambda>n. tick (4 + n)) uid ''a''
      (JObject [(''style'', JNull)]) agent_store_new = (identity, ag)" by fastforce
  have ne: "ag \<noteq> agent_store_new"
    using update_agent_identity_core [OF up] by (auto simp: agent_store_new_def)
  obtain p' st' where run: "approve_promotion_proposal (\<lambda>x. x) (\<lambda>x. x) (\<lambda>_. []) 0 tick uid None ''a'' 5 sample_promotions =
      Some (Inr p', st')" and ag: "ps_agents st' = ag"
    using sample_core_ok sample_agent_id up
    by (simp add: approve_promotion_proposal_def get_promotion_proposal_def sample_promotions_def sample_proposal_def
        policy_of_def get_approval_policy_def is_expired_def cooling_period_elapsed_def requirement_for_risk_def
        default_for_agent_def requirement_default_def apply_approval_def has_quorum_def with_approver_def
        update_promotion_proposal_def Let_def)
  have "ps_agents st' \<noteq> ps_agents sample_promotions" "proposals_ok sample_promotions"
    using ag ne by (simp_all add: sample_promotions_def sample_proposal_def proposals_ok_def)
  from approval_needs_quorum [OF run this] run show ?thesis
    by (auto simp: sample_promotions_def sample_proposal_def)
qed

end
