(* ===== verification/Regions.thy ===== *)
theory Regions
  imports Users Access
begin

text \<open>
  Shared memory regions: \<^verbatim>\<open>mnemo-core/src/models/region.rs\<close>, the region store of
  \<^verbatim>\<open>mnemo-storage/src/redis_store.rs\<close> and the region handlers of \<^verbatim>\<open>mnemo-server/src/routes.rs\<close>.
  A document key of Redis is a key of a map; governance audit entries are left out.
  \<open>is_control\<close> stands for \<^verbatim>\<open>char::is_control\<close> on the bytes modelled here.
\<close>

section \<open>Regions and their access lists\<close>

record region_entity_filter =
  ref_entity_types :: "string list"
  ref_name_patterns :: "string list"

record region_edge_filter =
  rdf_labels :: "string list"
  rdf_min_confidence :: "f32 option"

record memory_region =
  rg_id :: uuid
  rg_name :: string
  rg_owner_agent_id :: string
  rg_user_id :: uuid
  rg_entity_filter :: "region_entity_filter option"
  rg_edge_filter :: "region_edge_filter option"
  rg_classification_ceiling :: classification
  rg_created_at :: timestamp
  rg_updated_at :: timestamp

datatype region_permission = RpRead | RpWrite | RpManage

fun permission_rank :: "region_permission \<Rightarrow> nat" where
  "permission_rank RpRead = 0"
| "permission_rank RpWrite = 1"
| "permission_rank RpManage = 2"

definition permission_has_at_least :: "region_permission \<Rightarrow> region_permission \<Rightarrow> bool" where
  "permission_has_at_least p required \<longleftrightarrow> permission_rank required \<le> permission_rank p"

record memory_region_acl =
  ra_region_id :: uuid
  ra_agent_id :: string
  ra_permission :: region_permission
  ra_granted_by :: string
  ra_granted_at :: timestamp
  ra_expires_at :: "timestamp option"

definition acl_is_expired :: "timestamp \<Rightarrow> memory_region_acl \<Rightarrow> bool" where
  "acl_is_expired now acl = (case ra_expires_at acl of Some e \<Rightarrow> now \<ge> e | None \<Rightarrow> False)"

definition acl_has_permission :: "timestamp \<Rightarrow> memory_region_acl \<Rightarrow> region_permission \<Rightarrow> bool" where
  "acl_has_permission now acl required =
     (if acl_is_expired now acl then False else permission_has_at_least (ra_permission acl) required)"

record create_region_request =
  crr_name :: string
  crr_owner_agent_id :: string
  crr_user_id :: uuid
  crr_entity_filter :: "region_entity_filter option"
  crr_edge_filter :: "region_edge_filter option"
  crr_classification_ceiling :: classification

record update_region_request =
  urr_name :: "string option"
  urr_entity_filter :: "region_entity_filter option"
  urr_edge_filter :: "region_edge_filter option"
  urr_classification_ceiling :: "classification option"

record grant_region_access_request =
  gra_agent_id :: string
  gra_permission :: region_permission
  gra_expires_at :: "timestamp option"

definition in_quotes :: "string \<Rightarrow> string" where
  "in_quotes s = [CHR 0x27] @ s @ [CHR 0x27]"

definition validate_agent_id :: "string \<Rightarrow> string + unit" where
  "validate_agent_id i =
     (let trimmed = trim i in
      if trimmed = [] then Inl ''agent_id must not be empty''
      else if length trimmed > 128 then Inl ''agent_id must be <= 128 characters''
      else if List.member trimmed (CHR '':'') \<or> List.member trimmed (CHR ''/'') \<or> str_contains trimmed ''..'' then
        Inl (''agent_id must not contain '' @ in_quotes '':'' @ '', '' @ in_quotes ''/'' @ '', or '' @ in_quotes ''..'')
      else if \<not> list_all (\<lambda>c. is_ascii_alphanumeric c \<or> c = CHR ''-'' \<or> c = CHR ''_'' \<or> c = CHR ''.'') trimmed then
        Inl ''agent_id must contain only alphanumeric characters, hyphens, underscores, or dots''
      else Inr ())"

definition validate_region_name :: "(char \<Rightarrow> bool) \<Rightarrow> string \<Rightarrow> string + unit" where
  "validate_region_name is_control name =
     (let trimmed = trim name in
      if trimmed = [] then Inl ''region name cannot be empty''
      else if length trimmed > 128 then Inl ''region name must be <= 128 characters''
      else if list_ex is_control trimmed then Inl ''region name must not contain control characters''
      else Inr ())"

section \<open>The store\<close>

text \<open>
  \<^verbatim>\<open>region:{id}\<close>, \<^verbatim>\<open>regions\<close>, \<^verbatim>\<open>user_regions:{user}\<close>, \<^verbatim>\<open>agent_regions:{agent}\<close>,
  \<^verbatim>\<open>region_acl:{region}\<close> and \<^verbatim>\<open>region_acl_entry:{region}:{agent}\<close>.
\<close>

record region_store =
  rs_regions :: "uuid \<rightharpoonup> memory_region"
  rs_index :: "uuid zset"
  rs_user :: "uuid \<Rightarrow> uuid zset"
  rs_agent :: "string \<Rightarrow> uuid zset"
  rs_acl_index :: "uuid \<Rightarrow> string zset"
  rs_acl :: "uuid \<times> string \<rightharpoonup> memory_region_acl"

definition region_store_new :: region_store where
  "region_store_new = \<lparr>rs_regions = Map.empty, rs_index = [], rs_user = (\<lambda>_. []), rs_agent = (\<lambda>_. []),
     rs_acl_index = (\<lambda>_. []), rs_acl = Map.empty\<rparr>"

definition store_region :: "memory_region \<Rightarrow> region_store \<Rightarrow> region_store" where
  "store_region r st =
     (let s = timestamp_millis (rg_created_at r); u = rg_user_id r; a = rg_owner_agent_id r in
      st\<lparr>rs_regions := (rs_regions st)(rg_id r \<mapsto> r),
         rs_index := zadd s (rg_id r) (rs_index st),
         rs_user := (rs_user st)(u := zadd s (rg_id r) (rs_user st u)),
         rs_agent := (rs_agent st)(a := zadd s (rg_id r) (rs_agent st a))\<rparr>)"

definition get_region_doc :: "uuid \<Rightarrow> region_store \<Rightarrow> memory_region option" where
  "get_region_doc i st = rs_regions st i"

definition update_region_doc :: "memory_region \<Rightarrow> region_store \<Rightarrow> region_store" where
  "update_region_doc r st = st\<lparr>rs_regions := (rs_regions st)(rg_id r \<mapsto> r)\<rparr>"

text \<open>The transaction: the document, the three indexes, and every entry of the access list.\<close>

definition delete_region_doc :: "uuid \<Rightarrow> region_store \<Rightarrow> region_store" where
  "delete_region_doc i st =
     (case get_region_doc i st of
        None \<Rightarrow> st
      | Some r \<Rightarrow>
        let agents = map snd (rs_acl_index st i);
            owner_idx = (rs_agent st)(rg_owner_agent_id r := zrem i (rs_agent st (rg_owner_agent_id r)))
        in st\<lparr>rs_regions := (rs_regions st)(i := None),
              rs_index := zrem i (rs_index st),
              rs_user := (rs_user st)(rg_user_id r := zrem i (rs_user st (rg_user_id r))),
              rs_agent := (\<lambda>a. if a \<in> set agents then zrem i (owner_idx a) else owner_idx a),
              rs_acl := (\<lambda>k. if fst k = i \<and> snd k \<in> set agents then None else rs_acl st k),
              rs_acl_index := (rs_acl_index st)(i := [])\<rparr>)"

definition store_region_acl :: "memory_region_acl \<Rightarrow> region_store \<Rightarrow> region_store" where
  "store_region_acl acl st =
     (let s = timestamp_millis (ra_granted_at acl); i = ra_region_id acl; a = ra_agent_id acl in
      st\<lparr>rs_acl := (rs_acl st)((i, a) \<mapsto> acl),
         rs_acl_index := (rs_acl_index st)(i := zadd s a (rs_acl_index st i)),
         rs_agent := (rs_agent st)(a := zadd s i (rs_agent st a))\<rparr>)"

definition list_region_acl_docs :: "uuid \<Rightarrow> region_store \<Rightarrow> memory_region_acl list" where
  "list_region_acl_docs i st = List.map_filter (\<lambda>a. rs_acl st (i, a)) (map snd (rs_acl_index st i))"

definition remove_region_acl :: "uuid \<Rightarrow> string \<Rightarrow> region_store \<Rightarrow> region_store" where
  "remove_region_acl i a st =
     st\<lparr>rs_acl := (rs_acl st)((i, a) := None),
        rs_acl_index := (rs_acl_index st)(i := zrem a (rs_acl_index st i)),
        rs_agent := (rs_agent st)(a := zrem i (rs_agent st a))\<rparr>"

text \<open>One region of the reverse index: listed, expired, or neither. \<open>clk\<close> is the clock at its check.\<close>

definition accessible_region :: "(uuid \<Rightarrow> timestamp) \<Rightarrow> string \<Rightarrow> region_store \<Rightarrow> uuid \<Rightarrow> memory_region option" where
  "accessible_region clk a st i =
     (case rs_acl st (i, a) of
        Some acl \<Rightarrow> if acl_is_expired (clk i) acl then None else get_region_doc i st
      | None \<Rightarrow>
        (case get_region_doc i st of
           Some r \<Rightarrow> if rg_owner_agent_id r = a then Some r else None
         | None \<Rightarrow> None))"

definition acl_expired_at :: "(uuid \<Rightarrow> timestamp) \<Rightarrow> string \<Rightarrow> region_store \<Rightarrow> uuid \<Rightarrow> bool" where
  "acl_expired_at clk a st i = (case rs_acl st (i, a) of Some acl \<Rightarrow> acl_is_expired (clk i) acl | None \<Rightarrow> False)"

definition list_agent_accessible_regions ::
  "(uuid \<Rightarrow> timestamp) \<Rightarrow> string \<Rightarrow> region_store \<Rightarrow> memory_region list \<times> region_store" where
  "list_agent_accessible_regions clk a st =
     (let ids = map snd (rs_agent st a)
      in (List.map_filter (accessible_region clk a st) ids,
          fold (\<lambda>i. remove_region_acl i a) (filter (acl_expired_at clk a st) ids) st))"

definition list_regions ::
  "(uuid \<Rightarrow> timestamp) \<Rightarrow> uuid option \<Rightarrow> string option \<Rightarrow> region_store \<Rightarrow> memory_region list \<times> region_store" where
  "list_regions clk user_id agent_id st =
     (case agent_id of
        Some a \<Rightarrow>
          (case list_agent_accessible_regions clk a st of (regions, st') \<Rightarrow>
            ((case user_id of Some u \<Rightarrow> filter (\<lambda>r. rg_user_id r = u) regions | None \<Rightarrow> regions), st'))
      | None \<Rightarrow>
          (List.map_filter (\<lambda>i. get_region_doc i st)
             (map snd (case user_id of Some u \<Rightarrow> rs_user st u | None \<Rightarrow> rs_index st)), st))"

section \<open>The handlers\<close>

definition create_region ::
  "(char \<Rightarrow> bool) \<Rightarrow> (uuid \<Rightarrow> string) \<Rightarrow> caller_context option \<Rightarrow> create_region_request \<Rightarrow> uuid \<Rightarrow> timestamp \<Rightarrow> timestamp \<Rightarrow>
   user_store \<Rightarrow> region_store \<Rightarrow> (mnemo_error + memory_region) \<times> region_store" where
  "create_region is_control show_uuid ext req new_id now now2 users st =
     (case require_role (caller_from_extension ext) RoleWrite of Inl e \<Rightarrow> (Inl e, st) | Inr _ \<Rightarrow>
      case validate_region_name is_control (crr_name req) of Inl e \<Rightarrow> (Inl (Validation e), st) | Inr _ \<Rightarrow>
      case validate_agent_id (crr_owner_agent_id req) of Inl e \<Rightarrow> (Inl (Validation (''owner_agent_id: '' @ e)), st) | Inr _ \<Rightarrow>
      case get_user (crr_user_id req) users of Inl e \<Rightarrow> (Inl (NotFound ''User'' (show_uuid (crr_user_id req))), st) | Inr _ \<Rightarrow>
      let r = \<lparr>rg_id = new_id, rg_name = trim (crr_name req), rg_owner_agent_id = trim (crr_owner_agent_id req),
            rg_user_id = crr_user_id req, rg_entity_filter = crr_entity_filter req, rg_edge_filter = crr_edge_filter req,
            rg_classification_ceiling = crr_classification_ceiling req, rg_created_at = now, rg_updated_at = now2\<rparr>
      in (Inr r, store_region r st))"

definition list_regions_handler ::
  "(uuid \<Rightarrow> timestamp) \<Rightarrow> caller_context option \<Rightarrow> uuid option \<Rightarrow> string option \<Rightarrow> region_store \<Rightarrow>
   (mnemo_error + memory_region list) \<times> region_store" where
  "list_regions_handler clk ext user_id agent_id st =
     (case require_role (caller_from_extension ext) RoleRead of Inl e \<Rightarrow> (Inl e, st) | Inr _ \<Rightarrow>
      case list_regions clk user_id agent_id st of (rs, st') \<Rightarrow> (Inr rs, st'))"

definition find_region :: "(uuid \<Rightarrow> string) \<Rightarrow> uuid \<Rightarrow> region_store \<Rightarrow> mnemo_error + memory_region" where
  "find_region show_uuid i st =
     (case get_region_doc i st of None \<Rightarrow> Inl (NotFound ''MemoryRegion'' (show_uuid i)) | Some r \<Rightarrow> Inr r)"

definition get_region ::
  "(uuid \<Rightarrow> string) \<Rightarrow> caller_context option \<Rightarrow> uuid \<Rightarrow> region_store \<Rightarrow> mnemo_error + memory_region" where
  "get_region show_uuid ext i st =
     (case require_role (caller_from_extension ext) RoleRead of Inl e \<Rightarrow> Inl e | Inr _ \<Rightarrow> find_region show_uuid i st)"

definition owner_or_admin :: "caller_context \<Rightarrow> memory_region \<Rightarrow> mnemo_error + unit" where
  "owner_or_admin caller r =
     (if caller_role caller \<noteq> RoleAdmin \<and> key_name caller \<noteq> rg_owner_agent_id r then Inl Forbidden else Inr ())"

definition update_region ::
  "(char \<Rightarrow> bool) \<Rightarrow> (uuid \<Rightarrow> string) \<Rightarrow> caller_context option \<Rightarrow> uuid \<Rightarrow> update_region_request \<Rightarrow> timestamp \<Rightarrow> region_store \<Rightarrow>
   (mnemo_error + memory_region) \<times> region_store" where
  "update_region is_control show_uuid ext i req now st =
     (case require_role (caller_from_extension ext) RoleWrite of Inl e \<Rightarrow> (Inl e, st) | Inr _ \<Rightarrow>
      case find_region show_uuid i st of Inl e \<Rightarrow> (Inl e, st) | Inr r \<Rightarrow>
      case owner_or_admin (caller_from_extension ext) r of Inl e \<Rightarrow> (Inl e, st) | Inr _ \<Rightarrow>
      case (case urr_name req of
              Some n \<Rightarrow> (case validate_region_name is_control n of Inl e \<Rightarrow> Inl (Validation e) | Inr _ \<Rightarrow> Inr (r\<lparr>rg_name := trim n\<rparr>))
            | None \<Rightarrow> Inr r) of Inl e \<Rightarrow> (Inl e, st) | Inr r1 \<Rightarrow>
      let r2 = (if urr_entity_filter req \<noteq> None \<or> urr_edge_filter req \<noteq> None
            then r1\<lparr>rg_entity_filter := urr_entity_filter req, rg_edge_filter := urr_edge_filter req\<rparr> else r1);
          r3 = (case urr_classification_ceiling req of Some c \<Rightarrow> r2\<lparr>rg_classification_ceiling := c\<rparr> | None \<Rightarrow> r2);
          r4 = r3\<lparr>rg_updated_at := now\<rparr>
      in (Inr r4, update_region_doc r4 st))"

definition delete_region ::
  "(uuid \<Rightarrow> string) \<Rightarrow> caller_context option \<Rightarrow> uuid \<Rightarrow> region_store \<Rightarrow> (mnemo_error + unit) \<times> region_store" where
  "delete_region show_uuid ext i st =
     (case require_role (caller_from_extension ext) RoleAdmin of Inl e \<Rightarrow> (Inl e, st) | Inr _ \<Rightarrow>
      case find_region show_uuid i st of Inl e \<Rightarrow> (Inl e, st) | Inr r \<Rightarrow> (Inr (), delete_region_doc i st))"

definition grant_region_access ::
  "(uuid \<Rightarrow> string) \<Rightarrow> caller_context option \<Rightarrow> uuid \<Rightarrow> grant_region_access_request \<Rightarrow> timestamp \<Rightarrow> region_store \<Rightarrow>
   (mnemo_error + memory_region_acl) \<times> region_store" where
  "grant_region_access show_uuid ext i req now st =
     (case require_role (caller_from_extension ext) RoleWrite of Inl e \<Rightarrow> (Inl e, st) | Inr _ \<Rightarrow>
      case validate_agent_id (gra_agent_id req) of Inl e \<Rightarrow> (Inl (Validation (''agent_id: '' @ e)), st) | Inr _ \<Rightarrow>
      case find_region show_uuid i st of Inl e \<Rightarrow> (Inl e, st) | Inr r \<Rightarrow>
      case owner_or_admin (caller_from_extension ext) r of Inl e \<Rightarrow> (Inl e, st) | Inr _ \<Rightarrow>
      if trim (gra_agent_id req) = rg_owner_agent_id r then
        (Inl (Validation ''cannot grant explicit access to the region owner''), st)
      else
        let acl = \<lparr>ra_region_id = i, ra_agent_id = trim (gra_agent_id req), ra_permission = gra_permission req,
              ra_granted_by = key_name (caller_from_extension ext), ra_granted_at = now, ra_expires_at = gra_expires_at req\<rparr>
        in (Inr acl, store_region_acl acl st))"

definition list_region_acls ::
  "(uuid \<Rightarrow> string) \<Rightarrow> (memory_region_acl \<Rightarrow> timestamp) \<Rightarrow> caller_context option \<Rightarrow> uuid \<Rightarrow> region_store \<Rightarrow>
   mnemo_error + memory_region_acl list" where
  "list_region_acls show_uuid clk ext i st =
     (case require_role (caller_from_extension ext) RoleRead of Inl e \<Rightarrow> Inl e | Inr _ \<Rightarrow>
      case find_region show_uuid i st of Inl e \<Rightarrow> Inl e | Inr r \<Rightarrow>
      Inr (filter (\<lambda>acl. \<not> acl_is_expired (clk acl) acl) (list_region_acl_docs i st)))"

definition revoke_region_access ::
  "(uuid \<Rightarrow> string) \<Rightarrow> caller_context option \<Rightarrow> uuid \<Rightarrow> string \<Rightarrow> region_store \<Rightarrow> (mnemo_error + unit) \<times> region_store" where
  "revoke_region_access show_uuid ext i agent_id st =
     (case require_role (caller_from_extension ext) RoleWrite of Inl e \<Rightarrow> (Inl e, st) | Inr _ \<Rightarrow>
      case find_region show_uuid i st of Inl e \<Rightarrow> (Inl e, st) | Inr r \<Rightarrow>
      case owner_or_admin (caller_from_extension ext) r of Inl e \<Rightarrow> (Inl e, st) | Inr _ \<Rightarrow>
      (Inr (), remove_region_acl i agent_id st))"

section \<open>What the operations keep\<close>

text \<open>
  Every region is stored under its own id, and every entry of an access list belongs to a stored region that
  its agent does not own and stands in both indexes.
\<close>

definition zmembers :: "'m zset \<Rightarrow> 'm set" where
  "zmembers z = snd ` set z"

definition acl_placed :: "region_store \<Rightarrow> uuid \<Rightarrow> string \<Rightarrow> memory_region_acl \<Rightarrow> bool" where
  "acl_placed st i a acl \<longleftrightarrow>
     ra_region_id acl = i \<and> ra_agent_id acl = a \<and>
     (\<exists>r. rs_regions st i = Some r \<and> rg_owner_agent_id r \<noteq> a) \<and>
     i \<in> zmembers (rs_agent st a) \<and> a \<in> zmembers (rs_acl_index st i)"

definition regions_ok :: "region_store \<Rightarrow> bool" where
  "regions_ok st \<longleftrightarrow>
     (\<forall>i r. rs_regions st i = Some r \<longrightarrow> rg_id r = i) \<and>
     (\<forall>i a acl. rs_acl st (i, a) = Some acl \<longrightarrow> acl_placed st i a acl)"

lemma regions_okI:
  assumes "\<And>i r. rs_regions st i = Some r \<Longrightarrow> rg_id r = i"
      and "\<And>i a acl. rs_acl st (i, a) = Some acl \<Longrightarrow> acl_placed st i a acl"
  shows "regions_ok st"
  using assms by (simp add: regions_ok_def)

lemma regions_okD:
  assumes "regions_ok st"
  shows "rs_regions st i = Some r \<Longrightarrow> rg_id r = i"
    and "rs_acl st (i, a) = Some acl \<Longrightarrow> acl_placed st i a acl"
  using assms by (simp_all add: regions_ok_def)

lemma regions_ok_new: "regions_ok region_store_new"
  by (simp add: regions_ok_def region_store_new_def)

lemma zadd_members: "zmembers (zadd s m z) = insert m (zmembers z)"
  by (auto simp: zmembers_def zadd_def set_z_insert zrem_set image_iff)

lemma zrem_members: "zmembers (zrem m z) = zmembers z - {m}"
  by (auto simp: zmembers_def zrem_set)

lemma set_members: "set (map snd z) = zmembers z"
  by (simp add: zmembers_def)

lemma regions_ok_store:
  assumes ok: "regions_ok st" and fresh: "rs_regions st (rg_id r) = None"
  shows "regions_ok (store_region r st)"
proof (rule regions_okI)
  show "rg_id q = i" if "rs_regions (store_region r st) i = Some q" for i q
    using that regions_okD(1)[OF ok] by (auto simp: store_region_def Let_def split: if_splits)
  show "acl_placed (store_region r st) i a acl" if "rs_acl (store_region r st) (i, a) = Some acl" for i a acl
  proof -
    have pl: "acl_placed st i a acl"
      using that regions_okD(2)[OF ok] by (simp add: store_region_def Let_def)
    then have "i \<noteq> rg_id r" using fresh by (auto simp: acl_placed_def)
    then show ?thesis using pl by (auto simp: acl_placed_def store_region_def Let_def zadd_members)
  qed
qed

lemma regions_ok_update:
  assumes ok: "regions_ok st" and r: "rs_regions st i = Some r"
      and same: "rg_id r' = i" "rg_owner_agent_id r' = rg_owner_agent_id r"
  shows "regions_ok (update_region_doc r' st)"
proof (rule regions_okI)
  show "rg_id q = j" if "rs_regions (update_region_doc r' st) j = Some q" for j q
    using that regions_okD(1)[OF ok] by (auto simp: update_region_doc_def split: if_splits)
  show "acl_placed (update_region_doc r' st) j a acl" if "rs_acl (update_region_doc r' st) (j, a) = Some acl" for j a acl
    using regions_okD(2)[OF ok, of j a acl] that r same by (auto simp: acl_placed_def update_region_doc_def)
qed

lemma regions_ok_delete:
  assumes ok: "regions_ok st"
  shows "regions_ok (delete_region_doc i st)"
proof (cases "rs_regions st i")
  case None then show ?thesis using ok by (simp add: delete_region_doc_def get_region_doc_def)
next
  case (Some r)
  let ?st = "delete_region_doc i st"
  have acl: "rs_acl ?st k = (if fst k = i \<and> snd k \<in> zmembers (rs_acl_index st i) then None else rs_acl st k)" for k
    by (simp add: delete_region_doc_def get_region_doc_def Some Let_def zmembers_def)
  have regs: "rs_regions ?st = (rs_regions st)(i := None)"
    by (simp add: delete_region_doc_def get_region_doc_def Some Let_def)
  have idx: "rs_acl_index ?st = (rs_acl_index st)(i := [])"
    by (simp add: delete_region_doc_def get_region_doc_def Some Let_def)
  have ag: "zmembers (rs_agent st a) - {i} \<subseteq> zmembers (rs_agent ?st a)" for a
    by (auto simp: delete_region_doc_def get_region_doc_def Some Let_def zrem_members)
  show ?thesis
  proof (rule regions_okI)
    show "rg_id q = j" if "rs_regions ?st j = Some q" for j q
      using that regions_okD(1)[OF ok] by (auto simp: regs split: if_splits)
    show "acl_placed ?st j a l" if h: "rs_acl ?st (j, a) = Some l" for j a l
    proof -
      have pl: "acl_placed st j a l"
        using h regions_okD(2)[OF ok] by (auto simp: acl split: if_splits)
      have "j \<noteq> i"
      proof
        assume "j = i"
        with h pl show False by (simp add: acl acl_placed_def split: if_splits)
      qed
      then show ?thesis using pl ag[of a] by (auto simp: acl_placed_def regs idx)
    qed
  qed
qed

lemma regions_ok_grant:
  assumes ok: "regions_ok st" and r: "rs_regions st (ra_region_id l) = Some r" "rg_owner_agent_id r \<noteq> ra_agent_id l"
  shows "regions_ok (store_region_acl l st)"
proof (rule regions_okI)
  let ?i = "ra_region_id l" and ?a = "ra_agent_id l"
  have fields: "rs_regions (store_region_acl l st) = rs_regions st"
      "rs_acl (store_region_acl l st) = (rs_acl st)((?i, ?a) \<mapsto> l)"
      "rs_agent (store_region_acl l st) =
        (rs_agent st)(?a := zadd (timestamp_millis (ra_granted_at l)) ?i (rs_agent st ?a))"
      "rs_acl_index (store_region_acl l st) =
        (rs_acl_index st)(?i := zadd (timestamp_millis (ra_granted_at l)) ?a (rs_acl_index st ?i))"
    by (simp_all add: store_region_acl_def Let_def)
  show "rg_id q = j" if "rs_regions (store_region_acl l st) j = Some q" for j q
    using that regions_okD(1)[OF ok] by (simp add: fields)
  show "acl_placed (store_region_acl l st) j a k" if h: "rs_acl (store_region_acl l st) (j, a) = Some k" for j a k
  proof (cases "(j, a) = (?i, ?a)")
    case True
    then have "j = ?i" "a = ?a" "k = l" using h by (simp_all add: fields)
    moreover have "acl_placed (store_region_acl l st) ?i ?a l"
      using r by (simp add: acl_placed_def fields zadd_members)
    ultimately show ?thesis by simp
  next
    case False
    then have "acl_placed st j a k" using h regions_okD(2)[OF ok] by (auto simp: fields)
    then show ?thesis by (auto simp: acl_placed_def fields zadd_members)
  qed
qed

lemma regions_ok_remove:
  assumes ok: "regions_ok st"
  shows "regions_ok (remove_region_acl i a st)"
proof (rule regions_okI)
  have fields: "rs_regions (remove_region_acl i a st) = rs_regions st"
      "rs_acl (remove_region_acl i a st) = (rs_acl st)((i, a) := None)"
      "rs_agent (remove_region_acl i a st) = (rs_agent st)(a := zrem i (rs_agent st a))"
      "rs_acl_index (remove_region_acl i a st) = (rs_acl_index st)(i := zrem a (rs_acl_index st i))"
    by (simp_all add: remove_region_acl_def)
  show "rg_id q = j" if "rs_regions (remove_region_acl i a st) j = Some q" for j q
    using that regions_okD(1)[OF ok] by (simp add: fields)
  show "acl_placed (remove_region_acl i a st) j b k" if h: "rs_acl (remove_region_acl i a st) (j, b) = Some k" for j b k
  proof -
    have ne: "(j, b) \<noteq> (i, a)" using h by (auto simp: fields)
    then have "acl_placed st j b k" using h regions_okD(2)[OF ok] by (auto simp: fields)
    then show ?thesis using ne by (auto simp: acl_placed_def fields zrem_members)
  qed
qed

lemma regions_ok_fold_remove:
  "regions_ok st \<Longrightarrow> regions_ok (fold (\<lambda>i. remove_region_acl i a) is st)"
  by (induction "is" arbitrary: st) (simp_all add: regions_ok_remove)

lemma regions_ok_list: "regions_ok st \<Longrightarrow> regions_ok (snd (list_regions clk u a st))"
  by (auto simp: list_regions_def list_agent_accessible_regions_def Let_def regions_ok_fold_remove split: option.splits)

section \<open>The handlers as steps\<close>

inductive region_step :: "region_store \<Rightarrow> region_store \<Rightarrow> bool" where
  step_create: "rs_regions st new_id = None \<Longrightarrow>
     create_region is_control show_uuid ext req new_id now now2 users st = (x, st') \<Longrightarrow> region_step st st'"
| step_list: "list_regions_handler clk ext u a st = (xs, st') \<Longrightarrow> region_step st st'"
| step_update: "update_region is_control show_uuid ext i ureq now st = (x, st') \<Longrightarrow> region_step st st'"
| step_delete: "delete_region show_uuid ext i st = (y, st') \<Longrightarrow> region_step st st'"
| step_grant: "grant_region_access show_uuid ext i greq now st = (z, st') \<Longrightarrow> region_step st st'"
| step_revoke: "revoke_region_access show_uuid ext i ag st = (y, st') \<Longrightarrow> region_step st st'"

inductive region_reachable :: "region_store \<Rightarrow> bool" where
  reach_new: "region_reachable region_store_new"
| reach_step: "region_reachable st \<Longrightarrow> region_step st st' \<Longrightarrow> region_reachable st'"

lemma find_region_Inr: "find_region show_uuid i st = Inr r \<longleftrightarrow> rs_regions st i = Some r"
  by (simp add: find_region_def get_region_doc_def split: option.split)

lemma regions_ok_step: "region_step st st' \<Longrightarrow> regions_ok st \<Longrightarrow> regions_ok st'"
proof (induction rule: region_step.induct)
  case (step_create st new_id is_control show_uuid ext req now now2 users x st')
  then show ?case
    by (auto simp: create_region_def Let_def intro!: regions_ok_store split: sum.splits)
next
  case (step_list clk ext u a st xs st')
  then show ?case using regions_ok_list[of st clk u a]
    by (auto simp: list_regions_handler_def split: sum.splits prod.splits)
next
  case (step_update is_control show_uuid ext i ureq now st x st')
  then show ?case using regions_okD(1)[of st i]
    by (auto simp: update_region_def Let_def find_region_Inr intro!: regions_ok_update split: sum.splits option.splits if_splits)
next
  case (step_delete show_uuid ext i st y st')
  then show ?case by (auto simp: delete_region_def intro: regions_ok_delete split: sum.splits)
next
  case (step_grant show_uuid ext i greq now st z st')
  then show ?case
    by (auto simp: grant_region_access_def Let_def find_region_Inr intro!: regions_ok_grant split: sum.splits if_splits)
next
  case (step_revoke show_uuid ext i ag st y st')
  then show ?case by (auto simp: revoke_region_access_def intro: regions_ok_remove split: sum.splits)
qed

lemma region_reachable_ok: "region_reachable st \<Longrightarrow> regions_ok st"
  by (induction rule: region_reachable.induct) (auto intro: regions_ok_new regions_ok_step)

section \<open>Who sees a region\<close>

text \<open>An agent's live access: a stored region with an entry that has not expired, or one it owns.\<close>

definition may_see :: "(uuid \<Rightarrow> timestamp) \<Rightarrow> string \<Rightarrow> region_store \<Rightarrow> memory_region \<Rightarrow> bool" where
  "may_see clk a st r \<longleftrightarrow>
     rs_regions st (rg_id r) = Some r \<and>
     (case rs_acl st (rg_id r, a) of
        Some acl \<Rightarrow> \<not> acl_is_expired (clk (rg_id r)) acl
      | None \<Rightarrow> rg_owner_agent_id r = a \<and> rg_id r \<in> zmembers (rs_agent st a))"

lemma set_map_filter_image: "set (List.map_filter f xs) = {y. \<exists>x\<in>set xs. f x = Some y}"
  by (induction xs) (auto simp: map_filter_simps split: option.splits)

lemma accessible_region_Some:
  assumes ok: "regions_ok st"
  shows "accessible_region clk a st i = Some r \<and> i \<in> zmembers (rs_agent st a) \<longleftrightarrow> i = rg_id r \<and> may_see clk a st r"
proof -
  show ?thesis
  proof (cases "rs_regions st i = Some r")
    case True
    then have i: "rg_id r = i" by (rule regions_okD(1)[OF ok])
    show ?thesis
    proof (cases "rs_acl st (i, a)")
      case None
      then show ?thesis by (simp add: accessible_region_def may_see_def get_region_doc_def True i)
    next
      case (Some acl)
      then have "i \<in> zmembers (rs_agent st a)"
        using regions_okD(2)[OF ok Some] by (simp add: acl_placed_def)
      then show ?thesis by (simp add: accessible_region_def may_see_def get_region_doc_def True i Some)
    qed
  next
    case False
    then have "accessible_region clk a st i \<noteq> Some r"
      by (auto simp: accessible_region_def get_region_doc_def split: option.split)
    moreover have "\<not> (i = rg_id r \<and> may_see clk a st r)" using False by (auto simp: may_see_def)
    ultimately show ?thesis by simp
  qed
qed

lemma remove_region_acl_fields:
  "rs_regions (remove_region_acl i a st) = rs_regions st"
  "rs_acl (remove_region_acl i a st) k = (if k = (i, a) then None else rs_acl st k)"
  "zmembers (rs_agent (remove_region_acl i a st) b) =
     (if b = a then zmembers (rs_agent st a) - {i} else zmembers (rs_agent st b))"
  by (simp_all add: remove_region_acl_def zrem_members)

lemma fold_remove_fields:
  "rs_regions (fold (\<lambda>i. remove_region_acl i a) is st) = rs_regions st"
  "rs_acl (fold (\<lambda>i. remove_region_acl i a) is st) k = (if snd k = a \<and> fst k \<in> set is then None else rs_acl st k)"
  "zmembers (rs_agent (fold (\<lambda>i. remove_region_acl i a) is st) b) =
     (if b = a then zmembers (rs_agent st a) - set is else zmembers (rs_agent st b))"
proof (induction "is" arbitrary: st k b)
  case (Cons i "is")
  { case 1 show ?case by (simp add: Cons remove_region_acl_fields) }
  { case 2 show ?case by (cases k) (auto simp: Cons remove_region_acl_fields) }
  { case 3 show ?case by (auto simp: Cons remove_region_acl_fields) }
qed simp_all

lemma owned_not_expired:
  assumes "regions_ok st" and "acl_expired_at clk a st i"
  shows "\<exists>acl r. rs_acl st (i, a) = Some acl \<and> rs_regions st i = Some r \<and> rg_owner_agent_id r \<noteq> a"
  using assms(2) regions_okD(2)[OF assms(1)] by (auto simp: acl_expired_at_def acl_placed_def split: option.splits)

definition sample_region :: memory_region where
  "sample_region = \<lparr>rg_id = 1, rg_name = ''notes'', rg_owner_agent_id = ''scribe'', rg_user_id = 7, rg_entity_filter = None,
     rg_edge_filter = None, rg_classification_ceiling = ClInternal, rg_created_at = 0, rg_updated_at = 0\<rparr>"

definition sample_acl :: memory_region_acl where
  "sample_acl = \<lparr>ra_region_id = 1, ra_agent_id = ''guest'', ra_permission = RpRead, ra_granted_by = ''bootstrap'',
     ra_granted_at = 0, ra_expires_at = Some 10\<rparr>"

definition sample_regions :: region_store where
  "sample_regions = store_region_acl sample_acl (store_region sample_region region_store_new)"

lemma sample_regions_reachable: "region_reachable sample_regions"
proof -
  define users where "users = \<lparr>us_users = [(7, \<lparr>u_id = 7, u_external_id = None, u_name = ''Ann'', u_email = None,
      u_metadata = JNull, u_created_at = 0, u_updated_at = 0\<rparr>)], us_ext = [], us_index = []\<rparr>"
  have role: "require_role (caller_from_extension (Some admin_bootstrap)) RoleWrite = Inr ()"
    by (simp add: caller_from_extension_def admin_bootstrap_def role_has_at_least_def)
  have names: "validate_region_name (\<lambda>_. False) ''notes'' = Inr ()" "validate_agent_id ''scribe'' = Inr ()"
      "trim ''notes'' = ''notes''" "trim ''scribe'' = ''scribe''" by code_simp+
  have "create_region (\<lambda>_. False) (\<lambda>_. []) (Some admin_bootstrap)
      \<lparr>crr_name = ''notes'', crr_owner_agent_id = ''scribe'', crr_user_id = 7, crr_entity_filter = None,
       crr_edge_filter = None, crr_classification_ceiling = ClInternal\<rparr> 1 0 0 users region_store_new
      = (Inr sample_region, store_region sample_region region_store_new)"
    by (simp add: create_region_def role names sample_region_def get_user_def users_def Let_def)
  then have one: "region_reachable (store_region sample_region region_store_new)"
    by (intro reach_step[OF reach_new] step_create) (simp_all add: region_store_new_def)
  have names2: "validate_agent_id ''guest'' = Inr ()" "trim ''guest'' = ''guest''" by code_simp+
  have found: "find_region (\<lambda>_. []) 1 (store_region sample_region region_store_new) = Inr sample_region"
    by (simp add: find_region_def get_region_doc_def store_region_def Let_def sample_region_def)
  have admin: "caller_from_extension (Some admin_bootstrap) = admin_bootstrap"
      "owner_or_admin admin_bootstrap sample_region = Inr ()" "key_name admin_bootstrap = ''bootstrap''"
      "rg_owner_agent_id sample_region = ''scribe''"
    by (simp_all add: caller_from_extension_def owner_or_admin_def admin_bootstrap_def sample_region_def)
  have "grant_region_access (\<lambda>_. []) (Some admin_bootstrap) 1
      \<lparr>gra_agent_id = ''guest'', gra_permission = RpRead, gra_expires_at = Some 10\<rparr> 0
      (store_region sample_region region_store_new) = (Inr sample_acl, sample_regions)"
    by (simp add: grant_region_access_def admin role[unfolded admin] names2 found sample_regions_def sample_acl_def Let_def)
  then show ?thesis by (intro reach_step[OF one] step_grant)
qed



end
