(* ===== verification/Knowledge_Graph.thy ===== *)
theory Knowledge_Graph
  imports Paging Access Poll_Selection
begin

text \<open>
  The temporal knowledge graph: entities and edges of \<^verbatim>\<open>mnemo-core/src/models/entity.rs\<close> and
  \<^verbatim>\<open>edge.rs\<close>, and their stores in \<^verbatim>\<open>mnemo-storage/src/redis_store.rs\<close>. Names are ASCII text
  (\<^verbatim>\<open>to_lowercase\<close>); \<open>alnum\<close> stands for \<^verbatim>\<open>char::is_alphanumeric\<close>, \<open>ser\<close> and \<open>de\<close> for
  the JSON text of a belief change. The decay of confidence is float arithmetic and left out.
\<close>

section \<open>Entities\<close>

datatype entity_type = EnPerson | EnOrganization | EnProduct | EnLocation | EnEvent | EnConcept | EnCustom string

definition from_str_flexible :: "string \<Rightarrow> entity_type" where
  "from_str_flexible s =
     (let l = lowercase s in
      if l = ''person'' then EnPerson
      else if l = ''organization'' \<or> l = ''org'' \<or> l = ''company'' then EnOrganization
      else if l = ''product'' then EnProduct
      else if l = ''location'' \<or> l = ''place'' then EnLocation
      else if l = ''event'' then EnEvent
      else if l = ''concept'' \<or> l = ''idea'' \<or> l = ''topic'' then EnConcept
      else EnCustom l)"

fun entity_type_str :: "entity_type \<Rightarrow> string" where
  "entity_type_str EnPerson = ''person''"
| "entity_type_str EnOrganization = ''organization''"
| "entity_type_str EnProduct = ''product''"
| "entity_type_str EnLocation = ''location''"
| "entity_type_str EnEvent = ''event''"
| "entity_type_str EnConcept = ''concept''"
| "entity_type_str (EnCustom s) = s"

record entity =
  en_id :: uuid
  en_user_id :: uuid
  en_name :: string
  en_type :: entity_type
  en_summary :: "string option"
  en_aliases :: "string list"
  en_metadata :: json
  en_classification :: classification
  en_mention_count :: u64
  en_community_id :: "uuid option"
  en_created_at :: timestamp
  en_updated_at :: timestamp

record extracted_entity =
  xe_name :: string
  xe_type :: entity_type
  xe_summary :: "string option"
  xe_classification :: classification

definition entity_from_extraction :: "extracted_entity \<Rightarrow> uuid \<Rightarrow> timestamp \<Rightarrow> uuid \<Rightarrow> entity" where
  "entity_from_extraction x user_id now new_id =
     \<lparr>en_id = new_id, en_user_id = user_id, en_name = xe_name x, en_type = xe_type x, en_summary = xe_summary x,
      en_aliases = [], en_metadata = JObject [], en_classification = xe_classification x, en_mention_count = 1,
      en_community_id = None, en_created_at = now, en_updated_at = now\<rparr>"

text \<open>The release build wraps the count.\<close>

definition record_mention :: "timestamp \<Rightarrow> entity \<Rightarrow> entity" where
  "record_mention now e = e\<lparr>en_mention_count := en_mention_count e + 1, en_updated_at := now\<rparr>"

definition add_alias :: "string \<Rightarrow> timestamp \<Rightarrow> entity \<Rightarrow> entity" where
  "add_alias a now e =
     (let normalized = lowercase (trim a); existing = map lowercase (en_aliases e) in
      if \<not> List.member existing normalized \<and> normalized \<noteq> lowercase (en_name e)
      then e\<lparr>en_aliases := en_aliases e @ [a], en_updated_at := now\<rparr> else e)"

definition matches_name :: "string \<Rightarrow> entity \<Rightarrow> bool" where
  "matches_name candidate e =
     (let normalized = lowercase (trim candidate) in
      if lowercase (en_name e) = normalized then True else list_ex (\<lambda>a. lowercase a = normalized) (en_aliases e))"

definition update_summary :: "string \<Rightarrow> timestamp \<Rightarrow> entity \<Rightarrow> entity" where
  "update_summary s now e = e\<lparr>en_summary := Some s, en_updated_at := now\<rparr>"

section \<open>Edges\<close>

datatype fact_temporal_scope = FtMutable | FtStable | FtTimeBounded "timestamp option"

fun is_current_at :: "timestamp \<Rightarrow> fact_temporal_scope \<Rightarrow> bool" where
  "is_current_at now FtMutable = True"
| "is_current_at now FtStable = True"
| "is_current_at now (FtTimeBounded expires_at) = (case expires_at of Some x \<Rightarrow> now < x | None \<Rightarrow> True)"

definition resists_decay :: "fact_temporal_scope \<Rightarrow> bool" where
  "resists_decay s \<longleftrightarrow> s = FtStable"

record edge =
  ed_id :: uuid
  ed_user_id :: uuid
  ed_source :: uuid
  ed_target :: uuid
  ed_label :: string
  ed_fact :: string
  ed_valid_at :: timestamp
  ed_invalid_at :: "timestamp option"
  ed_ingested_at :: timestamp
  ed_source_episode_id :: uuid
  ed_source_agent_id :: "string option"
  ed_invalidated_by :: "uuid option"
  ed_confidence :: f32
  ed_corroboration_count :: u32
  ed_metadata :: json
  ed_classification :: classification
  ed_created_at :: timestamp
  ed_updated_at :: timestamp
  ed_temporal_scope :: "fact_temporal_scope option"
  ed_access_count :: u32
  ed_last_accessed_at :: "timestamp option"

definition validate_edge_label :: "(char \<Rightarrow> bool) \<Rightarrow> string \<Rightarrow> string + unit" where
  "validate_edge_label alnum label =
     (let bad = (\<lambda>c. \<not> alnum c \<and> c \<noteq> CHR ''_'' \<and> c \<noteq> CHR ''-'' \<and> c \<noteq> CHR '' '') in
      if label = [] then Inl ''edge label cannot be empty''
      else if length label > 128 then Inl ''edge label exceeds maximum length of 128 characters''
      else if length (trim label) \<noteq> length label then Inl ''edge label cannot have leading or trailing whitespace''
      else if trim label = [] then Inl ''edge label cannot be all whitespace''
      else (case List.find bad label of
              Some c \<Rightarrow> Inl (''edge label contains invalid character '' @ [CHR 0x27, c, CHR 0x27] @
                ''; allowed: alphanumeric, underscore, hyphen, space'')
            | None \<Rightarrow> Inr ()))"

record extracted_relationship =
  xr_source_name :: string
  xr_target_name :: string
  xr_label :: string
  xr_fact :: string
  xr_confidence :: f32
  xr_valid_at :: "timestamp option"
  xr_classification :: classification
  xr_temporal_scope :: "fact_temporal_scope option"

definition edge_from_extraction ::
  "extracted_relationship \<Rightarrow> uuid \<Rightarrow> uuid \<Rightarrow> uuid \<Rightarrow> uuid \<Rightarrow> timestamp \<Rightarrow> string option \<Rightarrow> timestamp \<Rightarrow> uuid \<Rightarrow> edge" where
  "edge_from_extraction rel user_id src tgt episode_id event_time agent now new_id =
     \<lparr>ed_id = new_id, ed_user_id = user_id, ed_source = src, ed_target = tgt, ed_label = xr_label rel, ed_fact = xr_fact rel,
      ed_valid_at = (case xr_valid_at rel of Some v \<Rightarrow> v | None \<Rightarrow> event_time), ed_invalid_at = None, ed_ingested_at = now,
      ed_source_episode_id = episode_id, ed_source_agent_id = agent, ed_invalidated_by = None,
      ed_confidence = xr_confidence rel, ed_corroboration_count = 1, ed_metadata = JObject [],
      ed_classification = xr_classification rel, ed_created_at = now, ed_updated_at = now,
      ed_temporal_scope = xr_temporal_scope rel, ed_access_count = 0, ed_last_accessed_at = None\<rparr>"

definition is_valid :: "edge \<Rightarrow> bool" where
  "is_valid e \<longleftrightarrow> ed_invalid_at e = None"

definition is_valid_at :: "timestamp \<Rightarrow> edge \<Rightarrow> bool" where
  "is_valid_at time e =
     (if ed_valid_at e > time then False
      else case ed_invalid_at e of Some invalid \<Rightarrow> time < invalid | None \<Rightarrow> True)"

definition invalidate :: "uuid \<Rightarrow> timestamp \<Rightarrow> edge \<Rightarrow> edge" where
  "invalidate by_episode now e =
     e\<lparr>ed_invalid_at := Some now, ed_invalidated_by := Some by_episode, ed_updated_at := now\<rparr>"

definition corroborate :: "timestamp \<Rightarrow> edge \<Rightarrow> edge" where
  "corroborate now e = e\<lparr>ed_corroboration_count := ed_corroboration_count e + 1, ed_updated_at := now\<rparr>"

record edge_filter =
  ef_source :: "uuid option"
  ef_target :: "uuid option"
  ef_label :: "string option"
  ef_valid_at_time :: "timestamp option"
  ef_include_invalidated :: bool
  ef_max_classification :: "classification option"
  ef_limit :: u32

definition edge_filter_default :: edge_filter where
  "edge_filter_default = \<lparr>ef_source = None, ef_target = None, ef_label = None, ef_valid_at_time = None,
     ef_include_invalidated = False, ef_max_classification = None, ef_limit = 100\<rparr>"

definition edge_matches :: "edge_filter \<Rightarrow> edge \<Rightarrow> bool" where
  "edge_matches f e \<longleftrightarrow>
     (case ef_source f of Some s \<Rightarrow> ed_source e = s | None \<Rightarrow> True) \<and>
     (case ef_target f of Some t \<Rightarrow> ed_target e = t | None \<Rightarrow> True) \<and>
     (case ef_label f of Some l \<Rightarrow> ed_label e = l | None \<Rightarrow> True) \<and>
     (case ef_valid_at_time f of Some t \<Rightarrow> is_valid_at t e | None \<Rightarrow> True) \<and>
     (ef_include_invalidated f \<or> is_valid e) \<and>
     (case ef_max_classification f of
        Some m \<Rightarrow> classification_rank (ed_classification e) \<le> classification_rank m | None \<Rightarrow> True)"

record belief_change =
  bc_id :: uuid
  bc_user_id :: uuid
  bc_subject :: string
  bc_predicate :: string
  bc_old_value :: string
  bc_new_value :: string
  bc_old_edge_id :: uuid
  bc_new_edge_id :: uuid
  bc_detected_at :: timestamp
  bc_auto_superseded :: bool

record belief_changes_query =
  bq_limit :: u32
  bq_since :: "timestamp option"

section \<open>The store\<close>

text \<open>
  \<^verbatim>\<open>entity:{id}\<close>, \<^verbatim>\<open>user_entities:{user}\<close>, \<^verbatim>\<open>entity_name:{user}:{name}\<close>, \<^verbatim>\<open>edge:{id}\<close>,
  \<^verbatim>\<open>adj_out:{entity}\<close>, \<^verbatim>\<open>adj_in:{entity}\<close>, \<^verbatim>\<open>user_edges:{user}\<close> and \<^verbatim>\<open>belief_changes:{user}\<close>.
\<close>

record graph_store =
  gs_entities :: "(uuid, entity) btree_map"
  gs_user_entities :: "uuid \<Rightarrow> uuid zset"
  gs_entity_name :: "uuid \<times> string \<rightharpoonup> uuid"
  gs_edges :: "(uuid, edge) btree_map"
  gs_out :: "uuid \<Rightarrow> uuid zset"
  gs_in :: "uuid \<Rightarrow> uuid zset"
  gs_user_edges :: "uuid \<Rightarrow> uuid zset"
  gs_beliefs :: "uuid \<Rightarrow> string zset"

definition graph_store_new :: graph_store where
  "graph_store_new = \<lparr>gs_entities = [], gs_user_entities = (\<lambda>_. []), gs_entity_name = Map.empty, gs_edges = [],
     gs_out = (\<lambda>_. []), gs_in = (\<lambda>_. []), gs_user_edges = (\<lambda>_. []), gs_beliefs = (\<lambda>_. [])\<rparr>"

definition create_entity :: "entity \<Rightarrow> graph_store \<Rightarrow> entity \<times> graph_store" where
  "create_entity e st =
     (let u = en_user_id e in
      (e, st\<lparr>gs_entities := bt_insert (en_id e) e (gs_entities st),
         gs_user_entities := (gs_user_entities st)
           (u := zadd (timestamp_millis (en_created_at e)) (en_id e) (gs_user_entities st u)),
         gs_entity_name := (gs_entity_name st)((u, lowercase (en_name e)) \<mapsto> en_id e)\<rparr>))"

definition get_entity :: "uuid \<Rightarrow> graph_store \<Rightarrow> mnemo_error + entity" where
  "get_entity i st = (case map_of (gs_entities st) i of Some e \<Rightarrow> Inr e | None \<Rightarrow> Inl (EntityNotFound i))"

definition update_entity :: "entity \<Rightarrow> graph_store \<Rightarrow> graph_store" where
  "update_entity e st = st\<lparr>gs_entities := bt_insert (en_id e) e (gs_entities st)\<rparr>"

definition delete_entity :: "uuid \<Rightarrow> graph_store \<Rightarrow> (mnemo_error + unit) \<times> graph_store" where
  "delete_entity i st =
     (case get_entity i st of
        Inl x \<Rightarrow> (Inl x, st)
      | Inr e \<Rightarrow>
        let u = en_user_id e in
        (Inr (), st\<lparr>gs_entities := bt_remove i (gs_entities st),
           gs_user_entities := (gs_user_entities st)(u := zrem i (gs_user_entities st u)),
           gs_entity_name := (gs_entity_name st)((u, lowercase (en_name e)) := None)\<rparr>))"

definition find_entity_by_name :: "uuid \<Rightarrow> string \<Rightarrow> graph_store \<Rightarrow> mnemo_error + entity option" where
  "find_entity_by_name user_id name st =
     (case gs_entity_name st (user_id, lowercase name) of
        Some i \<Rightarrow> (case get_entity i st of Inl x \<Rightarrow> Inl x | Inr e \<Rightarrow> Inr (Some e))
      | None \<Rightarrow> Inr None)"

definition list_entities :: "uuid \<Rightarrow> nat \<Rightarrow> uuid option \<Rightarrow> graph_store \<Rightarrow> entity list" where
  "list_entities user_id lmt after st = list_from_zset (gs_entities st) (gs_user_entities st user_id) lmt after"

definition create_edge :: "(char \<Rightarrow> bool) \<Rightarrow> edge \<Rightarrow> graph_store \<Rightarrow> (mnemo_error + edge) \<times> graph_store" where
  "create_edge alnum e st =
     (case validate_edge_label alnum (ed_label e) of
        Inl x \<Rightarrow> (Inl (Validation x), st)
      | Inr _ \<Rightarrow>
        let s = timestamp_millis (ed_valid_at e); i = ed_id e in
        (Inr e, st\<lparr>gs_edges := bt_insert i e (gs_edges st),
           gs_out := (gs_out st)(ed_source e := zadd s i (gs_out st (ed_source e))),
           gs_in := (gs_in st)(ed_target e := zadd s i (gs_in st (ed_target e))),
           gs_user_edges := (gs_user_edges st)(ed_user_id e := zadd s i (gs_user_edges st (ed_user_id e)))\<rparr>))"

definition get_edge :: "uuid \<Rightarrow> graph_store \<Rightarrow> mnemo_error + edge" where
  "get_edge i st = (case map_of (gs_edges st) i of Some e \<Rightarrow> Inr e | None \<Rightarrow> Inl (EdgeNotFound i))"

definition update_edge :: "edge \<Rightarrow> graph_store \<Rightarrow> graph_store" where
  "update_edge e st = st\<lparr>gs_edges := bt_insert (ed_id e) e (gs_edges st)\<rparr>"

definition delete_edge :: "uuid \<Rightarrow> graph_store \<Rightarrow> (mnemo_error + unit) \<times> graph_store" where
  "delete_edge i st =
     (case get_edge i st of
        Inl x \<Rightarrow> (Inl x, st)
      | Inr e \<Rightarrow>
        (Inr (), st\<lparr>gs_edges := bt_remove i (gs_edges st),
           gs_out := (gs_out st)(ed_source e := zrem i (gs_out st (ed_source e))),
           gs_in := (gs_in st)(ed_target e := zrem i (gs_in st (ed_target e))),
           gs_user_edges := (gs_user_edges st)(ed_user_id e := zrem i (gs_user_edges st (ed_user_id e)))\<rparr>))"

text \<open>Three times the limit is fetched, newest facts first, and filtered in memory.\<close>

definition query_edges :: "uuid \<Rightarrow> edge_filter \<Rightarrow> graph_store \<Rightarrow> edge list" where
  "query_edges user_id f st =
     take (unat (ef_limit f))
       (filter (edge_matches f)
         (list_from_zset (gs_edges st) (gs_user_edges st user_id) (unat (saturating_mul (ef_limit f) 3)) None))"

definition get_outgoing_edges :: "uuid \<Rightarrow> graph_store \<Rightarrow> edge list" where
  "get_outgoing_edges i st = list_from_zset (gs_edges st) (gs_out st i) 1000 None"

definition get_incoming_edges :: "uuid \<Rightarrow> graph_store \<Rightarrow> edge list" where
  "get_incoming_edges i st = list_from_zset (gs_edges st) (gs_in st i) 1000 None"

definition find_conflicting_edges :: "uuid \<Rightarrow> uuid \<Rightarrow> uuid \<Rightarrow> string \<Rightarrow> graph_store \<Rightarrow> edge list" where
  "find_conflicting_edges user_id src tgt label st =
     filter (\<lambda>e. ed_target e = tgt \<and> ed_label e = label \<and> ed_user_id e = user_id \<and> is_valid e)
       (get_outgoing_edges src st)"

definition record_edge_access :: "uuid \<Rightarrow> timestamp \<Rightarrow> timestamp \<Rightarrow> graph_store \<Rightarrow> graph_store" where
  "record_edge_access i now now2 st =
     (case map_of (gs_edges st) i of
        None \<Rightarrow> st
      | Some e \<Rightarrow> st\<lparr>gs_edges := bt_insert i
          (e\<lparr>ed_access_count := (if ed_access_count e = -1 then -1 else ed_access_count e + 1),
             ed_last_accessed_at := Some now, ed_updated_at := now2\<rparr>) (gs_edges st)\<rparr>)"

text \<open>\<^verbatim>\<open>ZREMRANGEBYRANK key 0 -1001\<close> leaves the thousand newest members.\<close>

definition record_belief_change :: "(belief_change \<Rightarrow> string) \<Rightarrow> belief_change \<Rightarrow> graph_store \<Rightarrow> graph_store" where
  "record_belief_change ser c st =
     (let z = zadd (timestamp_millis (bc_detected_at c)) (ser c) (gs_beliefs st (bc_user_id c))
      in st\<lparr>gs_beliefs := (gs_beliefs st)(bc_user_id c := drop (length z - 1000) z)\<rparr>)"

definition list_belief_changes ::
  "(string \<Rightarrow> belief_change option) \<Rightarrow> uuid \<Rightarrow> belief_changes_query \<Rightarrow> graph_store \<Rightarrow> belief_change list" where
  "list_belief_changes de user_id q st =
     (let lo = (case bq_since q of Some t \<Rightarrow> Some (timestamp_millis t) | None \<Rightarrow> None);
          hits = filter (\<lambda>e. case lo of None \<Rightarrow> True | Some l \<Rightarrow> l \<le> fst e) (gs_beliefs st user_id)
      in List.map_filter de (take (max 1 (unat (bq_limit q))) (rev (map snd hits))))"

section \<open>Well-formed graphs\<close>

text \<open>
  Each index holds exactly the documents it is for, at their scores; a name leads to an entity of its user
  with this name. Edges may point to entities that are gone: a deletion leaves them.
\<close>

definition entity_score :: "entity \<Rightarrow> int" where
  "entity_score e = timestamp_millis (en_created_at e)"

definition edge_score :: "edge \<Rightarrow> int" where
  "edge_score e = timestamp_millis (ed_valid_at e)"

definition graph_ok :: "graph_store \<Rightarrow> bool" where
  "graph_ok st \<longleftrightarrow>
     (\<forall>u. indexed en_id (\<lambda>e. en_user_id e = u) entity_score (gs_entities st) (gs_user_entities st u)) \<and>
     (\<forall>u. indexed ed_id (\<lambda>e. ed_user_id e = u) edge_score (gs_edges st) (gs_user_edges st u)) \<and>
     (\<forall>i. indexed ed_id (\<lambda>e. ed_source e = i) edge_score (gs_edges st) (gs_out st i)) \<and>
     (\<forall>i. indexed ed_id (\<lambda>e. ed_target e = i) edge_score (gs_edges st) (gs_in st i)) \<and>
     (\<forall>u n i. gs_entity_name st (u, n) = Some i \<longrightarrow>
        (\<exists>e. map_of (gs_entities st) i = Some e \<and> en_user_id e = u \<and> lowercase (en_name e) = n))"

lemma graph_okD:
  assumes "graph_ok st"
  shows "indexed en_id (\<lambda>e. en_user_id e = u) entity_score (gs_entities st) (gs_user_entities st u)"
    and "indexed ed_id (\<lambda>e. ed_user_id e = u) edge_score (gs_edges st) (gs_user_edges st u)"
    and "indexed ed_id (\<lambda>e. ed_source e = i) edge_score (gs_edges st) (gs_out st i)"
    and "indexed ed_id (\<lambda>e. ed_target e = i) edge_score (gs_edges st) (gs_in st i)"
    and "gs_entity_name st (u, n) = Some i \<Longrightarrow>
        \<exists>e. map_of (gs_entities st) i = Some e \<and> en_user_id e = u \<and> lowercase (en_name e) = n"
  using assms by (simp_all add: graph_ok_def)

lemma graph_ok_new: "graph_ok graph_store_new"
  by (simp add: graph_ok_def graph_store_new_def indexed_Nil)

lemma graph_edge_id: "graph_ok st \<Longrightarrow> map_of (gs_edges st) i = Some e \<Longrightarrow> ed_id e = i"
  using graph_okD(2)[of st undefined] by (simp add: indexed_def)

lemma graph_entity_id: "graph_ok st \<Longrightarrow> map_of (gs_entities st) i = Some e \<Longrightarrow> en_id e = i"
  using graph_okD(1)[of st undefined] by (simp add: indexed_def)

text \<open>One document more in a family of indexes of which it belongs to one.\<close>

lemma indexed_family_insert:
  assumes ix: "\<forall>k. indexed ident (\<lambda>d. key d = k) sc docs (z k)" and "ident d = i" and "map_of docs i = None"
  shows "indexed ident (\<lambda>d. key d = k) sc (bt_insert i d docs) ((z(key d := zadd (sc d) i (z (key d)))) k)"
  using indexed_insert[OF ix[rule_format, of k], where d = d and i = i]
    indexed_insert_other[OF ix[rule_format, of k], where d = d and i = i] assms(2,3) by auto

lemma indexed_family_update:
  assumes "\<forall>k. indexed ident (\<lambda>d. key d = k) sc docs (z k)" and "map_of docs i = Some d"
    and "ident d' = i" "key d' = key d" "sc d' = sc d"
  shows "indexed ident (\<lambda>d. key d = k) sc (bt_insert i d' docs) (z k)"
  using assms by (auto intro!: indexed_update)

lemma indexed_family_remove:
  assumes ix: "\<forall>k. indexed ident (\<lambda>d. key d = k) sc docs (z k)" and "map_of docs i = Some d"
  shows "indexed ident (\<lambda>d. key d = k) sc (bt_remove i docs) ((z(key d := zrem i (z (key d)))) k)"
  using indexed_remove[OF ix[rule_format, of k], where i = i]
    indexed_remove_other[OF ix[rule_format, of k], where i = i] assms(2) by auto

lemma graph_ok_create_entity:
  assumes ok: "graph_ok st" and fresh: "map_of (gs_entities st) (en_id e) = None"
  shows "graph_ok (snd (create_entity e st))"
proof -
  have fam: "\<forall>k. indexed en_id (\<lambda>e. en_user_id e = k) entity_score (gs_entities st) (gs_user_entities st k)"
    using graph_okD(1)[OF ok] by blast
  have name: "\<exists>e'. map_of (bt_insert (en_id e) e (gs_entities st)) i = Some e' \<and> en_user_id e' = u \<and> lowercase (en_name e') = n"
    if h: "((gs_entity_name st)((en_user_id e, lowercase (en_name e)) \<mapsto> en_id e)) (u, n) = Some i" for u n i
  proof (cases "(u, n) = (en_user_id e, lowercase (en_name e))")
    case False
    then have "gs_entity_name st (u, n) = Some i" using h by auto
    from graph_okD(5)[OF ok this] fresh show ?thesis by (auto simp: map_of_bt_insert)
  qed (use h in \<open>auto simp: map_of_bt_insert\<close>)
  show ?thesis
    using indexed_family_insert[OF fam refl fresh] ok name
    by (simp add: graph_ok_def create_entity_def Let_def entity_score_def)
qed

lemma graph_ok_update_entity:
  assumes ok: "graph_ok st" and "map_of (gs_entities st) (en_id e) = Some d"
    and "en_user_id e = en_user_id d" "en_name e = en_name d" "en_created_at e = en_created_at d"
  shows "graph_ok (update_entity e st)"
proof -
  have fam: "\<forall>k. indexed en_id (\<lambda>e. en_user_id e = k) entity_score (gs_entities st) (gs_user_entities st k)"
    using graph_okD(1)[OF ok] by blast
  have name: "\<exists>e'. map_of (bt_insert (en_id e) e (gs_entities st)) i = Some e' \<and> en_user_id e' = u \<and> lowercase (en_name e') = n"
    if "gs_entity_name st (u, n) = Some i" for u n i
    using graph_okD(5)[OF ok that] assms(2-4) by (auto simp: map_of_bt_insert)
  show ?thesis
    using indexed_family_update[OF fam assms(2), of e] assms(3-5) ok name
    by (simp add: graph_ok_def update_entity_def entity_score_def)
qed

lemma graph_ok_delete_entity:
  assumes ok: "graph_ok st"
  shows "graph_ok (snd (delete_entity i st))"
proof (cases "map_of (gs_entities st) i")
  case None then show ?thesis using ok by (simp add: delete_entity_def get_entity_def)
next
  case (Some e)
  have fam: "\<forall>k. indexed en_id (\<lambda>e. en_user_id e = k) entity_score (gs_entities st) (gs_user_entities st k)"
    using graph_okD(1)[OF ok] by blast
  have name: "\<exists>e'. map_of (bt_remove i (gs_entities st)) j = Some e' \<and> en_user_id e' = u \<and> lowercase (en_name e') = n"
    if "((gs_entity_name st)((en_user_id e, lowercase (en_name e)) := None)) (u, n) = Some j" for u n j
  proof -
    have "gs_entity_name st (u, n) = Some j" and ne: "(u, n) \<noteq> (en_user_id e, lowercase (en_name e))"
      using that by (auto split: if_splits)
    from graph_okD(5)[OF ok this(1)] obtain e' where e': "map_of (gs_entities st) j = Some e'"
        "en_user_id e' = u" "lowercase (en_name e') = n" by blast
    then have "j \<noteq> i" using ne Some by auto
    then show ?thesis using e' by (simp add: map_of_bt_remove)
  qed
  show ?thesis
    using indexed_family_remove[OF fam Some] ok name
    by (simp add: graph_ok_def delete_entity_def get_entity_def Some Let_def)
qed

lemma graph_edge_families:
  assumes "graph_ok st"
  shows "\<forall>k. indexed ed_id (\<lambda>e. ed_user_id e = k) edge_score (gs_edges st) (gs_user_edges st k)"
    and "\<forall>k. indexed ed_id (\<lambda>e. ed_source e = k) edge_score (gs_edges st) (gs_out st k)"
    and "\<forall>k. indexed ed_id (\<lambda>e. ed_target e = k) edge_score (gs_edges st) (gs_in st k)"
  using graph_okD[OF assms] by blast+

lemma graph_ok_create_edge:
  assumes ok: "graph_ok st" and fresh: "map_of (gs_edges st) (ed_id e) = None"
  shows "graph_ok (snd (create_edge alnum e st))"
proof (cases "validate_edge_label alnum (ed_label e)")
  case Inl then show ?thesis using ok by (simp add: create_edge_def)
next
  case Inr
  note fam = graph_edge_families[OF ok]
  show ?thesis
    using indexed_family_insert[OF fam(1), of e "ed_id e"] indexed_family_insert[OF fam(2), of e "ed_id e"]
      indexed_family_insert[OF fam(3), of e "ed_id e"] fresh ok
    by (simp add: graph_ok_def create_edge_def Inr Let_def edge_score_def)
qed

lemma graph_ok_update_edge:
  assumes ok: "graph_ok st" and d: "map_of (gs_edges st) (ed_id e) = Some d"
    and same: "ed_user_id e = ed_user_id d" "ed_source e = ed_source d" "ed_target e = ed_target d" "ed_valid_at e = ed_valid_at d"
  shows "graph_ok (update_edge e st)"
proof -
  note fam = graph_edge_families[OF ok]
  have sc: "edge_score e = edge_score d" using same by (simp add: edge_score_def)
  show ?thesis
    using indexed_family_update[OF fam(1) d refl same(1) sc] indexed_family_update[OF fam(2) d refl same(2) sc]
      indexed_family_update[OF fam(3) d refl same(3) sc] ok
    by (simp add: graph_ok_def update_edge_def)
qed

lemma graph_ok_delete_edge:
  assumes ok: "graph_ok st"
  shows "graph_ok (snd (delete_edge i st))"
proof (cases "map_of (gs_edges st) i")
  case None then show ?thesis using ok by (simp add: delete_edge_def get_edge_def)
next
  case (Some e)
  note fam = graph_edge_families[OF ok]
  show ?thesis
    using indexed_family_remove[OF fam(1) Some] indexed_family_remove[OF fam(2) Some]
      indexed_family_remove[OF fam(3) Some] ok
    by (simp add: graph_ok_def delete_edge_def get_edge_def Some Let_def)
qed

text \<open>What a listing returns: stored edges of the entity, all of them up to the page size.\<close>

lemma set_outgoing: "graph_ok st \<Longrightarrow> e \<in> set (get_outgoing_edges i st) \<Longrightarrow>
    map_of (gs_edges st) (ed_id e) = Some e \<and> ed_source e = i"
  unfolding get_outgoing_edges_def
  using indexed_page_items[OF graph_okD(3), of st 1000 i None] set_all_indexed[OF graph_okD(3), of st i]
    graph_edge_id[of st] by (force simp: ran_def)

lemma outgoing_all:
  assumes "graph_ok st" and "length (gs_out st i) \<le> 1000"
  shows "set (get_outgoing_edges i st) = {e. map_of (gs_edges st) (ed_id e) = Some e \<and> ed_source e = i}"
proof -
  note ix = graph_okD(3)[OF assms(1), of i]
  have "get_outgoing_edges i st = all_indexed (gs_edges st) (gs_out st i)"
    using page_first[OF ix, of 1000] assms(2)
    by (simp add: get_outgoing_edges_def all_indexed_eq[OF ix])
  then show ?thesis
    using set_all_indexed[OF ix] graph_edge_id[OF assms(1)] by (auto simp: ran_def)
qed

section \<open>A sample\<close>

text \<open>A sample: two entities of a user and a fact between them.\<close>

definition sample_entity :: "uuid \<Rightarrow> string \<Rightarrow> entity" where
  "sample_entity i name = entity_from_extraction
     \<lparr>xe_name = name, xe_type = EnPerson, xe_summary = None, xe_classification = ClInternal\<rparr> 5 0 i"

definition sample_fact :: edge where
  "sample_fact = edge_from_extraction
     \<lparr>xr_source_name = ''Ann'', xr_target_name = ''Bob'', xr_label = ''knows'', xr_fact = ''Ann knows Bob'',
      xr_confidence = Fin 1, xr_valid_at = None, xr_classification = ClInternal, xr_temporal_scope = None\<rparr>
     5 1 2 9 0 None 0 10"

definition sample_graph :: graph_store where
  "sample_graph = snd (create_edge (\<lambda>_. True) sample_fact
     (snd (create_entity (sample_entity 2 ''Bob'') (snd (create_entity (sample_entity 1 ''Ann'') graph_store_new)))))"

lemma sample_graph_ok: "graph_ok sample_graph"
  unfolding sample_graph_def
  by (intro graph_ok_create_edge graph_ok_create_entity graph_ok_new)
    (simp_all add: create_entity_def graph_store_new_def sample_entity_def sample_fact_def entity_from_extraction_def
      edge_from_extraction_def Let_def)

end
