(* ===== verification/Graph_Traversal.thy ===== *)
theory Graph_Traversal
  imports Knowledge_Graph
begin

text \<open>
  The graph engine, \<^verbatim>\<open>mnemo-graph/src/lib.rs\<close>: the breadth-first subgraph around an
  entity and the shortest path between two entities, both restricted to the edges and entities
  of a user. Depths are natural numbers: a depth is only incremented below \<^verbatim>\<open>max_depth\<close>, so
  the \<^verbatim>\<open>u32\<close> does not wrap. The theory first proves breadth-first search correct for any
  successor function, then relates both loops of the code to it.
\<close>

section \<open>Breadth-first search\<close>

primrec hops :: "('a \<Rightarrow> 'a list) \<Rightarrow> 'a \<Rightarrow> nat \<Rightarrow> 'a \<Rightarrow> bool" where
  "hops succ s 0 v \<longleftrightarrow> v = s"
| "hops succ s (Suc n) v \<longleftrightarrow> (\<exists>u. hops succ s n u \<and> v \<in> set (succ u))"

text \<open>
  The state of a search from \<open>s\<close> up to depth \<open>m\<close>: the depth of every node seen and the queue.
  The queue holds depths \<open>h\<close> and \<open>h + 1\<close> in this order, and every node that left it, except
  those of \<open>ex\<close> that are being expanded, has all its successors seen.
\<close>

definition bfs_inv :: "('a \<Rightarrow> 'a list) \<Rightarrow> 'a \<Rightarrow> nat \<Rightarrow> nat \<Rightarrow> 'a set \<Rightarrow> ('a \<rightharpoonup> nat) \<Rightarrow> 'a list \<Rightarrow> bool" where
  "bfs_inv succ s m h ex dep q \<longleftrightarrow>
     dep s = Some 0 \<and>
     (\<forall>v d. dep v = Some d \<longrightarrow> d \<le> m \<and> d \<le> Suc h \<and> hops succ s d v) \<and>
     (\<forall>v \<in> set q. \<exists>d. dep v = Some d \<and> h \<le> d) \<and>
     sorted (map (\<lambda>v. the (dep v)) q) \<and>
     (\<forall>v d. dep v = Some d \<and> v \<notin> set q \<longrightarrow> d \<le> h \<and>
        (v \<notin> ex \<longrightarrow> d < m \<longrightarrow> (\<forall>w \<in> set (succ v). \<exists>e. dep w = Some e \<and> e \<le> Suc d))) \<and>
     (\<forall>v \<in> ex. dep v = Some h)"

lemma bfs_invD:
  assumes "bfs_inv succ s m h ex dep q"
  shows "dep s = Some 0"
    and "dep v = Some d \<Longrightarrow> d \<le> m \<and> d \<le> Suc h \<and> hops succ s d v"
    and "v \<in> set q \<Longrightarrow> \<exists>d. dep v = Some d \<and> h \<le> d"
    and "sorted (map (\<lambda>v. the (dep v)) q)"
    and "dep v = Some d \<Longrightarrow> v \<notin> set q \<Longrightarrow> d \<le> h"
    and "dep v = Some d \<Longrightarrow> v \<notin> set q \<Longrightarrow> v \<notin> ex \<Longrightarrow> d < m \<Longrightarrow> w \<in> set (succ v) \<Longrightarrow> \<exists>e. dep w = Some e \<and> e \<le> Suc d"
    and "v \<in> ex \<Longrightarrow> dep v = Some h"
  using assms by (simp_all add: bfs_inv_def)

lemma bfs_invI:
  assumes "dep s = Some 0"
    and "\<And>v d. dep v = Some d \<Longrightarrow> d \<le> m \<and> d \<le> Suc h \<and> hops succ s d v"
    and "\<And>v. v \<in> set q \<Longrightarrow> \<exists>d. dep v = Some d \<and> h \<le> d"
    and "sorted (map (\<lambda>v. the (dep v)) q)"
    and "\<And>v d. dep v = Some d \<Longrightarrow> v \<notin> set q \<Longrightarrow> d \<le> h"
    and "\<And>v d w. dep v = Some d \<Longrightarrow> v \<notin> set q \<Longrightarrow> v \<notin> ex \<Longrightarrow> d < m \<Longrightarrow> w \<in> set (succ v) \<Longrightarrow> \<exists>e. dep w = Some e \<and> e \<le> Suc d"
    and "\<And>v. v \<in> ex \<Longrightarrow> dep v = Some h"
  shows "bfs_inv succ s m h ex dep q"
  using assms by (auto simp: bfs_inv_def)

lemma bfs_start: "bfs_inv succ s m 0 {} [s \<mapsto> 0] [s]"
  by (simp add: bfs_inv_def)

lemma bfs_pop:
  assumes inv: "bfs_inv succ s m h {} dep (u # q)" and u: "dep u = Some d"
  shows "bfs_inv succ s m d {u} dep q"
proof -
  note D = bfs_invD[OF inv]
  have hd: "h \<le> d" using D(3)[of u] u by simp
  show ?thesis
  proof (rule bfs_invI)
    show "e \<le> m \<and> e \<le> Suc d \<and> hops succ s e v" if "dep v = Some e" for v e
      using D(2)[OF that] hd by simp
    show "\<exists>e. dep v = Some e \<and> d \<le> e" if "v \<in> set q" for v
      using D(3)[of v] D(4) that u by fastforce
    show "e \<le> d" if "dep v = Some e" "v \<notin> set q" for v e
      using D(5)[OF that(1)] that u hd by (cases "v = u") auto
    show "\<exists>e'. dep w = Some e' \<and> e' \<le> Suc e"
      if "dep v = Some e" "v \<notin> set q" "v \<notin> {u}" "e < m" "w \<in> set (succ v)" for v e w
      using D(6)[OF that(1)] that by simp
  qed (use D(1,4) u in simp_all)
qed

lemma bfs_add:
  assumes inv: "bfs_inv succ s m h {u} dep q" and v: "dep v = None" "v \<in> set (succ u)" "h < m"
  shows "bfs_inv succ s m h {u} (dep(v \<mapsto> Suc h)) (q @ [v])"
proof -
  note D = bfs_invD[OF inv]
  have vq: "v \<notin> set q" using D(3)[of v] v(1) by auto
  have u: "dep u = Some h" using D(7) by simp
  show ?thesis
  proof (rule bfs_invI)
    show "(dep(v \<mapsto> Suc h)) s = Some 0" using D(1) v(1) by auto
    show "e \<le> m \<and> e \<le> Suc h \<and> hops succ s e w" if "(dep(v \<mapsto> Suc h)) w = Some e" for w e
      using that D(2)[of w e] D(2)[OF u] v by (auto split: if_splits)
    show "\<exists>d. (dep(v \<mapsto> Suc h)) w = Some d \<and> h \<le> d" if "w \<in> set (q @ [v])" for w
      using that D(3)[of w] by auto
    have "map (\<lambda>w. the ((dep(v \<mapsto> Suc h)) w)) (q @ [v]) = map (\<lambda>w. the (dep w)) q @ [Suc h]"
      using vq by auto
    moreover have "the (dep w) \<le> Suc h" if "w \<in> set q" for w
      using D(3)[OF that] D(2)[of w] by auto
    ultimately show "sorted (map (\<lambda>w. the ((dep(v \<mapsto> Suc h)) w)) (q @ [v]))"
      using D(4) by (simp only: sorted_append) auto
    show "d \<le> h" if "(dep(v \<mapsto> Suc h)) w = Some d" "w \<notin> set (q @ [v])" for w d
      using D(5)[of w d] that by auto
    show "\<exists>e'. (dep(v \<mapsto> Suc h)) x = Some e' \<and> e' \<le> Suc d"
      if "(dep(v \<mapsto> Suc h)) w = Some d" "w \<notin> set (q @ [v])" "w \<notin> {u}" "d < m" "x \<in> set (succ w)" for w d x
      using D(6)[of w d x] that v(1) by auto
    show "(dep(v \<mapsto> Suc h)) w = Some h" if "w \<in> {u}" for w
      using that u v(1) by auto
  qed
qed

lemma bfs_close:
  assumes inv: "bfs_inv succ s m h {u} dep q" and all: "h < m \<Longrightarrow> set (succ u) \<subseteq> dom dep"
  shows "bfs_inv succ s m h {} dep q"
proof -
  note D = bfs_invD[OF inv]
  show ?thesis
  proof (rule bfs_invI)
    show "\<exists>e. dep w = Some e \<and> e \<le> Suc d"
      if "dep v = Some d" "v \<notin> set q" "v \<notin> {}" "d < m" "w \<in> set (succ v)" for v d w
    proof (cases "v = u")
      case True
      then have "d = h" using D(7)[of u] that(1) by simp
      then have "w \<in> dom dep" using all that True by auto
      then obtain e where "dep w = Some e" by auto
      then show ?thesis using D(2)[of w e] \<open>d = h\<close> by auto
    qed (use D(6) that in auto)
  qed (use D in auto)
qed

lemma bfs_near:
  assumes inv: "bfs_inv succ s m h ex dep q"
  shows "hops succ s n v \<Longrightarrow> n \<le> h \<Longrightarrow> n \<le> m \<Longrightarrow> \<exists>e. dep v = Some e \<and> e \<le> n"
proof (induction n arbitrary: v)
  case 0
  then show ?case using bfs_invD(1)[OF inv] by simp
next
  case (Suc n)
  note D = bfs_invD[OF inv]
  from Suc.prems obtain u where u: "hops succ s n u" "v \<in> set (succ u)" by auto
  then obtain d where d: "dep u = Some d" "d \<le> n" using Suc by fastforce
  have "u \<notin> set q" using D(3)[of u] d Suc.prems(2) by auto
  moreover have "u \<notin> ex" using D(7)[of u] d Suc.prems(2) by auto
  ultimately show ?case using D(6)[OF d(1) _ _ _ u(2)] d Suc.prems(3) by fastforce
qed

lemma bfs_minimal:
  assumes inv: "bfs_inv succ s m h ex dep q" and "dep v = Some d" and "hops succ s n v"
  shows "d \<le> n"
proof (rule ccontr)
  assume "\<not> d \<le> n"
  with bfs_invD(2)[OF inv assms(2)] have "n \<le> h" "n \<le> m" by auto
  with bfs_near[OF inv assms(3)] assms(2) \<open>\<not> d \<le> n\<close> show False by auto
qed

lemma bfs_complete:
  assumes inv: "bfs_inv succ s m h {} dep []"
  shows "hops succ s n v \<Longrightarrow> n \<le> m \<Longrightarrow> \<exists>e. dep v = Some e \<and> e \<le> n"
proof (induction n arbitrary: v)
  case 0
  then show ?case using bfs_invD(1)[OF inv] by simp
next
  case (Suc n)
  from Suc.prems obtain u where u: "hops succ s n u" "v \<in> set (succ u)" by auto
  then obtain d where d: "dep u = Some d" "d \<le> n" using Suc by fastforce
  then show ?case using bfs_invD(6)[OF inv d(1) _ _ _ u(2)] Suc.prems(2) by fastforce
qed

section \<open>The subgraph around an entity\<close>

record graph_node =
  gn_entity :: entity
  gn_outgoing :: "edge list"
  gn_incoming :: "edge list"
  gn_depth :: nat

record subgraph =
  sg_nodes :: "graph_node list"
  sg_edges :: "edge list"
  sg_visited :: nat

definition edge_allowed :: "uuid option \<Rightarrow> bool \<Rightarrow> edge \<Rightarrow> bool" where
  "edge_allowed user_id valid_only e \<longleftrightarrow>
     (case user_id of Some uid \<Rightarrow> ed_user_id e = uid | None \<Rightarrow> True) \<and> (\<not> valid_only \<or> is_valid e)"

definition filtered_out :: "graph_store \<Rightarrow> uuid option \<Rightarrow> bool \<Rightarrow> uuid \<Rightarrow> edge list" where
  "filtered_out st user_id valid_only i = filter (edge_allowed user_id valid_only) (get_outgoing_edges i st)"

definition filtered_in :: "graph_store \<Rightarrow> uuid option \<Rightarrow> bool \<Rightarrow> uuid \<Rightarrow> edge list" where
  "filtered_in st user_id valid_only i = filter (edge_allowed user_id valid_only) (get_incoming_edges i st)"

definition foreign :: "uuid option \<Rightarrow> entity \<Rightarrow> bool" where
  "foreign user_id e = (case user_id of Some uid \<Rightarrow> en_user_id e \<noteq> uid | None \<Rightarrow> False)"

fun queue_neighbors :: "uuid list \<Rightarrow> nat \<Rightarrow> uuid set \<times> (uuid \<times> nat) list \<Rightarrow> uuid set \<times> (uuid \<times> nat) list" where
  "queue_neighbors [] d (visited, q) = (visited, q)"
| "queue_neighbors (v # vs) d (visited, q) =
     (if v \<in> visited then queue_neighbors vs d (visited, q)
      else queue_neighbors vs d (insert v visited, q @ [(v, d)]))"

lemma queue_neighbors_grows:
  "queue_neighbors vs d (visited, q) = (visited', q') \<Longrightarrow>
   visited \<subseteq> visited' \<and> length q' + card visited = length q + card (visited' :: uuid set)"
proof (induction vs d "(visited, q)" arbitrary: visited q rule: queue_neighbors.induct)
  case (2 v vs d visited q)
  show ?case
  proof (cases "v \<in> visited")
    case False
    have "card (insert v visited) = Suc (card visited)" using False by simp
    then show ?thesis using 2(2)[OF False] 2(3) False by auto
  qed (use 2 in auto)
qed simp

lemma queue_neighbors_measure:
  assumes "(visited', q') = queue_neighbors vs d (visited, q)"
  shows "2 * (card (UNIV :: uuid set) - card visited') + length q' \<le> 2 * (card (UNIV :: uuid set) - card visited) + length q"
proof -
  note g = queue_neighbors_grows[OF assms[symmetric]]
  have "card visited' \<le> card (UNIV :: uuid set)" by (rule card_mono) auto
  moreover have "card visited \<le> card visited'" using g by (auto intro: card_mono)
  ultimately show ?thesis using g by linarith
qed

function (sequential) traverse_loop ::
  "graph_store \<Rightarrow> uuid option \<Rightarrow> u32 \<Rightarrow> nat \<Rightarrow> bool \<Rightarrow> uuid set \<Rightarrow> (uuid \<times> nat) list \<Rightarrow> graph_node list \<Rightarrow> edge list \<Rightarrow>
   uuid set \<times> graph_node list \<times> edge list" where
  "traverse_loop st user_id max_depth max_nodes valid_only visited [] nodes es = (visited, nodes, es)"
| "traverse_loop st user_id max_depth max_nodes valid_only visited ((i, d) # q) nodes es =
     (if max_nodes \<le> length nodes then (visited, nodes, es)
      else case get_entity i st of
        Inl _ \<Rightarrow> traverse_loop st user_id max_depth max_nodes valid_only visited q nodes es
      | Inr entity \<Rightarrow>
        if foreign user_id entity then traverse_loop st user_id max_depth max_nodes valid_only visited q nodes es
        else
          let out = filtered_out st user_id valid_only i;
              inc = filtered_in st user_id valid_only i;
              (visited', q') = (if d < unat max_depth
                then queue_neighbors (map ed_target out @ map ed_source inc) (Suc d) (visited, q) else (visited, q))
          in traverse_loop st user_id max_depth max_nodes valid_only visited' q'
               (nodes @ [\<lparr>gn_entity = entity, gn_outgoing = out, gn_incoming = inc, gn_depth = d\<rparr>]) (es @ out @ inc))"
  by pat_completeness auto

termination
  by (relation "measure (\<lambda>(_, _, _, _, _, visited, q, _, _). 2 * (card (UNIV :: uuid set) - card visited) + length q)")
    (auto simp: less_Suc_eq_le queue_neighbors_measure split: if_splits)

text \<open>\<^verbatim>\<open>retain(|e| seen.insert(e.id))\<close>: the first edge of every id.\<close>

fun retain_new :: "uuid set \<Rightarrow> edge list \<Rightarrow> edge list" where
  "retain_new seen [] = []"
| "retain_new seen (e # es) = (if ed_id e \<in> seen then retain_new seen es else e # retain_new (insert (ed_id e) seen) es)"

definition traverse_bfs_for_user :: "graph_store \<Rightarrow> uuid \<Rightarrow> uuid option \<Rightarrow> u32 \<Rightarrow> nat \<Rightarrow> bool \<Rightarrow> subgraph" where
  "traverse_bfs_for_user st seed user_id max_depth max_nodes valid_only =
     (case traverse_loop st user_id max_depth max_nodes valid_only {seed} [(seed, 0)] [] [] of
        (visited, nodes, es) \<Rightarrow> \<lparr>sg_nodes = nodes, sg_edges = retain_new {} es, sg_visited = card visited\<rparr>)"

definition traverse_bfs :: "graph_store \<Rightarrow> uuid \<Rightarrow> u32 \<Rightarrow> nat \<Rightarrow> bool \<Rightarrow> subgraph" where
  "traverse_bfs st seed max_depth max_nodes valid_only =
     traverse_bfs_for_user st seed None max_depth max_nodes valid_only"

text \<open>
  The successors the traversal follows, and what it keeps: the nodes are the owned entities that left the
  queue, at their depths, in order of depth, with their filtered edges.
\<close>

definition neighbors :: "graph_store \<Rightarrow> uuid option \<Rightarrow> bool \<Rightarrow> uuid \<Rightarrow> uuid list" where
  "neighbors st user_id valid_only i =
     map ed_target (filtered_out st user_id valid_only i) @ map ed_source (filtered_in st user_id valid_only i)"

definition owned :: "graph_store \<Rightarrow> uuid option \<Rightarrow> uuid \<Rightarrow> bool" where
  "owned st user_id i = (case get_entity i st of Inr e \<Rightarrow> \<not> foreign user_id e | Inl _ \<Rightarrow> False)"

definition owned_neighbors :: "graph_store \<Rightarrow> uuid option \<Rightarrow> bool \<Rightarrow> uuid \<Rightarrow> uuid list" where
  "owned_neighbors st user_id valid_only i = (if owned st user_id i then neighbors st user_id valid_only i else [])"

definition gnode_id :: "graph_node \<Rightarrow> uuid" where
  "gnode_id n = en_id (gn_entity n)"

definition node_ok :: "graph_store \<Rightarrow> uuid option \<Rightarrow> bool \<Rightarrow> (uuid \<rightharpoonup> nat) \<Rightarrow> graph_node \<Rightarrow> bool" where
  "node_ok st user_id valid_only dep n \<longleftrightarrow>
     get_entity (gnode_id n) st = Inr (gn_entity n) \<and> \<not> foreign user_id (gn_entity n) \<and>
     gn_outgoing n = filtered_out st user_id valid_only (gnode_id n) \<and>
     gn_incoming n = filtered_in st user_id valid_only (gnode_id n) \<and>
     dep (gnode_id n) = Some (gn_depth n)"

definition nodes_inv ::
  "graph_store \<Rightarrow> uuid option \<Rightarrow> bool \<Rightarrow> nat \<Rightarrow> (uuid \<rightharpoonup> nat) \<Rightarrow> uuid list \<Rightarrow> graph_node list \<Rightarrow> edge list \<Rightarrow> bool" where
  "nodes_inv st user_id valid_only h dep q nodes es \<longleftrightarrow>
     list_all (node_ok st user_id valid_only dep) nodes \<and> distinct (map gnode_id nodes) \<and>
     set (map gnode_id nodes) = {v \<in> dom dep. v \<notin> set q \<and> owned st user_id v} \<and>
     sorted (map gn_depth nodes) \<and> (\<forall>n \<in> set nodes. gn_depth n \<le> h) \<and>
     es = concat (map (\<lambda>n. gn_outgoing n @ gn_incoming n) nodes)"

definition trav_inv ::
  "graph_store \<Rightarrow> uuid option \<Rightarrow> bool \<Rightarrow> uuid \<Rightarrow> nat \<Rightarrow> uuid set \<Rightarrow> (uuid \<times> nat) list \<Rightarrow> graph_node list \<Rightarrow> edge list \<Rightarrow> bool" where
  "trav_inv st user_id valid_only seed m visited q nodes es \<longleftrightarrow>
     (\<exists>h dep. bfs_inv (owned_neighbors st user_id valid_only) seed m h {} dep (map fst q) \<and> visited = dom dep \<and>
        distinct (map fst q) \<and> (\<forall>x \<in> set q. dep (fst x) = Some (snd x)) \<and>
        nodes_inv st user_id valid_only h dep (map fst q) nodes es)"

lemma map_le_Some: "m \<subseteq>\<^sub>m m' \<Longrightarrow> m k = Some v \<Longrightarrow> m' k = Some v"
  by (metis domI map_le_def)

lemma map_le_upd_None: "m k = None \<Longrightarrow> m \<subseteq>\<^sub>m m(k \<mapsto> v)"
  by (auto simp: map_le_def)

lemma queue_neighbors_bfs:
  assumes "queue_neighbors vs (Suc h) (visited, q) = (visited', q')"
    and "bfs_inv succ s m h {u} dep (map fst q)" and "visited = dom dep"
    and "distinct (map fst q)" and "\<forall>x \<in> set q. dep (fst x) = Some (snd x)"
    and "set vs \<subseteq> set (succ u)" and "h < m"
  shows "\<exists>dep'. bfs_inv succ s m h {u} dep' (map fst q') \<and> visited' = dom dep' \<and> distinct (map fst q') \<and>
     (\<forall>x \<in> set q'. dep' (fst x) = Some (snd x)) \<and> dep \<subseteq>\<^sub>m dep' \<and> set vs \<subseteq> dom dep' \<and>
     set (map fst q') = set (map fst q) \<union> (dom dep' - dom dep)"
  using assms
proof (induction vs "Suc h" "(visited, q)" arbitrary: visited q dep rule: queue_neighbors.induct)
  case (1 visited q)
  then show ?case by auto
next
  case (2 v vs visited q)
  show ?case
  proof (cases "v \<in> visited")
    case True
    then have "queue_neighbors vs (Suc h) (visited, q) = (visited', q')" using 2(3) by simp
    from 2(1)[OF True this 2(4-7) _ 2(9)] 2(8) obtain dep' where
      r: "bfs_inv succ s m h {u} dep' (map fst q') \<and> visited' = dom dep' \<and> distinct (map fst q') \<and>
       (\<forall>x \<in> set q'. dep' (fst x) = Some (snd x)) \<and> dep \<subseteq>\<^sub>m dep' \<and> set vs \<subseteq> dom dep' \<and>
       set (map fst q') = set (map fst q) \<union> (dom dep' - dom dep)" by auto
    moreover have "dom dep \<subseteq> dom dep'" using r by (blast dest: map_le_implies_dom_le)
    then have "v \<in> dom dep'" using True 2(5) by blast
    ultimately show ?thesis by auto
  next
    case False
    let ?q = "q @ [(v, Suc h)]" and ?dep = "dep(v \<mapsto> Suc h)"
    have n: "dep v = None" using False 2(5) by auto
    have vq: "v \<notin> set (map fst q)" using 2(7) n by auto
    have c1: "queue_neighbors vs (Suc h) (insert v visited, ?q) = (visited', q')" using 2(3) False by simp
    have c2: "bfs_inv succ s m h {u} ?dep (map fst ?q)" using bfs_add[OF 2(4) n] 2(8,9) by simp
    have c3: "insert v visited = dom ?dep" using 2(5) by auto
    have c4: "distinct (map fst ?q)" using 2(6) vq by simp
    have c5: "\<forall>x \<in> set ?q. ?dep (fst x) = Some (snd x)" using 2(7) n by auto
    have c6: "set vs \<subseteq> set (succ u)" using 2(8) by simp
    obtain dep' where
      r: "bfs_inv succ s m h {u} dep' (map fst q') \<and> visited' = dom dep' \<and> distinct (map fst q') \<and>
       (\<forall>x \<in> set q'. dep' (fst x) = Some (snd x)) \<and> ?dep \<subseteq>\<^sub>m dep' \<and> set vs \<subseteq> dom dep' \<and>
       set (map fst q') = set (map fst ?q) \<union> (dom dep' - dom ?dep)"
      using 2(2)[OF False c1 c2 c3 c4 c5 c6 2(9)] by blast
    have "dep \<subseteq>\<^sub>m dep'" using r n by (metis map_le_trans map_le_upd_None)
    moreover have v: "v \<in> dom dep'" using map_le_Some[of ?dep dep' v "Suc h"] r by auto
    moreover have "set (map fst q') = set (map fst q) \<union> (dom dep' - dom dep)"
    proof -
      have "set (map fst q') = set (map fst q) \<union> ({v} \<union> (dom dep' - dom ?dep))" using r by simp
      also have "{v} \<union> (dom dep' - dom ?dep) = dom dep' - dom dep" using v n by auto
      finally show ?thesis .
    qed
    moreover have "set (v # vs) \<subseteq> dom dep'" using r v by simp
    ultimately show ?thesis using r by blast
  qed
qed

lemma node_ok_mono: "dep \<subseteq>\<^sub>m dep' \<Longrightarrow> node_ok st u vo dep n \<Longrightarrow> node_ok st u vo dep' n"
  by (auto simp: node_ok_def map_le_Some)

lemma owned_iff: "owned st u i \<longleftrightarrow> (\<exists>e. get_entity i st = Inr e \<and> \<not> foreign u e)"
  by (auto simp: owned_def split: sum.splits)

text \<open>An entry that is missing or another user's leaves the queue without a node.\<close>

lemma trav_skip:
  assumes inv: "trav_inv st u vo seed m visited ((i, d) # q) nodes es" and skip: "\<not> owned st u i"
  shows "trav_inv st u vo seed m visited q nodes es"
proof -
  from inv obtain h dep where b: "bfs_inv (owned_neighbors st u vo) seed m h {} dep (i # map fst q)" and
    r: "visited = dom dep" "distinct (i # map fst q)" "\<forall>x \<in> set ((i, d) # q). dep (fst x) = Some (snd x)" and
    n: "nodes_inv st u vo h dep (i # map fst q) nodes es"
    unfolding trav_inv_def by auto
  have d: "dep i = Some d" using r(3) by simp
  have hd: "h \<le> d" using bfs_invD(3)[OF b, of i] d by simp
  have "bfs_inv (owned_neighbors st u vo) seed m d {} dep (map fst q)"
    by (rule bfs_close[OF bfs_pop[OF b d]]) (simp add: owned_neighbors_def skip)
  moreover have "nodes_inv st u vo d dep (map fst q) nodes es"
    using n skip hd by (auto simp: nodes_inv_def)
  ultimately show ?thesis unfolding trav_inv_def using r by auto
qed

lemma trav_node:
  assumes inv: "trav_inv st u vo seed m visited ((i, d) # q) nodes es" and own: "get_entity i st = Inr entity" "\<not> foreign u entity"
    and ident: "en_id entity = i"
    and qn: "(visited', q') = (if d < m then queue_neighbors (neighbors st u vo i) (Suc d) (visited, q) else (visited, q))"
  shows "trav_inv st u vo seed m visited' q'
    (nodes @ [\<lparr>gn_entity = entity, gn_outgoing = filtered_out st u vo i, gn_incoming = filtered_in st u vo i, gn_depth = d\<rparr>])
    (es @ filtered_out st u vo i @ filtered_in st u vo i)"
proof -
  let ?n = "\<lparr>gn_entity = entity, gn_outgoing = filtered_out st u vo i, gn_incoming = filtered_in st u vo i, gn_depth = d\<rparr>"
  let ?succ = "owned_neighbors st u vo"
  from inv obtain h dep where b: "bfs_inv ?succ seed m h {} dep (i # map fst q)" and
    r: "visited = dom dep" "distinct (i # map fst q)" "\<forall>x \<in> set ((i, d) # q). dep (fst x) = Some (snd x)" and
    n: "nodes_inv st u vo h dep (i # map fst q) nodes es"
    unfolding trav_inv_def by auto
  have d: "dep i = Some d" using r(3) by simp
  have hd: "h \<le> d" using bfs_invD(3)[OF b, of i] d by simp
  have succ: "?succ i = neighbors st u vo i" using own by (simp add: owned_neighbors_def owned_def)
  have pop: "bfs_inv ?succ seed m d {i} dep (map fst q)" by (rule bfs_pop[OF b d])
  have dq: "distinct (map fst q)" "\<forall>x \<in> set q. dep (fst x) = Some (snd x)" using r by simp_all
  have "\<exists>dep'. bfs_inv ?succ seed m d {i} dep' (map fst q') \<and> visited' = dom dep' \<and> distinct (map fst q') \<and>
     (\<forall>x \<in> set q'. dep' (fst x) = Some (snd x)) \<and> dep \<subseteq>\<^sub>m dep' \<and> (d < m \<longrightarrow> set (?succ i) \<subseteq> dom dep') \<and>
     set (map fst q') = set (map fst q) \<union> (dom dep' - dom dep)"
  proof (cases "d < m")
    case True
    then have "queue_neighbors (neighbors st u vo i) (Suc d) (visited, q) = (visited', q')" using qn by simp
    from queue_neighbors_bfs[OF this pop r(1) dq _ True] show ?thesis by (auto simp: succ)
  next
    case False
    then show ?thesis using qn pop r dq by auto
  qed
  then obtain dep' where p: "bfs_inv ?succ seed m d {i} dep' (map fst q')" "visited' = dom dep'" "distinct (map fst q')"
     "\<forall>x \<in> set q'. dep' (fst x) = Some (snd x)" "dep \<subseteq>\<^sub>m dep'" "d < m \<longrightarrow> set (?succ i) \<subseteq> dom dep'"
     "set (map fst q') = set (map fst q) \<union> (dom dep' - dom dep)" by blast
  have closed: "bfs_inv ?succ seed m d {} dep' (map fst q')" using bfs_close[OF p(1)] p(6) by blast
  have "nodes_inv st u vo d dep' (map fst q') (nodes @ [?n]) (es @ filtered_out st u vo i @ filtered_in st u vo i)"
    unfolding nodes_inv_def
  proof (intro conjI)
    have nid: "gnode_id ?n = i" using ident by (simp add: gnode_id_def)
    show "list_all (node_ok st u vo dep') (nodes @ [?n])"
      using n node_ok_mono[OF p(5)] own nid map_le_Some[OF p(5) d]
      by (auto simp: nodes_inv_def list_all_iff node_ok_def[of _ _ _ _ ?n])
    have old: "set (map gnode_id nodes) = {v \<in> dom dep. v \<notin> set (i # map fst q) \<and> owned st u v}"
      using n by (simp add: nodes_inv_def)
    then show "distinct (map gnode_id (nodes @ [?n]))" using n nid by (auto simp: nodes_inv_def)
    have dom: "dom dep \<subseteq> dom dep'" using p(5) by (rule map_le_implies_dom_le)
    have "i \<notin> set (map fst q')" using p(7) r(2) d by auto
    moreover have "owned st u i" using own by (simp add: owned_def)
    moreover have "v \<notin> set (map fst q') \<longleftrightarrow> v \<notin> set (map fst q) \<and> v \<in> dom dep" if "v \<in> dom dep'" for v
      using p(7) that dom d r(1,3) by auto
    then have "{v \<in> dom dep'. v \<notin> set (map fst q') \<and> owned st u v} = {v \<in> dom dep. v \<notin> set (map fst q) \<and> owned st u v}"
      using dom by blast
    moreover have "set (map gnode_id (nodes @ [?n])) = insert i (set (map gnode_id nodes))" using nid by simp
    ultimately show "set (map gnode_id (nodes @ [?n])) = {v \<in> dom dep'. v \<notin> set (map fst q') \<and> owned st u v}"
      using old d r(2) \<open>owned st u i\<close> by auto
    show "sorted (map gn_depth (nodes @ [?n]))" "\<forall>n \<in> set (nodes @ [?n]). gn_depth n \<le> d"
      using n hd by (auto simp: nodes_inv_def sorted_append)
    show "es @ filtered_out st u vo i @ filtered_in st u vo i =
        concat (map (\<lambda>n. gn_outgoing n @ gn_incoming n) (nodes @ [?n]))"
      using n by (simp add: nodes_inv_def)
  qed
  then show ?thesis unfolding trav_inv_def using closed p(2-4) by blast
qed

lemma get_entity_Inr: "get_entity i st = Inr e \<longleftrightarrow> map_of (gs_entities st) i = Some e"
  by (simp add: get_entity_def split: option.split)

lemma traverse_loop_inv:
  assumes "graph_ok st"
    and "traverse_loop st u md k vo visited q nodes es = (visited', nodes', es')"
    and "trav_inv st u vo seed (unat md) visited q nodes es" and "length nodes \<le> k"
  shows "\<exists>q'. trav_inv st u vo seed (unat md) visited' q' nodes' es' \<and> length nodes' \<le> k \<and>
    (length nodes' < k \<longrightarrow> q' = [])"
  using assms
proof (induction st u md k vo visited q nodes es rule: traverse_loop.induct)
  case (2 st u md k vo visited i d q nodes es)
  show ?case
  proof (cases "k \<le> length nodes")
    case True
    then show ?thesis using "2.prems" by (intro exI[of _ "(i, d) # q"]) auto
  next
    case False
    show ?thesis
    proof (cases "get_entity i st")
      case (Inl x)
      then have "\<not> owned st u i" by (simp add: owned_def)
      then show ?thesis
        using "2.IH"(1)[OF False Inl "2.prems"(1) _ trav_skip[OF "2.prems"(3)] "2.prems"(4)] "2.prems"(2) False Inl by simp
    next
      case (Inr entity)
      show ?thesis
      proof (cases "foreign u entity")
        case True
        then have "\<not> owned st u i" by (simp add: owned_def Inr)
        then show ?thesis
          using "2.IH"(2)[OF False Inr True "2.prems"(1) _ trav_skip[OF "2.prems"(3)] "2.prems"(4)]
            "2.prems"(2) False Inr True by simp
      next
        case own: False
        let ?out = "filtered_out st u vo i" and ?inc = "filtered_in st u vo i"
        let ?x = "if d < unat md then queue_neighbors (map ed_target ?out @ map ed_source ?inc) (Suc d) (visited, q) else (visited, q)"
        obtain vis1 q1 where x: "(vis1, q1) = ?x" by (metis surj_pair)
        have ident: "en_id entity = i" using graph_entity_id[OF "2.prems"(1)] Inr by (simp add: get_entity_Inr)
        have run: "traverse_loop st u md k vo vis1 q1
            (nodes @ [\<lparr>gn_entity = entity, gn_outgoing = ?out, gn_incoming = ?inc, gn_depth = d\<rparr>]) (es @ ?out @ ?inc)
            = (visited', nodes', es')"
          using "2.prems"(2) False Inr own x[symmetric] by (simp add: Let_def)
        have "trav_inv st u vo seed (unat md) vis1 q1
            (nodes @ [\<lparr>gn_entity = entity, gn_outgoing = ?out, gn_incoming = ?inc, gn_depth = d\<rparr>]) (es @ ?out @ ?inc)"
          using trav_node[OF "2.prems"(3) Inr own ident] x by (simp add: neighbors_def)
        from "2.IH"(3)[OF False Inr own refl refl x refl "2.prems"(1) run this] False show ?thesis by simp
      qed
    qed
  qed
qed auto

lemma set_retain_new: "ed_id ` set (retain_new seen es) = ed_id ` set es - seen"
  by (induction seen es rule: retain_new.induct) auto

lemma retain_new_subset: "set (retain_new seen es) \<subseteq> set es"
  by (induction seen es rule: retain_new.induct) auto

lemma distinct_retain_new: "distinct (map ed_id (retain_new seen es))"
proof (induction seen es rule: retain_new.induct)
  case (2 seen e es)
  then show ?case using set_retain_new[of "insert (ed_id e) seen" es] by auto
qed simp

text \<open>Two hops from the seed are the fewest if no shorter walk exists.\<close>

definition distance :: "('a \<Rightarrow> 'a list) \<Rightarrow> 'a \<Rightarrow> nat \<Rightarrow> 'a \<Rightarrow> bool" where
  "distance succ s n v \<longleftrightarrow> hops succ s n v \<and> (\<forall>k < n. \<not> hops succ s k v)"

lemma trav_start:
  "trav_inv st u vo seed m {seed} [(seed, 0)] [] []"
  unfolding trav_inv_def nodes_inv_def
  by (rule exI[of _ 0], rule exI[of _ "[seed \<mapsto> 0]"]) (auto simp: bfs_start)

section \<open>The shortest path\<close>

record path_step =
  ps_entity :: entity
  ps_edge :: "edge option"
  ps_depth :: nat

record shortest_path =
  sp_steps :: "path_step list"
  sp_visited :: nat
  sp_found :: bool

text \<open>The map of visited entities, in the order of insertion: parent and edge of each.\<close>

type_synonym visited_map = "(uuid \<times> uuid option \<times> edge option) list"

fun visit_edges ::
  "(edge \<Rightarrow> uuid) \<Rightarrow> uuid \<Rightarrow> nat \<Rightarrow> uuid \<Rightarrow> edge list \<Rightarrow> visited_map \<times> (uuid \<times> nat) list \<Rightarrow>
   bool \<times> visited_map \<times> (uuid \<times> nat) list" where
  "visit_edges nb i d to_id [] (visited, q) = (False, visited, q)"
| "visit_edges nb i d to_id (e # es) (visited, q) =
     (if map_of visited (nb e) \<noteq> None then visit_edges nb i d to_id es (visited, q)
      else
        let visited' = visited @ [(nb e, Some i, Some e)] in
        if nb e = to_id then (True, visited', q)
        else visit_edges nb i d to_id es (visited', q @ [(nb e, Suc d)]))"

text \<open>The check before an entity is expanded lets an unknown entity pass.\<close>

definition known_foreign :: "graph_store \<Rightarrow> uuid option \<Rightarrow> uuid \<Rightarrow> bool" where
  "known_foreign st user_id i = (case get_entity i st of Inr e \<Rightarrow> foreign user_id e | Inl _ \<Rightarrow> False)"

lemma visit_edges_grows:
  "visit_edges nb i d to_id es (visited, q) = (f, visited', q') \<Longrightarrow>
   card (fst ` set visited) \<le> card (fst ` set visited') \<and>
   length q' + card (fst ` set visited) \<le> length q + card (fst ` set visited')"
proof (induction nb i d to_id es "(visited, q)" arbitrary: visited q rule: visit_edges.induct)
  case (2 nb i d to_id e es visited q)
  show ?case
  proof (cases "map_of visited (nb e) \<noteq> None")
    case False
    then have n: "nb e \<notin> fst ` set visited" by (simp add: map_of_eq_None_iff)
    show ?thesis
    proof (cases "nb e = to_id")
      case True
      then show ?thesis using 2(3) False n by auto
    next
      case ne: False
      then show ?thesis using 2(2)[OF _ refl ne] 2(3) False n by (auto simp: Let_def)
    qed
  qed (use 2 in auto)
qed simp

lemma visit_edges_measure:
  assumes "(f, visited', q') = visit_edges nb i d to_id es (visited, q)"
  shows "2 * (card (UNIV :: uuid set) - card (fst ` set visited')) + length q'
    \<le> 2 * (card (UNIV :: uuid set) - card (fst ` set visited)) + length q"
proof -
  have "card (fst ` set visited') \<le> card (UNIV :: uuid set)" by (rule card_mono) auto
  then show ?thesis using visit_edges_grows[OF assms[symmetric]] by linarith
qed

function (sequential) path_loop ::
  "graph_store \<Rightarrow> uuid option \<Rightarrow> u32 \<Rightarrow> bool \<Rightarrow> uuid \<Rightarrow> visited_map \<Rightarrow> (uuid \<times> nat) list \<Rightarrow> bool \<times> visited_map" where
  "path_loop st user_id max_depth valid_only to_id visited [] = (False, visited)"
| "path_loop st user_id max_depth valid_only to_id visited ((i, d) # q) =
     (if unat max_depth \<le> d then path_loop st user_id max_depth valid_only to_id visited q
      else if known_foreign st user_id i then path_loop st user_id max_depth valid_only to_id visited q
      else
        let (found, visited1, q1) = visit_edges ed_target i d to_id (filtered_out st user_id valid_only i) (visited, q) in
        if found then (True, visited1)
        else
          let (found2, visited2, q2) = visit_edges ed_source i d to_id (filtered_in st user_id valid_only i) (visited1, q1) in
          if found2 then (True, visited2)
          else path_loop st user_id max_depth valid_only to_id visited2 q2)"
  by pat_completeness auto

termination
proof (relation "measure (\<lambda>(_, _, _, _, _, visited, q). 2 * (card (UNIV :: uuid set) - card (fst ` set visited)) + length q)")
  fix st user_id max_depth valid_only to_id and visited visited1 visited2 :: visited_map and i :: uuid and d :: nat and q x y z w xa ya za wa q1 q2
  assume "x = visit_edges ed_target i d to_id (filtered_out st user_id valid_only i) (visited, q)"
    and "(y, z) = x" and "(visited1, q1) = z"
    and "xa = visit_edges ed_source i d to_id (filtered_in st user_id valid_only i) (visited1, q1)"
    and "(ya, za) = xa" and "(visited2, q2) = za"
  then have "2 * (card (UNIV :: uuid set) - card (fst ` set visited2)) + length q2
      \<le> 2 * (card (UNIV :: uuid set) - card (fst ` set visited)) + length q"
    using visit_edges_measure[of y visited1 q1 ed_target i d to_id "filtered_out st user_id valid_only i" visited q]
      visit_edges_measure[of ya visited2 q2 ed_source i d to_id "filtered_in st user_id valid_only i" visited1 q1] by simp
  then show "((st, user_id, max_depth, valid_only, to_id, visited2, q2), (st, user_id, max_depth, valid_only, to_id, visited, (i, d) # q))
    \<in> measure (\<lambda>(_, _, _, _, _, visited, q). 2 * (card (UNIV :: uuid set) - card (fst ` set visited)) + length q)"
    by simp
qed auto

text \<open>The walk back over the parents, which stops at an entity without one; the path comes out in order.\<close>

partial_function (option) path_back ::
  "visited_map \<Rightarrow> uuid \<Rightarrow> (uuid \<times> edge option) list \<Rightarrow> (uuid \<times> edge option) list option" where
  "path_back visited current acc =
     (case map_of visited current of
        None \<Rightarrow> Some acc
      | Some (parent, e) \<Rightarrow>
        (case parent of
           Some p \<Rightarrow> path_back visited p ((current, e) # acc)
         | None \<Rightarrow> Some ((current, e) # acc)))"

definition resolve_steps :: "graph_store \<Rightarrow> uuid option \<Rightarrow> (uuid \<times> edge option) list \<Rightarrow> path_step list" where
  "resolve_steps st user_id ids =
     List.map_filter
       (\<lambda>(k, i, e). case get_entity i st of
          Inr entity \<Rightarrow> if foreign user_id entity then None else Some \<lparr>ps_entity = entity, ps_edge = e, ps_depth = k\<rparr>
        | Inl _ \<Rightarrow> None)
       (enumerate 0 ids)"

definition no_path :: "nat \<Rightarrow> shortest_path" where
  "no_path visited = \<lparr>sp_steps = [], sp_visited = visited, sp_found = False\<rparr>"

definition find_shortest_path_for_user ::
  "graph_store \<Rightarrow> uuid \<Rightarrow> uuid \<Rightarrow> uuid option \<Rightarrow> u32 \<Rightarrow> bool \<Rightarrow> shortest_path option" where
  "find_shortest_path_for_user st from_id to_id user_id max_depth valid_only =
     (if from_id = to_id then
        Some (case get_entity from_id st of
                Inr e \<Rightarrow> if foreign user_id e then no_path 0
                  else \<lparr>sp_steps = [\<lparr>ps_entity = e, ps_edge = None, ps_depth = 0\<rparr>], sp_visited = 1, sp_found = True\<rparr>
              | Inl _ \<Rightarrow> no_path 0)
      else
        case path_loop st user_id max_depth valid_only to_id [(from_id, None, None)] [(from_id, 0)] of
          (False, visited) \<Rightarrow> Some (no_path (length visited))
        | (True, visited) \<Rightarrow>
            (case path_back visited to_id [] of
               None \<Rightarrow> None
             | Some ids \<Rightarrow> Some \<lparr>sp_steps = resolve_steps st user_id ids, sp_visited = length visited, sp_found = True\<rparr>))"

definition find_shortest_path :: "graph_store \<Rightarrow> uuid \<Rightarrow> uuid \<Rightarrow> u32 \<Rightarrow> bool \<Rightarrow> shortest_path option" where
  "find_shortest_path st from_id to_id max_depth valid_only =
     find_shortest_path_for_user st from_id to_id None max_depth valid_only"

text \<open>What the search follows: the neighbours of every entity not known to be another user's.\<close>

definition path_neighbors :: "graph_store \<Rightarrow> uuid option \<Rightarrow> bool \<Rightarrow> uuid \<Rightarrow> uuid list" where
  "path_neighbors st user_id valid_only i =
     (if known_foreign st user_id i then [] else neighbors st user_id valid_only i)"

definition joins :: "graph_store \<Rightarrow> uuid option \<Rightarrow> bool \<Rightarrow> uuid \<Rightarrow> edge \<Rightarrow> uuid \<Rightarrow> bool" where
  "joins st user_id valid_only i e j \<longleftrightarrow> \<not> known_foreign st user_id i \<and>
     (e \<in> set (filtered_out st user_id valid_only i) \<and> ed_target e = j \<or>
      e \<in> set (filtered_in st user_id valid_only i) \<and> ed_source e = j)"

definition is_path :: "graph_store \<Rightarrow> uuid option \<Rightarrow> bool \<Rightarrow> uuid \<Rightarrow> uuid \<Rightarrow> (uuid \<times> edge option) list \<Rightarrow> bool" where
  "is_path st user_id valid_only from_id to_id ids \<longleftrightarrow>
     ids \<noteq> [] \<and> hd ids = (from_id, None) \<and> fst (last ids) = to_id \<and>
     (\<forall>k. Suc k < length ids \<longrightarrow>
        (\<exists>e. snd (ids ! Suc k) = Some e \<and> joins st user_id valid_only (fst (ids ! k)) e (fst (ids ! Suc k))))"

definition parents_ok ::
  "graph_store \<Rightarrow> uuid option \<Rightarrow> bool \<Rightarrow> uuid \<Rightarrow> (uuid \<rightharpoonup> nat) \<Rightarrow> visited_map \<Rightarrow> bool" where
  "parents_ok st user_id valid_only from_id dep visited \<longleftrightarrow>
     fst ` set visited = dom dep \<and> map_of visited from_id = Some (None, None) \<and>
     (\<forall>v x. v \<noteq> from_id \<and> map_of visited v = Some x \<longrightarrow>
        (\<exists>p e d. x = (Some p, Some e) \<and> dep p = Some d \<and> dep v = Some (Suc d) \<and> joins st user_id valid_only p e v))"

lemma joins_neighbors: "joins st u vo i e j \<Longrightarrow> j \<in> set (path_neighbors st u vo i)"
  by (auto simp: joins_def path_neighbors_def neighbors_def)

lemma parents_ok_add:
  assumes "parents_ok st u vo s dep vis" and v: "map_of vis v = None" and i: "dep i = Some d" and j: "joins st u vo i e v"
  shows "parents_ok st u vo s (dep(v \<mapsto> Suc d)) (vis @ [(v, Some i, Some e)])"
proof -
  have dom: "fst ` set vis = dom dep" and s: "map_of vis s = Some (None, None)" and
    par: "\<And>w x. w \<noteq> s \<Longrightarrow> map_of vis w = Some x \<Longrightarrow>
        \<exists>p e d. x = (Some p, Some e) \<and> dep p = Some d \<and> dep w = Some (Suc d) \<and> joins st u vo p e w"
    using assms(1) by (auto simp: parents_ok_def)
  have vd: "dep v = None" using v dom by (auto simp: map_of_eq_None_iff)
  have vs: "v \<noteq> s" using v s by auto
  show ?thesis unfolding parents_ok_def
  proof (intro conjI allI impI)
    show "fst ` set (vis @ [(v, Some i, Some e)]) = dom (dep(v \<mapsto> Suc d))" using dom by auto
    show "map_of (vis @ [(v, Some i, Some e)]) s = Some (None, None)" using s by (simp add: map_add_def)
    fix w x assume w: "w \<noteq> s \<and> map_of (vis @ [(v, Some i, Some e)]) w = Some x"
    show "\<exists>p e d'. x = (Some p, Some e) \<and> (dep(v \<mapsto> Suc d)) p = Some d' \<and> (dep(v \<mapsto> Suc d)) w = Some (Suc d') \<and> joins st u vo p e w"
    proof (cases "w = v")
      case True
      then have "x = (Some i, Some e)" using w v by (simp add: map_add_def)
      moreover have "i \<noteq> v" using i vd by auto
      ultimately show ?thesis using True i j by auto
    next
      case False
      then have "map_of vis w = Some x" using w by (auto simp: map_add_def split: option.splits if_splits)
      from par[OF _ this] w obtain p e' d' where
        x: "x = (Some p, Some e')" "dep p = Some d'" "dep w = Some (Suc d')" "joins st u vo p e' w" by blast
      moreover have "p \<noteq> v" using x(2) vd by auto
      ultimately show ?thesis using False by auto
    qed
  qed
qed

text \<open>One list of edges of the entity at the head of the queue.\<close>

lemma visit_edges_bfs:
  assumes "visit_edges nb i h to_id es (visited, q) = (f, visited', q')"
    and "bfs_inv (path_neighbors st u vo) s m h {i} dep (map fst q)"
    and "parents_ok st u vo s dep visited" and "\<forall>x \<in> set q. dep (fst x) = Some (snd x)"
    and "\<forall>e \<in> set es. joins st u vo i e (nb e)" and "h < m" and "dep to_id = None"
  shows "\<exists>dep'. dep \<subseteq>\<^sub>m dep' \<and> parents_ok st u vo s dep' visited' \<and> (\<forall>x \<in> set q'. dep' (fst x) = Some (snd x)) \<and>
    (if f then dep' to_id = Some (Suc h) \<and> bfs_inv (path_neighbors st u vo) s m h {i} dep' (map fst q' @ [to_id])
     else dep' to_id = None \<and> nb ` set es \<subseteq> dom dep' \<and> bfs_inv (path_neighbors st u vo) s m h {i} dep' (map fst q'))"
  using assms
proof (induction nb i h to_id es "(visited, q)" arbitrary: visited q dep rule: visit_edges.induct)
  case (1 nb i h to_id visited q)
  then show ?case by (intro exI[of _ dep]) auto
next
  case (2 nb i h to_id e es visited q)
  have vis: "map_of visited (nb e) = None \<longleftrightarrow> dep (nb e) = None"
    using 2(5) by (auto simp: parents_ok_def map_of_eq_None_iff)
  have rest: "\<forall>e \<in> set es. joins st u vo i e (nb e)" using 2(7) by simp
  show ?case
  proof (cases "map_of visited (nb e) \<noteq> None")
    case True
    then have "visit_edges nb i h to_id es (visited, q) = (f, visited', q')" using 2(3) by simp
    from 2(1)[OF True this 2(4-6) rest 2(8,9)] obtain dep' where
      r: "dep \<subseteq>\<^sub>m dep'" "parents_ok st u vo s dep' visited'" "\<forall>x \<in> set q'. dep' (fst x) = Some (snd x)"
      "if f then dep' to_id = Some (Suc h) \<and> bfs_inv (path_neighbors st u vo) s m h {i} dep' (map fst q' @ [to_id])
       else dep' to_id = None \<and> nb ` set es \<subseteq> dom dep' \<and> bfs_inv (path_neighbors st u vo) s m h {i} dep' (map fst q')"
      by blast
    have "dom dep \<subseteq> dom dep'" using r(1) by (rule map_le_implies_dom_le)
    moreover have "nb e \<in> dom dep" using True vis by auto
    ultimately have "nb e \<in> dom dep'" by blast
    then have "if f then dep' to_id = Some (Suc h) \<and> bfs_inv (path_neighbors st u vo) s m h {i} dep' (map fst q' @ [to_id])
       else dep' to_id = None \<and> nb ` set (e # es) \<subseteq> dom dep' \<and> bfs_inv (path_neighbors st u vo) s m h {i} dep' (map fst q')"
      using r(4) by (simp split: if_split_asm)
    then show ?thesis using r(1-3) by blast
  next
    case False
    let ?dep = "dep(nb e \<mapsto> Suc h)" and ?vis = "visited @ [(nb e, Some i, Some e)]"
    have n: "dep (nb e) = None" using False vis by simp
    have j: "joins st u vo i e (nb e)" using 2(7) by simp
    have di: "dep i = Some h" using bfs_invD(7)[OF 2(4)] by simp
    have add: "bfs_inv (path_neighbors st u vo) s m h {i} ?dep (map fst q @ [nb e])"
      by (rule bfs_add[OF 2(4) n joins_neighbors[OF j] 2(8)])
    have par: "parents_ok st u vo s ?dep ?vis"
      using parents_ok_add[OF 2(5) _ di j] False by blast
    have le: "dep \<subseteq>\<^sub>m ?dep" using n by (rule map_le_upd_None)
    have qd: "\<forall>x \<in> set q. ?dep (fst x) = Some (snd x)" using 2(6) n by auto
    show ?thesis
    proof (cases "nb e = to_id")
      case True
      then have "f" "visited' = ?vis" "q' = q" using 2(3) False by (auto simp: Let_def)
      then show ?thesis using le par qd add True by (intro exI[of _ ?dep]) auto
    next
      case ne: False
      let ?q = "q @ [(nb e, Suc h)]"
      have c1: "visit_edges nb i h to_id es (?vis, ?q) = (f, visited', q')" using 2(3) False ne by (simp add: Let_def)
      have c2: "bfs_inv (path_neighbors st u vo) s m h {i} ?dep (map fst ?q)" using add by simp
      have c3: "\<forall>x \<in> set ?q. ?dep (fst x) = Some (snd x)" using qd by simp
      have c4: "?dep to_id = None" using ne 2(9) by simp
      from 2(2)[OF False refl ne c1 c2 par c3 rest 2(8) c4] obtain dep' where
        r: "?dep \<subseteq>\<^sub>m dep'" "parents_ok st u vo s dep' visited'" "\<forall>x \<in> set q'. dep' (fst x) = Some (snd x)"
        "if f then dep' to_id = Some (Suc h) \<and> bfs_inv (path_neighbors st u vo) s m h {i} dep' (map fst q' @ [to_id])
         else dep' to_id = None \<and> nb ` set es \<subseteq> dom dep' \<and> bfs_inv (path_neighbors st u vo) s m h {i} dep' (map fst q')"
        by blast
      have "nb e \<in> dom dep'" using map_le_Some[OF r(1), of "nb e"] by auto
      then have "if f then dep' to_id = Some (Suc h) \<and> bfs_inv (path_neighbors st u vo) s m h {i} dep' (map fst q' @ [to_id])
         else dep' to_id = None \<and> nb ` set (e # es) \<subseteq> dom dep' \<and> bfs_inv (path_neighbors st u vo) s m h {i} dep' (map fst q')"
        using r(4) by (simp split: if_split_asm)
      moreover have "dep \<subseteq>\<^sub>m dep'" using le r(1) by (rule map_le_trans)
      ultimately show ?thesis using r(2,3) by blast
    qed
  qed
qed

definition search_inv ::
  "graph_store \<Rightarrow> uuid option \<Rightarrow> bool \<Rightarrow> uuid \<Rightarrow> uuid \<Rightarrow> nat \<Rightarrow> visited_map \<Rightarrow> (uuid \<times> nat) list \<Rightarrow> bool" where
  "search_inv st user_id valid_only s to_id m visited q \<longleftrightarrow>
     (\<exists>h dep. bfs_inv (path_neighbors st user_id valid_only) s m h {} dep (map fst q) \<and>
        parents_ok st user_id valid_only s dep visited \<and> (\<forall>x \<in> set q. dep (fst x) = Some (snd x)) \<and> dep to_id = None)"

definition found_inv :: "graph_store \<Rightarrow> uuid option \<Rightarrow> bool \<Rightarrow> uuid \<Rightarrow> uuid \<Rightarrow> nat \<Rightarrow> visited_map \<Rightarrow> bool" where
  "found_inv st user_id valid_only s to_id m visited \<longleftrightarrow>
     (\<exists>h dep q d ex. bfs_inv (path_neighbors st user_id valid_only) s m h ex dep q \<and>
        parents_ok st user_id valid_only s dep visited \<and> dep to_id = Some d)"

lemma search_pop:
  assumes "search_inv st u vo s to_id m visited ((i, d) # q)"
  shows "\<exists>dep. bfs_inv (path_neighbors st u vo) s m d {i} dep (map fst q) \<and> parents_ok st u vo s dep visited \<and>
    (\<forall>x \<in> set q. dep (fst x) = Some (snd x)) \<and> dep to_id = None"
  using assms bfs_pop[of "path_neighbors st u vo" s m _ _ i "map fst q" d] unfolding search_inv_def by fastforce

lemma search_skip:
  assumes "search_inv st u vo s to_id m visited ((i, d) # q)" and skip: "m \<le> d \<or> known_foreign st u i"
  shows "search_inv st u vo s to_id m visited q"
proof -
  from search_pop[OF assms(1)] obtain dep where b: "bfs_inv (path_neighbors st u vo) s m d {i} dep (map fst q)" and
    r: "parents_ok st u vo s dep visited" "\<forall>x \<in> set q. dep (fst x) = Some (snd x)" "dep to_id = None" by blast
  have "bfs_inv (path_neighbors st u vo) s m d {} dep (map fst q)"
    by (rule bfs_close[OF b]) (use skip in \<open>auto simp: path_neighbors_def\<close>)
  then show ?thesis unfolding search_inv_def using r by blast
qed

text \<open>An entity is expanded: its outgoing edges, then its incoming ones.\<close>

lemma search_expand:
  assumes inv: "search_inv st u vo s to_id m visited ((i, d) # q)" and d: "d < m" and known: "\<not> known_foreign st u i"
    and out: "visit_edges ed_target i d to_id (filtered_out st u vo i) (visited, q) = (f1, visited1, q1)"
  shows "if f1 then found_inv st u vo s to_id m visited1
    else (\<forall>f2 visited2 q2. visit_edges ed_source i d to_id (filtered_in st u vo i) (visited1, q1) = (f2, visited2, q2) \<longrightarrow>
      (if f2 then found_inv st u vo s to_id m visited2 else search_inv st u vo s to_id m visited2 q2))"
proof -
  from search_pop[OF inv] obtain dep where b: "bfs_inv (path_neighbors st u vo) s m d {i} dep (map fst q)" and
    r: "parents_ok st u vo s dep visited" "\<forall>x \<in> set q. dep (fst x) = Some (snd x)" "dep to_id = None" by blast
  have j1: "\<forall>e \<in> set (filtered_out st u vo i). joins st u vo i e (ed_target e)" using known by (simp add: joins_def)
  have j2: "\<forall>e \<in> set (filtered_in st u vo i). joins st u vo i e (ed_source e)" using known by (simp add: joins_def)
  from visit_edges_bfs[OF out b r(1,2) j1 d r(3)] obtain dep1 where
    s1: "dep \<subseteq>\<^sub>m dep1" "parents_ok st u vo s dep1 visited1" "\<forall>x \<in> set q1. dep1 (fst x) = Some (snd x)"
      "if f1 then dep1 to_id = Some (Suc d) \<and> bfs_inv (path_neighbors st u vo) s m d {i} dep1 (map fst q1 @ [to_id])
       else dep1 to_id = None \<and> ed_target ` set (filtered_out st u vo i) \<subseteq> dom dep1 \<and>
         bfs_inv (path_neighbors st u vo) s m d {i} dep1 (map fst q1)" by blast
  show ?thesis
  proof (cases f1)
    case True
    then show ?thesis using s1 unfolding found_inv_def by auto
  next
    case False
    then have s1': "dep1 to_id = None" "ed_target ` set (filtered_out st u vo i) \<subseteq> dom dep1"
      "bfs_inv (path_neighbors st u vo) s m d {i} dep1 (map fst q1)" using s1(4) by simp_all
    have "if f2 then found_inv st u vo s to_id m visited2 else search_inv st u vo s to_id m visited2 q2"
      if inc: "visit_edges ed_source i d to_id (filtered_in st u vo i) (visited1, q1) = (f2, visited2, q2)" for f2 visited2 q2
    proof -
      from visit_edges_bfs[OF inc s1'(3) s1(2,3) j2 d s1'(1)] obtain dep2 where
        s2: "dep1 \<subseteq>\<^sub>m dep2" "parents_ok st u vo s dep2 visited2" "\<forall>x \<in> set q2. dep2 (fst x) = Some (snd x)"
          "if f2 then dep2 to_id = Some (Suc d) \<and> bfs_inv (path_neighbors st u vo) s m d {i} dep2 (map fst q2 @ [to_id])
           else dep2 to_id = None \<and> ed_source ` set (filtered_in st u vo i) \<subseteq> dom dep2 \<and>
             bfs_inv (path_neighbors st u vo) s m d {i} dep2 (map fst q2)" by blast
      show ?thesis
      proof (cases f2)
        case True
        then show ?thesis using s2 unfolding found_inv_def by auto
      next
        case nf: False
        have "dom dep1 \<subseteq> dom dep2" using s2(1) by (rule map_le_implies_dom_le)
        then have "ed_target ` set (filtered_out st u vo i) \<subseteq> dom dep2" using s1'(2) by blast
        then have "set (path_neighbors st u vo i) \<subseteq> dom dep2"
          using s2(4) nf by (simp add: path_neighbors_def neighbors_def)
        then have "bfs_inv (path_neighbors st u vo) s m d {} dep2 (map fst q2)"
          using s2(4) nf by (auto intro: bfs_close)
        then show ?thesis using s2 nf unfolding search_inv_def by auto
      qed
    qed
    then show ?thesis using False by simp
  qed
qed

lemma path_loop_inv:
  assumes "search_inv st u vo s to_id (unat md) visited q"
    and "path_loop st u md vo to_id visited q = (f, visited')"
  shows "if f then found_inv st u vo s to_id (unat md) visited' else search_inv st u vo s to_id (unat md) visited' []"
  using assms
proof (induction st u md vo to_id visited q rule: path_loop.induct)
  case (2 st u md vo to_id visited i d q)
  show ?case
  proof (cases "unat md \<le> d \<or> known_foreign st u i")
    case True
    then have "path_loop st u md vo to_id visited q = (f, visited')"
      using "2.prems"(2) by (cases "unat md \<le> d") auto
    then show ?thesis
      using "2.IH"(1)[OF _ search_skip[OF "2.prems"(1) True]] "2.IH"(2)[OF _ _ search_skip[OF "2.prems"(1) True]] True
      by blast
  next
    case False
    then have d: "\<not> unat md \<le> d" "\<not> known_foreign st u i" by simp_all
    obtain f1 visited1 q1 where
      out: "visit_edges ed_target i d to_id (filtered_out st u vo i) (visited, q) = (f1, visited1, q1)" by (metis prod_cases3)
    note ex = search_expand[OF "2.prems"(1) _ d(2) out]
    show ?thesis
    proof (cases f1)
      case True
      then show ?thesis using ex "2.prems"(2) d out by auto
    next
      case nf1: False
      obtain f2 visited2 q2 where
        inc: "visit_edges ed_source i d to_id (filtered_in st u vo i) (visited1, q1) = (f2, visited2, q2)" by (metis prod_cases3)
      show ?thesis
      proof (cases f2)
        case True
        then show ?thesis using ex "2.prems"(2) d out inc nf1 by auto
      next
        case nf2: False
        then have "path_loop st u md vo to_id visited2 q2 = (f, visited')" using "2.prems"(2) d out inc nf1 by simp
        moreover have "search_inv st u vo s to_id (unat md) visited2 q2" using ex d inc nf1 nf2 by auto
        ultimately show ?thesis
          using "2.IH"(3)[OF d out[symmetric] refl refl nf1 inc[symmetric] refl refl nf2] by blast
      qed
    qed
  qed
qed simp

text \<open>The walk back ends, at the start, after as many steps as the depth.\<close>

lemma path_back_ok:
  assumes par: "parents_ok st u vo s dep visited" and s: "dep s = Some 0"
    and zero: "\<And>v. dep v = Some 0 \<Longrightarrow> v = s"
  shows "dep v = Some d \<Longrightarrow> \<exists>ids. (\<forall>acc. path_back visited v acc = Some (ids @ acc)) \<and> length ids = Suc d \<and>
    is_path st u vo s v ids"
proof (induction d arbitrary: v)
  case 0
  then have "map_of visited v = Some (None, None)" using par zero by (auto simp: parents_ok_def)
  then show ?case using zero[OF 0]
    by (intro exI[of _ "[(v, None)]"]) (simp add: path_back.simps is_path_def)
next
  case (Suc d)
  have "v \<noteq> s" using Suc.prems s by auto
  moreover have "v \<in> fst ` set visited" using par Suc.prems by (auto simp: parents_ok_def)
  then obtain x where "map_of visited v = Some x" by (metis map_of_eq_None_iff not_Some_eq)
  ultimately obtain p e d' where "x = (Some p, Some e)" "dep p = Some d'" "dep v = Some (Suc d')" "joins st u vo p e v"
    using par unfolding parents_ok_def by blast
  then have x: "map_of visited v = Some (Some p, Some e)" "dep p = Some d" "joins st u vo p e v"
    using \<open>map_of visited v = Some x\<close> Suc.prems by simp_all
  from Suc.IH[OF x(2)] obtain ids where
    ids: "\<forall>acc. path_back visited p acc = Some (ids @ acc)" "length ids = Suc d" "is_path st u vo s p ids" by blast
  have "path_back visited v acc = Some ((ids @ [(v, Some e)]) @ acc)" for acc
    by (subst path_back.simps) (simp add: x(1) ids(1))
  moreover have "is_path st u vo s v (ids @ [(v, Some e)])"
    using ids(2,3) x(3) by (auto simp: is_path_def nth_append hd_append less_Suc_eq last_conv_nth)
  ultimately show ?case using ids(2) by (intro exI[of _ "ids @ [(v, Some e)]"]) simp
qed

lemma resolve_steps_all:
  assumes "\<forall>x \<in> set ids. owned st u (fst x)"
  shows "list_all2 (\<lambda>p x. get_entity (fst x) st = Inr (ps_entity p) \<and> ps_edge p = snd x) (resolve_steps st u ids) ids"
proof -
  have "list_all2 (\<lambda>p x. get_entity (fst x) st = Inr (ps_entity p) \<and> ps_edge p = snd x)
     (List.map_filter (\<lambda>(k, i, e). case get_entity i st of
          Inr entity \<Rightarrow> if foreign u entity then None else Some \<lparr>ps_entity = entity, ps_edge = e, ps_depth = k\<rparr>
        | Inl _ \<Rightarrow> None) (enumerate n ids)) ids" for n
    using assms
  proof (induction ids arbitrary: n)
    case (Cons x ids)
    then show ?case by (cases x) (auto simp: map_filter_simps owned_iff)
  qed (simp add: map_filter_simps)
  then show ?thesis by (simp add: resolve_steps_def)
qed

text \<open>C22: The shortest path between two different entities, on every store and for all bounds. The search and
  the walk back over the parents end. A path is reported exactly if \<^verbatim>\<open>to\<close> is within \<^verbatim>\<open>max_depth\<close> hops over
  the caller's (and valid, if asked) edges in either direction; then the steps are those of a walk from
  \<^verbatim>\<open>from\<close> to \<^verbatim>\<open>to\<close> in which each edge joins the entities around it, with as few hops as possible. When
  every entity of it is stored and the caller's, no step is missing.\<close>

theorem shortest_path_exact:
  "\<exists>p. find_shortest_path_for_user st from_id to_id user_id max_depth valid_only = Some p \<and>
     (if from_id = to_id then sp_found p = owned st user_id from_id
      else
        let near = path_neighbors st user_id valid_only in
        (sp_found p \<longleftrightarrow> (\<exists>n \<le> unat max_depth. hops near from_id n to_id)) \<and>
        (if sp_found p then
           \<exists>ids. is_path st user_id valid_only from_id to_id ids \<and> distance near from_id (length ids - 1) to_id \<and>
             sp_steps p = resolve_steps st user_id ids \<and>
             ((\<forall>x \<in> set ids. owned st user_id (fst x)) \<longrightarrow>
                list_all2 (\<lambda>s x. get_entity (fst x) st = Inr (ps_entity s) \<and> ps_edge s = snd x) (sp_steps p) ids)
         else sp_steps p = []))"
proof (cases "from_id = to_id")
  case True
  then show ?thesis
    by (auto simp: find_shortest_path_for_user_def owned_def no_path_def split: sum.split)
next
  case False
  let ?near = "path_neighbors st user_id valid_only"
  have start: "search_inv st user_id valid_only from_id to_id (unat max_depth) [(from_id, None, None)] [(from_id, 0)]"
    unfolding search_inv_def parents_ok_def using False
    by (intro exI[of _ 0] exI[of _ "[from_id \<mapsto> 0]"]) (auto simp: bfs_start)
  obtain f visited where run:
    "path_loop st user_id max_depth valid_only to_id [(from_id, None, None)] [(from_id, 0)] = (f, visited)"
    by (metis surj_pair)
  note inv = path_loop_inv[OF start run]
  show ?thesis
  proof (cases f)
    case True
    with inv obtain h dep q d ex where b: "bfs_inv ?near from_id (unat max_depth) h ex dep q" and
      par: "parents_ok st user_id valid_only from_id dep visited" and d: "dep to_id = Some d"
      unfolding found_inv_def by auto
    have "v = from_id" if "dep v = Some 0" for v using bfs_invD(2)[OF b that] by simp
    from path_back_ok[OF par bfs_invD(1)[OF b] this d] obtain ids where
      ids: "path_back visited to_id [] = Some ids" "length ids = Suc d" "is_path st user_id valid_only from_id to_id ids"
      by auto
    have near: "d \<le> unat max_depth" "distance ?near from_id d to_id"
      using bfs_invD(2)[OF b d] bfs_minimal[OF b d] by (auto simp: distance_def not_le[symmetric])
    let ?p = "\<lparr>sp_steps = resolve_steps st user_id ids, sp_visited = length visited, sp_found = True\<rparr>"
    have "find_shortest_path_for_user st from_id to_id user_id max_depth valid_only = Some ?p"
      using run True ids(1) False by (simp add: find_shortest_path_for_user_def del: path_loop.simps)
    moreover have "\<exists>n \<le> unat max_depth. hops ?near from_id n to_id" using near by (auto simp: distance_def)
    moreover have "distance ?near from_id (length ids - 1) to_id" using near ids(2) by simp
    ultimately show ?thesis using False ids(3) resolve_steps_all[of ids st user_id]
      by (intro exI[of _ ?p]) auto
  next
    case nf: False
    with inv obtain h dep where b: "bfs_inv ?near from_id (unat max_depth) h {} dep []" and to: "dep to_id = None"
      unfolding search_inv_def by auto
    have "\<not> (\<exists>n \<le> unat max_depth. hops ?near from_id n to_id)" using bfs_complete[OF b] to by fastforce
    moreover have "find_shortest_path_for_user st from_id to_id user_id max_depth valid_only = Some (no_path (length visited))"
      using run nf False by (simp add: find_shortest_path_for_user_def del: path_loop.simps)
    ultimately show ?thesis using False by (auto simp: no_path_def)
  qed
qed

lemma found_case: "if c then P else Q \<Longrightarrow> c \<Longrightarrow> P"
  by simp

lemma shortest_path_exact_witness: "\<exists>ids. is_path sample_graph (Some 5) True 1 2 ids"
proof -
  have "2 \<in> set (path_neighbors sample_graph (Some 5) True 1)" by code_simp
  then have "hops (path_neighbors sample_graph (Some 5) True) 1 1 2" by simp
  moreover have "1 \<le> unat (3 :: u32)" by simp
  ultimately have near: "\<exists>n \<le> unat (3 :: u32). hops (path_neighbors sample_graph (Some 5) True) 1 n 2" by blast
  have ne: "(1 :: uuid) \<noteq> 2" by simp
  show ?thesis
    using shortest_path_exact [of sample_graph 1 2 "Some 5" 3 True] unfolding Let_def if_not_P [OF ne]
    apply (elim exE conjE)
    apply (drule found_case)
     apply (erule iffD2)
     apply (rule near)
    apply blast
    done
qed

lemma sample_graph_nodes:
  "map gnode_id (sg_nodes (traverse_bfs_for_user sample_graph 1 (Some 5) 1 10 True)) = [1, 2]"
  by code_simp

text \<open>C21: The subgraph around an entity, on every well-formed graph and for all bounds. It ends. It has at most
  \<^verbatim>\<open>max_nodes\<close> nodes, each a stored entity of the caller's user with exactly the edges of that user (and
  valid ones, if asked), at its true distance from the seed, no two for the same entity and nearer ones first;
  its edge list holds each edge of the nodes once. When the node limit is not reached, every entity of the user
  within \<^verbatim>\<open>max_depth\<close> hops over such edges and entities is there.\<close>

theorem traversal_exact:
  assumes "graph_ok st"
  shows "let g = traverse_bfs_for_user st seed user_id max_depth max_nodes valid_only;
      near = distance (owned_neighbors st user_id valid_only) seed
    in length (sg_nodes g) \<le> max_nodes \<and> distinct (map gnode_id (sg_nodes g)) \<and> sorted (map gn_depth (sg_nodes g))
    \<and> (\<forall>n \<in> set (sg_nodes g).
         get_entity (gnode_id n) st = Inr (gn_entity n) \<and> \<not> foreign user_id (gn_entity n) \<and>
         gn_outgoing n = filtered_out st user_id valid_only (gnode_id n) \<and>
         gn_incoming n = filtered_in st user_id valid_only (gnode_id n) \<and>
         gn_depth n \<le> unat max_depth \<and> near (gn_depth n) (gnode_id n))
    \<and> distinct (map ed_id (sg_edges g))
    \<and> ed_id ` set (sg_edges g) = (\<Union>n \<in> set (sg_nodes g). ed_id ` (set (gn_outgoing n) \<union> set (gn_incoming n)))
    \<and> (length (sg_nodes g) < max_nodes \<longrightarrow>
         (\<forall>n v. n \<le> unat max_depth \<and> near n v \<and> owned st user_id v \<longrightarrow> v \<in> gnode_id ` set (sg_nodes g)))"
proof -
  obtain visited nodes es where run:
    "traverse_loop st user_id max_depth max_nodes valid_only {seed} [(seed, 0)] [] [] = (visited, nodes, es)"
    by (metis prod_cases3)
  from traverse_loop_inv[OF assms(1) run trav_start] obtain q where
    inv: "trav_inv st user_id valid_only seed (unat max_depth) visited q nodes es" and
    k: "length nodes \<le> max_nodes" "length nodes < max_nodes \<Longrightarrow> q = []" by auto
  let ?g = "traverse_bfs_for_user st seed user_id max_depth max_nodes valid_only"
  have g: "sg_nodes ?g = nodes" "sg_edges ?g = retain_new {} es" by (simp_all add: traverse_bfs_for_user_def run del: traverse_loop.simps)
  let ?succ = "owned_neighbors st user_id valid_only"
  let ?near = "distance ?succ seed"
  from inv obtain h dep where b: "bfs_inv ?succ seed (unat max_depth) h {} dep (map fst q)" and
    n: "nodes_inv st user_id valid_only h dep (map fst q) nodes es" unfolding trav_inv_def by auto
  have dist: "?near d v \<and> d \<le> unat max_depth" if "dep v = Some d" for v d
    using bfs_invD(2)[OF b that] bfs_minimal[OF b that] by (auto simp: distance_def not_le[symmetric])
  have nd: "get_entity (gnode_id x) st = Inr (gn_entity x) \<and> \<not> foreign user_id (gn_entity x) \<and>
      gn_outgoing x = filtered_out st user_id valid_only (gnode_id x) \<and>
      gn_incoming x = filtered_in st user_id valid_only (gnode_id x) \<and>
      gn_depth x \<le> unat max_depth \<and> ?near (gn_depth x) (gnode_id x)" if "x \<in> set nodes" for x
    using n that dist by (auto simp: nodes_inv_def list_all_iff node_ok_def)
  have es: "ed_id ` set (retain_new {} es) = (\<Union>x \<in> set nodes. ed_id ` (set (gn_outgoing x) \<union> set (gn_incoming x)))"
    using n by (auto simp: set_retain_new nodes_inv_def)
  have all: "v \<in> gnode_id ` set nodes"
    if "length nodes < max_nodes" "d \<le> unat max_depth" "?near d v" "owned st user_id v" for d v
  proof -
    have q: "q = []" using k(2) that(1) by blast
    then have "v \<in> dom dep" using bfs_complete[of ?succ seed "unat max_depth" h dep d v] b that
      by (auto simp: distance_def)
    then show ?thesis using n that(4) q by (auto simp: nodes_inv_def)
  qed
  have order: "distinct (map gnode_id nodes)" "sorted (map gn_depth nodes)" using n by (simp_all add: nodes_inv_def)
  show ?thesis unfolding Let_def g
    using k(1) order nd es all distinct_retain_new[of "{}" es] by blast
qed

lemma traversal_exact_witness:
  "sorted (map gn_depth (sg_nodes (traverse_bfs_for_user sample_graph 1 (Some 5) 1 10 True))) \<and>
   {v. distance (owned_neighbors sample_graph (Some 5) True) 1 1 v \<and> owned sample_graph (Some 5) v} \<subseteq> {1, 2}"
proof -
  let ?nodes = "sg_nodes (traverse_bfs_for_user sample_graph 1 (Some 5) 1 10 True)"
  have "length ?nodes = 2" "gnode_id ` set ?nodes = {1, 2}"
    using arg_cong[OF sample_graph_nodes, of length] arg_cong[OF sample_graph_nodes, of set] by simp_all
  then show ?thesis
    using traversal_exact[OF sample_graph_ok, of 1 "Some 5" 1 10 True] by (auto simp: Let_def)
qed

end
