(* ===== verification/Communities.thy ===== *)
theory Communities
  imports Graph_Traversal
begin

text \<open>
  Label propagation, \<^verbatim>\<open>detect_communities\<close> of \<^verbatim>\<open>mnemo-graph/src/lib.rs\<close>. The counts of the
  neighbours' labels are a hash map; \<open>order\<close> is the order in which the map is iterated, which the
  standard library leaves open, and \<^verbatim>\<open>max_by_key\<close> takes the last of the greatest.
\<close>

fun bump :: "uuid \<Rightarrow> (uuid \<times> nat) list \<Rightarrow> (uuid \<times> nat) list" where
  "bump l [] = [(l, 1)]"
| "bump l ((k, n) # cs) = (if k = l then (k, Suc n) # cs else (k, n) # bump l cs)"

definition label_counts :: "(uuid \<rightharpoonup> uuid) \<Rightarrow> uuid list \<Rightarrow> (uuid \<times> nat) list" where
  "label_counts labels ns = fold (\<lambda>n cs. case labels n of Some l \<Rightarrow> bump l cs | None \<Rightarrow> cs) ns []"

fun max_by_count :: "(uuid \<times> nat) list \<Rightarrow> (uuid \<times> nat) option" where
  "max_by_count [] = None"
| "max_by_count (x # xs) = (case max_by_count xs of None \<Rightarrow> Some x | Some y \<Rightarrow> if snd x > snd y then Some x else Some y)"

definition adjacency :: "edge list \<Rightarrow> uuid \<Rightarrow> uuid list" where
  "adjacency es i = concat (map (\<lambda>e. (if ed_source e = i then [ed_target e] else []) @
     (if ed_target e = i then [ed_source e] else [])) es)"

definition relabel ::
  "((uuid \<times> nat) list \<Rightarrow> (uuid \<times> nat) list) \<Rightarrow> edge list \<Rightarrow> uuid \<Rightarrow> (uuid \<rightharpoonup> uuid) \<times> bool \<Rightarrow> (uuid \<rightharpoonup> uuid) \<times> bool" where
  "relabel order es i s =
     (case s of (labels, changed) \<Rightarrow>
      case max_by_count (order (label_counts labels (adjacency es i))) of
        None \<Rightarrow> (labels, changed)
      | Some (best, _) \<Rightarrow> if labels i \<noteq> Some best then (labels(i \<mapsto> best), True) else (labels, changed))"

fun propagate ::
  "((uuid \<times> nat) list \<Rightarrow> (uuid \<times> nat) list) \<Rightarrow> edge list \<Rightarrow> uuid list \<Rightarrow> nat \<Rightarrow> (uuid \<rightharpoonup> uuid) \<Rightarrow> (uuid \<rightharpoonup> uuid)" where
  "propagate order es is 0 labels = labels"
| "propagate order es is (Suc n) labels =
     (case fold (relabel order es) is (labels, False) of
        (labels', changed) \<Rightarrow> if changed then propagate order es is n labels' else labels')"

definition detect_communities ::
  "((uuid \<times> nat) list \<Rightarrow> (uuid \<times> nat) list) \<Rightarrow> graph_store \<Rightarrow> uuid \<Rightarrow> u32 \<Rightarrow> (uuid \<rightharpoonup> uuid)" where
  "detect_communities order st user_id max_iterations =
     (let entities = list_entities user_id 10000 None st in
      if entities = [] then Map.empty
      else
        let is = map en_id entities;
            es = query_edges user_id (edge_filter_default\<lparr>ef_include_invalidated := False, ef_limit := 100000\<rparr>) st
        in propagate order es is (unat max_iterations) (\<lambda>i. if i \<in> set is then Some i else None))"

section \<open>A label stays in its component\<close>

definition linked_by :: "edge list \<Rightarrow> (uuid \<times> uuid) set" where
  "linked_by es = {(i, j). j \<in> set (adjacency es i)}"

definition labels_ok :: "edge list \<Rightarrow> uuid set \<Rightarrow> (uuid \<rightharpoonup> uuid) \<Rightarrow> bool" where
  "labels_ok es is labels \<longleftrightarrow> dom labels = is \<and> (\<forall>i l. labels i = Some l \<longrightarrow> l \<in> is \<and> (i, l) \<in> (linked_by es)\<^sup>*)"

lemma fst_bump: "fst ` set (bump l cs) = insert l (fst ` set cs)"
  by (induction l cs rule: bump.induct) auto

lemma label_counts_labels: "fst ` set (label_counts labels ns) \<subseteq> {l. \<exists>n \<in> set ns. labels n = Some l}"
proof -
  have "fst ` set (fold (\<lambda>n cs. case labels n of Some l \<Rightarrow> bump l cs | None \<Rightarrow> cs) ns cs)
      \<subseteq> fst ` set cs \<union> {l. \<exists>n \<in> set ns. labels n = Some l}" for cs
  proof (induction ns arbitrary: cs)
    case (Cons n ns)
    show ?case using Cons.IH[of cs] Cons.IH[of "bump (the (labels n)) cs"]
      by (cases "labels n") (auto simp: fst_bump)
  qed simp
  from this[of "[]"] show ?thesis by (simp add: label_counts_def)
qed

lemma max_by_count_mem: "max_by_count xs = Some x \<Longrightarrow> x \<in> set xs"
  by (induction xs arbitrary: x) (auto split: option.splits if_splits)

lemma relabel_ok:
  assumes ord: "\<And>cs. set (order cs) = set cs" and ok: "labels_ok es is (fst s)" and i: "i \<in> is"
  shows "labels_ok es is (fst (relabel order es i s))"
proof (cases "max_by_count (order (label_counts (fst s) (adjacency es i)))")
  case None
  then show ?thesis using ok by (simp add: relabel_def case_prod_beta)
next
  case (Some x)
  then have "fst x \<in> fst ` set (label_counts (fst s) (adjacency es i))"
    using max_by_count_mem[OF Some] ord by simp
  then obtain n where n: "n \<in> set (adjacency es i)" "fst s n = Some (fst x)"
    using label_counts_labels[of "fst s" "adjacency es i"] by blast
  then have "(i, fst x) \<in> (linked_by es)\<^sup>*"
    using ok by (auto simp: labels_ok_def linked_by_def intro: converse_rtrancl_into_rtrancl)
  moreover have "fst x \<in> is" using ok n(2) by (simp add: labels_ok_def)
  ultimately show ?thesis using ok i Some by (auto simp: relabel_def labels_ok_def case_prod_beta)
qed

lemma propagate_ok:
  assumes ord: "\<And>cs. set (order cs) = set cs"
  shows "labels_ok es (set is) labels \<Longrightarrow> labels_ok es (set is) (propagate order es is n labels)"
proof (induction n arbitrary: labels)
  case (Suc n)
  have round: "labels_ok es (set is) (fst (fold (relabel order es) js s))"
    if "set js \<subseteq> set is" "labels_ok es (set is) (fst s)" for js s
    using that
  proof (induction js arbitrary: s)
    case (Cons j js)
    have "labels_ok es (set is) (fst (relabel order es j s))"
      using Cons.prems by (intro relabel_ok[OF ord]) auto
    then show ?case using Cons.IH Cons.prems by simp
  qed simp
  from round[of "is" "(labels, False)"] Suc show ?case by (auto split: prod.split)
qed simp

text \<open>Whatever the order of the map and the number of rounds: every listed entity has a label, and the label
  is a listed entity that a walk over valid facts of the user connects with it.\<close>

theorem communities_connected:
  assumes "\<And>cs. set (order cs) = set cs"
  shows "labels_ok (query_edges user_id (edge_filter_default\<lparr>ef_include_invalidated := False, ef_limit := 100000\<rparr>) st)
     (en_id ` set (list_entities user_id 10000 None st)) (detect_communities order st user_id n)"
proof (cases "list_entities user_id 10000 None st = []")
  case True
  then show ?thesis by (simp add: detect_communities_def labels_ok_def)
next
  case False
  let ?is = "map en_id (list_entities user_id 10000 None st)"
  have "labels_ok es (set ?is) (\<lambda>i. if i \<in> set ?is then Some i else None)" for es
    by (auto simp: labels_ok_def split: if_splits)
  from propagate_ok[OF assms this] False show ?thesis by (simp add: detect_communities_def Let_def)
qed

end
