(* ===== verification/Fact_Extraction.thy ===== *)
theory Fact_Extraction
  imports Knowledge_Graph
begin

text \<open>
  What an extraction yields, and the deterministic fallback of \<^verbatim>\<open>mnemo-ingest/src/lib.rs\<close> for texts the
  language model finds nothing in. \<open>caps\<close> stands for the \<^verbatim>\<open>regex\<close> crate: the groups that a pattern captures
  in a text, from the first one on, or none when it does not match. Every group of these patterns takes part in
  a match.
\<close>

record extraction_result =
  xn_entities :: "extracted_entity list"
  xn_relationships :: "extracted_relationship list"

text \<open>The part of a text before the first occurrence of another, \<^verbatim>\<open>split(pat).next()\<close>.\<close>

fun before :: "string \<Rightarrow> string \<Rightarrow> string" where
  "before pat [] = []"
| "before pat (c # s) = (if is_prefix_of pat (c # s) then [] else c # before pat s)"

definition trim_end_dots :: "string \<Rightarrow> string" where
  "trim_end_dots s = rev (dropWhile (\<lambda>c. c = CHR ''.'') (rev s))"

definition person_entity :: "string \<Rightarrow> extracted_entity" where
  "person_entity p = \<lparr>xe_name = p, xe_type = EnPerson, xe_summary = None, xe_classification = ClInternal\<rparr>"

definition push_target ::
  "string \<Rightarrow> string \<Rightarrow> entity_type \<Rightarrow> string option \<Rightarrow> string \<Rightarrow> string \<Rightarrow> extraction_result \<Rightarrow> extraction_result" where
  "push_target person name ty summary label fct r =
     r\<lparr>xn_entities := xn_entities r @
         [\<lparr>xe_name = name, xe_type = ty, xe_summary = summary, xe_classification = ClInternal\<rparr>],
       xn_relationships := xn_relationships r @
         [\<lparr>xr_source_name = person, xr_target_name = name, xr_label = label, xr_fact = fct,
           xr_confidence = Fin (3 / 4), xr_valid_at = None, xr_classification = ClInternal, xr_temporal_scope = None\<rparr>]\<rparr>"

abbreviation apos :: string where "apos \<equiv> [CHR 0x27]"

definition word_end :: string where "word_end = [CHR 0x5C, CHR ''b'']"

definition name_group :: string where "name_group = ''([A-Z][A-Za-z]+)''"

definition fallback_patterns :: "string list" where
  "fallback_patterns = map (\<lambda>p. ''^'' @ name_group @ p)
     ['' is allergic to ([^.]+)'',
      '' is (vegetarian|vegan)'' @ word_end,
      apos @ ''s birthday is on ([^.]+)'',
      '' studied ([^.]+) at ([^.]+)'',
      '' speaks ([A-Za-z]+) and ([A-Za-z]+)'',
      '' is training for (?:a|an) ([^.]+)'',
      '' completed (?:a|an) ([^.]+)'',
      '' prefers ([^.]+)'',
      '' is (?:a|an) (.+)'',
      '' has a ([A-Z][A-Za-z]+(?: [A-Z][A-Za-z]+)*) named ([A-Z][A-Za-z]+)'',
      apos @ ''s most viewed photo has over ([^.]+) views on ([A-Za-z]+)'']"

text \<open>The first pattern that matches decides: its number and the groups after the name.\<close>

fun first_match :: "(string \<Rightarrow> string \<Rightarrow> string list option) \<Rightarrow> string \<Rightarrow> nat \<Rightarrow> string list \<Rightarrow> (nat \<times> string list) option" where
  "first_match caps body k [] = None"
| "first_match caps body k (p # ps) =
     (case caps p body of Some gs \<Rightarrow> Some (k, tl gs) | None \<Rightarrow> first_match caps body (Suc k) ps)"

definition fallback_push :: "string \<Rightarrow> nat \<Rightarrow> string list \<Rightarrow> extraction_result \<Rightarrow> extraction_result" where
  "fallback_push person k gs r =
     (let a = trim (gs ! 0); b = trim (gs ! 1); push = push_target person in
      if k = 0 then push a EnConcept (Some ''allergen'') ''allergic_to'' (person @ '' is allergic to '' @ a) r
      else if k = 1 then push a EnConcept (Some ''dietary preference'') ''dietary_preference'' (person @ '' is '' @ a) r
      else if k = 2 then
        push a EnEvent (Some ''birthday date'') ''birthday_on'' (person @ apos @ ''s birthday is on '' @ a) r
      else if k = 3 then
        push b EnOrganization (Some (''studied '' @ a @ '' here'')) ''studied_at'' (person @ '' studied '' @ a @ '' at '' @ b) r
      else if k = 4 then
        push b EnConcept (Some ''language spoken'') ''speaks'' (person @ '' speaks '' @ b)
          (push a EnConcept (Some ''language spoken'') ''speaks'' (person @ '' speaks '' @ a) r)
      else if k = 5 then
        push a EnEvent (Some ''upcoming training target'') ''training_for'' (person @ '' is training for '' @ a) r
      else if k = 6 then push a EnEvent (Some ''completed event'') ''completed'' (person @ '' completed '' @ a) r
      else if k = 7 then
        (let preference = trim (before '' and '' (gs ! 0)) in
         push preference EnConcept (Some ''stated preference'') ''prefers'' (person @ '' prefers '' @ preference) r)
      else if k = 8 then
        (let descriptor = trim_end_dots a; role = trim (before '' specialising '' (before '' at '' descriptor)) in
         if role = [] then r
         else push role (EnCustom ''profession'') (Some ''occupation'') ''occupation'' (person @ '' is '' @ descriptor) r)
      else if k = 9 then
        push b (EnCustom ''animal'') (Some a) ''has_pet'' (person @ '' has a '' @ a @ '' named '' @ b) r
      else
        push b (EnCustom ''platform'') (Some (''over '' @ a @ '' views'')) ''popular_on''
          (person @ '' has over '' @ a @ '' views on '' @ b) r)"

definition fallback_attribute_extraction ::
  "(string \<Rightarrow> string \<Rightarrow> string list option) \<Rightarrow> string \<Rightarrow> extraction_result option" where
  "fallback_attribute_extraction caps content =
     (let body = trim content in
      case caps (''^'' @ name_group @ ''(?:'' @ apos @ ''s)?'' @ word_end) body of
        None \<Rightarrow> None
      | Some gs \<Rightarrow>
        let person = gs ! 0;
            r0 = \<lparr>xn_entities = [person_entity person], xn_relationships = []\<rparr>;
            r = (case first_match caps body 0 fallback_patterns of
                   Some (k, groups) \<Rightarrow> fallback_push person k groups r0
                 | None \<Rightarrow> r0)
        in if xn_relationships r = [] then None else Some r)"

end
