(* ===== verification/Episode_Processing.thy ===== *)
theory Episode_Processing
  imports Fact_Extraction Episodes
begin

text \<open>
  \<^verbatim>\<open>process_episode\<close> of \<^verbatim>\<open>mnemo-ingest/src/lib.rs\<close>: how the entities and relationships
  extracted from an episode enter the knowledge graph, how a new fact supersedes the facts it contradicts,
  and the session summary. Parameters: the language model (\<open>llm\<close>, \<open>summarize\<close>), the embedder together with
  the vector store (\<open>index_entity\<close>, \<open>index_edge\<close>, \<open>index_episode\<close>: whether a document is indexed), and the
  clock \<open>t\<close> and the supply of identifiers \<open>u\<close>, read at a running number \<open>n\<close>. Spans, webhooks and the
  activity log are left out.
\<close>

section \<open>Resolving entities\<close>

definition resolve_entity ::
  "(nat \<Rightarrow> timestamp) \<Rightarrow> (nat \<Rightarrow> uuid) \<Rightarrow> (entity \<Rightarrow> mnemo_error + unit) \<Rightarrow> uuid \<Rightarrow> extracted_entity \<Rightarrow>
   (string \<rightharpoonup> uuid) \<Rightarrow> uuid list \<Rightarrow> graph_store \<Rightarrow> nat \<Rightarrow>
   (mnemo_error + (string \<rightharpoonup> uuid) \<times> uuid list) \<times> graph_store \<times> nat" where
  "resolve_entity t u index_entity user_id ext names new_ids st n =
     (case find_entity_by_name user_id (xe_name ext) st of
        Inl x \<Rightarrow> (Inl x, st, n)
      | Inr (Some e) \<Rightarrow>
        let e1 = record_mention (t n) e;
            e2 = (case xe_summary ext of Some s \<Rightarrow> update_summary s (t (n + 1)) e1 | None \<Rightarrow> e1)
        in (Inr (names(lowercase (xe_name ext) \<mapsto> en_id e2), new_ids), update_entity e2 st, n + 2)
      | Inr None \<Rightarrow>
        (case create_entity (entity_from_extraction ext user_id (t n) (u n)) st of
           (created, st') \<Rightarrow>
             (case index_entity created of
                Inl x \<Rightarrow> (Inl x, st', n + 1)
              | Inr _ \<Rightarrow> (Inr (names(lowercase (xe_name ext) \<mapsto> en_id created), new_ids @ [en_id created]), st', n + 1))))"

fun resolve_entities ::
  "(nat \<Rightarrow> timestamp) \<Rightarrow> (nat \<Rightarrow> uuid) \<Rightarrow> (entity \<Rightarrow> mnemo_error + unit) \<Rightarrow> uuid \<Rightarrow> extracted_entity list \<Rightarrow>
   (string \<rightharpoonup> uuid) \<Rightarrow> uuid list \<Rightarrow> graph_store \<Rightarrow> nat \<Rightarrow>
   (mnemo_error + (string \<rightharpoonup> uuid) \<times> uuid list) \<times> graph_store \<times> nat" where
  "resolve_entities t u index_entity user_id [] names new_ids st n = (Inr (names, new_ids), st, n)"
| "resolve_entities t u index_entity user_id (x # xs) names new_ids st n =
     (case resolve_entity t u index_entity user_id x names new_ids st n of
        (Inl e, st', n') \<Rightarrow> (Inl e, st', n')
      | (Inr (names', new_ids'), st', n') \<Rightarrow> resolve_entities t u index_entity user_id xs names' new_ids' st' n')"

section \<open>Superseding facts\<close>

text \<open>The facts of the same source, target and label.\<close>

fun supersede_conflicts :: "(nat \<Rightarrow> timestamp) \<Rightarrow> uuid \<Rightarrow> edge list \<Rightarrow> graph_store \<Rightarrow> nat \<Rightarrow> graph_store \<times> nat" where
  "supersede_conflicts t episode_id [] st n = (st, n)"
| "supersede_conflicts t episode_id (c # cs) st n =
     supersede_conflicts t episode_id cs (update_edge (invalidate episode_id (t n) c) st) (n + 1)"

text \<open>The valid facts of the same source and label with another target.\<close>

definition rival_edges :: "uuid \<Rightarrow> uuid \<Rightarrow> uuid \<Rightarrow> string \<Rightarrow> graph_store \<Rightarrow> edge list" where
  "rival_edges user_id src tgt label st =
     filter (\<lambda>e. ed_label e = label \<and> ed_user_id e = user_id \<and> is_valid e \<and> ed_target e \<noteq> tgt) (get_outgoing_edges src st)"

definition target_name :: "edge \<Rightarrow> graph_store \<Rightarrow> string" where
  "target_name e st = (case get_entity (ed_target e) st of Inr x \<Rightarrow> en_name x | Inl _ \<Rightarrow> [])"

definition revise_belief ::
  "(belief_change \<Rightarrow> string) \<Rightarrow> (nat \<Rightarrow> timestamp) \<Rightarrow> (nat \<Rightarrow> uuid) \<Rightarrow> uuid \<Rightarrow> uuid \<Rightarrow> extracted_relationship \<Rightarrow>
   edge \<Rightarrow> graph_store \<Rightarrow> nat \<Rightarrow> graph_store \<times> nat" where
  "revise_belief ser t u user_id episode_id rel existing st n =
     (let auto_supersede = lowercase (xr_target_name rel) \<noteq> lowercase (target_name existing st);
          (st1, n1) = (if auto_supersede then (update_edge (invalidate episode_id (t n) existing) st, n + 1) else (st, n));
          change = \<lparr>bc_id = u n1, bc_user_id = user_id, bc_subject = xr_source_name rel, bc_predicate = xr_label rel,
            bc_old_value = ed_fact existing, bc_new_value = xr_fact rel, bc_old_edge_id = ed_id existing, bc_new_edge_id = 0,
            bc_detected_at = t n1, bc_auto_superseded = auto_supersede\<rparr>
      in (record_belief_change ser change st1, n1 + 1))"

fun revise_beliefs ::
  "(belief_change \<Rightarrow> string) \<Rightarrow> (nat \<Rightarrow> timestamp) \<Rightarrow> (nat \<Rightarrow> uuid) \<Rightarrow> uuid \<Rightarrow> uuid \<Rightarrow> extracted_relationship \<Rightarrow>
   edge list \<Rightarrow> graph_store \<Rightarrow> nat \<Rightarrow> graph_store \<times> nat" where
  "revise_beliefs ser t u user_id episode_id rel [] st n = (st, n)"
| "revise_beliefs ser t u user_id episode_id rel (e # es) st n =
     (case revise_belief ser t u user_id episode_id rel e st n of
        (st', n') \<Rightarrow> revise_beliefs ser t u user_id episode_id rel es st' n')"

definition process_relationship ::
  "(char \<Rightarrow> bool) \<Rightarrow> (belief_change \<Rightarrow> string) \<Rightarrow> (nat \<Rightarrow> timestamp) \<Rightarrow> (nat \<Rightarrow> uuid) \<Rightarrow> (edge \<Rightarrow> mnemo_error + unit) \<Rightarrow>
   episode \<Rightarrow> (string \<rightharpoonup> uuid) \<Rightarrow> extracted_relationship \<Rightarrow> uuid list \<Rightarrow> graph_store \<Rightarrow> nat \<Rightarrow>
   (mnemo_error + uuid list) \<times> graph_store \<times> nat" where
  "process_relationship alnum ser t u index_edge ep names rel new_ids st n =
     (case (names (lowercase (xr_source_name rel)), names (lowercase (xr_target_name rel))) of
        (Some src, Some tgt) \<Rightarrow>
          (case supersede_conflicts t (e_id ep) (find_conflicting_edges (e_user_id ep) src tgt (xr_label rel) st) st n of
             (st1, n1) \<Rightarrow>
           case revise_beliefs ser t u (e_user_id ep) (e_id ep) rel (rival_edges (e_user_id ep) src tgt (xr_label rel) st1) st1 n1 of
             (st2, n2) \<Rightarrow>
           case create_edge alnum
               (edge_from_extraction rel (e_user_id ep) src tgt (e_id ep) (e_created_at ep) (e_agent_id ep) (t n2) (u n2)) st2 of
             (Inl x, st3) \<Rightarrow> (Inl x, st3, n2 + 1)
           | (Inr created, st3) \<Rightarrow>
               (case index_edge created of
                  Inl x \<Rightarrow> (Inl x, st3, n2 + 1)
                | Inr _ \<Rightarrow> (Inr (new_ids @ [ed_id created]), st3, n2 + 1)))
      | _ \<Rightarrow> (Inr new_ids, st, n))"

fun process_relationships ::
  "(char \<Rightarrow> bool) \<Rightarrow> (belief_change \<Rightarrow> string) \<Rightarrow> (nat \<Rightarrow> timestamp) \<Rightarrow> (nat \<Rightarrow> uuid) \<Rightarrow> (edge \<Rightarrow> mnemo_error + unit) \<Rightarrow>
   episode \<Rightarrow> (string \<rightharpoonup> uuid) \<Rightarrow> extracted_relationship list \<Rightarrow> uuid list \<Rightarrow> graph_store \<Rightarrow> nat \<Rightarrow>
   (mnemo_error + uuid list) \<times> graph_store \<times> nat" where
  "process_relationships alnum ser t u index_edge ep names [] new_ids st n = (Inr new_ids, st, n)"
| "process_relationships alnum ser t u index_edge ep names (r # rs) new_ids st n =
     (case process_relationship alnum ser t u index_edge ep names r new_ids st n of
        (Inl x, st', n') \<Rightarrow> (Inl x, st', n')
      | (Inr new_ids', st', n') \<Rightarrow> process_relationships alnum ser t u index_edge ep names rs new_ids' st' n')"

section \<open>The whole episode\<close>

definition session_has_inflight_episodes :: "uuid \<Rightarrow> episode_store \<Rightarrow> bool" where
  "session_has_inflight_episodes s es =
     list_ex (\<lambda>status. list_episodes s (Some status) es 1 None \<noteq> []) [PsPending, PsProcessing]"

definition summarize_session ::
  "(string \<Rightarrow> mnemo_error + string) \<Rightarrow> u32 \<Rightarrow> episode \<Rightarrow> timestamp \<Rightarrow> episode_store \<Rightarrow> episode_store" where
  "summarize_session summarize threshold ep now es =
     (if threshold = 0 then es
      else case get_session (e_session_id ep) (ep_base es) of
        Inl _ \<Rightarrow> es
      | Inr s \<Rightarrow>
        if s_episode_count s > 0 \<and> s_episode_count s mod ucast threshold = 0 then
          if session_has_inflight_episodes (e_session_id ep) es then es
          else case summarize (e_content ep) of
            Inl _ \<Rightarrow> es
          | Inr summary \<Rightarrow>
            es\<lparr>ep_base := snd (update_session (e_session_id ep)
              \<lparr>us_name = None, us_metadata = None, us_summary = Some summary,
               us_summary_tokens = Some (of_nat (max (length summary div 4) 1))\<rparr> now (ep_base es))\<rparr>
        else es)"

definition extraction_hint :: "entity \<Rightarrow> extracted_entity" where
  "extraction_hint e = \<lparr>xe_name = en_name e, xe_type = en_type e, xe_summary = en_summary e,
     xe_classification = en_classification e\<rparr>"

definition process_episode ::
  "(string \<Rightarrow> extracted_entity list \<Rightarrow> mnemo_error + extraction_result) \<Rightarrow> (string \<Rightarrow> mnemo_error + string) \<Rightarrow>
   (string \<Rightarrow> string \<Rightarrow> string list option) \<Rightarrow> (char \<Rightarrow> bool) \<Rightarrow> (belief_change \<Rightarrow> string) \<Rightarrow>
   (entity \<Rightarrow> mnemo_error + unit) \<Rightarrow> (edge \<Rightarrow> mnemo_error + unit) \<Rightarrow> (episode \<Rightarrow> mnemo_error + unit) \<Rightarrow>
   (nat \<Rightarrow> timestamp) \<Rightarrow> (nat \<Rightarrow> uuid) \<Rightarrow> u32 \<Rightarrow> episode \<Rightarrow> graph_store \<Rightarrow> episode_store \<Rightarrow>
   (mnemo_error + unit) \<times> graph_store \<times> episode_store" where
  "process_episode llm summarize caps alnum ser index_entity index_edge index_episode t u threshold ep g es =
     (case llm (e_content ep) (map extraction_hint (list_entities (e_user_id ep) 100 None g)) of
        Inl x \<Rightarrow> (Inl x, g, es)
      | Inr extracted \<Rightarrow>
        let extraction =
          (if xn_entities extracted = [] \<and> xn_relationships extracted = []
           then (case fallback_attribute_extraction caps (e_content ep) of Some r \<Rightarrow> r | None \<Rightarrow> extracted) else extracted)
        in case resolve_entities t u index_entity (e_user_id ep) (xn_entities extraction) Map.empty [] g 0 of
          (Inl x, g1, n1) \<Rightarrow> (Inl x, g1, es)
        | (Inr (names, entity_ids), g1, n1) \<Rightarrow>
          (case process_relationships alnum ser t u index_edge ep names (xn_relationships extraction) [] g1 n1 of
             (Inl x, g2, n2) \<Rightarrow> (Inl x, g2, es)
           | (Inr edge_ids, g2, n2) \<Rightarrow>
             (case index_episode ep of
                Inl x \<Rightarrow> (Inl x, g2, es)
              | Inr _ \<Rightarrow>
                let es1 = update_episode (mark_completed ep entity_ids edge_ids) es
                in (Inr (), g2, summarize_session summarize threshold ep (t n2) es1))))"

section \<open>Facts are superseded, not lost\<close>

text \<open>
  A store whose edges are those of another one, except that some of them, which satisfy \<open>P\<close>, have been
  invalidated by an episode.
\<close>

definition superseded :: "uuid \<Rightarrow> (edge \<Rightarrow> bool) \<Rightarrow> graph_store \<Rightarrow> graph_store \<Rightarrow> bool" where
  "superseded episode_id P st st' \<longleftrightarrow>
     gs_entities st' = gs_entities st \<and> gs_user_entities st' = gs_user_entities st \<and> gs_entity_name st' = gs_entity_name st \<and>
     gs_out st' = gs_out st \<and> gs_in st' = gs_in st \<and> gs_user_edges st' = gs_user_edges st \<and>
     (\<forall>i. map_of (gs_edges st) i = None \<longrightarrow> map_of (gs_edges st') i = None) \<and>
     (\<forall>i d. map_of (gs_edges st) i = Some d \<longrightarrow>
        map_of (gs_edges st') i = Some d \<or> P d \<and> (\<exists>now. map_of (gs_edges st') i = Some (invalidate episode_id now d)))"

lemma invalidate_simps [simp]:
  "ed_id (invalidate x now e) = ed_id e" "ed_user_id (invalidate x now e) = ed_user_id e"
  "ed_source (invalidate x now e) = ed_source e" "ed_target (invalidate x now e) = ed_target e"
  "ed_label (invalidate x now e) = ed_label e" "ed_valid_at (invalidate x now e) = ed_valid_at e"
  "ed_fact (invalidate x now e) = ed_fact e" "\<not> is_valid (invalidate x now e)"
  by (simp_all add: invalidate_def is_valid_def)

lemma superseded_refl: "superseded x P st st"
  by (simp add: superseded_def)

lemma supersededD:
  assumes "superseded x P st st'"
  shows "gs_entities st' = gs_entities st" "gs_out st' = gs_out st"
    and "map_of (gs_edges st) i = None \<Longrightarrow> map_of (gs_edges st') i = None"
    and "map_of (gs_edges st) i = Some d \<Longrightarrow>
        map_of (gs_edges st') i = Some d \<or> P d \<and> (\<exists>now. map_of (gs_edges st') i = Some (invalidate x now d))"
  using assms by (simp_all add: superseded_def)

lemma superseded_valid:
  assumes "superseded x P st st'" and "map_of (gs_edges st') i = Some d" and "is_valid d"
  shows "map_of (gs_edges st) i = Some d"
proof (cases "map_of (gs_edges st) i")
  case None
  then show ?thesis using supersededD(3)[OF assms(1)] assms(2) by simp
next
  case (Some e)
  then show ?thesis using supersededD(4)[OF assms(1) Some] assms(2,3) by auto
qed

lemma superseded_update:
  assumes "superseded x P st0 st" and "map_of (gs_edges st0) (ed_id e) = Some e" and "P e"
  shows "superseded x P st0 (update_edge (invalidate x now e) st)"
  using assms unfolding superseded_def update_edge_def by (auto simp: map_of_bt_insert)

lemma superseded_beliefs: "superseded x P st0 (record_belief_change ser c st) = superseded x P st0 st"
  by (simp add: superseded_def record_belief_change_def Let_def)

lemma indexed_superseded:
  assumes ix: "indexed ed_id sel edge_score docs z"
    and none: "\<forall>i. map_of docs i = None \<longrightarrow> map_of docs' i = None"
    and some: "\<forall>i d. map_of docs i = Some d \<longrightarrow> map_of docs' i = Some d \<or> (\<exists>now. map_of docs' i = Some (invalidate x now d))"
    and sel: "\<And>now d. sel (invalidate x now d) = sel d"
  shows "indexed ed_id sel edge_score docs' z"
proof -
  have rel: "(map_of docs i = None \<and> map_of docs' i = None) \<or>
      (\<exists>d d'. map_of docs i = Some d \<and> map_of docs' i = Some d' \<and> ed_id d' = ed_id d \<and> sel d' = sel d \<and> edge_score d' = edge_score d)" for i
    using none some sel by (cases "map_of docs i") (fastforce simp: edge_score_def)+
  show ?thesis unfolding indexed_def
  proof (intro conjI allI impI)
    show "zset_ok z" using ix by (simp add: indexed_def)
    show "ed_id d = i" if "map_of docs' i = Some d" for i d
      using rel[of i] that ix by (auto simp: indexed_def)
    show "zscore z i = (case map_of docs' i of Some d \<Rightarrow> if sel d then Some (edge_score d) else None | None \<Rightarrow> None)" for i
      using rel[of i] ix by (auto simp: indexed_def)
  qed
qed

lemma graph_ok_superseded:
  assumes ok: "graph_ok st" and sup: "superseded x P st st'"
  shows "graph_ok st'"
proof -
  have n: "\<forall>i. map_of (gs_edges st) i = None \<longrightarrow> map_of (gs_edges st') i = None"
    and s: "\<forall>i d. map_of (gs_edges st) i = Some d \<longrightarrow>
        map_of (gs_edges st') i = Some d \<or> (\<exists>now. map_of (gs_edges st') i = Some (invalidate x now d))"
    and same: "gs_entities st' = gs_entities st" "gs_user_entities st' = gs_user_entities st"
      "gs_entity_name st' = gs_entity_name st" "gs_out st' = gs_out st" "gs_in st' = gs_in st"
      "gs_user_edges st' = gs_user_edges st"
    using sup by (auto simp: superseded_def)
  show ?thesis
    using ok indexed_superseded[OF graph_okD(2)[OF ok] n s] indexed_superseded[OF graph_okD(3)[OF ok] n s]
      indexed_superseded[OF graph_okD(4)[OF ok] n s]
    by (simp add: graph_ok_def same)
qed

text \<open>Both passes over old facts: what they are given is invalid afterwards, what was invalid stays so.\<close>

definition invalid_in :: "graph_store \<Rightarrow> uuid \<Rightarrow> bool" where
  "invalid_in st i \<longleftrightarrow> (\<exists>d. map_of (gs_edges st) i = Some d \<and> \<not> is_valid d)"

lemma invalid_in_update: "invalid_in st i \<or> i = ed_id e \<Longrightarrow> invalid_in (update_edge (invalidate x now e) st) i"
  by (auto simp: invalid_in_def update_edge_def map_of_bt_insert)

lemma invalid_in_beliefs: "invalid_in (record_belief_change ser c st) i = invalid_in st i"
  by (simp add: invalid_in_def record_belief_change_def Let_def)

lemma supersede_conflicts_spec:
  assumes "supersede_conflicts t x cs st n = (st', n')" and "superseded x P st0 st"
    and "\<forall>c \<in> set cs. map_of (gs_edges st0) (ed_id c) = Some c \<and> P c"
  shows "superseded x P st0 st' \<and> n \<le> n' \<and> (\<forall>i. invalid_in st i \<or> i \<in> ed_id ` set cs \<longrightarrow> invalid_in st' i)"
  using assms
proof (induction t x cs st n rule: supersede_conflicts.induct)
  case (2 t x c cs st n)
  let ?st = "update_edge (invalidate x (t n) c) st"
  have "superseded x P st0 ?st" using 2(3,4) by (auto intro: superseded_update)
  from 2(1)[OF _ this] 2(2,4) have
    r: "superseded x P st0 st'" "n + 1 \<le> n'" "\<forall>i. invalid_in ?st i \<or> i \<in> ed_id ` set cs \<longrightarrow> invalid_in st' i" by auto
  have "invalid_in ?st i" if "invalid_in st i \<or> i = ed_id c" for i using that by (rule invalid_in_update)
  then show ?case using r by auto
qed auto

lemma revise_belief_spec:
  assumes "revise_belief ser t u user x rel e st n = (st', n')" and "superseded x P st0 st"
    and "map_of (gs_edges st0) (ed_id e) = Some e" "P e"
  shows "superseded x P st0 st' \<and> n \<le> n' \<and>
    (\<forall>i. invalid_in st i \<or> i = ed_id e \<and> lowercase (xr_target_name rel) \<noteq> lowercase (target_name e st0) \<longrightarrow> invalid_in st' i)"
proof -
  have "target_name e st = target_name e st0"
    using supersededD(1)[OF assms(2)] by (simp add: target_name_def get_entity_def)
  then show ?thesis
    using assms superseded_update[OF assms(2-4)] invalid_in_update[of st]
    by (auto simp: revise_belief_def Let_def superseded_beliefs invalid_in_beliefs split: if_splits)
qed

lemma revise_beliefs_spec:
  assumes "revise_beliefs ser t u user x rel es st n = (st', n')" and "superseded x P st0 st"
    and "\<forall>e \<in> set es. map_of (gs_edges st0) (ed_id e) = Some e \<and> P e"
  shows "superseded x P st0 st' \<and> n \<le> n' \<and>
    (\<forall>i. invalid_in st i \<or>
       (\<exists>e \<in> set es. i = ed_id e \<and> lowercase (xr_target_name rel) \<noteq> lowercase (target_name e st0)) \<longrightarrow> invalid_in st' i)"
  using assms
proof (induction ser t u user x rel es st n rule: revise_beliefs.induct)
  case (2 ser t u user x rel e es st n)
  obtain st1 n1 where one: "revise_belief ser t u user x rel e st n = (st1, n1)" by (metis surj_pair)
  from revise_belief_spec[OF one 2(3)] 2(4) have
    a: "superseded x P st0 st1" "n \<le> n1" "\<forall>i. invalid_in st i \<or> i = ed_id e \<and>
      lowercase (xr_target_name rel) \<noteq> lowercase (target_name e st0) \<longrightarrow> invalid_in st1 i" by auto
  from 2(1)[OF one[symmetric] _ a(1)] 2(2,4) one have
    "superseded x P st0 st'" "n1 \<le> n'" "\<forall>i. invalid_in st1 i \<or> (\<exists>e \<in> set es. i = ed_id e \<and>
      lowercase (xr_target_name rel) \<noteq> lowercase (target_name e st0)) \<longrightarrow> invalid_in st' i" by auto
  then show ?case using a by auto
qed auto

definition claim_of :: "uuid \<Rightarrow> uuid \<Rightarrow> string \<Rightarrow> edge \<Rightarrow> bool" where
  "claim_of user_id src label d \<longleftrightarrow> is_valid d \<and> ed_user_id d = user_id \<and> ed_source d = src \<and> ed_label d = label"

text \<open>Before the new fact is stored, every rival is invalid, unless its target bears the new target's name.\<close>

lemma claims_revised:
  assumes ok: "graph_ok st" and all: "length (gs_out st src) \<le> 1000"
    and sc: "supersede_conflicts t x (find_conflicting_edges user src tgt (xr_label rel) st) st n = (st1, n1)"
    and rb: "revise_beliefs ser t u user x rel (rival_edges user src tgt (xr_label rel) st1) st1 n1 = (st2, n2)"
  defines "P \<equiv> claim_of user src (xr_label rel)"
  shows "superseded x P st st2 \<and> n \<le> n2 \<and>
    (\<forall>d. map_of (gs_edges st2) (ed_id d) = Some d \<and> P d \<longrightarrow>
       ed_target d \<noteq> tgt \<and> lowercase (target_name d st) = lowercase (xr_target_name rel))"
proof -
  let ?cs = "find_conflicting_edges user src tgt (xr_label rel) st"
  let ?rs = "rival_edges user src tgt (xr_label rel) st1"
  have cs: "\<forall>c \<in> set ?cs. map_of (gs_edges st) (ed_id c) = Some c \<and> P c"
    using set_outgoing[OF ok, of _ src] by (auto simp: find_conflicting_edges_def P_def claim_of_def)
  note one = supersede_conflicts_spec[OF sc superseded_refl cs]
  have sup1: "superseded x P st st1" using one by blast
  have ok1: "graph_ok st1" using graph_ok_superseded[OF ok sup1] .
  have out1: "gs_out st1 = gs_out st" using supersededD(2) one by blast
  have rs: "\<forall>e \<in> set ?rs. map_of (gs_edges st) (ed_id e) = Some e \<and> P e"
  proof
    fix e assume "e \<in> set ?rs"
    then have "map_of (gs_edges st1) (ed_id e) = Some e" "P e"
      using set_outgoing[OF ok1, of e src] by (auto simp: rival_edges_def P_def claim_of_def)
    moreover have "is_valid e" using \<open>P e\<close> by (simp add: P_def claim_of_def)
    ultimately show "map_of (gs_edges st) (ed_id e) = Some e \<and> P e"
      using superseded_valid[OF sup1] by blast
  qed
  note two = revise_beliefs_spec[OF rb sup1 rs]
  have "ed_target d \<noteq> tgt \<and> lowercase (target_name d st) = lowercase (xr_target_name rel)"
    if d: "map_of (gs_edges st2) (ed_id d) = Some d" "P d" for d
  proof -
    have v: "is_valid d" using d(2) by (simp add: P_def claim_of_def)
    have "\<not> invalid_in st2 (ed_id d)" using d(1) v by (simp add: invalid_in_def)
    then have n1: "\<not> invalid_in st1 (ed_id d)" and
      nr: "d \<in> set ?rs \<Longrightarrow> lowercase (xr_target_name rel) = lowercase (target_name d st)" using two by blast+
    have nc: "d \<notin> set ?cs" using n1 one by blast
    have "map_of (gs_edges st) (ed_id d) = Some d" using superseded_valid[of x P st st2, OF _ d(1) v] two by blast
    then have "d \<in> set (get_outgoing_edges src st)" "map_of (gs_edges st1) (ed_id d) = Some d"
      using outgoing_all[OF ok all] d(2) supersededD(4)[OF sup1, of "ed_id d" d] n1
      by (auto simp: P_def claim_of_def invalid_in_def)
    moreover have "d \<in> set (get_outgoing_edges src st1)"
      using outgoing_all[OF ok1, of src] all out1 calculation(2) d(2) by (simp add: P_def claim_of_def)
    ultimately show ?thesis using nc nr d(2)
      by (auto simp: find_conflicting_edges_def rival_edges_def P_def claim_of_def)
  qed
  then show ?thesis using one two by auto
qed


definition sample_message :: episode where
  "sample_message = episode_from_request
     \<lparr>ce_id = None, ce_type = EtMessage, ce_content = ''I met Carl'', ce_role = None, ce_name = None, ce_agent_id = None,
      ce_metadata = JNull, ce_created_at = None, ce_modality = MText\<rparr> 3 5 None 20 0"

definition sample_names :: "string \<rightharpoonup> uuid" where
  "sample_names = map_of [(''ann'', 1), (''carl'', 3), (''dora'', 4)]"

definition sample_relation :: "string \<Rightarrow> extracted_relationship" where
  "sample_relation name =
     \<lparr>xr_source_name = ''Ann'', xr_target_name = name, xr_label = ''knows'', xr_fact = ''Ann knows '' @ name,
      xr_confidence = Fin 1, xr_valid_at = None, xr_classification = ClInternal, xr_temporal_scope = None\<rparr>"

definition sample_run :: "(mnemo_error + uuid list) \<times> graph_store \<times> nat" where
  "sample_run = process_relationship (\<lambda>_. True) (\<lambda>_. []) (\<lambda>_. 7) (\<lambda>_. 11) (\<lambda>_. Inr ()) sample_message sample_names
     (sample_relation ''Carl'') [] sample_graph 0"


text \<open>
  A predicate that holds of several objects at once is treated the same way: of the two facts
  that the fallback extracts from a text that names two of them, only the last stays current.
\<close>

lemma several_objects_keep_the_last:
  "(case process_relationships (\<lambda>_. True) (\<lambda>_. []) (\<lambda>_. 7) (\<lambda>n. of_nat (n + 50)) (\<lambda>_. Inr ()) sample_message sample_names
      [sample_relation ''Carl'', sample_relation ''Dora''] [] sample_graph 0 of
      (r, st', _) \<Rightarrow> map ed_fact (filter is_valid (map snd (gs_edges st')))) = [''Ann knows Dora'']"
  by code_simp

section \<open>The session summary\<close>

lemma inflight_always:
  assumes ok: "episodes_ok es" and e: "map_of (ep_episodes es) i = Some e" "e_session_id e = s"
  shows "session_has_inflight_episodes s es"
proof -
  have "e \<in> set (session_episodes s es)" using set_session_episodes[OF ok, of s] e by (auto simp: ran_def)
  then have "session_episodes s es \<noteq> []" by auto
  moreover have "list_episodes s st es 1 None = take 1 (session_episodes s es)" for st
    unfolding list_episodes_def session_episodes_def by (rule page_first[OF episodes_okD(5)[OF ok]]) simp
  ultimately show ?thesis by (simp add: session_has_inflight_episodes_def)
qed

text \<open>A user, a session of the user and one message in it.\<close>

definition sample_episodes :: episode_store where
  "sample_episodes = snd (create_episode (\<lambda>_. [])
     \<lparr>ce_id = None, ce_type = EtMessage, ce_content = ''I met Carl'', ce_role = None, ce_name = None, ce_agent_id = None,
      ce_metadata = JNull, ce_created_at = None, ce_modality = MText\<rparr> 3 5 None 20 0 0 0
     (episode_store_new (snd (create_session
        \<lparr>cs_id = Some 3, cs_user_id = 5, cs_agent_id = None, cs_name = None, cs_metadata = JNull\<rparr> 0 0
        (session_store_new (snd (create_user (\<lambda>_. [])
          \<lparr>cu_id = Some 5, cu_external_id = None, cu_name = ''Ann'', cu_email = None, cu_metadata = JNull\<rparr> 0 0 user_store_new)))))))"

lemma sample_episodes_ok: "episodes_ok sample_episodes"
  unfolding sample_episodes_def
  by (intro episodes_ok_create episodes_ok_new sessions_ok_create sessions_ok_new users_ok_create users_ok_new)
    (simp_all add: episode_store_new_def session_store_new_def)

text \<open>Processing an episode never summarizes its session. The check for episodes in flight asks for one
  pending episode, but the listing it uses ignores the requested status and answers the newest episode of the
  session, which exists: so on every consistent store, at every threshold and whatever the language model
  answers, the sessions are left as they were and the summary is deferred again.\<close>

theorem session_summary_never_runs:
  assumes "episodes_ok es" and "map_of (ep_episodes es) (e_id ep) = Some e"
    and "e_session_id e = e_session_id ep" and "e_created_at e = e_created_at ep"
    and "process_episode llm summarize caps alnum ser index_entity index_edge index_episode t u threshold ep g es = (r, g', es')"
  shows "ep_base es' = ep_base es"
proof -
  have "ep_base (summarize_session summarize threshold ep now (update_episode (mark_completed ep a b) es)) = ep_base es"
    for now a b
  proof -
    let ?ep = "mark_completed ep a b" and ?es = "update_episode (mark_completed ep a b) es"
    have id: "e_id ?ep = e_id ep" "e_session_id ?ep = e_session_id ep" "e_created_at ?ep = e_created_at ep"
      by (simp_all add: mark_completed_def)
    have "episodes_ok ?es" using episodes_ok_update[OF assms(1), of ?ep e] assms(2-4) id by simp
    moreover have "map_of (ep_episodes ?es) (e_id ep) = Some ?ep"
      by (simp add: update_episode_def map_of_bt_insert id)
    ultimately have "session_has_inflight_episodes (e_session_id ep) ?es" using id(2) by (rule inflight_always)
    then show ?thesis by (simp add: summarize_session_def update_episode_def split: sum.split)
  qed
  then show ?thesis using assms(5)
    by (auto simp: process_episode_def Let_def split: sum.splits prod.splits if_splits option.splits)
qed

lemma session_summary_never_runs_witness:
  "get_session 3 (ep_base (snd (snd (process_episode (\<lambda>_ _. Inr \<lparr>xn_entities = [], xn_relationships = []\<rparr>)
     (\<lambda>_. Inr ''They met.'') (\<lambda>_ _. None) (\<lambda>_. True) (\<lambda>_. []) (\<lambda>_. Inr ()) (\<lambda>_. Inr ()) (\<lambda>_. Inr ())
     (\<lambda>_. 0) (\<lambda>_. 1) 1 sample_message sample_graph sample_episodes)))) = get_session 3 (ep_base sample_episodes)"
proof -
  have stored: "map_of (ep_episodes sample_episodes) (e_id sample_message) = Some sample_message"
    by (simp add: sample_episodes_def create_episode_fields map_of_bt_insert sample_message_def)
  show ?thesis
    by (metis prod.collapse session_summary_never_runs[OF sample_episodes_ok stored refl refl])
qed

end
