(* ===== verification/Webhook_Targets.thy ===== *)
theory Webhook_Targets
  imports User_Policy
begin

text \<open>
  The checks on the target URL of a webhook in \<^verbatim>\<open>mnemo-server/src/routes.rs\<close>: the scheme, the
  host names and the address ranges that are refused when a webhook is stored
  (\<open>is_url_safe_for_webhook\<close>), and the addresses that are refused when it is called
  (\<open>is_ip_safe_for_webhook\<close>, \<open>validate_webhook_dns\<close>). The standard library's address parser
  and its address classes are written out; the URL parser of \<^verbatim>\<open>reqwest\<close> (\<open>url_parse\<close>), the name
  resolution (\<open>lookup\<close>) and the text of an address (\<open>show_ip\<close>) are parameters.
\<close>

section \<open>Addresses\<close>

type_synonym u16 = "16 word"

text \<open>\<^verbatim>\<open>std::net::IpAddr\<close>: four octets, or eight segments.\<close>

datatype ip_addr = V4 u8 u8 u8 u8 | V6 "u16 list"

fun v4_is_private :: "ip_addr \<Rightarrow> bool" where
  "v4_is_private (V4 a b _ _) \<longleftrightarrow> a = 10 \<or> a = 172 \<and> 16 \<le> b \<and> b \<le> 31 \<or> a = 192 \<and> b = 168"
| "v4_is_private (V6 _) \<longleftrightarrow> False"

fun v4_is_loopback :: "ip_addr \<Rightarrow> bool" where
  "v4_is_loopback (V4 a _ _ _) \<longleftrightarrow> a = 127"
| "v4_is_loopback (V6 _) \<longleftrightarrow> False"

fun v4_is_link_local :: "ip_addr \<Rightarrow> bool" where
  "v4_is_link_local (V4 a b _ _) \<longleftrightarrow> a = 169 \<and> b = 254"
| "v4_is_link_local (V6 _) \<longleftrightarrow> False"

definition v4_is_broadcast :: "ip_addr \<Rightarrow> bool" where
  "v4_is_broadcast ip \<longleftrightarrow> ip = V4 255 255 255 255"

definition v4_is_unspecified :: "ip_addr \<Rightarrow> bool" where
  "v4_is_unspecified ip \<longleftrightarrow> ip = V4 0 0 0 0"

definition v6_is_loopback :: "ip_addr \<Rightarrow> bool" where
  "v6_is_loopback ip \<longleftrightarrow> ip = V6 [0, 0, 0, 0, 0, 0, 0, 1]"

definition v6_is_unspecified :: "ip_addr \<Rightarrow> bool" where
  "v6_is_unspecified ip \<longleftrightarrow> ip = V6 [0, 0, 0, 0, 0, 0, 0, 0]"

section \<open>The address parser\<close>

text \<open>
  \<^verbatim>\<open>str::parse::<IpAddr>\<close>: a reader takes the text that is left and returns what it read with
  the rest, or \<open>None\<close> without consuming anything.
\<close>

definition digit_value :: "char \<Rightarrow> nat option" where
  "digit_value c =
     (if CHR ''0'' \<le> c \<and> c \<le> CHR ''9'' then Some (of_char c - 48)
      else if CHR ''a'' \<le> c \<and> c \<le> CHR ''f'' then Some (of_char c - 87)
      else if CHR ''A'' \<le> c \<and> c \<le> CHR ''F'' then Some (of_char c - 55)
      else None)"

definition to_digit :: "nat \<Rightarrow> char \<Rightarrow> nat option" where
  "to_digit radix c =
     (case digit_value c of Some d \<Rightarrow> if d < radix then Some d else None | None \<Rightarrow> None)"

fun digits_value :: "nat \<Rightarrow> nat \<Rightarrow> string \<Rightarrow> nat" where
  "digits_value radix acc [] = acc"
| "digits_value radix acc (c # cs) = digits_value radix (acc * radix + (case to_digit radix c of Some d \<Rightarrow> d | None \<Rightarrow> 0)) cs"

definition read_number :: "nat \<Rightarrow> nat \<Rightarrow> bool \<Rightarrow> nat \<Rightarrow> string \<Rightarrow> (nat \<times> string) option" where
  "read_number radix max_digits allow_zero_prefix bound s =
     (let ds = takeWhile (\<lambda>c. to_digit radix c \<noteq> None) s; v = digits_value radix 0 ds in
      if max_digits < length ds then None
      else if ds = [] then None
      else if \<not> allow_zero_prefix \<and> hd ds = CHR ''0'' \<and> 1 < length ds then None
      else if bound < v then None
      else Some (v, drop (length ds) s))"

definition read_separator ::
  "char \<Rightarrow> nat \<Rightarrow> (string \<Rightarrow> ('a \<times> string) option) \<Rightarrow> string \<Rightarrow> ('a \<times> string) option" where
  "read_separator sep index inner s =
     (if 0 < index then (case s of c # cs \<Rightarrow> if c = sep then inner cs else None | [] \<Rightarrow> None)
      else inner s)"

definition read_octet :: "nat \<Rightarrow> string \<Rightarrow> (nat \<times> string) option" where
  "read_octet index = read_separator (CHR ''.'') index (read_number 10 3 False 255)"

definition read_ipv4_addr :: "string \<Rightarrow> ((nat \<times> nat \<times> nat \<times> nat) \<times> string) option" where
  "read_ipv4_addr s =
     (case read_octet 0 s of None \<Rightarrow> None | Some (a, s1) \<Rightarrow>
      (case read_octet 1 s1 of None \<Rightarrow> None | Some (b, s2) \<Rightarrow>
       (case read_octet 2 s2 of None \<Rightarrow> None | Some (c, s3) \<Rightarrow>
        (case read_octet 3 s3 of None \<Rightarrow> None | Some (d, s4) \<Rightarrow> Some ((a, b, c, d), s4)))))"

text \<open>At most \<open>n\<close> more groups are read, the next one being number \<open>i\<close>; the flag tells that
  the last two came from an IPv4 address.\<close>

fun read_groups :: "nat \<Rightarrow> nat \<Rightarrow> string \<Rightarrow> nat list \<times> bool \<times> string" where
  "read_groups i 0 s = ([], False, s)"
| "read_groups i (Suc n) s =
     (case (if 0 < n then read_separator (CHR '':'') i read_ipv4_addr s else None) of
        Some ((a, b, c, d), s') \<Rightarrow> ([a * 256 + b, c * 256 + d], True, s')
      | None \<Rightarrow>
        (case read_separator (CHR '':'') i (read_number 16 4 True 65535) s of
           None \<Rightarrow> ([], False, s)
         | Some (g, s') \<Rightarrow> (case read_groups (Suc i) n s' of (gs, v4, s'') \<Rightarrow> (g # gs, v4, s''))))"

definition read_ipv6_addr :: "string \<Rightarrow> (nat list \<times> string) option" where
  "read_ipv6_addr s =
     (case read_groups 0 8 s of (head, head_ipv4, s1) \<Rightarrow>
        if length head = 8 then Some (head, s1)
        else if head_ipv4 then None
        else (case s1 of
            c1 # c2 # s2 \<Rightarrow>
              if c1 = CHR '':'' \<and> c2 = CHR '':'' then
                (case read_groups 0 (8 - (length head + 1)) s2 of (tail, _, s3) \<Rightarrow>
                   Some (head @ replicate (8 - length head - length tail) 0 @ tail, s3))
              else None
          | _ \<Rightarrow> None))"

definition parse_ip :: "string \<Rightarrow> ip_addr option" where
  "parse_ip s =
     (case read_ipv4_addr s of
        Some ((a, b, c, d), s') \<Rightarrow>
          if s' = [] then Some (V4 (of_nat a) (of_nat b) (of_nat c) (of_nat d)) else None
      | None \<Rightarrow>
        (case read_ipv6_addr s of
           Some (gs, s') \<Rightarrow> if s' = [] then Some (V6 (map of_nat gs)) else None
         | None \<Rightarrow> None))"

section \<open>URLs\<close>

text \<open>What is read of a \<^verbatim>\<open>reqwest::Url\<close>: the scheme (in lower case), the host and the port.\<close>

record parsed_url =
  url_scheme :: string
  url_host_str :: "string option"
  url_port :: "nat option"

type_synonym url_parser = "string \<Rightarrow> string + parsed_url"

definition url_host_of :: "url_parser \<Rightarrow> string \<Rightarrow> string option" where
  "url_host_of url_parse url = (case url_parse url of Inl _ \<Rightarrow> None | Inr p \<Rightarrow> url_host_str p)"

definition is_http_url :: "string \<Rightarrow> bool" where
  "is_http_url value =
     (let lower = lowercase value in is_prefix_of ''http://'' lower \<or> is_prefix_of ''https://'' lower)"

definition bad_v4 :: "u8 \<Rightarrow> u8 \<Rightarrow> u8 \<Rightarrow> u8 \<Rightarrow> bool" where
  "bad_v4 a b c d \<longleftrightarrow>
     v4_is_private (V4 a b c d) \<or> v4_is_loopback (V4 a b c d) \<or> v4_is_link_local (V4 a b c d) \<or>
     v4_is_broadcast (V4 a b c d) \<or> v4_is_unspecified (V4 a b c d)"

definition carrier_grade_nat :: "u8 \<Rightarrow> u8 \<Rightarrow> bool" where
  "carrier_grade_nat a b \<longleftrightarrow> a = 100 \<and> 64 \<le> b \<and> b \<le> 127"

definition bad_v6 :: "u16 list \<Rightarrow> bool" where
  "bad_v6 segments \<longleftrightarrow>
     v6_is_loopback (V6 segments) \<or> v6_is_unspecified (V6 segments) \<or>
     and (segments ! 0) 0xffc0 = 0xfe80 \<or> and (segments ! 0) 0xfe00 = 0xfc00"

definition local_host_name :: "string \<Rightarrow> bool" where
  "local_host_name host \<longleftrightarrow>
     host = ''localhost'' \<or> host = ''127.0.0.1'' \<or> host = ''::1'' \<or> host = ''[::1]'' \<or> host = ''0.0.0.0'' \<or>
     is_prefix_of ''127.'' host \<or> ends_with host ''.localhost''"

definition metadata_host_name :: "string \<Rightarrow> bool" where
  "metadata_host_name host \<longleftrightarrow>
     host = ''169.254.169.254'' \<or> host = ''metadata.google.internal'' \<or> host = ''metadata'' \<or>
     ends_with host ''.internal''"

definition internal_host_name :: "string \<Rightarrow> bool" where
  "internal_host_name host \<longleftrightarrow>
     is_prefix_of ''internal.'' host \<or> is_prefix_of ''private.'' host \<or>
     is_prefix_of ''corp.'' host \<or> is_prefix_of ''intranet.'' host"

definition is_url_safe_for_webhook :: "url_parser \<Rightarrow> string \<Rightarrow> bool" where
  "is_url_safe_for_webhook url_parse url =
     (case url_parse url of
        Inl _ \<Rightarrow> False
      | Inr parsed \<Rightarrow>
        if url_scheme parsed \<noteq> ''http'' \<and> url_scheme parsed \<noteq> ''https'' then False
        else (case url_host_str parsed of
            None \<Rightarrow> False
          | Some h \<Rightarrow>
            let host = lowercase h in
            if local_host_name host then False
            else if metadata_host_name host then False
            else if (case parse_ip host of
                Some (V4 a b c d) \<Rightarrow> bad_v4 a b c d \<or> carrier_grade_nat a b
              | Some (V6 segments) \<Rightarrow> bad_v6 segments
              | None \<Rightarrow> False) then False
            else \<not> internal_host_name host))"

definition is_ip_safe_for_webhook :: "ip_addr \<Rightarrow> bool" where
  "is_ip_safe_for_webhook ip =
     (case ip of
        V4 a b c d \<Rightarrow>
          if bad_v4 a b c d then False
          else if carrier_grade_nat a b then False
          else if (a, b, c, d) = (169, 254, 169, 254) then False
          else True
      | V6 segments \<Rightarrow> \<not> bad_v6 segments)"

text \<open>The resolver answers with the addresses of \<^verbatim>\<open>host:port\<close> or with an error text.\<close>

type_synonym resolver = "string \<Rightarrow> string + ip_addr list"

fun first_unsafe :: "ip_addr list \<Rightarrow> ip_addr option" where
  "first_unsafe [] = None"
| "first_unsafe (ip # ips) = (if is_ip_safe_for_webhook ip then first_unsafe ips else Some ip)"

definition validate_webhook_dns ::
  "url_parser \<Rightarrow> (ip_addr \<Rightarrow> string) \<Rightarrow> resolver \<Rightarrow> string \<Rightarrow> string + unit" where
  "validate_webhook_dns url_parse show_ip lookup url =
     (case url_parse url of
        Inl e \<Rightarrow> Inl (''invalid URL: '' @ e)
      | Inr parsed \<Rightarrow>
        (case url_host_str parsed of
           None \<Rightarrow> Inl ''URL has no host''
         | Some host \<Rightarrow>
           (case parse_ip host of
              Some ip \<Rightarrow>
                if \<not> is_ip_safe_for_webhook ip then Inl (''IP address '' @ show_ip ip @ '' is not allowed'') else Inr ()
            | None \<Rightarrow>
              (let port = (case url_port parsed of Some p \<Rightarrow> p | None \<Rightarrow> if url_scheme parsed = ''https'' then 443 else 80)
               in case lookup (host @ CHR '':'' # nat_to_string port) of
                    Inl e \<Rightarrow> Inl (''DNS lookup failed for '' @ host @ '': '' @ e)
                  | Inr addrs \<Rightarrow>
                    if addrs = [] then Inl (''DNS lookup for '' @ host @ '' returned no addresses'')
                    else (case first_unsafe addrs of
                        Some ip \<Rightarrow> Inl (''DNS rebinding detected: '' @ host @ '' resolved to internal IP '' @ show_ip ip)
                      | None \<Rightarrow> Inr ())))))"

section \<open>The refused addresses as intervals\<close>

text \<open>An IPv4 address read as a number, and a block of addresses that share a prefix.\<close>

definition v4_number :: "u8 \<Rightarrow> u8 \<Rightarrow> u8 \<Rightarrow> u8 \<Rightarrow> nat" where
  "v4_number a b c d = ((unat a * 256 + unat b) * 256 + unat c) * 256 + unat d"

definition in_block :: "nat \<Rightarrow> nat \<times> nat \<Rightarrow> bool" where
  "in_block n blk = (case blk of (base, len) \<Rightarrow> n div 2 ^ (32 - len) = base div 2 ^ (32 - len))"

definition blocked_blocks :: "(nat \<times> nat) list" where
  "blocked_blocks =
     [(v4_number 0 0 0 0, 32), (v4_number 10 0 0 0, 8), (v4_number 100 64 0 0, 10), (v4_number 127 0 0 0, 8),
      (v4_number 169 254 0 0, 16), (v4_number 172 16 0 0, 12), (v4_number 192 168 0 0, 16),
      (v4_number 255 255 255 255, 32)]"

lemma octet_bound: "unat (x :: u8) < 256"
  using unsigned_less [of x] by simp

lemma base_256: "x < 256 \<Longrightarrow> (k * 256 + x) div 256 = k" "x < 256 \<Longrightarrow> (k * 256 + x) mod 256 = (x :: nat)"
  by simp_all

lemma v4_number_div:
  "v4_number a b c d div 16777216 = unat a"
  "v4_number a b c d div 65536 = unat a * 256 + unat b"
  "v4_number a b c d div 1048576 = unat a * 16 + unat b div 16"
  "v4_number a b c d div 4194304 = unat a * 4 + unat b div 64"
proof -
  have front: "v4_number a b c d div 256 div 256 = unat a * 256 + unat b"
    by (simp only: v4_number_def base_256 octet_bound)
  then show low: "v4_number a b c d div 65536 = unat a * 256 + unat b"
    by (simp only: div_mult2_eq [symmetric]) simp
  have split: "n div (65536 * k) = n div 65536 div k" for n k :: nat by (rule div_mult2_eq)
  show "v4_number a b c d div 16777216 = unat a"
    using split [of "v4_number a b c d" 256] low octet_bound [of b] by simp
  show "v4_number a b c d div 1048576 = unat a * 16 + unat b div 16"
    using split [of "v4_number a b c d" 16] low by simp
  show "v4_number a b c d div 4194304 = unat a * 4 + unat b div 64"
    using split [of "v4_number a b c d" 64] low by simp
qed

lemma v4_number_inj: "v4_number a b c d = v4_number a' b' c' d' \<longleftrightarrow> a = a' \<and> b = b' \<and> c = c' \<and> d = d'"
  unfolding v4_number_def word_unat_eq_iff
  by (metis base_256 octet_bound)

lemma prefix_and_interval:
  fixes s :: u16
  shows "and s 0xffc0 = 0xfe80 \<longleftrightarrow> 0xfe80 \<le> unat s \<and> unat s \<le> 0xfebf"
    and "and s 0xfe00 = 0xfc00 \<longleftrightarrow> 0xfc00 \<le> unat s \<and> unat s \<le> 0xfdff"
proof -
  have m: "(0xffc0 :: u16) = push_bit 6 (mask 10)" "(0xfe00 :: u16) = push_bit 9 (mask 7)"
    by (simp_all add: mask_eq_exp_minus_1 push_bit_eq_mult)
  have b: "and s (push_bit k (mask (16 - k))) = push_bit k (drop_bit k s)" if "k \<le> 16" for k
    using that by (intro bit_word_eqI) (auto simp: bit_simps)
  have v: "unat (push_bit k (drop_bit k s)) = (unat s div 2 ^ k) * 2 ^ k" for k
  proof -
    have s: "unat s < 65536" using unsigned_less [of s] by simp
    with div_times_less_eq_dividend [of "unat s" "2 ^ k"] have "unat s div 2 ^ k * 2 ^ k < 65536" by linarith
    with s show ?thesis
      by (simp only: unsigned_push_bit_eq unsigned_drop_bit_eq) (simp add: take_bit_eq_mod push_bit_eq_mult drop_bit_eq_div)
  qed
  show "and s 0xffc0 = 0xfe80 \<longleftrightarrow> 0xfe80 \<le> unat s \<and> unat s \<le> 0xfebf"
    using b[of 6] v[of 6] by (simp add: m(1) word_unat_eq_iff) arith
  show "and s 0xfe00 = 0xfc00 \<longleftrightarrow> 0xfc00 \<le> unat s \<and> unat s \<le> 0xfdff"
    using b[of 9] v[of 9] by (simp add: m(2) word_unat_eq_iff) arith
qed

lemma in_block_simps:
  "in_block n (v4_number a b c d, 32) \<longleftrightarrow> n = v4_number a b c d"
  "in_block n (v4_number a b c d, 8) \<longleftrightarrow> n div 16777216 = unat a"
  "in_block n (v4_number a b c d, 16) \<longleftrightarrow> n div 65536 = unat a * 256 + unat b"
  "in_block n (v4_number a b c d, 12) \<longleftrightarrow> n div 1048576 = unat a * 16 + unat b div 16"
  "in_block n (v4_number a b c d, 10) \<longleftrightarrow> n div 4194304 = unat a * 4 + unat b div 64"
  by (simp_all add: in_block_def v4_number_div)

lemma octet_prefix:
  fixes x y :: nat
  assumes "y < 256"
  shows "x * 16 + y div 16 = 2753 \<longleftrightarrow> x = 172 \<and> 16 \<le> y \<and> y \<le> 31"
    and "x * 4 + y div 64 = 401 \<longleftrightarrow> x = 100 \<and> 64 \<le> y \<and> y \<le> 127"
proof -
  have "x * 16 + p = 2753 \<longleftrightarrow> x = 172 \<and> p = 1" if "p < 16" for p using that by presburger
  moreover have "x * 4 + p = 401 \<longleftrightarrow> x = 100 \<and> p = 1" if "p < 4" for p using that by presburger
  moreover have "y div 16 < 16" "y div 64 < 4" using assms by simp_all
  moreover have "y div 16 = 1 \<longleftrightarrow> 16 \<le> y \<and> y \<le> 31" "y div 64 = 1 \<longleftrightarrow> 64 \<le> y \<and> y \<le> 127" by auto
  ultimately show "x * 16 + y div 16 = 2753 \<longleftrightarrow> x = 172 \<and> 16 \<le> y \<and> y \<le> 31"
    "x * 4 + y div 64 = 401 \<longleftrightarrow> x = 100 \<and> 64 \<le> y \<and> y \<le> 127" by simp_all
qed

lemma bad_v4_blocks:
  "bad_v4 a b c d \<or> carrier_grade_nat a b \<longleftrightarrow> list_ex (in_block (v4_number a b c d)) blocked_blocks"
proof -
  have two: "unat a * 256 + unat b = k * 256 + m \<longleftrightarrow> unat a = k \<and> unat b = m" if "m < 256" for k m
    by (metis base_256 octet_bound that)
  have high: "unat a * 16 + unat b div 16 = 2753 \<longleftrightarrow> unat a = 172 \<and> 16 \<le> unat b \<and> unat b \<le> 31"
    "unat a * 4 + unat b div 64 = 401 \<longleftrightarrow> unat a = 100 \<and> 64 \<le> unat b \<and> unat b \<le> 127"
    using octet_prefix [OF octet_bound [of b]] by blast+
  have eqs: "a = n \<longleftrightarrow> unat a = unat n" "b = n \<longleftrightarrow> unat b = unat n" for n by (simp_all add: word_unat_eq_iff)
  have blocks: "list_ex (in_block (v4_number a b c d)) blocked_blocks \<longleftrightarrow>
      (a, b, c, d) = (0, 0, 0, 0) \<or> unat a = 10 \<or> unat a = 100 \<and> 64 \<le> unat b \<and> unat b \<le> 127 \<or> unat a = 127 \<or>
      unat a = 169 \<and> unat b = 254 \<or> unat a = 172 \<and> 16 \<le> unat b \<and> unat b \<le> 31 \<or> unat a = 192 \<and> unat b = 168 \<or>
      (a, b, c, d) = (255, 255, 255, 255)"
    using two [of 254 169] two [of 168 192] high
    by (simp add: blocked_blocks_def in_block_simps v4_number_div v4_number_inj)
  show ?thesis
    unfolding blocks
    by (auto simp: bad_v4_def carrier_grade_nat_def v4_is_broadcast_def v4_is_unspecified_def eqs word_le_nat_alt)
qed

section \<open>Properties\<close>

text \<open>The addresses a delivery refuses are exactly eight blocks of IPv4 addresses (this host, the
  private, carrier-grade, loopback and link-local networks, broadcast) and, of IPv6, the loopback and unspecified
  addresses, fe80::/10 and fc00::/7. An IPv4 address written as an IPv4-mapped IPv6 address is in none
  of them, so the mapped form of every refused address is accepted.\<close>

theorem refused_addresses_exact:
  "(is_ip_safe_for_webhook (V4 a b c d) \<longleftrightarrow> \<not> list_ex (in_block (v4_number a b c d)) blocked_blocks) \<and>
   (is_ip_safe_for_webhook (V6 (s # ss)) \<longleftrightarrow>
      s # ss \<noteq> [0, 0, 0, 0, 0, 0, 0, 1] \<and> s # ss \<noteq> [0, 0, 0, 0, 0, 0, 0, 0] \<and>
      unat s \<notin> {0xfe80..0xfebf} \<and> unat s \<notin> {0xfc00..0xfdff}) \<and>
   is_ip_safe_for_webhook (V6 [0, 0, 0, 0, 0, 0xffff, x, y])"
proof -
  have "(a, b, c, d) = (169, 254, 169, 254) \<Longrightarrow> bad_v4 a b c d" by (simp add: bad_v4_def)
  then have "is_ip_safe_for_webhook (V4 a b c d) \<longleftrightarrow> \<not> list_ex (in_block (v4_number a b c d)) blocked_blocks"
    unfolding bad_v4_blocks [symmetric] is_ip_safe_for_webhook_def by auto
  moreover have "is_ip_safe_for_webhook (V6 (s # ss)) \<longleftrightarrow>
      s # ss \<noteq> [0, 0, 0, 0, 0, 0, 0, 1] \<and> s # ss \<noteq> [0, 0, 0, 0, 0, 0, 0, 0] \<and>
      unat s \<notin> {0xfe80..0xfebf} \<and> unat s \<notin> {0xfc00..0xfdff}"
    by (simp add: is_ip_safe_for_webhook_def bad_v6_def v6_is_loopback_def v6_is_unspecified_def prefix_and_interval)
  moreover have "is_ip_safe_for_webhook (V6 [0, 0, 0, 0, 0, 0xffff, x, y])"
    by (simp add: is_ip_safe_for_webhook_def bad_v6_def v6_is_loopback_def v6_is_unspecified_def prefix_and_interval)
  ultimately show ?thesis by blast
qed

end
