(* ===== verification/Webhooks.thy ===== *)
theory Webhooks
  imports Webhook_Targets
begin

text \<open>
  Webhook subscriptions, their events and their audit trail: the records of
  \<^verbatim>\<open>mnemo-server/src/state.rs\<close> and, of \<^verbatim>\<open>mnemo-server/src/routes.rs\<close>, the snapshot that is
  saved and restored, the audit logs, and the handlers that register, read, change and delete a
  subscription or list its events. Delivery is in \<open>Webhook_Delivery\<close>. The maps behind locks are entry
  lists in key order; the saved documents are kept as values, without their JSON text.
\<close>

section \<open>Records\<close>

datatype webhook_event_type =
    WeFactAdded | WeFactSuperseded | WeHeadAdvanced | WeConflictDetected | WeRevalidationNeeded
  | WeClarificationGenerated | WeClarificationResolved | WeNarrativeRefreshed | WePromotionProposed
  | WePromotionApproved | WePromotionRejected | WePromotionExpired | WePromotionConflictDetected

fun webhook_event_type_str :: "webhook_event_type \<Rightarrow> string" where
  "webhook_event_type_str WeFactAdded = ''fact_added''"
| "webhook_event_type_str WeFactSuperseded = ''fact_superseded''"
| "webhook_event_type_str WeHeadAdvanced = ''head_advanced''"
| "webhook_event_type_str WeConflictDetected = ''conflict_detected''"
| "webhook_event_type_str WeRevalidationNeeded = ''revalidation_needed''"
| "webhook_event_type_str WeClarificationGenerated = ''clarification_generated''"
| "webhook_event_type_str WeClarificationResolved = ''clarification_resolved''"
| "webhook_event_type_str WeNarrativeRefreshed = ''narrative_refreshed''"
| "webhook_event_type_str WePromotionProposed = ''promotion_proposed''"
| "webhook_event_type_str WePromotionApproved = ''promotion_approved''"
| "webhook_event_type_str WePromotionRejected = ''promotion_rejected''"
| "webhook_event_type_str WePromotionExpired = ''promotion_expired''"
| "webhook_event_type_str WePromotionConflictDetected = ''promotion_conflict_detected''"

definition default_webhook_events :: "webhook_event_type list" where
  "default_webhook_events = [WeFactAdded, WeFactSuperseded, WeHeadAdvanced, WeConflictDetected]"

record webhook =
  wh_id :: uuid
  wh_user_id :: uuid
  wh_user_identifier :: string
  wh_target_url :: string
  wh_signing_secret :: "string option"
  wh_events :: "webhook_event_type list"
  wh_enabled :: bool
  wh_created_at :: timestamp
  wh_updated_at :: timestamp

record webhook_event =
  we_id :: uuid
  we_webhook_id :: uuid
  we_type :: webhook_event_type
  we_user_id :: uuid
  we_payload :: json
  we_created_at :: timestamp
  we_attempts :: u32
  we_delivered :: bool
  we_dead_letter :: bool
  we_request_id :: "string option"
  we_delivered_at :: "timestamp option"
  we_last_error :: "string option"

record webhook_audit =
  wa_id :: uuid
  wa_webhook_id :: uuid
  wa_action :: string
  wa_request_id :: "string option"
  wa_details :: json
  wa_at :: timestamp

record governance_audit =
  ga_id :: uuid
  ga_user_id :: uuid
  ga_action :: string
  ga_request_id :: "string option"
  ga_details :: json
  ga_at :: timestamp

record webhook_delivery_config =
  wc_enabled :: bool
  wc_max_attempts :: u32
  wc_base_backoff_ms :: u64
  wc_request_timeout_ms :: u64
  wc_max_events_per_webhook :: nat
  wc_rate_limit_per_minute :: u32
  wc_circuit_breaker_threshold :: u32
  wc_circuit_breaker_cooldown_ms :: u64
  wc_persistence_enabled :: bool
  wc_allow_localhost :: bool

record webhook_runtime =
  wr_window_started_at :: timestamp
  wr_sent_in_window :: u32
  wr_consecutive_failures :: u32
  wr_circuit_open_until :: "timestamp option"

record webhook_metrics =
  wm_deliveries_success_total :: u64
  wm_deliveries_failure_total :: u64
  wm_dead_letter_total :: u64
  wm_retry_queued_total :: u64
  wm_replay_requests_total :: u64
  wm_policy_violation_total :: u64

text \<open>What is read back after a restart: the five keys of the snapshot in Redis.\<close>

record webhook_snapshot =
  sn_hooks :: "(uuid, webhook) btree_map option"
  sn_events :: "(uuid, webhook_event list) btree_map option"
  sn_audit :: "(uuid, webhook_audit list) btree_map option"
  sn_policies :: "policies option"
  sn_governance :: "(uuid, governance_audit list) btree_map option"

text \<open>The part of \<^verbatim>\<open>AppState\<close> webhooks use; \<open>ws_redis\<close> is \<open>None\<close> without a connection.\<close>

record webhook_state =
  ws_hooks :: "(uuid, webhook) btree_map"
  ws_events :: "(uuid, webhook_event list) btree_map"
  ws_audit :: "(uuid, webhook_audit list) btree_map"
  ws_runtime :: "(uuid, webhook_runtime) btree_map"
  ws_policies :: policies
  ws_governance :: "(uuid, governance_audit list) btree_map"
  ws_metrics :: webhook_metrics
  ws_redis :: "webhook_snapshot option"

section \<open>Saving and restoring\<close>

text \<open>The signing secret is \<^verbatim>\<open>skip_serializing\<close>; an absent optional field is read as \<open>None\<close>.\<close>

definition saved_webhook :: "webhook \<Rightarrow> webhook" where
  "saved_webhook w = w\<lparr>wh_signing_secret := None\<rparr>"

definition persist_webhook_state :: "webhook_delivery_config \<Rightarrow> webhook_state \<Rightarrow> webhook_state" where
  "persist_webhook_state cfg st =
     (if \<not> wc_persistence_enabled cfg then st
      else case ws_redis st of
        None \<Rightarrow> st
      | Some _ \<Rightarrow> st\<lparr>ws_redis := Some \<lparr>sn_hooks = Some (map (\<lambda>(i, w). (i, saved_webhook w)) (ws_hooks st)),
            sn_events = Some (ws_events st), sn_audit = Some (ws_audit st),
            sn_policies = Some (ws_policies st), sn_governance = Some (ws_governance st)\<rparr>\<rparr>)"

definition restored :: "'a option \<Rightarrow> 'a \<Rightarrow> 'a" where
  "restored saved old = (case saved of Some x \<Rightarrow> x | None \<Rightarrow> old)"

definition restore_webhook_state :: "webhook_delivery_config \<Rightarrow> webhook_state \<Rightarrow> webhook_state" where
  "restore_webhook_state cfg st =
     (if \<not> wc_persistence_enabled cfg then st
      else case ws_redis st of
        None \<Rightarrow> st
      | Some sn \<Rightarrow> st\<lparr>ws_hooks := restored (sn_hooks sn) (ws_hooks st), ws_events := restored (sn_events sn) (ws_events st),
            ws_audit := restored (sn_audit sn) (ws_audit st), ws_policies := restored (sn_policies sn) (ws_policies st),
            ws_governance := restored (sn_governance sn) (ws_governance st)\<rparr>)"

section \<open>Audit logs\<close>

text \<open>\<^verbatim>\<open>rows.drain(0..overflow)\<close>: the oldest rows go first.\<close>

definition keep_last :: "nat \<Rightarrow> 'a list \<Rightarrow> 'a list" where
  "keep_last n rows = (if n < length rows then drop (length rows - n) rows else rows)"

definition push_capped :: "nat \<Rightarrow> uuid \<Rightarrow> 'a \<Rightarrow> (uuid, 'a list) btree_map \<Rightarrow> (uuid, 'a list) btree_map" where
  "push_capped n i row m = bt_insert i (keep_last n (bt_get_or [] m i @ [row])) m"

definition append_webhook_audit ::
  "webhook_delivery_config \<Rightarrow> uuid \<Rightarrow> timestamp \<Rightarrow> uuid \<Rightarrow> string \<Rightarrow> string option \<Rightarrow> json \<Rightarrow> webhook_state \<Rightarrow> webhook_state" where
  "append_webhook_audit cfg u now webhook_id action request_id details st =
     (let row = \<lparr>wa_id = u, wa_webhook_id = webhook_id, wa_action = action, wa_request_id = request_id,
          wa_details = details, wa_at = now\<rparr>
      in persist_webhook_state cfg (st\<lparr>ws_audit := push_capped 1000 webhook_id row (ws_audit st)\<rparr>))"

definition append_governance_audit ::
  "webhook_delivery_config \<Rightarrow> uuid \<Rightarrow> timestamp \<Rightarrow> uuid \<Rightarrow> string \<Rightarrow> string option \<Rightarrow> json \<Rightarrow> webhook_state \<Rightarrow> webhook_state" where
  "append_governance_audit cfg u now user_id action request_id details st =
     (let row = \<lparr>ga_id = u, ga_user_id = user_id, ga_action = action, ga_request_id = request_id,
          ga_details = details, ga_at = now\<rparr>
      in persist_webhook_state cfg (st\<lparr>ws_governance := push_capped 1000 user_id row (ws_governance st)\<rparr>))"

definition webhook_user_policy ::
  "webhook_delivery_config \<Rightarrow> uuid \<Rightarrow> string \<Rightarrow> timestamp \<Rightarrow> webhook_state \<Rightarrow> user_policy_record \<times> webhook_state" where
  "webhook_user_policy cfg user_id ident now st =
     (let created = (map_of (ws_policies st) user_id = None) in
      case get_or_create_user_policy user_id ident now (ws_policies st) of
        (p, ps) \<Rightarrow> (p, if created then persist_webhook_state cfg (st\<lparr>ws_policies := ps\<rparr>) else st\<lparr>ws_policies := ps\<rparr>))"

section \<open>Subscriptions\<close>

record register_webhook_request =
  rw_user :: string
  rw_target_url :: string
  rw_signing_secret :: "string option"
  rw_events :: "webhook_event_type list option"
  rw_enabled :: bool

record update_webhook_request =
  uw_target_url :: "string option"
  uw_signing_secret :: "string option"
  uw_events :: "webhook_event_type list option"
  uw_enabled :: "bool option"

text \<open>The readings of the clock and the fresh identifiers of one request.\<close>

record request_env =
  rq_policy_now :: timestamp
  rq_now :: timestamp
  rq_id :: uuid
  rq_audit_id :: uuid
  rq_audit_now :: timestamp

definition webhook_not_found :: "(uuid \<Rightarrow> string) \<Rightarrow> uuid \<Rightarrow> mnemo_error" where
  "webhook_not_found show_uuid i = NotFound ''MemoryWebhook'' (show_uuid i)"

text \<open>The checks on a new target, in the order both handlers make them.\<close>

definition check_target_url ::
  "url_parser \<Rightarrow> webhook_delivery_config \<Rightarrow> bool \<Rightarrow> string \<Rightarrow> string \<Rightarrow> mnemo_error + unit" where
  "check_target_url url_parse cfg require_tls empty_message url =
     (if url = [] then Inl (Validation empty_message)
      else if \<not> is_http_url url then Inl (Validation ''target_url must start with http:// or https://'')
      else if \<not> wc_allow_localhost cfg \<and> \<not> is_url_safe_for_webhook url_parse url then
        Inl (Validation ''target_url must not point to internal or private network addresses'')
      else if require_tls \<and> \<not> is_prefix_of ''https://'' url then
        Inl (Validation ''require_tls is enabled; target_url must use https://'')
      else Inr ())"

definition json_strings :: "string list \<Rightarrow> json" where
  "json_strings xs = JArray (map JString xs)"

definition event_types_json :: "webhook_event_type list \<Rightarrow> json" where
  "event_types_json es = json_strings (map webhook_event_type_str es)"

definition count_violation :: "webhook_state \<Rightarrow> webhook_state" where
  "count_violation st =
     st\<lparr>ws_metrics := (ws_metrics st)\<lparr>wm_policy_violation_total := wm_policy_violation_total (ws_metrics st) + 1\<rparr>\<rparr>"

definition domain_error :: mnemo_error where
  "domain_error = Validation ''target_url host is not allowed by policy webhook_domain_allowlist''"

definition webhook_details :: "webhook \<Rightarrow> json" where
  "webhook_details w = JObject [(''target_url'', JString (wh_target_url w)),
     (''events'', event_types_json (wh_events w)), (''enabled'', JBool (wh_enabled w))]"

definition trimmed_secret :: "string option \<Rightarrow> string option" where
  "trimmed_secret secret = (case secret of None \<Rightarrow> None | Some s \<Rightarrow> if trim s = [] then None else Some (trim s))"

definition store_webhook ::
  "webhook_delivery_config \<Rightarrow> request_env \<Rightarrow> string \<Rightarrow> string option \<Rightarrow> webhook \<Rightarrow> webhook_state \<Rightarrow> webhook_state" where
  "store_webhook cfg env action request_id w st =
     append_webhook_audit cfg (rq_audit_id env) (rq_audit_now env) (wh_id w) action request_id (webhook_details w)
       (persist_webhook_state cfg (st\<lparr>ws_hooks := bt_insert (wh_id w) w (ws_hooks st)\<rparr>))"

definition register_memory_webhook ::
  "url_parser \<Rightarrow> (string \<Rightarrow> uuid option) \<Rightarrow> webhook_delivery_config \<Rightarrow> bool \<Rightarrow> request_env \<Rightarrow> string option \<Rightarrow>
   register_webhook_request \<Rightarrow> user_store \<Rightarrow> webhook_state \<Rightarrow> ((mnemo_error + webhook) \<times> webhook_state) option" where
  "register_memory_webhook url_parse parse_uuid cfg require_tls env request_id req users st =
     (let ident = trim (rw_user req); url = trim (rw_target_url req) in
      if ident = [] then Some (Inl (Validation ''user is required''), st)
      else case check_target_url url_parse cfg require_tls ''target_url is required'' url of
        Inl e \<Rightarrow> Some (Inl e, st)
      | Inr _ \<Rightarrow>
        (case find_user_by_identifier parse_uuid ident users of
           None \<Rightarrow> None
         | Some (Inl e) \<Rightarrow> Some (Inl e, st)
         | Some (Inr u) \<Rightarrow>
           (case webhook_user_policy cfg (u_id u) ident (rq_policy_now env) st of
              (policy, st1) \<Rightarrow>
                if \<not> is_target_url_allowed (url_host_of url_parse) policy url then
                  Some (Inl domain_error,
                    append_governance_audit cfg (rq_audit_id env) (rq_audit_now env) (u_id u)
                      ''policy_violation_webhook_domain'' request_id
                      (JObject [(''target_url'', JString url), (''allowlist'', json_strings (webhook_domain_allowlist policy))])
                      (count_violation st1))
                else
                  (let w = \<lparr>wh_id = rq_id env, wh_user_id = u_id u, wh_user_identifier = ident, wh_target_url = url,
                       wh_signing_secret = trimmed_secret (rw_signing_secret req),
                       wh_events = (case rw_events req of Some es \<Rightarrow> if es \<noteq> [] then es else default_webhook_events
                                    | None \<Rightarrow> default_webhook_events),
                       wh_enabled = rw_enabled req, wh_created_at = rq_now env, wh_updated_at = rq_now env\<rparr>
                   in Some (Inr w, store_webhook cfg env ''webhook_registered'' request_id w st1)))))"

definition list_memory_webhooks :: "webhook_state \<Rightarrow> webhook list" where
  "list_memory_webhooks st = sort_key (\<lambda>w. - wh_created_at w) (map snd (ws_hooks st))"

definition get_memory_webhook :: "(uuid \<Rightarrow> string) \<Rightarrow> uuid \<Rightarrow> webhook_state \<Rightarrow> mnemo_error + webhook" where
  "get_memory_webhook show_uuid i st =
     (case map_of (ws_hooks st) i of None \<Rightarrow> Inl (webhook_not_found show_uuid i) | Some w \<Rightarrow> Inr w)"

text \<open>The fields other than the target; they are applied after it was checked.\<close>

definition patch_webhook :: "update_webhook_request \<Rightarrow> timestamp \<Rightarrow> webhook \<Rightarrow> webhook" where
  "patch_webhook req now w =
     w\<lparr>wh_signing_secret := (case uw_signing_secret req of Some s \<Rightarrow> trimmed_secret (Some s) | None \<Rightarrow> wh_signing_secret w),
       wh_events := (case uw_events req of Some es \<Rightarrow> if es \<noteq> [] then es else wh_events w | None \<Rightarrow> wh_events w),
       wh_enabled := (case uw_enabled req of Some b \<Rightarrow> b | None \<Rightarrow> wh_enabled w),
       wh_updated_at := now\<rparr>"

definition update_memory_webhook ::
  "url_parser \<Rightarrow> (uuid \<Rightarrow> string) \<Rightarrow> webhook_delivery_config \<Rightarrow> bool \<Rightarrow> request_env \<Rightarrow> string option \<Rightarrow> uuid \<Rightarrow>
   update_webhook_request \<Rightarrow> webhook_state \<Rightarrow> (mnemo_error + webhook) \<times> webhook_state" where
  "update_memory_webhook url_parse show_uuid cfg require_tls env request_id i req st =
     (let finish = (\<lambda>w st. let w' = patch_webhook req (rq_now env) w in
            (Inr w', append_webhook_audit cfg (rq_audit_id env) (rq_audit_now env) i ''webhook_updated'' request_id
               (webhook_details w') (persist_webhook_state cfg (st\<lparr>ws_hooks := bt_insert i w' (ws_hooks st)\<rparr>))))
      in case map_of (ws_hooks st) i of
        None \<Rightarrow> (Inl (webhook_not_found show_uuid i), st)
      | Some w \<Rightarrow>
        (case uw_target_url req of
           None \<Rightarrow> finish w st
         | Some new_url \<Rightarrow>
           let url = trim new_url in
           (case check_target_url url_parse cfg require_tls ''target_url cannot be empty'' url of
              Inl e \<Rightarrow> (Inl e, st)
            | Inr _ \<Rightarrow>
              (case webhook_user_policy cfg (wh_user_id w) (wh_user_identifier w) (rq_policy_now env) st of
                 (policy, st1) \<Rightarrow>
                   if \<not> is_target_url_allowed (url_host_of url_parse) policy url then
                     (Inl domain_error,
                       append_governance_audit cfg (rq_audit_id env) (rq_audit_now env) (wh_user_id w)
                         ''policy_violation_webhook_domain'' request_id
                         (JObject [(''target_url'', JString url), (''allowlist'', json_strings (webhook_domain_allowlist policy)),
                           (''action'', JString ''webhook_update'')])
                         (count_violation st1))
                   else finish (w\<lparr>wh_target_url := url\<rparr>) st1))))"

definition delete_memory_webhook :: "webhook_delivery_config \<Rightarrow> uuid \<Rightarrow> webhook_state \<Rightarrow> bool \<times> webhook_state" where
  "delete_memory_webhook cfg i st =
     (map_of (ws_hooks st) i \<noteq> None,
      persist_webhook_state cfg (st\<lparr>ws_hooks := bt_remove i (ws_hooks st), ws_events := bt_remove i (ws_events st),
        ws_audit := bt_remove i (ws_audit st), ws_runtime := bt_remove i (ws_runtime st)\<rparr>))"

section \<open>Listings\<close>

text \<open>\<^verbatim>\<open>query.limit.unwrap_or(100).clamp(1, 1000)\<close>.\<close>

definition page_limit :: "u32 option \<Rightarrow> nat" where
  "page_limit limit = (case limit of None \<Rightarrow> 100 | Some n \<Rightarrow> max 1 (min 1000 (unat n)))"

definition rows_of :: "uuid \<Rightarrow> (uuid, 'a list) btree_map \<Rightarrow> 'a list" where
  "rows_of i m = bt_get_or [] m i"

definition of_type :: "webhook_event_type option \<Rightarrow> webhook_event list \<Rightarrow> webhook_event list" where
  "of_type t es = (case t of Some x \<Rightarrow> filter (\<lambda>e. we_type e = x) es | None \<Rightarrow> es)"

definition known_webhook :: "(uuid \<Rightarrow> string) \<Rightarrow> uuid \<Rightarrow> webhook_state \<Rightarrow> mnemo_error + unit" where
  "known_webhook show_uuid i st =
     (if map_of (ws_hooks st) i = None then Inl (webhook_not_found show_uuid i) else Inr ())"

definition list_memory_webhook_events ::
  "(uuid \<Rightarrow> string) \<Rightarrow> uuid \<Rightarrow> u32 option \<Rightarrow> webhook_event_type option \<Rightarrow> webhook_state \<Rightarrow> mnemo_error + webhook_event list" where
  "list_memory_webhook_events show_uuid i limit t st =
     (case known_webhook show_uuid i st of
        Inl e \<Rightarrow> Inl e
      | Inr _ \<Rightarrow> Inr (take (page_limit limit) (sort_key (\<lambda>e. - we_created_at e) (of_type t (rows_of i (ws_events st))))))"

definition list_memory_webhook_dead_letters ::
  "(uuid \<Rightarrow> string) \<Rightarrow> uuid \<Rightarrow> u32 option \<Rightarrow> webhook_event_type option \<Rightarrow> webhook_state \<Rightarrow> mnemo_error + webhook_event list" where
  "list_memory_webhook_dead_letters show_uuid i limit t st =
     (case known_webhook show_uuid i st of
        Inl e \<Rightarrow> Inl e
      | Inr _ \<Rightarrow> Inr (take (page_limit limit) (sort_key (\<lambda>e. - we_created_at e)
                 (of_type t (filter we_dead_letter (rows_of i (ws_events st)))))))"

definition list_memory_webhook_audit ::
  "(uuid \<Rightarrow> string) \<Rightarrow> uuid \<Rightarrow> u32 option \<Rightarrow> webhook_state \<Rightarrow> mnemo_error + webhook_audit list" where
  "list_memory_webhook_audit show_uuid i limit st =
     (case known_webhook show_uuid i st of
        Inl e \<Rightarrow> Inl e
      | Inr _ \<Rightarrow> Inr (take (page_limit limit) (sort_key (\<lambda>a. - wa_at a) (rows_of i (ws_audit st)))))"

record replay_query =
  rp_after_event_id :: "uuid option"
  rp_limit :: "u32 option"
  rp_include_delivered :: "bool option"
  rp_include_dead_letter :: "bool option"

definition opt_json :: "('a \<Rightarrow> json) \<Rightarrow> 'a option \<Rightarrow> json" where
  "opt_json f x = (case x of None \<Rightarrow> JNull | Some v \<Rightarrow> f v)"

definition replay_details :: "(uuid \<Rightarrow> string) \<Rightarrow> replay_query \<Rightarrow> json" where
  "replay_details show_uuid q = JObject [
     (''after_event_id'', opt_json (\<lambda>i. JString (show_uuid i)) (rp_after_event_id q)),
     (''limit'', opt_json (\<lambda>n. JNumber (nat_to_string (unat n))) (rp_limit q)),
     (''include_delivered'', opt_json JBool (rp_include_delivered q)),
     (''include_dead_letter'', opt_json JBool (rp_include_dead_letter q))]"

text \<open>The rows after the one with the given identifier; all rows when none has it.\<close>

definition skip_after :: "uuid \<Rightarrow> webhook_event list \<Rightarrow> webhook_event list" where
  "skip_after i es =
     (if list_ex (\<lambda>e. we_id e = i) es then tl (dropWhile (\<lambda>e. we_id e \<noteq> i) es) else es)"

text \<open>Sorting by identifier and then, stably, by time is the order by time and then identifier.\<close>

definition replay_order :: "webhook_event list \<Rightarrow> webhook_event list" where
  "replay_order es = sort_key we_created_at (sort_key we_id es)"

definition replay_page :: "replay_query \<Rightarrow> webhook_event list \<Rightarrow> webhook_event list" where
  "replay_page q rows =
     (let es = replay_order rows;
          es1 = (case rp_after_event_id q of Some i \<Rightarrow> skip_after i es | None \<Rightarrow> es);
          es2 = (if rp_include_delivered q = Some False then filter (\<lambda>e. \<not> we_delivered e) es1 else es1);
          es3 = (if rp_include_dead_letter q = Some False then filter (\<lambda>e. \<not> we_dead_letter e) es2 else es2)
      in take (page_limit (rp_limit q)) es3)"

definition replay_memory_webhook_events ::
  "(uuid \<Rightarrow> string) \<Rightarrow> webhook_delivery_config \<Rightarrow> request_env \<Rightarrow> string option \<Rightarrow> uuid \<Rightarrow> replay_query \<Rightarrow> webhook_state \<Rightarrow>
   (mnemo_error + webhook_event list \<times> uuid option) \<times> webhook_state" where
  "replay_memory_webhook_events show_uuid cfg env request_id i q st =
     (let st1 = st\<lparr>ws_metrics := (ws_metrics st)\<lparr>wm_replay_requests_total := wm_replay_requests_total (ws_metrics st) + 1\<rparr>\<rparr> in
      case known_webhook show_uuid i st1 of
        Inl e \<Rightarrow> (Inl e, st1)
      | Inr _ \<Rightarrow>
        let st2 = append_webhook_audit cfg (rq_audit_id env) (rq_audit_now env) i ''replay_requested'' request_id
              (replay_details show_uuid q) st1;
            page = replay_page q (rows_of i (ws_events st2))
        in (Inr (page, if page = [] then None else Some (we_id (last page))), st2))"

record webhook_stats =
  st_total_events :: nat
  st_delivered_events :: nat
  st_pending_events :: nat
  st_dead_letter_events :: nat
  st_failed_events :: nat
  st_recent_failures :: nat
  st_circuit_open :: bool
  st_circuit_open_until :: "timestamp option"
  st_rate_limit_per_minute :: u32

definition count_where :: "('a \<Rightarrow> bool) \<Rightarrow> 'a list \<Rightarrow> nat" where
  "count_where p xs = length (filter p xs)"

definition build_webhook_stats_response ::
  "(uuid \<Rightarrow> string) \<Rightarrow> webhook_delivery_config \<Rightarrow> timestamp \<Rightarrow> timestamp \<Rightarrow> uuid \<Rightarrow> u64 option \<Rightarrow> webhook_state \<Rightarrow>
   mnemo_error + webhook_stats" where
  "build_webhook_stats_response show_uuid cfg now now' i window_seconds st =
     (case known_webhook show_uuid i st of
        Inl e \<Rightarrow> Inl e
      | Inr _ \<Rightarrow>
        let seconds = (case window_seconds of None \<Rightarrow> 300 | Some s \<Rightarrow> max 1 (min 86400 (uint s)));
            window_start = now - seconds * 1000000000;
            es = rows_of i (ws_events st);
            until = (case map_of (ws_runtime st) i of Some row \<Rightarrow> wr_circuit_open_until row | None \<Rightarrow> None)
        in Inr \<lparr>st_total_events = length es,
             st_delivered_events = count_where we_delivered es,
             st_pending_events = count_where (\<lambda>e. \<not> we_delivered e \<and> \<not> we_dead_letter e) es,
             st_dead_letter_events = count_where we_dead_letter es,
             st_failed_events = count_where (\<lambda>e. \<not> we_delivered e \<and> we_last_error e \<noteq> None) es,
             st_recent_failures =
               count_where (\<lambda>e. \<not> we_delivered e \<and> we_last_error e \<noteq> None) (filter (\<lambda>e. window_start \<le> we_created_at e) es),
             st_circuit_open = (case until of Some x \<Rightarrow> now' < x | None \<Rightarrow> False),
             st_circuit_open_until = until,
             st_rate_limit_per_minute = wc_rate_limit_per_minute cfg\<rparr>)"

section \<open>The invariant of the maps\<close>

definition entries_ok :: "(uuid \<Rightarrow> 'a \<Rightarrow> bool) \<Rightarrow> (uuid, 'a) btree_map \<Rightarrow> bool" where
  "entries_ok P m \<longleftrightarrow> bt_ok m \<and> (\<forall>i x. map_of m i = Some x \<longrightarrow> P i x)"

definition rows_ok :: "nat \<Rightarrow> (uuid, 'a list) btree_map \<Rightarrow> bool" where
  "rows_ok n m \<longleftrightarrow> entries_ok (\<lambda>_ rows. length rows \<le> n) m"

definition target_ok :: "url_parser \<Rightarrow> webhook_delivery_config \<Rightarrow> bool \<Rightarrow> string \<Rightarrow> bool" where
  "target_ok url_parse cfg require_tls url \<longleftrightarrow>
     is_http_url url \<and> (wc_allow_localhost cfg \<or> is_url_safe_for_webhook url_parse url) \<and>
     (require_tls \<longrightarrow> is_prefix_of ''https://'' url)"

definition hooks_ok :: "url_parser \<Rightarrow> webhook_delivery_config \<Rightarrow> bool \<Rightarrow> (uuid, webhook) btree_map \<Rightarrow> bool" where
  "hooks_ok url_parse cfg require_tls m \<longleftrightarrow>
     entries_ok (\<lambda>i w. wh_id w = i \<and> target_ok url_parse cfg require_tls (wh_target_url w)) m"

definition max_events :: "webhook_delivery_config \<Rightarrow> nat" where
  "max_events cfg = max 1 (wc_max_events_per_webhook cfg)"

definition snapshot_ok :: "url_parser \<Rightarrow> webhook_delivery_config \<Rightarrow> bool \<Rightarrow> webhook_snapshot \<Rightarrow> bool" where
  "snapshot_ok url_parse cfg require_tls sn \<longleftrightarrow>
     hooks_ok url_parse cfg require_tls (restored (sn_hooks sn) []) \<and> rows_ok (max_events cfg) (restored (sn_events sn) []) \<and>
     rows_ok 1000 (restored (sn_audit sn) []) \<and> rows_ok 1000 (restored (sn_governance sn) [])"

definition webhooks_ok :: "url_parser \<Rightarrow> webhook_delivery_config \<Rightarrow> bool \<Rightarrow> webhook_state \<Rightarrow> bool" where
  "webhooks_ok url_parse cfg require_tls st \<longleftrightarrow>
     hooks_ok url_parse cfg require_tls (ws_hooks st) \<and> rows_ok (max_events cfg) (ws_events st) \<and>
     rows_ok 1000 (ws_audit st) \<and> rows_ok 1000 (ws_governance st) \<and>
     pred_option (snapshot_ok url_parse cfg require_tls) (ws_redis st)"

lemma entries_ok_Nil [simp]: "entries_ok P []"
  by (simp add: entries_ok_def)

lemma entries_ok_insert: "entries_ok P m \<Longrightarrow> P i x \<Longrightarrow> entries_ok P (bt_insert i x m)"
  by (simp add: entries_ok_def bt_ok_insert map_of_bt_insert)

lemma entries_ok_remove: "entries_ok P m \<Longrightarrow> entries_ok P (bt_remove i m)"
  by (simp add: entries_ok_def bt_ok_remove map_of_bt_remove)

lemma length_keep_last: "length (keep_last n xs) \<le> n"
  by (simp add: keep_last_def)

lemma rows_ok_push: "rows_ok n m \<Longrightarrow> rows_ok n (push_capped n i row m)"
  by (simp add: rows_ok_def push_capped_def entries_ok_insert length_keep_last)

lemma rows_ok_remove: "rows_ok n m \<Longrightarrow> rows_ok n (bt_remove i m)"
  by (simp add: rows_ok_def entries_ok_remove)

lemma hooks_ok_saved:
  assumes "hooks_ok url_parse cfg require_tls m"
  shows "hooks_ok url_parse cfg require_tls (map (\<lambda>(i, w). (i, saved_webhook w)) m)"
proof -
  let ?m = "map (\<lambda>(i, w). (i, saved_webhook w)) m"
  have "map fst ?m = map fst m" by (induction m) auto
  then have "bt_ok ?m = bt_ok m" by (simp only: bt_ok_def)
  moreover have "map_of ?m i = map_option saved_webhook (map_of m i)" for i
    by (simp add: map_of_map)
  ultimately show ?thesis using assms by (auto simp: hooks_ok_def entries_ok_def saved_webhook_def)
qed

lemma webhooks_ok_other [simp]:
  "webhooks_ok url_parse cfg require_tls (st\<lparr>ws_metrics := x\<rparr>) = webhooks_ok url_parse cfg require_tls st"
  "webhooks_ok url_parse cfg require_tls (st\<lparr>ws_runtime := y\<rparr>) = webhooks_ok url_parse cfg require_tls st"
  "webhooks_ok url_parse cfg require_tls (st\<lparr>ws_policies := z\<rparr>) = webhooks_ok url_parse cfg require_tls st"
  by (simp_all add: webhooks_ok_def)

lemma persist_fields [simp]:
  "ws_hooks (persist_webhook_state cfg st) = ws_hooks st" "ws_events (persist_webhook_state cfg st) = ws_events st"
  "ws_audit (persist_webhook_state cfg st) = ws_audit st" "ws_runtime (persist_webhook_state cfg st) = ws_runtime st"
  "ws_policies (persist_webhook_state cfg st) = ws_policies st"
  "ws_governance (persist_webhook_state cfg st) = ws_governance st" "ws_metrics (persist_webhook_state cfg st) = ws_metrics st"
  by (simp_all add: persist_webhook_state_def split: option.split)

lemma webhooks_ok_persist:
  "webhooks_ok url_parse cfg require_tls st \<Longrightarrow> webhooks_ok url_parse cfg require_tls (persist_webhook_state cfg st)"
  by (auto simp: webhooks_ok_def persist_webhook_state_def snapshot_ok_def restored_def hooks_ok_saved split: option.split)

lemma webhooks_ok_audit:
  "webhooks_ok url_parse cfg require_tls st \<Longrightarrow>
   webhooks_ok url_parse cfg require_tls (append_webhook_audit cfg u now i a r d st)"
  unfolding append_webhook_audit_def Let_def
  by (rule webhooks_ok_persist) (simp add: webhooks_ok_def rows_ok_push)

lemma webhooks_ok_governance:
  "webhooks_ok url_parse cfg require_tls st \<Longrightarrow>
   webhooks_ok url_parse cfg require_tls (append_governance_audit cfg u now i a r d st)"
  unfolding append_governance_audit_def Let_def
  by (rule webhooks_ok_persist) (simp add: webhooks_ok_def rows_ok_push)

lemma webhooks_ok_violation:
  "webhooks_ok url_parse cfg require_tls (count_violation st) = webhooks_ok url_parse cfg require_tls st"
  by (simp add: count_violation_def)

lemma webhook_user_policy_ok:
  "webhook_user_policy cfg u i now st = (p, st') \<Longrightarrow> webhooks_ok url_parse cfg require_tls st \<Longrightarrow>
   webhooks_ok url_parse cfg require_tls st' \<and> ws_hooks st' = ws_hooks st"
  by (auto simp: webhook_user_policy_def Let_def webhooks_ok_persist split: prod.splits if_splits)

lemma webhooks_ok_store:
  "webhooks_ok url_parse cfg require_tls st \<Longrightarrow> ws_hooks st = m \<Longrightarrow> wh_id w = i \<Longrightarrow>
   target_ok url_parse cfg require_tls (wh_target_url w) \<Longrightarrow>
   webhooks_ok url_parse cfg require_tls (st\<lparr>ws_hooks := bt_insert i w m\<rparr>)"
  by (auto simp: webhooks_ok_def hooks_ok_def entries_ok_insert)

lemma check_target_url_ok:
  "check_target_url url_parse cfg require_tls m url = Inr () \<Longrightarrow> target_ok url_parse cfg require_tls url"
  by (auto simp: check_target_url_def target_ok_def split: if_splits)

lemmas webhooks_ok_intros =
  webhooks_ok_persist webhooks_ok_audit webhooks_ok_governance webhooks_ok_store

lemma register_ok:
  assumes "register_memory_webhook url_parse parse_uuid cfg require_tls env rid req users st = Some (r, st')"
    and "webhooks_ok url_parse cfg require_tls st"
  shows "webhooks_ok url_parse cfg require_tls st'"
  using assms
  by (auto simp: register_memory_webhook_def Let_def store_webhook_def webhooks_ok_violation
      split: if_splits sum.splits option.splits prod.splits dest!: check_target_url_ok webhook_user_policy_ok
      intro!: webhooks_ok_intros)

lemma webhooks_ok_hook:
  "webhooks_ok url_parse cfg require_tls st \<Longrightarrow> map_of (ws_hooks st) i = Some w \<Longrightarrow>
   wh_id w = i \<and> target_ok url_parse cfg require_tls (wh_target_url w)"
  by (simp add: webhooks_ok_def hooks_ok_def entries_ok_def)

lemma patch_webhook_fields [simp]: "wh_id (patch_webhook req now w) = wh_id w"
  "wh_target_url (patch_webhook req now w) = wh_target_url w"
  by (simp_all add: patch_webhook_def)

lemma update_ok:
  assumes "webhooks_ok url_parse cfg require_tls st"
  shows "webhooks_ok url_parse cfg require_tls (snd (update_memory_webhook url_parse show_uuid cfg require_tls env rid i req st))"
  using assms
  by (auto simp: update_memory_webhook_def Let_def webhooks_ok_violation webhooks_ok_hook
      split: if_splits sum.splits option.splits prod.splits dest: check_target_url_ok dest!: webhook_user_policy_ok
      intro!: webhooks_ok_intros)

lemma delete_ok:
  "webhooks_ok url_parse cfg require_tls st \<Longrightarrow>
   webhooks_ok url_parse cfg require_tls (snd (delete_memory_webhook cfg i st))"
  unfolding delete_memory_webhook_def snd_conv
  by (rule webhooks_ok_persist) (simp add: webhooks_ok_def hooks_ok_def entries_ok_remove rows_ok_remove)

lemma replay_ok:
  "webhooks_ok url_parse cfg require_tls st \<Longrightarrow>
   webhooks_ok url_parse cfg require_tls (snd (replay_memory_webhook_events show_uuid cfg env rid i q st))"
  by (simp add: replay_memory_webhook_events_def Let_def webhooks_ok_audit split: sum.split)

end
