(* ===== verification/Webhook_Delivery.thy ===== *)
theory Webhook_Delivery
  imports Webhooks
begin

text \<open>
  Delivery of webhook events, of \<^verbatim>\<open>mnemo-server/src/routes.rs\<close>: the rate limit and the circuit
  breaker of a webhook, the recording of an event for every subscription it concerns, the attempts of
  one delivery with their back-off, and the request that retries one. A delivery runs as a task of its
  own: between two attempts it sleeps, and \<open>meanwhile\<close> stands for what the other tasks do to the
  state in that time. What an attempt reads from outside (clock, fresh identifiers, the resolver and
  the HTTP exchange) is the record \<open>attempt_env\<close> of that attempt.
\<close>

section \<open>Rate limit and circuit breaker\<close>

definition runtime_new :: "timestamp \<Rightarrow> webhook_runtime" where
  "runtime_new now = \<lparr>wr_window_started_at = now, wr_sent_in_window = 0, wr_consecutive_failures = 0,
     wr_circuit_open_until = None\<rparr>"

definition runtime_row :: "timestamp \<Rightarrow> uuid \<Rightarrow> webhook_state \<Rightarrow> webhook_runtime" where
  "runtime_row now i st = bt_get_or (runtime_new now) (ws_runtime st) i"

definition put_runtime :: "uuid \<Rightarrow> webhook_runtime \<Rightarrow> webhook_state \<Rightarrow> webhook_state" where
  "put_runtime i row st = st\<lparr>ws_runtime := bt_insert i row (ws_runtime st)\<rparr>"

definition close_circuit :: "webhook_runtime \<Rightarrow> webhook_runtime" where
  "close_circuit row = row\<lparr>wr_circuit_open_until := None\<rparr>"

definition roll_window :: "timestamp \<Rightarrow> webhook_runtime \<Rightarrow> webhook_runtime" where
  "roll_window now row =
     (if num_seconds (now - wr_window_started_at row) \<ge> 60
      then row\<lparr>wr_window_started_at := now, wr_sent_in_window := 0\<rparr> else row)"

definition check_webhook_rate_and_circuit ::
  "(timestamp \<Rightarrow> string) \<Rightarrow> webhook_delivery_config \<Rightarrow> timestamp \<Rightarrow> uuid \<Rightarrow> webhook_state \<Rightarrow>
   (string + unit) \<times> webhook_state" where
  "check_webhook_rate_and_circuit show_time cfg now i st =
     (let row = runtime_row now i st;
          row1 = roll_window now (close_circuit row);
          checked =
            (if wr_sent_in_window row1 \<ge> max 1 (wc_rate_limit_per_minute cfg)
             then (Inl ''rate limit exceeded for current minute window'', put_runtime i row1 st)
             else (Inr (), put_runtime i (row1\<lparr>wr_sent_in_window := wr_sent_in_window row1 + 1\<rparr>) st))
      in case wr_circuit_open_until row of
           Some open_until \<Rightarrow>
             if now < open_until then (Inl (''circuit open until '' @ show_time open_until), put_runtime i row st)
             else checked
         | None \<Rightarrow> checked)"

definition record_webhook_delivery_success :: "uuid \<Rightarrow> webhook_state \<Rightarrow> webhook_state" where
  "record_webhook_delivery_success i st =
     (case map_of (ws_runtime st) i of
        Some row \<Rightarrow> put_runtime i (row\<lparr>wr_consecutive_failures := 0, wr_circuit_open_until := None\<rparr>) st
      | None \<Rightarrow> st)"

definition sat_inc :: "u32 \<Rightarrow> u32" where
  "sat_inc n = (if n = - 1 then n else n + 1)"

text \<open>The cooldown is cast to \<^verbatim>\<open>i64\<close>.\<close>

definition fail_row :: "webhook_delivery_config \<Rightarrow> timestamp \<Rightarrow> webhook_runtime \<Rightarrow> webhook_runtime" where
  "fail_row cfg now row =
     (let n = sat_inc (wr_consecutive_failures row) in
      if n \<ge> max 1 (wc_circuit_breaker_threshold cfg)
      then row\<lparr>wr_consecutive_failures := 0,
             wr_circuit_open_until := Some (now + sint (wc_circuit_breaker_cooldown_ms cfg) * 1000000)\<rparr>
      else row\<lparr>wr_consecutive_failures := n\<rparr>)"

definition record_webhook_delivery_failure ::
  "webhook_delivery_config \<Rightarrow> timestamp \<Rightarrow> uuid \<Rightarrow> webhook_state \<Rightarrow> webhook_state" where
  "record_webhook_delivery_failure cfg now i st = put_runtime i (fail_row cfg now (runtime_row now i st)) st"

section \<open>Recording an event\<close>

definition subscribed_hooks :: "uuid \<Rightarrow> webhook_event_type \<Rightarrow> webhook_state \<Rightarrow> webhook list" where
  "subscribed_hooks user_id t st =
     filter (\<lambda>w. wh_enabled w \<and> wh_user_id w = user_id \<and> List.member (wh_events w) t) (map snd (ws_hooks st))"

definition new_webhook_event ::
  "uuid \<Rightarrow> uuid \<Rightarrow> webhook_event_type \<Rightarrow> uuid \<Rightarrow> json \<Rightarrow> timestamp \<Rightarrow> string option \<Rightarrow> webhook_event" where
  "new_webhook_event u webhook_id t user_id payload now request_id =
     \<lparr>we_id = u, we_webhook_id = webhook_id, we_type = t, we_user_id = user_id, we_payload = payload,
      we_created_at = now, we_attempts = 0, we_delivered = False, we_dead_letter = False,
      we_request_id = request_id, we_delivered_at = None, we_last_error = None\<rparr>"

text \<open>One row per subscription; \<open>u k\<close> is the identifier drawn for the \<open>k\<close>-th.\<close>

fun record_events ::
  "webhook_delivery_config \<Rightarrow> (nat \<Rightarrow> uuid) \<Rightarrow> nat \<Rightarrow> uuid \<Rightarrow> webhook_event_type \<Rightarrow> json \<Rightarrow> timestamp \<Rightarrow> string option \<Rightarrow>
   webhook list \<Rightarrow> (uuid, webhook_event list) btree_map \<Rightarrow> (uuid, webhook_event list) btree_map \<times> (uuid \<times> uuid) list" where
  "record_events cfg u k user_id t payload now request_id [] m = (m, [])"
| "record_events cfg u k user_id t payload now request_id (w # ws) m =
     (case record_events cfg u (Suc k) user_id t payload now request_id ws
         (push_capped (max 1 (wc_max_events_per_webhook cfg)) (wh_id w)
            (new_webhook_event (u k) (wh_id w) t user_id payload now request_id) m) of
        (m', queued) \<Rightarrow> (m', (wh_id w, u k) # queued))"

text \<open>The result lists the deliveries that are spawned, as pairs of webhook and event.\<close>

definition emit_memory_webhook_event ::
  "webhook_delivery_config \<Rightarrow> (nat \<Rightarrow> uuid) \<Rightarrow> timestamp \<Rightarrow> uuid \<Rightarrow> webhook_event_type \<Rightarrow> string option \<Rightarrow> json \<Rightarrow>
   webhook_state \<Rightarrow> (uuid \<times> uuid) list \<times> webhook_state" where
  "emit_memory_webhook_event cfg u now user_id t request_id payload st =
     (let hooks = subscribed_hooks user_id t st in
      if hooks = [] then ([], st)
      else case record_events cfg u 0 user_id t payload now request_id hooks (ws_events st) of
        (m, queued) \<Rightarrow> (if wc_enabled cfg then queued else [], persist_webhook_state cfg (st\<lparr>ws_events := m\<rparr>)))"

section \<open>One attempt\<close>

record http_request =
  hq_url :: string
  hq_headers :: "(string \<times> string) list"
  hq_timeout_ms :: u64
  hq_body :: string

text \<open>Renderings and libraries a delivery uses.\<close>

record delivery_services =
  ds_url_parse :: url_parser
  ds_show_ip :: "ip_addr \<Rightarrow> string"
  ds_show_uuid :: "uuid \<Rightarrow> string"
  ds_display_time :: "timestamp \<Rightarrow> string"
  ds_rfc3339 :: "timestamp \<Rightarrow> string"
  ds_show_status :: "nat \<Rightarrow> string"
  ds_to_text :: "json \<Rightarrow> string + string"
  ds_hmac :: "string \<Rightarrow> string \<Rightarrow> string"

record attempt_env =
  at_check_now :: timestamp
  at_status_now :: timestamp
  at_fail_now :: timestamp
  at_sign_now :: timestamp
  at_delivery_id :: uuid
  at_audit_id :: uuid
  at_audit_now :: timestamp
  at_resolve :: resolver
  at_send :: "http_request \<Rightarrow> string + nat"

datatype delivery_effect = Sent http_request | Slept u64

fun update_first :: "('a \<Rightarrow> bool) \<Rightarrow> ('a \<Rightarrow> 'a) \<Rightarrow> 'a list \<Rightarrow> 'a list" where
  "update_first p f [] = []"
| "update_first p f (x # xs) = (if p x then f x # xs else x # update_first p f xs)"

definition with_status :: "u32 \<Rightarrow> bool \<Rightarrow> bool \<Rightarrow> string option \<Rightarrow> timestamp \<Rightarrow> webhook_event \<Rightarrow> webhook_event" where
  "with_status attempts delivered dead_letter error now e =
     (if delivered
      then e\<lparr>we_attempts := attempts, we_delivered := True, we_dead_letter := False, we_delivered_at := Some now, we_last_error := None\<rparr>
      else e\<lparr>we_attempts := attempts, we_dead_letter := dead_letter, we_last_error := error\<rparr>)"

definition change_event :: "uuid \<Rightarrow> uuid \<Rightarrow> (webhook_event \<Rightarrow> webhook_event) \<Rightarrow> webhook_state \<Rightarrow> webhook_state" where
  "change_event webhook_id event_id f st =
     (case map_of (ws_events st) webhook_id of
        None \<Rightarrow> st
      | Some rows \<Rightarrow> st\<lparr>ws_events := bt_insert webhook_id (update_first (\<lambda>e. we_id e = event_id) f rows) (ws_events st)\<rparr>)"

definition update_webhook_delivery_status ::
  "uuid \<Rightarrow> uuid \<Rightarrow> u32 \<Rightarrow> bool \<Rightarrow> bool \<Rightarrow> string option \<Rightarrow> timestamp \<Rightarrow> webhook_state \<Rightarrow> webhook_state" where
  "update_webhook_delivery_status webhook_id event_id attempts delivered dead_letter error now =
     change_event webhook_id event_id (with_status attempts delivered dead_letter error now)"

definition count_success :: "webhook_state \<Rightarrow> webhook_state" where
  "count_success st =
     st\<lparr>ws_metrics := (ws_metrics st)\<lparr>wm_deliveries_success_total := wm_deliveries_success_total (ws_metrics st) + 1\<rparr>\<rparr>"

definition count_failure :: "webhook_state \<Rightarrow> webhook_state" where
  "count_failure st =
     st\<lparr>ws_metrics := (ws_metrics st)\<lparr>wm_deliveries_failure_total := wm_deliveries_failure_total (ws_metrics st) + 1\<rparr>\<rparr>"

definition count_dead_letter :: "webhook_state \<Rightarrow> webhook_state" where
  "count_dead_letter st =
     st\<lparr>ws_metrics := (ws_metrics st)\<lparr>wm_dead_letter_total := wm_dead_letter_total (ws_metrics st) + 1\<rparr>\<rparr>"

definition build_webhook_signature :: "delivery_services \<Rightarrow> string \<Rightarrow> string \<Rightarrow> string \<Rightarrow> string" where
  "build_webhook_signature sv secret ts body =
     ''t='' @ ts @ '',v1='' @ ds_hmac sv secret (ts @ CHR ''.'' # body)"

definition backoff_ms :: "webhook_delivery_config \<Rightarrow> u32 \<Rightarrow> u64" where
  "backoff_ms cfg attempt =
     (let shift = min (attempt - 1) 10; factor = push_bit (unat shift) (1 :: u64);
          product = uint (wc_base_backoff_ms cfg) * uint factor
      in max 1 (if product < 2 ^ 64 then of_int product else - 1))"

definition delivery_request ::
  "delivery_services \<Rightarrow> webhook_delivery_config \<Rightarrow> webhook \<Rightarrow> webhook_event \<Rightarrow> string \<Rightarrow> attempt_env \<Rightarrow> http_request" where
  "delivery_request sv cfg w e body env =
     (let ts = int_to_string (at_sign_now env div 1000000000) in
      \<lparr>hq_url = wh_target_url w,
       hq_headers =
         [(''content-type'', ''application/json''),
          (''x-mnemo-event-id'', ds_show_uuid sv (we_id e)),
          (''x-mnemo-delivery-id'', ds_show_uuid sv (at_delivery_id env)),
          (''x-mnemo-event-type'', webhook_event_type_str (we_type e)),
          (''x-mnemo-timestamp'', ts)] @
         (case we_request_id e of Some r \<Rightarrow> [(''x-mnemo-request-id'', r)] | None \<Rightarrow> []) @
         (case wh_signing_secret w of Some s \<Rightarrow> [(''x-mnemo-signature'', build_webhook_signature sv s ts body)] | None \<Rightarrow> []),
       hq_timeout_ms = max 1 (wc_request_timeout_ms cfg),
       hq_body = body\<rparr>)"

definition dead_letter_details :: "delivery_services \<Rightarrow> webhook_event \<Rightarrow> string \<Rightarrow> json" where
  "dead_letter_details sv e reason =
     JObject [(''event_id'', JString (ds_show_uuid sv (we_id e))), (''reason'', JString reason)]"

text \<open>
  An attempt that was refused or answered badly: the last one makes the event a dead letter and
  ends the delivery (the flag), any other is followed by a pause.
\<close>

definition failed_attempt ::
  "delivery_services \<Rightarrow> webhook_delivery_config \<Rightarrow> uuid \<Rightarrow> webhook_event \<Rightarrow> u32 \<Rightarrow> u32 \<Rightarrow> attempt_env \<Rightarrow> string \<Rightarrow> string \<Rightarrow>
   webhook_state \<Rightarrow> webhook_state \<times> delivery_effect list \<times> bool" where
  "failed_attempt sv cfg i e attempt max_attempts env err reason st =
     (let dead = (attempt \<ge> max_attempts);
          st1 = update_webhook_delivery_status i (we_id e) attempt False dead (Some err) (at_status_now env) st;
          st2 = record_webhook_delivery_failure cfg (at_fail_now env) i (count_failure st1)
      in if dead
         then (persist_webhook_state cfg (count_dead_letter
                 (append_webhook_audit cfg (at_audit_id env) (at_audit_now env) i ''delivery_dead_letter'' (we_request_id e)
                    (dead_letter_details sv e reason) st2)), [], True)
         else (st2, [Slept (backoff_ms cfg attempt)], False))"

definition blocked_by_dns ::
  "delivery_services \<Rightarrow> webhook_delivery_config \<Rightarrow> webhook \<Rightarrow> uuid \<Rightarrow> webhook_event \<Rightarrow> u32 \<Rightarrow> u32 \<Rightarrow> attempt_env \<Rightarrow> string \<Rightarrow>
   webhook_state \<Rightarrow> webhook_state" where
  "blocked_by_dns sv cfg w i e attempt max_attempts env err st =
     (let dead = (attempt \<ge> max_attempts);
          st1 = update_webhook_delivery_status i (we_id e) attempt False dead (Some err) (at_status_now env) st;
          st2 = record_webhook_delivery_failure cfg (at_fail_now env) i (count_failure st1);
          st3 = (if dead
            then count_dead_letter (append_webhook_audit cfg (at_audit_id env) (at_audit_now env) i
                   ''delivery_dns_rebinding_blocked'' (we_request_id e)
                   (JObject [(''event_id'', JString (ds_show_uuid sv (we_id e))),
                     (''target_url'', JString (wh_target_url w)), (''reason'', JString err)]) st2)
            else st2)
      in persist_webhook_state cfg st3)"

definition delivered_attempt ::
  "webhook_delivery_config \<Rightarrow> uuid \<Rightarrow> webhook_event \<Rightarrow> u32 \<Rightarrow> attempt_env \<Rightarrow> webhook_state \<Rightarrow> webhook_state" where
  "delivered_attempt cfg i e attempt env st =
     persist_webhook_state cfg (record_webhook_delivery_success i (count_success
       (update_webhook_delivery_status i (we_id e) attempt True False None (at_status_now env) st)))"

definition dns_check :: "delivery_services \<Rightarrow> webhook_delivery_config \<Rightarrow> webhook \<Rightarrow> attempt_env \<Rightarrow> string + unit" where
  "dns_check sv cfg w env =
     (if wc_allow_localhost cfg then Inr ()
      else validate_webhook_dns (ds_url_parse sv) (ds_show_ip sv) (at_resolve env) (wh_target_url w))"

definition deliver_attempt ::
  "delivery_services \<Rightarrow> webhook_delivery_config \<Rightarrow> webhook \<Rightarrow> uuid \<Rightarrow> webhook_event \<Rightarrow> string \<Rightarrow> u32 \<Rightarrow> u32 \<Rightarrow> attempt_env \<Rightarrow>
   webhook_state \<Rightarrow> webhook_state \<times> delivery_effect list \<times> bool" where
  "deliver_attempt sv cfg w i e body attempt max_attempts env st =
     (case check_webhook_rate_and_circuit (ds_display_time sv) cfg (at_check_now env) i st of
        (Inl err, st1) \<Rightarrow> failed_attempt sv cfg i e attempt max_attempts env err ''circuit_or_rate_limited'' st1
      | (Inr _, st1) \<Rightarrow>
        (case dns_check sv cfg w env of
           Inl err \<Rightarrow> (blocked_by_dns sv cfg w i e attempt max_attempts env err st1, [], True)
         | Inr _ \<Rightarrow>
           (let request = delivery_request sv cfg w e body env in
            case at_send env request of
              Inr status \<Rightarrow>
                if 200 \<le> status \<and> status < 300
                then (delivered_attempt cfg i e attempt env st1, [Sent request], True)
                else (case failed_attempt sv cfg i e attempt max_attempts env (''http status '' @ ds_show_status sv status)
                         (''http status '' @ ds_show_status sv status) st1 of
                        (st2, effects, stop) \<Rightarrow> (st2, Sent request # effects, stop))
            | Inl err \<Rightarrow>
                (case failed_attempt sv cfg i e attempt max_attempts env err err st1 of
                   (st2, effects, stop) \<Rightarrow> (st2, Sent request # effects, stop)))))"

section \<open>A delivery\<close>

fun deliver_loop ::
  "delivery_services \<Rightarrow> webhook_delivery_config \<Rightarrow> (u32 \<Rightarrow> attempt_env) \<Rightarrow> (u32 \<Rightarrow> webhook_state \<Rightarrow> webhook_state) \<Rightarrow>
   webhook \<Rightarrow> uuid \<Rightarrow> webhook_event \<Rightarrow> string \<Rightarrow> u32 \<Rightarrow> u32 list \<Rightarrow> webhook_state \<Rightarrow> webhook_state \<times> delivery_effect list" where
  "deliver_loop sv cfg env meanwhile w i e body max_attempts [] st = (persist_webhook_state cfg st, [])"
| "deliver_loop sv cfg env meanwhile w i e body max_attempts (attempt # rest) st =
     (case deliver_attempt sv cfg w i e body attempt max_attempts (env attempt) st of
        (st', effects, stop) \<Rightarrow>
          if stop then (st', effects)
          else (case deliver_loop sv cfg env meanwhile w i e body max_attempts rest (meanwhile attempt st') of
                  (st'', later) \<Rightarrow> (st'', effects @ later)))"

text \<open>\<^verbatim>\<open>1..=max_attempts\<close>.\<close>

definition attempts_upto :: "u32 \<Rightarrow> u32 list" where
  "attempts_upto max_attempts = map of_nat [1..<Suc (unat max_attempts)]"

definition find_event :: "uuid \<Rightarrow> uuid \<Rightarrow> webhook_state \<Rightarrow> webhook_event option" where
  "find_event webhook_id event_id st = find (\<lambda>e. we_id e = event_id) (rows_of webhook_id (ws_events st))"

definition event_body :: "delivery_services \<Rightarrow> webhook_event \<Rightarrow> json" where
  "event_body sv e = JObject [
     (''event_id'', JString (ds_show_uuid sv (we_id e))),
     (''event_type'', JString (webhook_event_type_str (we_type e))),
     (''user_id'', JString (ds_show_uuid sv (we_user_id e))),
     (''request_id'', opt_json JString (we_request_id e)),
     (''payload'', we_payload e),
     (''created_at'', JString (ds_rfc3339 sv (we_created_at e)))]"

text \<open>The task that fails to render its body uses the readings \<open>env 0\<close>.\<close>

definition deliver_memory_webhook_event ::
  "delivery_services \<Rightarrow> webhook_delivery_config \<Rightarrow> (u32 \<Rightarrow> attempt_env) \<Rightarrow> (u32 \<Rightarrow> webhook_state \<Rightarrow> webhook_state) \<Rightarrow>
   uuid \<Rightarrow> uuid \<Rightarrow> webhook_state \<Rightarrow> webhook_state \<times> delivery_effect list" where
  "deliver_memory_webhook_event sv cfg env meanwhile webhook_id event_id st =
     (case map_of (ws_hooks st) webhook_id of
        None \<Rightarrow> (st, [])
      | Some w \<Rightarrow>
        (case find_event webhook_id event_id st of
           None \<Rightarrow> (st, [])
         | Some e \<Rightarrow>
           if we_delivered e then (st, [])
           else (case ds_to_text sv (event_body sv e) of
               Inl err \<Rightarrow>
                 (let reason = ''serialize failure: '' @ err;
                      st1 = update_webhook_delivery_status webhook_id event_id 1 False True (Some reason) (at_status_now (env 0)) st;
                      st2 = append_webhook_audit cfg (at_audit_id (env 0)) (at_audit_now (env 0)) webhook_id ''delivery_dead_letter''
                        (we_request_id e) (dead_letter_details sv e reason) st1
                  in (persist_webhook_state cfg (record_webhook_delivery_failure cfg (at_fail_now (env 0)) webhook_id
                        (count_dead_letter (count_failure st2))), []))
             | Inr body \<Rightarrow>
                 (let max_attempts = max 1 (wc_max_attempts cfg) in
                  deliver_loop sv cfg env meanwhile w webhook_id e body max_attempts (attempts_upto max_attempts) st))))"

section \<open>Retrying\<close>

record retry_response =
  rr_queued :: bool
  rr_reason :: string
  rr_event :: "webhook_event option"

definition clear_error :: "webhook_event \<Rightarrow> webhook_event" where
  "clear_error e = e\<lparr>we_dead_letter := False, we_last_error := None\<rparr>"

text \<open>The last component lists the deliveries that are spawned.\<close>

definition retry_memory_webhook_event ::
  "(uuid \<Rightarrow> string) \<Rightarrow> webhook_delivery_config \<Rightarrow> request_env \<Rightarrow> string option \<Rightarrow> uuid \<Rightarrow> uuid \<Rightarrow> bool option \<Rightarrow> webhook_state \<Rightarrow>
   (mnemo_error + retry_response) \<times> webhook_state \<times> (uuid \<times> uuid) list" where
  "retry_memory_webhook_event show_uuid cfg env request_id webhook_id event_id force st =
     (let forced = (force = Some True); shown = JString (show_uuid event_id) in
      case known_webhook show_uuid webhook_id st of
        Inl x \<Rightarrow> (Inl x, st, [])
      | Inr _ \<Rightarrow>
        (case find_event webhook_id event_id st of
           None \<Rightarrow> (Inl (NotFound ''WebhookEvent'' (show_uuid event_id)), st, [])
         | Some e \<Rightarrow>
           if we_delivered e \<and> \<not> forced then
             (Inr \<lparr>rr_queued = False, rr_reason = ''event already delivered; pass force=true to re-deliver'', rr_event = Some e\<rparr>,
              append_webhook_audit cfg (rq_audit_id env) (rq_audit_now env) webhook_id ''retry_skipped'' request_id
                (JObject [(''event_id'', shown), (''reason'', JString ''already_delivered'')]) st, [])
           else
             (let st1 = change_event webhook_id event_id clear_error st;
                  st2 = append_webhook_audit cfg (rq_audit_id env) (rq_audit_now env) webhook_id ''retry_queued'' request_id
                    (JObject [(''event_id'', shown), (''force'', JBool forced)]) (persist_webhook_state cfg st1);
                  st3 = st2\<lparr>ws_metrics := (ws_metrics st2)\<lparr>wm_retry_queued_total := wm_retry_queued_total (ws_metrics st2) + 1\<rparr>\<rparr>
              in (Inr \<lparr>rr_queued = True, rr_reason = ''delivery retry queued'', rr_event = Some (clear_error e)\<rparr>, st3,
                  [(webhook_id, event_id)]))))"

section \<open>Reachable states\<close>

definition webhook_state_new :: "webhook_snapshot option \<Rightarrow> webhook_state" where
  "webhook_state_new redis =
     \<lparr>ws_hooks = [], ws_events = [], ws_audit = [], ws_runtime = [], ws_policies = [], ws_governance = [],
      ws_metrics = \<lparr>wm_deliveries_success_total = 0, wm_deliveries_failure_total = 0, wm_dead_letter_total = 0,
        wm_retry_queued_total = 0, wm_replay_requests_total = 0, wm_policy_violation_total = 0\<rparr>,
      ws_redis = redis\<rparr>"

definition empty_snapshot :: webhook_snapshot where
  "empty_snapshot = \<lparr>sn_hooks = None, sn_events = None, sn_audit = None, sn_policies = None, sn_governance = None\<rparr>"

definition restart :: "webhook_delivery_config \<Rightarrow> webhook_state \<Rightarrow> webhook_state" where
  "restart cfg st = restore_webhook_state cfg (webhook_state_new (ws_redis st))"

text \<open>
  The states of a server whose tasks interleave between the attempts of their deliveries; an attempt
  is made for any webhook and event the task read earlier.
\<close>

inductive webhook_reachable ::
  "delivery_services \<Rightarrow> (string \<Rightarrow> uuid option) \<Rightarrow> webhook_delivery_config \<Rightarrow> bool \<Rightarrow> webhook_state \<Rightarrow> bool"
  for sv parse_uuid cfg require_tls where
  wr_start: "redis \<in> {None, Some empty_snapshot} \<Longrightarrow> webhook_reachable sv parse_uuid cfg require_tls (webhook_state_new redis)"
| wr_restart: "webhook_reachable sv parse_uuid cfg require_tls st \<Longrightarrow>
    webhook_reachable sv parse_uuid cfg require_tls (restart cfg st)"
| wr_register: "webhook_reachable sv parse_uuid cfg require_tls st \<Longrightarrow>
    register_memory_webhook (ds_url_parse sv) parse_uuid cfg require_tls env rid req users st = Some (r, st') \<Longrightarrow>
    webhook_reachable sv parse_uuid cfg require_tls st'"
| wr_update: "webhook_reachable sv parse_uuid cfg require_tls st \<Longrightarrow>
    webhook_reachable sv parse_uuid cfg require_tls
      (snd (update_memory_webhook (ds_url_parse sv) (ds_show_uuid sv) cfg require_tls env rid i upd st))"
| wr_delete: "webhook_reachable sv parse_uuid cfg require_tls st \<Longrightarrow>
    webhook_reachable sv parse_uuid cfg require_tls (snd (delete_memory_webhook cfg i st))"
| wr_replay: "webhook_reachable sv parse_uuid cfg require_tls st \<Longrightarrow>
    webhook_reachable sv parse_uuid cfg require_tls
      (snd (replay_memory_webhook_events (ds_show_uuid sv) cfg env rid i q st))"
| wr_emit: "webhook_reachable sv parse_uuid cfg require_tls st \<Longrightarrow>
    webhook_reachable sv parse_uuid cfg require_tls (snd (emit_memory_webhook_event cfg u now user_id t rid payload st))"
| wr_attempt: "webhook_reachable sv parse_uuid cfg require_tls st \<Longrightarrow>
    webhook_reachable sv parse_uuid cfg require_tls (fst (deliver_attempt sv cfg w i e body a m aenv st))"
| wr_retry: "webhook_reachable sv parse_uuid cfg require_tls st \<Longrightarrow>
    webhook_reachable sv parse_uuid cfg require_tls
      (fst (snd (retry_memory_webhook_event (ds_show_uuid sv) cfg env rid i event_id force st)))"

lemma webhooks_ok_new: "redis \<in> {None, Some empty_snapshot} \<Longrightarrow> webhooks_ok p cfg tls (webhook_state_new redis)"
  by (auto simp: webhooks_ok_def webhook_state_new_def hooks_ok_def rows_ok_def snapshot_ok_def empty_snapshot_def restored_def)

lemma webhooks_ok_restart: "webhooks_ok p cfg tls st \<Longrightarrow> webhooks_ok p cfg tls (restart cfg st)"
  by (auto simp: webhooks_ok_def restart_def restore_webhook_state_def webhook_state_new_def hooks_ok_def rows_ok_def
      snapshot_ok_def restored_def split: option.split)

lemma length_update_first [simp]: "length (update_first p f xs) = length xs"
  by (induction xs) simp_all

lemma webhooks_ok_change: "webhooks_ok p cfg tls st \<Longrightarrow> webhooks_ok p cfg tls (change_event i j f st)"
  by (auto simp: webhooks_ok_def change_event_def rows_ok_def entries_ok_def bt_ok_insert map_of_bt_insert split: option.split)

lemma webhooks_ok_status: "webhooks_ok p cfg tls st \<Longrightarrow>
   webhooks_ok p cfg tls (update_webhook_delivery_status i j a d dl err now st)"
  by (simp add: update_webhook_delivery_status_def webhooks_ok_change)

lemma webhooks_ok_runtime [simp]:
  "webhooks_ok p cfg tls (put_runtime i row st) = webhooks_ok p cfg tls st"
  "webhooks_ok p cfg tls (count_success st) = webhooks_ok p cfg tls st"
  "webhooks_ok p cfg tls (count_failure st) = webhooks_ok p cfg tls st"
  "webhooks_ok p cfg tls (count_dead_letter st) = webhooks_ok p cfg tls st"
  "webhooks_ok p cfg tls (record_webhook_delivery_failure cfg' now i st) = webhooks_ok p cfg tls st"
  "webhooks_ok p cfg tls (record_webhook_delivery_success i st) = webhooks_ok p cfg tls st"
  by (simp_all add: put_runtime_def count_success_def count_failure_def count_dead_letter_def
      record_webhook_delivery_failure_def record_webhook_delivery_success_def split: option.split)

lemma webhooks_ok_check: "check_webhook_rate_and_circuit sh cfg' now i st = (r, st') \<Longrightarrow>
   webhooks_ok p cfg tls st' = webhooks_ok p cfg tls st"
  by (auto simp: check_webhook_rate_and_circuit_def Let_def split: option.splits if_splits)

lemma webhooks_ok_failed: "webhooks_ok p cfg tls st \<Longrightarrow>
   webhooks_ok p cfg tls (fst (failed_attempt sv cfg i e a m env err reason st))"
  by (simp add: failed_attempt_def Let_def webhooks_ok_status webhooks_ok_persist webhooks_ok_audit)

lemma webhooks_ok_attempt:
  assumes "webhooks_ok p cfg tls st"
  shows "webhooks_ok p cfg tls (fst (deliver_attempt sv cfg w i e body a m env st))"
proof -
  obtain r st1 where c: "check_webhook_rate_and_circuit (ds_display_time sv) cfg (at_check_now env) i st = (r, st1)"
    by (cases "check_webhook_rate_and_circuit (ds_display_time sv) cfg (at_check_now env) i st")
  then have ok: "webhooks_ok p cfg tls st1" using assms webhooks_ok_check by blast
  have "webhooks_ok p cfg tls (blocked_by_dns sv cfg w i e a m env err st1)" for err
    using ok by (simp add: blocked_by_dns_def Let_def webhooks_ok_status webhooks_ok_persist webhooks_ok_audit)
  moreover have "webhooks_ok p cfg tls (delivered_attempt cfg i e a env st1)"
    using ok by (simp add: delivered_attempt_def webhooks_ok_status webhooks_ok_persist)
  ultimately show ?thesis
    using webhooks_ok_failed [OF ok] by (simp add: deliver_attempt_def c Let_def case_prod_beta split: sum.split)
qed

lemma rows_ok_record:
  "rows_ok (max_events cfg) m \<Longrightarrow> rows_ok (max_events cfg) (fst (record_events cfg u k user_id t payload now rid ws m))"
proof (induction ws arbitrary: k m)
  case (Cons w ws)
  show ?case
    using Cons.IH [OF rows_ok_push [OF Cons.prems]] by (simp add: case_prod_beta max_events_def)
qed simp

lemma webhooks_ok_emit: "webhooks_ok p cfg tls st \<Longrightarrow>
   webhooks_ok p cfg tls (snd (emit_memory_webhook_event cfg u now user_id t rid payload st))"
  using rows_ok_record [of cfg "ws_events st" u 0 user_id t payload now rid "subscribed_hooks user_id t st"]
  by (auto simp: emit_memory_webhook_event_def Let_def split: prod.split intro!: webhooks_ok_persist)
    (simp add: webhooks_ok_def)

lemma webhooks_ok_retry: "webhooks_ok p cfg tls st \<Longrightarrow>
   webhooks_ok p cfg tls (fst (snd (retry_memory_webhook_event sh cfg env rid i j force st)))"
  by (simp add: retry_memory_webhook_event_def Let_def webhooks_ok_change webhooks_ok_persist webhooks_ok_audit
      split: sum.split option.split)

lemma webhook_reachable_ok:
  "webhook_reachable sv parse_uuid cfg tls st \<Longrightarrow> webhooks_ok (ds_url_parse sv) cfg tls st"
proof (induction rule: webhook_reachable.induct)
  case (wr_register st env rid req users r st')
  then show ?case by (blast intro: register_ok)
qed (simp_all add: webhooks_ok_new webhooks_ok_restart update_ok delete_ok replay_ok webhooks_ok_emit webhooks_ok_attempt
    webhooks_ok_retry)

section \<open>The rate limit over a run\<close>

text \<open>The three events of the limiter, of any webhook, and the times at which those of webhook \<open>i\<close> let an
  attempt through.\<close>

datatype limiter_op = LoCheck uuid timestamp | LoSuccess uuid | LoFailure uuid timestamp

fun op_time :: "limiter_op \<Rightarrow> timestamp option" where
  "op_time (LoCheck _ now) = Some now"
| "op_time (LoSuccess _) = None"
| "op_time (LoFailure _ now) = Some now"

fun limiter_run ::
  "(timestamp \<Rightarrow> string) \<Rightarrow> webhook_delivery_config \<Rightarrow> uuid \<Rightarrow> limiter_op list \<Rightarrow> webhook_state \<Rightarrow> timestamp list" where
  "limiter_run sh cfg i [] st = []"
| "limiter_run sh cfg i (LoCheck j now # ops) st =
     (case check_webhook_rate_and_circuit sh cfg now j st of
        (r, st') \<Rightarrow> (if j = i \<and> \<not> isl r then [now] else []) @ limiter_run sh cfg i ops st')"
| "limiter_run sh cfg i (LoSuccess j # ops) st = limiter_run sh cfg i ops (record_webhook_delivery_success j st)"
| "limiter_run sh cfg i (LoFailure j now # ops) st = limiter_run sh cfg i ops (record_webhook_delivery_failure cfg now j st)"

abbreviation minute :: int where "minute \<equiv> 60000000000"

definition hits :: "int \<Rightarrow> int \<Rightarrow> int list \<Rightarrow> nat" where
  "hits lo hi ts = length (filter (\<lambda>t. lo \<le> t \<and> t < hi) ts)"

lemma hits_append [simp]: "hits lo hi (xs @ ys) = hits lo hi xs + hits lo hi ys"
  by (simp add: hits_def)

lemma hits_single [simp]: "hits lo hi [t] = (if lo \<le> t \<and> t < hi then 1 else 0)" "hits lo hi [] = 0"
  by (simp_all add: hits_def)

lemma hits_mono:
  assumes "\<And>t. t \<in> set ts \<Longrightarrow> lo \<le> t \<Longrightarrow> t < hi \<Longrightarrow> lo' \<le> t \<and> t < hi'"
  shows "hits lo hi ts \<le> hits lo' hi' ts"
  using assms by (induction ts) (auto simp: hits_def)

lemma hits_split: "lo \<le> mid \<Longrightarrow> mid \<le> hi \<Longrightarrow> hits lo hi ts = hits lo mid ts + hits mid hi ts"
  by (induction ts) (auto simp: hits_def)

definition limit_of :: "webhook_delivery_config \<Rightarrow> nat" where
  "limit_of cfg = unat (max 1 (wc_rate_limit_per_minute cfg))"

text \<open>What the row of a webhook tells of the attempts let through so far, \<open>T\<close> being the time reached.\<close>

definition limiter_inv :: "nat \<Rightarrow> webhook_runtime option \<Rightarrow> timestamp list \<Rightarrow> timestamp \<Rightarrow> bool" where
  "limiter_inv l row ts T \<longleftrightarrow>
     (case row of
        None \<Rightarrow> ts = []
      | Some r \<Rightarrow> let W = wr_window_started_at r in
          W \<le> T \<and> (\<forall>t \<in> set ts. t < W + minute) \<and> hits W (W + minute) ts \<le> unat (wr_sent_in_window r) \<and>
          unat (wr_sent_in_window r) \<le> l \<and> hits (W - minute) W ts \<le> l) \<and>
     (\<forall>x. hits x (x + minute) ts \<le> 2 * l)"

lemma limiter_inv_later: "limiter_inv l row ts T \<Longrightarrow> T \<le> T' \<Longrightarrow> limiter_inv l row ts T'"
  by (auto simp: limiter_inv_def Let_def split: option.splits)

lemma limiter_inv_same:
  "limiter_inv l (Some r) ts T \<Longrightarrow> wr_window_started_at r' = wr_window_started_at r \<Longrightarrow>
   wr_sent_in_window r' = wr_sent_in_window r \<Longrightarrow> limiter_inv l (Some r') ts T"
  by (simp add: limiter_inv_def)

lemma window_expired: "W \<le> now \<Longrightarrow> num_seconds (now - W) \<ge> 60 \<longleftrightarrow> W + minute \<le> now"
  by (simp add: num_seconds_nonneg) arith

lemma limiter_inv_roll:
  assumes "limiter_inv l (Some r) ts now"
  shows "limiter_inv l (Some (roll_window now r)) ts now"
    and "wr_window_started_at (roll_window now r) \<le> now \<and> now < wr_window_started_at (roll_window now r) + minute"
proof -
  let ?W = "wr_window_started_at r"
  have W: "?W \<le> now" and inv: "\<forall>t \<in> set ts. t < ?W + minute" "hits ?W (?W + minute) ts \<le> unat (wr_sent_in_window r)"
    "unat (wr_sent_in_window r) \<le> l" "\<forall>x. hits x (x + minute) ts \<le> 2 * l"
    using assms by (simp_all add: limiter_inv_def Let_def)
  show "limiter_inv l (Some (roll_window now r)) ts now"
  proof (cases "?W + minute \<le> now")
    case True
    have "hits now (now + minute) ts \<le> hits 1 0 ts" by (rule hits_mono) (use inv(1) True in force)
    moreover have "hits (now - minute) now ts \<le> hits ?W (?W + minute) ts" by (rule hits_mono) (use inv(1) True in force)
    moreover have "hits 1 0 ts = 0" by (induction ts) (auto simp: hits_def)
    ultimately show ?thesis
      using True inv window_expired [OF W] by (force simp: roll_window_def limiter_inv_def Let_def)
  next
    case False
    then show ?thesis using assms window_expired [OF W] by (simp add: roll_window_def)
  qed
  show "wr_window_started_at (roll_window now r) \<le> now \<and> now < wr_window_started_at (roll_window now r) + minute"
    using W window_expired [OF W] by (auto simp: roll_window_def)
qed

lemma limiter_inv_send:
  assumes "limiter_inv l (Some r) ts now" and "now < wr_window_started_at r + minute"
    and "unat (wr_sent_in_window r) < l" and "unat (wr_sent_in_window r') = unat (wr_sent_in_window r) + 1"
    and "wr_window_started_at r' = wr_window_started_at r"
  shows "limiter_inv l (Some r') (ts @ [now]) now"
proof -
  let ?W = "wr_window_started_at r"
  have W: "?W \<le> now" and inv: "\<forall>t \<in> set ts. t < ?W + minute" "hits ?W (?W + minute) ts \<le> unat (wr_sent_in_window r)"
    "hits (?W - minute) ?W ts \<le> l" and all: "\<forall>x. hits x (x + minute) ts \<le> 2 * l"
    using assms(1) by (simp_all add: limiter_inv_def Let_def)
  have "hits x (x + minute) (ts @ [now]) \<le> 2 * l" for x
  proof (cases "x \<le> now \<and> now < x + minute")
    case True
    have "hits x (x + minute) ts \<le> hits (?W - minute) (?W + minute) ts" by (rule hits_mono) (use inv(1) True W in force)
    also have "\<dots> = hits (?W - minute) ?W ts + hits ?W (?W + minute) ts" by (rule hits_split) simp_all
    finally show ?thesis using inv assms(3) by simp
  next
    case False
    then show ?thesis using all by auto
  qed
  then show ?thesis using assms(2-5) inv W by (simp add: limiter_inv_def Let_def)
qed

lemma check_limiter:
  assumes "check_webhook_rate_and_circuit sh cfg now i st = (r, st')"
    and "limiter_inv (limit_of cfg) (map_of (ws_runtime st) i) ts now"
  shows "limiter_inv (limit_of cfg) (map_of (ws_runtime st') i) (ts @ (if \<not> isl r then [now] else [])) now"
proof -
  define row where "row = runtime_row now i st"
  define row1 where "row1 = roll_window now (close_circuit row)"
  let ?n = "wr_sent_in_window row1"
  have inv: "limiter_inv (limit_of cfg) (Some row) ts now"
    using assms(2) by (auto simp: row_def runtime_row_def bt_get_or_def limiter_inv_def runtime_new_def split: option.splits)
  then have "limiter_inv (limit_of cfg) (Some (close_circuit row)) ts now"
    by (rule limiter_inv_same) (simp_all add: close_circuit_def)
  from limiter_inv_roll [OF this] have inv1: "limiter_inv (limit_of cfg) (Some row1) ts now"
    and now: "now < wr_window_started_at row1 + minute" by (simp_all add: row1_def)
  consider (refused) e where "r = Inl e" "st' = put_runtime i row st"
    | (full) e where "r = Inl e" "st' = put_runtime i row1 st"
    | (send) "r = Inr ()" "st' = put_runtime i (row1\<lparr>wr_sent_in_window := ?n + 1\<rparr>) st" "?n < max 1 (wc_rate_limit_per_minute cfg)"
    using assms(1) by (auto simp: check_webhook_rate_and_circuit_def Let_def row_def [symmetric] row1_def [symmetric]
        not_le simp del: max.bounded_iff split: option.splits if_splits)
  then show ?thesis
  proof cases
    case send
    then have less: "unat ?n < limit_of cfg" by (simp add: limit_of_def word_less_nat_alt)
    have "limit_of cfg < 2 ^ 32" using unsigned_less [of "max 1 (wc_rate_limit_per_minute cfg)"] by (simp add: limit_of_def)
    with less have "unat (?n + 1) = unat ?n + 1" by (intro unat_inc) simp
    then have "limiter_inv (limit_of cfg) (Some (row1\<lparr>wr_sent_in_window := ?n + 1\<rparr>)) (ts @ [now]) now"
      using less by (intro limiter_inv_send [OF inv1 now]) simp_all
    then show ?thesis using send by (simp add: put_runtime_def map_of_bt_insert)
  qed (use inv inv1 in \<open>simp_all add: put_runtime_def map_of_bt_insert\<close>)
qed

lemma put_other [simp]: "j \<noteq> i \<Longrightarrow> map_of (ws_runtime (put_runtime j row st)) i = map_of (ws_runtime st) i"
  by (simp add: put_runtime_def map_of_bt_insert)

lemma check_other:
  "check_webhook_rate_and_circuit sh cfg now j st = (r, st') \<Longrightarrow> j \<noteq> i \<Longrightarrow> map_of (ws_runtime st') i = map_of (ws_runtime st) i"
  by (auto simp: check_webhook_rate_and_circuit_def Let_def split: option.splits if_splits)

lemma limiter_run_bounded:
  assumes "limiter_inv (limit_of cfg) (map_of (ws_runtime st) i) ts T"
    and "sorted (T # List.map_filter op_time ops)"
  shows "hits x (x + minute) (ts @ limiter_run sh cfg i ops st) \<le> 2 * limit_of cfg"
  using assms
proof (induction ops arbitrary: st ts T)
  case Nil
  then show ?case by (simp add: limiter_inv_def)
next
  case (Cons x1 ops)
  show ?case
  proof (cases x1)
    case (LoCheck j now)
    obtain r st' where c: "check_webhook_rate_and_circuit sh cfg now j st = (r, st')"
      by (cases "check_webhook_rate_and_circuit sh cfg now j st")
    have inv: "limiter_inv (limit_of cfg) (map_of (ws_runtime st) i) ts now"
      using Cons.prems LoCheck by (auto simp: map_filter_simps intro: limiter_inv_later)
    have "limiter_inv (limit_of cfg) (map_of (ws_runtime st') i) (ts @ (if j = i \<and> \<not> isl r then [now] else [])) now"
      using check_limiter [OF c] check_other [OF c, of i] inv by (cases "j = i") auto
    from Cons.IH [OF this] Cons.prems(2) LoCheck c show ?thesis by (simp add: map_filter_simps)
  next
    case (LoSuccess j)
    have "limiter_inv (limit_of cfg) (map_of (ws_runtime (record_webhook_delivery_success j st)) i) ts T"
      using Cons.prems(1) by (cases "j = i")
        (auto simp: record_webhook_delivery_success_def put_runtime_def map_of_bt_insert
          intro: limiter_inv_same split: option.split)
    from Cons.IH [OF this] Cons.prems(2) LoSuccess show ?thesis by (simp add: map_filter_simps)
  next
    case (LoFailure j now)
    have inv: "limiter_inv (limit_of cfg) (map_of (ws_runtime st) i) ts now"
      using Cons.prems LoFailure by (auto simp: map_filter_simps intro: limiter_inv_later)
    then have "limiter_inv (limit_of cfg) (Some (runtime_row now i st)) ts now"
      by (auto simp: runtime_row_def bt_get_or_def limiter_inv_def runtime_new_def split: option.splits)
    then have "limiter_inv (limit_of cfg) (Some (fail_row cfg now (runtime_row now i st))) ts now"
      by (rule limiter_inv_same) (simp_all add: fail_row_def Let_def)
    then have "limiter_inv (limit_of cfg) (map_of (ws_runtime (record_webhook_delivery_failure cfg now j st)) i) ts now"
      using inv by (cases "j = i") (simp_all add: record_webhook_delivery_failure_def put_runtime_def map_of_bt_insert)
    from Cons.IH [OF this] Cons.prems(2) LoFailure show ?thesis by (simp add: map_filter_simps)
  qed
qed

section \<open>How a delivery ends\<close>

definition sent_requests :: "delivery_effect list \<Rightarrow> http_request list" where
  "sent_requests es = concat (map (\<lambda>x. case x of Sent r \<Rightarrow> [r] | Slept _ \<Rightarrow> []) es)"

lemma sent_requests_simps [simp]:
  "sent_requests [] = []" "sent_requests (Sent r # es) = r # sent_requests es"
  "sent_requests (Slept n # es) = sent_requests es" "sent_requests (xs @ ys) = sent_requests xs @ sent_requests ys"
  by (simp_all add: sent_requests_def)

text \<open>
  The event at the end: delivered, a dead letter after the last attempt, or left aside at an earlier
  attempt whose address check failed.
\<close>

definition delivery_ended ::
  "delivery_services \<Rightarrow> webhook_delivery_config \<Rightarrow> (u32 \<Rightarrow> attempt_env) \<Rightarrow> webhook \<Rightarrow> u32 \<Rightarrow> webhook_event \<Rightarrow> bool" where
  "delivery_ended sv cfg env w max_attempts e \<longleftrightarrow>
     1 \<le> unat (we_attempts e) \<and> we_attempts e \<le> max_attempts \<and>
     (we_delivered e \<and> \<not> we_dead_letter e \<and> we_last_error e = None
      \<or> \<not> we_delivered e \<and> we_dead_letter e \<and> we_attempts e = max_attempts
      \<or> \<not> we_delivered e \<and> \<not> we_dead_letter e \<and> we_attempts e < max_attempts \<and>
        dns_check sv cfg w (env (we_attempts e)) \<noteq> Inr ())"

lemma find_update_first:
  assumes "\<And>x. p x \<Longrightarrow> p (f x)"
  shows "find p (update_first p f xs) = map_option f (find p xs)"
  using assms by (induction xs) auto

lemma find_change:
  assumes "\<And>e. we_id (f e) = we_id e"
  shows "find_event i j (change_event i j f st) = map_option f (find_event i j st)"
  using find_update_first [of "\<lambda>e. we_id e = j" f] assms
  by (simp add: find_event_def rows_of_def bt_get_or_def change_event_def map_of_bt_insert split: option.split)

lemma find_status: "find_event i j (update_webhook_delivery_status i j a d dl err now st) =
   map_option (with_status a d dl err now) (find_event i j st)"
  unfolding update_webhook_delivery_status_def by (rule find_change) (simp add: with_status_def)

lemma find_event_other [simp]:
  "find_event i j (persist_webhook_state cfg st) = find_event i j st"
  "find_event i j (put_runtime k row st) = find_event i j st"
  "find_event i j (count_success st) = find_event i j st"
  "find_event i j (count_failure st) = find_event i j st"
  "find_event i j (count_dead_letter st) = find_event i j st"
  "find_event i j (append_webhook_audit cfg u now k a r d st) = find_event i j st"
  "find_event i j (record_webhook_delivery_failure cfg now k st) = find_event i j st"
  "find_event i j (record_webhook_delivery_success k st) = find_event i j st"
  by (simp_all add: find_event_def put_runtime_def count_success_def count_failure_def count_dead_letter_def Let_def
      append_webhook_audit_def record_webhook_delivery_failure_def record_webhook_delivery_success_def split: option.split)

lemma find_check: "check_webhook_rate_and_circuit sh cfg now k st = (r, st') \<Longrightarrow> find_event i j st' = find_event i j st"
  by (auto simp: check_webhook_rate_and_circuit_def Let_def split: option.splits if_splits)

lemma failed_attempt_spec:
  assumes "failed_attempt sv cfg i e a m env err reason st = (st', effects, stop)"
  shows "find_event i (we_id e) st' =
      map_option (with_status a False (a \<ge> m) (Some err) (at_status_now env)) (find_event i (we_id e) st)"
    and "sent_requests effects = []" and "stop \<longleftrightarrow> a \<ge> m"
  using assms by (auto simp: failed_attempt_def Let_def find_status split: if_splits)

text \<open>One attempt, as seen on the event: it ends the delivery, or fails and leaves it pending.\<close>

lemma deliver_attempt_spec:
  assumes run: "deliver_attempt sv cfg w i e body a m env st = (st', effects, stop)"
    and found: "find_event i (we_id e) st = Some e0" and "\<not> we_delivered e0"
  obtains e1 where "find_event i (we_id e) st' = Some e1" "we_attempts e1 = a"
    "stop \<longrightarrow> (we_delivered e1 \<and> \<not> we_dead_letter e1 \<and> we_last_error e1 = None \<or>
       \<not> we_delivered e1 \<and> we_dead_letter e1 \<and> a \<ge> m \<or>
       \<not> we_delivered e1 \<and> \<not> we_dead_letter e1 \<and> a < m \<and> dns_check sv cfg w env \<noteq> Inr ())"
    "\<not> stop \<longrightarrow> \<not> we_delivered e1 \<and> a < m"
    "sent_requests effects = [] \<or> sent_requests effects = [delivery_request sv cfg w e body env] \<and> dns_check sv cfg w env = Inr ()"
proof -
  obtain r st1 where c: "check_webhook_rate_and_circuit (ds_display_time sv) cfg (at_check_now env) i st = (r, st1)"
    by (cases "check_webhook_rate_and_circuit (ds_display_time sv) cfg (at_check_now env) i st")
  have f1: "find_event i (we_id e) st1 = Some e0" using find_check [OF c] found by simp
  let ?bad = "\<lambda>err. with_status a False (a \<ge> m) (Some err) (at_status_now env) e0"
  let ?good = "with_status a True False None (at_status_now env) e0"
  let ?req = "delivery_request sv cfg w e body env"
  have good: "find_event i (we_id e) (delivered_attempt cfg i e a env st1) = Some ?good"
    by (simp add: delivered_attempt_def find_status f1)
  have blocked: "find_event i (we_id e) (blocked_by_dns sv cfg w i e a m env err st1) = Some (?bad err)" for err
    by (simp add: blocked_by_dns_def Let_def find_status f1)
  have failed: "find_event i (we_id e) s = Some (?bad err) \<and> sent_requests fx = [] \<and> (q \<longleftrightarrow> a \<ge> m)"
    if "failed_attempt sv cfg i e a m env err reason st1 = (s, fx, q)" for err reason s fx q
    using failed_attempt_spec [OF that] f1 by simp
  consider (refused) err where "failed_attempt sv cfg i e a m env err ''circuit_or_rate_limited'' st1 = (st', effects, stop)"
    | (dns) err where "dns_check sv cfg w env = Inl err" "st' = blocked_by_dns sv cfg w i e a m env err st1" "effects = []" "stop"
    | (ok) "dns_check sv cfg w env = Inr ()" "st' = delivered_attempt cfg i e a env st1" "effects = [Sent ?req]" "stop"
    | (bad) err fx where "dns_check sv cfg w env = Inr ()" "failed_attempt sv cfg i e a m env err err st1 = (st', fx, stop)"
        "effects = Sent ?req # fx"
    proof (cases r)
    case (Inl err)
    with run show ?thesis by (intro that(1) [of err]) (simp add: deliver_attempt_def c)
  next
    case r: (Inr x)
    show ?thesis
    proof (cases "dns_check sv cfg w env")
      case (Inl err)
      with run r show ?thesis by (intro that(2) [of err]) (auto simp: deliver_attempt_def c)
    next
      case dns: (Inr y)
      show ?thesis
      proof (cases "\<exists>status. at_send env ?req = Inr status \<and> 200 \<le> status \<and> status < 300")
        case True
        with run r dns show ?thesis by (intro that(3)) (auto simp: deliver_attempt_def c Let_def)
      next
        case False
        obtain err fx q s where bad: "failed_attempt sv cfg i e a m env err err st1 = (s, fx, q)"
          "deliver_attempt sv cfg w i e body a m env st = (s, Sent ?req # fx, q)"
        proof (cases "at_send env ?req")
          case (Inl err)
          with r dns show ?thesis
            by (cases "failed_attempt sv cfg i e a m env err err st1") (auto simp: deliver_attempt_def c Let_def intro: that)
        next
          case (Inr status)
          let ?err = "''http status '' @ ds_show_status sv status"
          from Inr False r dns show ?thesis
            by (cases "failed_attempt sv cfg i e a m env ?err ?err st1") (auto simp: deliver_attempt_def c Let_def intro: that)
        qed
        then show ?thesis using run dns by (intro that(4) [of err fx]) auto
      qed
    qed
  qed
  then show ?thesis
  proof cases
    case (refused err)
    then show ?thesis using failed [OF refused] assms(3) by (intro that [of "?bad err"]) (auto simp: with_status_def)
  next
    case (dns err)
    then show ?thesis using blocked assms(3) by (intro that [of "?bad err"]) (auto simp: with_status_def)
  next
    case ok
    then show ?thesis using good by (intro that [of ?good]) (auto simp: with_status_def)
  next
    case (bad err fx)
    then show ?thesis using failed [OF bad(2)] assms(3) by (intro that [of "?bad err"]) (auto simp: with_status_def)
  qed
qed

definition requests_checked ::
  "delivery_services \<Rightarrow> webhook_delivery_config \<Rightarrow> (u32 \<Rightarrow> attempt_env) \<Rightarrow> webhook \<Rightarrow> webhook_event \<Rightarrow> string \<Rightarrow> u32 \<Rightarrow>
   http_request list \<Rightarrow> bool" where
  "requests_checked sv cfg env w e body last_attempt rs \<longleftrightarrow>
     (\<forall>r \<in> set rs. \<exists>a. a \<le> last_attempt \<and> dns_check sv cfg w (env a) = Inr () \<and> r = delivery_request sv cfg w e body (env a))"

lemma unat_of_nat_32: "n < 2 ^ 32 \<Longrightarrow> unat (of_nat n :: u32) = n"
  by (simp add: unsigned_of_nat take_bit_eq_mod)

lemma deliver_loop_ends:
  assumes "1 \<le> k" and "k \<le> unat m" and "find_event i (we_id e) st = Some e0" and "\<not> we_delivered e0"
    and "\<And>a s. find_event i (we_id e) (meanwhile a s) = find_event i (we_id e) s"
    and "deliver_loop sv cfg env meanwhile w i e body m (map of_nat [k..<Suc (unat m)]) st = (st', effects)"
  shows "\<exists>e1. find_event i (we_id e) st' = Some e1 \<and> delivery_ended sv cfg env w m e1 \<and> k \<le> unat (we_attempts e1) \<and>
    requests_checked sv cfg env w e body (we_attempts e1) (sent_requests effects) \<and>
    length (sent_requests effects) \<le> unat (we_attempts e1) + 1 - k"
  using assms(1-4,6)
proof (induction "unat m - k" arbitrary: k st e0 st' effects)
  case 0
  then have k: "k = unat m" by simp
  then have a: "of_nat k = m" by simp
  obtain s fx stop where run: "deliver_attempt sv cfg w i e body m m (env m) st = (s, fx, stop)"
    by (cases "deliver_attempt sv cfg w i e body m m (env m) st") auto
  from deliver_attempt_spec [OF this "0.prems"(3,4)] obtain e1 where e1: "find_event i (we_id e) s = Some e1" "we_attempts e1 = m"
    "stop" "we_delivered e1 \<and> \<not> we_dead_letter e1 \<and> we_last_error e1 = None \<or> \<not> we_delivered e1 \<and> we_dead_letter e1"
    "sent_requests fx = [] \<or> sent_requests fx = [delivery_request sv cfg w e body (env m)] \<and> dns_check sv cfg w (env m) = Inr ()"
    by (metis less_irrefl)
  have "st' = s" "effects = fx" using "0.prems"(5) run e1(3) a k by (simp_all add: upt_rec)
  then show ?case using e1 "0.prems"(1) k by (intro exI [of _ e1]) (auto simp: delivery_ended_def requests_checked_def)
next
  case (Suc d)
  then have k: "k < unat m" by simp
  let ?a = "of_nat k :: u32"
  have m: "unat m < 2 ^ 32" using unsigned_less [of m] by simp
  then have a: "unat ?a = k" using k by (intro unat_of_nat_32) simp
  have upt: "[k..<Suc (unat m)] = k # [Suc k..<Suc (unat m)]" using k by (simp add: upt_rec)
  obtain s fx stop where run: "deliver_attempt sv cfg w i e body ?a m (env ?a) st = (s, fx, stop)"
    by (cases "deliver_attempt sv cfg w i e body ?a m (env ?a) st") auto
  from deliver_attempt_spec [OF this Suc.prems(3,4)] obtain e1 where e1: "find_event i (we_id e) s = Some e1" "we_attempts e1 = ?a"
    "stop \<longrightarrow> (we_delivered e1 \<and> \<not> we_dead_letter e1 \<and> we_last_error e1 = None \<or>
       \<not> we_delivered e1 \<and> we_dead_letter e1 \<and> ?a \<ge> m \<or>
       \<not> we_delivered e1 \<and> \<not> we_dead_letter e1 \<and> ?a < m \<and> dns_check sv cfg w (env ?a) \<noteq> Inr ())"
    "\<not> stop \<longrightarrow> \<not> we_delivered e1"
    "sent_requests fx = [] \<or> sent_requests fx = [delivery_request sv cfg w e body (env ?a)] \<and> dns_check sv cfg w (env ?a) = Inr ()"
    by metis
  have am: "?a < m" using k a by (simp add: word_less_nat_alt)
  show ?case
  proof (cases stop)
    case True
    then have "st' = s" "effects = fx" using Suc.prems(5) run by (simp_all add: upt del: upt_Suc)
    then show ?thesis using e1 True am a Suc.prems(1)
      by (intro exI [of _ e1]) (auto simp: delivery_ended_def requests_checked_def)
  next
    case False
    obtain fx2 where rest: "deliver_loop sv cfg env meanwhile w i e body m (map of_nat [Suc k..<Suc (unat m)]) (meanwhile ?a s) = (st', fx2)"
      and fx: "effects = fx @ fx2"
      using Suc.prems(5) run False by (auto simp: upt simp del: upt_Suc split: prod.splits)
    have "find_event i (we_id e) (meanwhile ?a s) = Some e1" using e1(1) assms(5) by simp
    moreover have "d = unat m - Suc k" using Suc.hyps(2) by simp
    ultimately have "\<exists>e1. find_event i (we_id e) st' = Some e1 \<and> delivery_ended sv cfg env w m e1 \<and> Suc k \<le> unat (we_attempts e1) \<and>
      requests_checked sv cfg env w e body (we_attempts e1) (sent_requests fx2) \<and>
      length (sent_requests fx2) \<le> unat (we_attempts e1) + 1 - Suc k"
      using k e1(4) False by (intro Suc.hyps(1) [OF _ _ _ _ _ rest]) auto
    then obtain e2 where e2: "find_event i (we_id e) st' = Some e2"
      "delivery_ended sv cfg env w m e2" "Suc k \<le> unat (we_attempts e2)"
      "requests_checked sv cfg env w e body (we_attempts e2) (sent_requests fx2)"
      "length (sent_requests fx2) \<le> unat (we_attempts e2) + 1 - Suc k"
      by blast
    have "?a \<le> we_attempts e2" using e2(3) a by (simp add: word_le_nat_alt)
    then have "requests_checked sv cfg env w e body (we_attempts e2) (sent_requests effects)"
      using e2(4) e1(5) by (auto simp: requests_checked_def fx)
    moreover have "length (sent_requests effects) \<le> unat (we_attempts e2) + 1 - k"
      using e2(3,5) e1(5) by (auto simp: fx)
    ultimately show ?thesis using e2 by (intro exI [of _ e2]) auto
  qed
qed

section \<open>Properties\<close>

text \<open>C25: However checks, successes and failures of any webhooks follow each other with a clock that does
  not go back, the attempts let through for one webhook in any interval of one minute are at most twice the
  configured limit (taken as one when it is zero).\<close>

theorem webhook_rate_bounded:
  assumes "sorted (List.map_filter op_time ops)"
  shows "hits x (x + minute) (limiter_run show_time cfg i ops (webhook_state_new redis)) \<le> 2 * limit_of cfg"
proof (cases "List.map_filter op_time ops")
  case Nil
  have "limiter_inv (limit_of cfg) (map_of (ws_runtime (webhook_state_new redis)) i) [] 0"
    by (simp add: limiter_inv_def webhook_state_new_def)
  from limiter_run_bounded [OF this, of ops] Nil show ?thesis by simp
next
  case (Cons t ts)
  have "limiter_inv (limit_of cfg) (map_of (ws_runtime (webhook_state_new redis)) i) [] t"
    by (simp add: limiter_inv_def webhook_state_new_def)
  from limiter_run_bounded [OF this, of ops] assms Cons show ?thesis by simp
qed

definition sample_config :: webhook_delivery_config where
  "sample_config = \<lparr>wc_enabled = True, wc_max_attempts = 2, wc_base_backoff_ms = 100, wc_request_timeout_ms = 1000,
     wc_max_events_per_webhook = 2, wc_rate_limit_per_minute = 1, wc_circuit_breaker_threshold = 5,
     wc_circuit_breaker_cooldown_ms = 1000, wc_persistence_enabled = True, wc_allow_localhost = True\<rparr>"

definition sample_ops :: "limiter_op list" where
  "sample_ops = [LoCheck 1 0, LoCheck 1 5, LoFailure 1 6, LoCheck 1 minute, LoCheck 1 61000000000]"

lemma webhook_rate_bounded_witness:
  "limiter_run (\<lambda>_. []) sample_config 1 sample_ops (webhook_state_new None) = [0, minute] \<and>
   hits 0 (0 + minute) (limiter_run (\<lambda>_. []) sample_config 1 sample_ops (webhook_state_new None)) \<le> 2 * limit_of sample_config"
proof -
  have "limiter_run (\<lambda>_. []) sample_config 1 sample_ops (webhook_state_new None) = [0, minute]" by code_simp
  moreover have "sorted (List.map_filter op_time sample_ops)" by (simp add: sample_ops_def map_filter_simps)
  ultimately show ?thesis by (blast intro: webhook_rate_bounded)
qed

definition sample_services :: delivery_services where
  "sample_services = \<lparr>ds_url_parse = (\<lambda>_. Inr \<lparr>url_scheme = ''https'', url_host_str = Some ''example.com'', url_port = None\<rparr>),
     ds_show_ip = (\<lambda>_. ''ip''), ds_show_uuid = (\<lambda>i. nat_to_string (unat i)), ds_display_time = int_to_string,
     ds_rfc3339 = int_to_string, ds_show_status = nat_to_string, ds_to_text = (\<lambda>_. Inr ''body''),
     ds_hmac = (\<lambda>k m. ''mac'')\<rparr>"

definition sample_hook :: webhook where
  "sample_hook = \<lparr>wh_id = 1, wh_user_id = 5, wh_user_identifier = ''ann'', wh_target_url = ''https://example.com'',
     wh_signing_secret = Some ''key'', wh_events = [WeFactAdded], wh_enabled = True, wh_created_at = 0, wh_updated_at = 0\<rparr>"

definition sample_hook_event :: "bool \<Rightarrow> webhook_event" where
  "sample_hook_event delivered = (new_webhook_event 7 1 WeFactAdded 5 JNull 0 None)\<lparr>we_delivered := delivered\<rparr>"

definition sample_webhooks :: "bool \<Rightarrow> webhook_state" where
  "sample_webhooks delivered = (webhook_state_new (Some empty_snapshot))
     \<lparr>ws_hooks := [(1, sample_hook)], ws_events := [(1, [sample_hook_event delivered])]\<rparr>"

text \<open>The receiver answers the first attempt with an error and the second with success.\<close>

definition sample_env :: "u32 \<Rightarrow> attempt_env" where
  "sample_env a = \<lparr>at_check_now = 2 * uint a * minute, at_status_now = 2 * uint a * minute, at_fail_now = 2 * uint a * minute,
     at_sign_now = 2 * uint a * minute, at_delivery_id = 20, at_audit_id = 30, at_audit_now = 40,
     at_resolve = (\<lambda>_. Inr [V4 93 184 216 34]), at_send = (\<lambda>_. Inr (if a = 1 then 503 else 200))\<rparr>"



text \<open>C26: In every reachable state, with deliveries interleaved between their attempts and restarts in between, each stored
  subscription has an http or https target, which is no internal address unless those are allowed and which is https
  when TLS is required; and no webhook keeps more events than configured.\<close>

theorem webhook_targets_stay_checked:
  assumes "webhook_reachable sv parse_uuid cfg require_tls st" and "map_of (ws_hooks st) i = Some w"
  shows "target_ok (ds_url_parse sv) cfg require_tls (wh_target_url w) \<and>
    length (rows_of i (ws_events st)) \<le> max 1 (wc_max_events_per_webhook cfg)"
proof -
  have ok: "webhooks_ok (ds_url_parse sv) cfg require_tls st" using assms(1) by (rule webhook_reachable_ok)
  then have "rows_ok (max_events cfg) (ws_events st)" by (simp add: webhooks_ok_def)
  then have "length (rows_of i (ws_events st)) \<le> max_events cfg"
    by (auto simp: rows_ok_def entries_ok_def rows_of_def bt_get_or_def split: option.split)
  with webhooks_ok_hook [OF ok assms(2)] show ?thesis by (simp add: max_events_def)
qed

definition sample_request :: register_webhook_request where
  "sample_request = \<lparr>rw_user = ''ann'', rw_target_url = '' https://example.com '', rw_signing_secret = Some ''key'',
     rw_events = None, rw_enabled = True\<rparr>"

definition sample_user_store :: user_store where
  "sample_user_store = snd (create_user (\<lambda>_. []) \<lparr>cu_id = None, cu_external_id = Some ''ann'', cu_name = ''Ann'', cu_email = None,
     cu_metadata = JNull\<rparr> 5 0 user_store_new)"

definition sample_registration :: "((mnemo_error + webhook) \<times> webhook_state) option" where
  "sample_registration = register_memory_webhook (ds_url_parse sample_services) (\<lambda>_. None) sample_config True
     \<lparr>rq_policy_now = 0, rq_now = 1, rq_id = 9, rq_audit_id = 10, rq_audit_now = 2\<rparr> None sample_request sample_user_store
     (webhook_state_new None)"

lemma webhook_targets_stay_checked_witness:
  "map_option wh_target_url (map_of (ws_hooks (snd (the sample_registration))) 9) = Some ''https://example.com'' \<and>
   target_ok (ds_url_parse sample_services) sample_config True ''https://example.com''"
proof -
  have some: "\<not> Option.is_none sample_registration" by code_simp
  then obtain r st where reg: "sample_registration = Some (r, st)" by (auto simp: Option.is_none_def)
  have url: "map_option wh_target_url (map_of (ws_hooks (snd (the sample_registration))) 9) = Some ''https://example.com''" by code_simp
  have "webhook_reachable sample_services (\<lambda>_. None) sample_config True st"
    by (rule wr_register [OF wr_start]) (use reg in \<open>auto simp: sample_registration_def\<close>)
  moreover obtain w where "map_of (ws_hooks st) 9 = Some w" "wh_target_url w = ''https://example.com''"
    using url by (auto simp: reg)
  ultimately show ?thesis using url webhook_targets_stay_checked [of sample_services "\<lambda>_. None" sample_config True st 9 w] by simp
qed

text \<open>A restart brings back every subscription, event, audit row and user policy as they were last saved, but no signing
  secret: every request for a webhook restored this way is sent without a signature.\<close>

theorem restart_loses_secrets:
  assumes "wc_persistence_enabled cfg" and "ws_redis st \<noteq> None"
  shows "let st' = restart cfg (persist_webhook_state cfg st) in
    ws_events st' = ws_events st \<and> ws_audit st' = ws_audit st \<and> ws_policies st' = ws_policies st \<and>
    ws_governance st' = ws_governance st \<and> ws_runtime st' = [] \<and>
    map_of (ws_hooks st') i = map_option saved_webhook (map_of (ws_hooks st) i) \<and>
    (\<forall>w e body env. map_of (ws_hooks st') i = Some w \<longrightarrow>
       ''x-mnemo-signature'' \<notin> fst ` set (hq_headers (delivery_request sv cfg w e body env)))"
proof -
  have "restart cfg (persist_webhook_state cfg st) = (webhook_state_new (ws_redis (persist_webhook_state cfg st)))
    \<lparr>ws_hooks := map (\<lambda>(i, w). (i, saved_webhook w)) (ws_hooks st), ws_events := ws_events st, ws_audit := ws_audit st,
     ws_policies := ws_policies st, ws_governance := ws_governance st\<rparr>"
    using assms by (auto simp: restart_def restore_webhook_state_def persist_webhook_state_def restored_def webhook_state_new_def)
  then show ?thesis
    by (auto simp: Let_def webhook_state_new_def map_of_map saved_webhook_def [abs_def] delivery_request_def split: option.splits)
qed

lemma restart_loses_secrets_witness:
  "map_of (ws_hooks (restart sample_config (persist_webhook_state sample_config (sample_webhooks False)))) 1 =
     Some (saved_webhook sample_hook)"
proof -
  have p: "wc_persistence_enabled sample_config" "ws_redis (sample_webhooks False) \<noteq> None"
    by (simp_all add: sample_config_def sample_webhooks_def webhook_state_new_def)
  have "map_of (ws_hooks (sample_webhooks False)) 1 = Some sample_hook" by (simp add: sample_webhooks_def)
  with restart_loses_secrets [OF p, of 1] show ?thesis by (simp add: Let_def)
qed

text \<open>Forcing the retry of a delivered event answers that it is queued, and the delivery that is spawned for it
  does nothing: no request is sent, whatever the configuration.\<close>

theorem forced_retry_sends_nothing:
  assumes "map_of (ws_hooks st) i \<noteq> None" and "find_event i j st = Some e" and "we_delivered e"
  shows "case retry_memory_webhook_event (ds_show_uuid sv) cfg renv rid i j (Some True) st of
      (r, st', spawned) \<Rightarrow> \<not> isl r \<and> rr_queued (projr r) \<and> spawned = [(i, j)] \<and>
        deliver_memory_webhook_event sv cfg env meanwhile i j st' = (st', [])"
proof -
  let ?r = "retry_memory_webhook_event (ds_show_uuid sv) cfg renv rid i j (Some True) st"
  have known: "known_webhook (ds_show_uuid sv) i st = Inr ()" using assms(1) by (simp add: known_webhook_def)
  have "find_event i j (s\<lparr>ws_metrics := x\<rparr>) = find_event i j s" for s x by (simp add: find_event_def)
  moreover have "find_event i j (change_event i j clear_error st) = Some (clear_error e)"
    using assms(2) by (simp add: find_change clear_error_def)
  ultimately have "find_event i j (fst (snd ?r)) = Some (clear_error e)"
    using assms by (simp add: retry_memory_webhook_event_def Let_def known)
  moreover have "we_delivered (clear_error e)" using assms(3) by (simp add: clear_error_def)
  ultimately have "deliver_memory_webhook_event sv cfg env meanwhile i j (fst (snd ?r)) = (fst (snd ?r), [])"
    by (simp add: deliver_memory_webhook_event_def split: option.split)
  then show ?thesis using assms by (simp add: retry_memory_webhook_event_def Let_def known)
qed

definition sample_request_env :: request_env where
  "sample_request_env = \<lparr>rq_policy_now = 0, rq_now = 1, rq_id = 9, rq_audit_id = 10, rq_audit_now = 2\<rparr>"

lemma forced_retry_sends_nothing_witness:
  "case retry_memory_webhook_event (ds_show_uuid sample_services) sample_config sample_request_env None 1 7 (Some True) (sample_webhooks True) of
     (r, st', spawned) \<Rightarrow> \<not> isl r \<and> rr_queued (projr r) \<and> spawned = [(1, 7)] \<and>
       deliver_memory_webhook_event sample_services sample_config sample_env (\<lambda>_ s. s) 1 7 st' = (st', [])"
proof (rule forced_retry_sends_nothing [where e = "sample_hook_event True"])
  show "find_event 1 7 (sample_webhooks True) = Some (sample_hook_event True)"
    by (simp add: find_event_def rows_of_def bt_get_or_def sample_webhooks_def sample_hook_event_def new_webhook_event_def)
qed (simp_all add: sample_webhooks_def sample_hook_event_def)

end
