(* ===== verification/Memory_Write.thy ===== *)
theory Memory_Write
  imports Webhook_Delivery Guardrails Read_Path
begin

text \<open>
  The write path of \<^verbatim>\<open>mnemo-server/src/routes.rs\<close>: remembering a text, adding one episode or a
  batch to a session, the messages of a session, and the choice of the session a memory request refers to. The state puts
  together the stores the handlers use. A handler that may loop over pages returns an option, \<open>None\<close> for a
  loop that does not end; handlers that emit an event also return the deliveries they spawn.
\<close>

section \<open>State and request data\<close>

record memory_state =
  mm_episodes :: episode_store
  mm_webhooks :: webhook_state
  mm_guardrails :: guardrail_store

abbreviation mm_sessions :: "memory_state \<Rightarrow> session_store" where
  "mm_sessions st \<equiv> ep_base (mm_episodes st)"

abbreviation mm_users :: "memory_state \<Rightarrow> user_store" where
  "mm_users st \<equiv> ss_users (mm_sessions st)"

definition set_sessions :: "session_store \<Rightarrow> memory_state \<Rightarrow> memory_state" where
  "set_sessions ss st = st\<lparr>mm_episodes := (mm_episodes st)\<lparr>ep_base := ss\<rparr>\<rparr>"

definition set_users :: "user_store \<Rightarrow> memory_state \<Rightarrow> memory_state" where
  "set_users us st = set_sessions ((mm_sessions st)\<lparr>ss_users := us\<rparr>) st"

text \<open>The entry of a key is replaced, or a new one added.\<close>

fun json_put :: "string \<Rightarrow> json \<Rightarrow> (string \<times> json) list \<Rightarrow> (string \<times> json) list" where
  "json_put k v [] = [(k, v)]"
| "json_put k v ((k', v') # m) = (if k = k' then (k, v) # m else (k', v') # json_put k v m)"

definition metadata_with_request_id :: "json \<Rightarrow> string option \<Rightarrow> json" where
  "metadata_with_request_id metadata request_id =
     (case request_id of
        None \<Rightarrow> metadata
      | Some r \<Rightarrow>
        (case metadata of
           JObject m \<Rightarrow> JObject (json_put ''request_id'' (JString r) m)
         | _ \<Rightarrow> JObject [(''request_id'', JString r), (''_raw_metadata'', metadata)]))"

text \<open>Clock readings and fresh identifiers of one write.\<close>

record write_env =
  wn_user_id :: uuid
  wn_user_now :: timestamp
  wn_session_id :: uuid
  wn_session_now :: timestamp
  wn_policy_now :: timestamp
  wn_retention_now :: timestamp
  wn_episode_id :: uuid
  wn_episode_now :: timestamp
  wn_activity_now :: timestamp
  wn_updated_now :: timestamp
  wn_event_ids :: "nat \<Rightarrow> uuid"
  wn_event_now :: timestamp

section \<open>The user and the session of a request\<close>

definition memory_user_request :: "string \<Rightarrow> create_user_request" where
  "memory_user_request ident =
     \<lparr>cu_id = None, cu_external_id = Some ident, cu_name = ident, cu_email = None, cu_metadata = JObject []\<rparr>"

definition find_or_create_memory_user ::
  "(uuid \<Rightarrow> string) \<Rightarrow> (string \<Rightarrow> uuid option) \<Rightarrow> uuid \<Rightarrow> timestamp \<Rightarrow> string \<Rightarrow> user_store \<Rightarrow>
   ((mnemo_error + user) \<times> user_store) option" where
  "find_or_create_memory_user show_uuid parse_uuid new_id now ident us =
     (case find_user_by_identifier parse_uuid ident us of
        None \<Rightarrow> None
      | Some (Inr u) \<Rightarrow> Some (Inr u, us)
      | Some (Inl e) \<Rightarrow>
        if is_user_not_found e then
          (case create_user show_uuid (memory_user_request ident) new_id now us of
             (Inr u, us') \<Rightarrow> Some (Inr u, us')
           | (Inl (Duplicate x), us') \<Rightarrow> map_option (\<lambda>r. (r, us')) (find_user_by_identifier parse_uuid ident us')
           | (Inl e', us') \<Rightarrow> Some (Inl e', us'))
        else Some (Inl e, us))"

definition head_time :: "session \<Rightarrow> timestamp" where
  "head_time s =
     (case s_head_updated_at s of
        Some t \<Rightarrow> t
      | None \<Rightarrow> (case s_last_activity_at s of Some t \<Rightarrow> t | None \<Rightarrow> s_updated_at s))"

definition compare_head_candidate :: "session \<Rightarrow> session \<Rightarrow> ordering" where
  "compare_head_candidate a b =
     (case compare (head_time a) (head_time b) of
        Equal \<Rightarrow> (case compare (s_head_version a) (s_head_version b) of
            Equal \<Rightarrow> compare (s_id a) (s_id b)
          | other \<Rightarrow> other)
      | other \<Rightarrow> other)"

definition better_head :: "session \<Rightarrow> session option \<Rightarrow> session option" where
  "better_head s best =
     (case best of
        Some b \<Rightarrow> if compare_head_candidate s b = Greater then Some s else best
      | None \<Rightarrow> Some s)"

text \<open>A walk that keeps a value, until a page is empty or not full.\<close>

partial_function (option) fold_pages ::
  "('m option \<Rightarrow> 'd list) \<Rightarrow> ('d \<Rightarrow> 'm) \<Rightarrow> nat \<Rightarrow> ('d \<Rightarrow> 'a \<Rightarrow> 'a) \<Rightarrow> 'm option \<Rightarrow> 'a \<Rightarrow> 'a option" where
  "fold_pages page ident limit f after acc =
     (let items = page after in
      if items = [] then Some acc
      else
        let acc' = fold f items acc in
        if length items < limit then Some acc'
        else fold_pages page ident limit f (Some (ident (last items))) acc')"

definition find_head_session_for_user :: "uuid \<Rightarrow> session_store \<Rightarrow> session option option" where
  "find_head_session_for_user u st = fold_pages (list_sessions u st 200) s_id 200 better_head None None"

definition resolve_session_scope ::
  "(uuid \<Rightarrow> string) \<Rightarrow> uuid \<Rightarrow> memory_context_mode \<Rightarrow> string option \<Rightarrow> session_store \<Rightarrow> (mnemo_error + session option) option" where
  "resolve_session_scope show_uuid u mode name st =
     (case name of
        Some n \<Rightarrow>
          (case find_session_by_name show_uuid u n st of
             None \<Rightarrow> None
           | Some (Inl e) \<Rightarrow> Some (Inl e)
           | Some (Inr s) \<Rightarrow> Some (Inr (Some s)))
      | None \<Rightarrow>
        if mode = CmHead then map_option Inr (find_head_session_for_user u st) else Some (Inr None))"

section \<open>Storing episodes\<close>

definition sat_add_u64 :: "u64 \<Rightarrow> u64 \<Rightarrow> u64" where
  "sat_add_u64 a b = (if uint a + uint b < 2 ^ 64 then a + b else - 1)"

definition head_payload :: "(uuid \<Rightarrow> string) \<Rightarrow> session \<Rightarrow> uuid \<Rightarrow> u64 \<Rightarrow> json" where
  "head_payload show_uuid s head_episode added = JObject
     [(''session_id'', JString (show_uuid (s_id s))), (''session_name'', opt_json JString (s_name s)),
      (''head_episode_id'', JString (show_uuid head_episode)),
      (''head_version'', JNumber (nat_to_string (unat (sat_add_u64 (s_head_version s) added))))]"

definition emit_event ::
  "webhook_delivery_config \<Rightarrow> write_env \<Rightarrow> uuid \<Rightarrow> string option \<Rightarrow> json \<Rightarrow> memory_state \<Rightarrow> (uuid \<times> uuid) list \<times> memory_state" where
  "emit_event cfg env user_id request_id payload st =
     (case emit_memory_webhook_event cfg (wn_event_ids env) (wn_event_now env) user_id WeHeadAdvanced request_id payload
         (mm_webhooks st) of
        (spawned, ws) \<Rightarrow> (spawned, st\<lparr>mm_webhooks := ws\<rparr>))"

definition store_episode ::
  "(uuid \<Rightarrow> string) \<Rightarrow> write_env \<Rightarrow> create_episode_request \<Rightarrow> uuid \<Rightarrow> uuid \<Rightarrow> string option \<Rightarrow> memory_state \<Rightarrow>
   (mnemo_error + episode) \<times> memory_state" where
  "store_episode show_uuid env req session_id user_id agent_id st =
     (case create_episode show_uuid req session_id user_id agent_id (wn_episode_id env) (wn_episode_now env)
         (wn_activity_now env) (wn_updated_now env) (mm_episodes st) of
        (r, eps) \<Rightarrow> (r, st\<lparr>mm_episodes := eps\<rparr>))"

record remember_request =
  rm_user :: string
  rm_text :: string
  rm_session :: "string option"
  rm_role :: "message_role option"

definition nonempty_trim :: "string option \<Rightarrow> string option" where
  "nonempty_trim s = (case s of None \<Rightarrow> None | Some x \<Rightarrow> if trim x = [] then None else Some (trim x))"

definition named_or :: "string \<Rightarrow> string option \<Rightarrow> string" where
  "named_or d s = (case s of Some x \<Rightarrow> x | None \<Rightarrow> d)"

definition remember_memory ::
  "(uuid \<Rightarrow> string) \<Rightarrow> (string \<Rightarrow> uuid option) \<Rightarrow> webhook_delivery_config \<Rightarrow> write_env \<Rightarrow> string option \<Rightarrow> remember_request \<Rightarrow>
   memory_state \<Rightarrow> ((mnemo_error + episode) \<times> (uuid \<times> uuid) list \<times> memory_state) option" where
  "remember_memory show_uuid parse_uuid cfg env request_id req st =
     (if trim (rm_user req) = [] then Some (Inl (Validation ''user is required''), [], st)
      else if trim (rm_text req) = [] then Some (Inl (Validation ''text is required''), [], st)
      else case find_or_create_memory_user show_uuid parse_uuid (wn_user_id env) (wn_user_now env) (trim (rm_user req)) (mm_users st) of
        None \<Rightarrow> None
      | Some (Inl e, us) \<Rightarrow> Some (Inl e, [], set_users us st)
      | Some (Inr u, us) \<Rightarrow>
        let st1 = set_users us st; name = named_or ''default'' (nonempty_trim (rm_session req)) in
        (case find_or_create_session show_uuid (u_id u) name (wn_session_id env) (wn_session_now env) (mm_sessions st1) of
           None \<Rightarrow> None
         | Some (Inl e, ss) \<Rightarrow> Some (Inl e, [], set_sessions ss st1)
         | Some (Inr s, ss) \<Rightarrow>
           let st2 = set_sessions ss st1;
               ereq = \<lparr>ce_id = None, ce_type = EtMessage, ce_content = rm_text req,
                 ce_role = Some (case rm_role req of Some r \<Rightarrow> r | None \<Rightarrow> MrUser), ce_name = Some (u_name u), ce_agent_id = None,
                 ce_metadata = metadata_with_request_id (JObject []) request_id, ce_created_at = None, ce_modality = MText\<rparr>
           in (case store_episode show_uuid env ereq (s_id s) (u_id u) None st2 of
                 (Inl e, st3) \<Rightarrow> Some (Inl e, [], st3)
               | (Inr ep, st3) \<Rightarrow>
                 (case emit_event cfg env (u_id u) request_id (head_payload show_uuid s (e_id ep) 1) st3 of
                    (spawned, st4) \<Rightarrow> Some (Inr ep, spawned, st4)))))"

section \<open>Adding episodes to a session\<close>

definition session_policy ::
  "(uuid \<Rightarrow> string) \<Rightarrow> webhook_delivery_config \<Rightarrow> write_env \<Rightarrow> session \<Rightarrow> memory_state \<Rightarrow> user_policy_record \<times> memory_state" where
  "session_policy show_uuid cfg env s st =
     (case webhook_user_policy cfg (s_user_id s) (show_uuid (s_user_id s)) (wn_policy_now env) (mm_webhooks st) of
        (p, ws) \<Rightarrow> (p, st\<lparr>mm_webhooks := ws\<rparr>))"

definition agent_allowed :: "caller_context \<Rightarrow> string option \<Rightarrow> mnemo_error + unit" where
  "agent_allowed caller agent_id = (case agent_id of Some a \<Rightarrow> require_agent_access caller a | None \<Rightarrow> Inr ())"

text \<open>The verdict of the rules for a text that is written; no rules, no block.\<close>

definition ingest_block ::
  "(string \<Rightarrow> string \<Rightarrow> bool option) \<Rightarrow> caller_context \<Rightarrow> uuid \<Rightarrow> string option \<Rightarrow> string \<Rightarrow> guardrail_store \<Rightarrow> mnemo_error option" where
  "ingest_block rx_match caller user_id agent_id content gs =
     (let rules = list_guardrails_for_user user_id agent_id gs in
      if rules = [] then None
      else
        let ctx = eval_context_default\<lparr>ec_content := Some content, ec_caller_role := Some (caller_role caller),
              ec_user_id := Some user_id, ec_agent_id := agent_id\<rparr>;
            verdict = evaluate_rules rx_match rules OnIngest ctx
        in if gv_blocked verdict
           then Some (Validation (''Guardrail blocked: '' @
                  (case block_reason verdict of Some r \<Rightarrow> r | None \<Rightarrow> ''policy violation'')))
           else None)"

definition add_episode ::
  "(string \<Rightarrow> string \<Rightarrow> bool option) \<Rightarrow> (uuid \<Rightarrow> string) \<Rightarrow> webhook_delivery_config \<Rightarrow> write_env \<Rightarrow> string option \<Rightarrow>
   caller_context option \<Rightarrow> string option \<Rightarrow> uuid \<Rightarrow> create_episode_request \<Rightarrow> memory_state \<Rightarrow>
   (mnemo_error + episode) \<times> (uuid \<times> uuid) list \<times> memory_state" where
  "add_episode rx_match show_uuid cfg env request_id ext header session_id req st =
     (let caller = caller_from_extension ext;
          agent_id = (case ce_agent_id req of Some a \<Rightarrow> Some a | None \<Rightarrow> nonempty_trim header)
      in case agent_allowed caller agent_id of
        Inl e \<Rightarrow> (Inl e, [], st)
      | Inr _ \<Rightarrow>
        (case get_session session_id (mm_sessions st) of
           Inl e \<Rightarrow> (Inl e, [], st)
         | Inr s \<Rightarrow>
           (case session_policy show_uuid cfg env s st of
              (policy, st1) \<Rightarrow>
                (case validate_episode_retention (wn_retention_now env) policy req of
                   Inl e \<Rightarrow> (Inl e, [], st1)
                 | Inr _ \<Rightarrow>
                   (case ingest_block rx_match caller (s_user_id s) agent_id (ce_content req) (mm_guardrails st1) of
                      Some e \<Rightarrow> (Inl e, [], st1)
                    | None \<Rightarrow>
                      let req' = req\<lparr>ce_metadata := metadata_with_request_id (ce_metadata req) request_id\<rparr> in
                      (case store_episode show_uuid env req' session_id (s_user_id s) agent_id st1 of
                         (Inl e, st2) \<Rightarrow> (Inl e, [], st2)
                       | (Inr ep, st2) \<Rightarrow>
                         (case emit_event cfg env (s_user_id s) request_id (head_payload show_uuid s (e_id ep) 1) st2 of
                            (spawned, st3) \<Rightarrow> (Inr ep, spawned, st3))))))))"

text \<open>The checks of a batch, in the order of its episodes; \<open>show_error\<close> is the text of an error.\<close>

fun check_batch ::
  "(mnemo_error \<Rightarrow> string) \<Rightarrow> caller_context \<Rightarrow> (nat \<Rightarrow> timestamp) \<Rightarrow> user_policy_record \<Rightarrow> string option \<Rightarrow> nat \<Rightarrow>
   create_episode_request list \<Rightarrow> mnemo_error + unit" where
  "check_batch show_error caller now policy header idx [] = Inr ()"
| "check_batch show_error caller now policy header idx (ep # eps) =
     (case validate_episode_retention (now idx) policy ep of
        Inl e \<Rightarrow> Inl (Validation (''episodes['' @ nat_to_string idx @ ''] failed retention check: '' @ show_error e))
      | Inr _ \<Rightarrow>
        (case (case ce_agent_id ep of
                 Some a \<Rightarrow> if header \<noteq> Some a then require_agent_access caller a else Inr ()
               | None \<Rightarrow> Inr ()) of
           Inl e \<Rightarrow> Inl e
         | Inr _ \<Rightarrow> check_batch show_error caller now policy header (Suc idx) eps))"

definition batch_request :: "string option \<Rightarrow> string option \<Rightarrow> create_episode_request \<Rightarrow> create_episode_request" where
  "batch_request request_id header ep =
     ep\<lparr>ce_metadata := metadata_with_request_id (ce_metadata ep) request_id,
        ce_agent_id := (case ce_agent_id ep of Some a \<Rightarrow> Some a | None \<Rightarrow> header)\<rparr>"

text \<open>\<open>inputs k\<close> holds the identifier and the three clock readings of the \<open>k\<close>-th episode.\<close>

definition add_episodes_batch ::
  "(mnemo_error \<Rightarrow> string) \<Rightarrow> (uuid \<Rightarrow> string) \<Rightarrow> webhook_delivery_config \<Rightarrow> write_env \<Rightarrow> (nat \<Rightarrow> timestamp) \<Rightarrow>
   (nat \<Rightarrow> uuid \<times> timestamp \<times> timestamp \<times> timestamp) \<Rightarrow> string option \<Rightarrow> caller_context option \<Rightarrow> string option \<Rightarrow> uuid \<Rightarrow>
   create_episode_request list \<Rightarrow> memory_state \<Rightarrow> (mnemo_error + episode list) \<times> (uuid \<times> uuid) list \<times> memory_state" where
  "add_episodes_batch show_error show_uuid cfg env retention_now inputs request_id ext header session_id reqs st =
     (let caller = caller_from_extension ext; header_agent = nonempty_trim header in
      case agent_allowed caller header_agent of
        Inl e \<Rightarrow> (Inl e, [], st)
      | Inr _ \<Rightarrow>
        (case get_session session_id (mm_sessions st) of
           Inl e \<Rightarrow> (Inl e, [], st)
         | Inr s \<Rightarrow>
           (case session_policy show_uuid cfg env s st of
              (policy, st1) \<Rightarrow>
                (case check_batch show_error caller retention_now policy header_agent 0 reqs of
                   Inl e \<Rightarrow> (Inl e, [], st1)
                 | Inr _ \<Rightarrow>
                   (case create_episodes_batch show_uuid session_id (s_user_id s) None
                       (map (\<lambda>(k, r). (batch_request request_id header_agent r, inputs k)) (zip [0..<length reqs] reqs))
                       (mm_episodes st1) of
                      (Inl e, eps) \<Rightarrow> (Inl e, [], st1\<lparr>mm_episodes := eps\<rparr>)
                    | (Inr es, eps) \<Rightarrow>
                      let st2 = st1\<lparr>mm_episodes := eps\<rparr> in
                      if es = [] then (Inr es, [], st2)
                      else (case emit_event cfg env (s_user_id s) request_id
                               (head_payload show_uuid s (e_id (last es)) (of_nat (length es))) st2 of
                              (spawned, st3) \<Rightarrow> (Inr es, spawned, st3)))))))"

section \<open>Messages of a session\<close>

record message_record =
  ms_idx :: nat
  ms_id :: uuid
  ms_role :: "string option"
  ms_content :: string
  ms_created_at :: timestamp

definition role_text :: "message_role \<Rightarrow> string" where
  "role_text r = (case r of MrUser \<Rightarrow> ''user'' | MrAssistant \<Rightarrow> ''assistant'' | MrSystem \<Rightarrow> ''system'' | MrTool \<Rightarrow> ''tool'')"

definition get_session_messages :: "uuid \<Rightarrow> u32 \<Rightarrow> uuid option \<Rightarrow> episode_store \<Rightarrow> message_record list" where
  "get_session_messages session_id limit after st =
     (let effective = (if limit = 20 then 100 else limit);
          es = rev (list_episodes session_id None st (max 1 (min 1000 (unat effective))) after)
      in map (\<lambda>(k, e). \<lparr>ms_idx = k, ms_id = e_id e, ms_role = map_option role_text (e_role e),
               ms_content = e_content e, ms_created_at = e_created_at e\<rparr>) (zip [0..<length es] es))"

definition delete_session_messages :: "uuid \<Rightarrow> episode_store \<Rightarrow> (mnemo_error + u32) \<times> episode_store" where
  "delete_session_messages session_id st =
     (case get_session session_id (ep_base st) of
        Inl e \<Rightarrow> (Inl e, st)
      | Inr _ \<Rightarrow> (case delete_session_episodes session_id st of (n, st') \<Rightarrow> (Inr n, st')))"

definition delete_session_message_by_idx :: "uuid \<Rightarrow> nat \<Rightarrow> episode_store \<Rightarrow> (mnemo_error + unit) \<times> episode_store" where
  "delete_session_message_by_idx session_id idx st =
     (let es = rev (list_episodes session_id None st 10000 None) in
      if length es \<le> idx then
        (Inl (Validation (''Index '' @ nat_to_string idx @ '' out of range '' @ [CHR 0xE2, CHR 0x80, CHR 0x94] @ '' session has '' @
           nat_to_string (length es) @ '' messages'')), st)
      else delete_episode (e_id (es ! idx)) st)"

section \<open>The walk over pages\<close>

context page_source
begin

lemma fold_from_total:
  "invar s \<Longrightarrow> 0 < n \<Longrightarrow> d \<in> set (items s) \<Longrightarrow>
   \<exists>r. fold_pages (page s n) ident lmt f (Some (ident d)) acc = Some r"
proof (induction "card {e \<in> set (items s). score e < score d}" arbitrary: d acc rule: less_induct)
  case less
  let ?p = "page s n (Some (ident d))"
  show ?case
  proof (cases "?p = []")
    case False
    note shrink = below_shrinks [OF less.prems(1,3) refl False less.prems(2)]
    have "\<exists>r. fold_pages (page s n) ident lmt f (Some (ident (last ?p))) (fold f ?p acc) = Some r"
      by (rule less.hyps [OF shrink(2) less.prems(1,2) shrink(1)])
    with False show ?thesis by (subst fold_pages.simps) (auto simp: Let_def)
  qed (subst fold_pages.simps, simp)
qed

lemma fold_total:
  assumes "invar s" and "0 < n"
  shows "\<exists>r. fold_pages (page s n) ident lmt f None acc = Some r"
proof (cases "page s n None = []")
  case False
  then have "last (page s n None) \<in> set (items s)" using assms page_items by (metis last_in_set subsetD)
  then have "\<exists>r. fold_pages (page s n) ident lmt f (Some (ident (last (page s n None)))) (fold f (page s n None) acc) = Some r"
    by (rule fold_from_total [OF assms])
  with False show ?thesis by (subst fold_pages.simps) (auto simp: Let_def)
qed (subst fold_pages.simps, simp)

lemma fold_step_exact:
  assumes "invar s" and "distinct (map score (items s))" and "0 < n" and "items s = xs @ ys" and "page s n after = take n ys"
  shows "fold_pages (page s n) ident n f after acc = Some (fold f ys acc)"
  using assms(4,5)
proof (induction "length ys" arbitrary: xs ys after acc rule: less_induct)
  case less
  show ?case
  proof (cases "ys = []")
    case False
    obtain us where us: "take n ys = us @ [last (take n ys)]" "ys = us @ last (take n ys) # drop n ys"
      using last_take_split [OF False assms(3)] by blast
    have split: "items s = (xs @ us) @ last (take n ys) # drop n ys" using less.prems(1) us(2) by simp
    have next_page: "page s n (Some (ident (last (take n ys)))) = take n (drop n ys)"
      by (rule page_tail [OF assms(1,2) split])
    have IH: "fold_pages (page s n) ident n f (Some (ident (last (take n ys)))) (fold f (take n ys) acc) =
        Some (fold f (drop n ys) (fold f (take n ys) acc))"
      using False assms(3) split next_page by (intro less.hyps [where xs = "xs @ us @ [last (take n ys)]"]) simp_all
    have total: "fold f ys acc = fold f (drop n ys) (fold f (take n ys) acc)"
      using fold_append [of f "take n ys" "drop n ys"] by (simp add: comp_def)
    have step: "fold_pages (page s n) ident n f after acc =
        (if length (take n ys) < n then Some (fold f (take n ys) acc)
         else fold_pages (page s n) ident n f (Some (ident (last (take n ys)))) (fold f (take n ys) acc))"
      using False assms(3) by (subst fold_pages.simps) (simp add: less.prems(2) Let_def)
    show ?thesis
    proof (cases "length (take n ys) < n")
      case True
      then have "take n ys = ys" by simp
      then show ?thesis unfolding step if_P [OF True] by (rule arg_cong)
    next
      case False
      show ?thesis unfolding step if_not_P [OF False] IH total by (rule refl)
    qed
  next
    case True
    with less.prems(2) show ?thesis by (subst fold_pages.simps) simp
  qed
qed

lemma fold_exact:
  "invar s \<Longrightarrow> distinct (map score (items s)) \<Longrightarrow> 0 < n \<Longrightarrow>
   fold_pages (page s n) ident n f None acc = Some (fold f (items s) acc)"
  by (rule fold_step_exact [where xs = "[]"]) (simp_all add: page_head)

end

text \<open>The order of head candidates is that of time, version and identifier.\<close>

definition head_less :: "session \<Rightarrow> session \<Rightarrow> bool" where
  "head_less a b \<longleftrightarrow> head_time a < head_time b \<or> head_time a = head_time b \<and>
     (s_head_version a < s_head_version b \<or> s_head_version a = s_head_version b \<and> s_id a < s_id b)"

lemma compare_head_iff: "compare_head_candidate a b = Greater \<longleftrightarrow> head_less b a"
proof -
  have *: "(case compare x y of Equal \<Rightarrow> r | other \<Rightarrow> other) = Greater \<longleftrightarrow> y < x \<or> x = y \<and> r = Greater"
    for x y :: "'a :: linorder" and r
    by (cases rule: linorder_cases [of x y]) (auto simp: compare_def)
  show ?thesis unfolding compare_head_candidate_def * head_less_def by auto
qed

lemma not_head_less:
  "\<not> head_less a b \<longleftrightarrow> head_time b < head_time a \<or> head_time a = head_time b \<and>
     (s_head_version b < s_head_version a \<or> s_head_version a = s_head_version b \<and> s_id b \<le> s_id a)"
  by (auto simp: head_less_def not_less le_less)

lemma lexicographic_trans:
  fixes a b c :: "'a :: linorder"
  assumes "b < a \<or> a = b \<and> Q" and "c < b \<or> b = c \<and> R" and "Q \<Longrightarrow> R \<Longrightarrow> S"
  shows "c < a \<or> a = c \<and> S"
  using assms less_trans [of c b a] by blast

lemma not_head_less_trans:
  assumes "\<not> head_less s m" and "\<not> head_less m x"
  shows "\<not> head_less s x"
  unfolding not_head_less
proof (rule lexicographic_trans [OF assms [unfolded not_head_less]])
  assume a: "s_head_version m < s_head_version s \<or> s_head_version s = s_head_version m \<and> s_id m \<le> s_id s"
    and b: "s_head_version x < s_head_version m \<or> s_head_version m = s_head_version x \<and> s_id x \<le> s_id m"
  show "s_head_version x < s_head_version s \<or> s_head_version s = s_head_version x \<and> s_id x \<le> s_id s"
    by (rule lexicographic_trans [OF a b]) (rule order_trans)
qed

lemma head_less_asym: "head_less a b \<Longrightarrow> \<not> head_less b a"
  by (auto simp: head_less_def)

lemma fold_better_head:
  "\<exists>s. fold better_head xs (Some b) = Some s \<and> s \<in> set (b # xs) \<and> (\<forall>x \<in> set (b # xs). \<not> head_less s x)"
proof (induction xs arbitrary: b)
  case (Cons x xs)
  have refl: "\<not> head_less y y" for y by (simp add: head_less_def)
  obtain m where m: "better_head x (Some b) = Some m" "m = x \<or> m = b" "\<not> head_less m x" "\<not> head_less m b"
  proof (cases "head_less b x")
    case True
    with refl show ?thesis by (intro that [of x]) (simp_all add: better_head_def compare_head_iff head_less_asym)
  next
    case False
    with refl show ?thesis by (intro that [of b]) (simp_all add: better_head_def compare_head_iff)
  qed
  from Cons.IH [of m] obtain s where "fold better_head xs (Some m) = Some s" "s \<in> set (m # xs)"
    "\<forall>y \<in> set (m # xs). \<not> head_less s y" by blast
  then show ?case using m not_head_less_trans [of s m] by auto
qed (auto simp: head_less_def)

section \<open>Lemmas on the write path\<close>

definition memory_ok :: "memory_state \<Rightarrow> bool" where
  "memory_ok st \<longleftrightarrow> episodes_ok (mm_episodes st)"

lemma memory_user_spec:
  assumes ok: "users_ok us"
  obtains r us' where "find_or_create_memory_user show_uuid parse_uuid i now ident us = Some (r, us')" "users_ok us'"
    "\<And>u. r = Inr u \<Longrightarrow> map_of (us_users us') (u_id u) = Some u"
    "\<And>j u. map_of (us_users us) j = Some u \<Longrightarrow> map_of (us_users us') j = Some u"
proof -
  from find_user_terminates [OF ok, of parse_uuid ident] obtain r0 where
    r0: "find_user_by_identifier parse_uuid ident us = Some r0" "\<forall>u. r0 = Inr u \<longrightarrow> map_of (us_users us) (u_id u) = Some u"
    by (elim exE conjE) (rule that, assumption, simp)
  let ?c = "create_user show_uuid (memory_user_request ident) i now us"
  show ?thesis
  proof (cases "\<exists>e. r0 = Inl e \<and> is_user_not_found e \<and> map_of (us_users us) i = None")
    case True
    then obtain u where u: "?c = (Inr u, snd ?c)" "u_id u = i" "us_users (snd ?c) = bt_insert i u (us_users us)"
      by (auto simp: create_user_def Let_def user_from_request_def memory_user_request_def)
    have "find_or_create_memory_user show_uuid parse_uuid i now ident us = Some (Inr u, snd ?c)"
      using True r0(1) u(1) by (auto simp: find_or_create_memory_user_def split: prod.splits)
    then show ?thesis
      using u True users_ok_create [OF ok] by (intro that [of "Inr u" "snd ?c"]) (auto simp: map_of_bt_insert)
  next
    case False
    have "find_or_create_memory_user show_uuid parse_uuid i now ident us = Some (r0, us)"
    proof (cases r0)
      case (Inr u)
      then show ?thesis using r0(1) by (simp add: find_or_create_memory_user_def)
    next
      case (Inl e)
      show ?thesis
      proof (cases "is_user_not_found e")
        case nf: True
        with False Inl have "map_of (us_users us) i \<noteq> None" by simp
        then have "\<exists>x. ?c = (Inl (Duplicate x), us)"
          by (auto simp: create_user_def Let_def user_from_request_def memory_user_request_def)
        then show ?thesis using r0(1) Inl nf by (auto simp: find_or_create_memory_user_def)
      qed (use r0(1) Inl in \<open>simp add: find_or_create_memory_user_def\<close>)
    qed
    then show ?thesis using ok r0(2) by (intro that [of r0 us]) simp_all
  qed
qed

lemma sessions_ok_users: "sessions_ok ss \<Longrightarrow> users_ok us \<Longrightarrow> sessions_ok (ss\<lparr>ss_users := us\<rparr>)"
  by (simp add: sessions_ok_def)

lemma emit_event_fields:
  "emit_event cfg env u rid payload st = (spawned, st') \<Longrightarrow> mm_episodes st' = mm_episodes st \<and> mm_guardrails st' = mm_guardrails st"
  by (auto simp: emit_event_def split: prod.splits)

text \<open>Storing an episode in a session that exists, and the event for it.\<close>

lemma store_and_emit:
  assumes "get_session i (mm_sessions st) = Inr s"
  obtains ep st1 spawned st2 where "store_episode show_uuid env req i u a st = (Inr ep, st1)"
    "emit_event cfg env u rid (head_payload show_uuid s (e_id ep) 1) st1 = (spawned, st2)"
    "ep = episode_from_request req i u a (wn_episode_id env) (wn_episode_now env)"
    "map_of (ep_episodes (mm_episodes st2)) = (map_of (ep_episodes (mm_episodes st)))(e_id ep \<mapsto> ep)"
    "get_session i (mm_sessions st2) = Inr (record_episode s (e_id ep) (e_created_at ep) (wn_activity_now env) (wn_updated_now env))"
    "us_users (mm_users st2) = us_users (mm_users st)"
proof -
  obtain ep st1 where ep: "store_episode show_uuid env req i u a st = (Inr ep, st1)"
    "ep = episode_from_request req i u a (wn_episode_id env) (wn_episode_now env)"
    "map_of (ep_episodes (mm_episodes st1)) = (map_of (ep_episodes (mm_episodes st)))(e_id ep \<mapsto> ep)"
    "get_session i (mm_sessions st1) = Inr (record_episode s (e_id ep) (e_created_at ep) (wn_activity_now env) (wn_updated_now env))"
    "us_users (mm_users st1) = us_users (mm_users st)"
    using assms by (auto simp: store_episode_def create_episode_def Let_def get_session_def map_of_bt_insert split: option.splits prod.splits)
  obtain spawned st2 where em: "emit_event cfg env u rid (head_payload show_uuid s (e_id ep) 1) st1 = (spawned, st2)"
    by (cases "emit_event cfg env u rid (head_payload show_uuid s (e_id ep) 1) st1")
  show thesis using that [OF ep(1) em ep(2)] ep(3-5) emit_event_fields [OF em] by simp
qed

lemma session_policy_fields:
  "session_policy show_uuid cfg env s st = (p, st') \<Longrightarrow> mm_episodes st' = mm_episodes st \<and> mm_guardrails st' = mm_guardrails st"
  by (auto simp: session_policy_def split: prod.splits)

section \<open>Properties\<close>

text \<open>The search for the head session always ends, and when no two sessions of the user were created in the same
  millisecond it answers a session that no other session of the user exceeds in the order of head time,
  head version and identifier; it answers none exactly when the user has no session.\<close>

theorem head_session_latest:
  assumes "sessions_ok st"
  shows "\<exists>r. find_head_session_for_user u st = Some r \<and>
    (distinct (map session_score (user_sessions u st)) \<longrightarrow>
      (case r of
         None \<Rightarrow> \<forall>s \<in> ran (map_of (ss_sessions st)). s_user_id s \<noteq> u
       | Some s \<Rightarrow> map_of (ss_sessions st) (s_id s) = Some s \<and> s_user_id s = u \<and>
           (\<forall>x \<in> ran (map_of (ss_sessions st)). s_user_id x = u \<longrightarrow> \<not> head_less s x)))"
proof -
  have inv: "case (u, st) of (u, st) \<Rightarrow> sessions_ok st" using assms by simp
  obtain r where r: "find_head_session_for_user u st = Some r"
    using session_pages.fold_total [OF inv, of 200 200 better_head None] by (auto simp: find_head_session_for_user_def)
  note mem = set_user_sessions [OF assms, of u]
  show ?thesis
  proof (intro exI [of _ r] conjI impI r)
    assume "distinct (map session_score (user_sessions u st))"
    then have r_eq: "r = fold better_head (user_sessions u st) None"
      using session_pages.fold_exact [OF inv, of 200 better_head None] r by (simp add: find_head_session_for_user_def)
    show "case r of
         None \<Rightarrow> \<forall>s \<in> ran (map_of (ss_sessions st)). s_user_id s \<noteq> u
       | Some s \<Rightarrow> map_of (ss_sessions st) (s_id s) = Some s \<and> s_user_id s = u \<and>
           (\<forall>x \<in> ran (map_of (ss_sessions st)). s_user_id x = u \<longrightarrow> \<not> head_less s x)"
    proof (cases "user_sessions u st")
      case Nil
      with mem r_eq show ?thesis by auto
    next
      case (Cons b xs)
      then obtain s where s: "r = Some s" "s \<in> set (user_sessions u st)" "\<forall>x \<in> set (user_sessions u st). \<not> head_less s x"
        using fold_better_head [of xs b] r_eq by (auto simp: better_head_def)
      then show ?thesis using mem sessions_okD(5) [OF assms] by (auto simp: ran_def)
    qed
  qed
qed

lemma head_session_latest_witness: "\<exists>r. find_head_session_for_user 1 (session_store_new user_store_new) = Some r"
  using head_session_latest [OF sessions_ok_new [OF users_ok_new], of 1] by blast

text \<open>C27: Remembering a text for a user ends and, unless it answers an error, has stored an episode with exactly this text
  and role, which is the head of a session that has the requested name (or \<open>default\<close>) up to ASCII case and belongs to the
  user of the episode; this user is stored, newly created when the identifier was unknown, and no other episode is changed.\<close>

theorem remember_memory_stores:
  assumes "memory_ok st" and "trim (rm_user req) \<noteq> []" and "trim (rm_text req) \<noteq> []"
  shows "\<exists>r spawned st'. remember_memory show_uuid parse_uuid cfg env rid req st = Some (r, spawned, st') \<and>
    (\<forall>ep. r = Inr ep \<longrightarrow>
      map_of (ep_episodes (mm_episodes st')) = (map_of (ep_episodes (mm_episodes st)))(e_id ep \<mapsto> ep) \<and>
      e_content ep = rm_text req \<and> e_status ep = PsPending \<and>
      e_role ep = Some (case rm_role req of Some x \<Rightarrow> x | None \<Rightarrow> MrUser) \<and>
      map_of (us_users (mm_users st')) (e_user_id ep) \<noteq> None \<and>
      (\<exists>s. get_session (e_session_id ep) (mm_sessions st') = Inr s \<and> s_user_id s = e_user_id ep \<and>
        session_named (named_or ''default'' (nonempty_trim (rm_session req))) s \<and> s_head_episode_id s = Some (e_id ep)))"
proof -
  let ?name = "named_or ''default'' (nonempty_trim (rm_session req))"
  have ok: "sessions_ok (mm_sessions st)" using assms(1) by (simp add: memory_ok_def episodes_okD(1))
  obtain r us where u: "find_or_create_memory_user show_uuid parse_uuid (wn_user_id env) (wn_user_now env) (trim (rm_user req))
      (mm_users st) = Some (r, us)" "users_ok us" "\<And>u. r = Inr u \<Longrightarrow> map_of (us_users us) (u_id u) = Some u"
    using memory_user_spec [OF sessions_okD(1) [OF ok]] by metis
  show ?thesis
  proof (cases r)
    case (Inl e)
    then show ?thesis using u(1) assms(2,3) by (simp add: remember_memory_def)
  next
    case (Inr x)
    let ?st1 = "set_users us st"
    have ok1: "sessions_ok (mm_sessions ?st1)"
      using sessions_ok_users [OF ok u(2)] by (simp add: set_users_def set_sessions_def)
    obtain q ss where s: "find_or_create_session show_uuid (u_id x) ?name (wn_session_id env) (wn_session_now env)
        (mm_sessions ?st1) = Some (q, ss)"
      "\<And>s. q = Inr s \<Longrightarrow> s_user_id s = u_id x \<and> session_named ?name s \<and> map_of (ss_sessions ss) (s_id s) = Some s"
      using find_or_create_session_correct [OF ok1] by metis
    have users: "ss_users ss = us" "ep_episodes (mm_episodes (set_sessions ss ?st1)) = ep_episodes (mm_episodes st)"
      using s(1) by (auto simp: find_or_create_session_def create_session_def set_users_def set_sessions_def Let_def
          split: option.splits sum.splits if_splits)
    show ?thesis
    proof (cases q)
      case (Inl e)
      then show ?thesis using u(1) s(1) Inr assms(2,3) by (simp add: remember_memory_def Let_def)
    next
      case q: (Inr s0)
      let ?st2 = "set_sessions ss ?st1"
      let ?ereq = "\<lparr>ce_id = None, ce_type = EtMessage, ce_content = rm_text req,
                 ce_role = Some (case rm_role req of Some r \<Rightarrow> r | None \<Rightarrow> MrUser), ce_name = Some (u_name x), ce_agent_id = None,
                 ce_metadata = metadata_with_request_id (JObject []) rid, ce_created_at = None, ce_modality = MText\<rparr>"
      have g: "get_session (s_id s0) (mm_sessions ?st2) = Inr s0" using s(2) [OF q] by (simp add: set_sessions_def get_session_def)
      obtain ep st3 spawned st4 where ep: "store_episode show_uuid env ?ereq (s_id s0) (u_id x) None ?st2 = (Inr ep, st3)"
        "emit_event cfg env (u_id x) rid (head_payload show_uuid s0 (e_id ep) 1) st3 = (spawned, st4)"
        "ep = episode_from_request ?ereq (s_id s0) (u_id x) None (wn_episode_id env) (wn_episode_now env)"
        "map_of (ep_episodes (mm_episodes st4)) = (map_of (ep_episodes (mm_episodes ?st2)))(e_id ep \<mapsto> ep)"
        "get_session (s_id s0) (mm_sessions st4) = Inr (record_episode s0 (e_id ep) (e_created_at ep) (wn_activity_now env) (wn_updated_now env))"
        "us_users (mm_users st4) = us_users (mm_users ?st2)"
        using store_and_emit [OF g] by metis
      have "remember_memory show_uuid parse_uuid cfg env rid req st = Some (Inr ep, spawned, st4)"
        using u(1) s(1) Inr q ep(1,2) assms(2,3) by (simp add: remember_memory_def Let_def)
      moreover have "map_of (us_users (mm_users st4)) (u_id x) \<noteq> None"
        using u(3) [OF Inr] ep(6) users(1) by (simp add: set_sessions_def)
      ultimately show ?thesis
        using ep(3-5) users(2) s(2) [OF q]
        by (intro exI [of _ "Inr ep"] exI [of _ spawned] exI [of _ st4])
          (auto simp: record_episode_def session_named_def episode_from_request_def)
    qed
  qed
qed

definition sample_write_env :: write_env where
  "sample_write_env = \<lparr>wn_user_id = 1, wn_user_now = 0, wn_session_id = 2, wn_session_now = 0, wn_policy_now = 0,
     wn_retention_now = 0, wn_episode_id = 3, wn_episode_now = 0, wn_activity_now = 0, wn_updated_now = 0,
     wn_event_ids = (\<lambda>k. of_nat k), wn_event_now = 0\<rparr>"

definition memory_state_new :: memory_state where
  "memory_state_new = \<lparr>mm_episodes = episode_store_new (session_store_new user_store_new),
     mm_webhooks = webhook_state_new None, mm_guardrails = guardrail_store_new\<rparr>"

lemma memory_ok_new: "memory_ok memory_state_new"
  by (simp add: memory_ok_def memory_state_new_def episodes_ok_new sessions_ok_new users_ok_new)

lemma remember_memory_stores_witness:
  "\<exists>r spawned st'. remember_memory (\<lambda>_. []) (\<lambda>_. None) sample_config sample_write_env None
     \<lparr>rm_user = ''ann'', rm_text = ''hello'', rm_session = None, rm_role = None\<rparr> memory_state_new = Some (r, spawned, st')"
proof -
  have "trim ''ann'' \<noteq> []" "trim ''hello'' \<noteq> []" by code_simp+
  then show ?thesis
    using remember_memory_stores [OF memory_ok_new, of "\<lparr>rm_user = ''ann'', rm_text = ''hello'', rm_session = None, rm_role = None\<rparr>"
        "\<lambda>_. []" "\<lambda>_. None" sample_config sample_write_env None] by fastforce
qed

lemma zscore_added: "zscore (zadd k m z) m \<noteq> None"
proof -
  have "m \<in> fst ` set (map (\<lambda>(s, m). (m, s)) (zadd k m z))"
    by (force simp: zadd_def)
  then show ?thesis by (simp add: zscore_def map_of_eq_None_iff del: not_None_eq)
qed

text \<open>C28: The guardrails hold for single episodes only: whenever a rule blocks the text of an episode that passes the other
  checks, adding the episode is refused and nothing is stored, while a batch with this one episode is accepted, and the
  text is stored unchanged and queued for processing if it is not blank and no system message.\<close>

theorem batch_bypasses_guardrails:
  assumes "get_session i (mm_sessions st) = Inr s"
    and "agent_allowed (caller_from_extension ext) (ce_agent_id req) = Inr ()"
    and "session_policy show_uuid cfg env s st = (policy, st1)"
    and "validate_episode_retention (wn_retention_now env) policy req = Inr ()"
    and "ingest_block rx_match (caller_from_extension ext) (s_user_id s) (ce_agent_id req) (ce_content req) (mm_guardrails st) = Some e"
  shows "add_episode rx_match show_uuid cfg env rid ext None i req st = (Inl e, [], st1) \<and>
    ep_episodes (mm_episodes st1) = ep_episodes (mm_episodes st) \<and>
    (\<exists>ep spawned st'. add_episodes_batch show_error show_uuid cfg env (\<lambda>_. wn_retention_now env) inputs rid ext None i [req] st =
        (Inr [ep], spawned, st') \<and> e_content ep = ce_content req \<and>
        map_of (ep_episodes (mm_episodes st')) (e_id ep) = Some ep \<and>
        (should_process ep \<longrightarrow> zscore (ep_pending (mm_episodes st')) (e_id ep) \<noteq> None))"
proof -
  let ?c = "caller_from_extension ext"
  have f: "mm_episodes st1 = mm_episodes st" "mm_guardrails st1 = mm_guardrails st"
    using session_policy_fields [OF assms(3)] by simp_all
  have "(case ce_agent_id req of Some a \<Rightarrow> Some a | None \<Rightarrow> nonempty_trim None) = ce_agent_id req"
    by (simp add: nonempty_trim_def split: option.split)
  then have single: "add_episode rx_match show_uuid cfg env rid ext None i req st = (Inl e, [], st1)"
    using assms f by (simp add: add_episode_def Let_def)
  let ?req = "batch_request rid None req"
  obtain u now now1 now2 where inp: "inputs 0 = (u, now, now1, now2)" by (cases "inputs 0")
  let ?ep = "episode_from_request ?req i (s_user_id s) None u now"
  have s1: "get_session i (mm_sessions st1) = Inr s" using assms(1) f by simp
  obtain eps where made: "create_episode show_uuid ?req i (s_user_id s) None u now now1 now2 (mm_episodes st1) = (Inr ?ep, eps)"
    using s1 by (simp add: create_episode_def Let_def)
  have eps: "eps = snd (create_episode show_uuid ?req i (s_user_id s) None u now now1 now2 (mm_episodes st1))"
    using made by simp
  have created: "map_of (ep_episodes eps) (e_id ?ep) = Some ?ep" "should_process ?ep \<longrightarrow> zscore (ep_pending eps) (e_id ?ep) \<noteq> None"
    unfolding eps create_episode_fields
    by (simp_all add: map_of_bt_insert episode_from_request_def zscore_added del: not_None_eq)
  have check: "check_batch show_error ?c (\<lambda>_. wn_retention_now env) policy None 0 [req] = Inr ()"
    using assms(2,4) by (auto simp: agent_allowed_def split: option.split)
  obtain spawned st' where em: "emit_event cfg env (s_user_id s) rid (head_payload show_uuid s (e_id ?ep) 1) (st1\<lparr>mm_episodes := eps\<rparr>) = (spawned, st')"
    by (cases "emit_event cfg env (s_user_id s) rid (head_payload show_uuid s (e_id ?ep) 1) (st1\<lparr>mm_episodes := eps\<rparr>)")
  have "add_episodes_batch show_error show_uuid cfg env (\<lambda>_. wn_retention_now env) inputs rid ext None i [req] st = (Inr [?ep], spawned, st')"
    using assms(1,3) check made em inp
    by (simp add: add_episodes_batch_def Let_def nonempty_trim_def agent_allowed_def del: check_batch.simps)
  moreover have "e_content ?ep = ce_content req" by (simp add: episode_from_request_def batch_request_def)
  ultimately show ?thesis using single f created emit_event_fields [OF em] by auto
qed

definition sample_rule :: guardrail_rule where
  "sample_rule = \<lparr>gr_id = 1, gr_name = ''no passwords'', gr_description = '''', gr_trigger = OnIngest,
     gr_condition = ContentMatchesRegex ''password'', gr_action = Block ''secret'', gr_priority = 1, gr_enabled = True,
     gr_scope = GGlobal, gr_created_at = 0, gr_updated_at = 0\<rparr>"

definition sample_memory :: memory_state where
  "sample_memory =
     (let ss = session_store_new user_store_new;
          s = session_from_request \<lparr>cs_id = Some 9, cs_user_id = 1, cs_agent_id = None, cs_name = None, cs_metadata = JNull\<rparr> 0 5
      in memory_state_new\<lparr>mm_episodes := episode_store_new (ss\<lparr>ss_sessions := [(9, s)]\<rparr>),
           mm_guardrails := guardrail_store_new\<lparr>gs_rules := [(1, sample_rule)], gs_index := [(1, 1)]\<rparr>\<rparr>)"

definition sample_request :: create_episode_request where
  "sample_request = \<lparr>ce_id = None, ce_type = EtMessage, ce_content = ''my password'', ce_role = None, ce_name = None,
     ce_agent_id = None, ce_metadata = JNull, ce_created_at = None, ce_modality = MText\<rparr>"

lemma batch_bypasses_guardrails_witness:
  "\<exists>st1 ep spawned st'.
     add_episode (\<lambda>_ _. Some True) (\<lambda>_. []) sample_config sample_write_env None None None 9 sample_request sample_memory =
       (Inl (Validation ''Guardrail blocked: secret''), [], st1) \<and>
     add_episodes_batch (\<lambda>_. []) (\<lambda>_. []) sample_config sample_write_env (\<lambda>_. 0) (\<lambda>_. (4, 0, 0, 0)) None None None 9
       [sample_request] sample_memory = (Inr [ep], spawned, st') \<and> e_content ep = ''my password''"
proof -
  obtain s where s: "get_session 9 (mm_sessions sample_memory) = Inr s" "s_user_id s = 1"
    by (simp add: sample_memory_def Let_def get_session_def episode_store_new_def session_from_request_def)
  obtain policy st1 where p: "session_policy (\<lambda>_. []) sample_config sample_write_env s sample_memory = (policy, st1)"
    by (cases "session_policy (\<lambda>_. []) sample_config sample_write_env s sample_memory")
  have a: "agent_allowed (caller_from_extension None) (ce_agent_id sample_request) = Inr ()"
    by (simp add: agent_allowed_def sample_request_def)
  have "0 \<le> uint (retention_days_for_episode_type policy EtMessage) * ns_per_day"
    by simp
  then have r: "validate_episode_retention (wn_retention_now sample_write_env) policy sample_request = Inr ()"
    by (simp add: validate_episode_retention_def sample_request_def sample_write_env_def Let_def)
  have rules: "list_guardrails_for_user 1 None (mm_guardrails sample_memory) = [sample_rule]"
    by (simp add: list_guardrails_for_user_def list_guardrails_def sample_memory_def Let_def sample_rule_def
        rule_for_user_def map_filter_simps)
  have applies: "rule_applies_to sample_rule OnIngest ctx" "cond_evaluate (\<lambda>_ _. Some True) ctx (gr_condition sample_rule)"
    if "ec_content ctx = Some ''my password''" for ctx
    using that by (simp_all add: sample_rule_def rule_applies_to_def trigger_matches_def max_content_len_def)
  have g: "ingest_block (\<lambda>_ _. Some True) (caller_from_extension None) (s_user_id s) (ce_agent_id sample_request)
      (ce_content sample_request) (mm_guardrails sample_memory) = Some (Validation ''Guardrail blocked: secret'')"
    unfolding s(2) ingest_block_def
    by (simp add: sample_request_def Let_def rules evaluate_rules_def applies del: cond_evaluate.simps)
      (simp add: sample_rule_def)
  show ?thesis
    using batch_bypasses_guardrails [OF s(1) a p r g, where show_error = "\<lambda>_. []" and inputs = "\<lambda>_. (4, 0, 0, 0)" and rid = None]
    by (auto simp: sample_request_def sample_write_env_def)
qed

end
