(* ===== verification/Chat_Import.thy ===== *)
theory Chat_Import
  imports Memory_Write
begin

text \<open>
  The import of chat histories in \<^verbatim>\<open>mnemo-server/src/routes.rs\<close>: the three export formats, the background job
  that stores the messages as episodes, the job records with their idempotency keys and permits, and the eviction of old
  jobs. The JSON parser, the two time parsers of the chrono crate, the conversion of JSON numbers and the texts of times and
  errors are the parameters of \<open>import_formats\<close>. An object lists its entries in the order of its keys, as the code's
  JSON maps do. A run of a job is one step.
\<close>

section \<open>Data\<close>

abbreviation ns_per_second :: int where "ns_per_second \<equiv> 1000000000"

datatype chat_history_source = CsNdjson | CsChatgptExport | CsGeminiExport

definition source_as_str :: "chat_history_source \<Rightarrow> string" where
  "source_as_str s = (case s of CsNdjson \<Rightarrow> ''ndjson'' | CsChatgptExport \<Rightarrow> ''chatgpt_export'' | CsGeminiExport \<Rightarrow> ''gemini_export'')"

record import_message =
  im_session :: "string option"
  im_role :: message_role
  im_content :: string
  im_created_at :: timestamp

datatype import_job_status = IjQueued | IjRunning | IjCompleted | IjFailed

record import_job =
  ij_id :: uuid
  ij_source :: string
  ij_user :: string
  ij_dry_run :: bool
  ij_status :: import_job_status
  ij_total_messages :: u32
  ij_imported_messages :: u32
  ij_failed_messages :: u32
  ij_sessions_touched :: u32
  ij_errors :: "string list"
  ij_created_at :: timestamp
  ij_started_at :: "timestamp option"
  ij_finished_at :: "timestamp option"

record import_request =
  ir_user :: string
  ir_source :: chat_history_source
  ir_payload :: json
  ir_default_session :: "string option"
  ir_dry_run :: bool
  ir_idempotency_key :: "string option"

record import_formats =
  fm_json :: "string \<Rightarrow> string + json"
  fm_rfc3339 :: "string \<Rightarrow> timestamp option"
  fm_from_timestamp :: "int \<Rightarrow> timestamp option"
  fm_truncated :: "string \<Rightarrow> int"
  fm_show_time :: "timestamp \<Rightarrow> string"
  fm_show_error :: "mnemo_error \<Rightarrow> string"

section \<open>JSON values\<close>

definition json_get :: "string \<Rightarrow> json \<Rightarrow> json option" where
  "json_get k v = (case v of JObject m \<Rightarrow> map_of m k | _ \<Rightarrow> None)"

definition json_str :: "json \<Rightarrow> string option" where
  "json_str v = (case v of JString s \<Rightarrow> Some s | _ \<Rightarrow> None)"

definition json_array :: "json \<Rightarrow> json list option" where
  "json_array v = (case v of JArray xs \<Rightarrow> Some xs | _ \<Rightarrow> None)"

definition json_object :: "json \<Rightarrow> (string \<times> json) list option" where
  "json_object v = (case v of JObject m \<Rightarrow> Some m | _ \<Rightarrow> None)"

definition json_bool :: "json \<Rightarrow> bool option" where
  "json_bool v = (case v of JBool b \<Rightarrow> Some b | _ \<Rightarrow> None)"

definition json_number :: "json \<Rightarrow> string option" where
  "json_number v = (case v of JNumber n \<Rightarrow> Some n | _ \<Rightarrow> None)"

abbreviation get_then :: "string \<Rightarrow> (json \<Rightarrow> 'a option) \<Rightarrow> json \<Rightarrow> 'a option" where
  "get_then k f v \<equiv> Option.bind (json_get k v) f"

section \<open>Roles, times and lines\<close>

definition parse_role :: "string \<Rightarrow> message_role option" where
  "parse_role input =
     (let s = lowercase input in
      if s = ''user'' \<or> s = ''human'' then Some MrUser
      else if s = ''assistant'' \<or> s = ''ai'' \<or> s = ''model'' then Some MrAssistant
      else if s = ''system'' then Some MrSystem
      else if s = ''tool'' \<or> s = ''function'' then Some MrTool
      else None)"

text \<open>\<^verbatim>\<open>str::parse::<i64>\<close>: an optional sign, at least one digit, a value in range.\<close>

definition digits_value :: "string \<Rightarrow> int" where
  "digits_value s = foldl (\<lambda>n c. 10 * n + (of_char c - 48)) 0 s"

definition parse_i64 :: "string \<Rightarrow> int option" where
  "parse_i64 s =
     (let (neg, ds) = (case s of c # cs \<Rightarrow> if c = CHR ''-'' then (True, cs) else if c = CHR ''+'' then (False, cs) else (False, s)
                       | [] \<Rightarrow> (False, []));
          n = (if neg then - digits_value ds else digits_value ds)
      in if ds \<noteq> [] \<and> (\<forall>c \<in> set ds. is_digit c) \<and> - (2 ^ 63) \<le> n \<and> n < 2 ^ 63 then Some n else None)"

definition parse_created_at :: "import_formats \<Rightarrow> timestamp \<Rightarrow> string option \<Rightarrow> string + timestamp" where
  "parse_created_at fm now input =
     (case input of
        None \<Rightarrow> Inr now
      | Some raw \<Rightarrow>
        (case fm_rfc3339 fm raw of
           Some t \<Rightarrow> Inr t
         | None \<Rightarrow>
           (case Option.bind (parse_i64 raw) (fm_from_timestamp fm) of
              Some t \<Rightarrow> Inr t
            | None \<Rightarrow> Inl ''invalid created_at timestamp (expected RFC3339 or unix seconds string)'')))"

text \<open>\<^verbatim>\<open>str::lines\<close>: a carriage return before the line feed belongs to the line end.\<close>

definition end_line :: "string \<Rightarrow> string" where
  "end_line acc = (case acc of c # cs \<Rightarrow> if c = CHR 0x0D then rev cs else rev acc | [] \<Rightarrow> [])"

fun str_lines :: "string \<Rightarrow> string \<Rightarrow> string list" where
  "str_lines acc [] = (if acc = [] then [] else [rev acc])"
| "str_lines acc (c # cs) = (if c = CHR 0x0A then end_line acc # str_lines [] cs else str_lines (c # acc) cs)"

section \<open>The export formats\<close>

text \<open>Gemini: the message of a chunk, or none when the chunk is skipped.\<close>

definition gemini_content :: "json \<Rightarrow> string option" where
  "gemini_content item =
     (case nonempty_trim (get_then ''text'' json_str item) of
        Some c \<Rightarrow> Some c
      | None \<Rightarrow>
        nonempty_trim (map_option (\<lambda>parts. join_with nl (List.map_filter (get_then ''text'' json_str) parts))
          (get_then ''parts'' json_array item)))"

definition gemini_message :: "timestamp \<Rightarrow> nat \<Rightarrow> json \<Rightarrow> import_message option" where
  "gemini_message base_time idx item =
     (if json_object item = None then None
      else if get_then ''isThought'' json_bool item = Some True then None
      else case Option.bind (get_then ''role'' json_str item) parse_role of
        None \<Rightarrow> None
      | Some role \<Rightarrow>
        map_option (\<lambda>content. \<lparr>im_session = None, im_role = role, im_content = content,
            im_created_at = base_time + int idx * ns_per_second\<rparr>) (gemini_content item))"

definition parse_gemini_export_payload :: "timestamp \<Rightarrow> json \<Rightarrow> string + import_message list" where
  "parse_gemini_export_payload base_time payload =
     (if json_object payload = None then Inl ''gemini export payload must be an object''
      else case get_then ''chunkedPrompt'' (get_then ''chunks'' json_array) payload of
        None \<Rightarrow> Inl ''gemini export missing chunkedPrompt.chunks''
      | Some chunks \<Rightarrow>
        let messages = List.map_filter (\<lambda>(idx, c). gemini_message base_time idx c) (zip [0..<length chunks] chunks) in
        if messages = [] then Inl ''no importable messages found in gemini export payload'' else Inr messages)"

text \<open>Newline-delimited rows; \<open>now k\<close> is the clock at row \<open>k\<close>.\<close>

fun parse_lines :: "import_formats \<Rightarrow> string list \<Rightarrow> string + json list" where
  "parse_lines fm [] = Inr []"
| "parse_lines fm (l # ls) =
     (case fm_json fm l of
        Inl e \<Rightarrow> Inl (''invalid NDJSON row: '' @ e)
      | Inr v \<Rightarrow> (case parse_lines fm ls of Inl e \<Rightarrow> Inl e | Inr vs \<Rightarrow> Inr (v # vs)))"

definition json_rows :: "import_formats \<Rightarrow> string \<Rightarrow> string + json list" where
  "json_rows fm text_lines = parse_lines fm (filter (\<lambda>l. trim l \<noteq> []) (str_lines [] text_lines))"

definition ndjson_rows :: "import_formats \<Rightarrow> json \<Rightarrow> string + json list" where
  "ndjson_rows fm payload =
     (case payload of
        JString ls \<Rightarrow> json_rows fm ls
      | JArray rows \<Rightarrow> Inr rows
      | JObject _ \<Rightarrow>
        (case get_then ''messages'' json_array payload of
           Some rows \<Rightarrow> Inr rows
         | None \<Rightarrow>
           (case get_then ''ndjson'' json_str payload of
              Some ls \<Rightarrow> json_rows fm ls
            | None \<Rightarrow> Inl ''ndjson payload requires string, array, or object.messages''))
      | _ \<Rightarrow> Inl ''unsupported ndjson payload shape'')"

definition row_text :: "nat \<Rightarrow> string \<Rightarrow> string" where
  "row_text idx what = ''row '' @ nat_to_string (idx + 1) @ what"

definition ndjson_message :: "import_formats \<Rightarrow> timestamp \<Rightarrow> nat \<Rightarrow> json \<Rightarrow> string + import_message" where
  "ndjson_message fm now idx row =
     (if json_object row = None then Inl (row_text idx '' is not an object'')
      else case nonempty_trim (get_then ''content'' json_str row) of
        None \<Rightarrow> Inl (row_text idx '' missing content'')
      | Some content \<Rightarrow>
        (case get_then ''role'' json_str row of
           None \<Rightarrow> Inl (row_text idx '' missing role'')
         | Some r \<Rightarrow>
           (case parse_role r of
              None \<Rightarrow> Inl (row_text idx '' invalid role'')
            | Some role \<Rightarrow>
              (case parse_created_at fm now
                   (Option.bind (case json_get ''created_at'' row of Some v \<Rightarrow> Some v | None \<Rightarrow> json_get ''timestamp'' row) json_str) of
                 Inl e \<Rightarrow> Inl e
               | Inr t \<Rightarrow> Inr \<lparr>im_session = nonempty_trim (get_then ''session'' json_str row), im_role = role,
                   im_content = content, im_created_at = t\<rparr>))))"

fun ndjson_messages :: "import_formats \<Rightarrow> (nat \<Rightarrow> timestamp) \<Rightarrow> nat \<Rightarrow> json list \<Rightarrow> string + import_message list" where
  "ndjson_messages fm now idx [] = Inr []"
| "ndjson_messages fm now idx (row # rows) =
     (case ndjson_message fm (now idx) idx row of
        Inl e \<Rightarrow> Inl e
      | Inr m \<Rightarrow> (case ndjson_messages fm now (Suc idx) rows of Inl e \<Rightarrow> Inl e | Inr ms \<Rightarrow> Inr (m # ms)))"

definition parse_ndjson_payload :: "import_formats \<Rightarrow> (nat \<Rightarrow> timestamp) \<Rightarrow> json \<Rightarrow> string + import_message list" where
  "parse_ndjson_payload fm now payload =
     (case ndjson_rows fm payload of Inl e \<Rightarrow> Inl e | Inr rows \<Rightarrow> ndjson_messages fm now 0 rows)"

text \<open>ChatGPT: the conversations with their nodes; \<open>now c k\<close> is the clock at node \<open>k\<close> of conversation \<open>c\<close>.\<close>

definition extract_chatgpt_content :: "json \<Rightarrow> string" where
  "extract_chatgpt_content message =
     (case get_then ''content'' (get_then ''parts'' json_array) message of
        Some parts \<Rightarrow> trim (join_with nl (List.map_filter json_str parts))
      | None \<Rightarrow>
        (case get_then ''content'' (get_then ''text'' json_str) message of Some t \<Rightarrow> trim t | None \<Rightarrow> []))"

definition chatgpt_message :: "import_formats \<Rightarrow> string option \<Rightarrow> timestamp \<Rightarrow> json \<Rightarrow> import_message option" where
  "chatgpt_message fm title now node =
     (case json_get ''message'' node of
        None \<Rightarrow> None
      | Some message \<Rightarrow>
        (case Option.bind (get_then ''author'' (get_then ''role'' json_str) message) parse_role of
           None \<Rightarrow> None
         | Some role \<Rightarrow>
           let content = extract_chatgpt_content message in
           if trim content = [] then None
           else Some \<lparr>im_session = title, im_role = role, im_content = content,
             im_created_at = (case get_then ''create_time'' json_number message of
                 Some ts \<Rightarrow> (case fm_from_timestamp fm (fm_truncated fm ts) of Some t \<Rightarrow> t | None \<Rightarrow> now)
               | None \<Rightarrow> now)\<rparr>))"

definition chatgpt_conversation :: "import_formats \<Rightarrow> (nat \<Rightarrow> timestamp) \<Rightarrow> json \<Rightarrow> import_message list" where
  "chatgpt_conversation fm now convo =
     (let title = nonempty_trim (get_then ''title'' json_str convo) in
      case get_then ''mapping'' json_object convo of
        None \<Rightarrow> []
      | Some nodes \<Rightarrow>
        sort_key im_created_at
          (List.map_filter (\<lambda>(k, node). chatgpt_message fm title (now k) node) (zip [0..<length nodes] (map snd nodes))))"

definition parse_chatgpt_export_payload ::
  "import_formats \<Rightarrow> (nat \<Rightarrow> nat \<Rightarrow> timestamp) \<Rightarrow> json \<Rightarrow> string + import_message list" where
  "parse_chatgpt_export_payload fm now payload =
     (let conversations = (case payload of
          JArray items \<Rightarrow> Some items
        | JObject _ \<Rightarrow> (case get_then ''conversations'' json_array payload of Some items \<Rightarrow> Some items | None \<Rightarrow> Some [payload])
        | _ \<Rightarrow> None)
      in case conversations of
        None \<Rightarrow> Inl ''chatgpt export payload must be an object or array''
      | Some cs \<Rightarrow>
        let messages = concat (map (\<lambda>(c, convo). chatgpt_conversation fm (now c) convo) (zip [0..<length cs] cs)) in
        if messages = [] then Inl ''no importable messages found in chatgpt export payload'' else Inr messages)"

text \<open>The clock of the parser: at the start, at a row, and at a node of a conversation.\<close>

record parse_clock =
  pc_base :: timestamp
  pc_row :: "nat \<Rightarrow> timestamp"
  pc_node :: "nat \<Rightarrow> nat \<Rightarrow> timestamp"

definition parse_import_messages ::
  "import_formats \<Rightarrow> parse_clock \<Rightarrow> chat_history_source \<Rightarrow> json \<Rightarrow> string + import_message list" where
  "parse_import_messages fm clk source payload =
     (case source of
        CsNdjson \<Rightarrow> parse_ndjson_payload fm (pc_row clk) payload
      | CsChatgptExport \<Rightarrow> parse_chatgpt_export_payload fm (pc_node clk) payload
      | CsGeminiExport \<Rightarrow> parse_gemini_export_payload (pc_base clk) payload)"

section \<open>Job records\<close>

text \<open>
  The jobs, the idempotency keys and the free permits of the server, with the jobs that were spawned and did not run yet.
\<close>

record import_task =
  it_job :: uuid
  it_source :: chat_history_source
  it_user :: string
  it_payload :: json
  it_default_session :: "string option"
  it_dry_run :: bool

record import_state =
  is_memory :: memory_state
  is_jobs :: "(uuid, import_job) btree_map"
  is_idempotency :: "(string, uuid) btree_map"
  is_permits :: nat
  is_tasks :: "import_task list"

definition import_state_new :: "memory_state \<Rightarrow> import_state" where
  "import_state_new m = \<lparr>is_memory = m, is_jobs = [], is_idempotency = [], is_permits = 10, is_tasks = []\<rparr>"

definition change_job :: "uuid \<Rightarrow> (import_job \<Rightarrow> import_job) \<Rightarrow> import_state \<Rightarrow> import_state" where
  "change_job i f st =
     (case map_of (is_jobs st) i of Some j \<Rightarrow> st\<lparr>is_jobs := bt_insert i (f j) (is_jobs st)\<rparr> | None \<Rightarrow> st)"

definition set_import_job_status :: "uuid \<Rightarrow> import_job_status \<Rightarrow> timestamp \<Rightarrow> import_state \<Rightarrow> import_state" where
  "set_import_job_status i s now =
     change_job i (\<lambda>j. (if s = IjRunning then j\<lparr>ij_started_at := Some now\<rparr> else j)\<lparr>ij_status := s\<rparr>)"

definition update_import_job_totals :: "uuid \<Rightarrow> u32 \<Rightarrow> import_state \<Rightarrow> import_state" where
  "update_import_job_totals i n = change_job i (\<lambda>j. j\<lparr>ij_total_messages := n\<rparr>)"

definition finalize_import_job_failure :: "uuid \<Rightarrow> timestamp \<Rightarrow> string list \<Rightarrow> import_state \<Rightarrow> import_state" where
  "finalize_import_job_failure i now errs =
     change_job i (\<lambda>j. j\<lparr>ij_status := IjFailed, ij_finished_at := Some now, ij_errors := errs\<rparr>)"

definition finalize_import_job_success ::
  "uuid \<Rightarrow> timestamp \<Rightarrow> u32 \<Rightarrow> u32 \<Rightarrow> u32 \<Rightarrow> string list \<Rightarrow> import_state \<Rightarrow> import_state" where
  "finalize_import_job_success i now imported failed touched errs =
     change_job i (\<lambda>j. j\<lparr>ij_status := (if failed > 0 then IjFailed else IjCompleted), ij_imported_messages := imported,
       ij_failed_messages := failed, ij_sessions_touched := touched, ij_errors := errs, ij_finished_at := Some now\<rparr>)"

section \<open>The request\<close>

definition scoped_key :: "string \<Rightarrow> string \<Rightarrow> string" where
  "scoped_key user key = user @ '':'' @ key"

definition too_many_jobs :: string where
  "too_many_jobs = ''Too many concurrent import jobs. Please try again later.''"

definition queued_job :: "import_request \<Rightarrow> uuid \<Rightarrow> timestamp \<Rightarrow> import_job" where
  "queued_job req job_id now =
     \<lparr>ij_id = job_id, ij_source = source_as_str (ir_source req), ij_user = trim (ir_user req), ij_dry_run = ir_dry_run req,
      ij_status = IjQueued, ij_total_messages = 0, ij_imported_messages = 0, ij_failed_messages = 0, ij_sessions_touched = 0,
      ij_errors = [], ij_created_at = now, ij_started_at = None, ij_finished_at = None\<rparr>"

definition known_job :: "string option \<Rightarrow> string \<Rightarrow> import_state \<Rightarrow> (uuid \<times> import_job) option" where
  "known_job key user st =
     Option.bind key (\<lambda>k. Option.bind (map_of (is_idempotency st) (scoped_key user k))
       (\<lambda>i. map_option (Pair i) (map_of (is_jobs st) i)))"

text \<open>The answer is the job with its status; a new job takes a permit and is spawned.\<close>

definition import_chat_history ::
  "import_request \<Rightarrow> uuid \<Rightarrow> timestamp \<Rightarrow> timestamp \<Rightarrow> import_state \<Rightarrow>
   (mnemo_error + uuid \<times> import_job_status) \<times> import_state" where
  "import_chat_history req job_id now refused_at st =
     (let user = trim (ir_user req); key = nonempty_trim (ir_idempotency_key req) in
      if user = [] then (Inl (Validation ''user is required''), st)
      else case known_job key user st of
        Some (i, j) \<Rightarrow> (Inr (i, ij_status j), st)
      | None \<Rightarrow>
        let st1 = st\<lparr>is_jobs := bt_insert job_id (queued_job req job_id now) (is_jobs st),
              is_idempotency := (case key of
                  Some k \<Rightarrow> bt_insert (scoped_key user k) job_id (is_idempotency st) | None \<Rightarrow> is_idempotency st)\<rparr>
        in if is_permits st1 = 0
           then (Inl (Validation too_many_jobs),
                 change_job job_id (\<lambda>j. j\<lparr>ij_status := IjFailed, ij_errors := [too_many_jobs],
                   ij_finished_at := Some refused_at\<rparr>) st1)
           else (Inr (job_id, IjQueued),
                 st1\<lparr>is_permits := is_permits st1 - 1,
                   is_tasks := is_tasks st1 @ [\<lparr>it_job = job_id, it_source = ir_source req, it_user = user,
                     it_payload = ir_payload req, it_default_session = ir_default_session req, it_dry_run = ir_dry_run req\<rparr>]\<rparr>))"

definition get_import_job :: "(uuid \<Rightarrow> string) \<Rightarrow> uuid \<Rightarrow> import_state \<Rightarrow> mnemo_error + import_job" where
  "get_import_job show_uuid i st =
     (case map_of (is_jobs st) i of Some j \<Rightarrow> Inr j | None \<Rightarrow> Inl (NotFound ''ImportJob'' (show_uuid i)))"

section \<open>The job\<close>

text \<open>The first ten messages out of range, and a last line once there are ten.\<close>

definition newest_allowed :: "timestamp \<Rightarrow> timestamp" where
  "newest_allowed now = now + 5 * 60 * ns_per_second"

definition oldest_allowed :: "timestamp \<Rightarrow> timestamp" where
  "oldest_allowed now = now - 365 * 10 * ns_per_day"

fun timestamp_errors :: "import_formats \<Rightarrow> timestamp \<Rightarrow> nat \<Rightarrow> import_message list \<Rightarrow> string list \<Rightarrow> string list" where
  "timestamp_errors fm now idx [] errs = errs"
| "timestamp_errors fm now idx (m # ms) errs =
     (let errs1 =
        (if im_created_at m > newest_allowed now
         then errs @ [row_text idx ('': timestamp '' @ fm_show_time fm (im_created_at m) @
                '' is in the future (max drift: 5 minutes)'')]
         else if im_created_at m < oldest_allowed now
         then errs @ [row_text idx ('': timestamp '' @ fm_show_time fm (im_created_at m) @ '' is too old (max age: 10 years)'')]
         else errs)
      in if length errs1 \<ge> 10 then errs1 @ [''...additional timestamp errors omitted'']
         else timestamp_errors fm now (Suc idx) ms errs1)"

definition dry_run_sessions :: "string option \<Rightarrow> import_message list \<Rightarrow> string list" where
  "dry_run_sessions default_session ms =
     (let names = remdups (List.map_filter im_session ms) in
      if names = [] then [named_or ''imported'' (nonempty_trim default_session)] else names)"

definition import_episode_request :: "chat_history_source \<Rightarrow> string \<Rightarrow> import_message \<Rightarrow> create_episode_request" where
  "import_episode_request source user_name m =
     \<lparr>ce_id = None, ce_type = EtMessage, ce_content = im_content m, ce_role = Some (im_role m), ce_name = Some user_name,
      ce_agent_id = None, ce_metadata = JObject [(''import_source'', JString (source_as_str source))],
      ce_created_at = Some (im_created_at m), ce_modality = MText\<rparr>"

record import_progress =
  ip_imported :: u32
  ip_failed :: u32
  ip_sessions :: "(string, session) btree_map"
  ip_errors :: "string list"

definition message_session :: "string option \<Rightarrow> import_message \<Rightarrow> string" where
  "message_session default_session m =
     (case im_session m of Some s \<Rightarrow> s | None \<Rightarrow> named_or ''imported'' (nonempty_trim default_session))"

definition failed_row :: "string \<Rightarrow> import_progress \<Rightarrow> import_progress" where
  "failed_row msg p =
     p\<lparr>ip_failed := ip_failed p + 1, ip_errors := (if length (ip_errors p) < 20 then ip_errors p @ [msg] else ip_errors p)\<rparr>"

text \<open>The session of a row, from the cache of the job or from the store.\<close>

definition row_session ::
  "(uuid \<Rightarrow> string) \<Rightarrow> uuid \<Rightarrow> write_env \<Rightarrow> string \<Rightarrow> import_progress \<Rightarrow> memory_state \<Rightarrow>
   ((mnemo_error + session) \<times> import_progress \<times> memory_state) option" where
  "row_session show_uuid u env name p st =
     (case map_of (ip_sessions p) name of
        Some s \<Rightarrow> Some (Inr s, p, st)
      | None \<Rightarrow>
        (case find_or_create_session show_uuid u name (wn_session_id env) (wn_session_now env) (mm_sessions st) of
           None \<Rightarrow> None
         | Some (Inr s, ss) \<Rightarrow> Some (Inr s, p\<lparr>ip_sessions := bt_insert name s (ip_sessions p)\<rparr>, set_sessions ss st)
         | Some (Inl e, ss) \<Rightarrow> Some (Inl e, p, set_sessions ss st)))"

fun import_rows ::
  "import_formats \<Rightarrow> (uuid \<Rightarrow> string) \<Rightarrow> (nat \<Rightarrow> write_env) \<Rightarrow> chat_history_source \<Rightarrow> user \<Rightarrow> string option \<Rightarrow> nat \<Rightarrow>
   import_message list \<Rightarrow> import_progress \<Rightarrow> memory_state \<Rightarrow> (import_progress \<times> memory_state) option" where
  "import_rows fm show_uuid env source u default_session idx [] p st = Some (p, st)"
| "import_rows fm show_uuid env source u default_session idx (m # ms) p st =
     (let name = message_session default_session m in
      case row_session show_uuid (u_id u) (env idx) name p st of
        None \<Rightarrow> None
      | Some (Inl e, p1, st1) \<Rightarrow>
          import_rows fm show_uuid env source u default_session (Suc idx) ms
            (failed_row (row_text idx ('' session '' @ [CHR 0x27] @ name @ [CHR 0x27] @ '' failed: '' @ fm_show_error fm e)) p1) st1
      | Some (Inr s, p1, st1) \<Rightarrow>
          (case store_episode show_uuid (env idx) (import_episode_request source (u_name u) m) (s_id s) (u_id u) None st1 of
             (Inr _, st2) \<Rightarrow>
               import_rows fm show_uuid env source u default_session (Suc idx) ms (p1\<lparr>ip_imported := ip_imported p1 + 1\<rparr>) st2
           | (Inl e, st2) \<Rightarrow>
               import_rows fm show_uuid env source u default_session (Suc idx) ms
                 (failed_row (row_text idx ('' import failed: '' @ fm_show_error fm e)) p1) st2))"

text \<open>Clock readings and fresh identifiers of one run of a job; \<open>ie_rows k\<close> are those of row \<open>k\<close>.\<close>

record import_env =
  ie_started :: timestamp
  ie_parse :: parse_clock
  ie_checked :: timestamp
  ie_user_id :: uuid
  ie_user_now :: timestamp
  ie_rows :: "nat \<Rightarrow> write_env"
  ie_finished :: timestamp
  ie_event_ids :: "nat \<Rightarrow> uuid"
  ie_event_now :: timestamp

definition import_payload :: "(uuid \<Rightarrow> string) \<Rightarrow> uuid \<Rightarrow> import_progress \<Rightarrow> json" where
  "import_payload show_uuid i p = JObject
     [(''job_id'', JString (show_uuid i)), (''imported_messages'', JNumber (nat_to_string (unat (ip_imported p)))),
      (''failed_messages'', JNumber (nat_to_string (unat (ip_failed p)))),
      (''sessions_touched'', JNumber (nat_to_string (length (ip_sessions p))))]"

definition import_messages ::
  "import_formats \<Rightarrow> (uuid \<Rightarrow> string) \<Rightarrow> (string \<Rightarrow> uuid option) \<Rightarrow> webhook_delivery_config \<Rightarrow> import_env \<Rightarrow> import_task \<Rightarrow>
   import_message list \<Rightarrow> import_state \<Rightarrow> ((uuid \<times> uuid) list \<times> import_state) option" where
  "import_messages fm show_uuid parse_uuid cfg env task ms st =
     (let i = it_job task in
      case find_or_create_memory_user show_uuid parse_uuid (ie_user_id env) (ie_user_now env) (it_user task)
          (mm_users (is_memory st)) of
        None \<Rightarrow> None
      | Some (Inl e, us) \<Rightarrow>
          Some ([], finalize_import_job_failure i (ie_finished env) [fm_show_error fm e]
            (st\<lparr>is_memory := set_users us (is_memory st)\<rparr>))
      | Some (Inr u, us) \<Rightarrow>
        (case import_rows fm show_uuid (ie_rows env) (it_source task) u (it_default_session task) 0 ms
            \<lparr>ip_imported = 0, ip_failed = 0, ip_sessions = [], ip_errors = []\<rparr> (set_users us (is_memory st)) of
           None \<Rightarrow> None
         | Some (p, m) \<Rightarrow>
           let st1 = finalize_import_job_success i (ie_finished env) (ip_imported p) (ip_failed p)
                 (of_nat (length (ip_sessions p))) (ip_errors p) (st\<lparr>is_memory := m\<rparr>)
           in if ip_imported p > 0
              then (case emit_memory_webhook_event cfg (ie_event_ids env) (ie_event_now env) (u_id u) WeHeadAdvanced None
                      (import_payload show_uuid i p) (mm_webhooks (is_memory st1)) of
                      (spawned, ws) \<Rightarrow> Some (spawned, st1\<lparr>is_memory := (is_memory st1)\<lparr>mm_webhooks := ws\<rparr>\<rparr>))
              else Some ([], st1)))"

definition run_import_job ::
  "import_formats \<Rightarrow> (uuid \<Rightarrow> string) \<Rightarrow> (string \<Rightarrow> uuid option) \<Rightarrow> webhook_delivery_config \<Rightarrow> import_env \<Rightarrow> import_task \<Rightarrow>
   import_state \<Rightarrow> ((uuid \<times> uuid) list \<times> import_state) option" where
  "run_import_job fm show_uuid parse_uuid cfg env task st =
     (let i = it_job task; st1 = set_import_job_status i IjRunning (ie_started env) st in
      case parse_import_messages fm (ie_parse env) (it_source task) (it_payload task) of
        Inl e \<Rightarrow> Some ([], finalize_import_job_failure i (ie_finished env) [e] st1)
      | Inr ms \<Rightarrow>
        let st2 = update_import_job_totals i (of_nat (length ms)) st1; errs = timestamp_errors fm (ie_checked env) 0 ms [] in
        if errs \<noteq> [] then Some ([], finalize_import_job_failure i (ie_finished env) errs st2)
        else if it_dry_run task then
          Some ([], finalize_import_job_success i (ie_finished env) (of_nat (length ms)) 0
            (of_nat (length (dry_run_sessions (it_default_session task) ms))) [] st2)
        else import_messages fm show_uuid parse_uuid cfg env task ms st2)"

text \<open>The spawned task runs the job and then gives its permit back.\<close>

definition import_task_run ::
  "import_formats \<Rightarrow> (uuid \<Rightarrow> string) \<Rightarrow> (string \<Rightarrow> uuid option) \<Rightarrow> webhook_delivery_config \<Rightarrow> import_env \<Rightarrow> import_task \<Rightarrow>
   import_state \<Rightarrow> ((uuid \<times> uuid) list \<times> import_state) option" where
  "import_task_run fm show_uuid parse_uuid cfg env task st =
     map_option (\<lambda>(spawned, st'). (spawned, st'\<lparr>is_permits := is_permits st' + 1\<rparr>))
       (run_import_job fm show_uuid parse_uuid cfg env task (st\<lparr>is_tasks := remove1 task (is_tasks st)\<rparr>))"

section \<open>Eviction\<close>

definition stale_job :: "timestamp \<Rightarrow> import_job \<Rightarrow> bool" where
  "stale_job cutoff j \<longleftrightarrow> (ij_status j = IjCompleted \<or> ij_status j = IjFailed) \<and>
     (case ij_finished_at j of Some t \<Rightarrow> t < cutoff | None \<Rightarrow> False)"

definition stale_ids :: "timestamp \<Rightarrow> (uuid, import_job) btree_map \<Rightarrow> uuid list" where
  "stale_ids cutoff jobs = map fst (filter (\<lambda>(_, j). stale_job cutoff j) jobs)"

definition evict_stale_import_jobs :: "timestamp \<Rightarrow> int \<Rightarrow> import_state \<Rightarrow> import_state" where
  "evict_stale_import_jobs now max_age st =
     (let ids = stale_ids (now - max_age) (is_jobs st) in
      if ids = [] then st
      else st\<lparr>is_jobs := fold bt_remove ids (is_jobs st),
              is_idempotency := filter (\<lambda>(_, i). i \<notin> set ids) (is_idempotency st)\<rparr>)"

section \<open>Runs of the service\<close>

text \<open>
  Requests, runs of spawned jobs, evictions, and any other change of the memory. The first component holds the job
  identifiers handed out so far; a fresh one is none of them.
\<close>

inductive import_step ::
  "import_formats \<Rightarrow> (uuid \<Rightarrow> string) \<Rightarrow> (string \<Rightarrow> uuid option) \<Rightarrow> webhook_delivery_config \<Rightarrow>
   uuid set \<times> import_state \<Rightarrow> uuid set \<times> import_state \<Rightarrow> bool"
  for fm show_uuid parse_uuid cfg where
  Submit: "job_id \<notin> used \<Longrightarrow>
    import_step fm show_uuid parse_uuid cfg (used, st) (insert job_id used, snd (import_chat_history req job_id now now' st))"
| Run: "task \<in> set (is_tasks st) \<Longrightarrow> import_task_run fm show_uuid parse_uuid cfg env task st = Some (spawned, st') \<Longrightarrow>
    import_step fm show_uuid parse_uuid cfg (used, st) (used, st')"
| Evict: "import_step fm show_uuid parse_uuid cfg (used, st) (used, evict_stale_import_jobs now max_age st)"
| Other: "import_step fm show_uuid parse_uuid cfg (used, st) (used, st\<lparr>is_memory := m\<rparr>)"

section \<open>Lemmas on the rows of a job\<close>

text \<open>Sessions are kept, with their user and name; the sessions a job remembers are stored.\<close>

definition sessions_kept :: "memory_state \<Rightarrow> memory_state \<Rightarrow> bool" where
  "sessions_kept st st' \<longleftrightarrow> (\<forall>i s. map_of (ss_sessions (mm_sessions st)) i = Some s \<longrightarrow>
     (\<exists>s'. map_of (ss_sessions (mm_sessions st')) i = Some s' \<and> s_user_id s' = s_user_id s \<and> s_name s' = s_name s))"

definition session_stored :: "uuid \<Rightarrow> string \<Rightarrow> uuid \<Rightarrow> memory_state \<Rightarrow> bool" where
  "session_stored u name i st \<longleftrightarrow>
     (\<exists>s. map_of (ss_sessions (mm_sessions st)) i = Some s \<and> s_user_id s = u \<and> session_named name s)"

definition cache_ok :: "uuid \<Rightarrow> import_progress \<Rightarrow> memory_state \<Rightarrow> bool" where
  "cache_ok u p st \<longleftrightarrow> (\<forall>name s. map_of (ip_sessions p) name = Some s \<longrightarrow> session_stored u name (s_id s) st)"

lemma sessions_kept_trans: "sessions_kept a b \<Longrightarrow> sessions_kept b c \<Longrightarrow> sessions_kept a c"
  unfolding sessions_kept_def by metis

lemma session_stored_kept: "sessions_kept st st' \<Longrightarrow> session_stored u name i st \<Longrightarrow> session_stored u name i st'"
  unfolding sessions_kept_def session_stored_def session_named_def by metis

lemma cache_ok_kept: "sessions_kept st st' \<Longrightarrow> cache_ok u p st \<Longrightarrow> cache_ok u p st'"
  using session_stored_kept unfolding cache_ok_def by blast

text \<open>What the rows of an import need of the store.\<close>

definition import_ready :: "uuid \<Rightarrow> memory_state \<Rightarrow> bool" where
  "import_ready u st \<longleftrightarrow> sessions_ok (mm_sessions st) \<and> map_of (us_users (mm_users st)) u \<noteq> None"

lemma found_session:
  assumes ready: "import_ready u st" and fresh: "map_of (ss_sessions (mm_sessions st)) i = None"
  obtains s ss where "find_or_create_session show_uuid u name i now (mm_sessions st) = Some (Inr s, ss)"
    "import_ready u (set_sessions ss st)" "sessions_kept st (set_sessions ss st)" "session_stored u name (s_id s) (set_sessions ss st)"
    "dom (map_of (ss_sessions ss)) \<subseteq> insert i (dom (map_of (ss_sessions (mm_sessions st))))"
proof -
  let ?ss = "mm_sessions st"
  let ?req = "\<lparr>cs_id = None, cs_user_id = u, cs_agent_id = None, cs_name = Some name, cs_metadata = JObject []\<rparr>"
  have ok: "sessions_ok ?ss" and user: "map_of (us_users (mm_users st)) u \<noteq> None"
    using ready by (simp_all add: import_ready_def)
  obtain r ss where r: "find_or_create_session show_uuid u name i now ?ss = Some (r, ss)"
    "\<And>s. r = Inr s \<Longrightarrow> s_user_id s = u \<and> session_named name s \<and> map_of (ss_sessions ss) (s_id s) = Some s"
    using find_or_create_session_correct [OF ok] by metis
  have "r = Inr x \<and> ss = ?ss \<or> (r, ss) = create_session ?req i now ?ss" if "find_session_by_name show_uuid u name ?ss = Some (Inr x)" for x
    using r(1) that by (simp add: find_or_create_session_def)
  moreover have "(r, ss) = create_session ?req i now ?ss" if "find_session_by_name show_uuid u name ?ss = Some (Inl e)" for e
    using r(1) that by (auto simp: find_or_create_session_def find_session_by_name_def session_not_found_named split: option.splits)
  ultimately have cases: "(\<exists>x. r = Inr x) \<and> ss = ?ss \<or> (r, ss) = create_session ?req i now ?ss"
    using r(1) by (auto simp: find_or_create_session_def split: option.splits sum.splits)
  let ?s = "session_from_request ?req i now"
  obtain sc where sc: "create_session ?req i now ?ss = (Inr ?s, sc)" "ss_users sc = ss_users ?ss"
    "map_of (ss_sessions sc) = (map_of (ss_sessions ?ss))(i \<mapsto> ?s)"
    using user by (auto simp: create_session_def Let_def get_user_def map_of_bt_insert split: option.splits)
  have okc: "sessions_ok sc"
    using sessions_ok_create [OF ok, of ?req i now] sc(1) fresh by simp
  have cases: "(\<exists>x. r = Inr x) \<and> ss = ?ss \<or> r = Inr ?s \<and> ss = sc"
    using cases unfolding sc(1) by auto
  then obtain s where s: "r = Inr s" by blast
  have ss: "sessions_ok ss" "us_users (ss_users ss) = us_users (mm_users st)"
    "dom (map_of (ss_sessions ss)) \<subseteq> insert i (dom (map_of (ss_sessions ?ss)))"
    "\<And>j x. map_of (ss_sessions ?ss) j = Some x \<Longrightarrow> map_of (ss_sessions ss) j = Some x"
    using cases ok okc sc(2,3) fresh by (auto split: if_splits)
  show thesis
    by (rule that [OF r(1) [unfolded s]])
      (use ss user r(2) [OF s] in \<open>auto simp: import_ready_def sessions_kept_def session_stored_def set_sessions_def\<close>)
qed

lemma row_session_found:
  assumes ready: "import_ready u st" and fresh: "map_of (ss_sessions (mm_sessions st)) (wn_session_id env) = None"
    and cache: "cache_ok u p st"
  obtains s c st' where "row_session show_uuid u env name p st = Some (Inr s, p\<lparr>ip_sessions := c\<rparr>, st')"
    "import_ready u st'" "sessions_kept st st'" "session_stored u name (s_id s) st'" "cache_ok u (p\<lparr>ip_sessions := c\<rparr>) st'"
    "dom (map_of (ss_sessions (mm_sessions st'))) \<subseteq> insert (wn_session_id env) (dom (map_of (ss_sessions (mm_sessions st))))"
    "ep_episodes (mm_episodes st') = ep_episodes (mm_episodes st)"
proof (cases "map_of (ip_sessions p) name")
  case (Some s)
  then show thesis
    using that [of s "ip_sessions p" st] assms by (auto simp: row_session_def sessions_kept_def cache_ok_def)
next
  case None
  obtain s ss where s: "find_or_create_session show_uuid u name (wn_session_id env) (wn_session_now env) (mm_sessions st) = Some (Inr s, ss)"
    "import_ready u (set_sessions ss st)" "sessions_kept st (set_sessions ss st)" "session_stored u name (s_id s) (set_sessions ss st)"
    "dom (map_of (ss_sessions ss)) \<subseteq> insert (wn_session_id env) (dom (map_of (ss_sessions (mm_sessions st))))"
    by (rule found_session [OF ready fresh])
  have "cache_ok u (p\<lparr>ip_sessions := bt_insert name s (ip_sessions p)\<rparr>) (set_sessions ss st)"
    using cache_ok_kept [OF s(3) cache] s(4) by (auto simp: cache_ok_def map_of_bt_insert)
  then show thesis
    using that [of s "bt_insert name s (ip_sessions p)" "set_sessions ss st"] None s
    by (simp add: row_session_def set_sessions_def)
qed

lemma stored_row:
  assumes ready: "import_ready u st" and "session_stored u name i st"
  obtains ep st' where "store_episode show_uuid env req i u a st = (Inr ep, st')"
    "ep = episode_from_request req i u a (wn_episode_id env) (wn_episode_now env)"
    "map_of (ep_episodes (mm_episodes st')) = (map_of (ep_episodes (mm_episodes st)))(e_id ep \<mapsto> ep)"
    "import_ready u st'" "sessions_kept st st'"
    "dom (map_of (ss_sessions (mm_sessions st'))) = dom (map_of (ss_sessions (mm_sessions st)))"
proof -
  obtain s where s: "map_of (ss_sessions (mm_sessions st)) i = Some s" using assms(2) by (auto simp: session_stored_def)
  let ?ep = "episode_from_request req i u a (wn_episode_id env) (wn_episode_now env)"
  let ?r = "create_episode show_uuid req i u a (wn_episode_id env) (wn_episode_now env) (wn_activity_now env) (wn_updated_now env)
    (mm_episodes st)"
  let ?s = "record_episode s (e_id ?ep) (e_created_at ?ep) (wn_activity_now env) (wn_updated_now env)"
  obtain eps where r: "?r = (Inr ?ep, eps)" using s by (simp add: create_episode_def Let_def get_session_def)
  then have eps: "eps = snd ?r" by simp
  have base: "ep_base eps = (mm_sessions st)\<lparr>ss_sessions := bt_insert i ?s (ss_sessions (mm_sessions st))\<rparr>"
    unfolding eps create_episode_fields using s by (simp add: get_session_def)
  have same: "s_id ?s = s_id s" "s_user_id ?s = s_user_id s" "s_created_at ?s = s_created_at s" "s_name ?s = s_name s"
    by (simp_all add: record_episode_def)
  let ?st' = "st\<lparr>mm_episodes := eps\<rparr>"
  have "store_episode show_uuid env req i u a st = (Inr ?ep, ?st')"
    by (simp add: store_episode_def r)
  moreover have "map_of (ep_episodes (mm_episodes ?st')) = (map_of (ep_episodes (mm_episodes st)))(e_id ?ep \<mapsto> ?ep)"
    by (simp add: eps create_episode_fields map_of_bt_insert)
  moreover have "import_ready u ?st'"
    using ready sessions_ok_set [OF _ s same(1-3)] by (simp add: import_ready_def base)
  moreover have "sessions_kept st ?st'" using s same by (auto simp: sessions_kept_def base map_of_bt_insert)
  moreover have "dom (map_of (ss_sessions (mm_sessions ?st'))) = dom (map_of (ss_sessions (mm_sessions st)))"
    using s by (auto simp: base map_of_bt_insert)
  ultimately show thesis using that [of ?ep ?st'] by blast
qed

text \<open>The stored episode of a message, and what all rows together store.\<close>

definition message_stored :: "string option \<Rightarrow> uuid \<Rightarrow> import_message \<Rightarrow> uuid \<Rightarrow> memory_state \<Rightarrow> bool" where
  "message_stored default_session u m i st \<longleftrightarrow>
     (\<exists>ep. map_of (ep_episodes (mm_episodes st)) i = Some ep \<and> e_content ep = im_content m \<and> e_role ep = Some (im_role m) \<and>
       e_created_at ep = im_created_at m \<and> e_user_id ep = u \<and> session_stored u (message_session default_session m) (e_session_id ep) st)"

lemma message_stored_kept:
  "message_stored d u m i st \<Longrightarrow> sessions_kept st st' \<Longrightarrow>
   map_of (ep_episodes (mm_episodes st')) i = map_of (ep_episodes (mm_episodes st)) i \<Longrightarrow> message_stored d u m i st'"
  unfolding message_stored_def using session_stored_kept by metis

lemma import_rows_spec:
  assumes "import_ready (u_id u) st" and "cache_ok (u_id u) p st"
    and "inj_on (\<lambda>k. wn_session_id (env k)) {idx..<idx + length ms}"
    and "\<forall>k \<in> {idx..<idx + length ms}. map_of (ss_sessions (mm_sessions st)) (wn_session_id (env k)) = None"
    and "inj_on (\<lambda>k. wn_episode_id (env k)) {idx..<idx + length ms}"
  shows "\<exists>c st'. import_rows fm show_uuid env source u d idx ms p st =
      Some (p\<lparr>ip_imported := ip_imported p + of_nat (length ms), ip_sessions := c\<rparr>, st') \<and> sessions_kept st st' \<and>
    (\<forall>k < length ms. message_stored d (u_id u) (ms ! k) (wn_episode_id (env (idx + k))) st') \<and>
    (\<forall>i. i \<notin> (\<lambda>k. wn_episode_id (env k)) ` {idx..<idx + length ms} \<longrightarrow>
      map_of (ep_episodes (mm_episodes st')) i = map_of (ep_episodes (mm_episodes st)) i)"
  using assms
proof (induction ms arbitrary: idx p st)
  case Nil
  show ?case by (intro exI [of _ "ip_sessions p"] exI [of _ st]) (simp add: sessions_kept_def)
next
  case (Cons m ms)
  let ?name = "message_session d m"
  have rows: "{idx..<idx + length (m # ms)} = insert idx {Suc idx..<Suc idx + length ms}" by auto
  obtain s c st1 where s: "row_session show_uuid (u_id u) (env idx) ?name p st = Some (Inr s, p\<lparr>ip_sessions := c\<rparr>, st1)"
    "import_ready (u_id u) st1" "sessions_kept st st1" "session_stored (u_id u) ?name (s_id s) st1"
    "cache_ok (u_id u) (p\<lparr>ip_sessions := c\<rparr>) st1"
    "dom (map_of (ss_sessions (mm_sessions st1))) \<subseteq> insert (wn_session_id (env idx)) (dom (map_of (ss_sessions (mm_sessions st))))"
    "ep_episodes (mm_episodes st1) = ep_episodes (mm_episodes st)"
    using Cons.prems by (auto intro: row_session_found [of "u_id u" st "env idx" p show_uuid ?name])
  obtain ep st2 where ep: "store_episode show_uuid (env idx) (import_episode_request source (u_name u) m) (s_id s) (u_id u) None st1 =
      (Inr ep, st2)"
    "ep = episode_from_request (import_episode_request source (u_name u) m) (s_id s) (u_id u) None (wn_episode_id (env idx))
      (wn_episode_now (env idx))"
    "map_of (ep_episodes (mm_episodes st2)) = (map_of (ep_episodes (mm_episodes st1)))(e_id ep \<mapsto> ep)"
    "import_ready (u_id u) st2" "sessions_kept st1 st2"
    "dom (map_of (ss_sessions (mm_sessions st2))) = dom (map_of (ss_sessions (mm_sessions st1)))"
    by (rule stored_row [OF s(2,4)])
  let ?p = "p\<lparr>ip_sessions := c, ip_imported := ip_imported p + 1\<rparr>"
  have id: "e_id ep = wn_episode_id (env idx)" by (simp add: ep(2) import_episode_request_def)
  have stored: "message_stored d (u_id u) m (wn_episode_id (env idx)) st2"
    using ep(2,3) id session_stored_kept [OF ep(5) s(4)]
    by (auto simp: message_stored_def import_episode_request_def episode_from_request_def)
  have "cache_ok (u_id u) ?p st2" using cache_ok_kept [OF ep(5) s(5)] by (simp add: cache_ok_def)
  moreover have "\<forall>k \<in> {Suc idx..<Suc idx + length ms}. map_of (ss_sessions (mm_sessions st2)) (wn_session_id (env k)) = None"
  proof
    fix k assume k: "k \<in> {Suc idx..<Suc idx + length ms}"
    then have "wn_session_id (env k) \<noteq> wn_session_id (env idx)" "map_of (ss_sessions (mm_sessions st)) (wn_session_id (env k)) = None"
      using Cons.prems(3,4) unfolding rows by (auto simp: inj_on_def)
    then have "wn_session_id (env k) \<notin> insert (wn_session_id (env idx)) (dom (map_of (ss_sessions (mm_sessions st))))"
      by (simp add: domIff)
    then have "wn_session_id (env k) \<notin> dom (map_of (ss_sessions (mm_sessions st2)))" unfolding ep(6) using s(6) by blast
    then show "map_of (ss_sessions (mm_sessions st2)) (wn_session_id (env k)) = None" by (simp add: domIff)
  qed
  ultimately obtain c' st' where IH: "import_rows fm show_uuid env source u d (Suc idx) ms ?p st2 =
      Some (?p\<lparr>ip_imported := ip_imported ?p + of_nat (length ms), ip_sessions := c'\<rparr>, st')" "sessions_kept st2 st'"
    "\<And>k. k < length ms \<Longrightarrow> message_stored d (u_id u) (ms ! k) (wn_episode_id (env (Suc idx + k))) st'"
    "\<And>i. i \<notin> (\<lambda>k. wn_episode_id (env k)) ` {Suc idx..<Suc idx + length ms} \<Longrightarrow>
      map_of (ep_episodes (mm_episodes st')) i = map_of (ep_episodes (mm_episodes st2)) i"
    using Cons.IH [OF ep(4), of ?p "Suc idx"] Cons.prems(3,5) unfolding rows by (auto simp: inj_on_insert)
  have run: "import_rows fm show_uuid env source u d idx (m # ms) p st =
      Some (p\<lparr>ip_imported := ip_imported p + of_nat (length (m # ms)), ip_sessions := c'\<rparr>, st')"
    using s(1) ep(1) IH(1) by (simp add: Let_def algebra_simps)
  have own: "wn_episode_id (env idx) \<notin> (\<lambda>k. wn_episode_id (env k)) ` {Suc idx..<Suc idx + length ms}"
    using Cons.prems(5) unfolding rows by (auto simp: inj_on_def)
  have all: "message_stored d (u_id u) ((m # ms) ! k) (wn_episode_id (env (idx + k))) st'" if "k < length (m # ms)" for k
    using that IH(3) message_stored_kept [OF stored IH(2) IH(4) [OF own]] by (cases k) auto
  have rest: "map_of (ep_episodes (mm_episodes st')) i = map_of (ep_episodes (mm_episodes st)) i"
    if "i \<notin> (\<lambda>k. wn_episode_id (env k)) ` {idx..<idx + length (m # ms)}" for i
  proof -
    have "i \<noteq> wn_episode_id (env idx)" "i \<notin> (\<lambda>k. wn_episode_id (env k)) ` {Suc idx..<Suc idx + length ms}" using that by auto
    then show ?thesis using IH(4) ep(3) id s(7) by simp
  qed
  show ?case
    using run all rest sessions_kept_trans [OF sessions_kept_trans [OF s(3) ep(5)] IH(2)] by blast
qed

section \<open>Lemmas on the job records\<close>

lemma change_job_fields [simp]:
  "is_memory (change_job i f st) = is_memory st" "is_idempotency (change_job i f st) = is_idempotency st"
  "is_permits (change_job i f st) = is_permits st" "is_tasks (change_job i f st) = is_tasks st"
  by (simp_all add: change_job_def split: option.split)

lemma change_job_jobs [simp]:
  "map_of (is_jobs (change_job i f st)) = (map_of (is_jobs st))(i := map_option f (map_of (is_jobs st) i))"
  by (auto simp: change_job_def map_of_bt_insert fun_eq_iff split: option.split)

lemmas job_changes = set_import_job_status_def update_import_job_totals_def finalize_import_job_failure_def
  finalize_import_job_success_def

lemma timestamp_errors_grow: "errs \<noteq> [] \<Longrightarrow> timestamp_errors fm now idx ms errs \<noteq> []"
  by (induction fm now idx ms errs rule: timestamp_errors.induct) (auto simp: Let_def)

lemma timestamp_errors_out:
  "m \<in> set ms \<Longrightarrow> newest_allowed now < im_created_at m \<Longrightarrow> timestamp_errors fm now idx ms errs \<noteq> []"
  by (induction fm now idx ms errs rule: timestamp_errors.induct) (auto simp: Let_def timestamp_errors_grow)

text \<open>A run changes the record of its own job only, and neither keys nor tasks.\<close>

lemma run_import_job_fields:
  assumes "run_import_job fm show_uuid parse_uuid cfg env task st = Some (spawned, st')"
  shows "is_idempotency st' = is_idempotency st" "is_tasks st' = is_tasks st"
    "i \<noteq> it_job task \<Longrightarrow> map_of (is_jobs st') i = map_of (is_jobs st) i"
    "map_of (is_jobs st) i = None \<Longrightarrow> map_of (is_jobs st') i = None"
  using assms
  by (auto simp: run_import_job_def import_messages_def Let_def job_changes
      split: sum.splits if_splits option.splits prod.splits)

text \<open>
  What is known of a job \<open>i\<close> handed out under a scoped key: the key leads to it as long as it is recorded; and if it was
  refused, it stays failed and is never run.
\<close>

definition key_kept :: "uuid \<Rightarrow> string \<Rightarrow> uuid set \<times> import_state \<Rightarrow> bool" where
  "key_kept i key S \<longleftrightarrow> i \<in> fst S \<and> (map_of (is_jobs (snd S)) i \<noteq> None \<longrightarrow> map_of (is_idempotency (snd S)) key = Some i)"

definition job_refused :: "uuid \<Rightarrow> import_state \<Rightarrow> bool" where
  "job_refused i st \<longleftrightarrow> (\<forall>j. map_of (is_jobs st) i = Some j \<longrightarrow> ij_status j = IjFailed) \<and> (\<forall>t \<in> set (is_tasks st). it_job t \<noteq> i)"

lemma evict_jobs_fields:
  "map_of (is_jobs (evict_stale_import_jobs now age st)) i = Some j \<Longrightarrow> map_of (is_jobs st) i = Some j \<and>
     (map_of (is_idempotency st) key = Some i \<longrightarrow> map_of (is_idempotency (evict_stale_import_jobs now age st)) key = Some i)"
  "is_tasks (evict_stale_import_jobs now age st) = is_tasks st"
proof -
  let ?ids = "stale_ids (now - age) (is_jobs st)"
  have fold: "map_of (fold bt_remove xs m) k = (if k \<in> set xs then None else map_of m k)" for xs :: "uuid list" and m :: "(uuid, import_job) btree_map" and k
    by (induction xs arbitrary: m) (auto simp: map_of_bt_remove)
  assume j: "map_of (is_jobs (evict_stale_import_jobs now age st)) i = Some j"
  show "map_of (is_jobs st) i = Some j \<and>
     (map_of (is_idempotency st) key = Some i \<longrightarrow> map_of (is_idempotency (evict_stale_import_jobs now age st)) key = Some i)"
    using j by (auto simp: evict_stale_import_jobs_def Let_def fold intro!: map_of_filter_in split: if_splits)
next
  show "is_tasks (evict_stale_import_jobs now age st) = is_tasks st" by (simp add: evict_stale_import_jobs_def Let_def)
qed

lemma key_kept_submit:
  assumes "key_kept i key (used, st)" and "job_id \<noteq> i"
  shows "key_kept i key (insert job_id used, snd (import_chat_history req job_id now now' st))"
proof -
  have "map_of (is_jobs st) i = None" if "map_of (is_idempotency st) (scoped_key user k) = Some i" "known_job (Some k) user st = None"
    for k user using that by (simp add: known_job_def)
  then show ?thesis
    using assms by (auto simp: key_kept_def import_chat_history_def Let_def map_of_bt_insert split: option.split)
qed

lemma job_refused_submit:
  "job_refused i st \<Longrightarrow> job_id \<noteq> i \<Longrightarrow> job_refused i (snd (import_chat_history req job_id now now' st))"
  by (auto simp: job_refused_def import_chat_history_def Let_def map_of_bt_insert split: option.split)

lemma import_task_run_fields:
  assumes "import_task_run fm show_uuid parse_uuid cfg env task st = Some (spawned, st')"
  shows "is_idempotency st' = is_idempotency st" "set (is_tasks st') \<subseteq> set (is_tasks st)"
    "i \<noteq> it_job task \<Longrightarrow> map_of (is_jobs st') i = map_of (is_jobs st) i"
    "map_of (is_jobs st) i = None \<Longrightarrow> map_of (is_jobs st') i = None"
proof -
  obtain st1 where run: "run_import_job fm show_uuid parse_uuid cfg env task (st\<lparr>is_tasks := remove1 task (is_tasks st)\<rparr>) = Some (spawned, st1)"
    and st': "st' = st1\<lparr>is_permits := is_permits st1 + 1\<rparr>"
    using assms by (auto simp: import_task_run_def)
  show "is_idempotency st' = is_idempotency st" "set (is_tasks st') \<subseteq> set (is_tasks st)"
    "i \<noteq> it_job task \<Longrightarrow> map_of (is_jobs st') i = map_of (is_jobs st) i"
    "map_of (is_jobs st) i = None \<Longrightarrow> map_of (is_jobs st') i = None"
    using run_import_job_fields(1,2) [OF run] run_import_job_fields(3,4) [OF run, of i] set_remove1_subset [of task "is_tasks st"]
    by (auto simp: st')
qed

lemma key_kept_step: "import_step fm show_uuid parse_uuid cfg S S' \<Longrightarrow> key_kept i key S \<Longrightarrow> key_kept i key S'"
proof (induction rule: import_step.induct)
  case (Submit job_id used st req now now')
  then have "job_id \<noteq> i" by (auto simp: key_kept_def)
  then show ?case using Submit.prems by (rule key_kept_submit [rotated])
next
  case (Run task st env spawned st' used)
  then show ?case using import_task_run_fields(1) [OF Run(2)] import_task_run_fields(4) [OF Run(2), of i] by (auto simp: key_kept_def)
next
  case (Evict used st now age)
  then show ?case using evict_jobs_fields(1) [of now age st i] by (auto simp: key_kept_def)
qed (simp add: key_kept_def)

lemma job_refused_step:
  "import_step fm show_uuid parse_uuid cfg S S' \<Longrightarrow> i \<in> fst S \<Longrightarrow> job_refused i (snd S) \<Longrightarrow> i \<in> fst S' \<and> job_refused i (snd S')"
proof (induction rule: import_step.induct)
  case (Submit job_id used st req now now')
  then show ?case using job_refused_submit [of i st job_id] by auto
next
  case (Run task st env spawned st' used)
  then have "i \<noteq> it_job task" by (auto simp: job_refused_def)
  then show ?case using Run import_task_run_fields(2) [OF Run(2)] import_task_run_fields(3) [OF Run(2), of i] by (auto simp: job_refused_def)
next
  case (Evict used st now age)
  then show ?case using evict_jobs_fields(1) [of now age st i] by (auto simp: job_refused_def evict_jobs_fields(2))
qed (simp add: job_refused_def)

section \<open>Properties\<close>

text \<open>C29: A job whose payload parses into messages with acceptable times and that is no dry run always ends once its user
  is found or created, whatever the store holds: it is completed, with as many imported messages as the payload has and none
  failed, and each message is stored as an episode with its text, role and time in a session of this user that has the name
  of the message, the default name or \<open>imported\<close>; every other episode is unchanged.\<close>

theorem import_stores_all_messages:
  assumes "sessions_ok (mm_sessions (is_memory st))" and "map_of (is_jobs st) (it_job task) \<noteq> None"
    and "parse_import_messages fm (ie_parse env) (it_source task) (it_payload task) = Inr ms"
    and "timestamp_errors fm (ie_checked env) 0 ms [] = []" and "\<not> it_dry_run task"
    and "find_or_create_memory_user show_uuid parse_uuid (ie_user_id env) (ie_user_now env) (it_user task) (mm_users (is_memory st)) =
      Some (Inr u, us)"
    and "inj_on (\<lambda>k. wn_session_id (ie_rows env k)) {0..<length ms}" and "inj_on (\<lambda>k. wn_episode_id (ie_rows env k)) {0..<length ms}"
    and "\<forall>k \<in> {0..<length ms}. map_of (ss_sessions (mm_sessions (is_memory st))) (wn_session_id (ie_rows env k)) = None"
  shows "\<exists>spawned st' j. run_import_job fm show_uuid parse_uuid cfg env task st = Some (spawned, st') \<and>
    map_of (is_jobs st') (it_job task) = Some j \<and> ij_status j = IjCompleted \<and> ij_total_messages j = of_nat (length ms) \<and>
    ij_imported_messages j = of_nat (length ms) \<and> ij_failed_messages j = 0 \<and> ij_errors j = [] \<and>
    (\<forall>k < length ms. message_stored (it_default_session task) (u_id u) (ms ! k) (wn_episode_id (ie_rows env k)) (is_memory st')) \<and>
    (\<forall>i. i \<notin> (\<lambda>k. wn_episode_id (ie_rows env k)) ` {0..<length ms} \<longrightarrow>
      map_of (ep_episodes (mm_episodes (is_memory st'))) i = map_of (ep_episodes (mm_episodes (is_memory st))) i)"
proof -
  let ?p = "\<lparr>ip_imported = 0, ip_failed = 0, ip_sessions = [], ip_errors = []\<rparr>"
  let ?m = "set_users us (is_memory st)"
  have us: "users_ok us" "map_of (us_users us) (u_id u) = Some u"
    using memory_user_spec [OF sessions_okD(1) [OF assms(1)]] assms(6) by (metis Pair_inject option.inject)+
  have same: "ss_sessions (mm_sessions ?m) = ss_sessions (mm_sessions (is_memory st))"
    "ep_episodes (mm_episodes ?m) = ep_episodes (mm_episodes (is_memory st))" "mm_users ?m = us"
    by (simp_all add: set_users_def set_sessions_def)
  have ready: "import_ready (u_id u) ?m"
    using us sessions_ok_users [OF assms(1) us(1)] by (simp add: import_ready_def set_users_def set_sessions_def)
  have cache: "cache_ok (u_id u) ?p ?m" by (simp add: cache_ok_def)
  obtain c m where m: "import_rows fm show_uuid (ie_rows env) (it_source task) u (it_default_session task) 0 ms ?p ?m =
      Some (?p\<lparr>ip_imported := of_nat (length ms), ip_sessions := c\<rparr>, m)"
    "\<And>k. k < length ms \<Longrightarrow> message_stored (it_default_session task) (u_id u) (ms ! k) (wn_episode_id (ie_rows env k)) m"
    "\<And>i. i \<notin> (\<lambda>k. wn_episode_id (ie_rows env k)) ` {0..<length ms} \<Longrightarrow>
      map_of (ep_episodes (mm_episodes m)) i = map_of (ep_episodes (mm_episodes ?m)) i"
    using import_rows_spec [OF ready cache, of "ie_rows env" 0 ms fm show_uuid "it_source task" "it_default_session task"] assms(7-9)
    by (auto simp: same)
  have hooks: "message_stored d v x i (m\<lparr>mm_webhooks := ws\<rparr>) = message_stored d v x i m" for d v x i ws
    by (simp add: message_stored_def session_stored_def)
  obtain j where j: "map_of (is_jobs st) (it_job task) = Some j" using assms(2) by blast
  let ?st2 = "update_import_job_totals (it_job task) (of_nat (length ms)) (set_import_job_status (it_job task) IjRunning (ie_started env) st)"
  have fields: "is_memory ?st2 = is_memory st"
    "\<exists>j'. map_of (is_jobs ?st2) (it_job task) = Some j' \<and> ij_total_messages j' = of_nat (length ms)"
    using j by (simp_all add: job_changes)
  have "run_import_job fm show_uuid parse_uuid cfg env task st = import_messages fm show_uuid parse_uuid cfg env task ms ?st2"
    using assms(3-5) by (simp add: run_import_job_def Let_def)
  then show ?thesis
    using m fields(2) assms(6)
    by (auto simp: import_messages_def Let_def fields(1) finalize_import_job_success_def hooks same split: prod.split)
qed

text \<open>An idempotency key leads to the job of the request that first used it, as long as this job is recorded: every later
  request of the same user with the same key answers this job with its status and neither starts a job nor changes
  anything. That includes a first request that was refused because all permits were taken: the key then answers the failed
  job each time, and its messages are never imported under this key.\<close>

theorem import_key_answers_same_job:
  assumes "trim (ir_user req) = user" and "user \<noteq> []" and "nonempty_trim (ir_idempotency_key req) = Some k"
    and "known_job (Some k) user st = None" and "i \<notin> used" and "\<forall>t \<in> set (is_tasks st). it_job t \<in> used"
    and "import_chat_history req i now now' st = (r, st1)"
    and "(import_step fm show_uuid parse_uuid cfg)\<^sup>*\<^sup>* (insert i used, st1) (used2, st2)"
    and "map_of (is_jobs st2) i = Some j"
    and "trim (ir_user req2) = user" and "nonempty_trim (ir_idempotency_key req2) = Some k"
  shows "import_chat_history req2 i2 now2 now2' st2 = (Inr (i, ij_status j), st2) \<and>
    (is_permits st = 0 \<longrightarrow> r = Inl (Validation too_many_jobs) \<and> ij_status j = IjFailed \<and>
      (\<forall>t \<in> set (is_tasks st2). it_job t \<noteq> i))"
proof -
  have start: "key_kept i (scoped_key user k) (insert i used, st1)"
    using assms(1-4,7) by (auto simp: key_kept_def import_chat_history_def Let_def map_of_bt_insert split: if_splits)
  have "key_kept i (scoped_key user k) (used2, st2)"
    using assms(8) start by (induction rule: rtranclp_induct) (auto intro: key_kept_step)
  then have first: "import_chat_history req2 i2 now2 now2' st2 = (Inr (i, ij_status j), st2)"
    using assms(2,9-11) by (simp add: import_chat_history_def Let_def key_kept_def known_job_def)
  have second: "r = Inl (Validation too_many_jobs) \<and> ij_status j = IjFailed \<and> (\<forall>t \<in> set (is_tasks st2). it_job t \<noteq> i)"
    if none: "is_permits st = 0"
  proof -
    have r: "r = Inl (Validation too_many_jobs)" "job_refused i st1"
      using assms(1-7) none
      by (auto simp: import_chat_history_def Let_def job_refused_def map_of_bt_insert split: if_splits)
    have "i \<in> fst (used2, st2) \<and> job_refused i (snd (used2, st2))"
      using assms(8) r(2) by (induction rule: rtranclp_induct) (auto dest: job_refused_step)
    then show ?thesis using r(1) assms(9) by (simp add: job_refused_def)
  qed
  from first second show ?thesis by blast
qed

text \<open>Gemini exports carry no times, so the chunk at position \<open>k\<close> gets the time of parsing plus \<open>k\<close> seconds. A message more
  than five minutes ahead of the clock is refused, so an export with an importable chunk at a position above 300 (and the
  seconds that passed since parsing began) fails as a whole, and nothing of it is stored.\<close>

theorem long_gemini_export_refused:
  assumes "it_source task = CsGeminiExport" and "map_of (is_jobs st) (it_job task) \<noteq> None"
    and "get_then ''chunkedPrompt'' (get_then ''chunks'' json_array) (it_payload task) = Some chunks"
    and "k < length chunks" and "gemini_message (pc_base (ie_parse env)) k (chunks ! k) \<noteq> None"
    and "ie_checked env - pc_base (ie_parse env) < (int k - 300) * ns_per_second"
  shows "\<exists>st' j. run_import_job fm show_uuid parse_uuid cfg env task st = Some ([], st') \<and> is_memory st' = is_memory st \<and>
    map_of (is_jobs st') (it_job task) = Some j \<and> ij_status j = IjFailed \<and> ij_imported_messages j =
      ij_imported_messages (the (map_of (is_jobs st) (it_job task)))"
proof -
  let ?base = "pc_base (ie_parse env)"
  obtain m where m: "gemini_message ?base k (chunks ! k) = Some m" using assms(5) by blast
  have time: "im_created_at m = ?base + int k * ns_per_second"
    using m by (auto simp: gemini_message_def split: if_splits option.splits)
  let ?ms = "List.map_filter (\<lambda>(idx, c). gemini_message ?base idx c) (zip [0..<length chunks] chunks)"
  have "(k, chunks ! k) \<in> set (zip [0..<length chunks] chunks)"
    using assms(4) by (auto simp: set_zip intro!: exI [of _ k])
  then have mem: "m \<in> set ?ms" using m by (force simp: map_filter_def)
  have "json_object (it_payload task) \<noteq> None"
    using assms(3) by (auto simp: json_get_def json_object_def split: json.splits)
  then have parsed: "parse_import_messages fm (ie_parse env) (it_source task) (it_payload task) = Inr ?ms"
    using mem assms(1,3) by (auto simp: parse_import_messages_def parse_gemini_export_payload_def Let_def)
  have "newest_allowed (ie_checked env) < im_created_at m" using assms(6) by (simp add: newest_allowed_def time)
  then have "timestamp_errors fm (ie_checked env) 0 ?ms [] \<noteq> []" by (rule timestamp_errors_out [OF mem])
  then show ?thesis
    using parsed assms(2) by (auto simp: run_import_job_def Let_def job_changes)
qed

section \<open>Samples\<close>

definition sample_formats :: import_formats where
  "sample_formats = \<lparr>fm_json = (\<lambda>_. Inl ''no parser''), fm_rfc3339 = (\<lambda>_. None), fm_from_timestamp = Some,
     fm_truncated = (\<lambda>_. 0), fm_show_time = (\<lambda>_. []), fm_show_error = (\<lambda>_. [])\<rparr>"

definition sample_import_env :: import_env where
  "sample_import_env = \<lparr>ie_started = 0, ie_parse = \<lparr>pc_base = 0, pc_row = (\<lambda>_. 0), pc_node = (\<lambda>_ _. 0)\<rparr>, ie_checked = 0,
     ie_user_id = 1, ie_user_now = 0,
     ie_rows = (\<lambda>k. sample_write_env\<lparr>wn_session_id := of_nat k, wn_episode_id := of_nat k\<rparr>), ie_finished = 0,
     ie_event_ids = (\<lambda>k. of_nat k), ie_event_now = 0\<rparr>"

definition sample_row :: json where
  "sample_row = JObject [(''content'', JString ''hello''), (''role'', JString ''human'')]"

definition sample_import :: "chat_history_source \<Rightarrow> json \<Rightarrow> import_request" where
  "sample_import source payload = \<lparr>ir_user = ''ann'', ir_source = source, ir_payload = payload, ir_default_session = None,
     ir_dry_run = False, ir_idempotency_key = Some ''k1''\<rparr>"

definition sample_task :: "chat_history_source \<Rightarrow> json \<Rightarrow> import_task" where
  "sample_task source payload = \<lparr>it_job = 7, it_source = source, it_user = ''ann'', it_payload = payload,
     it_default_session = None, it_dry_run = False\<rparr>"

definition sample_import_state :: import_state where
  "sample_import_state =
     (import_state_new memory_state_new)\<lparr>is_jobs := [(7, queued_job (sample_import CsNdjson JNull) 7 0)]\<rparr>"

lemma import_stores_all_messages_witness:
  "\<exists>spawned st' j. run_import_job sample_formats (\<lambda>_. []) (\<lambda>_. None) sample_config sample_import_env
     (sample_task CsNdjson (JArray [sample_row])) sample_import_state = Some (spawned, st') \<and>
     map_of (is_jobs st') 7 = Some j \<and> ij_status j = IjCompleted \<and> ij_imported_messages j = 1"
proof -
  let ?task = "sample_task CsNdjson (JArray [sample_row])"
  let ?m = "\<lparr>im_session = None, im_role = MrUser, im_content = ''hello'', im_created_at = 0\<rparr>"
  have mem: "is_memory sample_import_state = memory_state_new" "map_of (is_jobs sample_import_state) 7 \<noteq> None" "it_job ?task = 7"
    "\<not> it_dry_run ?task"
    by (simp_all add: sample_import_state_def import_state_new_def sample_task_def)
  have ok: "sessions_ok (mm_sessions memory_state_new)" using memory_ok_new by (simp add: memory_ok_def episodes_okD(1))
  have parsed: "parse_import_messages sample_formats (ie_parse sample_import_env) (it_source ?task) (it_payload ?task) = Inr [?m]"
    by code_simp
  have times: "timestamp_errors sample_formats (ie_checked sample_import_env) 0 [?m] [] = []" by code_simp
  have no_page: "list_users user_store_new 200 None = []" by code_simp
  have "find_user_by_name ''ann'' user_store_new = Some None"
    unfolding find_user_by_name_def by (subst scan_pages.simps) (simp add: no_page)
  moreover have "eq_ignore_ascii_case ''User'' ''user''" by code_simp
  then have not_found: "is_user_not_found (NotFound ''User'' ''ann'')" by (simp add: is_user_not_found_def)
  ultimately have "find_user_by_identifier (\<lambda>_. None) ''ann'' user_store_new = Some (Inl (NotFound ''User'' ''ann''))"
    by (simp add: find_user_by_identifier_def Let_def get_user_by_external_id_def user_store_new_def)
  with not_found obtain u us where u: "find_or_create_memory_user (\<lambda>_. []) (\<lambda>_. None) (ie_user_id sample_import_env)
      (ie_user_now sample_import_env) (it_user ?task) (mm_users memory_state_new) = Some (Inr u, us)"
    by (auto simp: find_or_create_memory_user_def sample_task_def memory_state_new_def episode_store_new_def session_store_new_def
        create_user_def Let_def user_store_new_def)
  have "map_of (ss_sessions (mm_sessions memory_state_new)) i = None" for i
    by (simp add: memory_state_new_def episode_store_new_def session_store_new_def)
  then show ?thesis
    using import_stores_all_messages [of sample_import_state ?task sample_formats sample_import_env "[?m]" "\<lambda>_. []" "\<lambda>_. None" u us
        sample_config] mem ok parsed times u
    by auto
qed

lemma import_key_answers_same_job_witness:
  "fst (import_chat_history (sample_import CsNdjson JNull) 8 3 4 (snd (import_chat_history (sample_import CsNdjson JNull) 7 1 2
     ((import_state_new memory_state_new)\<lparr>is_permits := 0\<rparr>)))) = Inr (7, IjFailed)"
proof -
  let ?req = "sample_import CsNdjson JNull"
  let ?st = "(import_state_new memory_state_new)\<lparr>is_permits := 0\<rparr>"
  obtain r st1 where first: "import_chat_history ?req 7 1 2 ?st = (r, st1)" by (cases "import_chat_history ?req 7 1 2 ?st")
  have req: "trim (ir_user ?req) = ''ann''" "nonempty_trim (ir_idempotency_key ?req) = Some ''k1''" by code_simp+
  have known: "known_job (Some ''k1'') ''ann'' ?st = None" by (simp add: known_job_def import_state_new_def)
  obtain j where j: "map_of (is_jobs st1) 7 = Some j"
    using first req known by (auto simp: import_chat_history_def Let_def map_of_bt_insert import_state_new_def)
  have same: "(import_step sample_formats (\<lambda>_. []) (\<lambda>_. None) sample_config)\<^sup>*\<^sup>* (insert 7 {}, st1) (insert 7 {}, st1)" by simp
  have "is_tasks ?st = []" "is_permits ?st = 0" by (simp_all add: import_state_new_def)
  then show ?thesis
    using import_key_answers_same_job [OF req(1) _ req(2) known _ _ first same j req(1,2), of 8 3 4] first by simp
qed

lemma long_gemini_export_refused_witness:
  "\<exists>st'. run_import_job sample_formats (\<lambda>_. []) (\<lambda>_. None) sample_config sample_import_env
     (sample_task CsGeminiExport (JObject [(''chunkedPrompt'', JObject [(''chunks'',
        JArray (replicate 302 (JObject [(''role'', JString ''user''), (''text'', JString ''hi'')])))])])) sample_import_state =
     Some ([], st') \<and> is_memory st' = is_memory sample_import_state"
proof -
  let ?chunk = "JObject [(''role'', JString ''user''), (''text'', JString ''hi'')]"
  let ?chunks = "replicate 302 ?chunk"
  let ?task = "sample_task CsGeminiExport (JObject [(''chunkedPrompt'', JObject [(''chunks'', JArray ?chunks)])])"
  have "get_then ''chunkedPrompt'' (get_then ''chunks'' json_array) (it_payload ?task) = Some ?chunks"
    by (simp add: sample_task_def json_get_def json_array_def)
  moreover have "gemini_message (pc_base (ie_parse sample_import_env)) 301 ?chunk \<noteq> None" by code_simp
  moreover have "?chunks ! 301 = ?chunk" by (rule nth_replicate) simp
  moreover have "301 < length ?chunks" by (simp only: length_replicate)
  moreover have "it_source ?task = CsGeminiExport" "map_of (is_jobs sample_import_state) (it_job ?task) \<noteq> None"
    "ie_checked sample_import_env - pc_base (ie_parse sample_import_env) < (int 301 - 300) * ns_per_second"
    by (simp_all add: sample_task_def sample_import_state_def sample_import_env_def)
  ultimately show ?thesis
    using long_gemini_export_refused [of ?task sample_import_state ?chunks 301 sample_import_env sample_formats "\<lambda>_. []" "\<lambda>_. None"
        sample_config] by metis
qed

end
