(* ===== verification/Pipeline_Dag.thy ===== *)
theory Pipeline_Dag
  imports Mnemo_Prelude
begin

text \<open>
  The formal description of the ingestion pipeline in \<^verbatim>\<open>mnemo-ingest/src/dag.rs\<close>: the steps with their dependencies,
  the counters of each step, the bounded queue of dead letters and the status report. A counter is atomic, so each recording
  is a sequence of single increments that other threads may interleave. The error rate is the exact quotient, where the code
  rounds to a float.
\<close>

section \<open>Steps\<close>

datatype pipeline_step = PsIngest | PsExtract | PsEmbed | PsGraphUpdate | PsWebhookNotify | PsDigestInvalidate | PsSessionSummarize

definition all_ordered :: "pipeline_step list" where
  "all_ordered = [PsIngest, PsExtract, PsEmbed, PsGraphUpdate, PsWebhookNotify, PsDigestInvalidate, PsSessionSummarize]"

definition dependencies :: "pipeline_step \<Rightarrow> pipeline_step list" where
  "dependencies s =
     (case s of
        PsIngest \<Rightarrow> []
      | PsExtract \<Rightarrow> [PsIngest]
      | PsEmbed \<Rightarrow> [PsExtract]
      | PsGraphUpdate \<Rightarrow> [PsExtract]
      | PsWebhookNotify \<Rightarrow> [PsGraphUpdate]
      | PsDigestInvalidate \<Rightarrow> [PsGraphUpdate]
      | PsSessionSummarize \<Rightarrow> [PsEmbed])"

definition step_description :: "pipeline_step \<Rightarrow> string" where
  "step_description s =
     (case s of
        PsIngest \<Rightarrow> ''Claim episode from pending queue''
      | PsExtract \<Rightarrow> ''LLM entity + relationship extraction''
      | PsEmbed \<Rightarrow> ''Generate embeddings for entities, edges, episode''
      | PsGraphUpdate \<Rightarrow> ''Resolve entities, create edges, handle conflicts''
      | PsWebhookNotify \<Rightarrow> ''Fire FactAdded/FactSuperseded webhooks''
      | PsDigestInvalidate \<Rightarrow> ''Clear cached digests for affected users''
      | PsSessionSummarize \<Rightarrow> ''Progressive session summarization (conditional)'')"

definition is_critical :: "pipeline_step \<Rightarrow> bool" where
  "is_critical s = (case s of PsWebhookNotify \<Rightarrow> False | PsDigestInvalidate \<Rightarrow> False | PsSessionSummarize \<Rightarrow> False | _ \<Rightarrow> True)"

record dag_node =
  dn_step :: pipeline_step
  dn_description :: string
  dn_dependencies :: "pipeline_step list"
  dn_critical :: bool

definition build_dag_definition :: "dag_node list" where
  "build_dag_definition =
     map (\<lambda>s. \<lparr>dn_step = s, dn_description = step_description s, dn_dependencies = dependencies s, dn_critical = is_critical s\<rparr>)
       all_ordered"

section \<open>Counters of a step\<close>

record step_metrics =
  sm_step :: pipeline_step
  sm_executions :: u64
  sm_successes :: u64
  sm_failures :: u64
  sm_retries :: u64
  sm_total_duration_us :: u64

definition step_metrics_new :: "pipeline_step \<Rightarrow> step_metrics" where
  "step_metrics_new s =
     \<lparr>sm_step = s, sm_executions = 0, sm_successes = 0, sm_failures = 0, sm_retries = 0, sm_total_duration_us = 0\<rparr>"

text \<open>The single increments, and the increments of a recording in the order in which it makes them.\<close>

datatype counter_op = CoExecution | CoSuccess | CoFailure | CoDuration u64

fun fetch_add :: "counter_op \<Rightarrow> step_metrics \<Rightarrow> step_metrics" where
  "fetch_add CoExecution m = m\<lparr>sm_executions := sm_executions m + 1\<rparr>"
| "fetch_add CoSuccess m = m\<lparr>sm_successes := sm_successes m + 1\<rparr>"
| "fetch_add CoFailure m = m\<lparr>sm_failures := sm_failures m + 1\<rparr>"
| "fetch_add (CoDuration d) m = m\<lparr>sm_total_duration_us := sm_total_duration_us m + d\<rparr>"

definition record_success :: "u64 \<Rightarrow> counter_op list" where
  "record_success duration_us = [CoExecution, CoSuccess, CoDuration duration_us]"

definition record_failure :: "counter_op list" where
  "record_failure = [CoExecution, CoFailure]"

definition record_retry :: "step_metrics \<Rightarrow> step_metrics" where
  "record_retry m = m\<lparr>sm_retries := sm_retries m + 1\<rparr>"

record step_snapshot =
  sp_step :: pipeline_step
  sp_executions :: u64
  sp_successes :: u64
  sp_failures :: u64
  sp_retries :: u64
  sp_error_rate :: rat
  sp_avg_duration_us :: u64

text \<open>A snapshot loads the counters one after the other; \<open>m k\<close> is what the \<open>k\<close>-th load finds.\<close>

definition step_metrics_to_json :: "(nat \<Rightarrow> step_metrics) \<Rightarrow> step_snapshot" where
  "step_metrics_to_json m =
     (let execs = sm_executions (m 0); succs = sm_successes (m 1); fails = sm_failures (m 2); retries = sm_retries (m 3);
          total_us = sm_total_duration_us (m 4)
      in \<lparr>sp_step = sm_step (m 0), sp_executions = execs, sp_successes = succs, sp_failures = fails, sp_retries = retries,
          sp_error_rate = (if execs > 0 then of_nat (unat fails) / of_nat (unat execs) else 0),
          sp_avg_duration_us = (if succs > 0 then total_us div succs else 0)\<rparr>)"

section \<open>Dead letters\<close>

record dead_letter_item =
  dl_episode_id :: uuid
  dl_failed_at_step :: pipeline_step
  dl_retry_count :: u32
  dl_last_error :: string
  dl_dead_lettered_at :: timestamp

record dead_letter_queue =
  dq_items :: "dead_letter_item list"
  dq_max_size :: nat

definition dead_letter_queue_new :: "nat \<Rightarrow> dead_letter_queue" where
  "dead_letter_queue_new n = \<lparr>dq_items = [], dq_max_size = n\<rparr>"

definition dlq_push :: "dead_letter_item \<Rightarrow> dead_letter_queue \<Rightarrow> dead_letter_queue" where
  "dlq_push x q =
     (let xs = (if length (dq_items q) \<ge> dq_max_size q then tl (dq_items q) else dq_items q) in q\<lparr>dq_items := xs @ [x]\<rparr>)"

definition dlq_len :: "dead_letter_queue \<Rightarrow> nat" where
  "dlq_len q = length (dq_items q)"

definition dlq_is_empty :: "dead_letter_queue \<Rightarrow> bool" where
  "dlq_is_empty q \<longleftrightarrow> dlq_len q = 0"

definition dlq_recent :: "nat \<Rightarrow> dead_letter_queue \<Rightarrow> dead_letter_item list" where
  "dlq_recent n q = take n (rev (dq_items q))"

definition dlq_drain :: "dead_letter_queue \<Rightarrow> dead_letter_item list \<times> dead_letter_queue" where
  "dlq_drain q = (dq_items q, q\<lparr>dq_items := []\<rparr>)"

section \<open>Configuration and status\<close>

record dag_config =
  dc_max_retries :: u32
  dc_dead_letter_enabled :: bool
  dc_dead_letter_max_size :: nat
  dc_retry_base_delay_ms :: u64

definition dag_config_default :: dag_config where
  "dag_config_default = \<lparr>dc_max_retries = 3, dc_dead_letter_enabled = True, dc_dead_letter_max_size = 1000,
     dc_retry_base_delay_ms = 500\<rparr>"

definition backoff_delay_ms :: "u32 \<Rightarrow> dag_config \<Rightarrow> u64" where
  "backoff_delay_ms retry_count c = dc_retry_base_delay_ms c * push_bit (unat (min retry_count 10)) 1"

record pipeline_metrics =
  pm_ingest :: step_metrics
  pm_extract :: step_metrics
  pm_embed :: step_metrics
  pm_graph_update :: step_metrics
  pm_webhook_notify :: step_metrics
  pm_digest_invalidate :: step_metrics
  pm_session_summarize :: step_metrics
  pm_dead_letter :: dead_letter_queue
  pm_config :: dag_config

definition pipeline_metrics_new :: "dag_config \<Rightarrow> pipeline_metrics" where
  "pipeline_metrics_new c =
     \<lparr>pm_ingest = step_metrics_new PsIngest, pm_extract = step_metrics_new PsExtract, pm_embed = step_metrics_new PsEmbed,
      pm_graph_update = step_metrics_new PsGraphUpdate, pm_webhook_notify = step_metrics_new PsWebhookNotify,
      pm_digest_invalidate = step_metrics_new PsDigestInvalidate, pm_session_summarize = step_metrics_new PsSessionSummarize,
      pm_dead_letter = dead_letter_queue_new (dc_dead_letter_max_size c), pm_config = c\<rparr>"

definition get_step :: "pipeline_step \<Rightarrow> pipeline_metrics \<Rightarrow> step_metrics" where
  "get_step s m =
     (case s of
        PsIngest \<Rightarrow> pm_ingest m
      | PsExtract \<Rightarrow> pm_extract m
      | PsEmbed \<Rightarrow> pm_embed m
      | PsGraphUpdate \<Rightarrow> pm_graph_update m
      | PsWebhookNotify \<Rightarrow> pm_webhook_notify m
      | PsDigestInvalidate \<Rightarrow> pm_digest_invalidate m
      | PsSessionSummarize \<Rightarrow> pm_session_summarize m)"

record dead_letter_summary =
  ds_count :: nat
  ds_max_size :: nat
  ds_recent_items :: "dead_letter_item list"

record pipeline_status =
  pt_steps :: "step_snapshot list"
  pt_dag :: "dag_node list"
  pt_dead_letter :: dead_letter_summary
  pt_config :: dag_config

text \<open>The report of metrics that nobody writes meanwhile.\<close>

definition pipeline_status_of :: "pipeline_metrics \<Rightarrow> pipeline_status" where
  "pipeline_status_of m =
     \<lparr>pt_steps = map (\<lambda>s. step_metrics_to_json (\<lambda>_. get_step s m)) all_ordered, pt_dag = build_dag_definition,
      pt_dead_letter = \<lparr>ds_count = dlq_len (pm_dead_letter m), ds_max_size = dc_dead_letter_max_size (pm_config m),
        ds_recent_items = dlq_recent 10 (pm_dead_letter m)\<rparr>, pt_config = pm_config m\<rparr>"

section \<open>The dead letters against their history\<close>

text \<open>
  The specification keeps all items pushed since the last draining, oldest first; the queue shows the last of them, as many
  as it may hold, and never fewer than one.
\<close>

datatype dlq_op = DlPush dead_letter_item | DlDrain

fun history_after :: "dlq_op list \<Rightarrow> dead_letter_item list \<Rightarrow> dead_letter_item list" where
  "history_after [] h = h"
| "history_after (DlPush x # ops) h = history_after ops (h @ [x])"
| "history_after (DlDrain # ops) h = history_after ops []"

fun queue_after :: "dlq_op list \<Rightarrow> dead_letter_queue \<Rightarrow> dead_letter_queue" where
  "queue_after [] q = q"
| "queue_after (DlPush x # ops) q = queue_after ops (dlq_push x q)"
| "queue_after (DlDrain # ops) q = queue_after ops (snd (dlq_drain q))"

definition last_n :: "nat \<Rightarrow> 'a list \<Rightarrow> 'a list" where
  "last_n n xs = drop (length xs - n) xs"

definition shows_history :: "dead_letter_item list \<Rightarrow> dead_letter_queue \<Rightarrow> bool" where
  "shows_history h q \<longleftrightarrow> dq_items q = last_n (max 1 (dq_max_size q)) h"

lemma last_n_snoc: "1 \<le> n \<Longrightarrow> last_n n (xs @ [x]) = (if length (last_n n xs) \<ge> n then tl (last_n n xs) else last_n n xs) @ [x]"
proof -
  assume n: "1 \<le> n"
  show ?thesis
  proof (cases "n \<le> length xs")
    case True
    then have "length xs + 1 - n = Suc (length xs - n)" by simp
    then show ?thesis using True n by (simp add: last_n_def drop_Suc tl_drop)
  next
    case False
    then show ?thesis by (simp add: last_n_def)
  qed
qed

lemma shows_history_push: "shows_history h q \<Longrightarrow> shows_history (h @ [x]) (dlq_push x q)"
proof -
  assume s: "shows_history h q"
  let ?n = "max 1 (dq_max_size q)"
  have full: "(if length (dq_items q) \<ge> dq_max_size q then tl (dq_items q) else dq_items q) =
      (if length (dq_items q) \<ge> ?n then tl (dq_items q) else dq_items q)"
    by (cases "dq_items q") (auto simp: max_def)
  have "dq_items (dlq_push x q) = last_n ?n (h @ [x])"
    using s last_n_snoc [of ?n h x] full by (simp add: dlq_push_def Let_def shows_history_def)
  then show ?thesis by (simp add: shows_history_def dlq_push_def Let_def)
qed

lemma shows_history_drain: "shows_history [] (snd (dlq_drain q))"
  by (simp add: shows_history_def dlq_drain_def last_n_def)

lemma shows_history_run: "shows_history h q \<Longrightarrow> shows_history (history_after ops h) (queue_after ops q)"
  by (induction ops h arbitrary: q rule: history_after.induct) (auto intro: shows_history_push shows_history_drain)

lemma dlq_max_size_same: "dq_max_size (queue_after ops q) = dq_max_size q"
  by (induction ops q rule: queue_after.induct) (auto simp: dlq_push_def dlq_drain_def Let_def)

section \<open>The counters under interleaving\<close>

text \<open>
  The threads that record into one step, each with the increments it has still to make. A load of a snapshot may fall
  between any two increments.
\<close>

inductive record_step :: "step_metrics \<times> counter_op list list \<Rightarrow> step_metrics \<times> counter_op list list \<Rightarrow> bool" where
  StartSuccess: "record_step (m, ts) (m, record_success d # ts)"
| StartFailure: "record_step (m, ts) (m, record_failure # ts)"
| Increment: "record_step (m, ts @ (f # fs) # us) (fetch_add f m, ts @ fs # us)"
| Retry: "record_step (m, ts) (record_retry m, ts)"

definition thread_ok :: "counter_op list \<Rightarrow> bool" where
  "thread_ok fs \<longleftrightarrow> fs \<in> {[], record_failure, [CoFailure]} \<or> (\<exists>d. fs \<in> {record_success d, [CoSuccess, CoDuration d], [CoDuration d]})"

definition halfway :: "counter_op list \<Rightarrow> bool" where
  "halfway fs = (case fs of CoSuccess # _ \<Rightarrow> True | CoFailure # _ \<Rightarrow> True | _ \<Rightarrow> False)"

definition counts_ok :: "step_metrics \<times> counter_op list list \<Rightarrow> bool" where
  "counts_ok S \<longleftrightarrow> (\<forall>fs \<in> set (snd S). thread_ok fs) \<and>
     sm_executions (fst S) = sm_successes (fst S) + sm_failures (fst S) + of_nat (length (filter halfway (snd S)))"

lemma thread_ok_increment:
  assumes "thread_ok (f # fs)" and "sm_executions m + x = sm_successes m + sm_failures m + (if halfway (f # fs) then 1 else 0) + y"
  shows "thread_ok fs" "sm_executions (fetch_add f m) + x =
    sm_successes (fetch_add f m) + sm_failures (fetch_add f m) + (if halfway fs then 1 else 0) + y"
  using assms by (auto simp: thread_ok_def halfway_def record_success_def record_failure_def algebra_simps)

lemma counts_ok_step: "record_step S S' \<Longrightarrow> counts_ok S \<Longrightarrow> counts_ok S'"
proof (induction rule: record_step.induct)
  case (Increment m ts f fs us)
  then have t: "thread_ok (f # fs)" by (simp add: counts_ok_def)
  have "sm_executions m + 0 = sm_successes m + sm_failures m + (if halfway (f # fs) then 1 else 0) +
      of_nat (length (filter halfway (ts @ us)))"
    using Increment by (simp add: counts_ok_def)
  from thread_ok_increment [OF t this] Increment show ?case by (auto simp: counts_ok_def)
qed (auto simp: counts_ok_def thread_ok_def record_success_def record_failure_def record_retry_def halfway_def)

section \<open>The order of the steps\<close>

text \<open>The order of execution is a topological order of the dependencies.\<close>

lemma all_ordered_topological:
  "distinct all_ordered \<and> set all_ordered = UNIV \<and>
   (\<forall>i < length all_ordered. set (dependencies (all_ordered ! i)) \<subseteq> set (take i all_ordered))"
proof -
  have "s \<in> set all_ordered" for s by (cases s) (simp_all add: all_ordered_def)
  moreover have "distinct all_ordered" by code_simp
  moreover have "\<forall>i < length all_ordered. set (dependencies (all_ordered ! i)) \<subseteq> set (take i all_ordered)" by code_simp
  ultimately show ?thesis by blast
qed

section \<open>Properties\<close>

text \<open>C30: The bounded queue of dead letters implements the history of what was pushed since it was last drained: after any
  pushes and drainings it holds exactly the last items of that history, as many as its size allows but at least one, the
  recent items are the newest of them in reverse, and draining answers them oldest first. So it holds one item even when its
  configured size is zero.\<close>

theorem dead_letters_refine_history:
  fixes ops n
  defines "q \<equiv> queue_after ops (dead_letter_queue_new n)" and "h \<equiv> history_after ops []"
  shows "dq_items q = last_n (max 1 n) h \<and> fst (dlq_drain q) = last_n (max 1 n) h \<and> dlq_len q = min (max 1 n) (length h) \<and>
    dlq_recent k q = take (min k (max 1 n)) (rev h) \<and> shows_history (history_after [DlDrain] h) (snd (dlq_drain q))"
proof -
  have "shows_history [] (dead_letter_queue_new n)" by (simp add: shows_history_def dead_letter_queue_new_def last_n_def)
  then have "shows_history h q" unfolding h_def q_def by (rule shows_history_run)
  moreover have "dq_max_size q = n" unfolding q_def by (simp add: dlq_max_size_same dead_letter_queue_new_def)
  ultimately have items: "dq_items q = last_n (max 1 n) h" by (simp add: shows_history_def)
  have "rev (last_n (max 1 n) h) = take (max 1 n) (rev h)" by (simp add: last_n_def take_rev)
  then have "dlq_recent k q = take (min k (max 1 n)) (rev h)" by (simp add: dlq_recent_def items)
  moreover have "dlq_len q = min (max 1 n) (length h)" by (auto simp: dlq_len_def items last_n_def)
  ultimately show ?thesis using items shows_history_drain [of q] by (simp add: dlq_drain_def)
qed

text \<open>In every interleaving of threads that record successes, failures and retries of a step, the counter of executions is
  the sum of successes and failures and the number of recordings that are between their first two increments, up to the
  wrap-around of the counters; so the three agree whenever no recording is under way.\<close>

theorem executions_counted:
  assumes "record_step\<^sup>*\<^sup>* (step_metrics_new s, []) (m, ts)"
  shows "sm_executions m = sm_successes m + sm_failures m + of_nat (length (filter halfway ts)) \<and>
    (ts = [] \<longrightarrow> sm_executions m = sm_successes m + sm_failures m)"
proof -
  have "counts_ok (step_metrics_new s, [])" by (simp add: counts_ok_def step_metrics_new_def)
  with assms have "counts_ok (m, ts)" by (induction rule: rtranclp_induct) (auto intro: counts_ok_step)
  then show ?thesis by (auto simp: counts_ok_def)
qed

lemma executions_counted_witness:
  "sm_executions (fetch_add CoExecution (step_metrics_new PsIngest)) = 1"
proof -
  let ?m = "fetch_add CoExecution (step_metrics_new PsIngest)"
  have "record_step (step_metrics_new PsIngest, []) (step_metrics_new PsIngest, [record_failure])" by (rule StartFailure)
  moreover have "record_step (step_metrics_new PsIngest, [record_failure]) (?m, [[CoFailure]])"
    using Increment [of "step_metrics_new PsIngest" "[]" CoExecution "[CoFailure]" "[]"] by (simp add: record_failure_def)
  ultimately have "record_step\<^sup>*\<^sup>* (step_metrics_new PsIngest, []) (?m, [[CoFailure]])"
    by (rule rtranclp.rtrancl_into_rtrancl [OF r_into_rtranclp])
  from executions_counted [OF this] show ?thesis by (simp add: halfway_def step_metrics_new_def)
qed

end
