(* ===== verification/Blob_Store.thy ===== *)
theory Blob_Store
  imports Error_Model "HOL-Library.Sublist"
begin

text \<open>
  The blob store on local files, \<^verbatim>\<open>mnemo-storage/src/local_blob_store.rs\<close>, with the interface of
  \<^verbatim>\<open>mnemo-core/src/traits/blob.rs\<close>. Files are a map from absolute paths, as lists of components, to nodes; there
  are no symbolic links, the disk does not fill up, and no other program writes. The texts of paths and of the errors of the
  operating system are parameters. Every blob has a sidecar file \<open>.meta\<close> with its content type.
\<close>

section \<open>Files\<close>

datatype file_node = File string | Dir

type_synonym path = "string list"
type_synonym files = "path \<Rightarrow> file_node option"

datatype io_error = IoNotFound | IoNotADirectory | IoIsADirectory

fun split_slash :: "string \<Rightarrow> string \<Rightarrow> string list" where
  "split_slash acc [] = [rev acc]"
| "split_slash acc (c # cs) = (if c = CHR ''/'' then rev acc # split_slash [] cs else split_slash (c # acc) cs)"

text \<open>The components of a path: empty ones and single dots do not count.\<close>

definition path_components :: "string \<Rightarrow> path" where
  "path_components s = filter (\<lambda>c. c \<noteq> [] \<and> c \<noteq> ''.'') (split_slash [] s)"

fun walk_path :: "path \<Rightarrow> path \<Rightarrow> path" where
  "walk_path p [] = p"
| "walk_path p (c # cs) = walk_path (if c = ''..'' then butlast p else p @ [c]) cs"

text \<open>
  \<^verbatim>\<open>Path::join\<close>: an absolute path replaces the base. The flag tells of a slash, or a slash and a dot, at the end;
  the operating system then takes the path for a directory.
\<close>

definition names_directory :: "string \<Rightarrow> bool" where
  "names_directory key \<longleftrightarrow> last (split_slash [] key) = [] \<or> last (split_slash [] key) = ''.''"

definition join_path :: "path \<Rightarrow> string \<Rightarrow> path \<times> bool" where
  "join_path base key =
     (walk_path (if is_prefix_of ''/'' key then [] else base) (path_components key), names_directory key)"

definition file_exists :: "path \<times> bool \<Rightarrow> files \<Rightarrow> bool" where
  "file_exists p fs = (case fs (fst p) of None \<Rightarrow> False | Some Dir \<Rightarrow> True | Some (File _) \<Rightarrow> \<not> snd p)"

definition below_file :: "path \<Rightarrow> files \<Rightarrow> bool" where
  "below_file p fs \<longleftrightarrow> (\<exists>q \<in> set (prefixes p). q \<noteq> p \<and> (case fs q of Some (File _) \<Rightarrow> True | _ \<Rightarrow> False))"

definition create_dir_all :: "path \<Rightarrow> files \<Rightarrow> io_error + files" where
  "create_dir_all p fs =
     (if below_file (p @ [[]]) fs then Inl IoNotADirectory else Inr (\<lambda>q. if prefix q p then Some Dir else fs q))"

definition write_file :: "path \<times> bool \<Rightarrow> string \<Rightarrow> files \<Rightarrow> io_error + files" where
  "write_file p data fs =
     (if snd p \<or> fs (fst p) = Some Dir then Inl IoIsADirectory
      else if below_file (fst p) fs then Inl IoNotADirectory
      else if fst p \<noteq> [] \<and> fs (butlast (fst p)) = None then Inl IoNotFound
      else Inr (fs(fst p \<mapsto> File data)))"

definition read_file :: "path \<times> bool \<Rightarrow> files \<Rightarrow> io_error + string" where
  "read_file p fs =
     (case fs (fst p) of
        Some Dir \<Rightarrow> Inl IoIsADirectory
      | Some (File d) \<Rightarrow> if snd p then Inl IoNotADirectory else Inr d
      | None \<Rightarrow> Inl (if below_file (fst p) fs then IoNotADirectory else IoNotFound))"

definition remove_file :: "path \<times> bool \<Rightarrow> files \<Rightarrow> io_error + files" where
  "remove_file p fs = (case read_file p fs of Inl e \<Rightarrow> Inl e | Inr _ \<Rightarrow> Inr (fs(fst p := None)))"

section \<open>The store\<close>

record blob_metadata =
  bm_key :: string
  bm_size_bytes :: u64
  bm_content_type :: string
  bm_etag :: "string option"

record local_blob_store =
  lb_base_path :: path
  lb_show_path :: "path \<Rightarrow> string"
  lb_show_io :: "io_error \<Rightarrow> string"

definition traversal :: mnemo_error where
  "traversal = Validation ''Invalid storage key: path traversal detected''"

definition storage_io :: "local_blob_store \<Rightarrow> string \<Rightarrow> path \<Rightarrow> io_error \<Rightarrow> mnemo_error" where
  "storage_io lb what p e = Storage (what @ lb_show_path lb p @ '': '' @ lb_show_io lb e)"

definition full_path :: "local_blob_store \<Rightarrow> string \<Rightarrow> files \<Rightarrow> mnemo_error + path \<times> bool" where
  "full_path lb key fs =
     (if str_contains key ''..'' \<or> is_prefix_of ''/'' key \<or> is_prefix_of [CHR 0x5C] key then Inl traversal
      else
        let p = join_path (lb_base_path lb) key in
        if \<not> file_exists p fs then Inr p
        else if fs (lb_base_path lb) = None
        then Inl (Storage (''Failed to canonicalize base path: '' @ lb_show_io lb IoNotFound))
        else if \<not> prefix (lb_base_path lb) (fst p) then Inl traversal
        else Inr p)"

definition ensure_parent_dir :: "local_blob_store \<Rightarrow> path \<Rightarrow> files \<Rightarrow> mnemo_error + files" where
  "ensure_parent_dir lb p fs =
     (if p = [] then Inr fs
      else case create_dir_all (butlast p) fs of
        Inl e \<Rightarrow> Inl (storage_io lb ''Failed to create directory '' (butlast p) e)
      | Inr fs' \<Rightarrow> Inr fs')"

definition meta_key :: "string \<Rightarrow> string" where
  "meta_key key = key @ ''.meta''"

definition read_content_type :: "local_blob_store \<Rightarrow> string \<Rightarrow> files \<Rightarrow> mnemo_error + string" where
  "read_content_type lb key fs =
     (case full_path lb (meta_key key) fs of
        Inl e \<Rightarrow> Inl e
      | Inr p \<Rightarrow> Inr (case read_file p fs of Inr t \<Rightarrow> t | Inl _ \<Rightarrow> ''application/octet-stream''))"

text \<open>A result and the files afterwards.\<close>

type_synonym 'a blob_result = "(mnemo_error + 'a) \<times> files"

definition write_content_type :: "local_blob_store \<Rightarrow> string \<Rightarrow> string \<Rightarrow> files \<Rightarrow> unit blob_result" where
  "write_content_type lb key content_type fs =
     (case full_path lb (meta_key key) fs of
        Inl e \<Rightarrow> (Inl e, fs)
      | Inr p \<Rightarrow>
        (case ensure_parent_dir lb (fst p) fs of
           Inl e \<Rightarrow> (Inl e, fs)
         | Inr fs1 \<Rightarrow>
           (case write_file p content_type fs1 of
              Inl e \<Rightarrow> (Inl (storage_io lb ''Failed to write content type for '' (fst p) e), fs1)
            | Inr fs2 \<Rightarrow> (Inr (), fs2))))"

definition blob_meta :: "string \<Rightarrow> nat \<Rightarrow> string \<Rightarrow> blob_metadata" where
  "blob_meta key n content_type =
     \<lparr>bm_key = key, bm_size_bytes = of_nat n, bm_content_type = content_type, bm_etag = None\<rparr>"

definition blob_put :: "local_blob_store \<Rightarrow> string \<Rightarrow> string \<Rightarrow> string \<Rightarrow> files \<Rightarrow> blob_metadata blob_result" where
  "blob_put lb key data content_type fs =
     (case full_path lb key fs of
        Inl e \<Rightarrow> (Inl e, fs)
      | Inr p \<Rightarrow>
        (case ensure_parent_dir lb (fst p) fs of
           Inl e \<Rightarrow> (Inl e, fs)
         | Inr fs1 \<Rightarrow>
           (case write_file p data fs1 of
              Inl e \<Rightarrow> (Inl (storage_io lb ''Failed to write blob '' (fst p) e), fs1)
            | Inr fs2 \<Rightarrow>
              (case write_content_type lb key content_type fs2 of
                 (Inl e, fs3) \<Rightarrow> (Inl e, fs3)
               | (Inr _, fs3) \<Rightarrow> (Inr (blob_meta key (length data) content_type), fs3)))))"

text \<open>A stream is the list of its chunks, each a text or an error; what was written before an error stays.\<close>

fun write_chunks :: "local_blob_store \<Rightarrow> path \<times> bool \<Rightarrow> (string + string) list \<Rightarrow> string \<Rightarrow> files \<Rightarrow> string blob_result" where
  "write_chunks lb p [] written fs = (Inr written, fs)"
| "write_chunks lb p (Inl e # cs) written fs = (Inl (Storage (''Failed to read stream chunk: '' @ e)), fs)"
| "write_chunks lb p (Inr c # cs) written fs = write_chunks lb p cs (written @ c) (fs(fst p \<mapsto> File (written @ c)))"

definition blob_put_stream ::
  "local_blob_store \<Rightarrow> string \<Rightarrow> (string + string) list \<Rightarrow> string \<Rightarrow> files \<Rightarrow> blob_metadata blob_result" where
  "blob_put_stream lb key stream content_type fs =
     (case full_path lb key fs of
        Inl e \<Rightarrow> (Inl e, fs)
      | Inr p \<Rightarrow>
        (case ensure_parent_dir lb (fst p) fs of
           Inl e \<Rightarrow> (Inl e, fs)
         | Inr fs1 \<Rightarrow>
           (case write_file p [] fs1 of
              Inl e \<Rightarrow> (Inl (storage_io lb ''Failed to create file '' (fst p) e), fs1)
            | Inr fs2 \<Rightarrow>
              (case write_chunks lb p stream [] fs2 of
                 (Inl e, fs3) \<Rightarrow> (Inl e, fs3)
               | (Inr written, fs3) \<Rightarrow>
                 (case write_content_type lb key content_type fs3 of
                    (Inl e, fs4) \<Rightarrow> (Inl e, fs4)
                  | (Inr _, fs4) \<Rightarrow> (Inr (blob_meta key (length written) content_type), fs4))))))"

definition missing_blob :: "local_blob_store \<Rightarrow> string \<Rightarrow> string \<Rightarrow> path \<Rightarrow> io_error \<Rightarrow> mnemo_error" where
  "missing_blob lb what key p e = (if e = IoNotFound then NotFound ''Blob'' key else storage_io lb what p e)"

definition blob_get :: "local_blob_store \<Rightarrow> string \<Rightarrow> files \<Rightarrow> mnemo_error + string \<times> blob_metadata" where
  "blob_get lb key fs =
     (case full_path lb key fs of
        Inl e \<Rightarrow> Inl e
      | Inr p \<Rightarrow>
        (case read_file p fs of
           Inl e \<Rightarrow> Inl (missing_blob lb ''Failed to read blob '' key (fst p) e)
         | Inr data \<Rightarrow>
           (case read_content_type lb key fs of
              Inl e \<Rightarrow> Inl e
            | Inr t \<Rightarrow> Inr (data, blob_meta key (length data) t))))"

definition blob_delete :: "local_blob_store \<Rightarrow> string \<Rightarrow> files \<Rightarrow> unit blob_result" where
  "blob_delete lb key fs =
     (case full_path lb key fs of
        Inl e \<Rightarrow> (Inl e, fs)
      | Inr p \<Rightarrow>
        (case full_path lb (meta_key key) fs of
           Inl e \<Rightarrow> (Inl e, fs)
         | Inr mp \<Rightarrow>
           (case remove_file p fs of
              Inl e \<Rightarrow> (Inl (missing_blob lb ''Failed to delete blob '' key (fst p) e), fs)
            | Inr fs1 \<Rightarrow> (Inr (), case remove_file mp fs1 of Inr fs2 \<Rightarrow> fs2 | Inl _ \<Rightarrow> fs1))))"

definition blob_exists :: "local_blob_store \<Rightarrow> string \<Rightarrow> files \<Rightarrow> mnemo_error + bool" where
  "blob_exists lb key fs = (case full_path lb key fs of Inl e \<Rightarrow> Inl e | Inr p \<Rightarrow> Inr (file_exists p fs))"

text \<open>The size of a directory is the argument \<open>dir_size\<close>.\<close>

definition blob_head :: "local_blob_store \<Rightarrow> nat \<Rightarrow> string \<Rightarrow> files \<Rightarrow> mnemo_error + blob_metadata" where
  "blob_head lb dir_size key fs =
     (case full_path lb key fs of
        Inl e \<Rightarrow> Inl e
      | Inr p \<Rightarrow>
        let file_size = (case read_file p fs of Inr d \<Rightarrow> Inr (length d) | Inl IoIsADirectory \<Rightarrow> Inr dir_size | Inl e \<Rightarrow> Inl e) in
        (case file_size of
           Inl e \<Rightarrow> Inl (missing_blob lb ''Failed to get metadata for '' key (fst p) e)
         | Inr n \<Rightarrow>
           (case read_content_type lb key fs of Inl e \<Rightarrow> Inl e | Inr t \<Rightarrow> Inr (blob_meta key n t))))"

definition copy_file :: "path \<times> bool \<Rightarrow> path \<times> bool \<Rightarrow> files \<Rightarrow> io_error + files" where
  "copy_file p q fs = (case read_file p fs of Inl e \<Rightarrow> Inl e | Inr d \<Rightarrow> write_file q d fs)"

definition blob_copy :: "local_blob_store \<Rightarrow> nat \<Rightarrow> string \<Rightarrow> string \<Rightarrow> files \<Rightarrow> blob_metadata blob_result" where
  "blob_copy lb dir_size source_key dest_key fs =
     (case full_path lb source_key fs of
        Inl e \<Rightarrow> (Inl e, fs)
      | Inr sp \<Rightarrow>
        (case full_path lb dest_key fs of
           Inl e \<Rightarrow> (Inl e, fs)
         | Inr dp \<Rightarrow>
           (case ensure_parent_dir lb (fst dp) fs of
              Inl e \<Rightarrow> (Inl e, fs)
            | Inr fs1 \<Rightarrow>
              (case copy_file sp dp fs1 of
                 Inl e \<Rightarrow> (Inl (missing_blob lb ''Failed to copy '' source_key (fst sp) e), fs1)
               | Inr fs2 \<Rightarrow>
                 (case full_path lb (meta_key source_key) fs2 of
                    Inl e \<Rightarrow> (Inl e, fs2)
                  | Inr sm \<Rightarrow>
                    (case full_path lb (meta_key dest_key) fs2 of
                       Inl e \<Rightarrow> (Inl e, fs2)
                     | Inr dm \<Rightarrow>
                       let fs3 = (case copy_file sm dm fs2 of Inr fs3 \<Rightarrow> fs3 | Inl _ \<Rightarrow> fs2)
                       in (blob_head lb dir_size dest_key fs3, fs3)))))))"

text \<open>The local store signs no addresses.\<close>

definition blob_presign :: "string \<Rightarrow> mnemo_error + string option" where
  "blob_presign key = Inr None"

section \<open>The interface\<close>

text \<open>
  What the attachments rely on: a blob that was stored is read back, also after other blobs were stored or deleted whose keys
  are apart from its own, and a deleted blob is not read back.
\<close>

locale blob_store =
  fixes put :: "string \<Rightarrow> string \<Rightarrow> string \<Rightarrow> 's \<Rightarrow> (mnemo_error + 'm) \<times> 's"
    and get :: "string \<Rightarrow> 's \<Rightarrow> mnemo_error + string \<times> 'm"
    and delete :: "string \<Rightarrow> 's \<Rightarrow> (mnemo_error + unit) \<times> 's"
    and apart :: "string \<Rightarrow> string \<Rightarrow> bool"
  assumes get_put: "put k d t s = (Inr m, s') \<Longrightarrow> \<exists>m'. get k s' = Inr (d, m')"
    and get_put_apart: "apart k j \<Longrightarrow> get j s = Inr (d', m) \<Longrightarrow> \<exists>m'. get j (snd (put k d t s)) = Inr (d', m')"
    and get_delete: "delete k s = (Inr (), s') \<Longrightarrow> \<not> (\<exists>x. get k s' = Inr x)"
    and get_delete_apart: "apart k j \<Longrightarrow> get j s = Inr (d', m) \<Longrightarrow> \<exists>m'. get j (snd (delete k s)) = Inr (d', m')"
begin

text \<open>A blob outlives any sequence of other writes and deletions.\<close>

definition others :: "string \<Rightarrow> (string \<times> (string \<times> string) option) list \<Rightarrow> 's \<Rightarrow> 's" where
  "others j ops s = fold (\<lambda>(k, op). case op of Some (d, t) \<Rightarrow> (\<lambda>s. snd (put k d t s)) | None \<Rightarrow> (\<lambda>s. snd (delete k s))) ops s"

lemma kept_by_others:
  "(\<forall>(k, op) \<in> set ops. apart k j) \<Longrightarrow> get j s = Inr (d, m) \<Longrightarrow> \<exists>m'. get j (others j ops s) = Inr (d, m')"
proof (induction ops arbitrary: s m)
  case (Cons x ops)
  obtain k op where x: "x = (k, op)" by (cases x)
  let ?s = "case op of Some (d, t) \<Rightarrow> snd (put k d t s) | None \<Rightarrow> snd (delete k s)"
  have "\<exists>m'. get j ?s = Inr (d, m')"
    using get_put_apart [of k j s d m] get_delete_apart [of k j s d m] Cons.prems x by (auto split: option.split)
  then obtain m' where "get j ?s = Inr (d, m')" by blast
  with Cons.IH [of ?s m'] Cons.prems show ?case by (auto simp: others_def x split: option.splits)
qed (simp add: others_def)

end

section \<open>Where the local store writes\<close>

lemma walk_no_dots: "''..'' \<notin> set cs \<Longrightarrow> walk_path p cs = p @ cs"
  by (induction cs arbitrary: p) auto

lemma split_slash_part: "c \<in> set (split_slash acc s) \<Longrightarrow> sublist c (rev acc @ s)"
proof (induction acc s rule: split_slash.induct)
  case (2 acc x cs)
  show ?case
  proof (cases "x = CHR ''/''")
    case True
    then have "c = rev acc \<or> sublist c cs" using 2 by auto
    then show ?thesis by (auto simp: sublist_append sublist_Cons_right)
  next
    case False
    with 2 show ?thesis by simp
  qed
qed simp

lemma no_dots_component: "\<not> str_contains key ''..'' \<Longrightarrow> ''..'' \<notin> set (path_components key)"
  using split_slash_part [of "''..''" "[]" key] by (auto simp: path_components_def str_contains_iff sublist_def)

definition key_path :: "local_blob_store \<Rightarrow> string \<Rightarrow> path" where
  "key_path lb key = lb_base_path lb @ path_components key"

lemma full_path_Inr:
  assumes "full_path lb key fs = Inr p"
  shows "p = (key_path lb key, names_directory key)"
  using assms no_dots_component [of key]
  by (auto simp: full_path_def Let_def join_path_def walk_no_dots key_path_def split: if_splits)

text \<open>Nothing outside the base directory changes, except that the directories on the way to it may be created.\<close>

definition stays_inside :: "path \<Rightarrow> files \<Rightarrow> files \<Rightarrow> bool" where
  "stays_inside base fs fs' \<longleftrightarrow>
     (\<forall>p. \<not> prefix base p \<longrightarrow> fs' p = fs p \<or> (prefix p base \<and> fs' p = Some Dir \<and> (\<forall>d. fs p \<noteq> Some (File d))))"

lemma stays_inside_refl [simp]: "stays_inside base fs fs"
  by (simp add: stays_inside_def)

lemma stays_inside_trans: "stays_inside base a b \<Longrightarrow> stays_inside base b c \<Longrightarrow> stays_inside base a c"
  unfolding stays_inside_def by metis

lemma stays_inside_upd: "prefix base p \<Longrightarrow> stays_inside base fs (fs(p := x))"
  by (auto simp: stays_inside_def)

lemma below_file_Inr: "\<not> below_file (p @ [[]]) fs \<Longrightarrow> prefix q p \<Longrightarrow> fs q \<noteq> Some (File d)"
  by (force simp: below_file_def split: option.splits)

lemma create_dir_inside:
  assumes "create_dir_all p fs = Inr fs'" and "prefix base p \<or> prefix p base"
  shows "stays_inside base fs fs'"
proof -
  have fs': "fs' = (\<lambda>q. if prefix q p then Some Dir else fs q)" "\<not> below_file (p @ [[]]) fs"
    using assms(1) by (auto simp: create_dir_all_def split: if_splits)
  have "prefix q base" if "prefix q p" "\<not> prefix base q" for q
    using that assms(2) prefix_same_cases [of q p base] prefix_order.order_trans [of q p base] by blast
  then show ?thesis using below_file_Inr [OF fs'(2)] by (auto simp: stays_inside_def fs'(1))
qed

lemma ensure_parent_inside:
  "ensure_parent_dir lb p fs = Inr fs' \<Longrightarrow> prefix base p \<Longrightarrow> stays_inside base fs fs'"
proof -
  assume e: "ensure_parent_dir lb p fs = Inr fs'" and "prefix base p"
  then have "prefix base (butlast p) \<or> prefix (butlast p) base"
    by (metis append_butlast_last_id butlast.simps(1) prefix_order.eq_refl prefix_snoc prefixeq_butlast)
  with e show ?thesis by (auto simp: ensure_parent_dir_def intro: create_dir_inside split: if_splits sum.splits)
qed

lemma write_file_inside: "write_file p d fs = Inr fs' \<Longrightarrow> prefix base (fst p) \<Longrightarrow> stays_inside base fs fs'"
  by (auto simp: write_file_def intro: stays_inside_upd split: if_splits)

lemma remove_file_inside: "remove_file p fs = Inr fs' \<Longrightarrow> prefix base (fst p) \<Longrightarrow> stays_inside base fs fs'"
  by (auto simp: remove_file_def intro: stays_inside_upd split: sum.splits)

lemma copy_file_inside: "copy_file p q fs = Inr fs' \<Longrightarrow> prefix base (fst q) \<Longrightarrow> stays_inside base fs fs'"
  by (auto simp: copy_file_def intro: write_file_inside split: sum.splits)

lemma write_chunks_inside: "prefix base (fst p) \<Longrightarrow> stays_inside base fs (snd (write_chunks lb p cs w fs))"
proof (induction lb p cs w fs rule: write_chunks.induct)
  case (3 lb p c cs w fs)
  then show ?case using stays_inside_trans [OF stays_inside_upd [of base "fst p" fs]] by fastforce
qed simp_all

lemma full_path_inside: "full_path lb key fs = Inr p \<Longrightarrow> prefix (lb_base_path lb) (fst p)"
  by (drule full_path_Inr) (simp add: key_path_def)

lemma path_steps_inside:
  assumes "full_path lb key fs0 = Inr (a, b)"
  shows "ensure_parent_dir lb a fs = Inr fs' \<Longrightarrow> stays_inside (lb_base_path lb) fs fs'"
    "write_file (a, b) d fs = Inr fs' \<Longrightarrow> stays_inside (lb_base_path lb) fs fs'"
    "remove_file (a, b) fs = Inr fs' \<Longrightarrow> stays_inside (lb_base_path lb) fs fs'"
    "copy_file q (a, b) fs = Inr fs' \<Longrightarrow> stays_inside (lb_base_path lb) fs fs'"
    "write_chunks lb (a, b) cs w fs = (r, fs') \<Longrightarrow> stays_inside (lb_base_path lb) fs fs'"
proof -
  have base: "prefix (lb_base_path lb) a" using full_path_inside [OF assms] by simp
  show "ensure_parent_dir lb a fs = Inr fs' \<Longrightarrow> stays_inside (lb_base_path lb) fs fs'"
    by (rule ensure_parent_inside [OF _ base])
  show "write_file (a, b) d fs = Inr fs' \<Longrightarrow> stays_inside (lb_base_path lb) fs fs'"
    "remove_file (a, b) fs = Inr fs' \<Longrightarrow> stays_inside (lb_base_path lb) fs fs'"
    "copy_file q (a, b) fs = Inr fs' \<Longrightarrow> stays_inside (lb_base_path lb) fs fs'"
    by (auto intro: write_file_inside remove_file_inside copy_file_inside simp: base)
  show "write_chunks lb (a, b) cs w fs = (r, fs') \<Longrightarrow> stays_inside (lb_base_path lb) fs fs'"
    using write_chunks_inside [of "lb_base_path lb" "(a, b)" fs lb cs w] base by simp
qed

lemma write_content_type_inside:
  "write_content_type lb key t fs = (r, fs') \<Longrightarrow> stays_inside (lb_base_path lb) fs fs'"
  unfolding write_content_type_def
  by (auto split: sum.splits dest: path_steps_inside) (meson path_steps_inside stays_inside_trans)+

lemma blob_put_inside: "blob_put lb key d t fs = (r, fs') \<Longrightarrow> stays_inside (lb_base_path lb) fs fs'"
  unfolding blob_put_def
  by (auto split: sum.splits prod.splits dest: path_steps_inside write_content_type_inside)
    (meson path_steps_inside write_content_type_inside stays_inside_trans)+

lemma blob_put_stream_inside: "blob_put_stream lb key cs t fs = (r, fs') \<Longrightarrow> stays_inside (lb_base_path lb) fs fs'"
  unfolding blob_put_stream_def
  by (auto split: sum.splits prod.splits dest: path_steps_inside write_content_type_inside)
    (meson path_steps_inside write_content_type_inside stays_inside_trans)+

lemma blob_delete_inside: "blob_delete lb key fs = (r, fs') \<Longrightarrow> stays_inside (lb_base_path lb) fs fs'"
  unfolding blob_delete_def
  by (auto split: sum.splits dest: path_steps_inside) (meson path_steps_inside stays_inside_trans)+

lemma blob_copy_inside: "blob_copy lb n source key fs = (r, fs') \<Longrightarrow> stays_inside (lb_base_path lb) fs fs'"
  unfolding blob_copy_def
  by (auto split: sum.splits simp: Let_def dest: path_steps_inside) (meson path_steps_inside stays_inside_trans)+

section \<open>What a write changes\<close>

lemma split_slash_single: "CHR ''/'' \<notin> set t \<Longrightarrow> split_slash acc t = [rev acc @ t]"
  by (induction t arbitrary: acc) auto

lemma split_slash_neq_Nil [simp]: "split_slash acc s \<noteq> []"
  by (induction acc s rule: split_slash.induct) auto

lemma split_slash_append:
  "CHR ''/'' \<notin> set t \<Longrightarrow> split_slash acc (s @ t) = butlast (split_slash acc s) @ [last (split_slash acc s) @ t]"
  by (induction acc s rule: split_slash.induct) (auto simp: split_slash_single)

text \<open>The last component of the path of a blob, and that of its sidecar in the same directory.\<close>

lemma file_key_components:
  assumes "\<not> names_directory k"
  shows "path_components k = butlast (path_components k) @ [last (split_slash [] k)]"
    "path_components (meta_key k) = butlast (path_components k) @ [last (split_slash [] k) @ ''.meta'']"
proof -
  let ?l = "last (split_slash [] k)"
  have split: "split_slash [] k = butlast (split_slash [] k) @ [?l]" by simp
  have l: "?l \<noteq> []" "?l \<noteq> ''.''" using assms by (auto simp: names_directory_def)
  let ?f = "filter (\<lambda>c. c \<noteq> [] \<and> c \<noteq> ''.'')"
  have pc: "path_components k = ?f (butlast (split_slash [] k)) @ [?l]"
    unfolding path_components_def using arg_cong [OF split, of ?f] l by (simp del: append_butlast_last_id)
  then show "path_components k = butlast (path_components k) @ [?l]" by simp
  have "split_slash [] (meta_key k) = butlast (split_slash [] k) @ [?l @ ''.meta'']"
    unfolding meta_key_def by (rule split_slash_append) simp
  then show "path_components (meta_key k) = butlast (path_components k) @ [?l @ ''.meta'']"
    using pc l by (cases ?l) (auto simp: path_components_def)
qed

lemma meta_names_no_directory: "\<not> names_directory (meta_key k)"
proof -
  have "split_slash [] (meta_key k) = butlast (split_slash [] k) @ [last (split_slash [] k) @ ''.meta'']"
    unfolding meta_key_def by (rule split_slash_append) simp
  then show ?thesis by (cases "last (split_slash [] k)") (auto simp: names_directory_def)
qed

text \<open>Files change only at the path of the key and of its sidecar; elsewhere directories may appear.\<close>

definition changes_blob :: "local_blob_store \<Rightarrow> string \<Rightarrow> files \<Rightarrow> files \<Rightarrow> bool" where
  "changes_blob lb k fs fs' \<longleftrightarrow>
     (\<forall>q. fs' q = fs q \<or> (fs' q = Some Dir \<and> fs q = None) \<or>
       (\<not> names_directory k \<and> q \<in> {key_path lb k, key_path lb (meta_key k)}))"

lemma changes_blob_refl [simp]: "changes_blob lb k fs fs"
  by (simp add: changes_blob_def)

lemma changes_blob_trans: "changes_blob lb k a b \<Longrightarrow> changes_blob lb k b c \<Longrightarrow> changes_blob lb k a c"
  unfolding changes_blob_def by metis

lemma create_dir_fresh:
  assumes "create_dir_all p fs = Inr fs'"
  shows "fs' q = fs q \<or> fs' q = Some Dir \<and> fs q = None"
proof -
  have fs': "fs' = (\<lambda>q. if prefix q p then Some Dir else fs q)" "\<not> below_file (p @ [[]]) fs"
    using assms by (auto simp: create_dir_all_def split: if_splits)
  have "fs q = None \<or> fs q = Some Dir" if "prefix q p"
    using below_file_Inr [OF fs'(2) that] by (cases "fs q") (auto, metis file_node.exhaust)
  then show ?thesis by (auto simp: fs'(1))
qed

lemma ensure_parent_changes: "ensure_parent_dir lb p fs = Inr fs' \<Longrightarrow> changes_blob lb k fs fs'"
  using create_dir_fresh by (auto simp: ensure_parent_dir_def changes_blob_def split: if_splits sum.splits)

lemma path_steps_change:
  assumes "full_path lb j fs0 = Inr (a, b)" and "j = k \<or> j = meta_key k \<and> \<not> names_directory k"
  shows "write_file (a, b) d fs = Inr fs' \<Longrightarrow> changes_blob lb k fs fs'"
    "remove_file (a, b) fs = Inr fs' \<Longrightarrow> changes_blob lb k fs fs'"
    "b \<Longrightarrow> write_file (a, b) d fs \<noteq> Inr fs'" "b \<Longrightarrow> remove_file (a, b) fs \<noteq> Inr fs'" "b \<longleftrightarrow> names_directory j"
  using full_path_Inr [OF assms(1)] assms(2)
  by (auto simp: write_file_def remove_file_def read_file_def changes_blob_def split: if_splits sum.splits option.splits file_node.splits)

lemma blob_put_changes: "blob_put lb k d t fs = (r, fs') \<Longrightarrow> changes_blob lb k fs fs'"
proof -
  assume run: "blob_put lb k d t fs = (r, fs')"
  show ?thesis
  proof (cases "names_directory k")
    case True
    then show ?thesis using run
      by (auto simp: blob_put_def split: sum.splits prod.splits
          dest: ensure_parent_changes [of lb _ _ _ k] path_steps_change(3,5))
  next
    case False
    then show ?thesis using run unfolding blob_put_def write_content_type_def
      by (auto split: sum.splits prod.splits)
        (meson changes_blob_trans ensure_parent_changes path_steps_change(1) changes_blob_refl)+
  qed
qed

lemma blob_delete_changes: "blob_delete lb k fs = (r, fs') \<Longrightarrow> changes_blob lb k fs fs'"
proof -
  assume run: "blob_delete lb k fs = (r, fs')"
  show ?thesis
  proof (cases "names_directory k")
    case True
    then show ?thesis using run by (auto simp: blob_delete_def split: sum.splits dest: path_steps_change(4,5))
  next
    case False
    then show ?thesis using run unfolding blob_delete_def
      by (auto split: sum.splits) (meson changes_blob_trans path_steps_change(2) changes_blob_refl)+
  qed
qed

section \<open>Reading back\<close>

lemma full_path_again:
  "full_path lb key fs = Inr p \<Longrightarrow> fs' (lb_base_path lb) \<noteq> None \<Longrightarrow> full_path lb key fs' = Inr p"
  using full_path_inside [of lb key fs p] by (auto simp: full_path_def Let_def split: if_splits)

lemma blob_get_Inr:
  assumes "blob_get lb j fs = Inr (d, m)"
  obtains p where "full_path lb j fs = Inr (key_path lb j, False)" "full_path lb (meta_key j) fs = Inr p" "\<not> names_directory j"
    "fs (key_path lb j) = Some (File d)" "fs (lb_base_path lb) \<noteq> None"
proof -
  obtain q p where q: "full_path lb j fs = Inr q" "read_file q fs = Inr d" "full_path lb (meta_key j) fs = Inr p"
    using assms by (auto simp: blob_get_def read_content_type_def split: sum.splits)
  have f: "fs (fst q) = Some (File d)" "\<not> snd q"
    using q(2) by (auto simp: read_file_def split: option.splits file_node.splits if_splits)
  then have "fs (lb_base_path lb) \<noteq> None"
    using q(1) by (auto simp: full_path_def Let_def file_exists_def split: if_splits)
  then show thesis using that [of p] q(1,3) f full_path_Inr [OF q(1)] by auto
qed

lemma blob_get_intro:
  assumes "full_path lb j fs = Inr (p, False)" and "full_path lb (meta_key j) fs = Inr q" and "fs p = Some (File d)"
  shows "\<exists>m. blob_get lb j fs = Inr (d, m)"
  using assms by (simp add: blob_get_def read_content_type_def read_file_def)

text \<open>Keys of blobs in different directories.\<close>

definition keys_apart :: "string \<Rightarrow> string \<Rightarrow> bool" where
  "keys_apart k j \<longleftrightarrow> butlast (path_components k) \<noteq> butlast (path_components j)"

lemma get_after_change:
  assumes "changes_blob lb k fs fs'" and "keys_apart k j" and "blob_get lb j fs = Inr (d, m)"
  shows "\<exists>m'. blob_get lb j fs' = Inr (d, m')"
proof -
  obtain p where j: "full_path lb j fs = Inr (key_path lb j, False)" "full_path lb (meta_key j) fs = Inr p" "\<not> names_directory j"
    "fs (key_path lb j) = Some (File d)" "fs (lb_base_path lb) \<noteq> None"
    by (rule blob_get_Inr [OF assms(3)])
  have differ: "key_path lb j \<noteq> key_path lb k" "key_path lb j \<noteq> key_path lb (meta_key k)"
    "lb_base_path lb \<noteq> key_path lb k" "lb_base_path lb \<noteq> key_path lb (meta_key k)" if k: "\<not> names_directory k"
    using assms(2) file_key_components [OF k] file_key_components(1) [OF j(3)]
    by (auto simp: key_path_def keys_apart_def)
  have "fs' (key_path lb j) = Some (File d)" "fs' (lb_base_path lb) \<noteq> None"
    using assms(1) j(4,5) differ unfolding changes_blob_def by (metis insertE option.distinct(1) singletonD)+
  then show ?thesis using blob_get_intro full_path_again [OF j(1)] full_path_again [OF j(2)] by blast
qed

lemma get_after_put:
  assumes "blob_put lb k d t fs = (Inr m, fs')"
  shows "\<exists>m'. blob_get lb k fs' = Inr (d, m')"
proof -
  obtain p fs1 fs2 q fs3 where run: "full_path lb k fs = Inr p" "ensure_parent_dir lb (fst p) fs = Inr fs1" "write_file p d fs1 = Inr fs2"
    "full_path lb (meta_key k) fs2 = Inr q" "ensure_parent_dir lb (fst q) fs2 = Inr fs3" "write_file q t fs3 = Inr fs'"
    using assms by (auto simp: blob_put_def write_content_type_def split: sum.splits prod.splits)
  have p: "p = (key_path lb k, False)" "fs2 = fs1(key_path lb k \<mapsto> File d)" "\<not> names_directory k"
    using full_path_Inr [OF run(1)] run(3) by (auto simp: write_file_def split: if_splits)
  have q: "q = (key_path lb (meta_key k), False)" "fs' = fs3(key_path lb (meta_key k) \<mapsto> File t)"
    using full_path_Inr [OF run(4)] run(6) meta_names_no_directory by (auto simp: write_file_def split: if_splits)
  have comps: "key_path lb (meta_key k) \<noteq> key_path lb k" "key_path lb k \<noteq> lb_base_path lb"
    "key_path lb (meta_key k) \<noteq> lb_base_path lb" "prefix (lb_base_path lb) (butlast (key_path lb k))"
    using file_key_components [OF p(3)] by (auto simp: key_path_def butlast_append) (metis append_self_conv last_snoc list.discI)+
  have "fs1 (lb_base_path lb) = Some Dir"
    using run(2) p(1) comps(2,4) by (auto simp: ensure_parent_dir_def create_dir_all_def key_path_def split: if_splits sum.splits)
  then have base2: "fs2 (lb_base_path lb) = Some Dir" using comps(2) by (simp add: p(2))
  have "names_directory []" by (simp add: names_directory_def)
  then have same: "fs3 r = fs2 r \<or> fs3 r = Some Dir \<and> fs2 r = None" for r
    using ensure_parent_changes [OF run(5), of "[]"] by (simp add: changes_blob_def)
  have keep: "fs3 (key_path lb k) = Some (File d)" "fs3 (lb_base_path lb) = Some Dir"
    using same [of "key_path lb k"] same [of "lb_base_path lb"] base2 p(2) by auto
  then have "fs' (key_path lb k) = Some (File d)" "fs' (lb_base_path lb) \<noteq> None"
    using comps(1,3) by (auto simp: q(2))
  then show ?thesis
    using blob_get_intro full_path_again [OF run(1) [unfolded p(1)]] full_path_again [OF run(4)] by blast
qed

lemma get_after_delete: "blob_delete lb k fs = (Inr (), fs') \<Longrightarrow> blob_get lb k fs' \<noteq> Inr x"
proof
  assume run: "blob_delete lb k fs = (Inr (), fs')" and get: "blob_get lb k fs' = Inr x"
  then have "fs' (key_path lb k) = None"
    by (auto simp: blob_delete_def remove_file_def dest!: full_path_Inr split: sum.splits)
  then show False using get by (cases x) (auto elim: blob_get_Inr)
qed

interpretation local_blobs: blob_store "blob_put lb" "blob_get lb" "blob_delete lb" keys_apart
proof
  show "\<exists>m'. blob_get lb k s' = Inr (d, m')" if "blob_put lb k d t s = (Inr m, s')" for k d t s m s'
    using that by (rule get_after_put)
  show "\<exists>m'. blob_get lb j (snd (blob_put lb k d t s)) = Inr (d', m')" if "keys_apart k j" "blob_get lb j s = Inr (d', m)" for k j s d' m d t
    using blob_put_changes [of lb k d t s] get_after_change [OF _ that] by (metis prod.collapse)
  show "\<not> (\<exists>x. blob_get lb k s' = Inr x)" if "blob_delete lb k s = (Inr (), s')" for k s s'
    using get_after_delete [OF that] by blast
  show "\<exists>m'. blob_get lb j (snd (blob_delete lb k s)) = Inr (d', m')" if "keys_apart k j" "blob_get lb j s = Inr (d', m)" for k j s d' m
    using blob_delete_changes [of lb k s] get_after_change [OF _ that] by (metis prod.collapse)
qed

section \<open>Properties\<close>

text \<open>C31: Whatever the key, the operations of the local store touch nothing outside its base directory, apart from creating
  the directories that lead to it, and a blob that is read is the content of a file inside; keys with two dots in a row or
  a slash or backslash at the front are refused without any change.\<close>

theorem local_store_stays_inside:
  "stays_inside (lb_base_path lb) fs (snd (blob_put lb key d t fs)) \<and>
   stays_inside (lb_base_path lb) fs (snd (blob_put_stream lb key chunks t fs)) \<and>
   stays_inside (lb_base_path lb) fs (snd (blob_delete lb key fs)) \<and>
   stays_inside (lb_base_path lb) fs (snd (blob_copy lb n source key fs)) \<and>
   (case blob_get lb key fs of
      Inr (data, _) \<Rightarrow> \<exists>p. prefix (lb_base_path lb) p \<and> fs p = Some (File data)
    | Inl _ \<Rightarrow> True) \<and>
   (if str_contains key ''..'' \<or> is_prefix_of ''/'' key \<or> is_prefix_of [CHR 0x5C] key
    then blob_put lb key d t fs = (Inl traversal, fs) \<and> blob_get lb key fs = Inl traversal \<and> blob_delete lb key fs = (Inl traversal, fs)
    else True)"
proof (intro conjI)
  show "stays_inside (lb_base_path lb) fs (snd (blob_put lb key d t fs))" by (metis blob_put_inside prod.collapse)
  show "stays_inside (lb_base_path lb) fs (snd (blob_put_stream lb key chunks t fs))" by (metis blob_put_stream_inside prod.collapse)
  show "stays_inside (lb_base_path lb) fs (snd (blob_delete lb key fs))" by (metis blob_delete_inside prod.collapse)
  show "stays_inside (lb_base_path lb) fs (snd (blob_copy lb n source key fs))" by (metis blob_copy_inside prod.collapse)
  show "case blob_get lb key fs of Inr (data, _) \<Rightarrow> \<exists>p. prefix (lb_base_path lb) p \<and> fs p = Some (File data) | Inl _ \<Rightarrow> True"
    by (auto split: sum.split prod.split elim!: blob_get_Inr simp: key_path_def intro!: exI [of _ "lb_base_path lb @ path_components key"])
qed (auto simp: blob_put_def blob_get_def blob_delete_def full_path_def split: if_splits)

end
