(* ===== verification/Attachments.thy ===== *)
theory Attachments
  imports Blob_Store Episodes
begin

text \<open>
  Attachments of episodes: the model of \<^verbatim>\<open>mnemo-core/src/models/attachment.rs\<close>, the formats of the traits
  \<^verbatim>\<open>vision.rs\<close>, \<^verbatim>\<open>transcription.rs\<close> and \<^verbatim>\<open>document.rs\<close>, the store of
  \<^verbatim>\<open>redis_store.rs\<close> and the handlers of \<^verbatim>\<open>mnemo-server/src/routes.rs\<close>. The blob store is an argument,
  with a state of its own; the providers for images, audio and documents are arguments too, as are the text of an error and
  of an identifier. Texts are sequences of bytes, as in Rust. An upload has two steps, up to the spawning of the background task and from
  the saving of its record on, since the task runs concurrently.
\<close>

section \<open>The model\<close>

datatype attachment_type = AtImage | AtAudio | AtVideo | AtDocument

definition attachment_type_from_mime :: "string \<Rightarrow> attachment_type option" where
  "attachment_type_from_mime mime =
     (let m = lowercase mime in
      if is_prefix_of ''image/'' m then Some AtImage
      else if is_prefix_of ''audio/'' m then Some AtAudio
      else if is_prefix_of ''video/'' m then Some AtVideo
      else if is_prefix_of ''application/pdf'' m \<or> is_prefix_of ''application/vnd.openxmlformats'' m \<or>
        is_prefix_of ''application/vnd.ms-'' m \<or> is_prefix_of ''application/msword'' m \<or> is_prefix_of ''text/'' m
      then Some AtDocument
      else None)"

definition to_modality :: "attachment_type \<Rightarrow> modality" where
  "to_modality t = (case t of AtImage \<Rightarrow> MImage | AtAudio \<Rightarrow> MAudio | AtVideo \<Rightarrow> MVideo | AtDocument \<Rightarrow> MDocument)"

record attachment =
  at_id :: uuid
  at_episode_id :: uuid
  at_user_id :: uuid
  at_type :: attachment_type
  at_mime_type :: string
  at_filename :: "string option"
  at_size_bytes :: u64
  at_storage_key :: string
  at_thumbnail_key :: "string option"
  at_duration_secs :: "f32 option"
  at_width :: "u32 option"
  at_height :: "u32 option"
  at_status :: processing_status
  at_error :: "string option"
  at_model :: "string option"
  at_description :: "string option"
  at_transcript :: "string option"
  at_created_at :: timestamp

definition attachment_new ::
  "uuid \<Rightarrow> timestamp \<Rightarrow> uuid \<Rightarrow> uuid \<Rightarrow> attachment_type \<Rightarrow> string \<Rightarrow> string option \<Rightarrow> u64 \<Rightarrow> string \<Rightarrow> attachment" where
  "attachment_new new_id now episode_id user_id t mime filename n storage_key =
     \<lparr>at_id = new_id, at_episode_id = episode_id, at_user_id = user_id, at_type = t, at_mime_type = mime,
      at_filename = filename, at_size_bytes = n, at_storage_key = storage_key, at_thumbnail_key = None,
      at_duration_secs = None, at_width = None, at_height = None, at_status = PsPending, at_error = None, at_model = None,
      at_description = None, at_transcript = None, at_created_at = now\<rparr>"

definition attachment_processing :: "attachment \<Rightarrow> attachment" where
  "attachment_processing a = a\<lparr>at_status := PsProcessing\<rparr>"

definition attachment_completed :: "string \<Rightarrow> attachment \<Rightarrow> attachment" where
  "attachment_completed model a = a\<lparr>at_status := PsCompleted, at_model := Some model, at_error := None\<rparr>"

definition attachment_failed :: "string \<Rightarrow> attachment \<Rightarrow> attachment" where
  "attachment_failed err a = a\<lparr>at_status := PsFailed, at_error := Some err\<rparr>"

definition set_description :: "string \<Rightarrow> attachment \<Rightarrow> attachment" where
  "set_description d a = a\<lparr>at_description := Some d\<rparr>"

definition set_transcript :: "string \<Rightarrow> attachment \<Rightarrow> attachment" where
  "set_transcript t a = a\<lparr>at_transcript := Some t\<rparr>"

definition set_duration :: "f32 \<Rightarrow> attachment \<Rightarrow> attachment" where
  "set_duration d a = a\<lparr>at_duration_secs := Some d\<rparr>"

datatype image_format = IfJpeg | IfPng | IfGif | IfWebp

definition image_format_from_mime :: "string \<Rightarrow> image_format option" where
  "image_format_from_mime mime =
     (let m = lowercase mime in
      if m = ''image/jpeg'' \<or> m = ''image/jpg'' then Some IfJpeg
      else if m = ''image/png'' then Some IfPng
      else if m = ''image/gif'' then Some IfGif
      else if m = ''image/webp'' then Some IfWebp
      else None)"

datatype audio_format = AfMp3 | AfMp4 | AfMpeg | AfMpga | AfWav | AfWebm | AfFlac | AfOgg

definition audio_format_from_mime :: "string \<Rightarrow> audio_format option" where
  "audio_format_from_mime mime =
     (let m = lowercase mime in
      if m = ''audio/mpeg'' \<or> m = ''audio/mp3'' then Some AfMp3
      else if m = ''audio/mp4'' \<or> m = ''audio/m4a'' \<or> m = ''audio/x-m4a'' then Some AfMp4
      else if m = ''audio/wav'' \<or> m = ''audio/x-wav'' \<or> m = ''audio/wave'' then Some AfWav
      else if m = ''audio/webm'' then Some AfWebm
      else if m = ''audio/flac'' \<or> m = ''audio/x-flac'' then Some AfFlac
      else if m = ''audio/ogg'' \<or> m = ''audio/vorbis'' then Some AfOgg
      else None)"

datatype document_format = DfPdf | DfDocx | DfDoc | DfPptx | DfXlsx | DfRtf | DfTxt | DfMarkdown | DfHtml | DfEpub

definition document_format_from_mime :: "string \<Rightarrow> document_format option" where
  "document_format_from_mime mime =
     (let m = lowercase mime in
      if m = ''application/pdf'' then Some DfPdf
      else if m = ''application/vnd.openxmlformats-officedocument.wordprocessingml.document'' then Some DfDocx
      else if m = ''application/msword'' then Some DfDoc
      else if m = ''application/vnd.openxmlformats-officedocument.presentationml.presentation'' then Some DfPptx
      else if m = ''application/vnd.openxmlformats-officedocument.spreadsheetml.sheet'' then Some DfXlsx
      else if m = ''application/rtf'' \<or> m = ''text/rtf'' then Some DfRtf
      else if m = ''text/plain'' then Some DfTxt
      else if m = ''text/markdown'' \<or> m = ''text/x-markdown'' then Some DfMarkdown
      else if m = ''text/html'' \<or> m = ''application/xhtml+xml'' then Some DfHtml
      else if m = ''application/epub+zip'' then Some DfEpub
      else None)"

datatype chunk_strategy = CkStructural | CkFixed | CkPage

record document_config =
  dg_enabled :: bool
  dg_max_size_bytes :: u64
  dg_chunk_strategy :: chunk_strategy
  dg_chunk_size :: nat
  dg_chunk_overlap :: nat
  dg_extract_images :: bool
  dg_sync_processing :: bool

text \<open>Of a parsed document, what the handlers read.\<close>

record parsed_document =
  pd_title :: "string option"
  pd_page_count :: u32
  pd_chunks :: "string list"

definition mime_extension :: "string \<Rightarrow> string" where
  "mime_extension m =
     (if m = ''image/jpeg'' then ''jpg''
      else if m = ''image/png'' then ''png''
      else if m = ''image/gif'' then ''gif''
      else if m = ''image/webp'' then ''webp''
      else if m = ''audio/mpeg'' \<or> m = ''audio/mp3'' then ''mp3''
      else if m = ''audio/wav'' then ''wav''
      else if m = ''audio/webm'' then ''webm''
      else if m = ''audio/ogg'' then ''ogg''
      else if m = ''audio/m4a'' \<or> m = ''audio/x-m4a'' then ''m4a''
      else if m = ''video/mp4'' then ''mp4''
      else if m = ''video/webm'' then ''webm''
      else if m = ''application/pdf'' then ''pdf''
      else if m = ''application/vnd.openxmlformats-officedocument.wordprocessingml.document'' then ''docx''
      else if m = ''application/vnd.openxmlformats-officedocument.spreadsheetml.sheet'' then ''xlsx''
      else if m = ''application/vnd.openxmlformats-officedocument.presentationml.presentation'' then ''pptx''
      else if m = ''text/plain'' then ''txt''
      else if m = ''text/markdown'' then ''md''
      else ''bin'')"

section \<open>Names and headers\<close>

text \<open>
  The characters of a text, each as its bytes, and the classes of the characters outside ASCII, which are those of the Rust
  library.
\<close>

fun utf8_chars :: "string \<Rightarrow> string list" where
  "utf8_chars [] = []"
| "utf8_chars (c # cs) =
     (case utf8_chars cs of
        [] \<Rightarrow> [[c]]
      | k # ks \<Rightarrow> if is_continuation (hd k) then (c # k) # ks else [c] # k # ks)"

record char_classes =
  cc_alphanumeric :: "string \<Rightarrow> bool"
  cc_alphabetic :: "string \<Rightarrow> bool"
  cc_white :: "string \<Rightarrow> bool"

definition in_class :: "(char \<Rightarrow> bool) \<Rightarrow> (string \<Rightarrow> bool) \<Rightarrow> string \<Rightarrow> bool" where
  "in_class ascii other k = (case k of [c] \<Rightarrow> if c < CHR 0x80 then ascii c else other k | _ \<Rightarrow> other k)"

definition is_alphanumeric :: "char_classes \<Rightarrow> string \<Rightarrow> bool" where
  "is_alphanumeric cc = in_class is_ascii_alphanumeric (cc_alphanumeric cc)"

definition is_alphabetic :: "char_classes \<Rightarrow> string \<Rightarrow> bool" where
  "is_alphabetic cc = in_class (\<lambda>c. is_ascii_alphanumeric c \<and> \<not> is_digit c) (cc_alphabetic cc)"

definition is_whitespace :: "char_classes \<Rightarrow> string \<Rightarrow> bool" where
  "is_whitespace cc = in_class is_space (cc_white cc)"

definition sanitize_filename :: "char_classes \<Rightarrow> string \<Rightarrow> string" where
  "sanitize_filename cc name =
     concat (take 255 (filter (\<lambda>k. is_alphanumeric cc k \<or> k \<in> {''.'', ''-'', ''_''}) (utf8_chars name)))"

definition attachment_key :: "(uuid \<Rightarrow> string) \<Rightarrow> uuid \<Rightarrow> uuid \<Rightarrow> string \<Rightarrow> string" where
  "attachment_key show_uuid user_id attachment_id filename =
     show_uuid user_id @ ''/attachments/'' @ show_uuid attachment_id @ ''/'' @ filename"

definition is_control :: "string \<Rightarrow> bool" where
  "is_control k =
     (case k of [c] \<Rightarrow> c < CHR 0x20 \<or> c = CHR 0x7F | [c, d] \<Rightarrow> c = CHR 0xC2 \<and> d < CHR 0xA0 | _ \<Rightarrow> False)"

definition is_ascii :: "char \<Rightarrow> bool" where
  "is_ascii c \<longleftrightarrow> c < CHR 0x80"

definition hex_digit :: "nat \<Rightarrow> char" where
  "hex_digit n = (if n < 10 then char_of (48 + n) else char_of (55 + n))"

definition percent_encode :: "char \<Rightarrow> string" where
  "percent_encode c =
     (if is_ascii_alphanumeric c \<or> c \<in> set ''-_.~'' then [c]
      else [CHR ''%'', hex_digit (of_char c div 16), hex_digit (of_char c mod 16)])"

definition safe_content_disposition :: "string \<Rightarrow> string" where
  "safe_content_disposition filename =
     (let safe = concat (take 255 (filter (\<lambda>k. \<not> is_control k \<and> k \<noteq> [CHR 0x22] \<and> k \<noteq> [CHR 0x5C]) (utf8_chars filename))) in
      if \<forall>c \<in> set safe. is_ascii c then ''attachment; filename='' @ [CHR 0x22] @ safe @ [CHR 0x22]
      else ''attachment; filename='' @ [CHR 0x22] @ filter is_ascii safe @ [CHR 0x22] @ ''; filename*=UTF-8'' @
        [CHR 0x27, CHR 0x27] @ concat (map percent_encode safe))"

section \<open>Errors for users\<close>

text \<open>\<^verbatim>\<open>split_whitespace\<close>, \<^verbatim>\<open>trim_matches\<close> and \<^verbatim>\<open>str::replace\<close>.\<close>

fun split_whitespace :: "char_classes \<Rightarrow> string \<Rightarrow> string list \<Rightarrow> string list" where
  "split_whitespace cc acc [] = (if acc = [] then [] else [acc])"
| "split_whitespace cc acc (k # ks) =
     (if is_whitespace cc k then (if acc = [] then split_whitespace cc [] ks else acc # split_whitespace cc [] ks)
      else split_whitespace cc (acc @ k) ks)"

definition token_char :: "char_classes \<Rightarrow> string \<Rightarrow> bool" where
  "token_char cc k \<longleftrightarrow> is_alphanumeric cc k \<or> k = ''-'' \<or> k = ''_''"

definition trim_token :: "char_classes \<Rightarrow> string \<Rightarrow> string" where
  "trim_token cc w =
     (let outside = (\<lambda>k. \<not> token_char cc k)
      in concat (rev (dropWhile outside (rev (dropWhile outside (utf8_chars w))))))"

text \<open>The number counts the characters of a replaced occurrence that are still to be passed over.\<close>

fun replace_all :: "string \<Rightarrow> string \<Rightarrow> nat \<Rightarrow> string \<Rightarrow> string" where
  "replace_all pat new n [] = []"
| "replace_all pat new (Suc n) (c # cs) = replace_all pat new n cs"
| "replace_all pat new 0 (c # cs) =
     (if is_prefix_of pat (c # cs) then new @ replace_all pat new (length pat - 1) cs
      else c # replace_all pat new 0 cs)"

definition is_secret :: "char_classes \<Rightarrow> string \<Rightarrow> bool" where
  "is_secret cc w \<longleftrightarrow> length w > 24 \<and>
     (\<exists>k \<in> set (utf8_chars w). is_alphabetic cc k) \<and> (\<exists>k \<in> set (utf8_chars w). in_class is_digit (\<lambda>_. False) k)"

definition redact_secrets :: "char_classes \<Rightarrow> string \<Rightarrow> string" where
  "redact_secrets cc s =
     fold (\<lambda>word result. let clean = trim_token cc word in
         if is_secret cc clean then replace_all clean ''[REDACTED]'' 0 result else result)
       (split_whitespace cc [] (utf8_chars s)) s"

definition sanitize_provider_error :: "char_classes \<Rightarrow> string \<Rightarrow> string \<Rightarrow> string" where
  "sanitize_provider_error cc provider s =
     (let has = str_contains s in
      if has ''API'' \<or> has ''key'' then
        (if has ''401'' \<or> has ''Unauthorized'' then ''Authentication failed with '' @ provider
         else if has ''403'' \<or> has ''Forbidden'' then ''Access denied by '' @ provider
         else if has ''429'' \<or> has ''rate'' then ''Rate limit exceeded for '' @ provider
         else if has ''500'' \<or> has ''502'' \<or> has ''503''
         then (case provider of c # cs \<Rightarrow> (if c = CHR ''v'' then CHR ''V'' else CHR ''T'') # cs | [] \<Rightarrow> []) @ '' temporarily unavailable''
         else redact_secrets cc s)
      else redact_secrets cc s)"

definition sanitize_vision_error :: "char_classes \<Rightarrow> string \<Rightarrow> string" where
  "sanitize_vision_error cc = sanitize_provider_error cc ''vision provider''"

definition sanitize_transcription_error :: "char_classes \<Rightarrow> string \<Rightarrow> string" where
  "sanitize_transcription_error cc = sanitize_provider_error cc ''transcription provider''"

definition sanitize_document_error :: "char_classes \<Rightarrow> string \<Rightarrow> string" where
  "sanitize_document_error cc s =
     (let has = str_contains s in
      if has ''/'' \<or> has [CHR 0x5C] then ''Document parsing failed''
      else if has ''memory'' \<or> has ''allocation'' then ''Document too complex to parse''
      else if has ''corrupt'' \<or> has ''invalid'' then ''Document format invalid or corrupted''
      else redact_secrets cc s)"

section \<open>The store of records\<close>

record attachment_store =
  ats_docs :: "(uuid, attachment) btree_map"
  ats_user :: "(uuid, uuid zset) btree_map"
  ats_episode :: "(uuid, uuid zset) btree_map"

definition attachment_store_new :: attachment_store where
  "attachment_store_new = \<lparr>ats_docs = [], ats_user = [], ats_episode = []\<rparr>"

definition attachment_score :: "attachment \<Rightarrow> int" where
  "attachment_score a = timestamp_millis (at_created_at a)"

definition save_attachment :: "attachment \<Rightarrow> attachment_store \<Rightarrow> attachment_store" where
  "save_attachment a st =
     st\<lparr>ats_docs := bt_insert (at_id a) a (ats_docs st),
        ats_user := bt_upsert [] (zadd (attachment_score a) (at_id a)) (at_user_id a) (ats_user st),
        ats_episode := bt_upsert [] (zadd (attachment_score a) (at_id a)) (at_episode_id a) (ats_episode st)\<rparr>"

definition find_attachment :: "uuid \<Rightarrow> attachment_store \<Rightarrow> attachment option" where
  "find_attachment i st = map_of (ats_docs st) i"

text \<open>The page after an attachment starts a fraction of a millisecond later, so at the next millisecond.\<close>

definition list_user_attachments ::
  "uuid \<Rightarrow> attachment_type option \<Rightarrow> u32 \<Rightarrow> uuid option \<Rightarrow> attachment_store \<Rightarrow> attachment list" where
  "list_user_attachments u t limit after st =
     (let from = (case after of
            Some i \<Rightarrow> map_option (\<lambda>a. attachment_score a + 1) (find_attachment i st) | None \<Rightarrow> None);
          in_range = filter (\<lambda>e. case from of Some l \<Rightarrow> l \<le> fst e | None \<Rightarrow> True) (bt_get_or [] (ats_user st) u);
          ids = take (unat limit) (map snd in_range);
          as = List.map_filter (\<lambda>i. find_attachment i st) ids
      in filter (\<lambda>a. case t of Some t' \<Rightarrow> at_type a = t' | None \<Rightarrow> True) as)"

definition list_attachments_for_episode :: "uuid \<Rightarrow> attachment_store \<Rightarrow> attachment list" where
  "list_attachments_for_episode e st =
     List.map_filter (\<lambda>i. find_attachment i st) (map snd (bt_get_or [] (ats_episode st) e))"

definition drop_member :: "uuid \<Rightarrow> uuid \<Rightarrow> (uuid, uuid zset) btree_map \<Rightarrow> (uuid, uuid zset) btree_map" where
  "drop_member k i m = (case map_of m k of Some z \<Rightarrow> bt_insert k (zrem i z) m | None \<Rightarrow> m)"

definition delete_attachment_record ::
  "(uuid \<Rightarrow> string) \<Rightarrow> uuid \<Rightarrow> attachment_store \<Rightarrow> (mnemo_error + unit) \<times> attachment_store" where
  "delete_attachment_record show_uuid i st =
     (case find_attachment i st of
        None \<Rightarrow> (Inl (NotFound ''Attachment'' (show_uuid i)), st)
      | Some a \<Rightarrow> (Inr (), st\<lparr>ats_docs := bt_remove i (ats_docs st), ats_user := drop_member (at_user_id a) i (ats_user st),
          ats_episode := drop_member (at_episode_id a) i (ats_episode st)\<rparr>))"

definition forget_attachment :: "uuid \<Rightarrow> attachment_store \<Rightarrow> attachment_store" where
  "forget_attachment i st =
     st\<lparr>ats_docs := bt_remove i (ats_docs st),
        ats_episode := (case find_attachment i st of
            Some a \<Rightarrow> drop_member (at_episode_id a) i (ats_episode st) | None \<Rightarrow> ats_episode st)\<rparr>"

definition delete_all_attachments_for_user :: "uuid \<Rightarrow> attachment_store \<Rightarrow> attachment_store" where
  "delete_all_attachments_for_user u st =
     (let ids = map snd (bt_get_or [] (ats_user st) u);
          st1 = fold forget_attachment ids st
      in if ids = [] then st else st1\<lparr>ats_user := bt_remove u (ats_user st1)\<rparr>)"

definition update_attachment_record ::
  "(uuid \<Rightarrow> string) \<Rightarrow> attachment \<Rightarrow> attachment_store \<Rightarrow> (mnemo_error + unit) \<times> attachment_store" where
  "update_attachment_record show_uuid a st =
     (if find_attachment (at_id a) st = None then (Inl (NotFound ''Attachment'' (show_uuid (at_id a))), st)
      else (Inr (), st\<lparr>ats_docs := bt_insert (at_id a) a (ats_docs st)\<rparr>))"

definition count_attachments_by_type :: "uuid \<Rightarrow> attachment_type option \<Rightarrow> attachment_store \<Rightarrow> u64" where
  "count_attachments_by_type u t st =
     (let ids = map snd (bt_get_or [] (ats_user st) u) in
      case t of
        None \<Rightarrow> of_nat (length ids)
      | Some t' \<Rightarrow> of_nat (length (filter (\<lambda>a. at_type a = t') (List.map_filter (\<lambda>i. find_attachment i st) ids))))"

section \<open>Configuration, providers and state\<close>

text \<open>The blob store the server was started with, over a state of type \<open>'s\<close>.\<close>

record 's blob_ops =
  bo_put :: "string \<Rightarrow> string \<Rightarrow> string \<Rightarrow> 's \<Rightarrow> (mnemo_error + blob_metadata) \<times> 's"
  bo_get :: "string \<Rightarrow> 's \<Rightarrow> mnemo_error + string \<times> blob_metadata"
  bo_delete :: "string \<Rightarrow> 's \<Rightarrow> (mnemo_error + unit) \<times> 's"
  bo_presign_get :: "string \<Rightarrow> u64 \<Rightarrow> string option \<Rightarrow> mnemo_error + string option"
  bo_presign_put :: "string \<Rightarrow> string \<Rightarrow> u64 \<Rightarrow> string option \<Rightarrow> mnemo_error + string option"

definition local_blob_ops :: "local_blob_store \<Rightarrow> files blob_ops" where
  "local_blob_ops lb = \<lparr>bo_put = blob_put lb, bo_get = blob_get lb, bo_delete = blob_delete lb,
     bo_presign_get = (\<lambda>key _ _. blob_presign key), bo_presign_put = (\<lambda>key _ _ _. blob_presign key)\<rparr>"

record blob_section =
  bs_max_image_size :: u64
  bs_max_audio_size :: u64
  bs_max_document_size :: u64
  bs_allowed_image_types :: "string list"
  bs_allowed_audio_types :: "string list"
  bs_allowed_document_types :: "string list"

record vision_provider =
  vp_max_image_size :: u64
  vp_supports :: "image_format \<Rightarrow> bool"
  vp_model :: string
  vp_analyze :: "string \<Rightarrow> image_format \<Rightarrow> mnemo_error + string"
  vp_sync :: bool

record audio_provider =
  ap_max_audio_size :: u64
  ap_supports :: "audio_format \<Rightarrow> bool"
  ap_model :: string
  ap_transcribe :: "string \<Rightarrow> audio_format \<Rightarrow> string option \<Rightarrow> mnemo_error + string \<times> f32 option"
  ap_sync :: bool

record document_section =
  do_enabled :: bool
  do_max_size_bytes :: u64
  do_chunk_strategy :: string
  do_chunk_size :: nat
  do_chunk_overlap :: nat
  do_extract_images :: bool
  do_sync_processing :: bool

record document_provider =
  dp_supports :: "document_format \<Rightarrow> bool"
  dp_parse :: "string \<Rightarrow> document_format \<Rightarrow> document_config \<Rightarrow> mnemo_error + parsed_document"
  dp_section :: document_section

text \<open>A provider is given together with its section of the configuration; one without the other is as none.\<close>

record 's attachment_server =
  sv_blobs :: "('s blob_ops \<times> blob_section) option"
  sv_vision :: "vision_provider option"
  sv_audio :: "audio_provider option"
  sv_document :: "document_provider option"
  sv_show_uuid :: "uuid \<Rightarrow> string"
  sv_show_error :: "mnemo_error \<Rightarrow> string"
  sv_chars :: char_classes

text \<open>What a spawned task still has to do for the attachment with the given identifier.\<close>

datatype background_task =
    VisionTask uuid string image_format
  | AudioTask uuid string audio_format "string option"
  | DocumentTask uuid string document_format document_config

record 's attachment_state =
  as_episodes :: episode_store
  as_records :: attachment_store
  as_blobs :: 's
  as_tasks :: "background_task list"
  as_saving :: "attachment list"

section \<open>Background results\<close>

definition change_attachment ::
  "(uuid \<Rightarrow> string) \<Rightarrow> uuid \<Rightarrow> (attachment \<Rightarrow> attachment) \<Rightarrow> attachment_store \<Rightarrow> (mnemo_error + unit) \<times> attachment_store" where
  "change_attachment show_uuid i f st =
     (case find_attachment i st of
        None \<Rightarrow> (Inl (NotFound ''Attachment'' (show_uuid i)), st)
      | Some a \<Rightarrow> (Inr (), save_attachment (f a) st))"

definition update_attachment_with_vision ::
  "(uuid \<Rightarrow> string) \<Rightarrow> uuid \<Rightarrow> string \<Rightarrow> string \<Rightarrow> attachment_store \<Rightarrow> (mnemo_error + unit) \<times> attachment_store" where
  "update_attachment_with_vision show_uuid i description model =
     change_attachment show_uuid i (\<lambda>a. attachment_completed model (set_description description a))"

definition mark_attachment_failed ::
  "(uuid \<Rightarrow> string) \<Rightarrow> uuid \<Rightarrow> string \<Rightarrow> attachment_store \<Rightarrow> (mnemo_error + unit) \<times> attachment_store" where
  "mark_attachment_failed show_uuid i err = change_attachment show_uuid i (attachment_failed err)"

definition with_duration :: "f32 option \<Rightarrow> attachment \<Rightarrow> attachment" where
  "with_duration d a = (case d of Some x \<Rightarrow> set_duration x a | None \<Rightarrow> a)"

definition update_attachment_with_transcription ::
  "(uuid \<Rightarrow> string) \<Rightarrow> uuid \<Rightarrow> string \<Rightarrow> f32 option \<Rightarrow> string \<Rightarrow> attachment_store \<Rightarrow> (mnemo_error + unit) \<times> attachment_store" where
  "update_attachment_with_transcription show_uuid i transcript duration model =
     change_attachment show_uuid i (\<lambda>a. attachment_completed model (with_duration duration (set_transcript transcript a)))"

definition update_attachment_with_document ::
  "(uuid \<Rightarrow> string) \<Rightarrow> uuid \<Rightarrow> string \<Rightarrow> attachment_store \<Rightarrow> (mnemo_error + unit) \<times> attachment_store" where
  "update_attachment_with_document show_uuid i description =
     change_attachment show_uuid i (\<lambda>a. attachment_completed ''document-parser'' (set_description description a))"

text \<open>Slicing a text at a byte inside a character panics.\<close>

definition is_char_boundary :: "nat \<Rightarrow> string \<Rightarrow> bool" where
  "is_char_boundary n s \<longleftrightarrow> n = 0 \<or> n = length s \<or> (n < length s \<and> \<not> is_continuation (s ! n))"

definition slice_to :: "nat \<Rightarrow> string \<Rightarrow> string option" where
  "slice_to n s = (if is_char_boundary n s then Some (take n s) else None)"

fun joined :: "string \<Rightarrow> string list \<Rightarrow> string" where
  "joined sep [] = []"
| "joined sep [x] = x"
| "joined sep (x # y # xs) = x @ sep @ joined sep (y # xs)"

definition line_feed :: string where
  "line_feed = [CHR 0x0A]"

definition document_description :: "parsed_document \<Rightarrow> string option" where
  "document_description p =
     (let chunk_text = joined (line_feed @ line_feed) (take 3 (pd_chunks p)) in
      map_option (\<lambda>excerpt.
        (case pd_title p of
           Some title \<Rightarrow> ''Document: '' @ title @ line_feed @ ''Pages: '' @ nat_to_string (unat (pd_page_count p))
         | None \<Rightarrow> ''Document ('' @ nat_to_string (unat (pd_page_count p)) @ '' pages, '' @
             nat_to_string (length (pd_chunks p)) @ '' chunks)'') @ line_feed @ line_feed @ excerpt)
        (slice_to (min (length chunk_text) 1000) chunk_text))"

definition document_config_of :: "document_section \<Rightarrow> document_config" where
  "document_config_of c =
     \<lparr>dg_enabled = do_enabled c, dg_max_size_bytes = do_max_size_bytes c,
      dg_chunk_strategy = (if do_chunk_strategy c = ''fixed'' then CkFixed
        else if do_chunk_strategy c = ''page'' then CkPage else CkStructural),
      dg_chunk_size = do_chunk_size c, dg_chunk_overlap = do_chunk_overlap c,
      dg_extract_images = do_extract_images c, dg_sync_processing = do_sync_processing c\<rparr>"

definition vision_failure :: "'s attachment_server \<Rightarrow> mnemo_error \<Rightarrow> string" where
  "vision_failure sv e = ''Vision processing failed: '' @ sanitize_vision_error (sv_chars sv) (sv_show_error sv e)"

definition audio_failure :: "'s attachment_server \<Rightarrow> mnemo_error \<Rightarrow> string" where
  "audio_failure sv e = ''Transcription failed: '' @ sanitize_transcription_error (sv_chars sv) (sv_show_error sv e)"

definition document_failure :: "'s attachment_server \<Rightarrow> mnemo_error \<Rightarrow> string" where
  "document_failure sv e = ''Document parsing failed: '' @ sanitize_document_error (sv_chars sv) (sv_show_error sv e)"

text \<open>A task that finds its provider gone or panics changes nothing.\<close>

definition task_result :: "'s attachment_server \<Rightarrow> background_task \<Rightarrow> attachment_store \<Rightarrow> attachment_store" where
  "task_result sv t st =
     (case t of
        VisionTask i data f \<Rightarrow>
          (case sv_vision sv of
             None \<Rightarrow> st
           | Some v \<Rightarrow>
             (case vp_analyze v data f of
                Inr d \<Rightarrow> snd (update_attachment_with_vision (sv_show_uuid sv) i d (vp_model v) st)
              | Inl e \<Rightarrow> snd (mark_attachment_failed (sv_show_uuid sv) i (vision_failure sv e) st)))
      | AudioTask i data f name \<Rightarrow>
          (case sv_audio sv of
             None \<Rightarrow> st
           | Some v \<Rightarrow>
             (case ap_transcribe v data f name of
                Inr (tx, d) \<Rightarrow> snd (update_attachment_with_transcription (sv_show_uuid sv) i tx d (ap_model v) st)
              | Inl e \<Rightarrow> snd (mark_attachment_failed (sv_show_uuid sv) i (audio_failure sv e) st)))
      | DocumentTask i data f c \<Rightarrow>
          (case sv_document sv of
             None \<Rightarrow> st
           | Some v \<Rightarrow>
             (case dp_parse v data f c of
                Inr p \<Rightarrow>
                  (case document_description p of
                     Some d \<Rightarrow> snd (update_attachment_with_document (sv_show_uuid sv) i d st)
                   | None \<Rightarrow> st)
              | Inl e \<Rightarrow> snd (mark_attachment_failed (sv_show_uuid sv) i (document_failure sv e) st))))"

section \<open>Uploads\<close>

text \<open>The fields of a form, in order; a field or its content may fail to arrive.\<close>

record multipart_field =
  mf_name :: "string option"
  mf_file_name :: "string option"
  mf_content_type :: "string option"
  mf_bytes :: "string + string"

fun file_field :: "(string + multipart_field) list \<Rightarrow> mnemo_error + (string option \<times> string option \<times> string) option" where
  "file_field [] = Inr None"
| "file_field (Inl e # fs) = Inl (BadRequest (''Multipart error: '' @ e))"
| "file_field (Inr f # fs) =
     (if mf_name f = Some ''file'' then
        (case mf_bytes f of
           Inl e \<Rightarrow> Inl (BadRequest (''Failed to read file: '' @ e))
         | Inr d \<Rightarrow> Inr (Some (mf_file_name f, mf_content_type f, d)))
      else file_field fs)"

record upload =
  up_type :: attachment_type
  up_mime :: string
  up_name :: "string option"
  up_data :: string

definition size_u64 :: "string \<Rightarrow> u64" where
  "size_u64 d = of_nat (length d)"

definition type_debug :: "attachment_type \<Rightarrow> string" where
  "type_debug t = (case t of AtImage \<Rightarrow> ''Image'' | AtAudio \<Rightarrow> ''Audio'' | AtVideo \<Rightarrow> ''Video'' | AtDocument \<Rightarrow> ''Document'')"

definition size_limit :: "blob_section \<Rightarrow> attachment_type \<Rightarrow> u64" where
  "size_limit c t =
     (case t of AtImage \<Rightarrow> bs_max_image_size c | AtAudio \<Rightarrow> bs_max_audio_size c
      | AtDocument \<Rightarrow> bs_max_document_size c | AtVideo \<Rightarrow> bs_max_document_size c)"

definition allowed_types :: "blob_section \<Rightarrow> attachment_type \<Rightarrow> string list" where
  "allowed_types c t =
     (case t of AtImage \<Rightarrow> bs_allowed_image_types c | AtAudio \<Rightarrow> bs_allowed_audio_types c
      | AtDocument \<Rightarrow> bs_allowed_document_types c | AtVideo \<Rightarrow> bs_allowed_audio_types c)"

text \<open>The quoted list of the allowed types, as \<^verbatim>\<open>{:?}\<close> prints it.\<close>

definition debug_list :: "string list \<Rightarrow> string" where
  "debug_list xs = ''['' @ joined '', '' (map (\<lambda>x. [CHR 0x22] @ x @ [CHR 0x22]) xs) @ '']''"

definition check_upload :: "blob_section \<Rightarrow> (string + multipart_field) list \<Rightarrow> mnemo_error + upload" where
  "check_upload c form =
     (case file_field form of
        Inl e \<Rightarrow> Inl e
      | Inr None \<Rightarrow> Inl (BadRequest ''No file provided'')
      | Inr (Some (name, content_type, d)) \<Rightarrow>
        (case content_type of
           None \<Rightarrow> Inl (BadRequest ''Content-Type required'')
         | Some mime \<Rightarrow>
           (case attachment_type_from_mime mime of
              None \<Rightarrow> Inl (UnsupportedMediaType (''Unsupported file type: '' @ mime))
            | Some t \<Rightarrow>
              if size_u64 d > size_limit c t then
                Inl (PayloadTooLarge (''File size '' @ nat_to_string (unat (size_u64 d)) @ '' exceeds limit '' @
                  nat_to_string (unat (size_limit c t)) @ '' for '' @ type_debug t))
              else if mime \<notin> set (allowed_types c t) then
                Inl (UnsupportedMediaType (''MIME type '' @ mime @ '' not allowed for '' @ type_debug t @ ''. Allowed: '' @
                  debug_list (allowed_types c t)))
              else Inr \<lparr>up_type = t, up_mime = mime, up_name = name, up_data = d\<rparr>)))"

definition upload_key :: "'s attachment_server \<Rightarrow> uuid \<Rightarrow> uuid \<Rightarrow> upload \<Rightarrow> string" where
  "upload_key sv owner new_key up =
     attachment_key (sv_show_uuid sv) owner new_key
       (case up_name up of Some n \<Rightarrow> sanitize_filename (sv_chars sv) n | None \<Rightarrow> ''attachment.'' @ mime_extension (up_mime up))"

text \<open>Each provider works on the record at once or leaves a task; for documents \<open>None\<close> is a panic.\<close>

definition process_vision :: "'s attachment_server \<Rightarrow> upload \<Rightarrow> attachment \<Rightarrow> attachment \<times> background_task list" where
  "process_vision sv up a =
     (case (sv_vision sv, image_format_from_mime (up_mime up)) of
        (Some v, Some f) \<Rightarrow>
          if up_type up \<noteq> AtImage \<or> size_u64 (up_data up) > vp_max_image_size v \<or> \<not> vp_supports v f then (a, [])
          else if vp_sync v then
            (case vp_analyze v (up_data up) f of
               Inr d \<Rightarrow> (attachment_completed (vp_model v) (set_description d (attachment_processing a)), [])
             | Inl e \<Rightarrow> (attachment_failed (vision_failure sv e) (attachment_processing a), []))
          else (attachment_processing a, [VisionTask (at_id a) (up_data up) f])
      | _ \<Rightarrow> (a, []))"

definition process_audio :: "'s attachment_server \<Rightarrow> upload \<Rightarrow> attachment \<Rightarrow> attachment \<times> background_task list" where
  "process_audio sv up a =
     (case (sv_audio sv, audio_format_from_mime (up_mime up)) of
        (Some v, Some f) \<Rightarrow>
          if up_type up \<noteq> AtAudio \<or> size_u64 (up_data up) > ap_max_audio_size v \<or> \<not> ap_supports v f then (a, [])
          else if ap_sync v then
            (case ap_transcribe v (up_data up) f (at_filename a) of
               Inr (tx, d) \<Rightarrow> (attachment_completed (ap_model v) (with_duration d (set_transcript tx (attachment_processing a))), [])
             | Inl e \<Rightarrow> (attachment_failed (audio_failure sv e) (attachment_processing a), []))
          else (attachment_processing a, [AudioTask (at_id a) (up_data up) f (at_filename a)])
      | _ \<Rightarrow> (a, []))"

definition process_document ::
  "'s attachment_server \<Rightarrow> (mnemo_error + string \<times> blob_metadata) \<Rightarrow> upload \<Rightarrow> attachment \<Rightarrow>
   (attachment \<times> background_task list) option" where
  "process_document sv stored up a =
     (case (sv_document sv, document_format_from_mime (up_mime up)) of
        (Some v, Some f) \<Rightarrow>
          if up_type up \<noteq> AtDocument \<or> \<not> dp_supports v f \<or> size_u64 (up_data up) > do_max_size_bytes (dp_section v)
          then Some (a, [])
          else
            (case stored of
               Inl _ \<Rightarrow> Some (a, [])
             | Inr (d, _) \<Rightarrow>
               let c = document_config_of (dp_section v) in
               if do_sync_processing (dp_section v) then
                 (case dp_parse v d f c of
                    Inr p \<Rightarrow> map_option (\<lambda>desc. (attachment_completed ''document-parser'' (set_description desc (attachment_processing a)), []))
                        (document_description p)
                  | Inl e \<Rightarrow> Some (attachment_failed (document_failure sv e) (attachment_processing a), []))
               else Some (attachment_processing a, [DocumentTask (at_id a) d f c]))
      | _ \<Rightarrow> Some (a, []))"

definition no_blobs :: mnemo_error where
  "no_blobs = ServiceUnavailable ''Blob storage not configured''"

record upload_env =
  ue_key_id :: uuid
  ue_id :: uuid
  ue_now :: timestamp

text \<open>
  The first step stores the blob, makes the record and spawns the tasks; the record waits in \<open>as_saving\<close>. The result is
  \<open>None\<close> when the handler panics.
\<close>

definition upload_begin ::
  "'s attachment_server \<Rightarrow> caller_context option \<Rightarrow> uuid \<Rightarrow> (string + multipart_field) list \<Rightarrow> upload_env \<Rightarrow> 's attachment_state \<Rightarrow>
   (mnemo_error + attachment) option \<times> 's attachment_state" where
  "upload_begin sv ext episode_id form env st =
     (case sv_blobs sv of
        None \<Rightarrow> (Some (Inl no_blobs), st)
      | Some (bo, c) \<Rightarrow>
        (case get_episode episode_id (as_episodes st) of
           Inl e \<Rightarrow> (Some (Inl e), st)
         | Inr ep \<Rightarrow>
           (case require_user_access (caller_from_extension ext) (e_user_id ep) of
              Inl e \<Rightarrow> (Some (Inl e), st)
            | Inr _ \<Rightarrow>
              (case check_upload c form of
                 Inl e \<Rightarrow> (Some (Inl e), st)
               | Inr up \<Rightarrow>
                 let key = upload_key sv (e_user_id ep) (ue_key_id env) up in
                 (case bo_put bo key (up_data up) (up_mime up) (as_blobs st) of
                    (Inl e, b) \<Rightarrow> (Some (Inl (Storage (''Failed to upload: '' @ sv_show_error sv e))), st\<lparr>as_blobs := b\<rparr>)
                  | (Inr _, b) \<Rightarrow>
                    let a0 = attachment_new (ue_id env) (ue_now env) episode_id (e_user_id ep) (up_type up) (up_mime up)
                          (up_name up) (size_u64 (up_data up)) key;
                        (a1, t1) = process_vision sv up a0; (a2, t2) = process_audio sv up a1
                    in (case process_document sv (bo_get bo key b) up a2 of
                          None \<Rightarrow> (None, st\<lparr>as_blobs := b, as_tasks := as_tasks st @ t1 @ t2\<rparr>)
                        | Some (a3, t3) \<Rightarrow>
                          (Some (Inr a3), st\<lparr>as_blobs := b, as_tasks := as_tasks st @ t1 @ t2 @ t3, as_saving := a3 # as_saving st\<rparr>)))))))"

definition upload_save :: "attachment \<Rightarrow> 's attachment_state \<Rightarrow> 's attachment_state" where
  "upload_save a st = st\<lparr>as_records := save_attachment a (as_records st), as_saving := remove1 a (as_saving st)\<rparr>"

record attachment_response =
  ar_attachment :: attachment
  ar_download_url :: "string option"
  ar_thumbnail_url :: "string option"

text \<open>The default options of a signed address: fifteen minutes, no disposition. An error of the signing is dropped.\<close>

definition download_url :: "'s blob_ops \<Rightarrow> string \<Rightarrow> string option" where
  "download_url bo key = (case bo_presign_get bo key 900 None of Inr u \<Rightarrow> u | Inl _ \<Rightarrow> None)"

definition attachment_answer :: "'s attachment_server \<Rightarrow> attachment \<Rightarrow> attachment_response" where
  "attachment_answer sv a =
     \<lparr>ar_attachment = a,
      ar_download_url = (case sv_blobs sv of Some (bo, _) \<Rightarrow> download_url bo (at_storage_key a) | None \<Rightarrow> None),
      ar_thumbnail_url = None\<rparr>"

text \<open>The upload without anything in between.\<close>

definition upload_attachment ::
  "'s attachment_server \<Rightarrow> caller_context option \<Rightarrow> uuid \<Rightarrow> (string + multipart_field) list \<Rightarrow> upload_env \<Rightarrow> 's attachment_state \<Rightarrow>
   (mnemo_error + attachment_response) option \<times> 's attachment_state" where
  "upload_attachment sv ext episode_id form env st =
     (case upload_begin sv ext episode_id form env st of
        (None, st') \<Rightarrow> (None, st')
      | (Some (Inl e), st') \<Rightarrow> (Some (Inl e), st')
      | (Some (Inr a), st') \<Rightarrow> (Some (Inr (attachment_answer sv a)), upload_save a st'))"

definition run_task :: "'s attachment_server \<Rightarrow> background_task \<Rightarrow> 's attachment_state \<Rightarrow> 's attachment_state" where
  "run_task sv t st = st\<lparr>as_records := task_result sv t (as_records st), as_tasks := remove1 t (as_tasks st)\<rparr>"

section \<open>The other handlers\<close>

definition list_attachments ::
  "caller_context option \<Rightarrow> uuid \<Rightarrow> 's attachment_state \<Rightarrow> mnemo_error + attachment list" where
  "list_attachments ext episode_id st =
     (case get_episode episode_id (as_episodes st) of
        Inl e \<Rightarrow> Inl e
      | Inr ep \<Rightarrow>
        (case require_user_access (caller_from_extension ext) (e_user_id ep) of
           Inl e \<Rightarrow> Inl e
         | Inr _ \<Rightarrow> Inr (list_attachments_for_episode episode_id (as_records st))))"

definition accessible_attachment ::
  "'s attachment_server \<Rightarrow> caller_context option \<Rightarrow> uuid \<Rightarrow> 's attachment_state \<Rightarrow> mnemo_error + attachment" where
  "accessible_attachment sv ext i st =
     (case find_attachment i (as_records st) of
        None \<Rightarrow> Inl (NotFound ''Attachment'' (sv_show_uuid sv i))
      | Some a \<Rightarrow> (case require_user_access (caller_from_extension ext) (at_user_id a) of Inl e \<Rightarrow> Inl e | Inr _ \<Rightarrow> Inr a))"

definition get_attachment ::
  "'s attachment_server \<Rightarrow> caller_context option \<Rightarrow> uuid \<Rightarrow> 's attachment_state \<Rightarrow> mnemo_error + attachment_response" where
  "get_attachment sv ext i st =
     (case accessible_attachment sv ext i st of Inl e \<Rightarrow> Inl e | Inr a \<Rightarrow> Inr (attachment_answer sv a))"

record download =
  dw_content_type :: string
  dw_content_disposition :: string
  dw_content_length :: string
  dw_content_type_options :: string
  dw_body :: string

definition download_attachment ::
  "'s attachment_server \<Rightarrow> caller_context option \<Rightarrow> uuid \<Rightarrow> 's attachment_state \<Rightarrow> mnemo_error + download" where
  "download_attachment sv ext i st =
     (case sv_blobs sv of
        None \<Rightarrow> Inl no_blobs
      | Some (bo, _) \<Rightarrow>
        (case accessible_attachment sv ext i st of
           Inl e \<Rightarrow> Inl e
         | Inr a \<Rightarrow>
           (case bo_get bo (at_storage_key a) (as_blobs st) of
              Inl e \<Rightarrow> Inl (Storage (''Failed to fetch: '' @ sv_show_error sv e))
            | Inr (d, _) \<Rightarrow>
              Inr \<lparr>dw_content_type = at_mime_type a,
                dw_content_disposition = safe_content_disposition
                  (case at_filename a of Some n \<Rightarrow> n | None \<Rightarrow> ''attachment''),
                dw_content_length = nat_to_string (unat (at_size_bytes a)), dw_content_type_options = ''nosniff'', dw_body = d\<rparr>)))"

definition delete_attachment ::
  "'s attachment_server \<Rightarrow> caller_context option \<Rightarrow> uuid \<Rightarrow> 's attachment_state \<Rightarrow> (mnemo_error + unit) \<times> 's attachment_state" where
  "delete_attachment sv ext i st =
     (case accessible_attachment sv ext i st of
        Inl e \<Rightarrow> (Inl e, st)
      | Inr a \<Rightarrow>
        let st1 = (case sv_blobs sv of
              Some (bo, _) \<Rightarrow> st\<lparr>as_blobs := snd (bo_delete bo (at_storage_key a) (as_blobs st))\<rparr> | None \<Rightarrow> st)
        in (case delete_attachment_record (sv_show_uuid sv) i (as_records st1) of
              (r, rs) \<Rightarrow> (r, st1\<lparr>as_records := rs\<rparr>)))"

record presign_request =
  pq_operation :: string
  pq_expires_in_secs :: u64

definition presign_attachment ::
  "'s attachment_server \<Rightarrow> caller_context option \<Rightarrow> uuid \<Rightarrow> presign_request \<Rightarrow> 's attachment_state \<Rightarrow> mnemo_error + string \<times> u64" where
  "presign_attachment sv ext i req st =
     (case sv_blobs sv of
        None \<Rightarrow> Inl no_blobs
      | Some (bo, _) \<Rightarrow>
        (case accessible_attachment sv ext i st of
           Inl e \<Rightarrow> Inl e
         | Inr a \<Rightarrow>
           let expires = min (pq_expires_in_secs req) 86400;
               disposition = ''attachment; filename='' @ [CHR 0x22] @
                 (case at_filename a of Some n \<Rightarrow> n | None \<Rightarrow> ''attachment'') @ [CHR 0x22];
               url = (if pq_operation req = ''get'' then Some (bo_presign_get bo (at_storage_key a) expires (Some disposition))
                 else if pq_operation req = ''put''
                 then Some (bo_presign_put bo (at_storage_key a) (at_mime_type a) expires (Some disposition))
                 else None)
           in (case url of
                 None \<Rightarrow> Inl (BadRequest (''Invalid operation: '' @ pq_operation req))
               | Some (Inl e) \<Rightarrow> Inl (Storage (''Presign failed: '' @ sv_show_error sv e))
               | Some (Inr None) \<Rightarrow> Inl (NotImplemented ''Presigning not supported by this backend'')
               | Some (Inr (Some u)) \<Rightarrow> Inr (u, expires))))"

end
