(* ===== verification/Attachment_Runs.thy ===== *)
theory Attachment_Runs
  imports Attachments
begin

text \<open>
  Runs of the attachment handlers of \<^verbatim>\<open>routes.rs\<close> and their background tasks: sequences of the steps defined in
  \<open>Attachments\<close>, in any order. The records of every reachable state are well formed; a blob that was uploaded to the
  local store is downloaded unchanged whatever else happens meanwhile; and the orders of saving a record and finishing its task
  are compared.
\<close>

section \<open>Steps of the server\<close>

text \<open>
  Requests and spawned tasks run concurrently. An upload is the step that stores the blob and the step that saves the record;
  a task may run before, between or after. Reading requests change nothing.
\<close>

datatype attachment_request =
    BeginUpload "caller_context option" uuid "(string + multipart_field) list" upload_env
  | SaveRecord attachment
  | RunTask background_task
  | DeleteRecord "caller_context option" uuid

definition attachment_step :: "'s attachment_server \<Rightarrow> attachment_request \<Rightarrow> 's attachment_state \<Rightarrow> 's attachment_state" where
  "attachment_step sv req st =
     (case req of
        BeginUpload ext episode_id form env \<Rightarrow> snd (upload_begin sv ext episode_id form env st)
      | SaveRecord a \<Rightarrow> if a \<in> set (as_saving st) then upload_save a st else st
      | RunTask t \<Rightarrow> if t \<in> set (as_tasks st) then run_task sv t st else st
      | DeleteRecord ext i \<Rightarrow> snd (delete_attachment sv ext i st))"

definition attachment_start :: "episode_store \<Rightarrow> 's \<Rightarrow> 's attachment_state" where
  "attachment_start eps blobs =
     \<lparr>as_episodes = eps, as_records = attachment_store_new, as_blobs = blobs, as_tasks = [], as_saving = []\<rparr>"

definition attachment_run ::
  "'s attachment_server \<Rightarrow> attachment_request list \<Rightarrow> 's attachment_state \<Rightarrow> 's attachment_state" where
  "attachment_run sv reqs st = fold (attachment_step sv) reqs st"

section \<open>Records are well formed\<close>

text \<open>The type of a record is that of its content type, which was allowed, its size is within the limit, and the fields of a
  result are those of its status.\<close>

definition status_ok :: "attachment \<Rightarrow> bool" where
  "status_ok a =
     (case at_status a of
        PsCompleted \<Rightarrow> at_model a \<noteq> None \<and> at_error a = None
      | PsFailed \<Rightarrow> at_error a \<noteq> None
      | _ \<Rightarrow> at_model a = None \<and> at_error a = None)"

definition record_ok :: "'s attachment_server \<Rightarrow> attachment \<Rightarrow> bool" where
  "record_ok sv a \<longleftrightarrow> status_ok a \<and> attachment_type_from_mime (at_mime_type a) = Some (at_type a) \<and>
     (case sv_blobs sv of
        Some (_, c) \<Rightarrow> at_size_bytes a \<le> size_limit c (at_type a) \<and> at_mime_type a \<in> set (allowed_types c (at_type a))
      | None \<Rightarrow> False)"

text \<open>Of a record, what no result of a provider changes.\<close>

definition same_upload :: "attachment \<Rightarrow> attachment \<Rightarrow> bool" where
  "same_upload a b \<longleftrightarrow> at_id a = at_id b \<and> at_user_id a = at_user_id b \<and> at_episode_id a = at_episode_id b \<and>
     at_type a = at_type b \<and> at_mime_type a = at_mime_type b \<and> at_filename a = at_filename b \<and>
     at_size_bytes a = at_size_bytes b \<and> at_storage_key a = at_storage_key b \<and> at_created_at a = at_created_at b"

lemmas marks = attachment_processing_def attachment_completed_def attachment_failed_def set_description_def set_transcript_def
  set_duration_def with_duration_def

lemma same_upload_refl [simp]: "same_upload a a"
  by (simp add: same_upload_def)

lemma same_upload_trans: "same_upload a b \<Longrightarrow> same_upload b c \<Longrightarrow> same_upload a c"
  by (simp add: same_upload_def)

lemma record_ok_same: "same_upload b a \<Longrightarrow> status_ok b \<Longrightarrow> record_ok sv a \<Longrightarrow> record_ok sv b"
  by (auto simp: record_ok_def same_upload_def split: option.splits)

lemma status_ok_marks [simp]: "status_ok (attachment_completed m a)" "status_ok (attachment_failed e a)"
  by (simp_all add: status_ok_def marks)

lemma same_upload_marks [simp]:
  "same_upload (attachment_completed m a) a" "same_upload (attachment_failed e a) a" "same_upload (attachment_processing a) a"
  "same_upload (attachment_completed m (set_description d a)) a" "same_upload (attachment_completed m (set_description d (attachment_processing a))) a"
  "same_upload (attachment_failed e (attachment_processing a)) a"
  "same_upload (attachment_completed m (with_duration x (set_transcript t a))) a"
  "same_upload (attachment_completed m (with_duration x (set_transcript t (attachment_processing a)))) a"
  by (simp_all add: same_upload_def marks split: option.split)

text \<open>At most one provider works on an upload, and leaves a record of the same upload with a sound status.\<close>

definition fresh_status :: "attachment \<Rightarrow> bool" where
  "fresh_status a \<longleftrightarrow> at_status a = PsPending \<and> at_model a = None \<and> at_error a = None"

lemma fresh_status_processing: "fresh_status a \<Longrightarrow> status_ok (attachment_processing a)" "fresh_status a \<Longrightarrow> status_ok a"
  by (simp_all add: fresh_status_def status_ok_def marks)

lemma process_vision_ok:
  assumes "process_vision sv up a = (b, ts)" "fresh_status a"
  shows "same_upload b a" "status_ok b" "up_type up \<noteq> AtImage \<Longrightarrow> b = a \<and> ts = []"
  using assms unfolding process_vision_def
  by (auto simp: fresh_status_processing split: option.splits if_splits sum.splits)

lemma process_audio_ok:
  assumes "process_audio sv up a = (b, ts)" "status_ok a" "up_type up = AtAudio \<Longrightarrow> fresh_status a"
  shows "same_upload b a" "status_ok b" "up_type up \<noteq> AtAudio \<Longrightarrow> b = a \<and> ts = []"
  using assms unfolding process_audio_def
  by (auto simp: fresh_status_processing split: option.splits if_splits sum.splits prod.splits)

lemma process_document_ok:
  assumes "process_document sv s up a = Some (b, ts)" "status_ok a" "up_type up = AtDocument \<Longrightarrow> fresh_status a"
  shows "same_upload b a" "status_ok b" "up_type up \<noteq> AtDocument \<Longrightarrow> b = a \<and> ts = []"
  using assms unfolding process_document_def
  by (auto simp: fresh_status_processing Let_def split: option.splits if_splits sum.splits prod.splits)

lemma check_upload_ok:
  assumes "check_upload c form = Inr up"
  shows "attachment_type_from_mime (up_mime up) = Some (up_type up)" "size_u64 (up_data up) \<le> size_limit c (up_type up)"
    "up_mime up \<in> set (allowed_types c (up_type up))"
  using assms by (auto simp: check_upload_def split: sum.splits option.splits prod.splits if_splits)

text \<open>What an upload that got past the blob store leaves.\<close>

definition new_record :: "'s attachment_server \<Rightarrow> upload_env \<Rightarrow> episode \<Rightarrow> uuid \<Rightarrow> upload \<Rightarrow> attachment" where
  "new_record sv env ep episode_id up =
     attachment_new (ue_id env) (ue_now env) episode_id (e_user_id ep) (up_type up) (up_mime up)
       (up_name up) (size_u64 (up_data up)) (upload_key sv (e_user_id ep) (ue_key_id env) up)"

lemma upload_begin_parts:
  assumes "upload_begin sv ext episode_id form env st = (Some (Inr a), st')"
  obtains bo c ep up m b a1 t1 a2 t2 t3 where "sv_blobs sv = Some (bo, c)" "check_upload c form = Inr up"
    "get_episode episode_id (as_episodes st) = Inr ep" "require_user_access (caller_from_extension ext) (e_user_id ep) = Inr ()"
    "bo_put bo (upload_key sv (e_user_id ep) (ue_key_id env) up) (up_data up) (up_mime up) (as_blobs st) = (Inr m, b)"
    "process_vision sv up (new_record sv env ep episode_id up) = (a1, t1)" "process_audio sv up a1 = (a2, t2)"
    "process_document sv (bo_get bo (upload_key sv (e_user_id ep) (ue_key_id env) up) b) up a2 = Some (a, t3)"
    "st' = st\<lparr>as_blobs := b, as_tasks := as_tasks st @ t1 @ t2 @ t3, as_saving := a # as_saving st\<rparr>"
    "same_upload a2 (new_record sv env ep episode_id up)" "same_upload a (new_record sv env ep episode_id up)" "status_ok a"
    "same_upload a1 (new_record sv env ep episode_id up)"
proof -
  obtain bo c ep up m b a1 t1 a2 t2 t3 where run: "sv_blobs sv = Some (bo, c)" "check_upload c form = Inr up"
    "get_episode episode_id (as_episodes st) = Inr ep" "require_user_access (caller_from_extension ext) (e_user_id ep) = Inr ()"
    "bo_put bo (upload_key sv (e_user_id ep) (ue_key_id env) up) (up_data up) (up_mime up) (as_blobs st) = (Inr m, b)"
    "process_vision sv up (new_record sv env ep episode_id up) = (a1, t1)" "process_audio sv up a1 = (a2, t2)"
    "process_document sv (bo_get bo (upload_key sv (e_user_id ep) (ue_key_id env) up) b) up a2 = Some (a, t3)"
    "st' = st\<lparr>as_blobs := b, as_tasks := as_tasks st @ t1 @ t2 @ t3, as_saving := a # as_saving st\<rparr>"
    using assms unfolding upload_begin_def new_record_def Let_def
    by (auto split: option.splits prod.splits sum.splits)
  let ?n = "new_record sv env ep episode_id up"
  have n: "fresh_status ?n" by (simp add: new_record_def attachment_new_def fresh_status_def)
  note v = process_vision_ok [OF run(6) n]
  have a1: "up_type up = AtAudio \<Longrightarrow> fresh_status a1" using v(3) n by auto
  note u = process_audio_ok [OF run(7) v(2) a1]
  have a2: "up_type up = AtDocument \<Longrightarrow> fresh_status a2" using v(3) u(3) n by auto
  note d = process_document_ok [OF run(8) u(2) a2]
  have "same_upload a2 ?n" "same_upload a ?n" using v(1) u(1) d(1) by (meson same_upload_trans)+
  then show thesis using that [OF run] d(2) v(1) by blast
qed

lemma upload_begin_Inr:
  assumes "upload_begin sv ext episode_id form env st = (Some (Inr a), st')"
  obtains bo c ep up m b ts where "sv_blobs sv = Some (bo, c)" "check_upload c form = Inr up"
    "get_episode episode_id (as_episodes st) = Inr ep" "require_user_access (caller_from_extension ext) (e_user_id ep) = Inr ()"
    "bo_put bo (upload_key sv (e_user_id ep) (ue_key_id env) up) (up_data up) (up_mime up) (as_blobs st) = (Inr m, b)"
    "same_upload a (new_record sv env ep episode_id up)" "record_ok sv a"
    "st' = st\<lparr>as_blobs := b, as_tasks := as_tasks st @ ts, as_saving := a # as_saving st\<rparr>"
proof (rule upload_begin_parts [OF assms])
  fix bo c ep up m b a1 t1 a2 t2 t3
  assume run: "sv_blobs sv = Some (bo, c)" "check_upload c form = Inr up"
    "get_episode episode_id (as_episodes st) = Inr ep" "require_user_access (caller_from_extension ext) (e_user_id ep) = Inr ()"
    "bo_put bo (upload_key sv (e_user_id ep) (ue_key_id env) up) (up_data up) (up_mime up) (as_blobs st) = (Inr m, b)"
    and same: "same_upload a (new_record sv env ep episode_id up)" "status_ok a"
    and st': "st' = st\<lparr>as_blobs := b, as_tasks := as_tasks st @ t1 @ t2 @ t3, as_saving := a # as_saving st\<rparr>"
  have "record_ok sv a"
    using same check_upload_ok [OF run(2)] run(1)
    by (auto simp: record_ok_def same_upload_def new_record_def attachment_new_def)
  then show thesis using that [OF run same(1)] st' by blast
qed

section \<open>The state is well formed\<close>

text \<open>Records are stored under their own identifiers and listed for their user and their episode.\<close>

definition in_index :: "(uuid, uuid zset) btree_map \<Rightarrow> uuid \<Rightarrow> uuid \<Rightarrow> bool" where
  "in_index m k i \<longleftrightarrow> i \<in> snd ` set (bt_get_or [] m k)"

definition records_ok :: "'s attachment_server \<Rightarrow> attachment_store \<Rightarrow> bool" where
  "records_ok sv st \<longleftrightarrow>
     (\<forall>i a. find_attachment i st = Some a \<longrightarrow>
        at_id a = i \<and> record_ok sv a \<and> in_index (ats_user st) (at_user_id a) i \<and> in_index (ats_episode st) (at_episode_id a) i)"

definition attachments_ok :: "'s attachment_server \<Rightarrow> 's attachment_state \<Rightarrow> bool" where
  "attachments_ok sv st \<longleftrightarrow> records_ok sv (as_records st) \<and> (\<forall>a \<in> set (as_saving st). record_ok sv a)"

lemma find_attachment_simps [simp]:
  "find_attachment i (save_attachment a st) = (if i = at_id a then Some a else find_attachment i st)"
  "find_attachment i attachment_store_new = None"
  by (simp_all add: find_attachment_def save_attachment_def attachment_store_new_def map_of_bt_insert)

lemma in_index_upsert [simp]:
  "in_index (bt_upsert [] (zadd s j) k' m) k i \<longleftrightarrow> (if k = k' \<and> i = j then True else in_index m k i)"
  by (force simp: in_index_def zadd_def image_iff)

lemma in_index_drop: "i \<noteq> j \<Longrightarrow> in_index m k i \<Longrightarrow> in_index (drop_member k' j m) k i"
  by (cases "map_of m k'")
    (force simp: in_index_def drop_member_def image_iff bt_get_or_def map_of_bt_insert split: option.splits if_splits)+

lemma records_ok_save: "records_ok sv st \<Longrightarrow> record_ok sv a \<Longrightarrow> records_ok sv (save_attachment a st)"
  by (auto simp: records_ok_def save_attachment_def find_attachment_def map_of_bt_insert)

lemma delete_record_simps:
  assumes "delete_attachment_record sh i st = (r, st')"
  shows "find_attachment j st' = (if j = i \<and> r = Inr () then None else find_attachment j st)"
  using assms by (auto simp: delete_attachment_record_def find_attachment_def map_of_bt_remove split: option.splits)

lemma records_ok_delete: "records_ok sv st \<Longrightarrow> delete_attachment_record sh i st = (r, st') \<Longrightarrow> records_ok sv st'"
  by (auto simp: records_ok_def delete_attachment_record_def find_attachment_def map_of_bt_remove in_index_drop
      split: option.splits if_splits)

text \<open>A task changes one record, to one of the same upload with a result.\<close>

definition task_changes :: "attachment_store \<Rightarrow> attachment_store \<Rightarrow> bool" where
  "task_changes st st' \<longleftrightarrow> st' = st \<or>
     (\<exists>i a b. find_attachment i st = Some a \<and> same_upload b a \<and> status_ok b \<and> st' = save_attachment b st)"

lemma task_changes_refl [simp]: "task_changes st st"
  by (simp add: task_changes_def)

lemma change_attachment_changes:
  "(\<And>a. same_upload (f a) a \<and> status_ok (f a)) \<Longrightarrow> task_changes st (snd (change_attachment sh i f st))"
  by (auto simp: task_changes_def change_attachment_def split: option.splits)

lemma task_result_changes: "task_changes st (task_result sv t st)"
  unfolding task_result_def update_attachment_with_vision_def update_attachment_with_transcription_def
    update_attachment_with_document_def mark_attachment_failed_def
  by (auto split: background_task.split option.split sum.split intro!: change_attachment_changes)

lemma records_ok_task: "records_ok sv st \<Longrightarrow> records_ok sv (task_result sv t st)"
  using task_result_changes [of st sv t] unfolding task_changes_def
  by (metis record_ok_same records_ok_def records_ok_save)

lemma attachments_ok_step: "attachments_ok sv st \<Longrightarrow> attachments_ok sv (attachment_step sv req st)"
proof (cases req)
  case (BeginUpload ext episode_id form env)
  obtain r st' where run: "upload_begin sv ext episode_id form env st = (r, st')" by fastforce
  assume ok: "attachments_ok sv st"
  have "attachments_ok sv st'"
  proof (cases "\<exists>a. r = Some (Inr a)")
    case True
    then obtain a where r: "r = Some (Inr a)" ..
    show ?thesis by (rule upload_begin_Inr [OF run [unfolded r]]) (use ok in \<open>auto simp: attachments_ok_def\<close>)
  next
    case False
    then have "as_records st' = as_records st \<and> as_saving st' = as_saving st" using run unfolding upload_begin_def Let_def
      by (auto split: option.splits sum.splits prod.splits)
    then show ?thesis using ok by (simp add: attachments_ok_def)
  qed
  then show ?thesis by (simp add: attachment_step_def BeginUpload run)
next
  case (SaveRecord a)
  assume "attachments_ok sv st"
  then show ?thesis
    by (auto simp: attachment_step_def SaveRecord attachments_ok_def upload_save_def records_ok_save dest: notin_set_remove1)
next
  case (RunTask t)
  assume "attachments_ok sv st"
  then show ?thesis by (simp add: attachment_step_def RunTask attachments_ok_def run_task_def records_ok_task)
next
  case (DeleteRecord ext i)
  assume "attachments_ok sv st"
  then show ?thesis unfolding attachment_step_def DeleteRecord delete_attachment_def Let_def
    by (auto simp: attachments_ok_def records_ok_delete split: sum.splits option.splits prod.splits)
qed

lemma attachments_ok_run: "attachments_ok sv st \<Longrightarrow> attachments_ok sv (attachment_run sv reqs st)"
  unfolding attachment_run_def by (induction reqs arbitrary: st) (auto simp: attachments_ok_step)

lemma attachments_ok_start: "attachments_ok sv (attachment_start eps blobs)"
  by (simp add: attachments_ok_def attachment_start_def records_ok_def)

section \<open>Keys of attachments\<close>

text \<open>A part of a key that is one component of its path.\<close>

definition proper_part :: "string \<Rightarrow> bool" where
  "proper_part s \<longleftrightarrow> s \<noteq> [] \<and> s \<noteq> ''.'' \<and> CHR ''/'' \<notin> set s"

lemma split_slash_cut: "CHR ''/'' \<notin> set t \<Longrightarrow> split_slash acc (t @ CHR ''/'' # s) = (rev acc @ t) # split_slash [] s"
  by (induction t arbitrary: acc) auto

lemma attachment_key_components:
  assumes "proper_part (sh u)" "proper_part (sh k)" "CHR ''/'' \<notin> set n"
  shows "path_components (attachment_key sh u k n) =
    (if n = [] \<or> n = ''.'' then [sh u, ''attachments'', sh k] else [sh u, ''attachments'', sh k, n])"
proof -
  have "attachment_key sh u k n = sh u @ CHR ''/'' # (''attachments'' @ CHR ''/'' # (sh k @ CHR ''/'' # n))"
    by (simp add: attachment_key_def)
  then have "split_slash [] (attachment_key sh u k n) = [sh u, ''attachments'', sh k, n]"
    using assms by (simp only: split_slash_cut split_slash_single proper_part_def) (simp add: split_slash_cut split_slash_single)
  then show ?thesis using assms by (simp add: path_components_def proper_part_def)
qed

lemma attachment_keys_apart:
  assumes "\<And>u. proper_part (sh u)" "inj sh" "CHR ''/'' \<notin> set n" "CHR ''/'' \<notin> set n'" "k \<noteq> k'" "n' \<noteq> []" "n' \<noteq> ''.''"
  shows "keys_apart (attachment_key sh u k n) (attachment_key sh u' k' n')"
  using assms by (auto simp: keys_apart_def attachment_key_components inj_eq)

lemma concat_no_slash: "(\<And>k. k \<in> set ks \<Longrightarrow> CHR ''/'' \<notin> set k) \<Longrightarrow> CHR ''/'' \<notin> set (concat ks)"
  by (induction ks) auto

lemma sanitized_no_slash:
  assumes "\<And>k. cc_alphanumeric cc k \<Longrightarrow> CHR ''/'' \<notin> set k"
  shows "CHR ''/'' \<notin> set (sanitize_filename cc name)"
  unfolding sanitize_filename_def
proof (rule concat_no_slash)
  fix k assume "k \<in> set (take 255 (filter (\<lambda>k. is_alphanumeric cc k \<or> k \<in> {''.'', ''-'', ''_''}) (utf8_chars name)))"
  then have "is_alphanumeric cc k \<or> k \<in> {''.'', ''-'', ''_''}" by (auto dest: in_set_takeD)
  then show "CHR ''/'' \<notin> set k" using assms [of k]
    by (auto simp: is_alphanumeric_def in_class_def is_ascii_alphanumeric_def less_char_def less_eq_char_def split: list.splits if_splits)
qed

definition part_name :: "'s attachment_server \<Rightarrow> upload \<Rightarrow> string" where
  "part_name sv up = (case up_name up of
     Some n \<Rightarrow> sanitize_filename (sv_chars sv) n | None \<Rightarrow> ''attachment.'' @ mime_extension (up_mime up))"

lemma upload_key_part: "upload_key sv u k up = attachment_key (sv_show_uuid sv) u k (part_name sv up)"
  by (simp add: upload_key_def part_name_def)

text \<open>What is known of identifiers and letters: the text of an identifier is a proper part and tells them apart, and a letter
  outside ASCII has no slash among its bytes.\<close>

definition texts_ok :: "'s attachment_server \<Rightarrow> bool" where
  "texts_ok sv \<longleftrightarrow> inj (sv_show_uuid sv) \<and> (\<forall>u. proper_part (sv_show_uuid sv u)) \<and>
     (\<forall>k. cc_alphanumeric (sv_chars sv) k \<longrightarrow> CHR ''/'' \<notin> set k)"

lemma part_name_no_slash: "texts_ok sv \<Longrightarrow> CHR ''/'' \<notin> set (part_name sv up)"
  by (auto simp: part_name_def texts_ok_def sanitized_no_slash mime_extension_def split: option.split)

lemma upload_keys_apart:
  assumes "texts_ok sv" "k \<noteq> k'" "part_name sv up' \<noteq> []" "part_name sv up' \<noteq> ''.''"
  shows "keys_apart (upload_key sv u k up) (upload_key sv u' k' up')"
  unfolding upload_key_part using assms part_name_no_slash [OF assms(1)]
  by (intro attachment_keys_apart) (auto simp: texts_ok_def)

text \<open>A key that the local store has written names a file.\<close>

lemma stored_key_part:
  assumes "blob_put lb (attachment_key sh u k n) d t fs = (Inr m, fs')" "\<And>u. proper_part (sh u)" "CHR ''/'' \<notin> set n"
  shows "n \<noteq> []" "n \<noteq> ''.''"
proof -
  have "\<not> names_directory (attachment_key sh u k n)"
    using assms(1) full_path_Inr [of lb "attachment_key sh u k n" fs]
    by (auto simp: blob_put_def write_file_def split: sum.splits prod.splits if_splits)
  moreover have "attachment_key sh u k n = (sh u @ ''/attachments/'' @ sh k @ ''/'') @ n" by (simp add: attachment_key_def)
  then have "last (split_slash [] (attachment_key sh u k n)) = last (split_slash [] (sh u @ ''/attachments/'' @ sh k @ ''/'')) @ n"
    using split_slash_append [OF assms(3), of "[]" "sh u @ ''/attachments/'' @ sh k @ ''/''"] by simp
  moreover have "split_slash [] (sh u @ ''/attachments/'' @ sh k @ ''/'') = [sh u, ''attachments'', sh k, []]"
    using assms(2) [of u] assms(2) [of k] by (simp add: proper_part_def split_slash_cut)
  ultimately show "n \<noteq> []" "n \<noteq> ''.''" by (auto simp: names_directory_def)
qed

section \<open>An uploaded blob stays\<close>

text \<open>Requests that bring other identifiers and delete other records.\<close>

definition spares :: "uuid \<Rightarrow> uuid \<Rightarrow> attachment_request \<Rightarrow> bool" where
  "spares i k req =
     (case req of
        BeginUpload _ _ _ env \<Rightarrow> ue_id env \<noteq> i \<and> ue_key_id env \<noteq> k
      | DeleteRecord _ j \<Rightarrow> j \<noteq> i
      | _ \<Rightarrow> True)"

definition kept_apart :: "uuid \<Rightarrow> string \<Rightarrow> (attachment \<Rightarrow> bool) \<Rightarrow> files attachment_state \<Rightarrow> bool" where
  "kept_apart i key mine st \<longleftrightarrow>
     (\<forall>j b. find_attachment j (as_records st) = Some b \<longrightarrow>
        at_id b = j \<and> (if j = i then mine b else keys_apart (at_storage_key b) key)) \<and>
     (\<forall>b \<in> set (as_saving st). if at_id b = i then mine b else keys_apart (at_storage_key b) key)"

definition keeps_blob :: "local_blob_store \<Rightarrow> string \<Rightarrow> string \<Rightarrow> files attachment_state \<Rightarrow> bool" where
  "keeps_blob lb key d st \<longleftrightarrow> (\<exists>m. blob_get lb key (as_blobs st) = Inr (d, m))"

definition local_server :: "local_blob_store \<Rightarrow> files attachment_server \<Rightarrow> bool" where
  "local_server lb sv \<longleftrightarrow> texts_ok sv \<and> (case sv_blobs sv of Some (bo, _) \<Rightarrow> bo = local_blob_ops lb | None \<Rightarrow> False)"

definition file_key :: "'s attachment_server \<Rightarrow> uuid \<Rightarrow> string \<Rightarrow> bool" where
  "file_key sv k key \<longleftrightarrow> (\<exists>u up. key = upload_key sv u k up \<and> part_name sv up \<noteq> [] \<and> part_name sv up \<noteq> ''.'')"

lemma bo_local [simp]: "bo_put (local_blob_ops lb) = blob_put lb" "bo_get (local_blob_ops lb) = blob_get lb"
    "bo_delete (local_blob_ops lb) = blob_delete lb"
  by (simp_all add: local_blob_ops_def)

lemma keeps_blob_put:
  assumes "keys_apart k key" "blob_put lb k d' t (as_blobs st) = (r, b)" "keeps_blob lb key d st" "as_blobs st' = b"
  shows "keeps_blob lb key d st'"
  using local_blobs.get_put_apart [OF assms(1), of lb "as_blobs st" d _ d' t] assms(2-4) by (auto simp: keeps_blob_def)

lemma keeps_blob_delete:
  assumes "keys_apart k key" "keeps_blob lb key d st" "as_blobs st' = snd (blob_delete lb k (as_blobs st))"
  shows "keeps_blob lb key d st'"
  using local_blobs.get_delete_apart [OF assms(1), of lb "as_blobs st" d] assms(2,3) by (auto simp: keeps_blob_def)

lemma upload_begin_blobs:
  assumes "upload_begin sv ext e form env st = (r, st')" "local_server lb sv"
  obtains "as_blobs st' = as_blobs st"
  | u up d t where "as_blobs st' = snd (blob_put lb (upload_key sv u (ue_key_id env) up) d t (as_blobs st))"
  using assms unfolding upload_begin_def Let_def local_server_def
  by (auto split: option.splits sum.splits prod.splits) (metis snd_conv)+

lemma upload_begin_records:
  assumes "upload_begin sv ext e form env st = (r, st')"
  shows "as_records st' = as_records st \<and> (as_saving st' = as_saving st \<or>
    (\<exists>a. r = Some (Inr a) \<and> as_saving st' = a # as_saving st \<and> at_id a = ue_id env \<and>
      (\<exists>u up. at_storage_key a = upload_key sv u (ue_key_id env) up)))"
proof (cases "\<exists>a. r = Some (Inr a)")
  case True
  then obtain a where r: "r = Some (Inr a)" ..
  show ?thesis
    by (rule upload_begin_Inr [OF assms [unfolded r]])
      (auto simp: r same_upload_def new_record_def attachment_new_def)
next
  case False
  then show ?thesis using assms unfolding upload_begin_def Let_def
    by (auto split: option.splits sum.splits prod.splits)
qed

lemma kept_apart_step:
  assumes "local_server lb sv" "file_key sv k key" "spares i k req" "kept_apart i key mine st"
    "\<And>a b. same_upload b a \<Longrightarrow> mine a \<Longrightarrow> mine b"
  shows "kept_apart i key mine (attachment_step sv req st)"
proof (cases req)
  case (BeginUpload ext e form env)
  obtain r st' where run: "upload_begin sv ext e form env st = (r, st')" by fastforce
  have "keys_apart (upload_key sv u (ue_key_id env) up) key" for u up
    using assms(1-3) by (auto simp: file_key_def local_server_def spares_def BeginUpload intro!: upload_keys_apart)
  then show ?thesis using upload_begin_records [OF run] assms(3,4)
    by (auto simp: attachment_step_def BeginUpload run kept_apart_def spares_def)
next
  case (SaveRecord a)
  then show ?thesis using assms(4) set_remove1_subset [of a "as_saving st"]
    by (auto simp: attachment_step_def kept_apart_def upload_save_def)
next
  case (RunTask t)
  show ?thesis
  proof (cases "task_result sv t (as_records st) = as_records st")
    case True
    then show ?thesis using assms(4) by (simp add: attachment_step_def RunTask run_task_def kept_apart_def)
  next
    case False
    then obtain j a b where c: "find_attachment j (as_records st) = Some a" "same_upload b a"
        "task_result sv t (as_records st) = save_attachment b (as_records st)"
      using task_result_changes [of "as_records st" sv t] unfolding task_changes_def by blast
    have "at_id a = j" "if j = i then mine a else keys_apart (at_storage_key a) key"
      using assms(4) c(1) unfolding kept_apart_def by blast+
    then have "at_id b = j" "if j = i then mine b else keys_apart (at_storage_key b) key"
      using c(2) assms(5) [OF c(2)] by (auto simp: same_upload_def)
    then show ?thesis using c(3) assms(4)
      by (auto simp: attachment_step_def RunTask run_task_def kept_apart_def)
  qed
next
  case (DeleteRecord ext j)
  then show ?thesis using assms(4) unfolding attachment_step_def delete_attachment_def Let_def
    by (auto simp: kept_apart_def delete_record_simps split: sum.splits option.splits prod.splits if_splits)
qed

lemma keeps_blob_step:
  assumes "local_server lb sv" "file_key sv k key" "spares i k req" "kept_apart i key mine st" "keeps_blob lb key d st"
  shows "keeps_blob lb key d (attachment_step sv req st)"
proof (cases req)
  case (BeginUpload ext e form env)
  obtain r st' where run: "upload_begin sv ext e form env st = (r, st')" by fastforce
  have far: "keys_apart (upload_key sv u (ue_key_id env) up) key" for u up
    using assms(1-3) by (auto simp: file_key_def local_server_def spares_def BeginUpload intro!: upload_keys_apart)
  have "keeps_blob lb key d st'"
  proof (rule upload_begin_blobs [OF run assms(1)])
    assume "as_blobs st' = as_blobs st"
    then show ?thesis using assms(5) by (simp add: keeps_blob_def)
  next
    fix u up d' t assume "as_blobs st' = snd (blob_put lb (upload_key sv u (ue_key_id env) up) d' t (as_blobs st))"
    then show ?thesis using keeps_blob_put [OF far [of u up] _ assms(5)] by (metis prod.collapse)
  qed
  then show ?thesis by (simp add: attachment_step_def BeginUpload run)
next
  case (DeleteRecord ext j)
  show ?thesis
  proof (cases "as_blobs (attachment_step sv req st) = as_blobs st")
    case True
    then show ?thesis using assms(5) by (simp add: keeps_blob_def)
  next
    case False
    then obtain a where a: "find_attachment j (as_records st) = Some a"
        "as_blobs (attachment_step sv req st) = snd (blob_delete lb (at_storage_key a) (as_blobs st))"
      using assms(1) unfolding DeleteRecord attachment_step_def delete_attachment_def accessible_attachment_def Let_def
        local_server_def by (auto split: option.splits sum.splits prod.splits)
    then have "keys_apart (at_storage_key a) key"
      using assms(3,4) by (auto simp: kept_apart_def DeleteRecord spares_def)
    then show ?thesis using keeps_blob_delete [OF _ assms(5) a(2)] by blast
  qed
qed (use assms(5) in \<open>simp_all add: attachment_step_def keeps_blob_def upload_save_def run_task_def\<close>)

lemma record_stays_step:
  assumes "spares i k req" "find_attachment i (as_records st) \<noteq> None"
  shows "find_attachment i (as_records (attachment_step sv req st)) \<noteq> None"
proof (cases req)
  case (BeginUpload ext e form env)
  obtain r st' where run: "upload_begin sv ext e form env st = (r, st')" by fastforce
  then show ?thesis using assms(2) upload_begin_records [OF run] by (simp add: attachment_step_def BeginUpload run)
next
  case (RunTask t)
  then show ?thesis using assms(2) task_result_changes [of "as_records st" sv t]
    by (auto simp: attachment_step_def run_task_def task_changes_def)
next
  case (DeleteRecord ext j)
  then show ?thesis using assms unfolding attachment_step_def delete_attachment_def Let_def
    by (auto simp: spares_def delete_record_simps split: sum.splits option.splits prod.splits)
qed (use assms(2) in \<open>simp add: attachment_step_def upload_save_def\<close>)

definition run_safe :: "local_blob_store \<Rightarrow> uuid \<Rightarrow> string \<Rightarrow> (attachment \<Rightarrow> bool) \<Rightarrow> string \<Rightarrow> files attachment_state \<Rightarrow> bool" where
  "run_safe lb i key mine d st \<longleftrightarrow> kept_apart i key mine st \<and> keeps_blob lb key d st"

lemma attachment_run_Cons: "attachment_run sv (req # reqs) st = attachment_run sv reqs (attachment_step sv req st)"
  by (simp add: attachment_run_def)

lemma run_kept_apart:
  assumes "local_server lb sv" "file_key sv k key" "\<And>a b. same_upload b a \<Longrightarrow> mine a \<Longrightarrow> mine b"
  shows "\<forall>req \<in> set reqs. spares i k req \<Longrightarrow> kept_apart i key mine st \<Longrightarrow> kept_apart i key mine (attachment_run sv reqs st)"
proof (induction reqs arbitrary: st)
  case (Cons req reqs)
  then show ?case using kept_apart_step [OF assms(1,2) _ _ assms(3)] by (simp add: attachment_run_Cons)
qed (simp add: attachment_run_def)

lemma run_run_safe:
  assumes "local_server lb sv" "file_key sv k key" "\<And>a b. same_upload b a \<Longrightarrow> mine a \<Longrightarrow> mine b"
  shows "\<forall>req \<in> set reqs. spares i k req \<Longrightarrow> run_safe lb i key mine d st \<Longrightarrow> run_safe lb i key mine d (attachment_run sv reqs st)"
proof (induction reqs arbitrary: st)
  case (Cons req reqs)
  have one: "spares i k req" using Cons.prems(1) by simp
  have now: "kept_apart i key mine st" "keeps_blob lb key d st" using Cons.prems(2) by (simp_all add: run_safe_def)
  have "kept_apart i key mine (attachment_step sv req st)"
    by (rule kept_apart_step [OF assms(1,2) one now(1)]) (fact assms(3))
  then have "run_safe lb i key mine d (attachment_step sv req st)"
    using keeps_blob_step [OF assms(1,2) one now] by (simp add: run_safe_def)
  then show ?case using Cons.IH Cons.prems(1) by (simp add: attachment_run_Cons)
qed (simp add: attachment_run_def)

lemma record_stays_run:
  "\<forall>req \<in> set reqs. spares i k req \<Longrightarrow> find_attachment i (as_records st) \<noteq> None \<Longrightarrow>
   find_attachment i (as_records (attachment_run sv reqs st)) \<noteq> None"
proof (induction reqs arbitrary: st)
  case (Cons req reqs)
  have "find_attachment i (as_records (attachment_step sv req st)) \<noteq> None"
    by (rule record_stays_step [of i k]) (use Cons.prems in simp_all)
  then show ?case using Cons.IH Cons.prems(1) by (simp add: attachment_run_Cons)
qed (simp add: attachment_run_def)

lemma kept_apart_start: "kept_apart i key mine (attachment_start eps blobs)"
  by (simp add: kept_apart_def attachment_start_def)

text \<open>The state after the first step of an upload, and after its second.\<close>

lemma upload_begin_keeps:
  assumes begun: "upload_begin sv ext e form env st = (Some (Inr a), st')" and srv: "local_server lb sv"
  obtains up c where "check_upload c form = Inr up" "map_option snd (sv_blobs sv) = Some c" "file_key sv (ue_key_id env) (at_storage_key a)"
    "keeps_blob lb (at_storage_key a) (up_data up) st'" "at_mime_type a = up_mime up" "at_id a = ue_id env"
    "kept_apart (ue_id env) (at_storage_key a) (\<lambda>_. False) st \<longrightarrow>
     kept_apart (ue_id env) (at_storage_key a) (\<lambda>b. same_upload b a) st'"
proof (rule upload_begin_Inr [OF begun])
  fix bo c ep up m b ts
  assume run: "sv_blobs sv = Some (bo, c)" "check_upload c form = Inr up"
    "bo_put bo (upload_key sv (e_user_id ep) (ue_key_id env) up) (up_data up) (up_mime up) (as_blobs st) = (Inr m, b)"
    "same_upload a (new_record sv env ep e up)" "st' = st\<lparr>as_blobs := b, as_tasks := as_tasks st @ ts, as_saving := a # as_saving st\<rparr>"
  have key: "at_storage_key a = upload_key sv (e_user_id ep) (ue_key_id env) up" "at_mime_type a = up_mime up" "at_id a = ue_id env"
    using run(4) by (simp_all add: same_upload_def new_record_def attachment_new_def)
  have put: "blob_put lb (at_storage_key a) (up_data up) (up_mime up) (as_blobs st) = (Inr m, b)"
    using run(1,3) srv by (simp add: local_server_def key(1))
  have "part_name sv up \<noteq> []" "part_name sv up \<noteq> ''.''"
    using stored_key_part [OF put [unfolded key(1) upload_key_part]] srv part_name_no_slash [of sv up]
    by (auto simp: local_server_def texts_ok_def split: option.splits)
  then have "file_key sv (ue_key_id env) (at_storage_key a)" using key(1) unfolding file_key_def by blast
  moreover have "keeps_blob lb (at_storage_key a) (up_data up) st'"
    using local_blobs.get_put [OF put] by (simp add: run(5) keeps_blob_def)
  moreover have "kept_apart (ue_id env) (at_storage_key a) (\<lambda>_. False) st \<longrightarrow>
     kept_apart (ue_id env) (at_storage_key a) (\<lambda>b. same_upload b a) st'"
    by (auto simp: run(5) kept_apart_def key(3) split: if_splits)
  ultimately show thesis using that [OF run(2)] key(2,3) run(1) by simp
qed

lemma upload_save_keeps:
  assumes "kept_apart (at_id a) key (\<lambda>b. same_upload b a) st" and "keeps_blob lb key d st"
  shows "kept_apart (at_id a) key (\<lambda>b. same_upload b a) (upload_save a st)" "keeps_blob lb key d (upload_save a st)"
    "find_attachment (at_id a) (as_records (upload_save a st)) \<noteq> None"
  using assms set_remove1_subset [of a "as_saving st"]
  by (auto simp: kept_apart_def keeps_blob_def upload_save_def)

lemma download_of_kept:
  assumes "local_server lb sv" "run_safe lb i key (\<lambda>b. same_upload b a) d st" "find_attachment i (as_records st) \<noteq> None"
    "at_storage_key a = key" "require_user_access (caller_from_extension ext) (at_user_id a) = Inr ()"
  shows "\<exists>h. download_attachment sv ext i st = Inr h \<and> dw_body h = d \<and> dw_content_type h = at_mime_type a"
proof -
  obtain b where b: "find_attachment i (as_records st) = Some b" using assms(3) by blast
  then have "same_upload b a" using assms(2) by (auto simp: run_safe_def kept_apart_def)
  then show ?thesis using assms b
    by (auto simp: download_attachment_def accessible_attachment_def same_upload_def run_safe_def keeps_blob_def local_server_def
        split: option.splits)
qed

lemma upload_then_download:
  assumes srv: "local_server lb sv"
    and begun: "upload_begin sv ext e form env (attachment_run sv pre (attachment_start eps blobs)) = (Some (Inr a), st1)"
    and others: "\<forall>req \<in> set (pre @ mid @ post). spares (ue_id env) (ue_key_id env) req"
    and caller: "require_user_access (caller_from_extension ext') (at_user_id a) = Inr ()"
    and st2: "st2 = attachment_run sv post (upload_save a (attachment_run sv mid st1))"
  obtains up c h where "map_option snd (sv_blobs sv) = Some c" "check_upload c form = Inr up"
    "download_attachment sv ext' (at_id a) st2 = Inr h" "dw_body h = up_data up" "dw_content_type h = up_mime up"
proof (rule upload_begin_keeps [OF begun srv])
  fix up c
  let ?k = "at_storage_key a" and ?m = "\<lambda>b. same_upload b a"
  assume up: "check_upload c form = Inr up" "map_option snd (sv_blobs sv) = Some c" "file_key sv (ue_key_id env) ?k"
    "keeps_blob lb ?k (up_data up) st1" "at_mime_type a = up_mime up" "at_id a = ue_id env"
    "kept_apart (ue_id env) ?k (\<lambda>_. False) (attachment_run sv pre (attachment_start eps blobs)) \<longrightarrow>
     kept_apart (ue_id env) ?k ?m st1"
  have "kept_apart (ue_id env) ?k (\<lambda>_. False) (attachment_run sv pre (attachment_start eps blobs))"
    by (rule run_kept_apart [OF srv up(3)]) (use others kept_apart_start in auto)
  then have "run_safe lb (ue_id env) ?k ?m (up_data up) st1" using up(4,7) by (simp add: run_safe_def)
  then have "run_safe lb (ue_id env) ?k ?m (up_data up) (attachment_run sv mid st1)"
    by (intro run_run_safe [OF srv up(3)]) (use others same_upload_trans in auto)
  then have saved: "run_safe lb (ue_id env) ?k ?m (up_data up) (upload_save a (attachment_run sv mid st1))"
    "find_attachment (ue_id env) (as_records (upload_save a (attachment_run sv mid st1))) \<noteq> None"
    using upload_save_keeps [of a ?k "attachment_run sv mid st1" lb "up_data up"] unfolding run_safe_def up(6) by blast+
  have "run_safe lb (ue_id env) ?k ?m (up_data up) st2" unfolding st2
    by (rule run_run_safe [OF srv up(3) _ _ saved(1)]) (use others same_upload_trans in auto)
  moreover have "find_attachment (ue_id env) (as_records st2) \<noteq> None" unfolding st2
    by (rule record_stays_run [OF _ saved(2)]) (use others in auto)
  ultimately show thesis using download_of_kept [OF srv _ _ refl caller] that up(1,2,5,6) by metis
qed

section \<open>Results of tasks\<close>

definition task_attachment :: "background_task \<Rightarrow> uuid" where
  "task_attachment t = (case t of VisionTask i _ _ \<Rightarrow> i | AudioTask i _ _ _ \<Rightarrow> i | DocumentTask i _ _ _ \<Rightarrow> i)"

text \<open>The task finds its provider and gets a result or an error of it; the excerpt of a document does not cut a character.\<close>

definition settles :: "'s attachment_server \<Rightarrow> background_task \<Rightarrow> bool" where
  "settles sv t =
     (case t of
        VisionTask _ _ _ \<Rightarrow> sv_vision sv \<noteq> None
      | AudioTask _ _ _ _ \<Rightarrow> sv_audio sv \<noteq> None
      | DocumentTask _ d f c \<Rightarrow>
          (case sv_document sv of
             Some v \<Rightarrow> (case dp_parse v d f c of Inr p \<Rightarrow> document_description p \<noteq> None | Inl _ \<Rightarrow> True)
           | None \<Rightarrow> False))"

lemma process_vision_tasks:
  "process_vision sv up a = (b, ts) \<Longrightarrow> t \<in> set ts \<Longrightarrow> task_attachment t = at_id a \<and> at_status b = PsProcessing \<and> up_type up = AtImage"
  unfolding process_vision_def
  by (auto simp: task_attachment_def marks split: option.splits if_splits sum.splits)

lemma process_audio_tasks:
  "process_audio sv up a = (b, ts) \<Longrightarrow> t \<in> set ts \<Longrightarrow> task_attachment t = at_id a \<and> at_status b = PsProcessing \<and> up_type up = AtAudio"
  unfolding process_audio_def
  by (auto simp: task_attachment_def marks split: option.splits if_splits sum.splits)

lemma process_document_tasks:
  "process_document sv s up a = Some (b, ts) \<Longrightarrow> t \<in> set ts \<Longrightarrow>
   task_attachment t = at_id a \<and> at_status b = PsProcessing \<and> up_type up = AtDocument"
  unfolding process_document_def
  by (auto simp: task_attachment_def marks Let_def split: option.splits if_splits sum.splits)

lemma upload_begin_tasks:
  assumes "upload_begin sv ext e form env st = (Some (Inr a), st')" "t \<in> set (as_tasks st')" "t \<notin> set (as_tasks st)"
  shows "task_attachment t = at_id a \<and> at_status a = PsProcessing \<and> at_id a = ue_id env \<and> as_records st' = as_records st"
proof (rule upload_begin_parts [OF assms(1)])
  fix bo c ep up m b a1 t1 a2 t2 t3
  assume run: "process_vision sv up (new_record sv env ep e up) = (a1, t1)" "process_audio sv up a1 = (a2, t2)"
    "process_document sv (bo_get bo (upload_key sv (e_user_id ep) (ue_key_id env) up) b) up a2 = Some (a, t3)"
    "st' = st\<lparr>as_blobs := b, as_tasks := as_tasks st @ t1 @ t2 @ t3, as_saving := a # as_saving st\<rparr>"
    and same: "same_upload a2 (new_record sv env ep e up)" "same_upload a (new_record sv env ep e up)" "status_ok a"
    "same_upload a1 (new_record sv env ep e up)"
  let ?n = "new_record sv env ep e up"
  have ids: "at_id ?n = ue_id env" "at_id a1 = ue_id env" "at_id a2 = ue_id env" "at_id a = ue_id env"
    using same by (simp_all add: same_upload_def new_record_def attachment_new_def)
  have t: "t \<in> set t1 \<or> t \<in> set t2 \<or> t \<in> set t3" using assms(2,3) run(4) by auto
  have "fresh_status ?n" by (simp add: new_record_def attachment_new_def fresh_status_def)
  note v = process_vision_ok [OF run(1) this]
  have only: "up_type up \<noteq> AtDocument \<Longrightarrow> a = a2" "up_type up \<noteq> AtAudio \<Longrightarrow> a2 = a1"
    using run(2,3) by (auto simp: process_document_def process_audio_def split: option.splits if_splits)
  have "task_attachment t = ue_id env \<and> at_status a = PsProcessing"
    using t process_vision_tasks [OF run(1), of t] process_audio_tasks [OF run(2), of t] process_document_tasks [OF run(3), of t]
      ids only by auto
  then show ?thesis using ids(4) run(4) by simp
qed

lemma task_result_absent: "find_attachment (task_attachment t) st = None \<Longrightarrow> task_result sv t st = st"
  by (cases t)
    (auto simp: task_result_def task_attachment_def update_attachment_with_vision_def update_attachment_with_transcription_def
      update_attachment_with_document_def mark_attachment_failed_def change_attachment_def split: option.splits sum.splits)

lemma change_attachment_found:
  "find_attachment i st = Some a \<Longrightarrow> at_id (f a) = i \<Longrightarrow> find_attachment i (snd (change_attachment sh i f st)) = Some (f a)"
  by (simp add: change_attachment_def)

lemma task_result_settles:
  assumes "find_attachment (task_attachment t) st = Some a" "at_id a = task_attachment t" "settles sv t"
  shows "\<exists>b. find_attachment (task_attachment t) (task_result sv t st) = Some b \<and> at_status b \<in> {PsCompleted, PsFailed}"
proof -
  have "\<exists>f. task_result sv t st = snd (change_attachment (sv_show_uuid sv) (task_attachment t) f st) \<and>
      at_id (f a) = at_id a \<and> at_status (f a) \<in> {PsCompleted, PsFailed}"
    using assms(3) unfolding task_result_def settles_def update_attachment_with_vision_def
      update_attachment_with_transcription_def update_attachment_with_document_def mark_attachment_failed_def
    by (cases t) (fastforce simp: task_attachment_def marks split: option.splits sum.splits)+
  then show ?thesis using change_attachment_found [OF assms(1)] assms(2) by metis
qed

section \<open>Properties\<close>

text \<open>A server on local files with nothing to process attachments, and a form with one text file.\<close>

definition demo_server :: "vision_provider option \<Rightarrow> files attachment_server" where
  "demo_server v =
     \<lparr>sv_blobs = Some (local_blob_ops \<lparr>lb_base_path = [''data''], lb_show_path = concat, lb_show_io = (\<lambda>_. [])\<rparr>,
        \<lparr>bs_max_image_size = 9, bs_max_audio_size = 9, bs_max_document_size = 9, bs_allowed_image_types = [''image/png''],
         bs_allowed_audio_types = [], bs_allowed_document_types = [''text/plain'']\<rparr>),
      sv_vision = v, sv_audio = None, sv_document = None, sv_show_uuid = (\<lambda>u. replicate (Suc (unat u)) CHR ''a''),
      sv_show_error = (\<lambda>_. []),
      sv_chars = \<lparr>cc_alphanumeric = (\<lambda>_. False), cc_alphabetic = (\<lambda>_. False), cc_white = (\<lambda>_. False)\<rparr>\<rparr>"

definition demo_form :: "string \<Rightarrow> string \<Rightarrow> (string + multipart_field) list" where
  "demo_form name mime = [Inr \<lparr>mf_name = Some ''file'', mf_file_name = Some name, mf_content_type = Some mime, mf_bytes = Inr ''hi''\<rparr>]"

definition demo_episodes :: episode_store where
  "demo_episodes = (episode_store_new (session_store_new user_store_new))\<lparr>ep_episodes :=
     [(5, episode_from_request \<lparr>ce_id = Some 5, ce_type = EtMessage, ce_content = [], ce_role = None, ce_name = None,
        ce_agent_id = None, ce_metadata = JNull, ce_created_at = None, ce_modality = MText\<rparr> 3 2 None 5 0)]\<rparr>"

definition demo_env :: "uuid \<Rightarrow> uuid \<Rightarrow> upload_env" where
  "demo_env k i = \<lparr>ue_key_id = k, ue_id = i, ue_now = 4\<rparr>"

lemma demo_local: "local_server \<lparr>lb_base_path = [''data''], lb_show_path = concat, lb_show_io = (\<lambda>_. [])\<rparr> (demo_server v)"
proof -
  have "inj (\<lambda>u::uuid. replicate (Suc (unat u)) CHR ''a'')"
    by (rule injI) (metis length_replicate nat.inject word_unat_eq_iff)
  then show ?thesis by (simp add: local_server_def texts_ok_def demo_server_def proper_part_def)
qed

lemma demo_upload:
  "case upload_begin (demo_server None) None 5 (demo_form ''a.txt'' ''text/plain'') (demo_env 6 7)
      (attachment_start demo_episodes (\<lambda>_. None)) of (Some (Inr a), _) \<Rightarrow> at_id a = 7 | _ \<Rightarrow> False"
  by code_simp

lemma begun_parts:
  "(case r of (Some (Inr a), st) \<Rightarrow> P a st | _ \<Rightarrow> False) \<Longrightarrow>
   r = (Some (Inr (projr (the (fst r)))), snd r) \<and> P (projr (the (fst r))) (snd r)"
  by (cases r; cases "fst r"; cases "the (fst r)") auto

definition demo_begun :: "(mnemo_error + attachment) option \<times> files attachment_state" where
  "demo_begun = upload_begin (demo_server None) None 5 (demo_form ''a.txt'' ''text/plain'') (demo_env 6 7)
     (attachment_start demo_episodes (\<lambda>_. None))"

lemma demo_begun_Inr: "demo_begun = (Some (Inr (projr (the (fst demo_begun)))), snd demo_begun)"
  using begun_parts [OF demo_upload] unfolding demo_begun_def by blast

definition demo_vision :: vision_provider where
  "demo_vision = \<lparr>vp_max_image_size = 9, vp_supports = (\<lambda>_. True), vp_model = ''m'',
     vp_analyze = (\<lambda>_ _. Inr ''a cat''), vp_sync = False\<rparr>"

definition demo_vision_begun :: "(mnemo_error + attachment) option \<times> files attachment_state" where
  "demo_vision_begun = upload_begin (demo_server (Some demo_vision)) None 5 (demo_form ''a.png'' ''image/png'') (demo_env 6 7)
     (attachment_start demo_episodes (\<lambda>_. None))"

lemma demo_vision_upload:
  "case demo_vision_begun of
     (Some (Inr a), st) \<Rightarrow> at_id a = 7 \<and> VisionTask 7 ''hi'' IfPng \<in> set (as_tasks st) | _ \<Rightarrow> False"
  by code_simp

text \<open>C32: In every state the server reaches, whatever requests and tasks ran and in whatever order, each record has the type
  of its content type, an allowed content type and a size within the limit, the fields of a result exactly as its status says,
  is stored under its own identifier and is listed for its episode.\<close>

theorem attachments_well_formed:
  "attachments_ok sv (attachment_run sv reqs (attachment_start eps blobs)) \<and>
   (case find_attachment i (as_records (attachment_run sv reqs (attachment_start eps blobs))) of
      Some a \<Rightarrow> a \<in> set (list_attachments_for_episode (at_episode_id a) (as_records (attachment_run sv reqs (attachment_start eps blobs))))
    | None \<Rightarrow> True)"
proof -
  let ?st = "attachment_run sv reqs (attachment_start eps blobs)"
  have ok: "attachments_ok sv ?st" by (intro attachments_ok_run attachments_ok_start)
  moreover have "a \<in> set (list_attachments_for_episode (at_episode_id a) (as_records ?st))"
    if a: "find_attachment i (as_records ?st) = Some a" for a
  proof -
    have "in_index (ats_episode (as_records ?st)) (at_episode_id a) i"
      using ok a by (auto simp: attachments_ok_def records_ok_def)
    then show ?thesis using a
      by (force simp: list_attachments_for_episode_def in_index_def map_filter_def)
  qed
  ultimately show ?thesis by (simp split: option.split)
qed

text \<open>C33: On the local store, a file that was uploaded is downloaded with the same bytes and content type, by any caller
  allowed for its user, whatever other uploads, deletions and background results came before, between the two steps of the
  upload or after it, as long as identifiers are not used twice.\<close>

theorem upload_download_roundtrip:
  assumes "local_server lb sv"
    and "upload_begin sv ext e form env (attachment_run sv pre (attachment_start eps blobs)) = (Some (Inr a), st1)"
    and "\<forall>req \<in> set (pre @ mid @ post). spares (ue_id env) (ue_key_id env) req"
    and "require_user_access (caller_from_extension ext') (at_user_id a) = Inr ()"
    and "st2 = attachment_run sv post (upload_save a (attachment_run sv mid st1))"
  shows "\<exists>up c h. map_option snd (sv_blobs sv) = Some c \<and> check_upload c form = Inr up \<and>
    download_attachment sv ext' (at_id a) st2 = Inr h \<and> dw_body h = up_data up \<and> dw_content_type h = up_mime up"
  by (rule upload_then_download [OF assms]) blast

lemma upload_download_roundtrip_witness:
  "\<exists>h. download_attachment (demo_server None) None (at_id (projr (the (fst demo_begun))))
     (attachment_run (demo_server None)
        [BeginUpload None 5 (demo_form ''a.txt'' ''text/plain'') (demo_env 8 9), DeleteRecord None 3]
        (upload_save (projr (the (fst demo_begun))) (snd demo_begun))) = Inr h \<and> dw_body h = ''hi''"
proof -
  let ?form = "demo_form ''a.txt'' ''text/plain''" and ?a = "projr (the (fst demo_begun))"
  let ?post = "[BeginUpload None 5 ?form (demo_env 8 9), DeleteRecord None 3]"
  have nil: "attachment_run (demo_server None) [] st = st" for st by (simp add: attachment_run_def)
  have sp: "\<forall>req \<in> set ([] @ [] @ ?post). spares (ue_id (demo_env 6 7)) (ue_key_id (demo_env 6 7)) req"
    by (simp add: spares_def demo_env_def)
  have "require_user_access (caller_from_extension None) (at_user_id ?a) = Inr ()"
    by (simp add: caller_from_extension_def anonymous_def require_user_access_def)
  from upload_download_roundtrip [OF demo_local _ sp this refl, of None None 5 ?form demo_episodes "\<lambda>_. None" "snd demo_begun"]
  have "\<exists>up c h. check_upload c ?form = Inr up \<and> dw_body h = up_data up \<and>
      download_attachment (demo_server None) None (at_id ?a)
        (attachment_run (demo_server None) ?post (upload_save ?a (snd demo_begun))) = Inr h"
    using demo_begun_Inr by (simp only: nil demo_begun_def) blast
  moreover have "up_data up = ''hi''" if "check_upload c ?form = Inr up" for c up
    using that by (auto simp: demo_form_def check_upload_def split: option.splits if_splits)
  ultimately show ?thesis by metis
qed

text \<open>A background result that arrives before the record is saved is lost: the task is over and the record then saved says
  it is still being processed. Had the record been saved first, the same task would have completed it or marked it as failed.\<close>

theorem early_result_lost:
  assumes "upload_begin sv ext e form env st = (Some (Inr a), st1)"
    and "t \<in> set (as_tasks st1)" and "t \<notin> set (as_tasks st)"
    and "find_attachment (ue_id env) (as_records st) = None" and "settles sv t"
  shows "map_option at_status (find_attachment (at_id a) (as_records (upload_save a (run_task sv t st1)))) = Some PsProcessing \<and>
    as_tasks (upload_save a (run_task sv t st1)) = remove1 t (as_tasks st1) \<and>
    (\<exists>b. find_attachment (at_id a) (as_records (run_task sv t (upload_save a st1))) = Some b \<and>
       at_status b \<in> {PsCompleted, PsFailed})"
proof -
  note t = upload_begin_tasks [OF assms(1-3)]
  have "task_result sv t (as_records st1) = as_records st1"
    using task_result_absent [of t "as_records st" sv] assms(4) t by simp
  moreover have "find_attachment (task_attachment t) (save_attachment a (as_records st1)) = Some a" using t by simp
  then have "\<exists>b. find_attachment (at_id a) (task_result sv t (save_attachment a (as_records st1))) = Some b \<and>
      at_status b \<in> {PsCompleted, PsFailed}"
    using task_result_settles [of t _ a sv] assms(5) t by simp
  ultimately show ?thesis using t by (simp add: run_task_def upload_save_def)
qed

lemma early_result_lost_witness:
  "map_option at_status (find_attachment 7 (as_records (upload_save (projr (the (fst demo_vision_begun)))
     (run_task (demo_server (Some demo_vision)) (VisionTask 7 ''hi'' IfPng) (snd demo_vision_begun))))) = Some PsProcessing"
proof -
  let ?a = "projr (the (fst demo_vision_begun))"
  have a: "demo_vision_begun = (Some (Inr ?a), snd demo_vision_begun)" "at_id ?a = 7"
    "VisionTask 7 ''hi'' IfPng \<in> set (as_tasks (snd demo_vision_begun))"
    using begun_parts [OF demo_vision_upload] by blast+
  show ?thesis
    using early_result_lost [OF a(1) [unfolded demo_vision_begun_def], of "VisionTask 7 ''hi'' IfPng"] a(2,3)
    by (simp add: demo_vision_begun_def attachment_start_def demo_env_def settles_def demo_server_def)
qed

text \<open>On the local store no upload succeeds whose file name, once sanitized, has two dots in a row or a dot at its end,
  although neither leaves the directory of the attachment; no record is made.\<close>

theorem dotted_names_refused:
  assumes "local_server lb sv" and "sv_blobs sv = Some (bo, c)" and "check_upload c form = Inr up" and "up_name up = Some n"
    and "str_contains (sanitize_filename (sv_chars sv) n @ ''.'') ''..''"
  shows "(\<exists>err. fst (upload_attachment sv ext e form env st) = Some (Inl err)) \<and>
    as_records (snd (upload_attachment sv ext e form env st)) = as_records st"
proof -
  obtain x y where xy: "sanitize_filename (sv_chars sv) n @ ''.'' = x @ ''..'' @ y" using assms(5) by (auto simp: str_contains_iff)
  have "str_contains (meta_key (upload_key sv u k up)) ''..''" for u k
  proof -
    have "meta_key (upload_key sv u k up) = (sv_show_uuid sv u @ ''/attachments/'' @ sv_show_uuid sv k @ ''/'') @
        (sanitize_filename (sv_chars sv) n @ ''.'') @ ''meta''"
      by (simp add: meta_key_def upload_key_def attachment_key_def assms(4))
    then have "meta_key (upload_key sv u k up) = ((sv_show_uuid sv u @ ''/attachments/'' @ sv_show_uuid sv k @ ''/'') @ x) @
        ''..'' @ (y @ ''meta'')" unfolding xy by simp
    then show ?thesis unfolding str_contains_iff by blast
  qed
  then have put: "\<exists>err fs'. blob_put lb (upload_key sv u k up) d t fs = (Inl err, fs')" for u k d t fs
    by (auto simp: blob_put_def write_content_type_def full_path_def [of _ "meta_key _"] split: sum.split prod.split)
  have bo: "bo_put bo = blob_put lb" using assms(1,2) by (simp add: local_server_def)
  have "(\<exists>err. fst (upload_begin sv ext e form env st) = Some (Inl err)) \<and>
      as_records (snd (upload_begin sv ext e form env st)) = as_records st"
  proof (cases "get_episode e (as_episodes st)")
    case (Inr ep)
    show ?thesis
    proof (cases "require_user_access (caller_from_extension ext) (e_user_id ep)")
      case ok: (Inr x)
      obtain err fs' where "blob_put lb (upload_key sv (e_user_id ep) (ue_key_id env) up) (up_data up) (up_mime up) (as_blobs st) =
          (Inl err, fs')" using put by blast
      then show ?thesis using assms(2,3) Inr ok bo by (simp add: upload_begin_def Let_def)
    qed (use assms(2) Inr in \<open>simp add: upload_begin_def\<close>)
  qed (use assms(2) in \<open>simp add: upload_begin_def\<close>)
  then show ?thesis unfolding upload_attachment_def by (cases "upload_begin sv ext e form env st") auto
qed

lemma dotted_names_refused_witness:
  "\<exists>err. fst (upload_attachment (demo_server None) None 5 (demo_form ''a.'' ''text/plain'') (demo_env 0 7)
       (attachment_start demo_episodes (\<lambda>_. None))) = Some (Inl err) \<and>
     as_blobs (snd (upload_attachment (demo_server None) None 5 (demo_form ''a.'' ''text/plain'') (demo_env 0 7)
       (attachment_start demo_episodes (\<lambda>_. None)))) [''data'', ''aaa'', ''attachments'', ''a'', ''a.''] = Some (File ''hi'')"
proof -
  let ?c = "snd (the (sv_blobs (demo_server None)))"
  have "(case check_upload ?c (demo_form ''a.'' ''text/plain'') of Inr up \<Rightarrow> up_name up = Some ''a.'' | Inl _ \<Rightarrow> False) \<and>
      str_contains (sanitize_filename (sv_chars (demo_server None)) ''a.'' @ ''.'') ''..''"
    by code_simp
  then obtain up where up: "check_upload ?c (demo_form ''a.'' ''text/plain'') = Inr up" "up_name up = Some ''a.''"
    "str_contains (sanitize_filename (sv_chars (demo_server None)) ''a.'' @ ''.'') ''..''" by (auto split: sum.splits)
  have "sv_blobs (demo_server None) = Some (fst (the (sv_blobs (demo_server None))), ?c)" by (simp add: demo_server_def)
  from dotted_names_refused [OF demo_local this up]
  have "\<exists>err. fst (upload_attachment (demo_server None) None 5 (demo_form ''a.'' ''text/plain'') (demo_env 0 7)
       (attachment_start demo_episodes (\<lambda>_. None))) = Some (Inl err)" by blast
  moreover have "case as_blobs (snd (upload_attachment (demo_server None) None 5 (demo_form ''a.'' ''text/plain'') (demo_env 0 7)
       (attachment_start demo_episodes (\<lambda>_. None)))) [''data'', ''aaa'', ''attachments'', ''a'', ''a.''] of
     Some (File d) \<Rightarrow> d = ''hi'' | _ \<Rightarrow> False" by code_simp
  ultimately show ?thesis by (auto split: option.splits file_node.splits)
qed

end
