(* ===== verification/Document_Parsers.thy ===== *)
theory Document_Parsers
  imports Attachments
begin

text \<open>
  The parsers of documents, \<^verbatim>\<open>mnemo-llm/src/pdf_parser.rs\<close>, with the dispatch of
  \<^verbatim>\<open>DocumentHandle\<close> in \<^verbatim>\<open>mnemo-server/src/state.rs\<close> and the result types of
  \<^verbatim>\<open>mnemo-core/src/traits/document.rs\<close>. Texts are lists of characters, each the list of its bytes, as
  \<open>utf8_chars\<close> gives them; lengths are in bytes where the code calls \<^verbatim>\<open>len\<close> on a text and in characters where it
  works on a vector of characters. The extraction of the text of a PDF, the lossy decoding of bytes and the classes of
  characters outside ASCII are parameters. \<open>None\<close> is a panic or a loop that does not end.
\<close>

section \<open>Texts as characters\<close>

type_synonym utext = "string list"

definition byte_len :: "utext \<Rightarrow> nat" where
  "byte_len ks = length (concat ks)"

definition utrim :: "char_classes \<Rightarrow> utext \<Rightarrow> utext" where
  "utrim cc ks = rev (dropWhile (is_whitespace cc) (rev (dropWhile (is_whitespace cc) ks)))"

abbreviation newline :: string where "newline \<equiv> [CHR 0x0A]"
abbreviation form_feed :: string where "form_feed \<equiv> [CHR 0x0C]"

definition strip_cr :: "utext \<Rightarrow> utext" where
  "strip_cr ks = (if ks \<noteq> [] \<and> last ks = [CHR 0x0D] then butlast ks else ks)"

text \<open>\<^verbatim>\<open>str::lines\<close> and \<^verbatim>\<open>str::split\<close> at a character.\<close>

fun ulines :: "utext \<Rightarrow> utext \<Rightarrow> utext list" where
  "ulines acc [] = (if acc = [] then [] else [acc])"
| "ulines acc (k # ks) = (if k = newline then strip_cr acc # ulines [] ks else ulines (acc @ [k]) ks)"

fun usplit :: "string \<Rightarrow> utext \<Rightarrow> utext \<Rightarrow> utext list" where
  "usplit sep acc [] = [acc]"
| "usplit sep acc (k # ks) = (if k = sep then acc # usplit sep [] ks else usplit sep (acc @ [k]) ks)"

section \<open>Results\<close>

datatype chunk_type = CtTitle | CtHeading | CtParagraph | CtTable | CtList | CtCode | CtFootnote | CtCaption | CtMixed

record document_chunk =
  dc_index :: u32
  dc_text :: string
  dc_page :: u32
  dc_section :: "string option"
  dc_type :: chunk_type
  dc_offset :: nat
  dc_count :: nat

text \<open>Images and the table of contents are always empty.\<close>

record parsed_file =
  pf_title :: "string option"
  pf_author :: "string option"
  pf_created_at :: "string option"
  pf_page_count :: u32
  pf_char_count :: nat
  pf_chunks :: "document_chunk list"

section \<open>Titles\<close>

fun first_short_line :: "char_classes \<Rightarrow> utext list \<Rightarrow> string option" where
  "first_short_line cc [] = None"
| "first_short_line cc (l # ls) =
     (let t = utrim cc l in if t \<noteq> [] \<and> byte_len t < 200 then Some (concat t) else first_short_line cc ls)"

definition extract_title :: "char_classes \<Rightarrow> utext list \<Rightarrow> string option" where
  "extract_title cc pages =
     (case pages of
        [] \<Rightarrow> None
      | p # _ \<Rightarrow> let first_page = utrim cc p in if first_page = [] then None else first_short_line cc (ulines [] first_page))"

definition extract_text_title :: "char_classes \<Rightarrow> utext \<Rightarrow> document_format \<Rightarrow> string option" where
  "extract_text_title cc txt format =
     (case ulines [] txt of
        [] \<Rightarrow> None
      | l # _ \<Rightarrow>
        let first_line = utrim cc l in
        if format = DfMarkdown \<and> first_line \<noteq> [] \<and> hd first_line = ''#''
        then Some (concat (utrim cc (dropWhile (\<lambda>k. k = ''#'') first_line)))
        else if first_line \<noteq> [] \<and> byte_len first_line < 200 then Some (concat first_line)
        else None)"

section \<open>Chunks by page\<close>

fun page_chunks :: "char_classes \<Rightarrow> nat \<Rightarrow> nat \<Rightarrow> document_chunk list \<Rightarrow> utext list \<Rightarrow> document_chunk list" where
  "page_chunks cc i offset cs [] = cs"
| "page_chunks cc i offset cs (p # ps) =
     (let t = utrim cc p in
      page_chunks cc (Suc i) (offset + byte_len p + 1)
        (if t = [] then cs
         else cs @ [\<lparr>dc_index = of_nat (length cs), dc_text = concat t, dc_page = of_nat (Suc i), dc_section = None,
           dc_type = CtMixed, dc_offset = offset, dc_count = byte_len t\<rparr>]) ps)"

definition chunk_by_page :: "char_classes \<Rightarrow> utext list \<Rightarrow> document_chunk list" where
  "chunk_by_page cc pages = page_chunks cc 0 0 [] pages"

section \<open>Chunks of a fixed size\<close>

text \<open>The offset counts characters, the slice of the text bytes.\<close>

definition estimate_page :: "nat \<Rightarrow> string \<Rightarrow> u32 option" where
  "estimate_page char_offset s =
     map_option (\<lambda>pre. of_nat (length (filter (\<lambda>c. c = CHR 0x0C) pre) + 1)) (slice_to (min char_offset (length s)) s)"

definition breaks_sentence :: "string \<Rightarrow> bool" where
  "breaks_sentence k \<longleftrightarrow> k = ''.'' \<or> k = ''!'' \<or> k = ''?'' \<or> k = newline"

text \<open>Sums of \<^verbatim>\<open>usize\<close> wrap around.\<close>

definition window_end :: "nat \<Rightarrow> nat \<Rightarrow> nat \<Rightarrow> nat" where
  "window_end start chunk_size n = min ((start + chunk_size) mod 2 ^ 64) n"

definition sentence_end :: "utext \<Rightarrow> nat \<Rightarrow> nat \<Rightarrow> nat" where
  "sentence_end chars chunk_size e =
     (if e < length chars then
        (case find (\<lambda>i. breaks_sentence (chars ! i)) (rev [e - chunk_size div 5 ..< e]) of Some i \<Rightarrow> Suc i | None \<Rightarrow> e)
      else e)"

definition add_fixed :: "char_classes \<Rightarrow> utext \<Rightarrow> nat \<Rightarrow> nat \<Rightarrow> document_chunk list \<Rightarrow> document_chunk list option" where
  "add_fixed cc chars start e cs =
     (if e < start then None
      else
        let t = utrim cc (take (e - start) (drop start chars)) in
        if t = [] then Some cs
        else map_option (\<lambda>page. cs @ [\<lparr>dc_index = of_nat (length cs), dc_text = concat t, dc_page = page, dc_section = None,
               dc_type = CtParagraph, dc_offset = start, dc_count = byte_len t\<rparr>])
             (estimate_page start (concat chars)))"

partial_function (option) fixed_loop ::
  "char_classes \<Rightarrow> utext \<Rightarrow> nat \<Rightarrow> nat \<Rightarrow> nat \<Rightarrow> document_chunk list \<Rightarrow> document_chunk list option" where
  "fixed_loop cc chars chunk_size overlap start cs =
     (if length chars \<le> start then Some cs
      else
        let e = sentence_end chars chunk_size (window_end start chunk_size (length chars)) in
        Option.bind (add_fixed cc chars start e cs) (\<lambda>cs'.
          fixed_loop cc chars chunk_size overlap (if length chars \<le> e then length chars else e - overlap) cs'))"

declare fixed_loop.simps [code]

definition chunk_fixed :: "char_classes \<Rightarrow> utext \<Rightarrow> nat \<Rightarrow> nat \<Rightarrow> document_chunk list option" where
  "chunk_fixed cc chars chunk_size overlap = fixed_loop cc chars chunk_size overlap 0 []"

section \<open>Chunks by structure\<close>

definition is_uppercase :: "(string \<Rightarrow> bool) \<Rightarrow> string \<Rightarrow> bool" where
  "is_uppercase upper = in_class (\<lambda>c. CHR ''A'' \<le> c \<and> c \<le> CHR ''Z'') upper"

definition is_likely_heading :: "char_classes \<Rightarrow> (string \<Rightarrow> bool) \<Rightarrow> utext \<Rightarrow> bool" where
  "is_likely_heading cc upper l =
     (let line = utrim cc l; n = byte_len line; s = concat line; words = split_whitespace cc [] line in
      if n < 3 \<or> n > 100 then False
      else if is_digit (hd s) \<and> (str_contains s ''.'' \<or> str_contains (lowercase s) ''chapter'') then True
      else if \<forall>k \<in> set line. is_alphabetic cc k \<longrightarrow> is_uppercase upper k then 3 < n \<and> n < 60
      else length words \<le> 6 \<and> 2 \<le> length words \<and>
        length words - 1 \<le> length (filter (\<lambda>w. 1 < length w \<and> is_uppercase upper (hd (utf8_chars w))) words))"

record structural_state =
  sx_chunks :: "document_chunk list"
  sx_current :: utext
  sx_section :: "string option"
  sx_start_page :: u32
  sx_offset :: nat
  sx_start_offset :: nat

definition paragraph_chunk :: "char_classes \<Rightarrow> structural_state \<Rightarrow> document_chunk" where
  "paragraph_chunk cc x =
     (let t = utrim cc (sx_current x) in
      \<lparr>dc_index = of_nat (length (sx_chunks x)), dc_text = concat t, dc_page = sx_start_page x, dc_section = sx_section x,
       dc_type = CtParagraph, dc_offset = sx_start_offset x, dc_count = byte_len t\<rparr>)"

definition flush_above :: "char_classes \<Rightarrow> nat \<Rightarrow> structural_state \<Rightarrow> structural_state" where
  "flush_above cc n x =
     (if byte_len (utrim cc (sx_current x)) > n then x\<lparr>sx_chunks := sx_chunks x @ [paragraph_chunk cc x]\<rparr> else x)"

text \<open>A heading ends the chunk under way; the chunk is kept only when it has more than fifty bytes.\<close>

definition structural_line ::
  "char_classes \<Rightarrow> (string \<Rightarrow> bool) \<Rightarrow> nat \<Rightarrow> u32 \<Rightarrow> utext \<Rightarrow> structural_state \<Rightarrow> structural_state" where
  "structural_line cc upper target_len page l x =
     (let line = utrim cc l in
      if line = [] then x\<lparr>sx_current := sx_current x @ [newline]\<rparr>
      else
        let x1 = (if is_likely_heading cc upper line
              then (flush_above cc 50 x)\<lparr>sx_section := Some (concat line), sx_current := [], sx_start_page := page,
                sx_start_offset := sx_offset x\<rparr>
              else x);
            x2 = x1\<lparr>sx_current := sx_current x1 @ line @ [newline]\<rparr>;
            x3 = (if byte_len (sx_current x2) > target_len
              then (flush_above cc 0 x2)\<lparr>sx_current := [], sx_start_page := page, sx_start_offset := sx_offset x2 + byte_len line\<rparr>
              else x2)
        in x3\<lparr>sx_offset := sx_offset x3 + byte_len line + 1\<rparr>)"

fun structural_pages ::
  "char_classes \<Rightarrow> (string \<Rightarrow> bool) \<Rightarrow> nat \<Rightarrow> u32 \<Rightarrow> utext list \<Rightarrow> structural_state \<Rightarrow> structural_state" where
  "structural_pages cc upper target_len page [] x = x"
| "structural_pages cc upper target_len page (p # ps) x =
     (let x1 = fold (structural_line cc upper target_len page) (ulines [] p) x
      in structural_pages cc upper target_len (page + 1) ps (x1\<lparr>sx_offset := sx_offset x1 + 1\<rparr>))"

definition structural_start :: structural_state where
  "structural_start = \<lparr>sx_chunks = [], sx_current = [], sx_section = None, sx_start_page = 1, sx_offset = 0, sx_start_offset = 0\<rparr>"

definition chunk_structural :: "char_classes \<Rightarrow> (string \<Rightarrow> bool) \<Rightarrow> utext list \<Rightarrow> nat \<Rightarrow> document_chunk list" where
  "chunk_structural cc upper pages target_len =
     sx_chunks (flush_above cc 0 (structural_pages cc upper target_len 1 pages structural_start))"

section \<open>The parsers\<close>

record parser_env =
  pe_chars :: char_classes
  pe_upper :: "string \<Rightarrow> bool"
  pe_extract_pdf :: "string \<Rightarrow> string + string"
  pe_utf8_lossy :: "string \<Rightarrow> string"

definition format_debug :: "document_format \<Rightarrow> string" where
  "format_debug f =
     (case f of DfPdf \<Rightarrow> ''Pdf'' | DfDocx \<Rightarrow> ''Docx'' | DfDoc \<Rightarrow> ''Doc'' | DfPptx \<Rightarrow> ''Pptx'' | DfXlsx \<Rightarrow> ''Xlsx'' | DfRtf \<Rightarrow> ''Rtf''
      | DfTxt \<Rightarrow> ''Txt'' | DfMarkdown \<Rightarrow> ''Markdown'' | DfHtml \<Rightarrow> ''Html'' | DfEpub \<Rightarrow> ''Epub'')"

definition pdf_parse :: "parser_env \<Rightarrow> string \<Rightarrow> document_format \<Rightarrow> document_config \<Rightarrow> (mnemo_error + parsed_file) option" where
  "pdf_parse env data format config =
     (if format \<noteq> DfPdf then Some (Inl (UnsupportedMediaType (''PdfParser only supports PDF, got '' @ format_debug format)))
      else
        (case pe_extract_pdf env data of
           Inl e \<Rightarrow> Some (Inl (DocumentParsing (''Failed to extract text from PDF: '' @ e)))
         | Inr s \<Rightarrow>
           let chars = utf8_chars s; pages = usplit form_feed [] chars; cc = pe_chars env;
               chunks = (case dg_chunk_strategy config of
                   CkPage \<Rightarrow> Some (chunk_by_page cc pages)
                 | CkFixed \<Rightarrow> chunk_fixed cc chars (dg_chunk_size config) (dg_chunk_overlap config)
                 | CkStructural \<Rightarrow> Some (chunk_structural cc (pe_upper env) pages (dg_chunk_size config)))
           in map_option (\<lambda>cs. Inr \<lparr>pf_title = extract_title cc pages, pf_author = None, pf_created_at = None,
                pf_page_count = of_nat (length pages), pf_char_count = length s, pf_chunks = cs\<rparr>) chunks))"

fun drop_tags :: "bool \<Rightarrow> string \<Rightarrow> string" where
  "drop_tags in_tag [] = []"
| "drop_tags in_tag (c # cs) =
     (if c = CHR ''<'' then drop_tags True cs
      else if c = CHR ''>'' then drop_tags False cs
      else if in_tag then drop_tags in_tag cs
      else c # drop_tags in_tag cs)"

definition strip_html_tags :: "string \<Rightarrow> string" where
  "strip_html_tags html =
     replace_all ''&#39;'' [CHR 0x27] 0 (replace_all ''&quot;'' [CHR 0x22] 0 (replace_all ''&gt;'' ''>'' 0
       (replace_all ''&lt;'' ''<'' 0 (replace_all ''&amp;'' ''&'' 0 (replace_all ''&nbsp;'' '' '' 0 (drop_tags False html))))))"

definition text_parse :: "parser_env \<Rightarrow> string \<Rightarrow> document_format \<Rightarrow> document_config \<Rightarrow> (mnemo_error + parsed_file) option" where
  "text_parse env data format config =
     (let s0 = pe_utf8_lossy env data; s = (if format = DfHtml then strip_html_tags s0 else s0);
          chars = utf8_chars s; cc = pe_chars env;
          chunks = (if dg_chunk_strategy config = CkFixed
            then chunk_fixed cc chars (dg_chunk_size config) (dg_chunk_overlap config)
            else Some (chunk_structural cc (pe_upper env) [chars] (dg_chunk_size config)))
      in map_option (\<lambda>cs. Inr \<lparr>pf_title = extract_text_title cc chars format, pf_author = None, pf_created_at = None,
           pf_page_count = 1, pf_char_count = length s, pf_chunks = cs\<rparr>) chunks)"

definition pdf_supports :: "document_format \<Rightarrow> bool" where
  "pdf_supports f \<longleftrightarrow> f = DfPdf"

definition text_supports :: "document_format \<Rightarrow> bool" where
  "text_supports f \<longleftrightarrow> f = DfTxt \<or> f = DfMarkdown \<or> f = DfHtml"

definition handle_parse :: "parser_env \<Rightarrow> string \<Rightarrow> document_format \<Rightarrow> document_config \<Rightarrow> (mnemo_error + parsed_file) option" where
  "handle_parse env data format config =
     (if format = DfPdf then pdf_parse env data format config
      else if format = DfTxt \<or> format = DfMarkdown \<or> format = DfHtml then text_parse env data format config
      else Some (Inl (UnsupportedMediaType (''Document format '' @ format_debug format @ '' not yet supported''))))"

definition handle_supports :: "document_format \<Rightarrow> bool" where
  "handle_supports f \<longleftrightarrow> pdf_supports f \<or> text_supports f"

text \<open>What the attachment handlers read of a result.\<close>

definition read_parsed :: "parsed_file \<Rightarrow> parsed_document" where
  "read_parsed p = \<lparr>pd_title = pf_title p, pd_page_count = pf_page_count p, pd_chunks = map dc_text (pf_chunks p)\<rparr>"

section \<open>Chunks of a fixed size end\<close>

definition ascii_text :: "utext \<Rightarrow> bool" where
  "ascii_text chars \<longleftrightarrow> (\<forall>k \<in> set chars. length k = 1 \<and> hd k < CHR 0x80)"

lemma concat_ascii: "ascii_text chars \<Longrightarrow> concat chars = map hd chars"
  unfolding ascii_text_def by (induction chars) (auto simp: length_Suc_conv)

lemma ascii_no_continuation: "c < CHR 0x80 \<Longrightarrow> \<not> is_continuation c"
  by (simp add: is_continuation_def less_char_def)

lemma estimate_page_ascii: "ascii_text chars \<Longrightarrow> \<exists>p. estimate_page n (concat chars) = Some p"
  by (auto simp: estimate_page_def slice_to_def is_char_boundary_def concat_ascii ascii_text_def min_def
      intro!: ascii_no_continuation)

lemma utrim_length: "length (utrim cc ks) \<le> length ks"
  by (simp add: utrim_def) (metis length_dropWhile_le length_rev le_trans)

lemma set_utrim: "set (utrim cc ks) \<subseteq> set ks"
  by (auto simp: utrim_def dest!: set_dropWhileD)

lemma byte_len_ascii: "ascii_text chars \<Longrightarrow> byte_len chars = length chars"
  by (simp add: byte_len_def concat_ascii)

text \<open>A window of the text is among the chunks, unless it is blank.\<close>

definition window_kept :: "char_classes \<Rightarrow> utext \<Rightarrow> nat \<Rightarrow> nat \<Rightarrow> document_chunk list \<Rightarrow> bool" where
  "window_kept cc chars s e cs \<longleftrightarrow>
     (let t = utrim cc (take (e - s) (drop s chars)) in t = [] \<or> (\<exists>c \<in> set cs. dc_offset c = s \<and> dc_text c = concat t))"

lemma window_kept_mono: "window_kept cc chars s e cs \<Longrightarrow> set cs \<subseteq> set cs' \<Longrightarrow> window_kept cc chars s e cs'"
  by (auto simp: window_kept_def Let_def)

lemma add_fixed_ascii:
  assumes "ascii_text chars" "start \<le> e"
  obtains new where "add_fixed cc chars start e cs = Some (cs @ new)" "window_kept cc chars start e new"
    "\<forall>c \<in> set new. dc_count c \<le> e - start"
proof -
  let ?t = "utrim cc (take (e - start) (drop start chars))"
  obtain p where p: "estimate_page start (concat chars) = Some p" using estimate_page_ascii [OF assms(1)] by blast
  have "set ?t \<subseteq> set chars" by (meson set_utrim order_trans set_take_subset set_drop_subset)
  then have "ascii_text ?t" using assms(1) by (auto simp: ascii_text_def)
  then have count: "byte_len ?t \<le> e - start"
    using utrim_length [of cc "take (e - start) (drop start chars)"] by (simp add: byte_len_ascii)
  show thesis
  proof (cases "?t = []")
    case True
    then show ?thesis using that [of "[]"] assms(2) by (simp add: add_fixed_def window_kept_def)
  next
    case False
    then show ?thesis using assms(2) p count
      by (intro that [of "[\<lparr>dc_index = of_nat (length cs), dc_text = concat ?t, dc_page = p, dc_section = None,
           dc_type = CtParagraph, dc_offset = start, dc_count = byte_len ?t\<rparr>]"]) (simp_all add: add_fixed_def Let_def window_kept_def)
  qed
qed

lemma find_SomeD: "find P xs = Some x \<Longrightarrow> x \<in> set xs \<and> P x"
  by (induction xs) (auto split: if_splits)

lemma sentence_end_bounds:
  "sentence_end chars n e \<le> e" "sentence_end chars n e = e \<or> e - n div 5 < sentence_end chars n e"
proof -
  have "sentence_end chars n e = e \<or> (\<exists>i. sentence_end chars n e = Suc i \<and> e - n div 5 \<le> i \<and> i < e)"
    by (auto simp: sentence_end_def split: option.split dest!: find_SomeD)
  then show "sentence_end chars n e \<le> e" "sentence_end chars n e = e \<or> e - n div 5 < sentence_end chars n e" by auto
qed

lemma window_end_small: "start \<le> length chars \<Longrightarrow> length chars + n < 2 ^ 64 \<Longrightarrow> window_end start n (length chars) = min (start + n) (length chars)"
  by (simp add: window_end_def)

lemma fixed_loop_returns:
  assumes "ascii_text chars" "overlap + chunk_size div 5 < chunk_size" "length chars + chunk_size < 2 ^ 64"
  shows "\<exists>new. fixed_loop cc chars chunk_size overlap start cs = Some (cs @ new) \<and>
    (\<forall>i. start \<le> i \<and> i < length chars \<longrightarrow> (\<exists>s e. s \<le> i \<and> i < e \<and> e \<le> s + chunk_size \<and> window_kept cc chars s e new)) \<and>
    (\<forall>c \<in> set new. dc_count c \<le> chunk_size)"
proof (induction "length chars - start" arbitrary: start cs rule: less_induct)
  case less
  show ?case
  proof (cases "length chars \<le> start")
    case True
    then show ?thesis by (intro exI [of _ "[]"]) (auto simp: fixed_loop.simps)
  next
    case False
    let ?w = "min (start + chunk_size) (length chars)" and ?e = "sentence_end chars chunk_size (min (start + chunk_size) (length chars))"
    let ?next = "if length chars \<le> ?e then length chars else ?e - overlap"
    have w: "window_end start chunk_size (length chars) = ?w" using False assms(3) by (simp add: window_end_small)
    have e: "?e \<le> ?w \<and> start < ?e \<and> start < ?next \<and> ?next \<le> ?e"
    proof (cases "length chars \<le> start + chunk_size")
      case True
      then have "?w = length chars" "?e = length chars" by (auto simp: sentence_end_def)
      then show ?thesis using False by simp
    next
      case big: False
      then have w': "?w = start + chunk_size" by simp
      show ?thesis
        using sentence_end_bounds [of chars chunk_size ?w] big assms(2) unfolding w' by (auto split: if_splits)
    qed
    then have e: "?e \<le> ?w" "start < ?e" "start < ?next" "?next \<le> ?e" by blast+
    obtain new where new: "add_fixed cc chars start ?e cs = Some (cs @ new)" "window_kept cc chars start ?e new"
        "\<forall>c \<in> set new. dc_count c \<le> ?e - start"
      by (rule add_fixed_ascii [OF assms(1), where start = start and e = ?e and cc = cc and cs = cs]) (use e(2) in auto)
    have closer: "length chars - ?next < length chars - start" using e(3) False by linarith
    obtain new' where new': "fixed_loop cc chars chunk_size overlap ?next (cs @ new) = Some ((cs @ new) @ new')"
        "\<forall>i. ?next \<le> i \<and> i < length chars \<longrightarrow> (\<exists>s e. s \<le> i \<and> i < e \<and> e \<le> s + chunk_size \<and> window_kept cc chars s e new')"
        "\<forall>c \<in> set new'. dc_count c \<le> chunk_size"
      using less [OF closer, of "cs @ new"] by blast
    have "fixed_loop cc chars chunk_size overlap start cs = Some (cs @ (new @ new'))"
      using False new'(1) by (subst fixed_loop.simps) (simp add: w new(1))
    moreover have "\<exists>s e. s \<le> i \<and> i < e \<and> e \<le> s + chunk_size \<and> window_kept cc chars s e (new @ new')"
      if i: "start \<le> i" "i < length chars" for i
    proof (cases "i < ?e")
      case True
      then show ?thesis using i(1) e(1) window_kept_mono [OF new(2), of "new @ new'"] by (intro exI [of _ start] exI [of _ ?e]) auto
    next
      case False
      then have "?next \<le> i" using e(4) by simp
      then obtain s e where "s \<le> i \<and> i < e \<and> e \<le> s + chunk_size \<and> window_kept cc chars s e new'" using new'(2) i(2) by blast
      then show ?thesis using window_kept_mono [of cc chars s e new' "new @ new'"] by auto
    qed
    moreover have "\<forall>c \<in> set (new @ new'). dc_count c \<le> chunk_size" using new(3) new'(3) e(1) by fastforce
    ultimately show ?thesis by blast
  qed
qed

text \<open>A window that starts at the front and is moved back by at least its size starts at the front again.\<close>

lemma fixed_loop_stuck:
  assumes "chunk_size \<le> overlap" "chunk_size < length chars" "chunk_size < 2 ^ 64"
  shows "fixed_loop cc chars chunk_size overlap 0 cs = None"
proof -
  have "sentence_end chars chunk_size (window_end 0 chunk_size (length chars)) \<le> chunk_size"
    using sentence_end_bounds(1) [of chars chunk_size "window_end 0 chunk_size (length chars)"] assms(2,3) by (simp add: window_end_def)
  then have again: "(if length chars \<le> sentence_end chars chunk_size (window_end 0 chunk_size (length chars)) then length chars
      else sentence_end chars chunk_size (window_end 0 chunk_size (length chars)) - overlap) = 0"
    using assms(1,2) by simp
  let ?P = "\<lambda>cc' chars' n' ov' s (cs :: document_chunk list) (y :: document_chunk list).
      \<not> (cc' = cc \<and> chars' = chars \<and> n' = chunk_size \<and> ov' = overlap \<and> s = (0::nat))"
  have "?P cc' chars' n' ov' s cs y" if "fixed_loop cc' chars' n' ov' s cs = Some y" for cc' chars' n' ov' s cs y
  proof (rule fixed_loop.raw_induct [of ?P, OF _ that])
    fix f cc' chars' n' ov' s cs y
    assume ih: "\<And>cc' chars' n' ov' s cs y. f cc' chars' n' ov' s cs = Some y \<Longrightarrow> ?P cc' chars' n' ov' s cs y"
      and run: "(if length chars' \<le> s then Some cs
        else let e = sentence_end chars' n' (window_end s n' (length chars')) in
          Option.bind (add_fixed cc' chars' s e cs) (\<lambda>cs'. f cc' chars' n' ov' (if length chars' \<le> e then length chars' else e - ov') cs')) =
        Some y"
    show "?P cc' chars' n' ov' s cs y"
    proof
      assume eqs: "cc' = cc \<and> chars' = chars \<and> n' = chunk_size \<and> ov' = overlap \<and> s = 0"
      then obtain cs' where "f cc chars chunk_size overlap
          (if length chars \<le> sentence_end chars chunk_size (window_end 0 chunk_size (length chars)) then length chars
           else sentence_end chars chunk_size (window_end 0 chunk_size (length chars)) - overlap) cs' = Some y"
        using run assms(2) by (auto simp: Let_def bind_eq_Some_conv split: if_splits)
      then show False using ih unfolding again by blast
    qed
  qed
  then show ?thesis by fastforce
qed

section \<open>Chunks by structure keep the lines\<close>

lemma dropWhile_block: "t \<noteq> [] \<Longrightarrow> \<not> P (hd t) \<Longrightarrow> \<exists>u'. dropWhile P (u @ t @ v) = u' @ t @ v"
proof (induction u)
  case Nil
  then show ?case by (cases t) auto
next
  case (Cons x u)
  then show ?case by (cases "P x") (auto intro: exI [of _ "x # u"])
qed

lemma utrim_block:
  assumes "t \<noteq> []" "\<not> is_whitespace cc (hd t)" "\<not> is_whitespace cc (last t)"
  shows "\<exists>u v. utrim cc (a @ t @ b) = u @ t @ v"
proof -
  obtain u where u: "dropWhile (is_whitespace cc) (a @ t @ b) = u @ t @ b"
    using dropWhile_block [of t "is_whitespace cc" a b] assms by blast
  obtain v where "dropWhile (is_whitespace cc) (rev b @ rev t @ rev u) = v @ rev t @ rev u"
    using dropWhile_block [of "rev t" "is_whitespace cc" "rev b" "rev u"] assms by (auto simp: hd_rev)
  then show ?thesis by (simp add: utrim_def u) (metis rev_append rev_rev_ident append_assoc)
qed

lemma last_dropWhile: "dropWhile P xs \<noteq> [] \<Longrightarrow> last (dropWhile P xs) = last xs"
  by (metis dropWhile_eq_drop last_drop length_drop length_greater_0_conv zero_less_diff)

lemma utrim_ends:
  assumes "utrim cc l \<noteq> []"
  shows "\<not> is_whitespace cc (hd (utrim cc l))" "\<not> is_whitespace cc (last (utrim cc l))"
proof -
  let ?x = "dropWhile (is_whitespace cc) l" and ?y = "dropWhile (is_whitespace cc) (rev (dropWhile (is_whitespace cc) l))"
  have y: "?y \<noteq> []" "utrim cc l = rev ?y" using assms by (auto simp: utrim_def)
  have x: "?x \<noteq> []"
  proof
    assume "?x = []"
    then have "?y = []" by (simp only: rev.simps dropWhile.simps)
    with y(1) show False by blast
  qed
  show "\<not> is_whitespace cc (last (utrim cc l))" using y hd_dropWhile [OF y(1)] by (simp add: last_rev)
  have "hd (utrim cc l) = last ?y" using y by (simp add: hd_rev)
  also have "\<dots> = hd ?x" using last_dropWhile [OF y(1)] x by (simp add: last_rev)
  finally show "\<not> is_whitespace cc (hd (utrim cc l))" using hd_dropWhile [OF x] by simp
qed

definition firm_line :: "char_classes \<Rightarrow> utext \<Rightarrow> bool" where
  "firm_line cc t \<longleftrightarrow> concat t \<noteq> [] \<and> t \<noteq> [] \<and> \<not> is_whitespace cc (hd t) \<and> \<not> is_whitespace cc (last t)"

text \<open>The line is in a chunk or in the one under way.\<close>

definition line_held :: "utext \<Rightarrow> structural_state \<Rightarrow> bool" where
  "line_held t x \<longleftrightarrow> (\<exists>c \<in> set (sx_chunks x). sublist (concat t) (dc_text c)) \<or> (\<exists>u v. sx_current x = u @ t @ v)"

lemma flush_held:
  assumes "firm_line cc t" "line_held t x"
  shows "\<exists>c \<in> set (sx_chunks (flush_above cc 0 x)). sublist (concat t) (dc_text c)"
proof (cases "\<exists>c \<in> set (sx_chunks x). sublist (concat t) (dc_text c)")
  case False
  then obtain u v where "sx_current x = u @ t @ v" using assms(2) by (auto simp: line_held_def)
  then obtain u' v' where t: "utrim cc (sx_current x) = u' @ t @ v'"
    using utrim_block [of t cc u v] assms(1) by (auto simp: firm_line_def)
  have "dc_text (paragraph_chunk cc x) = concat u' @ concat t @ concat v'" by (simp add: paragraph_chunk_def Let_def t)
  then have "sublist (concat t) (dc_text (paragraph_chunk cc x))" by (auto simp: sublist_def)
  moreover have "byte_len (utrim cc (sx_current x)) > 0" using assms(1) by (simp add: t byte_len_def firm_line_def)
  ultimately show ?thesis by (simp add: flush_above_def)
qed (auto simp: flush_above_def)

lemma flush_chunks: "sx_chunks (flush_above cc n x) = sx_chunks x \<or> sx_chunks (flush_above cc n x) = sx_chunks x @ [paragraph_chunk cc x]"
  "sx_offset (flush_above cc n x) = sx_offset x" "sx_current (flush_above cc n x) = sx_current x"
  by (simp_all add: flush_above_def)

lemma line_held_step:
  assumes "firm_line cc t" "\<not> is_likely_heading cc upper (utrim cc l)" "line_held t x \<or> t = utrim cc l"
  shows "line_held t (structural_line cc upper n page l x)"
proof (cases "utrim cc l = []")
  case True
  then have "line_held t x" using assms by (auto simp: firm_line_def)
  then show ?thesis using True by (auto simp: structural_line_def line_held_def) (metis append_assoc)
next
  case False
  let ?x2 = "x\<lparr>sx_current := sx_current x @ utrim cc l @ [newline]\<rparr>"
  have held: "line_held t ?x2" using assms(3) by (auto simp: line_held_def) (metis append_assoc)+
  show ?thesis
  proof (cases "byte_len (sx_current ?x2) > n")
    case True
    have "sx_chunks (structural_line cc upper n page l x) = sx_chunks (flush_above cc 0 ?x2)"
      using False assms(2) True by (simp add: structural_line_def Let_def)
    then show ?thesis using flush_held [OF assms(1) held] by (simp add: line_held_def)
  next
    case small: False
    have "sx_chunks (structural_line cc upper n page l x) = sx_chunks ?x2 \<and>
        sx_current (structural_line cc upper n page l x) = sx_current ?x2"
      using False assms(2) small by (simp add: structural_line_def Let_def)
    then show ?thesis using held by (simp add: line_held_def)
  qed
qed

lemma line_held_fold:
  assumes "firm_line cc t" "\<forall>l \<in> set ls. \<not> is_likely_heading cc upper (utrim cc l)"
    "line_held t x \<or> t \<in> utrim cc ` set ls"
  shows "line_held t (fold (structural_line cc upper n page) ls x)"
  using assms(2,3)
proof (induction ls arbitrary: x)
  case (Cons l ls)
  have "line_held t (structural_line cc upper n page l x) \<or> t \<in> utrim cc ` set ls"
    using Cons.prems line_held_step [OF assms(1), of upper l x n page] by auto
  then show ?case using Cons.IH Cons.prems(1) by simp
qed simp

lemma line_held_pages:
  assumes "firm_line cc t" "\<forall>p \<in> set ps. \<forall>l \<in> set (ulines [] p). \<not> is_likely_heading cc upper (utrim cc l)"
    "line_held t x \<or> (\<exists>p \<in> set ps. t \<in> utrim cc ` set (ulines [] p))"
  shows "line_held t (structural_pages cc upper n page ps x)"
  using assms(2,3)
proof (induction ps arbitrary: x page)
  case (Cons p ps)
  let ?x1 = "fold (structural_line cc upper n page) (ulines [] p) x"
  have "line_held t ?x1 \<or> (\<exists>p \<in> set ps. t \<in> utrim cc ` set (ulines [] p))"
    using Cons.prems line_held_fold [OF assms(1), of "ulines [] p" upper x n page] by auto
  then have "line_held t (?x1\<lparr>sx_offset := sx_offset ?x1 + 1\<rparr>) \<or> (\<exists>p \<in> set ps. t \<in> utrim cc ` set (ulines [] p))"
    by (simp add: line_held_def)
  then show ?case using Cons.IH Cons.prems(1) by (simp add: Let_def)
qed simp

lemma utf8_chars_nonempty: "[] \<notin> set (utf8_chars s)"
  by (induction s) (auto split: list.splits)

lemma set_strip_cr: "set (strip_cr ks) \<subseteq> set ks"
  by (auto simp: strip_cr_def dest: in_set_butlastD)

lemma set_ulines: "l \<in> set (ulines acc ks) \<Longrightarrow> set l \<subseteq> set acc \<union> set ks"
  by (induction acc ks rule: ulines.induct) (auto split: if_splits dest: subsetD [OF set_strip_cr])

lemma lines_kept:
  assumes "\<forall>p \<in> set pages. [] \<notin> set p" "\<forall>p \<in> set pages. \<forall>l \<in> set (ulines [] p). \<not> is_likely_heading cc upper (utrim cc l)"
    "p \<in> set pages" "l \<in> set (ulines [] p)" "utrim cc l \<noteq> []"
  shows "\<exists>c \<in> set (chunk_structural cc upper pages n). sublist (concat (utrim cc l)) (dc_text c)"
proof -
  have "set (utrim cc l) \<subseteq> set p" using set_utrim [of cc l] set_ulines [OF assms(4)] by auto
  then have "[] \<notin> set (utrim cc l)" using assms(1,3) by auto
  then have "concat (utrim cc l) \<noteq> []" using assms(5) by (cases "utrim cc l") auto
  then have firm: "firm_line cc (utrim cc l)" using utrim_ends [OF assms(5)] assms(5) by (simp add: firm_line_def)
  then have "line_held (utrim cc l) (structural_pages cc upper n 1 pages structural_start)"
    by (rule line_held_pages) (use assms(2-4) in auto)
  then show ?thesis unfolding chunk_structural_def by (rule flush_held [OF firm])
qed

section \<open>Properties\<close>

text \<open>C34: Chunking an ASCII text into chunks of a fixed size ends when overlap and a fifth of the size together are less than the
  size; no chunk is longer than the size, and the windows, each of at most the size, cover every character of the text.\<close>

theorem fixed_chunks_cover:
  assumes "ascii_text chars" and "overlap + chunk_size div 5 < chunk_size" and "length chars + chunk_size < 2 ^ 64"
  shows "\<exists>cs. chunk_fixed cc chars chunk_size overlap = Some cs \<and> (\<forall>c \<in> set cs. dc_count c \<le> chunk_size) \<and>
    (\<forall>i < length chars. \<exists>s e. s \<le> i \<and> i < e \<and> e \<le> s + chunk_size \<and> window_kept cc chars s e cs)"
  using fixed_loop_returns [OF assms, of cc 0 "[]"] by (auto simp: chunk_fixed_def)

lemma fixed_chunks_cover_witness:
  "\<exists>cs. chunk_fixed \<lparr>cc_alphanumeric = (\<lambda>_. False), cc_alphabetic = (\<lambda>_. False), cc_white = (\<lambda>_. False)\<rparr>
     [''a'', ''.'', '' '', ''b'', ''c'', ''d'', ''e'', ''f'', ''g''] 5 2 = Some cs \<and> (\<forall>c \<in> set cs. dc_count c \<le> 5)"
  using fixed_chunks_cover [of "[''a'', ''.'', '' '', ''b'', ''c'', ''d'', ''e'', ''f'', ''g'']" 2 5
      "\<lparr>cc_alphanumeric = (\<lambda>_. False), cc_alphabetic = (\<lambda>_. False), cc_white = (\<lambda>_. False)\<rparr>"]
  by (auto simp: ascii_text_def less_char_def)

text \<open>C35: With an overlap of at least the chunk size, no text longer than the chunk size is ever chunked: each window is moved
  back to the front of the text, so neither the parsing nor the upload that waits for it returns.\<close>

theorem overlap_never_ends:
  assumes "chunk_size \<le> overlap" and "chunk_size < length (utf8_chars s)" and "chunk_size < 2 ^ 64"
    and "dg_chunk_strategy config = CkFixed" and "dg_chunk_size config = chunk_size" and "dg_chunk_overlap config = overlap"
    and "format = DfTxt \<or> format = DfMarkdown" and "pe_utf8_lossy env data = s"
  shows "handle_parse env data format config = None"
  using assms by (auto simp: handle_parse_def text_parse_def Let_def chunk_fixed_def fixed_loop_stuck)

lemma overlap_never_ends_witness:
  "handle_parse \<lparr>pe_chars = \<lparr>cc_alphanumeric = (\<lambda>_. False), cc_alphabetic = (\<lambda>_. False), cc_white = (\<lambda>_. False)\<rparr>,
      pe_upper = (\<lambda>_. False), pe_extract_pdf = Inl, pe_utf8_lossy = id\<rparr> ''abc'' DfTxt
     \<lparr>dg_enabled = True, dg_max_size_bytes = 9, dg_chunk_strategy = CkFixed, dg_chunk_size = 2, dg_chunk_overlap = 2,
      dg_extract_images = False, dg_sync_processing = True\<rparr> = None"
  by (rule overlap_never_ends [of 2 2 "''abc''"]) (simp_all add: is_continuation_def)

text \<open>Without headings the chunks by structure of a text document lose nothing: each of its lines that is not blank is, up
  to the blanks around it, a part of some chunk.\<close>

theorem structural_keeps_lines:
  assumes "format = DfTxt \<or> format = DfMarkdown" and "dg_chunk_strategy config \<noteq> CkFixed"
    and "\<forall>l \<in> set (ulines [] (utf8_chars (pe_utf8_lossy env data))).
      \<not> is_likely_heading (pe_chars env) (pe_upper env) (utrim (pe_chars env) l)"
  shows "\<exists>pf. handle_parse env data format config = Some (Inr pf) \<and>
    (\<forall>l \<in> set (ulines [] (utf8_chars (pe_utf8_lossy env data))). utrim (pe_chars env) l \<noteq> [] \<longrightarrow>
      (\<exists>c \<in> set (pf_chunks pf). sublist (concat (utrim (pe_chars env) l)) (dc_text c)))"
proof -
  let ?chars = "utf8_chars (pe_utf8_lossy env data)"
  have "handle_parse env data format config = Some (Inr \<lparr>pf_title = extract_text_title (pe_chars env) ?chars format,
      pf_author = None, pf_created_at = None, pf_page_count = 1, pf_char_count = length (pe_utf8_lossy env data),
      pf_chunks = chunk_structural (pe_chars env) (pe_upper env) [?chars] (dg_chunk_size config)\<rparr>)"
    using assms(1,2) by (auto simp: handle_parse_def text_parse_def Let_def)
  then show ?thesis
    using lines_kept [of "[?chars]" "pe_chars env" "pe_upper env" ?chars _ "dg_chunk_size config"] assms(3)
    by (auto simp: utf8_chars_nonempty)
qed

lemma structural_keeps_lines_witness:
  "\<exists>pf. handle_parse \<lparr>pe_chars = \<lparr>cc_alphanumeric = (\<lambda>_. False), cc_alphabetic = (\<lambda>_. False), cc_white = (\<lambda>_. False)\<rparr>,
      pe_upper = (\<lambda>_. False), pe_extract_pdf = Inl, pe_utf8_lossy = id\<rparr> ''ab cd'' DfTxt
     \<lparr>dg_enabled = True, dg_max_size_bytes = 9, dg_chunk_strategy = CkStructural, dg_chunk_size = 2, dg_chunk_overlap = 2,
      dg_extract_images = False, dg_sync_processing = True\<rparr> = Some (Inr pf)"
proof -
  let ?env = "\<lparr>pe_chars = \<lparr>cc_alphanumeric = (\<lambda>_. False), cc_alphabetic = (\<lambda>_. False), cc_white = (\<lambda>_. False)\<rparr>,
      pe_upper = (\<lambda>_. False), pe_extract_pdf = Inl, pe_utf8_lossy = (id :: string \<Rightarrow> string)\<rparr>"
  have "list_all (\<lambda>l. \<not> is_likely_heading (pe_chars ?env) (pe_upper ?env) (utrim (pe_chars ?env) l))
      (ulines [] (utf8_chars (pe_utf8_lossy ?env ''ab cd'')))" by code_simp
  then show ?thesis
    using structural_keeps_lines [of DfTxt "\<lparr>dg_enabled = True, dg_max_size_bytes = 9, dg_chunk_strategy = CkStructural,
        dg_chunk_size = 2, dg_chunk_overlap = 2, dg_extract_images = False, dg_sync_processing = True\<rparr>" ?env "''ab cd''"]
    by (auto simp: list_all_iff)
qed


end
