(* ===== verification/Sealed_Store.thy ===== *)
theory Sealed_Store
  imports Error_Model Ordered_Maps
begin

text \<open>
  Encryption of documents at rest: \<^verbatim>\<open>mnemo-core/src/encryption.rs\<close>, its use by \<^verbatim>\<open>set_json\<close> and
  \<^verbatim>\<open>get_json\<close> of \<^verbatim>\<open>mnemo-storage/src/redis_store.rs\<close>, and the loading of keys in
  \<^verbatim>\<open>mnemo-server/src/main.rs\<close>. AES-256-GCM, base64, the JSON printer and parser and their error texts are
  parameters, of which the properties assume that opening undoes sealing, decoding undoes encoding and parsing undoes printing.
  The map of keys is kept in key order; the order of the hash map of the code shows only in an error text. \<open>None\<close> is a panic.
\<close>

section \<open>Primitives\<close>

record crypto =
  cr_seal :: "string \<Rightarrow> string \<Rightarrow> string \<Rightarrow> string option"
  cr_open :: "string \<Rightarrow> string \<Rightarrow> string \<Rightarrow> string option"
  cr_encode :: "string \<Rightarrow> string"
  cr_decode :: "string \<Rightarrow> string + string"
  cr_utf8 :: "string \<Rightarrow> string option"
  cr_print :: "json \<Rightarrow> string"
  cr_parse :: "string \<Rightarrow> string + json"
  cr_shape_error :: "string \<Rightarrow> string"

section \<open>Envelopes\<close>

record encrypted_envelope =
  ee_encrypted :: bool
  ee_key_id :: string
  ee_algorithm :: string
  ee_dek_ciphertext :: string
  ee_nonce :: string
  ee_ciphertext :: string

definition envelope_json :: "encrypted_envelope \<Rightarrow> json" where
  "envelope_json e = JObject [(''_encrypted'', JBool (ee_encrypted e)), (''_key_id'', JString (ee_key_id e)),
     (''_algorithm'', JString (ee_algorithm e)), (''_dek_ciphertext'', JString (ee_dek_ciphertext e)),
     (''_nonce'', JString (ee_nonce e)), (''_ciphertext'', JString (ee_ciphertext e))]"

definition envelope_fields :: "string list" where
  "envelope_fields = [''_encrypted'', ''_key_id'', ''_algorithm'', ''_dek_ciphertext'', ''_nonce'', ''_ciphertext'']"

text \<open>The derived reader takes an object with all fields, once each, or an array of their values.\<close>

definition envelope_values :: "json list \<Rightarrow> encrypted_envelope option" where
  "envelope_values vs =
     (case vs of
        [JBool b, JString k, JString al, JString d, JString n, JString c] \<Rightarrow>
          Some \<lparr>ee_encrypted = b, ee_key_id = k, ee_algorithm = al, ee_dek_ciphertext = d, ee_nonce = n, ee_ciphertext = c\<rparr>
      | _ \<Rightarrow> None)"

definition envelope_of_json :: "json \<Rightarrow> encrypted_envelope option" where
  "envelope_of_json j =
     (case j of
        JObject m \<Rightarrow>
          if distinct (filter (\<lambda>k. k \<in> set envelope_fields) (map fst m)) \<and> (\<forall>k \<in> set envelope_fields. map_of m k \<noteq> None)
          then envelope_values (map (\<lambda>k. the (map_of m k)) envelope_fields)
          else None
      | JArray vs \<Rightarrow> envelope_values vs
      | _ \<Rightarrow> None)"

section \<open>The encryptor\<close>

record envelope_encryptor =
  enc_keys :: "(string, string) btree_map"
  enc_active_key_id :: string

definition encryptor_new :: "string \<Rightarrow> string \<Rightarrow> envelope_encryptor" where
  "encryptor_new kek i = \<lparr>enc_keys = bt_insert i kek [], enc_active_key_id = i\<rparr>"

definition decode_key :: "crypto \<Rightarrow> string \<Rightarrow> mnemo_error + string" where
  "decode_key cr key_b64 =
     (case cr_decode cr key_b64 of
        Inl e \<Rightarrow> Inl (Config (''Invalid base64 master key: '' @ e))
      | Inr bytes \<Rightarrow>
        if length bytes \<noteq> 32
        then Inl (Config (''Master key must be exactly 32 bytes (got '' @ nat_to_string (length bytes) @ '')''))
        else Inr bytes)"

definition encryptor_from_base64 :: "crypto \<Rightarrow> string \<Rightarrow> string \<Rightarrow> mnemo_error + envelope_encryptor" where
  "encryptor_from_base64 cr key_b64 i = (case decode_key cr key_b64 of Inl e \<Rightarrow> Inl e | Inr kek \<Rightarrow> Inr (encryptor_new kek i))"

definition add_retired_key :: "crypto \<Rightarrow> string \<Rightarrow> string \<Rightarrow> envelope_encryptor \<Rightarrow> mnemo_error + envelope_encryptor" where
  "add_retired_key cr key_b64 i enc =
     (case decode_key cr key_b64 of Inl e \<Rightarrow> Inl e | Inr kek \<Rightarrow> Inr (enc\<lparr>enc_keys := bt_insert i kek (enc_keys enc)\<rparr>))"

definition known_key_ids :: "envelope_encryptor \<Rightarrow> string list" where
  "known_key_ids enc = map fst (enc_keys enc)"

fun comma_separated :: "string list \<Rightarrow> string" where
  "comma_separated [] = []"
| "comma_separated [x] = x"
| "comma_separated (x # y # xs) = x @ '', '' @ comma_separated (y # xs)"

definition get_key :: "string \<Rightarrow> envelope_encryptor \<Rightarrow> mnemo_error + string" where
  "get_key i enc =
     (case map_of (enc_keys enc) i of
        Some k \<Rightarrow> Inr k
      | None \<Rightarrow> Inl (Internal (''Unknown encryption key_id '' @ [CHR 0x27] @ i @ [CHR 0x27] @ ''. Known keys: ['' @
          comma_separated (map (\<lambda>k. [CHR 0x22] @ k @ [CHR 0x22]) (known_key_ids enc)) @ '']'')))"

text \<open>What the random generator gives for one document.\<close>

record seal_random =
  sr_dek :: string
  sr_data_nonce :: string
  sr_kek_nonce :: string

definition encrypt :: "crypto \<Rightarrow> envelope_encryptor \<Rightarrow> seal_random \<Rightarrow> string \<Rightarrow> mnemo_error + string" where
  "encrypt cr enc rnd plaintext =
     (case get_key (enc_active_key_id enc) enc of
        Inl e \<Rightarrow> Inl e
      | Inr kek \<Rightarrow>
        (case cr_seal cr (sr_dek rnd) (sr_data_nonce rnd) plaintext of
           None \<Rightarrow> Inl (Internal ''Encryption failed: aead::Error'')
         | Some ciphertext \<Rightarrow>
           (case cr_seal cr kek (sr_kek_nonce rnd) (sr_dek rnd) of
              None \<Rightarrow> Inl (Internal ''DEK wrapping failed: aead::Error'')
            | Some wrapped \<Rightarrow>
              Inr (cr_print cr (envelope_json \<lparr>ee_encrypted = True, ee_key_id = enc_active_key_id enc,
                ee_algorithm = ''AES-256-GCM'', ee_dek_ciphertext = cr_encode cr (sr_kek_nonce rnd @ wrapped),
                ee_nonce = cr_encode cr (sr_data_nonce rnd), ee_ciphertext = cr_encode cr ciphertext\<rparr>)))))"

definition parse_envelope :: "crypto \<Rightarrow> string \<Rightarrow> mnemo_error + encrypted_envelope" where
  "parse_envelope cr s =
     (case cr_parse cr s of
        Inl e \<Rightarrow> Inl (Internal (''Envelope parse failed: '' @ e))
      | Inr j \<Rightarrow>
        (case envelope_of_json j of None \<Rightarrow> Inl (Internal (''Envelope parse failed: '' @ cr_shape_error cr s)) | Some e \<Rightarrow> Inr e))"

definition decode_field :: "crypto \<Rightarrow> string \<Rightarrow> string \<Rightarrow> mnemo_error + string" where
  "decode_field cr what s = (case cr_decode cr s of Inl e \<Rightarrow> Inl (Internal (''Invalid '' @ what @ '' base64: '' @ e)) | Inr b \<Rightarrow> Inr b)"

abbreviation em_dash :: string where "em_dash \<equiv> [CHR 0xE2, CHR 0x80, CHR 0x94]"

text \<open>A data nonce that does not have twelve bytes makes the conversion of the slice panic.\<close>

definition open_data :: "crypto \<Rightarrow> string \<Rightarrow> string \<Rightarrow> string \<Rightarrow> (mnemo_error + string) option" where
  "open_data cr dek data_nonce ciphertext =
     (if length data_nonce \<noteq> 12 then None
      else Some (case cr_open cr dek data_nonce ciphertext of
          None \<Rightarrow> Inl (Internal (''Data decryption failed '' @ em_dash @ '' corrupted ciphertext or wrong DEK''))
        | Some p \<Rightarrow> (case cr_utf8 cr p of
              Some e \<Rightarrow> Inl (Internal (''Decrypted data is not valid UTF-8: '' @ e)) | None \<Rightarrow> Inr p)))"

definition unwrap_dek :: "crypto \<Rightarrow> string \<Rightarrow> string \<Rightarrow> mnemo_error + string" where
  "unwrap_dek cr kek dek_blob =
     (if length dek_blob < 13 then Inl (Internal ''DEK blob too short (expected nonce + wrapped key)'')
      else
        (case cr_open cr kek (take 12 dek_blob) (drop 12 dek_blob) of
           None \<Rightarrow> Inl (Internal (''DEK unwrap failed '' @ em_dash @ '' wrong master key or corrupted data''))
         | Some dek \<Rightarrow>
           if length dek \<noteq> 32
           then Inl (Internal (''Unwrapped DEK has wrong length (expected 32, got '' @ nat_to_string (length dek) @ '')''))
           else Inr dek))"

definition decrypt :: "crypto \<Rightarrow> envelope_encryptor \<Rightarrow> string \<Rightarrow> (mnemo_error + string) option" where
  "decrypt cr enc s =
     (case parse_envelope cr s of
        Inl e \<Rightarrow> Some (Inl e)
      | Inr env \<Rightarrow>
        if \<not> ee_encrypted env then Some (Inl (Internal ''Document is not encrypted (marker is false)''))
        else
          (case get_key (ee_key_id env) enc of
             Inl e \<Rightarrow> Some (Inl e)
           | Inr kek \<Rightarrow>
             (case (decode_field cr ''DEK ciphertext'' (ee_dek_ciphertext env), decode_field cr ''nonce'' (ee_nonce env),
                 decode_field cr ''ciphertext'' (ee_ciphertext env)) of
                (Inl e, _, _) \<Rightarrow> Some (Inl e)
              | (_, Inl e, _) \<Rightarrow> Some (Inl e)
              | (_, _, Inl e) \<Rightarrow> Some (Inl e)
              | (Inr dek_blob, Inr data_nonce, Inr ciphertext) \<Rightarrow>
                (case unwrap_dek cr kek dek_blob of
                   Inl e \<Rightarrow> Some (Inl e)
                 | Inr dek \<Rightarrow> open_data cr dek data_nonce ciphertext))))"

definition is_encrypted :: "crypto \<Rightarrow> string \<Rightarrow> bool" where
  "is_encrypted cr s =
     (case cr_parse cr s of
        Inr (JObject m) \<Rightarrow> map_of m ''_encrypted'' = Some (JBool True) \<and> map_of m ''_ciphertext'' \<noteq> None
      | _ \<Rightarrow> False)"

section \<open>The store\<close>

record sealed_store =
  sd_docs :: "string \<Rightarrow> json option"
  sd_encryptor :: "envelope_encryptor option"

definition maybe_encrypt :: "crypto \<Rightarrow> sealed_store \<Rightarrow> seal_random \<Rightarrow> string \<Rightarrow> mnemo_error + string" where
  "maybe_encrypt cr st rnd s = (case sd_encryptor st of Some enc \<Rightarrow> encrypt cr enc rnd s | None \<Rightarrow> Inr s)"

text \<open>\<open>JSON.SET\<close> parses the text it is given.\<close>

definition set_json :: "crypto \<Rightarrow> ('a \<Rightarrow> json) \<Rightarrow> string \<Rightarrow> 'a \<Rightarrow> seal_random \<Rightarrow> sealed_store \<Rightarrow> (mnemo_error + unit) \<times> sealed_store" where
  "set_json cr to_json key v rnd st =
     (case maybe_encrypt cr st rnd (cr_print cr (to_json v)) of
        Inl e \<Rightarrow> (Inl e, st)
      | Inr stored \<Rightarrow>
        (case cr_parse cr stored of
           Inl e \<Rightarrow> (Inl (Redis e), st)
         | Inr j \<Rightarrow> (Inr (), st\<lparr>sd_docs := (sd_docs st)(key \<mapsto> j)\<rparr>)))"

definition read_text :: "crypto \<Rightarrow> (json \<Rightarrow> string + 'a) \<Rightarrow> string \<Rightarrow> mnemo_error + 'a option" where
  "read_text cr from_json s =
     (case cr_parse cr s of
        Inl e \<Rightarrow> Inl (Serialization e)
      | Inr j \<Rightarrow> (case from_json j of Inl e \<Rightarrow> Inl (Serialization e) | Inr v \<Rightarrow> Inr (Some v)))"

definition get_json :: "crypto \<Rightarrow> (json \<Rightarrow> string + 'a) \<Rightarrow> string \<Rightarrow> sealed_store \<Rightarrow> (mnemo_error + 'a option) option" where
  "get_json cr from_json key st =
     (case sd_docs st key of
        None \<Rightarrow> Some (Inr None)
      | Some val \<Rightarrow>
        let val_str = cr_print cr val in
        if is_encrypted cr val_str then
          (case sd_encryptor st of
             None \<Rightarrow> Some (Inl (Internal ''Encrypted data found but no encryptor configured''))
           | Some enc \<Rightarrow>
             (case decrypt cr enc val_str of
                None \<Rightarrow> None
              | Some (Inl e) \<Rightarrow> Some (Inl e)
              | Some (Inr plaintext) \<Rightarrow> Some (read_text cr from_json plaintext)))
        else Some (case from_json val of Inl e \<Rightarrow> Inl (Serialization e) | Inr v \<Rightarrow> Inr (Some v)))"

section \<open>Loading keys\<close>

record encryption_section =
  es_enabled :: bool
  es_master_key :: string
  es_key_id :: string
  es_retired_keys :: string

fun split_at_char :: "char \<Rightarrow> string \<Rightarrow> string \<Rightarrow> string list" where
  "split_at_char sep acc [] = [rev acc]"
| "split_at_char sep acc (c # cs) = (if c = sep then rev acc # split_at_char sep [] cs else split_at_char sep (c # acc) cs)"

definition split_first :: "char \<Rightarrow> string \<Rightarrow> (string \<times> string) option" where
  "split_first sep s = (case dropWhile (\<lambda>c. c \<noteq> sep) s of [] \<Rightarrow> None | _ # r \<Rightarrow> Some (takeWhile (\<lambda>c. c \<noteq> sep) s, r))"

text \<open>Errors at startup end the server; they are texts.\<close>

fun load_retired :: "crypto \<Rightarrow> (mnemo_error \<Rightarrow> string) \<Rightarrow> string list \<Rightarrow> envelope_encryptor \<Rightarrow> string + envelope_encryptor" where
  "load_retired cr show_error [] enc = Inr enc"
| "load_retired cr show_error (x # xs) enc =
     (let entry = trim x in
      if entry = [] then load_retired cr show_error xs enc
      else
        (case split_first CHR '':'' entry of
           None \<Rightarrow> Inl (''Invalid retired key format: expected '' @ [CHR 0x27] @ ''key_id:base64_key'' @ [CHR 0x27] @ '', got '' @
             [CHR 0x27] @ entry @ [CHR 0x27])
         | Some (i, key_b64) \<Rightarrow>
           (case add_retired_key cr key_b64 i enc of
              Inl e \<Rightarrow> Inl (show_error e)
            | Inr enc' \<Rightarrow> load_retired cr show_error xs enc')))"

definition load_encryptor :: "crypto \<Rightarrow> (mnemo_error \<Rightarrow> string) \<Rightarrow> encryption_section \<Rightarrow> string + envelope_encryptor option" where
  "load_encryptor cr show_error c =
     (if \<not> es_enabled c then Inr None
      else if es_master_key c = [] then Inl ''MNEMO_ENCRYPTION_ENABLED=true but MNEMO_ENCRYPTION_MASTER_KEY is not set''
      else
        (case encryptor_from_base64 cr (es_master_key c) (es_key_id c) of
           Inl e \<Rightarrow> Inl (show_error e)
         | Inr enc \<Rightarrow>
           if es_retired_keys c = [] then Inr (Some enc)
           else
             (case load_retired cr show_error (split_at_char CHR '','' [] (es_retired_keys c)) enc of
                Inl e \<Rightarrow> Inl e
              | Inr enc' \<Rightarrow> Inr (Some enc'))))"

section \<open>Reading back\<close>

text \<open>What is assumed of the primitives: opening undoes sealing, decoding undoes encoding, a text that was valid stays so, and
  an object of flags and texts is parsed as it was printed.\<close>

definition crypto_ok :: "crypto \<Rightarrow> bool" where
  "crypto_ok cr \<longleftrightarrow>
     (\<forall>k n p c. cr_seal cr k n p = Some c \<longrightarrow> cr_open cr k n c = Some p) \<and>
     (\<forall>b. cr_decode cr (cr_encode cr b) = Inr b) \<and>
     (\<forall>e. cr_parse cr (cr_print cr (envelope_json e)) = Inr (envelope_json e)) \<and>
     (\<forall>j. cr_utf8 cr (cr_print cr j) = None)"

definition random_ok :: "seal_random \<Rightarrow> bool" where
  "random_ok rnd \<longleftrightarrow> length (sr_dek rnd) = 32 \<and> length (sr_data_nonce rnd) = 12 \<and> length (sr_kek_nonce rnd) = 12"

text \<open>Authenticated encryption adds a tag, so nothing is sealed to the empty text.\<close>

definition seals_longer :: "crypto \<Rightarrow> bool" where
  "seals_longer cr \<longleftrightarrow> (\<forall>k n p c. cr_seal cr k n p = Some c \<longrightarrow> c \<noteq> [])"

lemma envelope_of_envelope_json [simp]: "envelope_of_json (envelope_json e) = Some e"
  by (simp add: envelope_of_json_def envelope_json_def envelope_fields_def envelope_values_def)

lemma encrypt_form:
  assumes "encrypt cr enc rnd p = Inr s"
  obtains kek c w where "get_key (enc_active_key_id enc) enc = Inr kek" "cr_seal cr (sr_dek rnd) (sr_data_nonce rnd) p = Some c"
    "cr_seal cr kek (sr_kek_nonce rnd) (sr_dek rnd) = Some w"
    "s = cr_print cr (envelope_json \<lparr>ee_encrypted = True, ee_key_id = enc_active_key_id enc, ee_algorithm = ''AES-256-GCM'',
       ee_dek_ciphertext = cr_encode cr (sr_kek_nonce rnd @ w), ee_nonce = cr_encode cr (sr_data_nonce rnd),
       ee_ciphertext = cr_encode cr c\<rparr>)"
  using assms by (auto simp: encrypt_def split: sum.splits option.splits)

lemma is_encrypted_envelope: "crypto_ok cr \<Longrightarrow> is_encrypted cr (cr_print cr (envelope_json e)) \<longleftrightarrow> ee_encrypted e"
  by (simp add: is_encrypted_def crypto_ok_def) (simp add: envelope_json_def)

lemma decrypt_encrypt:
  assumes "crypto_ok cr" "seals_longer cr" "random_ok rnd" "encrypt cr enc rnd p = Inr s" "cr_utf8 cr p = None"
    "map_of (enc_keys enc2) (enc_active_key_id enc) = map_of (enc_keys enc) (enc_active_key_id enc)"
  shows "decrypt cr enc2 s = Some (Inr p)"
proof (rule encrypt_form [OF assms(4)])
  fix kek c w
  assume e: "get_key (enc_active_key_id enc) enc = Inr kek" "cr_seal cr (sr_dek rnd) (sr_data_nonce rnd) p = Some c"
    "cr_seal cr kek (sr_kek_nonce rnd) (sr_dek rnd) = Some w"
    "s = cr_print cr (envelope_json \<lparr>ee_encrypted = True, ee_key_id = enc_active_key_id enc, ee_algorithm = ''AES-256-GCM'',
       ee_dek_ciphertext = cr_encode cr (sr_kek_nonce rnd @ w), ee_nonce = cr_encode cr (sr_data_nonce rnd),
       ee_ciphertext = cr_encode cr c\<rparr>)"
  have opened: "cr_open cr (sr_dek rnd) (sr_data_nonce rnd) c = Some p" "cr_open cr kek (sr_kek_nonce rnd) w = Some (sr_dek rnd)"
    using assms(1) e(2,3) by (simp_all add: crypto_ok_def)
  have key: "get_key (enc_active_key_id enc) enc2 = Inr kek"
    using e(1) assms(6) by (auto simp: get_key_def split: option.splits)
  have "w \<noteq> []" using assms(2) e(3) by (auto simp: seals_longer_def)
  then have "unwrap_dek cr kek (sr_kek_nonce rnd @ w) = Inr (sr_dek rnd)"
    using assms(3) opened(2) by (cases w) (simp_all add: unwrap_dek_def random_ok_def)
  moreover have "open_data cr (sr_dek rnd) (sr_data_nonce rnd) c = Some (Inr p)"
    using assms(3,5) opened(1) by (simp add: open_data_def random_ok_def)
  ultimately show ?thesis using assms(1) key
    by (simp add: decrypt_def parse_envelope_def e(4) decode_field_def crypto_ok_def)
qed

lemma set_json_sealed:
  assumes "crypto_ok cr" "sd_encryptor st = Some enc" "set_json cr to_json key v rnd st = (Inr (), st')"
  obtains e where "encrypt cr enc rnd (cr_print cr (to_json v)) = Inr (cr_print cr (envelope_json e))" "ee_encrypted e"
    "st' = st\<lparr>sd_docs := (sd_docs st)(key \<mapsto> envelope_json e)\<rparr>"
proof -
  obtain s where s: "encrypt cr enc rnd (cr_print cr (to_json v)) = Inr s"
    using assms(2,3) by (auto simp: set_json_def maybe_encrypt_def split: sum.splits)
  then obtain e where e: "s = cr_print cr (envelope_json e)" "ee_encrypted e" by (rule encrypt_form) auto
  then show thesis using assms s that [of e] by (simp add: set_json_def maybe_encrypt_def crypto_ok_def)
qed

lemma sealed_reads_back:
  assumes "crypto_ok cr" "seals_longer cr" "random_ok rnd" "sd_encryptor st = Some enc"
    and "set_json cr to_json key v rnd st = (Inr (), st')" and "sd_docs later key = sd_docs st' key" and "sd_encryptor later = Some encl"
    and "map_of (enc_keys encl) (enc_active_key_id enc) = map_of (enc_keys enc) (enc_active_key_id enc)"
    and "cr_parse cr (cr_print cr (to_json v)) = Inr (to_json v)" and "from_json (to_json v) = Inr v"
  shows "get_json cr from_json key later = Some (Inr (Some v))"
proof (rule set_json_sealed [OF assms(1,4,5)])
  fix e assume e: "encrypt cr enc rnd (cr_print cr (to_json v)) = Inr (cr_print cr (envelope_json e))" "ee_encrypted e"
    "st' = st\<lparr>sd_docs := (sd_docs st)(key \<mapsto> envelope_json e)\<rparr>"
  have "cr_utf8 cr (cr_print cr (to_json v)) = None" using assms(1) by (simp add: crypto_ok_def)
  then have "decrypt cr encl (cr_print cr (envelope_json e)) = Some (Inr (cr_print cr (to_json v)))"
    by (rule decrypt_encrypt [OF assms(1-3) e(1) _ assms(8)])
  then show ?thesis using assms(1,6,7,9,10) e(2,3)
    by (simp add: get_json_def Let_def is_encrypted_envelope read_text_def)
qed

section \<open>Rotation\<close>

lemma load_retired_keeps:
  "load_retired cr sh xs enc = Inr enc' \<Longrightarrow>
   (\<forall>x \<in> set xs. \<forall>j kb. split_first CHR '':'' (trim x) = Some (j, kb) \<longrightarrow> j \<noteq> i) \<Longrightarrow>
   map_of (enc_keys enc') i = map_of (enc_keys enc) i \<and> enc_active_key_id enc' = enc_active_key_id enc"
proof (induction cr sh xs enc rule: load_retired.induct)
  case (2 cr sh x xs enc)
  show ?case
  proof (cases "trim x = []")
    case True
    then show ?thesis using 2 by (simp add: Let_def)
  next
    case False
    then obtain j kb enc1 where x: "split_first CHR '':'' (trim x) = Some (j, kb)" "add_retired_key cr kb j enc = Inr enc1"
        "load_retired cr sh xs enc1 = Inr enc'"
      using 2(3) by (auto simp: Let_def split: option.splits sum.splits prod.splits)
    then have "j \<noteq> i" using 2(4) by simp
    then have "map_of (enc_keys enc1) i = map_of (enc_keys enc) i \<and> enc_active_key_id enc1 = enc_active_key_id enc"
      using x(2) by (auto simp: add_retired_key_def map_of_bt_insert split: sum.splits)
    then show ?thesis using 2(2) [OF refl False x(1) refl x(2,3)] 2(4) by auto
  qed
qed simp

lemma split_at_char_append:
  "sep \<notin> set t \<Longrightarrow> split_at_char sep acc (t @ sep # s) = (rev acc @ t) # split_at_char sep [] s"
  "sep \<notin> set t \<Longrightarrow> split_at_char sep acc t = [rev acc @ t]"
  by (induction t arbitrary: acc) auto

lemma split_first_append: "sep \<notin> set a \<Longrightarrow> split_first sep (a @ sep # b) = Some (a, b)"
proof -
  assume a: "sep \<notin> set a"
  then have "dropWhile (\<lambda>c. c \<noteq> sep) (a @ sep # b) = sep # b" "takeWhile (\<lambda>c. c \<noteq> sep) (a @ sep # b) = a"
    by (induction a) auto
  then show ?thesis by (simp add: split_first_def)
qed

lemma trim_ends:
  assumes "s \<noteq> []" "\<not> is_space (hd s)" "\<not> is_space (last s)"
  shows "trim s = s"
proof -
  have "dropWhile is_space s = s" "dropWhile is_space (rev s) = rev s" using assms by (simp_all add: dropWhile_eq_self_iff hd_rev)
  then show ?thesis by (simp add: trim_def)
qed

text \<open>The configuration before a rotation and the one after it, which lists the old key as retired.\<close>

definition rotates :: "encryption_section \<Rightarrow> encryption_section \<Rightarrow> bool" where
  "rotates c c' \<longleftrightarrow> es_retired_keys c = [] \<and> es_retired_keys c' = es_key_id c @ CHR '':'' # es_master_key c \<and>
     es_key_id c \<noteq> [] \<and> CHR '':'' \<notin> set (es_key_id c) \<and> CHR '','' \<notin> set (es_key_id c @ es_master_key c) \<and>
     \<not> is_space (hd (es_key_id c)) \<and> es_master_key c \<noteq> [] \<and> \<not> is_space (last (es_master_key c))"

lemma rotates_keys:
  assumes "rotates c c'" "load_encryptor cr sh c = Inr (Some enc)" "load_encryptor cr sh c' = Inr (Some enc')"
  shows "map_of (enc_keys enc') (enc_active_key_id enc) = map_of (enc_keys enc) (enc_active_key_id enc)"
proof -
  obtain kek where kek: "decode_key cr (es_master_key c) = Inr kek" "enc = encryptor_new kek (es_key_id c)"
    using assms(1,2) by (auto simp: load_encryptor_def rotates_def encryptor_from_base64_def split: if_splits sum.splits)
  let ?entry = "es_key_id c @ CHR '':'' # es_master_key c"
  have entry: "split_at_char CHR '','' [] ?entry = [?entry]" "trim ?entry = ?entry" "split_first CHR '':'' ?entry = Some (es_key_id c, es_master_key c)"
    using assms(1) by (simp_all add: rotates_def split_at_char_append trim_ends split_first_append)
  have r: "es_retired_keys c' = ?entry" "?entry \<noteq> []" using assms(1) by (simp_all add: rotates_def)
  obtain enc2 where "load_retired cr sh [?entry] enc2 = Inr enc'"
    using assms(3) r unfolding load_encryptor_def r(1) entry(1) by (auto split: if_splits sum.splits)
  then have "map_of (enc_keys enc') (es_key_id c) = Some kek"
    using kek(1) r(2) by (auto simp: Let_def entry(2,3) add_retired_key_def map_of_bt_insert split: sum.splits)
  then show ?thesis by (simp add: kek(2) encryptor_new_def)
qed

section \<open>Properties\<close>

text \<open>C36: A document stored encrypted is read back unchanged, also after the key was rotated and the server restarted with the
  old key listed as retired, and whatever other documents were written in between; a server without keys answers an error
  instead of the envelope.\<close>

theorem documents_survive_rotation:
  assumes "crypto_ok cr" and "seals_longer cr" and "random_ok rnd"
    and "load_encryptor cr sh c = Inr (Some enc)" and "load_encryptor cr sh c' = Inr (Some enc')" and "rotates c c'"
    and "set_json cr to_json key v rnd \<lparr>sd_docs = docs, sd_encryptor = Some enc\<rparr> = (Inr (), st)"
    and "docs' key = sd_docs st key"
    and "cr_parse cr (cr_print cr (to_json v)) = Inr (to_json v)" and "from_json (to_json v) = Inr v"
  shows "get_json cr from_json key \<lparr>sd_docs = docs', sd_encryptor = Some enc\<rparr> = Some (Inr (Some v)) \<and>
    get_json cr from_json key \<lparr>sd_docs = docs', sd_encryptor = Some enc'\<rparr> = Some (Inr (Some v)) \<and>
    get_json cr from_json key \<lparr>sd_docs = docs', sd_encryptor = None\<rparr> =
      Some (Inl (Internal ''Encrypted data found but no encryptor configured''))"
proof -
  have old: "sd_encryptor \<lparr>sd_docs = docs, sd_encryptor = Some enc\<rparr> = Some enc" by simp
  have readback: "get_json cr from_json key later = Some (Inr (Some v))"
    if "sd_docs later key = sd_docs st key" "sd_encryptor later = Some encl"
      "map_of (enc_keys encl) (enc_active_key_id enc) = map_of (enc_keys enc) (enc_active_key_id enc)" for later encl
    by (rule sealed_reads_back [where to_json = to_json and from_json = from_json and v = v,
          OF assms(1-3) old assms(7) that assms(9,10)])
  have "get_json cr from_json key \<lparr>sd_docs = docs', sd_encryptor = None\<rparr> =
      Some (Inl (Internal ''Encrypted data found but no encryptor configured''))"
    by (rule set_json_sealed [OF assms(1) old assms(7)])
      (use assms(1,8) in \<open>simp add: get_json_def Let_def is_encrypted_envelope\<close>)
  then show ?thesis
    using readback [of "\<lparr>sd_docs = docs', sd_encryptor = Some enc\<rparr>" enc]
      readback [of "\<lparr>sd_docs = docs', sd_encryptor = Some enc'\<rparr>" enc'] rotates_keys [OF assms(6,4,5)] assms(8) by simp
qed

text \<open>Primitives that only mark what they seal, with a printer and parser for envelopes and flags.\<close>

fun plain_print :: "string \<Rightarrow> string" where
  "plain_print [] = ''0''"
| "plain_print (c # cs) = CHR ''1'' # c # plain_print cs"

fun plain_parse :: "string \<Rightarrow> string \<times> string" where
  "plain_parse (x # c # cs) = (if x = CHR ''1'' then (case plain_parse cs of (s, r) \<Rightarrow> (c # s, r)) else ([], c # cs))"
| "plain_parse [x] = ([], [])"
| "plain_parse [] = ([], [])"

lemma plain_parse_print: "plain_parse (plain_print s @ r) = (s, r)"
  by (induction s) (auto, cases r, auto)

definition marking_crypto :: crypto where
  "marking_crypto =
     \<lparr>cr_seal = (\<lambda>_ _ p. Some (CHR ''s'' # p)), cr_open = (\<lambda>_ _ c. Some (tl c)), cr_encode = id, cr_decode = Inr,
      cr_utf8 = (\<lambda>_. None),
      cr_print = (\<lambda>j. case envelope_of_json j of
          Some e \<Rightarrow> (if ee_encrypted e then ''T'' else ''F'') @ plain_print (ee_key_id e) @ plain_print (ee_algorithm e) @
            plain_print (ee_dek_ciphertext e) @ plain_print (ee_nonce e) @ plain_print (ee_ciphertext e)
        | None \<Rightarrow> (if j = JBool True then ''t'' else ''f'')),
      cr_parse = (\<lambda>s. case s of
          [] \<Rightarrow> Inl []
        | c # cs \<Rightarrow>
          if c = CHR ''t'' then Inr (JBool True) else if c = CHR ''f'' then Inr (JBool False)
          else (case plain_parse cs of (k, r1) \<Rightarrow> (case plain_parse r1 of (al, r2) \<Rightarrow> (case plain_parse r2 of (d, r3) \<Rightarrow>
            (case plain_parse r3 of (n, r4) \<Rightarrow> (case plain_parse r4 of (x, _) \<Rightarrow>
              Inr (envelope_json \<lparr>ee_encrypted = (c = CHR ''T''), ee_key_id = k, ee_algorithm = al, ee_dek_ciphertext = d,
                ee_nonce = n, ee_ciphertext = x\<rparr>))))))),
      cr_shape_error = (\<lambda>_. [])\<rparr>"

lemma marking_ok: "crypto_ok marking_crypto" "seals_longer marking_crypto"
proof -
  have "cr_parse marking_crypto (cr_print marking_crypto (envelope_json e)) = Inr (envelope_json e)" for e
    using plain_parse_print [of "ee_ciphertext e" "[]"]
    by (cases e) (auto simp: marking_crypto_def plain_parse_print)
  then show "crypto_ok marking_crypto" by (simp add: crypto_ok_def) (simp add: marking_crypto_def)
qed (simp add: seals_longer_def marking_crypto_def)

definition demo_section :: "string \<Rightarrow> string \<Rightarrow> string \<Rightarrow> encryption_section" where
  "demo_section k i retired = \<lparr>es_enabled = True, es_master_key = k, es_key_id = i, es_retired_keys = retired\<rparr>"

lemma documents_survive_rotation_witness:
  "get_json marking_crypto (\<lambda>j. if j = JBool True then Inr True else Inr False) ''k''
     \<lparr>sd_docs = sd_docs (snd (set_json marking_crypto JBool ''k'' True
          \<lparr>sr_dek = replicate 32 CHR ''d'', sr_data_nonce = replicate 12 CHR ''n'', sr_kek_nonce = replicate 12 CHR ''m''\<rparr>
          \<lparr>sd_docs = (\<lambda>_. None), sd_encryptor = Some (encryptor_new (replicate 32 CHR ''a'') ''k1'')\<rparr>)),
      sd_encryptor = Some \<lparr>enc_keys = bt_insert ''k1'' (replicate 32 CHR ''a'') (bt_insert ''k2'' (replicate 32 CHR ''b'') []),
        enc_active_key_id = ''k2''\<rparr>\<rparr> = Some (Inr (Some True))"
proof -
  let ?rnd = "\<lparr>sr_dek = replicate 32 CHR ''d'', sr_data_nonce = replicate 12 CHR ''n'', sr_kek_nonce = replicate 12 CHR ''m''\<rparr>"
  let ?a = "replicate 32 CHR ''a''" and ?b = "replicate 32 CHR ''b''"
  let ?c = "demo_section ?a ''k1'' []" and ?c' = "demo_section ?b ''k2'' (''k1:'' @ ?a)"
  have sa: "\<not> is_space CHR ''a''" "\<not> is_space CHR ''k''" by (simp_all add: is_space_def less_eq_char_def)
  have rot: "rotates ?c ?c'" by (simp add: rotates_def demo_section_def sa last_replicate)
  have dec: "decode_key marking_crypto ?a = Inr ?a" "decode_key marking_crypto ?b = Inr ?b"
    by (simp_all add: decode_key_def marking_crypto_def)
  have l1: "load_encryptor marking_crypto (\<lambda>_. []) ?c = Inr (Some (encryptor_new ?a ''k1''))"
    by (simp add: load_encryptor_def demo_section_def encryptor_from_base64_def dec)
  have cut: "split_at_char CHR '','' [] (''k1:'' @ ?a) = [''k1:'' @ ?a]" by (simp add: split_at_char_append)
  have "trim (''k1:'' @ ?a) = ''k1:'' @ ?a" by (rule trim_ends) (simp_all add: sa last_replicate)
  moreover have "split_first CHR '':'' (''k1:'' @ ?a) = Some (''k1'', ?a)"
    using split_first_append [of "CHR '':''" "''k1''" ?a] by simp
  ultimately have "load_retired marking_crypto (\<lambda>_. []) [''k1:'' @ ?a] (encryptor_new ?b ''k2'') =
      Inr \<lparr>enc_keys = bt_insert ''k1'' ?a (bt_insert ''k2'' ?b []), enc_active_key_id = ''k2''\<rparr>"
    by (simp add: Let_def add_retired_key_def dec encryptor_new_def del: append_Cons)
  then have l2: "load_encryptor marking_crypto (\<lambda>_. []) ?c' =
      Inr (Some \<lparr>enc_keys = bt_insert ''k1'' ?a (bt_insert ''k2'' ?b []), enc_active_key_id = ''k2''\<rparr>)"
    using cut by (simp add: load_encryptor_def demo_section_def encryptor_from_base64_def dec del: append_Cons)
  let ?st = "\<lparr>sd_docs = (\<lambda>_. None), sd_encryptor = Some (encryptor_new ?a ''k1'')\<rparr>"
  have "case fst (set_json marking_crypto JBool ''k'' True ?rnd ?st) of Inr _ \<Rightarrow> True | Inl _ \<Rightarrow> False" by code_simp
  then have "fst (set_json marking_crypto JBool ''k'' True ?rnd ?st) = Inr ()" by (simp split: sum.splits)
  then have set: "set_json marking_crypto JBool ''k'' True ?rnd ?st = (Inr (), snd (set_json marking_crypto JBool ''k'' True ?rnd ?st))"
    by (metis prod.collapse)
  show ?thesis
    by (rule documents_survive_rotation [OF marking_ok _ l1 l2 rot set, THEN conjunct2, THEN conjunct1])
      (simp_all add: random_ok_def marking_crypto_def envelope_of_json_def)
qed


end
