(* ===== verification/Goals_Narratives.thy ===== *)
theory Goals_Narratives
  imports Sessions Access
begin

text \<open>
  Goal profiles (\<^verbatim>\<open>mnemo-core/src/models/goal.rs\<close>) and narratives (\<^verbatim>\<open>narrative.rs\<close>), their stores in
  \<^verbatim>\<open>mnemo-storage/src/redis_store.rs\<close> and their handlers in \<^verbatim>\<open>mnemo-server/src/routes.rs\<close>. The product of
  two floats, the answer of the language model, the reader of its JSON and the text of a date are parameters. The owner
  \<^verbatim>\<open>global\<close> of a profile is \<open>None\<close>; the texts of identifiers hold no colon, so the names of keys do not clash.
\<close>

section \<open>Goal profiles\<close>

record goal_profile =
  gp_id :: uuid
  gp_name :: string
  gp_description :: string
  gp_user_id :: "uuid option"
  gp_entity_boosts :: "(string \<times> f32) list"
  gp_edge_boosts :: "(string \<times> f32) list"
  gp_temporal_bias :: f32
  gp_recency_window_days :: u32
  gp_boost_keywords :: "string list"
  gp_suppress_keywords :: "string list"
  gp_created_at :: timestamp
  gp_updated_at :: timestamp

definition goal_profile_new :: "uuid \<Rightarrow> timestamp \<Rightarrow> string \<Rightarrow> uuid option \<Rightarrow> goal_profile" where
  "goal_profile_new new_id now name owner =
     \<lparr>gp_id = new_id, gp_name = name, gp_description = [], gp_user_id = owner, gp_entity_boosts = [], gp_edge_boosts = [],
      gp_temporal_bias = Fin 0, gp_recency_window_days = 0, gp_boost_keywords = [], gp_suppress_keywords = [],
      gp_created_at = now, gp_updated_at = now\<rparr>"

definition clamp_temporal_bias :: "goal_profile \<Rightarrow> goal_profile" where
  "clamp_temporal_bias p = p\<lparr>gp_temporal_bias := f32_clamp (Fin (-1)) (Fin 1) (gp_temporal_bias p)\<rparr>"

definition boost_of :: "(string \<times> f32) list \<Rightarrow> string \<Rightarrow> f32" where
  "boost_of m k = (case map_of m k of Some b \<Rightarrow> b | None \<Rightarrow> Fin 1)"

definition entity_boost :: "goal_profile \<Rightarrow> string \<Rightarrow> f32" where
  "entity_boost p = boost_of (gp_entity_boosts p)"

definition edge_boost :: "goal_profile \<Rightarrow> string \<Rightarrow> f32" where
  "edge_boost p = boost_of (gp_edge_boosts p)"

definition matches_boost_keyword :: "goal_profile \<Rightarrow> string \<Rightarrow> bool" where
  "matches_boost_keyword p s \<longleftrightarrow> (\<exists>kw \<in> set (gp_boost_keywords p). str_contains (lowercase s) (lowercase kw))"

definition matches_suppress_keyword :: "goal_profile \<Rightarrow> string \<Rightarrow> bool" where
  "matches_suppress_keyword p s \<longleftrightarrow> (\<exists>kw \<in> set (gp_suppress_keywords p). str_contains (lowercase s) (lowercase kw))"

text \<open>The constants are \<^verbatim>\<open>0.01_f32\<close>, the nearest float to one hundredth, and \<^verbatim>\<open>10.0\<close>.\<close>

definition f32_hundredth :: f32 where
  "f32_hundredth = Fin (10737418 / 2 ^ 30)"

definition compute_relevance_adjustment ::
  "(f32 \<Rightarrow> f32 \<Rightarrow> f32) \<Rightarrow> goal_profile \<Rightarrow> string option \<Rightarrow> string option \<Rightarrow> string \<Rightarrow> f32" where
  "compute_relevance_adjustment mul p category edge_label s =
     (let m0 = Fin 1;
          m1 = (case category of Some c \<Rightarrow> mul m0 (entity_boost p c) | None \<Rightarrow> m0);
          m2 = (case edge_label of Some l \<Rightarrow> mul m1 (edge_boost p l) | None \<Rightarrow> m1);
          m3 = (if matches_boost_keyword p s then mul m2 (Fin (3 / 2)) else m2);
          m4 = (if matches_suppress_keyword p s then mul m3 (Fin (1 / 2)) else m3)
      in f32_clamp f32_hundredth (Fin 10) m4)"

record create_goal_request =
  cg_name :: string
  cg_description :: string
  cg_entity_boosts :: "(string \<times> f32) list"
  cg_edge_boosts :: "(string \<times> f32) list"
  cg_temporal_bias :: f32
  cg_recency_window_days :: u32
  cg_boost_keywords :: "string list"
  cg_suppress_keywords :: "string list"

record update_goal_request =
  ug_description :: "string option"
  ug_entity_boosts :: "(string \<times> f32) list option"
  ug_edge_boosts :: "(string \<times> f32) list option"
  ug_temporal_bias :: "f32 option"
  ug_recency_window_days :: "u32 option"
  ug_boost_keywords :: "string list option"
  ug_suppress_keywords :: "string list option"

definition or_else :: "'a option \<Rightarrow> 'a \<Rightarrow> 'a" where
  "or_else o1 d = (case o1 of Some x \<Rightarrow> x | None \<Rightarrow> d)"

definition goal_apply_update :: "timestamp \<Rightarrow> update_goal_request \<Rightarrow> goal_profile \<Rightarrow> goal_profile" where
  "goal_apply_update now up p =
     (clamp_temporal_bias (p\<lparr>gp_description := or_else (ug_description up) (gp_description p),
        gp_entity_boosts := or_else (ug_entity_boosts up) (gp_entity_boosts p),
        gp_edge_boosts := or_else (ug_edge_boosts up) (gp_edge_boosts p),
        gp_temporal_bias := or_else (ug_temporal_bias up) (gp_temporal_bias p),
        gp_recency_window_days := or_else (ug_recency_window_days up) (gp_recency_window_days p),
        gp_boost_keywords := or_else (ug_boost_keywords up) (gp_boost_keywords p),
        gp_suppress_keywords := or_else (ug_suppress_keywords up) (gp_suppress_keywords p)\<rparr>))\<lparr>gp_updated_at := now\<rparr>"

section \<open>The store of profiles\<close>

record goal_store =
  gl_docs :: "(uuid, goal_profile) btree_map"
  gl_owner :: "uuid option \<Rightarrow> uuid zset"
  gl_name :: "uuid option \<times> string \<Rightarrow> uuid option"

definition goal_store_new :: goal_store where
  "goal_store_new = \<lparr>gl_docs = [], gl_owner = (\<lambda>_. []), gl_name = (\<lambda>_. None)\<rparr>"

definition save_goal_profile :: "goal_profile \<Rightarrow> goal_store \<Rightarrow> goal_store" where
  "save_goal_profile p st =
     st\<lparr>gl_docs := bt_insert (gp_id p) p (gl_docs st),
        gl_owner := (gl_owner st)(gp_user_id p :=
          zadd (timestamp_millis (gp_created_at p)) (gp_id p) (gl_owner st (gp_user_id p))),
        gl_name := (gl_name st)((gp_user_id p, gp_name p) \<mapsto> gp_id p)\<rparr>"

definition find_goal :: "uuid \<Rightarrow> goal_store \<Rightarrow> goal_profile option" where
  "find_goal i st = map_of (gl_docs st) i"

definition get_goal_profile_by_name :: "uuid \<Rightarrow> string \<Rightarrow> goal_store \<Rightarrow> goal_profile option" where
  "get_goal_profile_by_name u name st =
     (case Option.bind (gl_name st (Some u, name)) (\<lambda>i. find_goal i st) of
        Some p \<Rightarrow> Some p
      | None \<Rightarrow> Option.bind (gl_name st (None, name)) (\<lambda>i. find_goal i st))"

definition list_goals :: "uuid \<Rightarrow> nat \<Rightarrow> goal_store \<Rightarrow> goal_profile list" where
  "list_goals u limit st =
     (let stop = int (min limit 500) - 1;
          of_owner = (\<lambda>owner. List.map_filter (\<lambda>i. find_goal i st) (zrevrange (gl_owner st owner) stop))
      in take limit (of_owner (Some u) @ of_owner None))"

definition delete_goal :: "uuid \<Rightarrow> goal_store \<Rightarrow> goal_store" where
  "delete_goal i st =
     (case find_goal i st of
        Some p \<Rightarrow> st\<lparr>gl_docs := bt_remove i (gl_docs st),
          gl_owner := (gl_owner st)(gp_user_id p := zrem i (gl_owner st (gp_user_id p))),
          gl_name := (gl_name st)((gp_user_id p, gp_name p) := None)\<rparr>
      | None \<Rightarrow> st\<lparr>gl_docs := bt_remove i (gl_docs st)\<rparr>)"

section \<open>Narratives\<close>

record narrative_chapter =
  nc_period :: string
  nc_summary :: string
  nc_key_changes :: "string list"
  nc_session_ids :: "uuid list"

record user_narrative =
  un_user_id :: uuid
  un_version :: u64
  un_text :: string
  un_chapters :: "narrative_chapter list"
  un_session_count :: u64
  un_created_at :: timestamp
  un_updated_at :: timestamp

definition narrative_new :: "timestamp \<Rightarrow> uuid \<Rightarrow> string \<Rightarrow> narrative_chapter list \<Rightarrow> user_narrative" where
  "narrative_new now u s chapters =
     \<lparr>un_user_id = u, un_version = 1, un_text = s, un_chapters = chapters, un_session_count = 0, un_created_at = now,
      un_updated_at = now\<rparr>"

definition narrative_evolve :: "timestamp \<Rightarrow> string \<Rightarrow> narrative_chapter list \<Rightarrow> u64 \<Rightarrow> user_narrative \<Rightarrow> user_narrative" where
  "narrative_evolve now s chapters sessions_added n =
     \<lparr>un_user_id = un_user_id n, un_version = un_version n + 1, un_text = s, un_chapters = chapters,
      un_session_count = un_session_count n + sessions_added, un_created_at = un_created_at n, un_updated_at = now\<rparr>"

definition narrative_is_empty :: "user_narrative \<Rightarrow> bool" where
  "narrative_is_empty n \<longleftrightarrow> trim (un_text n) = []"

definition total_key_changes :: "user_narrative \<Rightarrow> nat" where
  "total_key_changes n = sum_list (map (\<lambda>c. length (nc_key_changes c)) (un_chapters n))"

definition total_referenced_sessions :: "user_narrative \<Rightarrow> nat" where
  "total_referenced_sessions n = card (\<Union>c \<in> set (un_chapters n). set (nc_session_ids c))"

record session_summary_input =
  si_session_id :: uuid
  si_session_name :: "string option"
  si_summary :: string
  si_created_at :: timestamp

abbreviation lf :: string where "lf \<equiv> [CHR 0x0A]"

definition summary_lines :: "(timestamp \<Rightarrow> string) \<Rightarrow> session_summary_input list \<Rightarrow> string" where
  "summary_lines show_day xs =
     concat (map (\<lambda>(i, s). nat_to_string (i + 1) @ ''. **'' @
         (case si_session_name s of Some n \<Rightarrow> n | None \<Rightarrow> ''Untitled session'') @ ''** ('' @ show_day (si_created_at s) @
         ''): '' @ si_summary s @ lf) (enumerate 0 xs))"

text \<open>The fixed text of the instructions, around the number of chapters, is an argument.\<close>

definition build_narrative_prompt ::
  "(timestamp \<Rightarrow> string) \<Rightarrow> (u32 \<Rightarrow> string) \<Rightarrow> string option \<Rightarrow> session_summary_input list \<Rightarrow> string list \<Rightarrow> u32 \<Rightarrow> string" where
  "build_narrative_prompt show_day instructions previous summaries changes max_chapters =
     (case previous of
        Some prev \<Rightarrow> ''## Previous Narrative'' @ lf @ lf @ prev @ lf @ lf @ ''## New Information Since Last Update'' @ lf @ lf
      | None \<Rightarrow> ''## Task'' @ lf @ lf @ ''Generate a narrative summary of this user'' @ [CHR 0x27] @ ''s history.'' @ lf @ lf) @
     (if summaries = [] then [] else ''### Session Summaries'' @ lf @ lf @ summary_lines show_day summaries @ lf) @
     (if changes = [] then []
      else ''### Key Fact Changes'' @ lf @ lf @ concat (map (\<lambda>c. ''- '' @ c @ lf) changes) @ lf) @
     instructions max_chapters"

record narrative_output =
  no_text :: string
  no_chapters :: "narrative_chapter list"

definition strip_prefix :: "string \<Rightarrow> string \<Rightarrow> string option" where
  "strip_prefix p s = (if is_prefix_of p s then Some (drop (length p) s) else None)"

definition strip_suffix :: "string \<Rightarrow> string \<Rightarrow> string option" where
  "strip_suffix p s = (if is_prefix_of (rev p) (rev s) then Some (take (length s - length p) s) else None)"

fun find_char :: "char \<Rightarrow> string \<Rightarrow> nat option" where
  "find_char c [] = None"
| "find_char c (x # xs) = (if x = c then Some 0 else map_option Suc (find_char c xs))"

definition rfind_char :: "char \<Rightarrow> string \<Rightarrow> nat option" where
  "rfind_char c s = map_option (\<lambda>i. length s - 1 - i) (find_char c (rev s))"

text \<open>\<^verbatim>\<open>&raw[start..=end]\<close> panics when the end is before the start by more than one.\<close>

definition slice_inclusive :: "nat \<Rightarrow> nat \<Rightarrow> string \<Rightarrow> string option" where
  "slice_inclusive a b s = (if a \<le> b + 1 then Some (take (b + 1 - a) (drop a s)) else None)"

definition code_block :: "string \<Rightarrow> string option" where
  "code_block trimmed =
     (let fence = replicate 3 (CHR 0x60); tagged = fence @ ''json'' in
      if is_prefix_of tagged trimmed
      then map_option trim (Option.bind (strip_prefix tagged trimmed) (strip_suffix fence))
      else if is_prefix_of fence trimmed
      then map_option trim (Option.bind (strip_prefix fence trimmed) (strip_suffix fence))
      else None)"

text \<open>The candidate between the first opening and the last closing brace; \<open>None\<close> is a panic.\<close>

definition brace_candidate :: "string \<Rightarrow> string option option" where
  "brace_candidate raw =
     (case (find_char CHR 0x7B raw, rfind_char CHR 0x7D raw) of
        (Some a, Some b) \<Rightarrow> map_option Some (slice_inclusive a b raw)
      | _ \<Rightarrow> Some None)"

definition parse_narrative_output :: "(string \<Rightarrow> narrative_output option) \<Rightarrow> string \<Rightarrow> (string + narrative_output) option" where
  "parse_narrative_output parse raw =
     (let trimmed = trim raw;
          whole = (if trimmed = [] then Inl ''empty or unparseable narrative output''
            else Inr \<lparr>no_text = trimmed, no_chapters = []\<rparr>)
      in case parse raw of
           Some out \<Rightarrow> Some (Inr out)
         | None \<Rightarrow>
           (case Option.bind (code_block trimmed) parse of
              Some out \<Rightarrow> Some (Inr out)
            | None \<Rightarrow>
              (case brace_candidate raw of
                 None \<Rightarrow> None
               | Some cand \<Rightarrow>
                 (case Option.bind cand parse of Some out \<Rightarrow> Some (Inr out) | None \<Rightarrow> Some whole))))"

section \<open>Handlers\<close>

record profile_state =
  pr_sessions :: session_store
  pr_goals :: goal_store
  pr_narratives :: "uuid \<Rightarrow> user_narrative option"

record profile_env =
  pn_parse_uuid :: "string \<Rightarrow> uuid option"
  pn_show_uuid :: "uuid \<Rightarrow> string"

text \<open>\<open>None\<close>: the walk over the users does not end.\<close>

definition with_user ::
  "profile_env \<Rightarrow> caller_context option \<Rightarrow> string \<Rightarrow> profile_state \<Rightarrow> (user \<Rightarrow> (mnemo_error + 'a) option) \<Rightarrow>
   (mnemo_error + 'a) option" where
  "with_user env ext identifier st f =
     (case find_user_with_access (pn_parse_uuid env) (caller_from_extension ext) (trim identifier) (ss_users (pr_sessions st)) of
        None \<Rightarrow> None
      | Some (Inl e) \<Rightarrow> Some (Inl e)
      | Some (Inr u) \<Rightarrow> f u)"

definition list_goal_profiles ::
  "profile_env \<Rightarrow> caller_context option \<Rightarrow> string \<Rightarrow> u32 option \<Rightarrow> profile_state \<Rightarrow> (mnemo_error + goal_profile list) option" where
  "list_goal_profiles env ext identifier lmt st =
     with_user env ext identifier st (\<lambda>u. Some (Inr (list_goals (u_id u) (unat (min (or_else lmt 50) 200)) (pr_goals st))))"

definition create_goal_profile ::
  "profile_env \<Rightarrow> caller_context option \<Rightarrow> string \<Rightarrow> create_goal_request \<Rightarrow> uuid \<Rightarrow> timestamp \<Rightarrow> profile_state \<Rightarrow>
   (mnemo_error + goal_profile \<times> profile_state) option" where
  "create_goal_profile env ext identifier req new_id now st =
     with_user env ext identifier st (\<lambda>u.
       if trim (cg_name req) = [] then Some (Inl (Validation ''goal name is required''))
       else if get_goal_profile_by_name (u_id u) (cg_name req) (pr_goals st) \<noteq> None
       then Some (Inl (Validation (''goal profile '' @ [CHR 0x27] @ cg_name req @ [CHR 0x27] @ '' already exists'')))
       else
         let p = clamp_temporal_bias ((goal_profile_new new_id now (cg_name req) (Some (u_id u)))
               \<lparr>gp_description := cg_description req, gp_entity_boosts := cg_entity_boosts req,
                gp_edge_boosts := cg_edge_boosts req, gp_temporal_bias := cg_temporal_bias req,
                gp_recency_window_days := cg_recency_window_days req, gp_boost_keywords := cg_boost_keywords req,
                gp_suppress_keywords := cg_suppress_keywords req\<rparr>)
         in Some (Inr (p, st\<lparr>pr_goals := save_goal_profile p (pr_goals st)\<rparr>)))"

definition goal_missing :: "profile_env \<Rightarrow> uuid \<Rightarrow> mnemo_error" where
  "goal_missing env i = NotFound ''goal_profile'' (pn_show_uuid env i)"

definition get_goal_profile ::
  "profile_env \<Rightarrow> caller_context option \<Rightarrow> string \<Rightarrow> uuid \<Rightarrow> profile_state \<Rightarrow> (mnemo_error + goal_profile) option" where
  "get_goal_profile env ext identifier i st =
     with_user env ext identifier st (\<lambda>u.
       Some (case find_goal i (pr_goals st) of None \<Rightarrow> Inl (goal_missing env i) | Some p \<Rightarrow> Inr p))"

definition update_goal_profile ::
  "profile_env \<Rightarrow> caller_context option \<Rightarrow> string \<Rightarrow> uuid \<Rightarrow> update_goal_request \<Rightarrow> timestamp \<Rightarrow> profile_state \<Rightarrow>
   (mnemo_error + goal_profile \<times> profile_state) option" where
  "update_goal_profile env ext identifier i up now st =
     with_user env ext identifier st (\<lambda>u.
       Some (case find_goal i (pr_goals st) of
           None \<Rightarrow> Inl (goal_missing env i)
         | Some p \<Rightarrow> let p' = goal_apply_update now up p in Inr (p', st\<lparr>pr_goals := save_goal_profile p' (pr_goals st)\<rparr>)))"

definition delete_goal_profile ::
  "profile_env \<Rightarrow> caller_context option \<Rightarrow> string \<Rightarrow> uuid \<Rightarrow> profile_state \<Rightarrow> (mnemo_error + profile_state) option" where
  "delete_goal_profile env ext identifier i st =
     with_user env ext identifier st (\<lambda>u. Some (Inr (st\<lparr>pr_goals := delete_goal i (pr_goals st)\<rparr>)))"

definition get_narrative ::
  "profile_env \<Rightarrow> caller_context option \<Rightarrow> string \<Rightarrow> profile_state \<Rightarrow> (mnemo_error + user_narrative) option" where
  "get_narrative env ext identifier st =
     with_user env ext identifier st (\<lambda>u.
       Some (case pr_narratives st (u_id u) of
           None \<Rightarrow> Inl (NotFound ''narrative'' (pn_show_uuid env (u_id u))) | Some n \<Rightarrow> Inr n))"

definition delete_narrative ::
  "profile_env \<Rightarrow> caller_context option \<Rightarrow> string \<Rightarrow> profile_state \<Rightarrow> (mnemo_error + profile_state) option" where
  "delete_narrative env ext identifier st =
     with_user env ext identifier st (\<lambda>u. Some (Inr (st\<lparr>pr_narratives := (pr_narratives st)(u_id u := None)\<rparr>)))"

record refresh_request =
  rr_full_rebuild :: bool
  rr_max_chapters :: u32

text \<open>The language model maps a prompt to its answer or an error; the server may have none.\<close>

record narrative_env =
  ne_show_day :: "timestamp \<Rightarrow> string"
  ne_instructions :: "u32 \<Rightarrow> string"
  ne_llm :: "(string \<Rightarrow> mnemo_error + string) option"
  ne_parse :: "string \<Rightarrow> narrative_output option"
  ne_now :: timestamp

definition em_dash_text :: string where
  "em_dash_text = [CHR 0xE2, CHR 0x80, CHR 0x94]"

definition session_summaries :: "session list \<Rightarrow> session_summary_input list" where
  "session_summaries xs = List.map_filter (\<lambda>s. map_option (\<lambda>t.
     \<lparr>si_session_id = s_id s, si_session_name = s_name s, si_summary = t, si_created_at = s_created_at s\<rparr>) (s_summary s)) xs"

definition next_narrative ::
  "timestamp \<Rightarrow> uuid \<Rightarrow> user_narrative option \<Rightarrow> narrative_output \<Rightarrow> u64 \<Rightarrow> user_narrative" where
  "next_narrative now u existing out n =
     (case existing of
        Some e \<Rightarrow> narrative_evolve now (no_text out) (no_chapters out) n e
      | None \<Rightarrow> (narrative_new now u (no_text out) (no_chapters out))\<lparr>un_session_count := n\<rparr>)"

definition refresh_narrative ::
  "profile_env \<Rightarrow> narrative_env \<Rightarrow> caller_context option \<Rightarrow> string \<Rightarrow> refresh_request \<Rightarrow> profile_state \<Rightarrow>
   (mnemo_error + user_narrative \<times> profile_state) option" where
  "refresh_narrative env ne ext identifier req st =
     with_user env ext identifier st (\<lambda>u.
       let existing = (if rr_full_rebuild req then None else pr_narratives st (u_id u));
           summaries = session_summaries (list_sessions (u_id u) (pr_sessions st) 500 None)
       in if summaries = [] \<and> existing = None
          then Some (Inl (Validation (''no sessions with summaries found '' @ em_dash_text @ '' cannot generate narrative'')))
          else
            (case ne_llm ne of
               None \<Rightarrow> Some (Inl (Validation ''LLM provider not configured''))
             | Some llm \<Rightarrow>
               (case llm (build_narrative_prompt (ne_show_day ne) (ne_instructions ne) (map_option un_text existing) summaries []
                   (rr_max_chapters req)) of
                  Inl e \<Rightarrow> Some (Inl e)
                | Inr raw \<Rightarrow>
                  (case parse_narrative_output (ne_parse ne) raw of
                     None \<Rightarrow> None
                   | Some (Inl e) \<Rightarrow> Some (Inl (Validation (''failed to parse narrative LLM output: '' @ e)))
                   | Some (Inr out) \<Rightarrow>
                     let n = next_narrative (ne_now ne) (u_id u) existing out (of_nat (length summaries))
                     in Some (Inr (n, st\<lparr>pr_narratives := (pr_narratives st)(u_id u \<mapsto> n)\<rparr>))))))"

section \<open>Properties\<close>

lemma with_user_found:
  "find_user_with_access (pn_parse_uuid env) (caller_from_extension ext) (trim identifier) (ss_users (pr_sessions st)) = Some (Inr u) \<Longrightarrow>
   with_user env ext identifier st f = f u"
  by (simp add: with_user_def)

lemma find_goal_simps [simp]:
  "find_goal j (save_goal_profile p st) = (if j = gp_id p then Some p else find_goal j st)"
  "find_goal j (delete_goal i st) = (if j = i then None else find_goal j st)"
  by (auto simp: find_goal_def save_goal_profile_def delete_goal_def map_of_bt_insert map_of_bt_remove split: option.splits)

lemma goal_apply_update_id [simp]: "gp_id (goal_apply_update now up p) = gp_id p" "gp_user_id (goal_apply_update now up p) = gp_user_id p"
  by (simp_all add: goal_apply_update_def clamp_temporal_bias_def)

definition demo_user :: user where
  "demo_user = \<lparr>u_id = 1, u_external_id = None, u_name = ''Ann'', u_email = None, u_metadata = JNull, u_created_at = 0,
     u_updated_at = 0\<rparr>"

text \<open>C37: Any caller with access to some user reads, changes and deletes every goal profile by its identifier, also one that
  belongs to another user to whom the caller has no access: the handlers look only at the user in the path.\<close>

theorem goal_owner_not_checked:
  assumes "find_user_with_access (pn_parse_uuid env) (caller_from_extension ext) (trim identifier) (ss_users (pr_sessions st)) = Some (Inr u)"
    and "find_goal i (pr_goals st) = Some p" and "gp_id p = i" and "gp_user_id p = Some w"
    and "require_user_access (caller_from_extension ext) w \<noteq> Inr ()"
  shows "get_goal_profile env ext identifier i st = Some (Inr p) \<and>
    (\<exists>p' st'. update_goal_profile env ext identifier i up now st = Some (Inr (p', st')) \<and>
       gp_suppress_keywords p' = or_else (ug_suppress_keywords up) (gp_suppress_keywords p) \<and>
       gp_user_id p' = Some w \<and> find_goal i (pr_goals st') = Some p') \<and>
    (\<exists>st'. delete_goal_profile env ext identifier i st = Some (Inr st') \<and> find_goal i (pr_goals st') = None)"
proof (intro conjI)
  let ?p = "goal_apply_update now up p"
  have "update_goal_profile env ext identifier i up now st = Some (Inr (?p, st\<lparr>pr_goals := save_goal_profile ?p (pr_goals st)\<rparr>))"
    using assms(2) by (simp add: update_goal_profile_def with_user_found [OF assms(1)] Let_def)
  then show "\<exists>p' st'. update_goal_profile env ext identifier i up now st = Some (Inr (p', st')) \<and>
       gp_suppress_keywords p' = or_else (ug_suppress_keywords up) (gp_suppress_keywords p) \<and>
       gp_user_id p' = Some w \<and> find_goal i (pr_goals st') = Some p'"
    using assms(3,4)
    by (intro exI [of _ ?p] exI [of _ "st\<lparr>pr_goals := save_goal_profile ?p (pr_goals st)\<rparr>"]) (auto simp: goal_apply_update_def clamp_temporal_bias_def)
qed (use assms(2-4) in \<open>simp_all add: get_goal_profile_def delete_goal_profile_def with_user_found [OF assms(1)]\<close>)

lemma goal_owner_not_checked_witness:
  "get_goal_profile \<lparr>pn_parse_uuid = (\<lambda>_. Some 1), pn_show_uuid = (\<lambda>_. [])\<rparr>
     (Some \<lparr>key_id = 4, key_name = ''k'', caller_role = RoleRead,
        caller_scope = Some \<lparr>allowed_user_ids = Some [1], allowed_agent_ids = None, scope_max_classification = None\<rparr>\<rparr>) ''1'' 7
     \<lparr>pr_sessions = session_store_new (user_store_new\<lparr>us_users := [(1, demo_user)]\<rparr>),
      pr_goals = save_goal_profile (goal_profile_new 7 0 ''g'' (Some 2)) goal_store_new, pr_narratives = (\<lambda>_. None)\<rparr> =
   Some (Inr (goal_profile_new 7 0 ''g'' (Some 2)))"
proof -
  let ?env = "\<lparr>pn_parse_uuid = (\<lambda>_. Some 1), pn_show_uuid = (\<lambda>_. [])\<rparr>"
  let ?ext = "Some \<lparr>key_id = 4, key_name = ''k'', caller_role = RoleRead,
        caller_scope = Some \<lparr>allowed_user_ids = Some [1], allowed_agent_ids = None, scope_max_classification = None\<rparr>\<rparr>"
  let ?st = "\<lparr>pr_sessions = session_store_new (user_store_new\<lparr>us_users := [(1, demo_user)]\<rparr>),
      pr_goals = save_goal_profile (goal_profile_new 7 0 ''g'' (Some 2)) goal_store_new, pr_narratives = (\<lambda>_. None)\<rparr>"
  have "find_user_with_access (pn_parse_uuid ?env) (caller_from_extension ?ext) (trim ''1'') (ss_users (pr_sessions ?st)) =
      Some (Inr demo_user)"
    by (simp add: find_user_with_access_def find_user_by_identifier_def get_user_def session_store_new_def demo_user_def
        caller_from_extension_def require_user_access_def allows_user_def)
  then show ?thesis
    by (rule goal_owner_not_checked [where w = 2, THEN conjunct1])
      (simp_all add: goal_profile_new_def caller_from_extension_def require_user_access_def allows_user_def)
qed

text \<open>Refreshes one after the other, as long as they succeed.\<close>

fun refresh_all ::
  "profile_env \<Rightarrow> caller_context option \<Rightarrow> string \<Rightarrow> (narrative_env \<times> refresh_request) list \<Rightarrow> profile_state \<Rightarrow> profile_state option" where
  "refresh_all env ext identifier [] st = Some st"
| "refresh_all env ext identifier ((ne, req) # xs) st =
     (case refresh_narrative env ne ext identifier req st of
        Some (Inr (_, st')) \<Rightarrow> refresh_all env ext identifier xs st'
      | _ \<Rightarrow> None)"

lemma refresh_step:
  assumes "find_user_with_access (pn_parse_uuid env) (caller_from_extension ext) (trim identifier) (ss_users (pr_sessions st)) = Some (Inr u)"
    and "refresh_narrative env ne ext identifier req st = Some (Inr (n, st'))" and "\<not> rr_full_rebuild req"
  shows "pr_sessions st' = pr_sessions st" "pr_narratives st' = (pr_narratives st)(u_id u \<mapsto> n)"
    "\<exists>out. n = next_narrative (ne_now ne) (u_id u) (pr_narratives st (u_id u)) out
       (of_nat (length (session_summaries (list_sessions (u_id u) (pr_sessions st) 500 None))))"
  using assms(2,3) unfolding refresh_narrative_def with_user_found [OF assms(1)]
  by (auto simp: Let_def split: if_splits option.splits sum.splits)

lemma refresh_all_counts:
  assumes "find_user_with_access (pn_parse_uuid env) (caller_from_extension ext) (trim identifier) (ss_users (pr_sessions st)) = Some (Inr u)"
    and "refresh_all env ext identifier xs st = Some st'" and "\<forall>x \<in> set xs. \<not> rr_full_rebuild (snd x)"
    and "pr_narratives st (u_id u) = Some n"
  shows "\<exists>n'. pr_narratives st' (u_id u) = Some n' \<and> un_version n' = un_version n + of_nat (length xs) \<and>
    un_created_at n' = un_created_at n \<and> un_session_count n' = un_session_count n +
      of_nat (length xs * length (session_summaries (list_sessions (u_id u) (pr_sessions st) 500 None)))"
  using assms
proof (induction xs arbitrary: st n)
  case (Cons x xs)
  obtain ne req where x: "x = (ne, req)" by (cases x)
  obtain n1 st1 where one: "refresh_narrative env ne ext identifier req st = Some (Inr (n1, st1))"
      "refresh_all env ext identifier xs st1 = Some st'"
    using Cons.prems(2) by (auto simp: x split: option.splits sum.splits prod.splits)
  have "\<not> rr_full_rebuild req" using Cons.prems(3) by (simp add: x)
  note s = refresh_step [OF Cons.prems(1) one(1) this]
  have n1: "un_version n1 = un_version n + 1" "un_created_at n1 = un_created_at n" "un_session_count n1 = un_session_count n +
      of_nat (length (session_summaries (list_sessions (u_id u) (pr_sessions st) 500 None)))"
    using s(3) Cons.prems(4) by (auto simp: next_narrative_def narrative_evolve_def)
  have "\<exists>n'. pr_narratives st' (u_id u) = Some n' \<and> un_version n' = un_version n1 + of_nat (length xs) \<and>
    un_created_at n' = un_created_at n1 \<and> un_session_count n' = un_session_count n1 +
      of_nat (length xs * length (session_summaries (list_sessions (u_id u) (pr_sessions st) 500 None)))"
    using Cons.IH [of st1 n1] Cons.prems(1,3) one(2) s(1,2) by simp
  then show ?case by (auto simp: n1 algebra_simps)
qed simp

text \<open>Refreshing a narrative again and again, with no new session, gives the version the number of refreshes and counts the
  same sessions once more at every refresh.\<close>

theorem refreshes_recount_sessions:
  assumes "find_user_with_access (pn_parse_uuid env) (caller_from_extension ext) (trim identifier) (ss_users (pr_sessions st)) = Some (Inr u)"
    and "refresh_all env ext identifier xs st = Some st'" and "xs \<noteq> []" and "\<forall>x \<in> set xs. \<not> rr_full_rebuild (snd x)"
    and "pr_narratives st (u_id u) = None"
  shows "\<exists>n. pr_narratives st' (u_id u) = Some n \<and> un_version n = of_nat (length xs) \<and>
    un_session_count n = of_nat (length xs * length (session_summaries (list_sessions (u_id u) (pr_sessions st) 500 None)))"
proof -
  obtain ne req ys where xs: "xs = (ne, req) # ys" using assms(3) by (cases xs) auto
  obtain n1 st1 where one: "refresh_narrative env ne ext identifier req st = Some (Inr (n1, st1))"
      "refresh_all env ext identifier ys st1 = Some st'"
    using assms(2) by (auto simp: xs split: option.splits sum.splits prod.splits)
  have "\<not> rr_full_rebuild req" using assms(4) by (simp add: xs)
  note s = refresh_step [OF assms(1) one(1) this]
  have n1: "un_version n1 = 1" "un_session_count n1 =
      of_nat (length (session_summaries (list_sessions (u_id u) (pr_sessions st) 500 None)))"
    using s(3) assms(5) by (auto simp: next_narrative_def narrative_new_def)
  have "\<exists>n'. pr_narratives st' (u_id u) = Some n' \<and> un_version n' = un_version n1 + of_nat (length ys) \<and>
    un_created_at n' = un_created_at n1 \<and> un_session_count n' = un_session_count n1 +
      of_nat (length ys * length (session_summaries (list_sessions (u_id u) (pr_sessions st1) 500 None)))"
    by (rule refresh_all_counts) (use assms(1,4) one(2) s(1,2) in \<open>auto simp: xs\<close>)
  then show ?thesis using s(1) n1 by (auto simp: xs algebra_simps)
qed

definition demo_profiles :: profile_state where
  "demo_profiles = \<lparr>pr_sessions = (session_store_new (user_store_new\<lparr>us_users := [(1, demo_user)]\<rparr>))
     \<lparr>ss_sessions := [(9, (session_from_request \<lparr>cs_id = Some 9, cs_user_id = 1, cs_agent_id = None, cs_name = None,
        cs_metadata = JNull\<rparr> 0 5)\<lparr>s_summary := Some ''talk''\<rparr>)], ss_by_user := [(1, [(5, 9)])]\<rparr>,
      pr_goals = goal_store_new, pr_narratives = (\<lambda>_. None)\<rparr>"

lemma refreshes_recount_sessions_witness:
  "\<exists>n. pr_narratives (the (refresh_all \<lparr>pn_parse_uuid = (\<lambda>_. Some 1), pn_show_uuid = (\<lambda>_. [])\<rparr> None ''1'' (replicate 2
     (\<lparr>ne_show_day = (\<lambda>_. []), ne_instructions = (\<lambda>_. []), ne_llm = Some Inr, ne_parse = (\<lambda>s. Some \<lparr>no_text = s, no_chapters = []\<rparr>),
       ne_now = 3\<rparr>, \<lparr>rr_full_rebuild = False, rr_max_chapters = 5\<rparr>)) demo_profiles)) 1 = Some n \<and>
     un_version n = 2 \<and> un_session_count n = 2"
proof -
  let ?env = "\<lparr>pn_parse_uuid = (\<lambda>_. Some 1), pn_show_uuid = (\<lambda>_. [])\<rparr>"
  let ?xs = "replicate 2
     (\<lparr>ne_show_day = (\<lambda>_. []), ne_instructions = (\<lambda>_. []), ne_llm = Some Inr, ne_parse = (\<lambda>s. Some \<lparr>no_text = s, no_chapters = []\<rparr>),
       ne_now = 3\<rparr>, \<lparr>rr_full_rebuild = False, rr_max_chapters = 5\<rparr>)"
  have u: "find_user_with_access (pn_parse_uuid ?env) (caller_from_extension None) (trim ''1'') (ss_users (pr_sessions demo_profiles)) =
      Some (Inr demo_user)"
    by (simp add: demo_profiles_def find_user_with_access_def find_user_by_identifier_def get_user_def session_store_new_def
        demo_user_def caller_from_extension_def require_user_access_def anonymous_def)
  have n: "length (session_summaries (list_sessions (u_id demo_user) (pr_sessions demo_profiles) 500 None)) = 1" by code_simp
  have "case refresh_all ?env None ''1'' ?xs demo_profiles of Some _ \<Rightarrow> True | None \<Rightarrow> False" by code_simp
  then obtain st' where r: "refresh_all ?env None ''1'' ?xs demo_profiles = Some st'" by (auto split: option.splits)
  have "pr_narratives demo_profiles (u_id demo_user) = None" by (simp add: demo_profiles_def)
  from refreshes_recount_sessions [OF u r _ _ this] show ?thesis using r n by (simp add: demo_user_def)
qed


end
