(* ===== verification/Clarifications.thy ===== *)
theory Clarifications
  imports Knowledge_Graph Users "HOL-Library.Multiset"
begin

text \<open>
  Clarification requests (\<^verbatim>\<open>mnemo-core/src/models/clarification.rs\<close>), their store in
  \<^verbatim>\<open>mnemo-storage/src/redis_store.rs\<close> and their handlers in \<^verbatim>\<open>mnemo-server/src/routes.rs\<close>, with the
  listing of belief changes. The severity of a conflict of so many facts, the score of a severity and the order in
  which a hash map is walked are parameters; a clock that is read once for each document is a function of its identifier.
\<close>

section \<open>Requests\<close>

datatype clarification_status = CPending | CResolved | CExpired | CDismissed

record clarification =
  cr_id :: uuid
  cr_user_id :: uuid
  cr_question :: string
  cr_status :: clarification_status
  cr_conflict_edge_ids :: "uuid list"
  cr_source_entity :: string
  cr_label :: string
  cr_conflicting_facts :: "string list"
  cr_severity :: f32
  cr_created_at :: timestamp
  cr_expires_at :: timestamp
  cr_resolved_at :: "timestamp option"
  cr_resolution_answer :: "string option"
  cr_winning_edge_id :: "uuid option"
  cr_resolution_episode_id :: "uuid option"

definition default_clarification_ttl_days :: nat where
  "default_clarification_ttl_days = 7"

definition clarification_new ::
  "uuid \<Rightarrow> timestamp \<Rightarrow> uuid \<Rightarrow> string \<Rightarrow> uuid list \<Rightarrow> string \<Rightarrow> string \<Rightarrow> string list \<Rightarrow> f32 \<Rightarrow> nat \<Rightarrow> clarification" where
  "clarification_new new_id now u question ids source label facts severity ttl_days =
     \<lparr>cr_id = new_id, cr_user_id = u, cr_question = question, cr_status = CPending, cr_conflict_edge_ids = ids,
      cr_source_entity = source, cr_label = label, cr_conflicting_facts = facts,
      cr_severity = f32_clamp (Fin 0) (Fin 1) severity, cr_created_at = now,
      cr_expires_at = now + int ttl_days * ns_per_day, cr_resolved_at = None, cr_resolution_answer = None,
      cr_winning_edge_id = None, cr_resolution_episode_id = None\<rparr>"

definition cr_is_expired :: "timestamp \<Rightarrow> clarification \<Rightarrow> bool" where
  "cr_is_expired now c \<longleftrightarrow> cr_status c = CPending \<and> now > cr_expires_at c"

definition cr_resolve :: "timestamp \<Rightarrow> string \<Rightarrow> uuid option \<Rightarrow> uuid option \<Rightarrow> clarification \<Rightarrow> clarification" where
  "cr_resolve now answer winner episode c =
     c\<lparr>cr_status := CResolved, cr_resolved_at := Some now, cr_resolution_answer := Some answer,
       cr_winning_edge_id := winner, cr_resolution_episode_id := episode\<rparr>"

definition cr_dismiss :: "timestamp \<Rightarrow> clarification \<Rightarrow> clarification" where
  "cr_dismiss now c = c\<lparr>cr_status := CDismissed, cr_resolved_at := Some now\<rparr>"

definition cr_expire :: "clarification \<Rightarrow> clarification" where
  "cr_expire c = c\<lparr>cr_status := CExpired\<rparr>"

record resolve_clarification_request =
  rc_answer :: string
  rc_winning_edge_id :: "uuid option"

record generate_clarifications_request =
  gc_min_severity :: f32
  gc_max_clarifications :: u32

fun join_comma :: "string list \<Rightarrow> string" where
  "join_comma [] = []"
| "join_comma [x] = x"
| "join_comma (x # xs) = x @ '', '' @ join_comma xs"

abbreviation dq :: string where "dq \<equiv> [CHR 0x22]"

definition generate_clarification_question :: "string \<Rightarrow> string \<Rightarrow> string list \<Rightarrow> string" where
  "generate_clarification_question source label facts =
     (let whose = source @ [CHR 0x27] @ ''s '' @ label in
      case facts of
        [] \<Rightarrow> ''Can you clarify the current status of '' @ whose @ ''?''
      | [a, b] \<Rightarrow> ''We have conflicting information about '' @ whose @ ''. Is it '' @ dq @ a @ dq @ '' or '' @ dq @ b @ dq @ ''?''
      | _ \<Rightarrow> ''We have '' @ nat_to_string (length facts) @ '' conflicting facts about '' @ whose @ '': '' @
          join_comma (map (\<lambda>(i, f). nat_to_string (i + 1) @ ''. '' @ dq @ f @ dq) (enumerate 0 facts)) @
          ''. Which is current?'')"

section \<open>The store\<close>

text \<open>\<^verbatim>\<open>clarification:{id}\<close> and \<^verbatim>\<open>user_clarifications:{user}\<close>.\<close>

record clarification_store =
  cs_docs :: "(uuid, clarification) btree_map"
  cs_by_severity :: "uuid \<Rightarrow> uuid zset"

definition clarification_store_new :: clarification_store where
  "clarification_store_new = \<lparr>cs_docs = [], cs_by_severity = (\<lambda>_. [])\<rparr>"

definition save_clarification :: "(f32 \<Rightarrow> int) \<Rightarrow> clarification \<Rightarrow> clarification_store \<Rightarrow> clarification_store" where
  "save_clarification score_of c st =
     st\<lparr>cs_docs := bt_insert (cr_id c) c (cs_docs st),
        cs_by_severity := (cs_by_severity st)(cr_user_id c :=
          zadd (score_of (cr_severity c)) (cr_id c) (cs_by_severity st (cr_user_id c)))\<rparr>"

definition get_clarification :: "uuid \<Rightarrow> clarification_store \<Rightarrow> clarification option" where
  "get_clarification i st = map_of (cs_docs st) i"

text \<open>The loop of the listing: a pending request past its time is stored as expired when it is met.\<close>

fun list_clarifications_loop ::
  "(uuid \<Rightarrow> timestamp) \<Rightarrow> bool \<Rightarrow> nat \<Rightarrow> uuid list \<Rightarrow> clarification list \<Rightarrow> (uuid, clarification) btree_map \<Rightarrow>
   clarification list \<times> (uuid, clarification) btree_map" where
  "list_clarifications_loop clk pending_only limit [] acc docs = (acc, docs)"
| "list_clarifications_loop clk pending_only limit (i # ids) acc docs =
     (case map_of docs i of
        None \<Rightarrow> list_clarifications_loop clk pending_only limit ids acc docs
      | Some c \<Rightarrow>
        let (c', docs') = (if cr_is_expired (clk i) c then (cr_expire c, bt_insert i (cr_expire c) docs) else (c, docs));
            acc' = (if pending_only \<and> cr_status c' \<noteq> CPending then acc else acc @ [c'])
        in if length acc' \<ge> limit then (acc', docs')
           else list_clarifications_loop clk pending_only limit ids acc' docs')"

definition list_stored_clarifications ::
  "(uuid \<Rightarrow> timestamp) \<Rightarrow> uuid \<Rightarrow> bool \<Rightarrow> nat \<Rightarrow> clarification_store \<Rightarrow> clarification list \<times> clarification_store" where
  "list_stored_clarifications clk u pending_only limit st =
     (let fetch_limit = (if pending_only then limit * 3 else limit);
          ids = zrevrange (cs_by_severity st u) (int (min fetch_limit 1000) - 1);
          (cs, docs) = list_clarifications_loop clk pending_only limit ids [] (cs_docs st)
      in (cs, st\<lparr>cs_docs := docs\<rparr>))"

definition delete_clarification :: "uuid \<Rightarrow> clarification_store \<Rightarrow> clarification_store" where
  "delete_clarification i st =
     (case get_clarification i st of
        Some c \<Rightarrow> st\<lparr>cs_docs := bt_remove i (cs_docs st),
          cs_by_severity := (cs_by_severity st)(cr_user_id c := zrem i (cs_by_severity st (cr_user_id c)))\<rparr>
      | None \<Rightarrow> st\<lparr>cs_docs := bt_remove i (cs_docs st)\<rparr>)"

section \<open>Handlers\<close>

record clarification_state =
  cl_users :: user_store
  cl_graph :: graph_store
  cl_store :: clarification_store

record clarification_env =
  ce_parse_uuid :: "string \<Rightarrow> uuid option"
  ce_show_uuid :: "uuid \<Rightarrow> string"
  ce_score_of :: "f32 \<Rightarrow> int"
  ce_severity :: "nat \<Rightarrow> f32"
  ce_now :: timestamp
  ce_clk :: "uuid \<Rightarrow> timestamp"

text \<open>\<open>None\<close>: the walk over the users does not end.\<close>

definition for_user ::
  "clarification_env \<Rightarrow> caller_context option \<Rightarrow> string \<Rightarrow> clarification_state \<Rightarrow> (user \<Rightarrow> (mnemo_error + 'a) option) \<Rightarrow>
   (mnemo_error + 'a) option" where
  "for_user env ext identifier st f =
     (case find_user_with_access (ce_parse_uuid env) (caller_from_extension ext) (trim identifier) (cl_users st) of
        None \<Rightarrow> None
      | Some (Inl e) \<Rightarrow> Some (Inl e)
      | Some (Inr u) \<Rightarrow> f u)"

definition get_belief_changes ::
  "clarification_env \<Rightarrow> (string \<Rightarrow> belief_change option) \<Rightarrow> caller_context option \<Rightarrow> string \<Rightarrow> belief_changes_query \<Rightarrow>
   clarification_state \<Rightarrow> (mnemo_error + belief_change list) option" where
  "get_belief_changes env de ext identifier q st =
     for_user env ext identifier st (\<lambda>u. Some (Inr (list_belief_changes de (u_id u) q (cl_graph st))))"

definition list_clarifications ::
  "clarification_env \<Rightarrow> caller_context option \<Rightarrow> string \<Rightarrow> bool option \<Rightarrow> u32 option \<Rightarrow> clarification_state \<Rightarrow>
   (mnemo_error + clarification list \<times> clarification_state) option" where
  "list_clarifications env ext identifier everything lmt st =
     for_user env ext identifier st (\<lambda>u.
       let pending_only = \<not> (case everything of Some b \<Rightarrow> b | None \<Rightarrow> False);
           limit = unat (min (case lmt of Some l \<Rightarrow> l | None \<Rightarrow> 50) 200);
           (cs, store) = list_stored_clarifications (ce_clk env) (u_id u) pending_only limit (cl_store st)
       in Some (Inr (cs, st\<lparr>cl_store := store\<rparr>)))"

definition list_all_entities_for_user :: "uuid \<Rightarrow> graph_store \<Rightarrow> entity list option" where
  "list_all_entities_for_user u g = collect_pages (\<lambda>after. list_entities u 500 after g) en_id 50000 None []"

definition all_edges_filter :: edge_filter where
  "all_edges_filter = edge_filter_default\<lparr>ef_include_invalidated := True, ef_limit := 10000\<rparr>"

text \<open>The groups of facts about the same source and label, in the order of their first fact.\<close>

type_synonym conflict_key = "uuid \<times> string"

abbreviation edge_key :: "edge \<Rightarrow> conflict_key" where
  "edge_key e \<equiv> (ed_source e, ed_label e)"

fun push_group :: "edge \<Rightarrow> (conflict_key \<times> edge list) list \<Rightarrow> (conflict_key \<times> edge list) list" where
  "push_group e [] = [(edge_key e, [e])]"
| "push_group e ((k, es) # gs) = (if k = edge_key e then (k, es @ [e]) # gs else (k, es) # push_group e gs)"

definition group_edges :: "edge list \<Rightarrow> (conflict_key \<times> edge list) list" where
  "group_edges es = fold push_group es []"

definition entity_name_of :: "(uuid \<Rightarrow> string) \<Rightarrow> entity list \<Rightarrow> uuid \<Rightarrow> string" where
  "entity_name_of show_uuid es i =
     (case map_of (rev (map (\<lambda>e. (en_id e, en_name e)) es)) i of Some n \<Rightarrow> n | None \<Rightarrow> show_uuid i)"

text \<open>The identifier and the time of the request generated as number \<open>n\<close> are \<open>new n\<close>.\<close>

fun generate_loop ::
  "clarification_env \<Rightarrow> (nat \<Rightarrow> uuid \<times> timestamp) \<Rightarrow> generate_clarifications_request \<Rightarrow> uuid \<Rightarrow> (uuid \<Rightarrow> string) \<Rightarrow>
   (conflict_key \<times> edge list) list \<Rightarrow> nat \<Rightarrow> clarification_store \<Rightarrow> clarification list \<times> clarification_store" where
  "generate_loop env new req u name_of [] n st = ([], st)"
| "generate_loop env new req u name_of (((source, label), grp) # gs) n st =
     (if n \<ge> unat (gc_max_clarifications req) then ([], st)
      else
        let active = filter (is_valid_at (ce_now env)) grp; severity = ce_severity env (length active) in
        if length active \<le> 1 \<or> f32_lt severity (gc_min_severity req)
        then generate_loop env new req u name_of gs n st
        else
          let facts = map ed_fact active; name = name_of source;
              c = clarification_new (fst (new n)) (snd (new n)) u (generate_clarification_question name label facts)
                    (map ed_id active) name label facts severity default_clarification_ttl_days;
              (cs, st') = generate_loop env new req u name_of gs (n + 1) (save_clarification (ce_score_of env) c st)
          in (c # cs, st'))"

definition generate_clarifications ::
  "clarification_env \<Rightarrow> ((conflict_key \<times> edge list) list \<Rightarrow> (conflict_key \<times> edge list) list) \<Rightarrow> (nat \<Rightarrow> uuid \<times> timestamp) \<Rightarrow>
   caller_context option \<Rightarrow> string \<Rightarrow> generate_clarifications_request \<Rightarrow> clarification_state \<Rightarrow>
   (mnemo_error + clarification list \<times> clarification_state) option" where
  "generate_clarifications env order new ext identifier req st =
     for_user env ext identifier st (\<lambda>u.
       case list_all_entities_for_user (u_id u) (cl_graph st) of
         None \<Rightarrow> None
       | Some entities \<Rightarrow>
         let edges = query_edges (u_id u) all_edges_filter (cl_graph st);
             (cs, store) = generate_loop env new req (u_id u) (entity_name_of (ce_show_uuid env) entities)
               (order (group_edges edges)) 0 (cl_store st)
         in Some (Inr (cs, st\<lparr>cl_store := store\<rparr>)))"

fun status_debug :: "clarification_status \<Rightarrow> string" where
  "status_debug CPending = ''Pending''"
| "status_debug CResolved = ''Resolved''"
| "status_debug CExpired = ''Expired''"
| "status_debug CDismissed = ''Dismissed''"

definition invalidate_loser :: "(uuid \<Rightarrow> timestamp) \<Rightarrow> uuid \<Rightarrow> uuid \<Rightarrow> graph_store \<Rightarrow> graph_store" where
  "invalidate_loser clk winner i g =
     (if i = winner then g
      else case get_edge i g of
        Inl _ \<Rightarrow> g
      | Inr loser \<Rightarrow> if is_valid loser then update_edge (invalidate 0 (clk i) loser) g else g)"

definition own_clarification ::
  "clarification_env \<Rightarrow> user \<Rightarrow> uuid \<Rightarrow> clarification_state \<Rightarrow> mnemo_error + clarification" where
  "own_clarification env u i st =
     (case get_clarification i (cl_store st) of
        None \<Rightarrow> Inl (NotFound ''clarification'' (ce_show_uuid env i))
      | Some c \<Rightarrow> if cr_user_id c \<noteq> u_id u then Inl (Validation ''clarification does not belong to this user'') else Inr c)"

definition store_clarification :: "clarification_env \<Rightarrow> clarification \<Rightarrow> clarification_state \<Rightarrow> clarification_state" where
  "store_clarification env c st = st\<lparr>cl_store := save_clarification (ce_score_of env) c (cl_store st)\<rparr>"

definition resolve_clarification ::
  "clarification_env \<Rightarrow> caller_context option \<Rightarrow> string \<Rightarrow> uuid \<Rightarrow> resolve_clarification_request \<Rightarrow> clarification_state \<Rightarrow>
   (mnemo_error + clarification \<times> clarification_state) option" where
  "resolve_clarification env ext identifier i req st =
     for_user env ext identifier st (\<lambda>u.
       if trim (rc_answer req) = [] then Some (Inl (Validation ''answer is required''))
       else
         (case own_clarification env u i st of
            Inl e \<Rightarrow> Some (Inl e)
          | Inr c \<Rightarrow>
            if cr_status c \<noteq> CPending
            then Some (Inl (Validation (''clarification is not pending (status: '' @ status_debug (cr_status c) @ '')'')))
            else
              let g = (case rc_winning_edge_id req of
                    Some w \<Rightarrow> fold (invalidate_loser (ce_clk env) w) (cr_conflict_edge_ids c) (cl_graph st)
                  | None \<Rightarrow> cl_graph st);
                  c' = cr_resolve (ce_now env) (rc_answer req) (rc_winning_edge_id req) None c
              in Some (Inr (c', store_clarification env c' (st\<lparr>cl_graph := g\<rparr>)))))"

definition dismiss_clarification ::
  "clarification_env \<Rightarrow> caller_context option \<Rightarrow> string \<Rightarrow> uuid \<Rightarrow> clarification_state \<Rightarrow>
   (mnemo_error + clarification \<times> clarification_state) option" where
  "dismiss_clarification env ext identifier i st =
     for_user env ext identifier st (\<lambda>u.
       case own_clarification env u i st of
         Inl e \<Rightarrow> Some (Inl e)
       | Inr c \<Rightarrow> let c' = cr_dismiss (ce_now env) c in Some (Inr (c', store_clarification env c' st)))"

section \<open>Lemmas\<close>

lemma for_user_found:
  "find_user_with_access (ce_parse_uuid env) (caller_from_extension ext) (trim identifier) (cl_users st) = Some (Inr u) \<Longrightarrow>
   for_user env ext identifier st f = f u"
  by (simp add: for_user_def)

text \<open>The entities of a user are a source of pages, so the walk over them ends.\<close>

definition user_entities :: "uuid \<Rightarrow> graph_store \<Rightarrow> entity list" where
  "user_entities u g = all_indexed (gs_entities g) (gs_user_entities g u)"

interpretation entity_pages: page_source "\<lambda>(u, g) limit after. list_entities u limit after g" en_id entity_score
  "\<lambda>(u, g). user_entities u g" "\<lambda>(u, g). graph_ok g"
proof
  fix ug :: "uuid \<times> graph_store" and n :: nat and after d e xs ys
  assume inv: "case ug of (u, g) \<Rightarrow> graph_ok g"
  obtain u g where ug: "ug = (u, g)" by (cases ug)
  note ix = graph_okD(1) [of g u]
  note defs = ug list_entities_def user_entities_def prod.case
  have ok: "graph_ok g" using inv ug by simp
  show "0 < n \<Longrightarrow> set ((case ug of (u, g) \<Rightarrow> \<lambda>limit after. list_entities u limit after g) n after) \<subseteq>
      set (case ug of (u, g) \<Rightarrow> user_entities u g)"
    unfolding defs by (rule indexed_page_items [OF ix [OF ok]])
  show "d \<in> set (case ug of (u, g) \<Rightarrow> user_entities u g) \<Longrightarrow>
      e \<in> set ((case ug of (u, g) \<Rightarrow> \<lambda>limit after. list_entities u limit after g) n (Some (en_id d))) \<Longrightarrow>
      entity_score e < entity_score d"
    unfolding defs by (rule indexed_page_below [OF ix [OF ok]])
  show "0 < n \<Longrightarrow> (case ug of (u, g) \<Rightarrow> \<lambda>limit after. list_entities u limit after g) n None =
      take n (case ug of (u, g) \<Rightarrow> user_entities u g)"
    unfolding defs by (rule page_first [OF ix [OF ok]])
  show "distinct (map entity_score (case ug of (u, g) \<Rightarrow> user_entities u g)) \<Longrightarrow>
      (case ug of (u, g) \<Rightarrow> user_entities u g) = xs @ d # ys \<Longrightarrow>
      (case ug of (u, g) \<Rightarrow> \<lambda>limit after. list_entities u limit after g) n (Some (en_id d)) = take n ys"
    unfolding defs by (rule indexed_page_tail [OF ix [OF ok]])
qed

lemma entities_listed: "graph_ok g \<Longrightarrow> \<exists>es. list_all_entities_for_user u g = Some es"
  using entity_pages.collect_total [of "(u, g)" 500] by (simp add: list_all_entities_for_user_def)

text \<open>The groups are the facts of each key, in their order.\<close>

lemma map_of_push_group:
  "map_of (push_group e gs) k =
     (if k = edge_key e then Some ((case map_of gs k of Some es \<Rightarrow> es | None \<Rightarrow> []) @ [e]) else map_of gs k)"
  by (induction e gs rule: push_group.induct) auto

lemma keys_push_group:
  "map fst (push_group e gs) = (if edge_key e \<in> fst ` set gs then map fst gs else map fst gs @ [edge_key e])"
  by (induction e gs rule: push_group.induct) auto

lemma group_edges_snoc: "group_edges (es @ [e]) = push_group e (group_edges es)"
  by (simp add: group_edges_def)

lemma distinct_group_edges: "distinct (map fst (group_edges es))"
proof (induction es rule: rev_induct)
  case (snoc e es) then show ?case by (simp add: group_edges_snoc keys_push_group)
qed (simp add: group_edges_def)

lemma map_of_group_edges:
  "map_of (group_edges es) k = (let f = filter (\<lambda>e. edge_key e = k) es in if f = [] then None else Some f)"
proof (induction es rule: rev_induct)
  case (snoc e es)
  then show ?case by (auto simp: group_edges_snoc map_of_push_group Let_def split: if_splits)
qed (simp add: group_edges_def)

lemma in_group_edges: "(k, grp) \<in> set (group_edges es) \<longleftrightarrow> grp = filter (\<lambda>e. edge_key e = k) es \<and> grp \<noteq> []"
  using map_of_group_edges [of es k] map_of_eq_Some_iff [OF distinct_group_edges, of es k grp]
  by (auto simp: Let_def split: if_splits)

text \<open>A group is asked about if it has two facts that hold now and is severe enough.\<close>

definition asked :: "clarification_env \<Rightarrow> generate_clarifications_request \<Rightarrow> edge list \<Rightarrow> bool" where
  "asked env req grp \<longleftrightarrow> (let n = length (filter (is_valid_at (ce_now env)) grp) in
     2 \<le> n \<and> \<not> f32_lt (ce_severity env n) (gc_min_severity req))"

lemma generate_loop_exact:
  "map cr_conflict_edge_ids (fst (generate_loop env new req u name_of gs n st)) =
     map (\<lambda>(k, grp). map ed_id (filter (is_valid_at (ce_now env)) grp))
       (take (unat (gc_max_clarifications req) - n) (filter (\<lambda>(k, grp). asked env req grp) gs))"
proof (induction env new req u name_of gs n st rule: generate_loop.induct)
  case (2 env new req u name_of source label grp gs n st)
  show ?case
  proof (cases "n \<ge> unat (gc_max_clarifications req)")
    case False
    have take_one: "take (unat (gc_max_clarifications req) - n) (x # xs) = x # take (unat (gc_max_clarifications req) - Suc n) xs"
      for x and xs :: "((uuid \<times> string) \<times> edge list) list"
      using False by (simp add: Suc_diff_Suc flip: take_Suc_Cons)
    show ?thesis
      using 2 [OF False refl refl] False
      by (auto simp: Let_def asked_def take_one clarification_new_def not_less_eq_eq split: prod.splits simp del: take_Suc_Cons)
  qed simp
qed simp

lemma generate_loop_own: "c \<in> set (fst (generate_loop env new req u name_of gs n st)) \<Longrightarrow> cr_user_id c = u \<and> cr_status c = CPending"
  by (induction env new req u name_of gs n st rule: generate_loop.induct)
    (auto simp: Let_def clarification_new_def split: prod.splits if_splits)

text \<open>What becomes of the facts of a conflict when one of them wins.\<close>

definition after_resolution :: "(uuid \<Rightarrow> timestamp) \<Rightarrow> uuid \<Rightarrow> uuid set \<Rightarrow> uuid \<Rightarrow> edge option \<Rightarrow> edge option" where
  "after_resolution clk winner ids i e =
     (if i \<in> ids \<and> i \<noteq> winner then map_option (\<lambda>e. if is_valid e then invalidate 0 (clk i) e else e) e else e)"

lemma after_resolution_valid: "after_resolution clk w A j x = Some e \<Longrightarrow> is_valid e \<Longrightarrow> j \<in> A \<Longrightarrow> j = w"
  by (cases x; cases "j = w") (auto simp: after_resolution_def is_valid_def invalidate_def split: if_split_asm)

lemma invalidate_loser_edges:
  assumes "graph_ok g"
  shows "graph_ok (invalidate_loser clk w i g)"
    "map_of (gs_edges (invalidate_loser clk w i g)) j = after_resolution clk w {i} j (map_of (gs_edges g) j)"
proof -
  have "graph_ok (invalidate_loser clk w i g) \<and>
    map_of (gs_edges (invalidate_loser clk w i g)) j = after_resolution clk w {i} j (map_of (gs_edges g) j)"
  proof (cases "map_of (gs_edges g) i")
    case (Some e)
    have i: "ed_id e = i" by (rule graph_edge_id [OF assms Some])
    have "graph_ok (update_edge (invalidate 0 (clk i) e) g)"
      by (rule graph_ok_update_edge [OF assms]) (use Some i in \<open>simp_all add: invalidate_def\<close>)
    then show ?thesis
      using assms Some i
      by (auto simp: invalidate_loser_def get_edge_def after_resolution_def update_edge_def map_of_bt_insert invalidate_def)
  qed (use assms in \<open>auto simp: invalidate_loser_def get_edge_def after_resolution_def\<close>)
  then show "graph_ok (invalidate_loser clk w i g)"
    "map_of (gs_edges (invalidate_loser clk w i g)) j = after_resolution clk w {i} j (map_of (gs_edges g) j)" by auto
qed

lemma after_resolution_again:
  "after_resolution clk w B i (after_resolution clk w A i e) = after_resolution clk w (A \<union> B) i e"
  by (cases e) (auto simp: after_resolution_def is_valid_def invalidate_def)

lemma resolution_edges:
  assumes "graph_ok g"
  shows "graph_ok (fold (invalidate_loser clk w) ids g) \<and>
    map_of (gs_edges (fold (invalidate_loser clk w) ids g)) j = after_resolution clk w (set ids) j (map_of (gs_edges g) j)"
  using assms
proof (induction ids arbitrary: g)
  case (Cons i ids)
  from Cons.IH [OF invalidate_loser_edges(1) [OF Cons.prems, of clk w i]] show ?case
    by (simp add: invalidate_loser_edges(2) [OF Cons.prems] after_resolution_again)
qed (simp add: after_resolution_def)

section \<open>A sample\<close>

text \<open>A user of whom two facts disagree, and the request about them.\<close>

definition sample_conflict :: graph_store where
  "sample_conflict = snd (create_edge (\<lambda>_. True) (sample_fact\<lparr>ed_id := 11, ed_target := 3\<rparr>) sample_graph)"

definition conflict_state :: clarification_state where
  "conflict_state = \<lparr>cl_users = user_store_new\<lparr>us_users := [(5, \<lparr>u_id = 5, u_external_id = None, u_name = ''Ann'', u_email = None,
       u_metadata = JNull, u_created_at = 0, u_updated_at = 0\<rparr>)]\<rparr>,
     cl_graph = sample_conflict,
     cl_store = save_clarification (\<lambda>_. 0) (clarification_new 7 0 5 ''Bob or Cid?'' [10, 11] ''Ann'' ''knows'' [] (Fin 1) 7)
       clarification_store_new\<rparr>"

definition sample_asking :: clarification_env where
  "sample_asking = \<lparr>ce_parse_uuid = (\<lambda>_. Some 5), ce_show_uuid = (\<lambda>_. []), ce_score_of = (\<lambda>_. 0),
     ce_severity = (\<lambda>_. Fin 1), ce_now = 60, ce_clk = (\<lambda>_. 60)\<rparr>"

lemma conflict_ok: "graph_ok (cl_graph conflict_state)"
  unfolding conflict_state_def sample_conflict_def
  by (simp, rule graph_ok_create_edge [OF sample_graph_ok]) code_simp

lemma conflict_user:
  "find_user_with_access (ce_parse_uuid sample_asking) (caller_from_extension None) (trim ''5'') (cl_users conflict_state) =
   Some (Inr \<lparr>u_id = 5, u_external_id = None, u_name = ''Ann'', u_email = None, u_metadata = JNull, u_created_at = 0,
     u_updated_at = 0\<rparr>)"
  by (simp add: sample_asking_def conflict_state_def find_user_with_access_def find_user_by_identifier_def get_user_def
      caller_from_extension_def require_user_access_def anonymous_def)

section \<open>Properties\<close>

text \<open>On a well-formed graph the generation of clarifications returns, leaves the facts alone and stays within its
  maximum; below the maximum it asks about exactly the groups of facts of one source and label of which at least two hold
  now and which are severe enough, and lists all these facts.\<close>

theorem generation_finds_conflicts:
  assumes "find_user_with_access (ce_parse_uuid env) (caller_from_extension ext) (trim identifier) (cl_users st) = Some (Inr u)"
    and "graph_ok (cl_graph st)" and "mset (order (group_edges (query_edges (u_id u) all_edges_filter (cl_graph st)))) =
      mset (group_edges (query_edges (u_id u) all_edges_filter (cl_graph st)))"
  shows "\<exists>cs st'. generate_clarifications env order new ext identifier req st = Some (Inr (cs, st')) \<and>
    cl_graph st' = cl_graph st \<and> length cs \<le> unat (gc_max_clarifications req) \<and>
    (\<forall>c \<in> set cs. cr_user_id c = u_id u \<and> cr_status c = CPending) \<and>
    (length cs < unat (gc_max_clarifications req) \<longrightarrow> set (map cr_conflict_edge_ids cs) =
      {map ed_id active | active k. active = filter (\<lambda>e. edge_key e = k \<and> is_valid_at (ce_now env) e)
           (query_edges (u_id u) all_edges_filter (cl_graph st)) \<and>
         2 \<le> length active \<and> \<not> f32_lt (ce_severity env (length active)) (gc_min_severity req)})"
proof -
  let ?es = "query_edges (u_id u) all_edges_filter (cl_graph st)" and ?m = "unat (gc_max_clarifications req)"
  obtain ents where ents: "list_all_entities_for_user (u_id u) (cl_graph st) = Some ents"
    using entities_listed [OF assms(2)] by blast
  define run where "run = generate_loop env new req (u_id u) (entity_name_of (ce_show_uuid env) ents)
      (order (group_edges ?es)) 0 (cl_store st)"
  let ?asked = "filter (\<lambda>(k, grp). asked env req grp) (order (group_edges ?es))"
  have ret: "generate_clarifications env order new ext identifier req st =
      Some (Inr (fst run, st\<lparr>cl_store := snd run\<rparr>))"
    by (simp add: generate_clarifications_def for_user_found [OF assms(1)] ents run_def Let_def case_prod_beta)
  have ids: "map cr_conflict_edge_ids (fst run) =
      map (\<lambda>(k, grp). map ed_id (filter (is_valid_at (ce_now env)) grp)) (take ?m ?asked)"
    by (simp add: run_def generate_loop_exact)
  have len: "length (fst run) = min ?m (length ?asked)"
    using arg_cong [OF ids, of length] by (simp add: min.commute)
  have perm: "set (order (group_edges ?es)) = set (group_edges ?es)" using assms(3) mset_eq_setD by blast
  have all: "set (map cr_conflict_edge_ids (fst run)) =
      {map ed_id active | active k. active = filter (\<lambda>e. edge_key e = k \<and> is_valid_at (ce_now env) e) ?es \<and>
         2 \<le> length active \<and> \<not> f32_lt (ce_severity env (length active)) (gc_min_severity req)}" (is "_ = ?R")
    if "length (fst run) < ?m"
  proof -
    have "take ?m ?asked = ?asked" using that len by simp
    then have "set (map cr_conflict_edge_ids (fst run)) =
        {map ed_id (filter (is_valid_at (ce_now env)) grp) | k grp. (k, grp) \<in> set (group_edges ?es) \<and> asked env req grp}"
      unfolding ids by (auto simp: perm image_iff)
    also have "\<dots> = ?R"
    proof (intro set_eqI iffI; clarify)
      fix k grp assume "(k, grp) \<in> set (group_edges ?es)" "asked env req grp"
      then show "\<exists>active ka. map ed_id (filter (is_valid_at (ce_now env)) grp) = map ed_id active \<and>
          active = filter (\<lambda>e. edge_key e = ka \<and> is_valid_at (ce_now env) e) ?es \<and> 2 \<le> length active \<and>
          \<not> f32_lt (ce_severity env (length active)) (gc_min_severity req)"
        by (intro exI [of _ "filter (is_valid_at (ce_now env)) grp"] exI [of _ k])
          (simp add: in_group_edges asked_def Let_def conj_commute)
    next
      fix a b
      let ?f = "filter (\<lambda>e. edge_key e = (a, b) \<and> is_valid_at (ce_now env) e) ?es"
        and ?g = "filter (\<lambda>e. edge_key e = (a, b)) ?es"
      assume "2 \<le> length ?f" "\<not> f32_lt (ce_severity env (length ?f)) (gc_min_severity req)"
      moreover have "?f = filter (is_valid_at (ce_now env)) ?g" by (simp add: conj_commute)
      moreover have "?g \<noteq> []" using calculation(1,3) by (metis filter.simps(1) list.size(3) not_numeral_le_zero)
      ultimately show "\<exists>k grp. map ed_id ?f = map ed_id (filter (is_valid_at (ce_now env)) grp) \<and>
          (k, grp) \<in> set (group_edges ?es) \<and> asked env req grp"
        by (intro exI [of _ "(a, b)"] exI [of _ ?g]) (simp only: in_group_edges asked_def Let_def simp_thms)
    qed
    finally show ?thesis .
  qed
  have own: "\<forall>c \<in> set (fst run). cr_user_id c = u_id u \<and> cr_status c = CPending"
    using generate_loop_own by (auto simp: run_def)
  have "length (fst run) \<le> ?m" by (simp add: len)
  then show ?thesis
    by (intro exI [of _ "fst run"] exI [of _ "st\<lparr>cl_store := snd run\<rparr>"] conjI ret impI all own) simp_all
qed

lemma generation_finds_conflicts_witness:
  "\<exists>cs st'. generate_clarifications sample_asking id (\<lambda>n. (of_nat n + 100, 50)) None ''5''
     \<lparr>gc_min_severity = Fin (1 / 2), gc_max_clarifications = 5\<rparr> conflict_state = Some (Inr (cs, st')) \<and>
     cl_graph st' = sample_conflict \<and> length cs \<le> 5"
  using generation_finds_conflicts [OF conflict_user conflict_ok, where order = id and new = "\<lambda>n. (of_nat n + 100, 50)"
      and req = "\<lparr>gc_min_severity = Fin (1 / 2), gc_max_clarifications = 5\<rparr>"]
  by (auto simp: conflict_state_def)

text \<open>C38: Resolving a pending clarification with a winner, at any time, invalidates exactly the other listed facts that are
  still valid and no other fact, keeps the graph well formed, leaves at most the winner valid among the listed facts, and
  can be done only once.\<close>

theorem resolution_leaves_winner:
  assumes "find_user_with_access (ce_parse_uuid env) (caller_from_extension ext) (trim identifier) (cl_users st) = Some (Inr u)"
    and "graph_ok (cl_graph st)" and "get_clarification i (cl_store st) = Some c" and "cr_id c = i"
    and "cr_user_id c = u_id u" "cr_status c = CPending" and "trim (rc_answer req) \<noteq> []" and "rc_winning_edge_id req = Some w"
  shows "\<exists>c' st'. resolve_clarification env ext identifier i req st = Some (Inr (c', st')) \<and> graph_ok (cl_graph st') \<and>
    (\<forall>j. map_of (gs_edges (cl_graph st')) j =
       after_resolution (ce_clk env) w (set (cr_conflict_edge_ids c)) j (map_of (gs_edges (cl_graph st)) j)) \<and>
    {j \<in> set (cr_conflict_edge_ids c). \<exists>e. map_of (gs_edges (cl_graph st')) j = Some e \<and> is_valid e} \<subseteq> {w} \<and>
    resolve_clarification env ext identifier i req st' =
      Some (Inl (Validation ''clarification is not pending (status: Resolved)''))"
proof -
  define g' where "g' = fold (invalidate_loser (ce_clk env) w) (cr_conflict_edge_ids c) (cl_graph st)"
  define c' where "c' = cr_resolve (ce_now env) (rc_answer req) (Some w) None c"
  define st' where "st' = store_clarification env c' (st\<lparr>cl_graph := g'\<rparr>)"
  have own: "own_clarification env u i st = Inr c" using assms(3,5) by (simp add: own_clarification_def)
  have c': "cr_id c' = i" "cr_user_id c' = u_id u" "cr_status c' = CResolved"
    using assms(4,5) by (simp_all add: c'_def cr_resolve_def)
  have st': "cl_users st' = cl_users st" "cl_graph st' = g'" "get_clarification i (cl_store st') = Some c'"
    by (simp_all add: st'_def store_clarification_def save_clarification_def get_clarification_def c' map_of_bt_insert)
  have own': "own_clarification env u i st' = Inr c'" by (simp add: own_clarification_def st' c')
  have ret: "resolve_clarification env ext identifier i req st = Some (Inr (c', st'))"
    by (simp add: resolve_clarification_def for_user_found [OF assms(1)] assms(6-8) own Let_def c'_def st'_def g'_def)
  have again: "resolve_clarification env ext identifier i req st' =
      Some (Inl (Validation ''clarification is not pending (status: Resolved)''))"
    using assms(1,7) by (simp add: resolve_clarification_def for_user_found [where st = st'] st'(1) own' c'(3))
  have ok: "graph_ok (cl_graph st')" and g: "map_of (gs_edges (cl_graph st')) j =
      after_resolution (ce_clk env) w (set (cr_conflict_edge_ids c)) j (map_of (gs_edges (cl_graph st)) j)" for j
    using resolution_edges [OF assms(2), of "ce_clk env" w "cr_conflict_edge_ids c" j] by (simp_all add: st'(2) g'_def)
  have "{j \<in> set (cr_conflict_edge_ids c). \<exists>e. map_of (gs_edges (cl_graph st')) j = Some e \<and> is_valid e} \<subseteq> {w}"
  proof
    fix j assume "j \<in> {j \<in> set (cr_conflict_edge_ids c). \<exists>e. map_of (gs_edges (cl_graph st')) j = Some e \<and> is_valid e}"
    then obtain e where "j \<in> set (cr_conflict_edge_ids c)" "map_of (gs_edges (cl_graph st')) j = Some e" "is_valid e" by blast
    then show "j \<in> {w}" using after_resolution_valid [of "ce_clk env" w _ j] by (simp add: g)
  qed
  with ret ok g again show ?thesis by blast
qed

lemma resolution_leaves_winner_witness:
  "\<exists>c' st'. resolve_clarification sample_asking None ''5'' 7 \<lparr>rc_answer = ''Bob'', rc_winning_edge_id = Some 10\<rparr> conflict_state =
     Some (Inr (c', st')) \<and> graph_ok (cl_graph st') \<and>
     map_of (gs_edges (cl_graph st')) 11 =
       Some (invalidate 0 60 (sample_fact\<lparr>ed_id := 11, ed_target := 3\<rparr>))"
proof -
  have c: "get_clarification 7 (cl_store conflict_state) =
      Some (clarification_new 7 0 5 ''Bob or Cid?'' [10, 11] ''Ann'' ''knows'' [] (Fin 1) 7)"
    by (simp add: conflict_state_def save_clarification_def get_clarification_def clarification_store_new_def
        clarification_new_def)
  have e: "map_of (gs_edges (cl_graph conflict_state)) 11 = Some (sample_fact\<lparr>ed_id := 11, ed_target := 3\<rparr>)"
    by code_simp
  have v: "is_valid (sample_fact\<lparr>ed_id := 11, ed_target := 3\<rparr>)" by code_simp
  have t: "trim (rc_answer \<lparr>rc_answer = ''Bob'', rc_winning_edge_id = Some (10::uuid)\<rparr>) \<noteq> []" by code_simp
  have clk: "ce_clk sample_asking = (\<lambda>_. 60)" by (simp add: sample_asking_def)
  have new: "cr_id (clarification_new i n u q ids a b fs s d) = i" "cr_user_id (clarification_new i n u q ids a b fs s d) = u"
      "cr_status (clarification_new i n u q ids a b fs s d) = CPending"
      "cr_conflict_edge_ids (clarification_new i n u q ids a b fs s d) = ids" for i n u q ids a b fs s d
    by (simp_all add: clarification_new_def)
  obtain c' st' where r: "resolve_clarification sample_asking None ''5'' 7 \<lparr>rc_answer = ''Bob'', rc_winning_edge_id = Some 10\<rparr>
      conflict_state = Some (Inr (c', st'))" "graph_ok (cl_graph st')"
      "\<forall>j. map_of (gs_edges (cl_graph st')) j =
         after_resolution (\<lambda>_. 60) 10 {10, 11} j (map_of (gs_edges (cl_graph conflict_state)) j)"
    using resolution_leaves_winner [OF conflict_user conflict_ok c _ _ _ t, where w = 10] by (auto simp: new clk)
  show ?thesis
    using r(1,2) spec [OF r(3), of 11] e v by (auto simp: after_resolution_def)
qed

end
