(* ===== verification/Counterfactual.thy ===== *)
theory Counterfactual
  imports Read_Path Sessions "HOL-Library.Multiset"
begin

text \<open>
  Counterfactual contexts (\<^verbatim>\<open>mnemo-core/src/models/counterfactual.rs\<close> and the handler
  \<^verbatim>\<open>counterfactual_context\<close> of \<^verbatim>\<open>mnemo-server/src/routes.rs\<close>): facts retrieved for a query are overridden by
  hypothetical ones. The retrieval engine is an argument, of which the fields of its request that vary are shown; so are
  the readings of the clock.
\<close>

section \<open>Hypothetical facts\<close>

record hypothetical_fact =
  hf_entity :: string
  hf_attribute :: string
  hf_value :: string
  hf_confidence :: f32

record overridden_fact =
  of_original :: fact_summary
  of_replaced_by_index :: nat
  of_hypothetical :: hypothetical_fact

record counterfactual_diff =
  cd_overridden_facts :: "overridden_fact list"
  cd_injected_count :: nat
  cd_novel_hypotheticals :: "hypothetical_fact list"

definition hypothetical_text :: "hypothetical_fact \<Rightarrow> string" where
  "hypothetical_text h = hf_entity h @ '' '' @ hf_attribute h @ '' '' @ hf_value h"

definition about :: "hypothetical_fact \<Rightarrow> fact_summary \<Rightarrow> bool" where
  "about h f \<longleftrightarrow> lowercase (fs_source_entity f) = lowercase (hf_entity h) \<and> lowercase (fs_label f) = lowercase (hf_attribute h)"

definition override_fact :: "hypothetical_fact \<Rightarrow> fact_summary \<Rightarrow> fact_summary" where
  "override_fact h f =
     (if about h f then f\<lparr>fs_fact := hypothetical_text h, fs_relevance := hf_confidence h, fs_invalid_at := None\<rparr> else f)"

definition synthetic_fact :: "timestamp \<Rightarrow> nat \<Rightarrow> hypothetical_fact \<Rightarrow> fact_summary" where
  "synthetic_fact now idx h =
     \<lparr>fs_id = 0xCF000000 + of_nat idx, fs_source_entity = hf_entity h, fs_target_entity = hf_value h, fs_label = hf_attribute h,
      fs_fact = hypothetical_text h, fs_classification = classification_default, fs_valid_at = now, fs_invalid_at = None,
      fs_relevance = hf_confidence h, fs_access_count = 0, fs_last_accessed_at = None, fs_temporal_scope = None\<rparr>"

text \<open>One hypothetical: it overrides the facts about the same entity and attribute, or is added as a fact of its own.\<close>

definition apply_one ::
  "(nat \<Rightarrow> timestamp) \<Rightarrow> nat \<Rightarrow> hypothetical_fact \<Rightarrow> fact_summary list \<times> counterfactual_diff \<Rightarrow>
   fact_summary list \<times> counterfactual_diff" where
  "apply_one clk idx h acc =
     (case acc of (facts, d) \<Rightarrow>
       let hits = filter (about h) facts in
       if hits \<noteq> []
       then (map (override_fact h) facts,
         d\<lparr>cd_overridden_facts := cd_overridden_facts d @
             map (\<lambda>f. \<lparr>of_original = f, of_replaced_by_index = idx, of_hypothetical = h\<rparr>) hits,
           cd_injected_count := cd_injected_count d + length hits\<rparr>)
       else (facts @ [synthetic_fact (clk idx) idx h],
         d\<lparr>cd_novel_hypotheticals := cd_novel_hypotheticals d @ [h], cd_injected_count := cd_injected_count d + 1\<rparr>))"

fun apply_from ::
  "(nat \<Rightarrow> timestamp) \<Rightarrow> nat \<Rightarrow> hypothetical_fact list \<Rightarrow> fact_summary list \<times> counterfactual_diff \<Rightarrow>
   fact_summary list \<times> counterfactual_diff" where
  "apply_from clk idx [] acc = acc"
| "apply_from clk idx (h # hs) acc = apply_from clk (Suc idx) hs (apply_one clk idx h acc)"

text \<open>The stable sort by relevance, the highest first, for relevances that are numbers.\<close>

fun insert_by_relevance :: "fact_summary \<Rightarrow> fact_summary list \<Rightarrow> fact_summary list" where
  "insert_by_relevance x [] = [x]"
| "insert_by_relevance x (y # ys) =
     (if f32_lt (fs_relevance x) (fs_relevance y) then y # insert_by_relevance x ys else x # y # ys)"

definition sort_by_relevance :: "fact_summary list \<Rightarrow> fact_summary list" where
  "sort_by_relevance xs = foldr insert_by_relevance xs []"

definition apply_hypotheticals ::
  "(nat \<Rightarrow> timestamp) \<Rightarrow> fact_summary list \<Rightarrow> hypothetical_fact list \<Rightarrow> fact_summary list \<times> counterfactual_diff" where
  "apply_hypotheticals clk facts hyps =
     (case apply_from clk 0 hyps
         (facts, \<lparr>cd_overridden_facts = [], cd_injected_count = 0, cd_novel_hypotheticals = []\<rparr>) of
       (facts', d) \<Rightarrow> (sort_by_relevance facts', d))"

fun join_lines :: "string list \<Rightarrow> string" where
  "join_lines [] = []"
| "join_lines [x] = x"
| "join_lines (x # xs) = x @ [CHR 0x0A] @ join_lines xs"

definition rebuild_context_string :: "fact_summary list \<Rightarrow> string" where
  "rebuild_context_string facts = join_lines (map (\<lambda>f. ''- '' @ fs_fact f) facts)"

section \<open>The handler\<close>

record counterfactual_request =
  cf_query :: string
  cf_session :: "string option"
  cf_max_tokens :: "u32 option"
  cf_min_relevance :: "f32 option"
  cf_hypotheticals :: "hypothetical_fact list"

record counterfactual_response =
  cfr_context :: string
  cfr_token_count :: u32
  cfr_facts :: "fact_summary list"
  cfr_diff :: counterfactual_diff
  cfr_latency_ms :: u64

record retrieval_query =
  rq_session_id :: "uuid option"
  rq_query :: string
  rq_max_tokens :: u32
  rq_min_relevance :: f32

text \<open>\<open>None\<close>: the walk over the users does not end.\<close>

definition counterfactual_context ::
  "(string \<Rightarrow> uuid option) \<Rightarrow> (uuid \<Rightarrow> retrieval_query \<Rightarrow> mnemo_error + context_block) \<Rightarrow> (nat \<Rightarrow> timestamp) \<Rightarrow> u64 \<Rightarrow>
   caller_context option \<Rightarrow> string \<Rightarrow> counterfactual_request \<Rightarrow> session_store \<Rightarrow>
   (mnemo_error + counterfactual_response) option" where
  "counterfactual_context parse_uuid retrieve clk latency ext identifier req st =
     (if trim (cf_query req) = [] then Some (Inl (Validation ''query is required''))
      else if cf_hypotheticals req = [] then Some (Inl (Validation ''at least one hypothetical is required''))
      else
        (case find_user_with_access parse_uuid (caller_from_extension ext) (trim identifier) (ss_users st) of
           None \<Rightarrow> None
         | Some (Inl e) \<Rightarrow> Some (Inl e)
         | Some (Inr u) \<Rightarrow>
           let session_id = (case cf_session req of
                 Some name \<Rightarrow> map_option s_id (List.find (\<lambda>s. s_name s = Some name) (list_sessions (u_id u) st 100 None))
               | None \<Rightarrow> None);
               max_tokens = max 100 (min 10000 (case cf_max_tokens req of Some m \<Rightarrow> m | None \<Rightarrow> 2000));
               min_relevance = (case cf_min_relevance req of Some r \<Rightarrow> r | None \<Rightarrow> Fin 0)
           in (case retrieve (u_id u) \<lparr>rq_session_id = session_id, rq_query = cf_query req, rq_max_tokens = max_tokens,
                   rq_min_relevance = min_relevance\<rparr> of
                 Inl e \<Rightarrow> Some (Inl e)
               | Inr cb \<Rightarrow>
                 (case apply_hypotheticals clk (cb_facts cb) (cf_hypotheticals req) of (facts, d) \<Rightarrow>
                   let s = rebuild_context_string facts in
                   Some (Inr \<lparr>cfr_context = s, cfr_token_count = of_nat (length s div 4), cfr_facts = facts, cfr_diff = d,
                     cfr_latency_ms = latency\<rparr>)))))"

section \<open>Lemmas\<close>

lemma mset_insert_by_relevance: "mset (insert_by_relevance x ys) = add_mset x (mset ys)"
  by (induction x ys rule: insert_by_relevance.induct) auto

lemma mset_sort_by_relevance: "mset (sort_by_relevance xs) = mset xs"
  by (induction xs) (simp_all add: sort_by_relevance_def mset_insert_by_relevance)

lemma set_sort_by_relevance: "set (sort_by_relevance xs) = set xs"
  by (rule mset_eq_setD [OF mset_sort_by_relevance])

lemma length_sort_by_relevance: "length (sort_by_relevance xs) = length xs"
  by (rule mset_eq_length [OF mset_sort_by_relevance])

text \<open>What a fact that a hypothetical has overridden says.\<close>

definition says :: "hypothetical_fact \<Rightarrow> fact_summary \<Rightarrow> bool" where
  "says h f \<longleftrightarrow> fs_fact f = hypothetical_text h \<and> fs_relevance f = hf_confidence h \<and> fs_invalid_at f = None"

definition same_key :: "hypothetical_fact \<Rightarrow> hypothetical_fact \<Rightarrow> bool" where
  "same_key h h' \<longleftrightarrow> lowercase (hf_entity h) = lowercase (hf_entity h') \<and> lowercase (hf_attribute h) = lowercase (hf_attribute h')"

lemma about_override [simp]: "about h (override_fact h' f) = about h f"
  by (simp add: about_def override_fact_def)

lemma about_synthetic [simp]: "about h (synthetic_fact t i h') \<longleftrightarrow> same_key h' h"
  by (simp add: about_def synthetic_fact_def same_key_def)

lemma apply_one_says:
  "\<exists>f \<in> set (fst (apply_one clk idx h acc)). about h f"
  "f \<in> set (fst (apply_one clk idx h acc)) \<Longrightarrow> about h f \<Longrightarrow> says h f"
proof -
  have [simp]: "same_key h h" by (simp add: same_key_def)
  show "\<exists>f \<in> set (fst (apply_one clk idx h acc)). about h f"
    by (auto simp: apply_one_def Let_def filter_empty_conv split: prod.split)
  show "f \<in> set (fst (apply_one clk idx h acc)) \<Longrightarrow> about h f \<Longrightarrow> says h f"
    by (auto simp: apply_one_def Let_def filter_empty_conv says_def override_fact_def synthetic_fact_def split: prod.splits if_splits)
qed

text \<open>Facts about none of the hypotheticals applied stay what and where they are.\<close>

lemma filter_apply_one:
  assumes "\<And>f. P f \<Longrightarrow> \<not> about h f" and "\<And>f g. fs_source_entity f = fs_source_entity g \<Longrightarrow> fs_label f = fs_label g \<Longrightarrow> P f = P g"
  shows "filter P (fst (apply_one clk idx h acc)) = filter P (fst acc)"
proof -
  have "P (override_fact h f) = P f" for f by (rule assms(2)) (simp_all add: override_fact_def)
  moreover have "P f \<Longrightarrow> override_fact h f = f" for f using assms(1) by (simp add: override_fact_def)
  ultimately have "filter P (map (override_fact h) fs) = filter P fs" for fs by (induction fs) auto
  moreover have "\<not> P (synthetic_fact t i h)" for t i using assms(1) [of "synthetic_fact t i h"] by (auto simp: same_key_def)
  ultimately show ?thesis by (auto simp: apply_one_def Let_def split: prod.split)
qed

lemma filter_apply_from:
  assumes "\<And>h f. h \<in> set hs \<Longrightarrow> P f \<Longrightarrow> \<not> about h f"
    and "\<And>f g. fs_source_entity f = fs_source_entity g \<Longrightarrow> fs_label f = fs_label g \<Longrightarrow> P f = P g"
  shows "filter P (fst (apply_from clk idx hs acc)) = filter P (fst acc)"
  using assms(1)
proof (induction hs arbitrary: idx acc)
  case (Cons h hs)
  have "filter P (fst (apply_one clk idx h acc)) = filter P (fst acc)"
  proof (rule filter_apply_one)
    show "\<not> about h f" if "P f" for f by (rule Cons.prems [OF list.set_intros(1) that])
  qed (rule assms(2))
  moreover have "filter P (fst (apply_from clk (Suc idx) hs (apply_one clk idx h acc))) = filter P (fst (apply_one clk idx h acc))"
    by (rule Cons.IH) (erule (1) Cons.prems [OF list.set_intros(2)])
  ultimately show ?case by simp
qed simp

lemma apply_from_append:
  "apply_from clk idx (xs @ ys) acc = apply_from clk (idx + length xs) ys (apply_from clk idx xs acc)"
  by (induction xs arbitrary: idx acc) simp_all

definition counts_agree :: "nat \<Rightarrow> fact_summary list \<times> counterfactual_diff \<Rightarrow> bool" where
  "counts_agree n acc \<longleftrightarrow> (case acc of (facts, d) \<Rightarrow> length facts = n + length (cd_novel_hypotheticals d) \<and>
     cd_injected_count d = length (cd_overridden_facts d) + length (cd_novel_hypotheticals d))"

lemma apply_one_counts: "counts_agree n acc \<Longrightarrow> counts_agree n (apply_one clk idx h acc)"
  by (cases acc; cases "filter (about h) (fst acc) = []") (simp_all add: apply_one_def counts_agree_def Let_def)

lemma apply_from_counts: "counts_agree n acc \<Longrightarrow> counts_agree n (apply_from clk idx hs acc)"
  by (induction hs arbitrary: idx acc) (simp_all add: apply_one_counts)

section \<open>Properties\<close>


definition sample_hypothetical :: hypothetical_fact where
  "sample_hypothetical = \<lparr>hf_entity = ''A'', hf_attribute = ''likes'', hf_value = ''tea'', hf_confidence = Fin (1 / 2)\<rparr>"


text \<open>C40: Whatever their classification, the retrieved facts about no hypothetical are answered to every caller with access
  to the user: the classification ceiling of the caller, the views and the guardrails of the read path are not applied.\<close>

theorem counterfactual_ignores_ceiling:
  assumes "trim (cf_query req) \<noteq> []" and "cf_hypotheticals req \<noteq> []"
    and "find_user_with_access parse_uuid (caller_from_extension ext) (trim identifier) (ss_users st) = Some (Inr u)"
    and "\<And>q. retrieve (u_id u) q = Inr cb"
  shows "\<exists>r. counterfactual_context parse_uuid retrieve clk latency ext identifier req st = Some (Inr r) \<and>
    {f \<in> set (cb_facts cb). \<not> (\<exists>h \<in> set (cf_hypotheticals req). about h f)} =
    {f \<in> set (cfr_facts r). \<not> (\<exists>h \<in> set (cf_hypotheticals req). about h f)}"
proof -
  let ?P = "\<lambda>f. \<not> (\<exists>h \<in> set (cf_hypotheticals req). about h f)"
  obtain fs d where a: "apply_hypotheticals clk (cb_facts cb) (cf_hypotheticals req) = (fs, d)" by fastforce
  then obtain fs0 where run: "fst (apply_from clk 0 (cf_hypotheticals req)
      (cb_facts cb, \<lparr>cd_overridden_facts = [], cd_injected_count = 0, cd_novel_hypotheticals = []\<rparr>)) = fs0"
      "fs = sort_by_relevance fs0"
    by (auto simp: apply_hypotheticals_def split: prod.splits)
  have "filter ?P fs0 = filter ?P (fst (cb_facts cb, \<lparr>cd_overridden_facts = [], cd_injected_count = 0, cd_novel_hypotheticals = []\<rparr>))"
    unfolding run(1) [symmetric] by (rule filter_apply_from) (auto simp: about_def)
  then have "set (filter ?P fs0) = set (filter ?P (cb_facts cb))" by simp
  then have "{f \<in> set (cb_facts cb). ?P f} = {f \<in> set fs. ?P f}"
    unfolding set_filter by (simp only: run(2) set_sort_by_relevance)
  then show ?thesis using assms by (simp add: counterfactual_context_def a Let_def)
qed

lemma counterfactual_ignores_ceiling_witness:
  "\<exists>r. counterfactual_context (\<lambda>_. Some 5) (\<lambda>_ _. Inr (context_empty\<lparr>cb_facts := [sample_fact ClRestricted ''pay'']\<rparr>)) (\<lambda>_. 5) 0
      (Some (sample_caller (Some ClPublic))) ''5''
      \<lparr>cf_query = ''q'', cf_session = None, cf_max_tokens = None, cf_min_relevance = None,
       cf_hypotheticals = [sample_hypothetical]\<rparr>
      (session_store_new (user_store_new\<lparr>us_users := [(5, \<lparr>u_id = 5, u_external_id = None, u_name = ''Ann'', u_email = None,
         u_metadata = JNull, u_created_at = 0, u_updated_at = 0\<rparr>)]\<rparr>)) = Some (Inr r) \<and>
    sample_fact ClRestricted ''pay'' \<in> set (cfr_facts r) \<and> max_classification (sample_caller (Some ClPublic)) = ClPublic"
proof -
  let ?st = "session_store_new (user_store_new\<lparr>us_users := [(5, \<lparr>u_id = 5, u_external_id = None, u_name = ''Ann'', u_email = None,
         u_metadata = JNull, u_created_at = 0, u_updated_at = 0\<rparr>)]\<rparr>)"
  let ?u = "\<lparr>u_id = 5, u_external_id = None, u_name = ''Ann'', u_email = None, u_metadata = JNull, u_created_at = 0, u_updated_at = 0\<rparr>"
  let ?req = "\<lparr>cf_query = ''q'', cf_session = None, cf_max_tokens = None, cf_min_relevance = None,
       cf_hypotheticals = [sample_hypothetical]\<rparr>"
  let ?cb = "context_empty\<lparr>cb_facts := [sample_fact ClRestricted ''pay'']\<rparr>"
  have q: "trim (cf_query ?req) \<noteq> []" "cf_hypotheticals ?req \<noteq> []" by code_simp+
  have u: "find_user_with_access (\<lambda>_. Some 5) (caller_from_extension (Some (sample_caller (Some ClPublic)))) (trim ''5'') (ss_users ?st) =
      Some (Inr ?u)"
    by (simp add: find_user_with_access_def find_user_by_identifier_def get_user_def session_store_new_def
        caller_from_extension_def require_user_access_def sample_caller_def allows_user_def)
  have away: "\<not> about sample_hypothetical (sample_fact ClRestricted ''pay'')" by code_simp
  have m: "max_classification (sample_caller (Some ClPublic)) = ClPublic" by code_simp
  from counterfactual_ignores_ceiling [OF q u, where retrieve = "\<lambda>_ _. Inr ?cb" and cb = ?cb and clk = "\<lambda>_. 5" and latency = 0]
  show ?thesis using away m by auto
qed

end
