(* ===== verification/Spec2Isabelle.thy ===== *)
theory Spec2Isabelle
  imports Delta_Sync Auth Ingest_Queue Read_Path Promotions Regions Communities Episode_Processing Chat_Import Pipeline_Dag Attachment_Runs Document_Parsers Sealed_Store Goals_Narratives Clarifications Counterfactual
begin

text \<open>
  Mnemo. (Header to be completed as the development grows.)
\<close>

end
